(* ===== verification/Prelude.thy ===== *)
theory Prelude
  imports
    Complex_Main
    "HOL-Library.Char_ord"
    "HOL-Library.List_Lexorder"
    "HOL-Library.AList"
    "HOL-Library.Sublist"
    "HOL-Library.Monad_Syntax"
begin

text \<open>
  What the components share: Python's JSON-like values, its numbers and their order, the
  string operations the program uses, insertion-ordered dictionaries, errors as values of
  a sum type, and the generic facts about lists and association lists that the component
  proofs rest on.

  Text is a list of characters below 256. Python compares strings by code point; UTF-8
  keeps that order, so sorting the encoded text sorts the text.
\<close>

named_theorems py_str \<open>unfolding of the string helpers\<close>
named_theorems dict_simps \<open>facts on insertion-ordered dictionaries\<close>

section \<open>Values\<close>

text \<open>
  A Python float is a rational (every finite binary64 value is one), an infinity or NaN.
  Comparison with NaN is always false, as in Python.
\<close>

datatype pyfloat = Fin rat | PosInf | NegInf | NaN

datatype json =
    JNull
  | JBool bool
  | JInt int
  | JFloat pyfloat
  | JStr string
  | JList "json list"
  | JObj "(string \<times> json) list"

text \<open>Python's \<open>int | float\<close>; an \<open>int\<close> is compared with a float exactly.\<close>

datatype pynum = NumI int | NumF pyfloat

fun num_val :: "pynum \<Rightarrow> pyfloat" where
  "num_val (NumI i) = Fin (of_int i)"
| "num_val (NumF f) = f"

fun float_less :: "pyfloat \<Rightarrow> pyfloat \<Rightarrow> bool" where
  "float_less (Fin a) (Fin b) = (a < b)"
| "float_less (Fin _) PosInf = True"
| "float_less NegInf (Fin _) = True"
| "float_less NegInf PosInf = True"
| "float_less _ _ = False"

definition num_less :: "pynum \<Rightarrow> pynum \<Rightarrow> bool" where
  "num_less a b = float_less (num_val a) (num_val b)"

fun json_num :: "json \<Rightarrow> pynum option" where
  "json_num (JInt i) = Some (NumI i)"
| "json_num (JFloat f) = Some (NumF f)"
| "json_num (JBool b) = Some (NumI (if b then 1 else 0))"
| "json_num _ = None"

lemma float_less_irrefl [simp]: "\<not> float_less x x"
  by (cases x) auto

lemma float_less_trans: "float_less x y \<Longrightarrow> float_less y z \<Longrightarrow> float_less x z"
  by (cases x; cases y; cases z) auto

lemma float_less_asym: "float_less x y \<Longrightarrow> \<not> float_less y x"
  using float_less_trans float_less_irrefl by blast

lemma num_less_irrefl [simp]: "\<not> num_less x x"
  by (simp add: num_less_def)

lemma nan_unordered [simp]:
  "\<not> num_less (NumF NaN) x" "\<not> num_less x (NumF NaN)"
  by (cases "num_val x"; simp add: num_less_def)+

section \<open>Strings\<close>

definition quoted :: "string \<Rightarrow> string" where [py_str]:
  "quoted s = CHR 0x27 # s @ [CHR 0x27]"

text \<open>
  Python's \<open>repr\<close> of a string: single quotes unless the text has a single quote and no
  double quote; the quote, the backslash and the control characters are escaped.
\<close>

fun hex_digit :: "nat \<Rightarrow> char" where
  "hex_digit n = ''0123456789abcdef'' ! (n mod 16)"

definition repr_char :: "char \<Rightarrow> char \<Rightarrow> string" where [py_str]:
  "repr_char q c =
     (if c = q \<or> c = CHR 0x5C then [CHR 0x5C, c]
      else if c = CHR 0x0A then [CHR 0x5C, CHR ''n'']
      else if c = CHR 0x0D then [CHR 0x5C, CHR ''r'']
      else if c = CHR 0x09 then [CHR 0x5C, CHR ''t'']
      else if of_char c < (32 :: nat) \<or> of_char c = (127 :: nat)
        then [CHR 0x5C, CHR ''x'', hex_digit (of_char c div 16), hex_digit (of_char c)]
      else [c])"

definition py_repr :: "string \<Rightarrow> string" where [py_str]:
  "py_repr s =
     (let q = (if CHR 0x27 \<in> set s \<and> CHR 0x22 \<notin> set s then CHR 0x22 else CHR 0x27)
      in q # concat (map (repr_char q) s) @ [q])"

fun joins :: "string \<Rightarrow> string list \<Rightarrow> string" where
  "joins sep [] = []"
| "joins sep [x] = x"
| "joins sep (x # y # ys) = x @ sep @ joins sep (y # ys)"

fun digit :: "nat \<Rightarrow> char" where
  "digit n = ''0123456789'' ! (n mod 10)"

fun str_of_nat :: "nat \<Rightarrow> string" where
  "str_of_nat n = (if n < 10 then [digit n] else str_of_nat (n div 10) @ [digit n])"

declare str_of_nat.simps [simp del]

definition str_of_int :: "int \<Rightarrow> string" where [py_str]:
  "str_of_int i = (if i < 0 then CHR ''-'' # str_of_nat (nat (- i)) else str_of_nat (nat i))"

text \<open>\<open>s.partition(c)\<close>: the text before and after the first \<open>c\<close>.\<close>

definition before :: "char \<Rightarrow> string \<Rightarrow> string" where [py_str]:
  "before c s = takeWhile (\<lambda>x. x \<noteq> c) s"

definition after :: "char \<Rightarrow> string \<Rightarrow> string" where [py_str]:
  "after c s = drop 1 (dropWhile (\<lambda>x. x \<noteq> c) s)"

text \<open>\<open>s.rsplit(c, 1)\<close> of a string that contains \<open>c\<close>.\<close>

definition rbefore :: "char \<Rightarrow> string \<Rightarrow> string" where [py_str]:
  "rbefore c s = rev (after c (rev s))"

definition rafter :: "char \<Rightarrow> string \<Rightarrow> string" where [py_str]:
  "rafter c s = rev (before c (rev s))"

text \<open>\<open>s.split(c)\<close>.\<close>

fun split_on :: "char \<Rightarrow> string \<Rightarrow> string list" where
  "split_on c [] = [[]]"
| "split_on c (x # xs) =
     (if x = c then [] # split_on c xs
      else case split_on c xs of [] \<Rightarrow> [[x]] | y # ys \<Rightarrow> (x # y) # ys)"

lemma before_after: "c \<in> set s \<Longrightarrow> before c s @ c # after c s = s"
proof -
  assume "c \<in> set s"
  then have "dropWhile (\<lambda>x. x \<noteq> c) s = c # after c s"
    unfolding after_def
    by (induction s) auto
  then show ?thesis
    unfolding before_def by (metis takeWhile_dropWhile_id)
qed

lemma before_notin: "c \<notin> set (before c s)"
  unfolding before_def by (induction s) auto

lemma before_append: "c \<notin> set a \<Longrightarrow> before c (a @ c # b) = a"
  unfolding before_def by (induction a) auto

lemma after_append: "c \<notin> set a \<Longrightarrow> after c (a @ c # b) = b"
  unfolding after_def by (induction a) auto

lemma rsplit_append:
  assumes "c \<notin> set b"
  shows "rbefore c (a @ c # b) = a" and "rafter c (a @ c # b) = b"
  using assms after_append [of c "rev b" "rev a"] before_append [of c "rev b" "rev a"]
  by (simp_all add: rbefore_def rafter_def)

lemma rsplit_id: "c \<in> set s \<Longrightarrow> rbefore c s @ c # rafter c s = s"
proof -
  assume "c \<in> set s"
  then have "before c (rev s) @ c # after c (rev s) = rev s"
    by (intro before_after) simp
  then have "rev (before c (rev s) @ c # after c (rev s)) = s"
    by simp
  then show ?thesis
    by (simp add: rbefore_def rafter_def)
qed

lemma rafter_notin: "c \<notin> set (rafter c s)"
  using before_notin [of c "rev s"] by (simp add: rafter_def)

lemma split_on_nonempty [simp]: "split_on c s \<noteq> []"
  by (cases s) (auto split: list.splits)

lemma split_on_notin: "x \<in> set (split_on c s) \<Longrightarrow> c \<notin> set x"
proof (induction s arbitrary: x)
  case Nil
  then show ?case by simp
next
  case (Cons a s)
  then show ?case by (fastforce split: if_splits list.splits)
qed

lemma joins_split_on: "joins [c] (split_on c s) = s"
proof (induction s)
  case Nil
  then show ?case by simp
next
  case (Cons a s)
  obtain y ys where s: "split_on c s = y # ys"
    by (cases "split_on c s") auto
  with Cons show ?case by (cases ys) auto
qed

section \<open>Dictionaries and sorted sets\<close>

text \<open>
  A dictionary is an association list: \<open>AList.update\<close> overwrites a key in place and
  appends a new one at the end, which is Python's insertion order.
\<close>

type_synonym 'v dict = "(string \<times> 'v) list"

definition keys :: "('k \<times> 'v) list \<Rightarrow> 'k list" where [dict_simps]:
  "keys d = map fst d"

definition sorted_set :: "'a :: linorder list \<Rightarrow> 'a list" where
  "sorted_set xs = sort (remdups xs)"

lemma set_sorted_set [simp]: "set (sorted_set xs) = set xs"
  by (simp add: sorted_set_def)

lemma sorted_set_Nil [simp]: "sorted_set xs = [] \<longleftrightarrow> xs = []"
  by (metis set_empty set_sorted_set)

lemma distinct_sorted_set [simp]: "distinct (sorted_set xs)"
  by (simp add: sorted_set_def)

lemma sorted_sorted_set [simp]: "sorted (sorted_set xs)"
  by (simp add: sorted_set_def)

lemma sorted_set_canonical: "sorted_set xs = sorted_list_of_set (set xs)"
  by (simp add: sorted_set_def sorted_list_of_set_sort_remdups)

text \<open>\<open>sorted({x for x in xs if xs.count(x) > 1})\<close>.\<close>

definition duplicates :: "'a :: linorder list \<Rightarrow> 'a list" where
  "duplicates xs = sorted_set (filter (\<lambda>x. 1 < count_list xs x) xs)"

lemma count_list_pos: "0 < count_list xs a \<longleftrightarrow> a \<in> set xs"
  by (induction xs) auto

lemma count_list_gt_1: "distinct xs \<longleftrightarrow> (\<forall>x \<in> set xs. \<not> 1 < count_list xs x)"
proof (induction xs)
  case Nil
  then show ?case by simp
next
  case (Cons a xs)
  have "(\<forall>x \<in> set (a # xs). \<not> 1 < count_list (a # xs) x) \<longleftrightarrow>
      \<not> 0 < count_list xs a \<and> (\<forall>x \<in> set xs. \<not> 1 < count_list xs x)"
    by (simp add: less_Suc_eq_0_disj) (metis Suc_lessD less_one not_less_eq)
  with Cons.IH show ?case
    by (simp add: count_list_pos)
qed

lemma duplicates_Nil [simp]: "duplicates xs = [] \<longleftrightarrow> distinct xs"
  by (simp add: duplicates_def count_list_gt_1 filter_empty_conv)

lemma dict_update [dict_simps, simp]:
  "map_of (AList.update k v d) = (map_of d)(k \<mapsto> v)"
  by (simp add: update_conv')

lemma keys_iff [dict_simps]: "k \<in> set (keys d) \<longleftrightarrow> map_of d k \<noteq> None"
  by (simp add: keys_def map_of_eq_None_iff)

section \<open>Errors as values\<close>

text \<open>A function that raises returns \<open>Inl e\<close>; a loop of such calls stops at the first.\<close>

fun each :: "('a \<Rightarrow> 'e + unit) \<Rightarrow> 'a list \<Rightarrow> 'e + unit" where
  "each f [] = Inr ()"
| "each f (x # xs) = (case f x of Inl e \<Rightarrow> Inl e | Inr _ \<Rightarrow> each f xs)"

definition guard :: "bool \<Rightarrow> 'e \<Rightarrow> 'e + unit" where
  "guard bad e = (if bad then Inl e else Inr ())"

fun andthen :: "'e + 'a \<Rightarrow> ('a \<Rightarrow> 'e + 'b) \<Rightarrow> 'e + 'b" where
  "andthen (Inl e) f = Inl e"
| "andthen (Inr x) f = f x"

definition ok :: "'e + 'a \<Rightarrow> bool" where
  "ok r = (case r of Inl _ \<Rightarrow> False | Inr _ \<Rightarrow> True)"

lemma ok_simps [simp]: "ok (Inr x)" "\<not> ok (Inl e)"
  by (simp_all add: ok_def)

lemma ok_each [simp]: "ok (each f xs) \<longleftrightarrow> (\<forall>x \<in> set xs. ok (f x))"
  by (induction xs) (auto simp: ok_def split: sum.splits)

lemma ok_guard [simp]: "ok (guard bad e) \<longleftrightarrow> \<not> bad"
  by (simp add: guard_def)

lemma andthen_Inr: "andthen r f = Inr y \<longleftrightarrow> (\<exists>x. r = Inr x \<and> f x = Inr y)"
  by (cases r) auto

lemma andthen_unit: "andthen (r :: 'e + unit) f = Inr y \<longleftrightarrow> r = Inr () \<and> f () = Inr y"
  by (cases r) auto

lemma ok_andthen: "ok (andthen r f) \<longleftrightarrow> (\<exists>x. r = Inr x \<and> ok (f x))"
  by (cases r) auto

lemma ok_unit: "ok (r :: 'e + unit) \<longleftrightarrow> r = Inr ()"
  by (cases r) auto

text \<open>The results of a function that may raise, collected over a list.\<close>

fun collect :: "('a \<Rightarrow> 'e + 'b) \<Rightarrow> 'a list \<Rightarrow> 'e + 'b list" where
  "collect f [] = Inr []"
| "collect f (x # xs) = andthen (f x) (\<lambda>y. andthen (collect f xs) (\<lambda>ys. Inr (y # ys)))"

lemma collect_Inr: "collect f xs = Inr ys \<longleftrightarrow> list_all2 (\<lambda>x y. f x = Inr y) xs ys"
  by (induction xs arbitrary: ys) (auto simp: andthen_Inr list_all2_Cons1)

text \<open>A sequence of \<open>if bad: raise e\<close> statements raises the first whose test holds.\<close>

definition raise_first :: "(bool \<times> 'e) list \<Rightarrow> 'e + unit" where
  "raise_first checks = each (\<lambda>(bad, e). guard bad e) checks"

lemma ok_raise_first [simp]: "ok (raise_first cs) \<longleftrightarrow> (\<forall>c \<in> set cs. \<not> fst c)"
  by (auto simp: raise_first_def)

lemma raise_first_all: "raise_first cs = Inr () \<longleftrightarrow> list_all (\<lambda>c. \<not> fst c) cs"
proof (induction cs)
  case (Cons c cs)
  then show ?case
    by (cases c; cases "fst c") (simp_all add: raise_first_def guard_def)
qed (simp add: raise_first_def)

lemma list_all_concat: "list_all P (concat xss) \<longleftrightarrow> list_all (list_all P) xss"
  by (induction xss) auto

lemma list_all_conj: "list_all (\<lambda>x. P x \<and> Q x) xs \<longleftrightarrow> list_all P xs \<and> list_all Q xs"
  by (induction xs) auto

lemma raise_first_Inr: "raise_first cs = Inr () \<longleftrightarrow> (\<forall>c \<in> set cs. \<not> fst c)"
  using ok_raise_first [of cs] by (simp add: ok_unit)

lemma each_Inr: "each f xs = Inr () \<longleftrightarrow> (\<forall>x \<in> set xs. f x = Inr ())"
  using ok_each [of f xs] by (simp add: ok_unit)

lemma guard_Inr [simp]: "guard bad e = Inr () \<longleftrightarrow> \<not> bad"
  by (simp add: guard_def)

section \<open>Character classes and anchored patterns\<close>

definition lower_alpha :: "char \<Rightarrow> bool" where [py_str]:
  "lower_alpha c \<longleftrightarrow> (97 :: nat) \<le> of_char c \<and> of_char c \<le> (122 :: nat)"

definition ascii_digit :: "char \<Rightarrow> bool" where [py_str]:
  "ascii_digit c \<longleftrightarrow> (48 :: nat) \<le> of_char c \<and> of_char c \<le> (57 :: nat)"

definition lower_word :: "char \<Rightarrow> bool" where [py_str]:
  "lower_word c \<longleftrightarrow> lower_alpha c \<or> ascii_digit c \<or> c = CHR ''_''"

text \<open>
  \<open>$\<close> also matches before a newline that ends the text, so a pattern \<open>^...$\<close> used with
  \<open>match\<close> accepts a word followed by one newline.
\<close>

definition dollar :: "(string \<Rightarrow> bool) \<Rightarrow> string \<Rightarrow> bool" where [py_str]:
  "dollar m s \<longleftrightarrow> m s \<or> (s \<noteq> [] \<and> last s = CHR 0x0A \<and> m (butlast s))"

text \<open>The pattern \<open>[a-z][a-z0-9_]*\<close>.\<close>

fun lower_ident :: "string \<Rightarrow> bool" where
  "lower_ident [] = False"
| "lower_ident (c # cs) = (lower_alpha c \<and> list_all lower_word cs)"

lemma lower_ident_no_dot: "lower_ident s \<Longrightarrow> CHR ''.'' \<notin> set s"
  by (cases s) (auto simp: py_str list_all_iff)

section \<open>Reading integers\<close>

text \<open>\<open>int(text)\<close> of Python, or None where it raises \<open>ValueError\<close>.\<close>

definition py_space :: "char \<Rightarrow> bool" where
  "py_space c \<longleftrightarrow> of_char c \<in> {9, 10, 11, 12, 13, 28, 29, 30, 31, 32, 133, 160 :: nat}"

definition strip :: "string \<Rightarrow> string" where
  "strip s = rev (dropWhile py_space (rev (dropWhile py_space s)))"

definition digit_value :: "char \<Rightarrow> int" where
  "digit_value c = int (of_char c) - 48"

definition parse_digits :: "string \<Rightarrow> int option" where
  "parse_digits s =
     (let groups = split_on (CHR ''_'') s; ds = concat groups in
      if list_all (\<lambda>g. g \<noteq> []) groups \<and> list_all ascii_digit ds \<and> length ds \<le> 4300
      then Some (fold (\<lambda>c n. 10 * n + digit_value c) ds 0) else None)"

definition parse_int :: "string \<Rightarrow> int option" where
  "parse_int text =
     (case strip text of
        [] \<Rightarrow> None
      | c # r \<Rightarrow>
          if c = CHR ''-'' then map_option uminus (parse_digits r)
          else if c = CHR ''+'' then parse_digits r
          else parse_digits (c # r))"

lemma digit_facts:
  "digit_value (digit n) = int (n mod 10) \<and> ascii_digit (digit n) \<and> digit n \<noteq> CHR ''_'' \<and>
   digit n \<noteq> CHR ''-'' \<and> digit n \<noteq> CHR ''+'' \<and> \<not> py_space (digit n)"
proof -
  have "list_all (\<lambda>k. let d = ''0123456789'' ! k in
      digit_value d = int k \<and> ascii_digit d \<and> d \<noteq> CHR ''_'' \<and> d \<noteq> CHR ''-'' \<and> d \<noteq> CHR ''+'' \<and>
      \<not> py_space d) [0..<10]"
    by code_simp
  moreover have "n mod 10 \<in> set [0..<10]" by simp
  ultimately show ?thesis unfolding list_all_iff Let_def digit.simps by (rule bspec)
qed

declare digit.simps [simp del]

lemma digit_value_digit [simp]: "digit_value (digit n) = int (n mod 10)" "ascii_digit (digit n)"
  "digit n \<noteq> CHR ''_''" "digit n \<noteq> CHR ''-''" "digit n \<noteq> CHR ''+''" "\<not> py_space (digit n)"
  using digit_facts [of n] by simp_all

definition digits :: "string \<Rightarrow> bool" where
  "digits s \<longleftrightarrow> (\<forall>c \<in> set s. \<exists>n. c = digit n)"

lemma str_of_nat_digits: "digits (str_of_nat n)"
proof (induction n rule: str_of_nat.induct)
  case (1 n)
  show ?case
  proof (cases "n < 10")
    case True
    then show ?thesis by (subst str_of_nat.simps) (auto simp: digits_def)
  next
    case False
    with 1 show ?thesis by (subst str_of_nat.simps) (auto simp: digits_def)
  qed
qed

lemma str_of_nat_nonempty: "str_of_nat n \<noteq> []"
  by (subst str_of_nat.simps) simp

lemma split_on_absent: "c \<notin> set s \<Longrightarrow> split_on c s = [s]"
  by (induction s) auto

lemma strip_id:
  assumes "\<forall>c \<in> set s. \<not> py_space c"
  shows "strip s = s"
proof -
  have d: "dropWhile py_space xs = xs" if "\<forall>c \<in> set xs. \<not> py_space c" for xs
    using that by (cases xs) auto
  from d [of s] d [of "rev s"] assms show ?thesis by (simp add: strip_def)
qed

text \<open>Digits, with any number of zeros in front, are read as the number they stand for.\<close>

lemma fold_digits: "fold (\<lambda>c n. 10 * n + digit_value c) (str_of_nat m) 0 = int m"
proof (induction m rule: str_of_nat.induct)
  case (1 m)
  show ?case
  proof (cases "m < 10")
    case True
    then show ?thesis by (subst str_of_nat.simps) simp
  next
    case False
    have "10 * int (m div 10) + int (m mod 10) = int m" by presburger
    with 1 [OF False] False show ?thesis by (subst str_of_nat.simps) simp
  qed
qed

lemma parse_int_digits:
  assumes "digits s" and "s \<noteq> []" and "length s \<le> 4300"
  shows "parse_int s = Some (fold (\<lambda>c n. 10 * n + digit_value c) s 0)"
proof -
  have strip: "strip s = s" using assms(1) by (intro strip_id) (auto simp: digits_def)
  have "CHR ''_'' \<notin> set s" using assms(1) digit_value_digit(3) unfolding digits_def by metis
  moreover have "list_all ascii_digit s" using assms(1) by (auto simp: list_all_iff digits_def)
  ultimately have "parse_digits s = Some (fold (\<lambda>c n. 10 * n + digit_value c) s 0)"
    using assms(2,3) by (simp add: parse_digits_def split_on_absent)
  moreover obtain c r where s: "s = c # r" using assms(2) by (cases s) auto
  moreover have "c \<noteq> CHR ''-''" "c \<noteq> CHR ''+''" using assms(1) by (auto simp: s digits_def)
  ultimately show ?thesis using strip by (simp add: parse_int_def)
qed

declare digit.simps [simp]

end
