(* ===== verification/Readiness.thy ===== *)
theory Readiness
  imports Prelude
begin

text \<open>
  \<open>orchestrator/readiness.py\<close>: the one vocabulary of dependency readiness shared by the
  scheduler, the resume operation, the dispatcher and the janitor. The abstract
  specification is a severity order on edges: the state of a task is the worst state of
  its dependency edges. The interface \<open>dependency_policy\<close> states what the four clients
  rely on, and \<open>doom_step\<close> is the abstract step that every propagation sweep refines.
\<close>

section \<open>Statuses\<close>

datatype task_status =
    Pending
  | Running
  | Succeeded
  | Failed
  | Cancelled
  | Cancelled_Dirty
  | Skipped

definition READY_DEPENDENCY_STATUSES :: "task_status set" where
  "READY_DEPENDENCY_STATUSES = {Succeeded, Skipped}"

definition FAILED_DEPENDENCY_STATUSES :: "task_status set" where
  "FAILED_DEPENDENCY_STATUSES = {Failed}"

definition CANCELLED_DEPENDENCY_STATUSES :: "task_status set" where
  "CANCELLED_DEPENDENCY_STATUSES = {Cancelled, Cancelled_Dirty}"

lemmas dependency_vocabulary =
  READY_DEPENDENCY_STATUSES_def FAILED_DEPENDENCY_STATUSES_def
  CANCELLED_DEPENDENCY_STATUSES_def

text \<open>The five strings \<open>dependency_state\<close> returns.\<close>

datatype dep_state =
    Dep_Ready
  | Dep_Blocked
  | Dep_Cancelled
  | Dep_Cancelled_Dirty
  | Dep_Failed

type_synonym status_map = "string \<rightharpoonup> task_status"

text \<open>\<open>status_by_id.get(dep) in S\<close>.\<close>

fun status_in :: "task_status set \<Rightarrow> task_status option \<Rightarrow> bool" where
  "status_in S None = False"
| "status_in S (Some s) = (s \<in> S)"

definition dependencies_ready :: "string list \<Rightarrow> status_map \<Rightarrow> bool" where
  "dependencies_ready deps status_by_id =
     list_all (\<lambda>dep. status_in READY_DEPENDENCY_STATUSES (status_by_id dep)) deps"

definition dependency_state :: "string list \<Rightarrow> status_map \<Rightarrow> dep_state" where
  "dependency_state dep_ids status_by_id =
     (if list_ex (\<lambda>dep. status_by_id dep = None) dep_ids then Dep_Failed
      else if list_ex (\<lambda>dep. status_in FAILED_DEPENDENCY_STATUSES (status_by_id dep)) dep_ids
        then Dep_Failed
      else if list_ex (\<lambda>dep. status_by_id dep = Some Cancelled_Dirty) dep_ids
        then Dep_Cancelled_Dirty
      else if list_ex (\<lambda>dep. status_by_id dep = Some Cancelled) dep_ids then Dep_Cancelled
      else if list_ex (\<lambda>dep. \<not> status_in READY_DEPENDENCY_STATUSES (status_by_id dep)) dep_ids
        then Dep_Blocked
      else Dep_Ready)"

section \<open>The severity order\<close>

fun severity :: "dep_state \<Rightarrow> nat" where
  "severity Dep_Ready = 0"
| "severity Dep_Blocked = 1"
| "severity Dep_Cancelled = 2"
| "severity Dep_Cancelled_Dirty = 3"
| "severity Dep_Failed = 4"

lemma severity_inj: "severity a = severity b \<Longrightarrow> a = b"
  by (cases a; cases b) auto

instantiation dep_state :: linorder
begin

definition less_eq_dep_state :: "dep_state \<Rightarrow> dep_state \<Rightarrow> bool" where
  "less_eq_dep_state a b \<longleftrightarrow> severity a \<le> severity b"

definition less_dep_state :: "dep_state \<Rightarrow> dep_state \<Rightarrow> bool" where
  "less_dep_state a b \<longleftrightarrow> severity a < severity b"

instance
  by standard (auto simp: less_eq_dep_state_def less_dep_state_def intro: severity_inj)

end

lemmas severity_order = less_eq_dep_state_def less_dep_state_def

text \<open>The state of one edge, from the status of the upstream task.\<close>

fun edge_state :: "task_status option \<Rightarrow> dep_state" where
  "edge_state None = Dep_Failed"
| "edge_state (Some Failed) = Dep_Failed"
| "edge_state (Some Cancelled_Dirty) = Dep_Cancelled_Dirty"
| "edge_state (Some Cancelled) = Dep_Cancelled"
| "edge_state (Some Succeeded) = Dep_Ready"
| "edge_state (Some Skipped) = Dep_Ready"
| "edge_state (Some Pending) = Dep_Blocked"
| "edge_state (Some Running) = Dep_Blocked"

definition worst_edge :: "string list \<Rightarrow> status_map \<Rightarrow> dep_state" where
  "worst_edge deps m = Max (insert Dep_Ready (edge_state ` m ` set deps))"

lemma dep_ready_least [simp]: "Dep_Ready \<le> x"
  by (simp add: severity_order)

lemma dep_failed_greatest [simp]: "x \<le> Dep_Failed"
  by (cases x) (simp_all add: severity_order)

lemma worst_edge_Nil [simp]: "worst_edge [] m = Dep_Ready"
  by (simp add: worst_edge_def)

lemma worst_edge_Cons: "worst_edge (d # ds) m = max (edge_state (m d)) (worst_edge ds m)"
  by (simp add: worst_edge_def Max_insert insert_commute [of Dep_Ready])

lemma edge_state_cases:
  "edge_state o' = Dep_Failed \<longleftrightarrow> o' = None \<or> o' = Some Failed"
  "edge_state o' = Dep_Cancelled_Dirty \<longleftrightarrow> o' = Some Cancelled_Dirty"
  "edge_state o' = Dep_Cancelled \<longleftrightarrow> o' = Some Cancelled"
  "edge_state o' = Dep_Blocked \<longleftrightarrow> o' = Some Pending \<or> o' = Some Running"
  "edge_state o' = Dep_Ready \<longleftrightarrow> o' = Some Succeeded \<or> o' = Some Skipped"
  by (cases o' rule: edge_state.cases; simp)+

lemma dependency_state_Cons:
  "dependency_state (d # ds) m = max (edge_state (m d)) (dependency_state ds m)"
  by (cases "m d" rule: edge_state.cases)
    (auto simp: dependency_state_def dependency_vocabulary severity_order max_def list_ex_iff)

lemma dependency_state_worst: "dependency_state deps m = worst_edge deps m"
proof (induction deps)
  case Nil
  then show ?case by (simp add: dependency_state_def)
next
  case (Cons d ds)
  then show ?case by (simp add: worst_edge_Cons dependency_state_Cons)
qed

lemma dependency_state_Nil [simp]: "dependency_state [] m = Dep_Ready"
  by (simp add: dependency_state_def)

lemma edge_le_dependency_state: "d \<in> set deps \<Longrightarrow> edge_state (m d) \<le> dependency_state deps m"
  by (simp add: dependency_state_worst worst_edge_def)

lemma dependency_state_attained:
  "dependency_state deps m \<noteq> Dep_Ready \<Longrightarrow>
   \<exists>d \<in> set deps. edge_state (m d) = dependency_state deps m"
proof (induction deps)
  case Nil
  then show ?case by simp
next
  case (Cons d ds)
  then show ?case by (auto simp: dependency_state_Cons max_def split: if_splits)
qed

lemma dependency_state_cong:
  "(\<And>d. d \<in> set deps \<Longrightarrow> m d = m' d) \<Longrightarrow> dependency_state deps m = dependency_state deps m'"
  by (simp add: dependency_state_worst worst_edge_def image_image cong: image_cong)

lemma ready_iff_state: "dependencies_ready deps m \<longleftrightarrow> dependency_state deps m = Dep_Ready"
proof (induction deps)
  case Nil
  then show ?case by (simp add: dependencies_ready_def)
next
  case (Cons d ds)
  have "edge_state (m d) = Dep_Ready \<longleftrightarrow> status_in READY_DEPENDENCY_STATUSES (m d)"
    by (cases "m d") (auto simp: edge_state_cases dependency_vocabulary)
  with Cons show ?case
    by (auto simp: dependency_state_Cons dependencies_ready_def max_def
        intro: antisym)
qed

section \<open>The interface the clients use\<close>

text \<open>
  The scheduler and the resume operation ask for \<open>ready\<close>, the dispatcher and the janitor
  for \<open>state\<close>. They rely on the two answers agreeing, on the answer depending on the
  dependencies' statuses only, and on every state being the state of some edge.
\<close>

locale dependency_policy =
  fixes ready :: "string list \<Rightarrow> status_map \<Rightarrow> bool"
    and state :: "string list \<Rightarrow> status_map \<Rightarrow> dep_state"
  assumes ready_state: "ready ds m \<longleftrightarrow> state ds m = Dep_Ready"
    and local_state: "(\<And>d. d \<in> set ds \<Longrightarrow> m d = m' d) \<Longrightarrow> state ds m = state ds m'"
    and state_bounds: "d \<in> set ds \<Longrightarrow> edge_state (m d) \<le> state ds m"
    and state_attained: "state ds m \<noteq> Dep_Ready \<Longrightarrow>
      \<exists>d \<in> set ds. edge_state (m d) = state ds m"
begin

text \<open>A task is run only when every upstream result can be reused.\<close>

lemma ready_upstream:
  assumes "ready ds m" and "d \<in> set ds"
  shows "m d = Some Succeeded \<or> m d = Some Skipped"
proof -
  from assms have "edge_state (m d) \<le> Dep_Ready"
    using ready_state state_bounds by metis
  then have "edge_state (m d) = Dep_Ready"
    by (simp add: antisym)
  then show ?thesis by (simp add: edge_state_cases)
qed

lemma upstream_ready:
  assumes "\<And>d. d \<in> set ds \<Longrightarrow> m d = Some Succeeded \<or> m d = Some Skipped"
  shows "ready ds m"
proof (rule ccontr)
  assume "\<not> ready ds m"
  then have "state ds m \<noteq> Dep_Ready" by (simp add: ready_state)
  then obtain d where "d \<in> set ds" "edge_state (m d) = state ds m"
    using state_attained by blast
  with assms [of d] \<open>state ds m \<noteq> Dep_Ready\<close> show False by auto
qed

lemma doomed_upstream:
  assumes "Dep_Blocked < state ds m"
  obtains d where "d \<in> set ds"
    and "m d = None \<or> m d \<in> Some ` {Failed, Cancelled, Cancelled_Dirty}"
proof -
  from assms have "state ds m \<noteq> Dep_Ready"
    by (auto simp: severity_order)
  then obtain d where d: "d \<in> set ds" "edge_state (m d) = state ds m"
    using state_attained by blast
  with assms have "m d = None \<or> m d \<in> Some ` {Failed, Cancelled, Cancelled_Dirty}"
    by (cases "m d" rule: edge_state.cases) (auto simp: severity_order)
  with d(1) show thesis by (rule that)
qed

end

interpretation readiness: dependency_policy dependencies_ready dependency_state
  by unfold_locales
    (simp_all add: ready_iff_state edge_le_dependency_state dependency_state_attained
      cong: dependency_state_cong)

section \<open>Properties\<close>

text \<open>
  The state of a task is the worst state among its dependency edges, in the order
  ready, blocked, cancelled, cancelled dirty, failed; a missing upstream row counts as
  failed and a task without dependencies is ready.
\<close>

theorem dependency_state_is_worst_edge:
  "dependency_state deps m = Max (insert Dep_Ready ((edge_state \<circ> m) ` set deps))"
  by (simp add: dependency_state_worst worst_edge_def image_comp)

text \<open>
  A task is ready exactly when every upstream task succeeded or was skipped, and then
  \<open>dependency_state\<close> says so too.
\<close>

theorem ready_iff_upstream_reusable:
  "(dependencies_ready deps m \<longleftrightarrow> m ` set deps \<subseteq> {Some Succeeded, Some Skipped}) \<and>
   (dependencies_ready deps m \<longleftrightarrow> dependency_state deps m = Dep_Ready)"
proof
  show "dependencies_ready deps m \<longleftrightarrow> m ` set deps \<subseteq> {Some Succeeded, Some Skipped}"
    using readiness.ready_upstream [of deps m] readiness.upstream_ready [of deps m]
    by (auto simp: image_subset_iff)
qed (rule ready_iff_state)

end
