(* ===== verification/Doom.thy ===== *)
theory Doom
  imports Readiness
begin

text \<open>
  The abstract specification of the propagation sweeps: a pending task some of whose
  dependency edges is terminal for it becomes terminal itself, in any order. The theory
  shows that every exhaustive sequence of such steps dooms the same set of tasks, the
  tasks that reach a missing, failed or cancelled task through pending ones, whatever the
  order in which a sweep visits the rows.
\<close>

fun doom_status :: "dep_state \<Rightarrow> task_status option" where
  "doom_status Dep_Failed = Some Failed"
| "doom_status Dep_Cancelled_Dirty = Some Cancelled_Dirty"
| "doom_status Dep_Cancelled = Some Cancelled"
| "doom_status _ = None"

definition bad_upstream :: "task_status option \<Rightarrow> bool" where
  "bad_upstream s \<longleftrightarrow> s = None \<or> s \<in> Some ` {Failed, Cancelled, Cancelled_Dirty}"

text \<open>\<open>scope\<close> gives the dependencies of the tasks a sweep looks at.\<close>

type_synonym scope = "string \<rightharpoonup> string list"

inductive doom_step :: "scope \<Rightarrow> status_map \<Rightarrow> status_map \<Rightarrow> bool" for scope where
  doom: "scope t = Some ds \<Longrightarrow> m t = Some Pending \<Longrightarrow>
    doom_status (dependency_state ds m) = Some s \<Longrightarrow> doom_step scope m (m(t \<mapsto> s))"

inductive_cases doom_stepE: "doom_step scope m m'"

inductive doomed :: "scope \<Rightarrow> status_map \<Rightarrow> string \<Rightarrow> bool" for scope m where
  direct: "scope t = Some ds \<Longrightarrow> m t = Some Pending \<Longrightarrow> d \<in> set ds \<Longrightarrow>
    bad_upstream (m d) \<Longrightarrow> doomed scope m t"
| through: "scope t = Some ds \<Longrightarrow> m t = Some Pending \<Longrightarrow> d \<in> set ds \<Longrightarrow>
    doomed scope m d \<Longrightarrow> doomed scope m t"

definition exhausted :: "scope \<Rightarrow> status_map \<Rightarrow> bool" where
  "exhausted scope m \<longleftrightarrow>
     (\<forall>t ds. scope t = Some ds \<longrightarrow> m t = Some Pending \<longrightarrow>
        doom_status (dependency_state ds m) = None)"

abbreviation doom_steps :: "scope \<Rightarrow> status_map \<Rightarrow> status_map \<Rightarrow> bool" where
  "doom_steps scope \<equiv> (doom_step scope)\<^sup>*\<^sup>*"

lemma doom_status_iff: "doom_status x \<noteq> None \<longleftrightarrow> Dep_Blocked < x"
  by (cases x) (auto simp: severity_order)

lemma doom_status_bad: "doom_status x = Some s \<Longrightarrow> s \<in> {Failed, Cancelled, Cancelled_Dirty}"
  by (cases x) auto

lemma bad_edge: "bad_upstream o' \<longleftrightarrow> Dep_Blocked < edge_state o'"
  by (cases o' rule: edge_state.cases) (auto simp: bad_upstream_def severity_order)

lemma doom_status_deps:
  "doom_status (dependency_state ds m) \<noteq> None \<longleftrightarrow> (\<exists>d \<in> set ds. bad_upstream (m d))"
proof
  assume "doom_status (dependency_state ds m) \<noteq> None"
  then have "Dep_Blocked < dependency_state ds m"
    by (simp only: doom_status_iff)
  then show "\<exists>d \<in> set ds. bad_upstream (m d)"
    using readiness.doomed_upstream unfolding bad_upstream_def by metis
next
  assume "\<exists>d \<in> set ds. bad_upstream (m d)"
  then obtain d where "d \<in> set ds" "Dep_Blocked < edge_state (m d)"
    by (auto simp: bad_edge)
  then have "Dep_Blocked < dependency_state ds m"
    using readiness.state_bounds less_le_trans by blast
  then show "doom_status (dependency_state ds m) \<noteq> None"
    by (simp only: doom_status_iff)
qed

text \<open>What every run of doom steps keeps.\<close>

lemma doom_steps_sound:
  assumes "doom_steps scope m0 m"
  shows "m t = m0 t \<or> m0 t = Some Pending \<and> bad_upstream (m t) \<and> m t \<noteq> None \<and> doomed scope m0 t"
  using assms
proof (induction arbitrary: t rule: rtranclp_induct)
  case base
  then show ?case by simp
next
  case (step m m')
  from step.hyps(2) obtain u ds s where u: "scope u = Some ds" "m u = Some Pending"
      "doom_status (dependency_state ds m) = Some s" "m' = m(u \<mapsto> s)"
    by (auto elim: doom_stepE)
  show ?case
  proof (cases "t = u")
    case False
    with u step.IH [of t] show ?thesis by simp
  next
    case True
    from u(2) step.IH [of u] have pend: "m0 u = Some Pending"
      by auto
    from u(3) obtain d where d: "d \<in> set ds" "bad_upstream (m d)"
      using doom_status_deps by blast
    have "doomed scope m0 u"
    proof (cases "m d = m0 d")
      case True
      with d show ?thesis
        by (metis doomed.direct pend u(1))
    next
      case False
      with step.IH [of d] have "doomed scope m0 d" by blast
      with d(1) show ?thesis
        by (metis doomed.through pend u(1))
    qed
    moreover have "bad_upstream (Some s)"
      using u(3) by (auto dest!: doom_status_bad simp: bad_upstream_def)
    ultimately show ?thesis
      using True u(4) pend by simp
  qed
qed

lemma doomed_pending: "doomed scope m t \<Longrightarrow> m t = Some Pending"
  by (erule doomed.cases) simp_all

lemma exhausted_dooms:
  assumes steps: "doom_steps scope m0 m" and ex: "exhausted scope m"
  shows "doomed scope m0 t \<Longrightarrow> m t \<noteq> Some Pending \<and> bad_upstream (m t)"
proof (induction rule: doomed.induct)
  case (direct t ds d)
  have "bad_upstream (m d)"
    using doom_steps_sound [OF steps, of d] direct.hyps(4) by auto
  with direct.hyps have "m t \<noteq> Some Pending"
    using ex doom_status_deps unfolding exhausted_def by metis
  with direct.hyps(2) show ?case
    using doom_steps_sound [OF steps, of t] by auto
next
  case (through t ds d)
  with ex have "m t \<noteq> Some Pending"
    using doom_status_deps unfolding exhausted_def by metis
  with through.hyps(2) show ?case
    using doom_steps_sound [OF steps, of t] by auto
qed

text \<open>A task with an absent or failed dependency can only be failed, not cancelled.\<close>

lemma missing_dependency_fails:
  assumes "doom_steps scope m0 m" and "scope t = Some ds" and "d \<in> set ds"
    and "m0 d = None \<or> m0 d = Some Failed"
  shows "m d = m0 d \<and> (m t = m0 t \<or> m t = Some Failed)"
  using assms(1)
proof (induction rule: rtranclp_induct)
  case base
  then show ?case by simp
next
  case (step m m')
  from step.hyps(2) obtain u ds' s where u: "scope u = Some ds'" "m u = Some Pending"
      "doom_status (dependency_state ds' m) = Some s" "m' = m(u \<mapsto> s)"
    by (auto elim: doom_stepE)
  have "u \<noteq> d" using u(2) step.IH assms(4) by auto
  moreover have "s = Failed" if "u = t"
  proof -
    have "edge_state (m d) = Dep_Failed" using step.IH assms(4) by (auto simp: edge_state_cases)
    with edge_le_dependency_state [OF assms(3), of m] have "dependency_state ds m = Dep_Failed"
      using dep_failed_greatest by (metis antisym)
    with u(1,3) that assms(2) show ?thesis by simp
  qed
  ultimately show ?case using step.IH u(4) by auto
qed

theorem exhausted_run:
  assumes "doom_steps scope m0 m" and "exhausted scope m"
  shows "m t = m0 t \<and> \<not> doomed scope m0 t \<or>
    doomed scope m0 t \<and> m t \<in> Some ` {Failed, Cancelled, Cancelled_Dirty}"
  using doom_steps_sound [OF assms(1), of t] exhausted_dooms [OF assms, of t]
    doomed_pending [of scope m0 t]
  by (auto simp: bad_upstream_def)

text \<open>Two exhaustive sweeps, in whatever order, doom the same tasks.\<close>

corollary sweeps_agree:
  assumes "doom_steps scope m0 m" "exhausted scope m"
    and "doom_steps scope m0 m'" "exhausted scope m'"
  shows "m t = Some Pending \<longleftrightarrow> m' t = Some Pending"
  using exhausted_run [OF assms(1,2), of t] exhausted_run [OF assms(3,4), of t] by auto

end
