(* ===== verification/Errors.thy ===== *)
theory Errors
  imports Prelude
begin

text \<open>
  \<open>core/errors.py\<close>: the domain error hierarchy and its mapping to problem+json. Each
  operation of the later theories that raises returns \<open>Inl\<close> of an \<open>api_error\<close>.
\<close>

datatype error_class =
    SfmApiError
  | BadRequestError
  | NotFoundError
  | ConflictError
  | ValidationError
  | TenantViolationError
  | CapabilityUnavailableError
  | BackendUnavailableError
  | PycolmapUnavailableError
  | QuotaExceededError
  | StorageError

text \<open>The class attributes \<open>status_code\<close>, \<open>error_type\<close> and \<open>title\<close>.\<close>

fun class_attrs :: "error_class \<Rightarrow> int \<times> string \<times> string" where
  "class_attrs SfmApiError = (500, ''internal'', ''Internal error'')"
| "class_attrs BadRequestError = (400, ''bad_request'', ''Bad request'')"
| "class_attrs NotFoundError = (404, ''not_found'', ''Resource not found'')"
| "class_attrs ConflictError = (409, ''conflict'', ''Conflict'')"
| "class_attrs ValidationError = (422, ''validation'', ''Validation error'')"
| "class_attrs TenantViolationError =
     (403, ''tenant_violation'', ''Tenant boundary violation'')"
| "class_attrs CapabilityUnavailableError =
     (501, ''capability_unavailable'', ''Capability not available in this deployment'')"
| "class_attrs BackendUnavailableError =
     (501, ''backend_unavailable'', ''Backend engine not available in this deployment'')"
| "class_attrs PycolmapUnavailableError =
     (501, ''pycolmap_unavailable'', ''pycolmap not available in this deployment'')"
| "class_attrs QuotaExceededError = (429, ''quota_exceeded'', ''Quota exceeded'')"
| "class_attrs StorageError = (507, ''storage'', ''Storage error'')"

definition status_code :: "error_class \<Rightarrow> int" where
  "status_code c = fst (class_attrs c)"

definition error_type :: "error_class \<Rightarrow> string" where
  "error_type c = fst (snd (class_attrs c))"

definition title :: "error_class \<Rightarrow> string" where
  "title c = snd (snd (class_attrs c))"

text \<open>The base class, among the modelled classes; the root has none.\<close>

fun base_class :: "error_class \<Rightarrow> error_class option" where
  "base_class SfmApiError = None"
| "base_class BackendUnavailableError = Some CapabilityUnavailableError"
| "base_class PycolmapUnavailableError = Some BackendUnavailableError"
| "base_class _ = Some SfmApiError"

text \<open>\<open>isinstance\<close> along the hierarchy, which an \<open>except\<close> clause tests.\<close>

fun is_backend_unavailable :: "error_class \<Rightarrow> bool" where
  "is_backend_unavailable c =
     (c = BackendUnavailableError \<or> base_class c = Some BackendUnavailableError)"

record api_error =
  err_class :: error_class
  err_detail :: string
  err_extras :: "json dict"

text \<open>\<open>SfmApiError.__init__\<close>: an empty detail falls back to the class title.\<close>

definition mk_error :: "error_class \<Rightarrow> string \<Rightarrow> json dict \<Rightarrow> api_error" where
  "mk_error c detail extras =
     \<lparr>err_class = c, err_detail = (if detail = [] then title c else detail), err_extras = extras\<rparr>"

definition raising :: "error_class \<Rightarrow> string \<Rightarrow> api_error + 'a" where
  "raising c detail = Inl (mk_error c detail [])"

definition capability_unavailable :: "string \<Rightarrow> string \<Rightarrow> api_error" where
  "capability_unavailable capability reason =
     mk_error CapabilityUnavailableError
       (if reason \<noteq> [] then reason
        else ''capability '' @ py_repr capability @ '' not supported by the current backend'')
       [(''capability'', JStr capability)]"

text \<open>
  The subclass constructors call the parent's with \<open>reason or self.title\<close>, so the
  capability sentence never appears in them.
\<close>

definition backend_unavailable :: "error_class \<Rightarrow> string \<Rightarrow> string \<Rightarrow> api_error" where
  "backend_unavailable c reason capability =
     mk_error c (if reason \<noteq> [] then reason else title c) [(''capability'', JStr capability)]"

definition pycolmap_unavailable :: "string \<Rightarrow> api_error" where
  "pycolmap_unavailable reason =
     backend_unavailable PycolmapUnavailableError
       (if reason \<noteq> [] then reason else title PycolmapUnavailableError) ''pycolmap''"

fun update_all :: "('k \<times> 'v) list \<Rightarrow> ('k \<times> 'v) list \<Rightarrow> ('k \<times> 'v) list" where
  "update_all d [] = d"
| "update_all d ((k, v) # kvs) = update_all (AList.update k v d) kvs"

definition as_problem :: "api_error \<Rightarrow> string option \<Rightarrow> json dict" where
  "as_problem e instance_url =
     (let out =
        [(''type'', JStr (''https://sfmapi.github.io/errors/'' @ error_type (err_class e))),
         (''title'', JStr (title (err_class e))),
         (''status'', JInt (status_code (err_class e))),
         (''detail'', JStr (err_detail e))];
        out = (case instance_url of
            None \<Rightarrow> out
          | Some u \<Rightarrow> if u = [] then out else AList.update ''instance'' (JStr u) out)
      in update_all out (err_extras e))"

lemma map_of_update_all: "map_of (update_all d kvs) k = (map_of d ++ map_of (rev kvs)) k"
proof (induction d kvs rule: update_all.induct)
  case (1 d)
  then show ?case by simp
next
  case (2 d k' v kvs)
  then show ?case
    by (simp add: map_add_def split: option.splits)
qed

text \<open>Every error carries a non-empty detail and a 4xx or 5xx status.\<close>

lemma status_code_range: "400 \<le> status_code c \<and> status_code c < 600"
  by (cases c) (simp_all add: status_code_def)

lemma title_nonempty: "title c \<noteq> []"
  by (cases c) (simp_all add: title_def)

lemma mk_error_detail: "err_detail (mk_error c d x) \<noteq> []"
  by (simp add: mk_error_def title_nonempty)

text \<open>No two classes share a slug, so a client can tell the classes apart.\<close>

lemma error_type_inj: "error_type c = error_type c' \<Longrightarrow> c = c'"
  unfolding error_type_def by (induction c rule: class_attrs.induct) (cases c'; simp)+

section \<open>Properties\<close>

text \<open>
  The problem document of an error has its class's slug, title and 4xx or 5xx status
  and a non-empty detail, unless an extra member of the same name replaces it; every extra
  member appears, and different classes have different slugs.
\<close>

theorem problem_document:
  "map_of (as_problem (mk_error c detail extras) instance_url) =
     [''type'' \<mapsto> JStr (''https://sfmapi.github.io/errors/'' @ error_type c), ''title'' \<mapsto> JStr (title c),
      ''status'' \<mapsto> JInt (status_code c), ''detail'' \<mapsto> JStr (if detail = [] then title c else detail)] ++
     (case instance_url of None \<Rightarrow> Map.empty
      | Some u \<Rightarrow> if u = [] then Map.empty else [''instance'' \<mapsto> JStr u]) ++ map_of (rev extras) \<and>
   400 \<le> status_code c \<and> status_code c < 600 \<and> title c \<noteq> [] \<and> (error_type c = error_type c' \<longleftrightarrow> c = c')"
  using status_code_range [of c] title_nonempty [of c] error_type_inj [of c c']
  by (auto simp: as_problem_def mk_error_def Let_def map_of_update_all fun_eq_iff map_add_def
      split: option.splits)

end
