(* ===== verification/Hashing.thy ===== *)
theory Hashing
  imports Errors
begin

text \<open>
  \<open>core/hashing.py\<close> and the cache key of \<open>orchestrator/dag.py\<close>: canonical JSON, the
  content address of a payload and the \<open>TaskNode\<close> of a job's graph. SHA-256 is the
  parameter \<open>sha\<close> (bytes to lowercase hex), and the shortest decimal form of a finite
  float, which the interpreter prints, is the parameter \<open>frepr\<close>.
\<close>

section \<open>Canonical JSON\<close>

text \<open>The escapes of \<open>json.dumps\<close> with \<open>ensure_ascii=False\<close>.\<close>

definition esc_char :: "char \<Rightarrow> string" where
  "esc_char c =
     (if c = CHR 0x22 then [CHR 0x5C, CHR 0x22]
      else if c = CHR 0x5C then [CHR 0x5C, CHR 0x5C]
      else if c = CHR 0x0A then [CHR 0x5C, CHR ''n'']
      else if c = CHR 0x0D then [CHR 0x5C, CHR ''r'']
      else if c = CHR 0x09 then [CHR 0x5C, CHR ''t'']
      else if c = CHR 0x0C then [CHR 0x5C, CHR ''f'']
      else if c = CHR 0x08 then [CHR 0x5C, CHR ''b'']
      else if of_char c < (32 :: nat)
        then [CHR 0x5C, CHR ''u'', CHR ''0'', CHR ''0'',
              hex_digit (of_char c div 16), hex_digit (of_char c)]
      else [c])"

definition json_str :: "string \<Rightarrow> string" where
  "json_str s = CHR 0x22 # concat (map esc_char s) @ [CHR 0x22]"

fun float_text :: "(rat \<Rightarrow> string) \<Rightarrow> pyfloat \<Rightarrow> string" where
  "float_text frepr (Fin q) = frepr q"
| "float_text frepr PosInf = ''Infinity''"
| "float_text frepr NegInf = ''-Infinity''"
| "float_text frepr NaN = ''NaN''"

fun canonical_json :: "(rat \<Rightarrow> string) \<Rightarrow> json \<Rightarrow> string" where
  "canonical_json fr JNull = ''null''"
| "canonical_json fr (JBool b) = (if b then ''true'' else ''false'')"
| "canonical_json fr (JInt i) = str_of_int i"
| "canonical_json fr (JFloat f) = float_text fr f"
| "canonical_json fr (JStr s) = json_str s"
| "canonical_json fr (JList xs) = ''['' @ joins '','' (map (canonical_json fr) xs) @ '']''"
| "canonical_json fr (JObj kvs) =
     CHR 0x7B # joins '',''
       (map snd (sort_key fst
         (map (\<lambda>(k, v). (k, json_str k @ '':'' @ canonical_json fr v)) kvs))) @ [CHR 0x7D]"

definition content_address :: "(string \<Rightarrow> string) \<Rightarrow> string \<Rightarrow> string" where
  "content_address sha data = sha data"

definition hash_dict :: "(string \<Rightarrow> string) \<Rightarrow> (rat \<Rightarrow> string) \<Rightarrow> json \<Rightarrow> string" where
  "hash_dict sha fr v = content_address sha (canonical_json fr v)"

text \<open>\<open>stream_sha256\<close>: chunks of a reader until an empty one; the digest is over their
  concatenation, as \<open>update\<close> promises.\<close>

fun stream_chunks :: "string list \<Rightarrow> string \<Rightarrow> nat \<Rightarrow> string \<times> nat" where
  "stream_chunks [] h n = (h, n)"
| "stream_chunks (c # cs) h n =
     (if c = [] then (h, n) else stream_chunks cs (h @ c) (n + length c))"

definition stream_sha256 :: "(string \<Rightarrow> string) \<Rightarrow> string list \<Rightarrow> string \<times> nat" where
  "stream_sha256 sha chunks = (case stream_chunks chunks [] 0 of (h, n) \<Rightarrow> (sha h, n))"

lemma stream_chunks_all:
  "[] \<notin> set cs \<Longrightarrow> stream_chunks cs h n = (h @ concat cs, n + length (concat cs))"
  by (induction cs arbitrary: h n) (auto simp: add.assoc)

section \<open>Task nodes and their cache keys\<close>

record task_node =
  node_id :: string
  node_kind :: string
  node_inputs_hash :: string
  node_params_hash :: string
  node_depends_on :: "string list"
  node_gpu_required :: bool
  node_metadata :: "json dict"

definition cache_payload :: "string \<Rightarrow> string \<Rightarrow> string \<Rightarrow> string \<Rightarrow> json" where
  "cache_payload k inputs params rv =
     JObj [(''kind'', JStr k), (''inputs_hash'', JStr inputs),
           (''params_hash'', JStr params), (''rv'', JStr rv)]"

definition cache_key ::
  "(string \<Rightarrow> string) \<Rightarrow> (rat \<Rightarrow> string) \<Rightarrow> task_node \<Rightarrow> string \<Rightarrow> string" where
  "cache_key sha fr n runtime_version_id =
     content_address sha (canonical_json fr
       (cache_payload (node_kind n) (node_inputs_hash n) (node_params_hash n)
          runtime_version_id))"

definition hash_params :: "(string \<Rightarrow> string) \<Rightarrow> (rat \<Rightarrow> string) \<Rightarrow> json \<Rightarrow> string" where
  "hash_params sha fr spec = content_address sha (canonical_json fr spec)"

definition hash_inputs :: "(string \<Rightarrow> string) \<Rightarrow> (rat \<Rightarrow> string) \<Rightarrow> json \<Rightarrow> string" where
  "hash_inputs sha fr refs = content_address sha (canonical_json fr refs)"

section \<open>Decoding: the payload determines its four fields\<close>

definition hex_val :: "char \<Rightarrow> nat" where
  "hex_val c = length (takeWhile (\<lambda>d. d \<noteq> c) (map hex_digit [0..<16]))"

definition unesc :: "string \<Rightarrow> char \<times> string" where
  "unesc s =
     (case s of
        [] \<Rightarrow> (CHR 0x00, [])
      | c # r \<Rightarrow>
          if c \<noteq> CHR 0x5C then (c, r)
          else (case r of
              [] \<Rightarrow> (CHR 0x00, [])
            | d # r' \<Rightarrow>
                if d = CHR ''n'' then (CHR 0x0A, r')
                else if d = CHR ''r'' then (CHR 0x0D, r')
                else if d = CHR ''t'' then (CHR 0x09, r')
                else if d = CHR ''f'' then (CHR 0x0C, r')
                else if d = CHR ''b'' then (CHR 0x08, r')
                else if d = CHR ''u'' then
                  (char_of (16 * hex_val (r' ! 2) + hex_val (r' ! 3)), drop 4 r')
                else (d, r')))"

lemma hex_val_digits: "list_all (\<lambda>n. hex_val (hex_digit n) = n) [0..<16]"
  by code_simp

lemma hex_val_digit: "n < 16 \<Longrightarrow> hex_val (hex_digit n) = n"
  using hex_val_digits by (simp only: list_all_iff set_upt) simp

lemma unesc_esc: "unesc (esc_char c @ u) = (c, u)"
proof (cases "of_char c < (32 :: nat)")
  case True
  have "hex_val (hex_digit (of_char c div 16)) = of_char c div 16"
    using True by (intro hex_val_digit) simp
  moreover have "hex_val (hex_digit (of_char c)) = of_char c mod 16"
    using hex_val_digit [of "of_char c mod 16"] by simp
  ultimately have "char_of (16 * hex_val (hex_digit (of_char c div 16)) +
      hex_val (hex_digit (of_char c))) = c"
    by (metis char_of_char mult.commute div_mult_mod_eq)
  with True show ?thesis
    by (simp add: esc_char_def unesc_def del: hex_digit.simps)
next
  case False
  then show ?thesis by (simp add: esc_char_def unesc_def)
qed

lemma esc_char_no_quote: "esc_char c @ u \<noteq> CHR 0x22 # v"
  by (simp add: esc_char_def)

lemma esc_decodable:
  "concat (map esc_char a) @ CHR 0x22 # x = concat (map esc_char b) @ CHR 0x22 # y \<Longrightarrow>
   a = b \<and> x = y"
proof (induction a arbitrary: b)
  case Nil
  then show ?case
    by (cases b) (simp_all add: esc_char_no_quote [symmetric])
next
  case (Cons c a)
  show ?case
  proof (cases b)
    case Nil
    with Cons.prems show ?thesis by (simp add: esc_char_no_quote)
  next
    case (Cons d b')
    with Cons.prems have eq: "esc_char c @ concat (map esc_char a) @ CHR 0x22 # x =
        esc_char d @ concat (map esc_char b') @ CHR 0x22 # y"
      by simp
    from arg_cong [OF eq, of unesc] have "c = d"
      and "concat (map esc_char a) @ CHR 0x22 # x = concat (map esc_char b') @ CHR 0x22 # y"
      by (simp_all add: unesc_esc)
    with Cons.IH [of b'] Cons show ?thesis by simp
  qed
qed

lemma json_str_decodable: "json_str a @ x = json_str b @ y \<Longrightarrow> a = b \<and> x = y"
  by (auto simp: json_str_def dest: esc_decodable)

lemma json_str_inj: "json_str a = json_str b \<Longrightarrow> a = b"
  using json_str_decodable [of a "[]" b "[]"] by simp

lemma cache_payload_text:
  "canonical_json fr (cache_payload k i p rv) =
     CHR 0x7B # json_str ''inputs_hash'' @ '':'' @ json_str i @ '','' @ json_str ''kind'' @ '':'' @
     json_str k @ '','' @ json_str ''params_hash'' @ '':'' @ json_str p @ '','' @
     json_str ''rv'' @ '':'' @ json_str rv @ [CHR 0x7D]"
  by (simp add: cache_payload_def sort_key_def less_eq_char_def)

lemma cache_payload_inj:
  assumes "canonical_json fr (cache_payload k i p rv) =
    canonical_json fr (cache_payload k' i' p' rv')"
  shows "k = k' \<and> i = i' \<and> p = p' \<and> rv = rv'"
  using assms unfolding cache_payload_text
  by (auto dest!: json_str_decodable json_str_inj)

section \<open>Properties\<close>

text \<open>
  Two task nodes share a cache key only if they agree on the kind, the inputs hash, the
  parameters hash and the runtime version; otherwise two different canonical texts have
  been found with the same SHA-256 digest.
\<close>

theorem cache_key_collision:
  "cache_key sha fr n rv = cache_key sha fr n' rv' \<Longrightarrow>
   node_kind n = node_kind n' \<and> node_inputs_hash n = node_inputs_hash n' \<and>
   node_params_hash n = node_params_hash n' \<and> rv = rv' \<or>
   (\<exists>text text'. text \<noteq> text' \<and> sha text = sha text' \<and>
      text = canonical_json fr (cache_payload (node_kind n) (node_inputs_hash n) (node_params_hash n) rv) \<and>
      text' = canonical_json fr (cache_payload (node_kind n') (node_inputs_hash n') (node_params_hash n') rv'))"
proof -
  let ?t = "canonical_json fr (cache_payload (node_kind n) (node_inputs_hash n) (node_params_hash n) rv)"
  let ?t' = "canonical_json fr (cache_payload (node_kind n') (node_inputs_hash n') (node_params_hash n') rv')"
  assume "cache_key sha fr n rv = cache_key sha fr n' rv'"
  then have eq: "sha ?t = sha ?t'" by (simp only: cache_key_def content_address_def)
  show ?thesis
  proof (cases "?t = ?t'")
    case True
    from cache_payload_inj [OF this] show ?thesis by blast
  next
    case False
    with eq show ?thesis by blast
  qed
qed

theorem cache_key_collision_witness:
  "cache_key (\<lambda>s. s) (\<lambda>_. []) \<lparr>node_id = ''1'', node_kind = ''sift'', node_inputs_hash = ''i'',
       node_params_hash = ''p'', node_depends_on = [], node_gpu_required = True, node_metadata = []\<rparr> ''v'' \<noteq>
   cache_key (\<lambda>s. s) (\<lambda>_. []) \<lparr>node_id = ''1'', node_kind = ''sift'', node_inputs_hash = ''i'',
       node_params_hash = ''q'', node_depends_on = [], node_gpu_required = True, node_metadata = []\<rparr> ''v''"
proof
  let ?n = "\<lambda>p. \<lparr>node_id = ''1'', node_kind = ''sift'', node_inputs_hash = ''i'',
       node_params_hash = p, node_depends_on = [], node_gpu_required = True, node_metadata = []\<rparr>"
  assume "cache_key (\<lambda>s. s) (\<lambda>_. []) (?n ''p'') ''v'' = cache_key (\<lambda>s. s) (\<lambda>_. []) (?n ''q'') ''v''"
  from cache_key_collision [OF this] show False by simp
qed

end
