(* ===== verification/Job_Db.thy ===== *)
theory Job_Db
  imports Doom Hashing
begin

text \<open>
  \<open>db/models.py\<close>: the rows the task engine reads and writes, and the SQL statements the
  engine issues on them, as functions on the list of rows of a table. A transaction is a
  function on the whole database, so transactions are serialised; a query without
  \<open>ORDER BY\<close> returns the rows in the order of the table.

  The other tables (datasets, radiance fields, submodels) are one component \<open>others\<close> of
  an arbitrary type: the hooks of a task kind and the artifact service write to the
  resources, never to the task and job tables.
\<close>

section \<open>Rows\<close>

type_synonym time = int

record task_row =
  task_id :: string
  tenant_id :: string
  task_job_id :: string
  kind :: string
  inputs_hash :: string
  params_hash :: string
  runtime_version_id :: string
  task_cache_key :: string
  depends_on_json :: "string list option"
  gpu_required :: bool
  status :: task_status
  worker_id :: "string option"
  lease_expires_at :: "time option"
  task_state_json :: "json option"
  outputs_ref_json :: "json option"
  error_class :: "string option"
  error_message :: "string option"
  started_at :: "time option"
  finished_at :: "time option"

record job_row =
  job_id :: string
  job_tenant_id :: string
  job_project_id :: string
  recipe :: string
  spec_json :: "json option"
  job_status :: task_status
  cancel_requested :: bool
  cancel_force :: bool
  pinned :: bool
  job_started_at :: "time option"
  job_finished_at :: "time option"
  job_error_class :: "string option"
  job_error_message :: "string option"

record recon_row =
  recon_id :: string
  recon_tenant_id :: string
  recon_status :: task_status

record artifact_row =
  artifact_id :: string
  artifact_tenant_id :: string
  artifact_job_id :: string
  artifact_task_id :: string
  artifact_recon_id :: "string option"
  artifact_dataset_id :: "string option"
  artifact_kind :: string
  artifact_name :: "string option"
  artifact_uri :: "string option"
  artifact_media_type :: "string option"
  artifact_summary_json :: "json option"
  artifact_metadata_json :: "json option"

record event_row =
  event_id :: int
  event_job_id :: string
  event_ts :: time
  event_payload :: json

record 'r resources =
  recons :: "recon_row list"
  stage_artifacts :: "artifact_row list"
  others :: 'r

record 'r db =
  tasks :: "task_row list"
  jobs :: "job_row list"
  job_events :: "event_row list"
  resources :: "'r resources"

text \<open>\<open>task.depends_on_json or []\<close>.\<close>

definition deps_of :: "task_row \<Rightarrow> string list" where
  "deps_of t = (case depends_on_json t of None \<Rightarrow> [] | Some ds \<Rightarrow> ds)"

text \<open>The wire strings of the statuses, for messages.\<close>

fun status_str :: "task_status \<Rightarrow> string" where
  "status_str Pending = ''pending''"
| "status_str Running = ''running''"
| "status_str Succeeded = ''succeeded''"
| "status_str Failed = ''failed''"
| "status_str Cancelled = ''cancelled''"
| "status_str Cancelled_Dirty = ''cancelled_dirty''"
| "status_str Skipped = ''skipped''"

section \<open>Queries and updates\<close>

definition find_task :: "task_row list \<Rightarrow> string \<Rightarrow> task_row option" where
  "find_task ts tid = find (\<lambda>t. task_id t = tid) ts"

definition find_job :: "job_row list \<Rightarrow> string \<Rightarrow> job_row option" where
  "find_job js jid = find (\<lambda>j. job_id j = jid) js"

definition modify_task ::
  "string \<Rightarrow> (task_row \<Rightarrow> task_row) \<Rightarrow> task_row list \<Rightarrow> task_row list" where
  "modify_task tid f ts = map (\<lambda>t. if task_id t = tid then f t else t) ts"

definition modify_job :: "string \<Rightarrow> (job_row \<Rightarrow> job_row) \<Rightarrow> job_row list \<Rightarrow> job_row list" where
  "modify_job jid f js = map (\<lambda>j. if job_id j = jid then f j else j) js"

definition job_tasks :: "task_row list \<Rightarrow> string \<Rightarrow> task_row list" where
  "job_tasks ts jid = filter (\<lambda>t. task_job_id t = jid) ts"

text \<open>\<open>{task.task_id: task.status for task in rows}\<close>.\<close>

definition statuses_of :: "task_row list \<Rightarrow> status_map" where
  "statuses_of ts = map_of (rev (map (\<lambda>t. (task_id t, status t)) ts))"

text \<open>Primary keys are unique.\<close>

definition keys_unique :: "'r db \<Rightarrow> bool" where
  "keys_unique d \<longleftrightarrow> distinct (map task_id (tasks d)) \<and> distinct (map job_id (jobs d))"

named_theorems row_simps \<open>facts on queries and updates of rows\<close>

lemma modify_task_ids [row_simps, simp]:
  "(\<And>t. task_id (f t) = task_id t) \<Longrightarrow> map task_id (modify_task tid f ts) = map task_id ts"
  by (induction ts) (auto simp: modify_task_def)

lemma modify_job_ids [row_simps, simp]:
  "(\<And>j. job_id (f j) = job_id j) \<Longrightarrow> map job_id (modify_job jid f js) = map job_id js"
  by (induction js) (auto simp: modify_job_def)

lemma find_task_None [row_simps]: "find_task ts tid = None \<longleftrightarrow> tid \<notin> task_id ` set ts"
  by (auto simp: find_task_def find_None_iff)

lemma find_task_Some:
  "find_task ts tid = Some t \<Longrightarrow> t \<in> set ts \<and> task_id t = tid"
  by (auto simp: find_task_def find_Some_iff)

lemma find_task_unique:
  assumes "distinct (map task_id ts)" and "t \<in> set ts"
  shows "find_task ts (task_id t) = Some t"
proof -
  obtain u where u: "find_task ts (task_id t) = Some u"
    using assms(2) find_task_None by fastforce
  with find_task_Some have "u \<in> set ts" "task_id u = task_id t" by blast+
  with assms have "u = t" by (auto simp: distinct_map dest: inj_onD)
  with u show ?thesis by simp
qed

lemma find_task_map:
  "(\<And>t. task_id (f t) = task_id t) \<Longrightarrow> find_task (map f ts) i = map_option f (find_task ts i)"
  by (induction ts) (auto simp: find_task_def)

lemma find_task_modify [row_simps]:
  "(\<And>t. task_id (f t) = task_id t) \<Longrightarrow>
   find_task (modify_task tid f ts) tid' =
     (if tid' = tid then map_option f (find_task ts tid') else find_task ts tid')"
  by (induction ts) (auto simp: find_task_def modify_task_def)

lemma find_task_replace [row_simps]:
  "task_id u = tid \<Longrightarrow> find_task (modify_task tid (\<lambda>_. u) ts) i =
     (if i = tid then map_option (\<lambda>_. u) (find_task ts tid) else find_task ts i)"
  by (induction ts) (auto simp: find_task_def modify_task_def)

lemma find_job_Some: "find_job js jid = Some j \<Longrightarrow> j \<in> set js \<and> job_id j = jid"
  by (auto simp: find_job_def find_Some_iff)

lemma find_job_modify [row_simps]:
  "(\<And>j. job_id (f j) = job_id j) \<Longrightarrow>
   find_job (modify_job jid f js) jid' =
     (if jid' = jid then map_option f (find_job js jid') else find_job js jid')"
  by (induction js) (auto simp: find_job_def modify_job_def)

lemma statuses_of_None: "statuses_of ts tid = None \<longleftrightarrow> tid \<notin> task_id ` set ts"
  by (simp add: statuses_of_def map_of_eq_None_iff image_image)

lemma statuses_of_find:
  "distinct (map task_id ts) \<Longrightarrow> statuses_of ts tid = map_option status (find_task ts tid)"
proof (induction ts)
  case Nil
  then show ?case by (simp add: statuses_of_def find_task_def)
next
  case (Cons t ts)
  then have "statuses_of ts (task_id t) = None"
    by (simp add: statuses_of_None)
  with Cons show ?case
    by (auto simp: statuses_of_def find_task_def map_add_def split: option.splits)
qed

lemma statuses_of_mem:
  "distinct (map task_id ts) \<Longrightarrow> t \<in> set ts \<Longrightarrow> statuses_of ts (task_id t) = Some (status t)"
  by (simp add: statuses_of_find find_task_unique)

text \<open>A concrete row, for the witnesses.\<close>

definition blank_task :: task_row where
  "blank_task =
     \<lparr>task_id = [], tenant_id = ''default'', task_job_id = [], kind = ''noop'', inputs_hash = [],
      params_hash = [], runtime_version_id = [], task_cache_key = [], depends_on_json = None,
      gpu_required = True, status = Pending, worker_id = None, lease_expires_at = None,
      task_state_json = None, outputs_ref_json = None, error_class = None,
      error_message = None, started_at = None, finished_at = None\<rparr>"

definition blank_job :: job_row where
  "blank_job =
     \<lparr>job_id = [], job_tenant_id = ''default'', job_project_id = [], recipe = [],
      spec_json = None, job_status = Pending, cancel_requested = False, cancel_force = False,
      pinned = False, job_started_at = None, job_finished_at = None, job_error_class = None,
      job_error_message = None\<rparr>"

lemmas blank_rows = blank_task_def blank_job_def

end
