(* ===== verification/Job_Service.thy ===== *)
theory Job_Service
  imports Job_Db
begin

text \<open>
  \<open>services/job_service.py\<close>: job rows, cache lookup, materialising a graph of task nodes
  and rolling a job up from its tasks. The interface \<open>job_rollup\<close> is what the scheduler,
  the dispatcher and the janitor rely on; it is interpreted here for
  \<open>finalize_job_if_ready\<close> and in \<open>Dispatcher\<close> for the dispatcher's own copy.

  \<open>env\<close> collects what the engine is configured with or calls out to: SHA-256, the engine's
  placement of NULL in a descending order, the settings, the registered handlers and hooks
  of the task kinds, and the artifact and dataset services that normalise and record a
  worker's outputs. \<open>new_id\<close> values are arguments.
\<close>

section \<open>The environment\<close>

text \<open>What an exception raised by a handler or a service shows to the dispatcher.\<close>

record exn =
  exn_name :: string
  exn_backend_unavailable :: bool
  exn_text :: string

datatype handler_outcome = Returned json | Raised exn

record 'r env =
  sha256 :: "string \<Rightarrow> string"
  float_repr :: "rat \<Rightarrow> string"
  nulls_first :: bool
  lease_ttl_seconds :: int
  retention_days :: "int option"
  handlers :: "string \<Rightarrow> (task_row \<Rightarrow> handler_outcome) option"
  status_hooks ::
    "string \<Rightarrow> ('r resources \<Rightarrow> task_row \<Rightarrow> task_status \<Rightarrow> 'r resources) option"
  success_hooks ::
    "string \<Rightarrow> ('r resources \<Rightarrow> task_row \<Rightarrow> json \<Rightarrow> exn + 'r resources) option"
  normalize_task_outputs :: "task_row \<Rightarrow> json \<Rightarrow> exn + json"
  record_task_artifacts :: "'r resources \<Rightarrow> task_row \<Rightarrow> json \<Rightarrow> exn + 'r resources"
  register_derived_dataset ::
    "'r resources \<Rightarrow> job_row option \<Rightarrow> task_row \<Rightarrow> json \<Rightarrow> exn + ('r resources \<times> json)"
  sanitize_error :: "string \<Rightarrow> string"

text \<open>\<open>outputs or {}\<close>: nothing and the empty object both read as the empty object.\<close>

definition or_empty :: "json option \<Rightarrow> json" where
  "or_empty x = (case x of None \<Rightarrow> JObj [] | Some JNull \<Rightarrow> JObj [] | Some v \<Rightarrow> v)"

section \<open>Jobs\<close>

definition create_job ::
  "string \<Rightarrow> string \<Rightarrow> string \<Rightarrow> string \<Rightarrow> json option \<Rightarrow> 'r db \<Rightarrow> 'r db \<times> job_row" where
  "create_job new_id tenant project rcp spec d =
     (let j = blank_job\<lparr>job_id := new_id, job_tenant_id := tenant, job_project_id := project,
                recipe := rcp, spec_json := spec, job_status := Pending\<rparr>
      in (d\<lparr>jobs := jobs d @ [j]\<rparr>, j))"

definition get_job :: "string \<Rightarrow> string \<Rightarrow> 'r db \<Rightarrow> api_error + job_row" where
  "get_job tenant jid d =
     (case find (\<lambda>j. job_tenant_id j = tenant \<and> job_id j = jid) (jobs d) of
        None \<Rightarrow> raising NotFoundError (''Job '' @ jid @ '' not found'')
      | Some j \<Rightarrow> Inr j)"

definition cancel_job :: "string \<Rightarrow> string \<Rightarrow> bool \<Rightarrow> 'r db \<Rightarrow> api_error + 'r db" where
  "cancel_job tenant jid force d =
     andthen (get_job tenant jid d) (\<lambda>j. Inr
       (d\<lparr>jobs := modify_job (job_id j)
          (\<lambda>j. j\<lparr>cancel_requested := True, cancel_force := force \<or> cancel_force j\<rparr>)
          (jobs d)\<rparr>))"

section \<open>Cache lookup and materialisation\<close>

text \<open>
  \<open>ORDER BY finished_at DESC LIMIT 1\<close>. Where NULL sorts in a descending order depends on
  the engine; ties keep the earlier row.
\<close>

fun desc_before :: "bool \<Rightarrow> time option \<Rightarrow> time option \<Rightarrow> bool" where
  "desc_before nf None None = False"
| "desc_before nf None (Some _) = nf"
| "desc_before nf (Some _) None = (\<not> nf)"
| "desc_before nf (Some a) (Some b) = (b < a)"

fun first_desc :: "bool \<Rightarrow> task_row list \<Rightarrow> task_row option" where
  "first_desc nf [] = None"
| "first_desc nf (t # ts) =
     (case first_desc nf ts of
        None \<Rightarrow> Some t
      | Some u \<Rightarrow> if desc_before nf (finished_at u) (finished_at t) then Some u else Some t)"

definition lookup_cached_task :: "bool \<Rightarrow> task_row list \<Rightarrow> string \<Rightarrow> string \<Rightarrow> task_row option" where
  "lookup_cached_task nf ts tenant key =
     first_desc nf
       (filter (\<lambda>t. tenant_id t = tenant \<and> task_cache_key t = key \<and> status t = Succeeded) ts)"

text \<open>One turn of the first loop of \<open>materialize_dag\<close>: the row of a node.\<close>

definition materialize_node ::
  "'r env \<Rightarrow> string \<Rightarrow> string \<Rightarrow> string \<Rightarrow> task_node \<Rightarrow> task_row list \<Rightarrow> task_row \<times> bool" where
  "materialize_node env tenant jid rv n ts =
     (let ck = cache_key (sha256 env) (float_repr env) n rv;
          cached = lookup_cached_task (nulls_first env) ts tenant ck;
          t = blank_task\<lparr>task_id := node_id n, tenant_id := tenant, task_job_id := jid,
                kind := node_kind n, inputs_hash := node_inputs_hash n,
                params_hash := node_params_hash n, runtime_version_id := rv,
                task_cache_key := ck, depends_on_json := Some (node_depends_on n),
                gpu_required := node_gpu_required n\<rparr>;
          t = (if node_metadata n \<noteq> []
               then t\<lparr>task_state_json := Some (JObj (node_metadata n))\<rparr> else t)
      in case cached of
           None \<Rightarrow> (t, False)
         | Some c \<Rightarrow> (t\<lparr>status := Succeeded, outputs_ref_json := outputs_ref_json c\<rparr>, True))"

fun materialize_nodes ::
  "'r env \<Rightarrow> string \<Rightarrow> string \<Rightarrow> string \<Rightarrow> task_node list \<Rightarrow> task_row list \<Rightarrow>
   (task_row \<times> bool) list" where
  "materialize_nodes env tenant jid rv [] ts = []"
| "materialize_nodes env tenant jid rv (n # ns) ts =
     (let tb = materialize_node env tenant jid rv n ts
      in tb # materialize_nodes env tenant jid rv ns (ts @ [fst tb]))"

text \<open>
  The second loop normalises the outputs copied from the cache and records their artifacts
  for the new task. A validation error there aborts the submission.
\<close>

fun record_cached ::
  "'r env \<Rightarrow> (task_row \<times> bool) list \<Rightarrow> 'r resources \<Rightarrow>
   exn + (task_row list \<times> 'r resources)" where
  "record_cached env [] res = Inr ([], res)"
| "record_cached env ((t, hit) # rest) res =
     (if hit then
        andthen (normalize_task_outputs env t (or_empty (outputs_ref_json t))) (\<lambda>outputs.
          let t' = t\<lparr>outputs_ref_json := Some outputs\<rparr> in
          andthen (record_task_artifacts env res t' outputs) (\<lambda>res'.
            andthen (record_cached env rest res') (\<lambda>(ts, res''). Inr (t' # ts, res''))))
      else andthen (record_cached env rest res) (\<lambda>(ts, res'). Inr (t # ts, res')))"

text \<open>Nodes without an id get a fresh one.\<close>

fun fill_ids :: "string list \<Rightarrow> task_node list \<Rightarrow> task_node list" where
  "fill_ids ids [] = []"
| "fill_ids ids (n # ns) =
     (if node_id n \<noteq> [] then n # fill_ids ids ns
      else case ids of
          [] \<Rightarrow> n # fill_ids [] ns
        | i # is \<Rightarrow> n\<lparr>node_id := i\<rparr> # fill_ids is ns)"

definition materialize_dag ::
  "'r env \<Rightarrow> string list \<Rightarrow> string \<Rightarrow> string \<Rightarrow> string \<Rightarrow> task_node list \<Rightarrow> 'r db \<Rightarrow>
   exn + ('r db \<times> task_row list)" where
  "materialize_dag env new_ids tenant jid rv nodes d =
     (let rows = materialize_nodes env tenant jid rv (fill_ids new_ids nodes) (tasks d)
      in andthen (record_cached env rows (resources d)) (\<lambda>(out, res).
           Inr (d\<lparr>tasks := tasks d @ out, resources := res\<rparr>, out)))"

section \<open>Rolling a job up\<close>

definition rolled_up :: "task_row list \<Rightarrow> task_status option" where
  "rolled_up rows =
     (let statuses = map status rows in
      if rows = [] then None
      else if Pending \<in> set statuses \<or> Running \<in> set statuses then None
      else if Failed \<in> set statuses then Some Failed
      else if Cancelled \<in> set statuses \<or> Cancelled_Dirty \<in> set statuses then Some Cancelled
      else Some Succeeded)"

text \<open>The error of the first failed task surfaces on the job.\<close>

definition copy_first_error :: "task_row list \<Rightarrow> job_row \<Rightarrow> job_row" where
  "copy_first_error rows j =
     (case find (\<lambda>t. status t = Failed) rows of
        None \<Rightarrow> j
      | Some t \<Rightarrow> j\<lparr>job_error_class := error_class t, job_error_message := error_message t\<rparr>)"

definition finalize_job_if_ready :: "time \<Rightarrow> string \<Rightarrow> 'r db \<Rightarrow> 'r db" where
  "finalize_job_if_ready now jid d =
     (let rows = job_tasks (tasks d) jid in
      case rolled_up rows of
        None \<Rightarrow> d
      | Some new_status \<Rightarrow>
          d\<lparr>jobs := modify_job jid
              (\<lambda>j. let j = (if job_status j \<noteq> new_status
                             then j\<lparr>job_status := new_status, job_finished_at := Some now\<rparr>
                             else j)
                   in if new_status = Failed then copy_first_error rows j else j)
              (jobs d)\<rparr>)"

section \<open>The rollup interface\<close>

text \<open>
  A rollup touches the one job, gives it the status its tasks determine once all of them
  are terminal, and stamps \<open>finished_at\<close> only on a change.
\<close>

locale job_rollup =
  fixes fin :: "time \<Rightarrow> string \<Rightarrow> 'r db \<Rightarrow> 'r db"
  assumes keeps_tasks [simp]: "tasks (fin now jid d) = tasks d"
    and keeps_resources [simp]: "resources (fin now jid d) = resources d"
    and keeps_job_ids [simp]: "map job_id (jobs (fin now jid d)) = map job_id (jobs d)"
    and keeps_other_jobs: "jid' \<noteq> jid \<Longrightarrow> find_job (jobs (fin now jid d)) jid' = find_job (jobs d) jid'"
    and not_ready: "rolled_up (job_tasks (tasks d) jid) = None \<Longrightarrow> fin now jid d = d"
    and rolls: "rolled_up (job_tasks (tasks d) jid) = Some s \<Longrightarrow> find_job (jobs d) jid = Some j \<Longrightarrow>
      \<exists>j'. find_job (jobs (fin now jid d)) jid = Some j' \<and> job_status j' = s \<and>
        job_finished_at j' = (if job_status j = s then job_finished_at j else Some now)"
begin

text \<open>A second call, at any later time, changes neither the status nor the time stamp.\<close>

lemma stable:
  assumes "find_job (jobs (fin now jid d)) jid = Some j"
    and "find_job (jobs (fin now' jid (fin now jid d))) jid = Some j'"
  shows "job_status j' = job_status j \<and> job_finished_at j' = job_finished_at j"
proof (cases "rolled_up (job_tasks (tasks d) jid)")
  case None
  with assms show ?thesis by (simp add: not_ready)
next
  case (Some s)
  have "find_job (jobs d) jid \<noteq> None"
  proof
    assume "find_job (jobs d) jid = None"
    then have "jid \<notin> set (map job_id (jobs d))"
      by (auto simp: find_job_def find_None_iff)
    then have "jid \<notin> set (map job_id (jobs (fin now jid d)))"
      by (simp only: keeps_job_ids not_False_eq_True)
    moreover from find_job_Some [OF assms(1)] have "jid \<in> set (map job_id (jobs (fin now jid d)))"
      unfolding set_map by (metis image_eqI)
    ultimately show False ..
  qed
  then obtain i where i: "find_job (jobs d) jid = Some i" by blast
  from rolls [OF Some i, of now] assms(1) have s: "job_status j = s" by auto
  have "rolled_up (job_tasks (tasks (fin now jid d)) jid) = Some s"
    using Some by simp
  from rolls [OF this assms(1), of now'] assms(2) s show ?thesis by auto
qed

text \<open>A job is terminal after a rollup only when its tasks are.\<close>

lemma becomes_terminal:
  assumes "find_job (jobs d) jid = Some j" and "job_status j = Pending"
    and "find_job (jobs (fin now jid d)) jid = Some j'" and "job_status j' \<noteq> Pending"
  shows "rolled_up (job_tasks (tasks d) jid) = Some (job_status j')"
  using assms not_ready [of d jid now] rolls [of d jid _ j now]
  by (cases "rolled_up (job_tasks (tasks d) jid)") auto

end

lemma copy_first_error_keeps [simp]:
  "job_id (copy_first_error rows j) = job_id j"
  "job_status (copy_first_error rows j) = job_status j"
  "job_finished_at (copy_first_error rows j) = job_finished_at j"
  by (simp_all add: copy_first_error_def split: option.splits)

interpretation service_rollup: job_rollup finalize_job_if_ready
proof
  fix now jid and d :: "'r db"
  show "tasks (finalize_job_if_ready now jid d) = tasks d"
    and "resources (finalize_job_if_ready now jid d) = resources d"
    by (simp_all add: finalize_job_if_ready_def Let_def split: option.splits)
  show "map job_id (jobs (finalize_job_if_ready now jid d)) = map job_id (jobs d)"
    by (simp add: finalize_job_if_ready_def Let_def split: option.splits)
  show "rolled_up (job_tasks (tasks d) jid) = None \<Longrightarrow> finalize_job_if_ready now jid d = d"
    by (simp add: finalize_job_if_ready_def)
  show "find_job (jobs (finalize_job_if_ready now jid d)) jid' = find_job (jobs d) jid'"
    if "jid' \<noteq> jid" for jid'
    using that by (simp add: finalize_job_if_ready_def Let_def find_job_modify split: option.splits)
  show "\<exists>j'. find_job (jobs (finalize_job_if_ready now jid d)) jid = Some j' \<and> job_status j' = s \<and>
      job_finished_at j' = (if job_status j = s then job_finished_at j else Some now)"
    if "rolled_up (job_tasks (tasks d) jid) = Some s" and "find_job (jobs d) jid = Some j" for s j
    using that by (simp add: finalize_job_if_ready_def Let_def find_job_modify)
qed

lemma in_statuses: "s \<in> status ` set rows \<longleftrightarrow> (\<exists>t \<in> set rows. status t = s)"
  by auto

lemma rolled_up_None:
  "rolled_up rows = None \<longleftrightarrow> rows = [] \<or> (\<exists>t \<in> set rows. status t = Pending \<or> status t = Running)"
  by (simp add: rolled_up_def Let_def in_statuses) blast

lemma rolled_up_Some:
  "rolled_up rows = Some s \<Longrightarrow> rows \<noteq> [] \<and> (\<forall>t \<in> set rows. status t \<noteq> Pending \<and> status t \<noteq> Running)
     \<and> s \<in> {Failed, Cancelled, Succeeded}"
  by (simp add: rolled_up_def Let_def in_statuses split: if_splits)

section \<open>Cache lookup facts\<close>

lemma first_desc_mem: "first_desc nf ts = Some t \<Longrightarrow> t \<in> set ts"
  by (induction ts arbitrary: t) (auto split: option.splits if_splits)

lemma first_desc_None [simp]: "first_desc nf ts = None \<longleftrightarrow> ts = []"
  by (cases ts) (auto split: option.splits)

lemma lookup_cached_Some:
  "lookup_cached_task nf ts tenant key = Some t \<Longrightarrow>
   t \<in> set ts \<and> tenant_id t = tenant \<and> task_cache_key t = key \<and> status t = Succeeded"
  by (auto simp: lookup_cached_task_def dest!: first_desc_mem)

lemma lookup_cached_None:
  "lookup_cached_task nf ts tenant key = None \<longleftrightarrow>
   (\<forall>t \<in> set ts. \<not> (tenant_id t = tenant \<and> task_cache_key t = key \<and> status t = Succeeded))"
  by (auto simp: lookup_cached_task_def filter_empty_conv)

lemma materialize_nodes_ids:
  "map (task_id \<circ> fst) (materialize_nodes env tenant jid rv ns ts) = map node_id ns"
  by (induction ns arbitrary: ts)
    (auto simp: materialize_node_def Let_def split: option.splits)

lemma record_cached_rows:
  "record_cached env rows res = Inr (out, res') \<Longrightarrow>
   map task_id out = map (task_id \<circ> fst) rows \<and> map status out = map (status \<circ> fst) rows \<and>
   map task_cache_key out = map (task_cache_key \<circ> fst) rows \<and>
   map tenant_id out = map (tenant_id \<circ> fst) rows \<and>
   map task_job_id out = map (task_job_id \<circ> fst) rows"
proof (induction rows arbitrary: res out)
  case Nil
  then show ?case by simp
next
  case (Cons row rows)
  obtain t hit where row: "row = (t, hit)" by (cases row)
  from Cons.prems row obtain t' r ts where "out = t' # ts" "record_cached env rows r = Inr (ts, res')"
      "t' = t \<or> (\<exists>v. t' = t\<lparr>outputs_ref_json := v\<rparr>)"
    by (auto simp: andthen_Inr Let_def split: if_splits)
  with Cons.IH [of r ts] row show ?case by auto
qed

section \<open>Cache hits\<close>

abbreviation cache_hit :: "task_row list \<Rightarrow> string \<Rightarrow> string \<Rightarrow> bool" where
  "cache_hit ts tenant key \<equiv>
     \<exists>u \<in> set ts. tenant_id u = tenant \<and> task_cache_key u = key \<and> status u = Succeeded"

lemma materialize_node_hit:
  "materialize_node env tenant jid rv n ts = (t, hit) \<Longrightarrow>
   tenant_id t = tenant \<and> task_cache_key t = cache_key (sha256 env) (float_repr env) n rv \<and>
   status t = (if cache_hit ts tenant (task_cache_key t) then Succeeded else Pending)"
proof -
  let ?k = "cache_key (sha256 env) (float_repr env) n rv"
  assume node: "materialize_node env tenant jid rv n ts = (t, hit)"
  show ?thesis
  proof (cases "lookup_cached_task (nulls_first env) ts tenant ?k")
    case None
    with node have "tenant_id t = tenant" "task_cache_key t = ?k" "status t = Pending"
      by (auto simp: materialize_node_def Let_def blank_task_def split: if_splits)
    moreover have "\<not> cache_hit ts tenant ?k" using None by (simp add: lookup_cached_None)
    ultimately show ?thesis by simp
  next
    case (Some c)
    with node have "tenant_id t = tenant" "task_cache_key t = ?k" "status t = Succeeded"
      by (auto simp: materialize_node_def Let_def blank_task_def split: if_splits)
    moreover have "cache_hit ts tenant ?k" using lookup_cached_Some [OF Some] by blast
    ultimately show ?thesis by simp
  qed
qed

text \<open>A hit on an earlier row of the same submission is a hit on the table already.\<close>

lemma materialize_nodes_hits:
  "(t, hit) \<in> set (materialize_nodes env tenant jid rv ns ts) \<Longrightarrow>
   tenant_id t = tenant \<and>
   status t = (if cache_hit ts tenant (task_cache_key t) then Succeeded else Pending)"
proof (induction ns arbitrary: ts)
  case Nil
  then show ?case by simp
next
  case (Cons n ns)
  obtain u h where u: "materialize_node env tenant jid rv n ts = (u, h)"
    by (cases "materialize_node env tenant jid rv n ts")
  note row = materialize_node_hit [OF u]
  show ?case
  proof (cases "(t, hit) = (u, h)")
    case True
    with row show ?thesis by simp
  next
    case False
    with Cons.prems u have "(t, hit) \<in> set (materialize_nodes env tenant jid rv ns (ts @ [u]))"
      by (auto simp: Let_def)
    from Cons.IH [OF this] have "tenant_id t = tenant"
      and "status t = (if cache_hit (ts @ [u]) tenant (task_cache_key t) then Succeeded else Pending)"
      by simp_all
    moreover have "cache_hit (ts @ [u]) tenant (task_cache_key t) \<longleftrightarrow> cache_hit ts tenant (task_cache_key t)"
      using row by (auto split: if_splits)
    ultimately show ?thesis by simp
  qed
qed

lemma record_cached_mem:
  "record_cached env rows res = Inr (out, res') \<Longrightarrow> t \<in> set out \<Longrightarrow>
   \<exists>u hit. (u, hit) \<in> set rows \<and> tenant_id t = tenant_id u \<and> task_cache_key t = task_cache_key u \<and>
     status t = status u"
proof (induction rows arbitrary: res out)
  case Nil
  then show ?case by simp
next
  case (Cons row rows)
  obtain u hit where row: "row = (u, hit)" by (cases row)
  from Cons.prems(1) row obtain u' r ts where ts: "out = u' # ts" "record_cached env rows r = Inr (ts, res')"
      "u' = u \<or> (\<exists>v. u' = u\<lparr>outputs_ref_json := Some v\<rparr>)"
    by (auto simp: andthen_Inr Let_def split: if_splits)
  show ?case
  proof (cases "t \<in> set ts")
    case True
    from Cons.IH [OF ts(2) this] show ?thesis by auto
  next
    case False
    with Cons.prems(2) ts(1) have "t = u'" by simp
    with ts(3) row show ?thesis by (intro exI [of _ u] exI [of _ hit]) auto
  qed
qed

text \<open>
  A task of a new job starts succeeded exactly when the same tenant already has a
  succeeded task with the same cache key, and starts pending otherwise.
\<close>

theorem cache_hit_iff:
  assumes "materialize_dag env ids tenant jid rv nodes d = Inr (d', out)" and "t \<in> set out"
  shows "status t =
    (if list_ex (\<lambda>u. tenant_id u = tenant \<and> task_cache_key u = task_cache_key t \<and> status u = Succeeded)
          (tasks d) then Succeeded else Pending)"
proof -
  from assms(1) obtain res' where
    "record_cached env (materialize_nodes env tenant jid rv (fill_ids ids nodes) (tasks d))
       (resources d) = Inr (out, res')"
    by (auto simp: materialize_dag_def Let_def andthen_Inr)
  from record_cached_mem [OF this assms(2)] obtain u hit where
    "(u, hit) \<in> set (materialize_nodes env tenant jid rv (fill_ids ids nodes) (tasks d))"
    "task_cache_key t = task_cache_key u" "status t = status u" by auto
  with materialize_nodes_hits [OF this(1)] show ?thesis by (simp add: list_ex_iff)
qed

definition plain_env :: "unit env" where
  "plain_env =
     \<lparr>sha256 = (\<lambda>s. s), float_repr = (\<lambda>_. ''0.0''), nulls_first = False, lease_ttl_seconds = 30,
      retention_days = None, handlers = (\<lambda>k. if k = ''noop'' then Some (\<lambda>_. Returned (JObj [])) else None),
      status_hooks = (\<lambda>_. None), success_hooks = (\<lambda>_. None),
      normalize_task_outputs = (\<lambda>_ outs. Inr outs), record_task_artifacts = (\<lambda>res _ _. Inr res),
      register_derived_dataset = (\<lambda>res _ _ outs. Inr (res, outs)), sanitize_error = (\<lambda>s. s)\<rparr>"

definition noop_node :: task_node where
  "noop_node = \<lparr>node_id = ''n'', node_kind = ''noop'', node_inputs_hash = ''i'',
     node_params_hash = ''p'', node_depends_on = [], node_gpu_required = True, node_metadata = []\<rparr>"

definition cached_db :: "unit db" where
  "cached_db =
     \<lparr>tasks = [blank_task\<lparr>task_id := ''old'', task_cache_key := cache_key (\<lambda>s. s) (\<lambda>_. ''0.0'') noop_node ''v'',
        status := Succeeded, outputs_ref_json := Some (JObj [])\<rparr>], jobs = [], job_events = [],
      resources = \<lparr>recons = [], stage_artifacts = [], others = ()\<rparr>\<rparr>"

lemma cached_run:
  "map status (snd (projr (materialize_dag plain_env [] ''default'' ''j'' ''v'' [noop_node] cached_db))) = [Succeeded] \<and>
   ok (materialize_dag plain_env [] ''default'' ''j'' ''v'' [noop_node] cached_db)"
  by code_simp

theorem cache_hit_iff_witness:
  "list_ex (\<lambda>u. tenant_id u = ''default'' \<and> status u = Succeeded) (tasks cached_db)"
proof -
  obtain d' out where run: "materialize_dag plain_env [] ''default'' ''j'' ''v'' [noop_node] cached_db = Inr (d', out)"
    and st: "map status out = [Succeeded]"
    using cached_run
    by (cases "materialize_dag plain_env [] ''default'' ''j'' ''v'' [noop_node] cached_db") auto
  then obtain t where t: "t \<in> set out" "status t = Succeeded" by (cases out) auto
  from cache_hit_iff [OF run t(1)] t(2) show ?thesis by (auto simp: list_ex_iff split: if_splits)
qed

end
