(* ===== verification/Lease.thy ===== *)
theory Lease
  imports Job_Service
begin

text \<open>
  \<open>orchestrator/lease.py\<close> and the ownership test of the dispatcher. Both lease operations
  are one UPDATE with a WHERE clause and report whether exactly one row matched. The
  clock is read once for the new expiry and once for the comparison.
\<close>

definition lease_free :: "time \<Rightarrow> task_row \<Rightarrow> bool" where
  "lease_free now t =
     (case lease_expires_at t of None \<Rightarrow> True | Some e \<Rightarrow> e < now)"

definition acquire_matches :: "time \<Rightarrow> string \<Rightarrow> (task_row \<Rightarrow> bool) \<Rightarrow> task_row \<Rightarrow> bool" where
  "acquire_matches now pk extra_where t \<longleftrightarrow> task_id t = pk \<and> lease_free now t \<and> extra_where t"

definition try_acquire_lease ::
  "time \<Rightarrow> time \<Rightarrow> string \<Rightarrow> string \<Rightarrow> int \<Rightarrow> (task_row \<Rightarrow> bool) \<Rightarrow> task_row list \<Rightarrow>
   task_row list \<times> bool" where
  "try_acquire_lease now now' pk worker ttl_seconds extra_where ts =
     (let new_expiry = now + ttl_seconds;
          matched = acquire_matches now' pk extra_where
      in (map (\<lambda>t. if matched t
                   then t\<lparr>lease_expires_at := Some new_expiry, worker_id := Some worker\<rparr>
                   else t) ts,
          length (filter matched ts) = 1))"

definition refresh_lease ::
  "time \<Rightarrow> string \<Rightarrow> string \<Rightarrow> int \<Rightarrow> task_row list \<Rightarrow> task_row list \<times> bool" where
  "refresh_lease now pk worker ttl_seconds ts =
     (let new_expiry = now + ttl_seconds;
          matched = (\<lambda>t. task_id t = pk \<and> worker_id t = Some worker)
      in (map (\<lambda>t. if matched t then t\<lparr>lease_expires_at := Some new_expiry\<rparr> else t) ts,
          length (filter matched ts) = 1))"

definition owns_live_running_lease :: "string \<Rightarrow> time \<Rightarrow> task_row \<Rightarrow> bool" where
  "owns_live_running_lease worker now t \<longleftrightarrow>
     status t = Running \<and> worker_id t = Some worker \<and>
     (case lease_expires_at t of None \<Rightarrow> False | Some e \<Rightarrow> now < e)"

lemmas lease_defs =
  try_acquire_lease_def refresh_lease_def acquire_matches_def lease_free_def Let_def

section \<open>Facts\<close>

text \<open>A successful acquire found the lease free and leaves the caller its owner.\<close>

lemma filter_one:
  assumes "distinct (map task_id ts)" and P: "\<And>t. P t \<Longrightarrow> task_id t = pk"
  shows "length (filter P ts) = (if \<exists>t \<in> set ts. P t then 1 else 0)"
  using assms(1)
proof (induction ts)
  case Nil
  then show ?case by simp
next
  case (Cons a ts)
  have "\<not> P t" if "P a" "t \<in> set ts" for t
    using P [of a] P [of t] that Cons.prems by (auto simp: rev_image_eqI)
  with Cons show ?case by auto
qed

lemma acquire_found:
  assumes "distinct (map task_id ts)"
    and "try_acquire_lease n n' pk w ttl ex ts = (ts', True)"
  obtains t where "find_task ts pk = Some t" and "lease_free n' t" and "ex t"
    and "find_task ts' pk = Some (t\<lparr>lease_expires_at := Some (n + ttl), worker_id := Some w\<rparr>)"
proof -
  have one: "length (filter (acquire_matches n' pk ex) ts) = 1"
    and ts': "ts' = map (\<lambda>t. if acquire_matches n' pk ex t
        then t\<lparr>lease_expires_at := Some (n + ttl), worker_id := Some w\<rparr> else t) ts"
    using assms(2) by (simp_all add: try_acquire_lease_def Let_def)
  then obtain t where t: "t \<in> set ts" "acquire_matches n' pk ex t"
    by (metis filter_empty_conv list.size(3) zero_neq_one)
  then have found: "find_task ts pk = Some t"
    using find_task_unique [OF assms(1)] by (auto simp: acquire_matches_def)
  have "find_task ts' pk =
      map_option (\<lambda>t. if acquire_matches n' pk ex t
        then t\<lparr>lease_expires_at := Some (n + ttl), worker_id := Some w\<rparr> else t) (find_task ts pk)"
    unfolding ts' by (induction ts) (auto simp: find_task_def)
  with found t that show thesis by (auto simp: acquire_matches_def)
qed

lemma acq_fails:
  assumes "try_acquire_lease n n' pk w ttl ex ts = (ts', False)" and "distinct (map task_id ts)"
  shows "ts' = ts"
proof -
  have "length (filter (acquire_matches n' pk ex) ts) \<noteq> 1"
    using assms(1) by (simp add: try_acquire_lease_def Let_def)
  then have "\<forall>t \<in> set ts. \<not> acquire_matches n' pk ex t"
    using filter_one [OF assms(2), of "acquire_matches n' pk ex" pk]
    by (auto simp: acquire_matches_def split: if_splits)
  then show ?thesis
    using assms(1) by (auto simp: try_acquire_lease_def Let_def intro: map_idI)
qed

lemma acquire_rows:
  "try_acquire_lease n n' pk w ttl ex ts = (ts', b) \<Longrightarrow>
   map task_id ts' = map task_id ts \<and> map status ts' = map status ts \<and>
   map task_job_id ts' = map task_job_id ts"
  by (auto simp: try_acquire_lease_def Let_def)

lemma refresh_rows:
  "refresh_lease n pk w ttl ts = (ts', b) \<Longrightarrow>
   map task_id ts' = map task_id ts \<and> map status ts' = map status ts \<and>
   map task_job_id ts' = map task_job_id ts \<and> map worker_id ts' = map worker_id ts"
  by (auto simp: refresh_lease_def Let_def)

end
