(* ===== verification/Sweep_Loop.thy ===== *)
theory Sweep_Loop
  imports Lease
begin

text \<open>
  What the propagation loops of the dispatcher and of the janitor share: a turn visits the
  rows in order, a visit reads the status map and may replace the row, and a replaced row
  is written to the map before the next row is visited. The loop runs turns until one of
  them changes nothing. The interface \<open>sweep\<close> says what a visit may do; inside it the loop
  is shown to be an exhaustive run of the doom steps of \<open>Doom\<close>. The dispatcher and the
  janitor interpret it on their own visits and loops.
\<close>

section \<open>One turn\<close>

text \<open>A turn returns the rows, the status map and the rows it changed, in order.\<close>

fun sweep_pass ::
  "(status_map \<Rightarrow> task_row \<Rightarrow> task_row option) \<Rightarrow> task_row list \<Rightarrow> status_map \<Rightarrow>
   task_row list \<times> status_map \<times> task_row list" where
  "sweep_pass visit [] m = ([], m, [])"
| "sweep_pass visit (t # ts) m =
     (case visit m t of
        None \<Rightarrow> (case sweep_pass visit ts m of (ts', m', ch) \<Rightarrow> (t # ts', m', ch))
      | Some t' \<Rightarrow>
          (case sweep_pass visit ts (m(task_id t \<mapsto> status t')) of
             (ts', m', ch) \<Rightarrow> (t' # ts', m', t' # ch)))"

lemma sweep_pass_None:
  assumes "sweep_pass visit (t # ts) m = (ts', m', ch)" and "visit m t = None"
  obtains a where "sweep_pass visit ts m = (a, m', ch)" and "ts' = t # a"
  using assms by (auto split: prod.splits)

lemma sweep_pass_Some:
  assumes "sweep_pass visit (t # ts) m = (ts', m', ch)" and "visit m t = Some t'"
  obtains a b where "sweep_pass visit ts (m(task_id t \<mapsto> status t')) = (a, m', b)"
    and "ts' = t' # a" and "ch = t' # b"
  using assms by (auto split: prod.splits)

definition scope_of :: "task_row list \<Rightarrow> scope" where
  "scope_of ts = map_of (map (\<lambda>t. (task_id t, deps_of t)) ts)"

definition agrees :: "task_row list \<Rightarrow> status_map \<Rightarrow> bool" where
  "agrees ts m \<longleftrightarrow> (\<forall>t \<in> set ts. m (task_id t) = Some (status t))"

lemma agrees_Cons: "agrees (t # ts) m \<longleftrightarrow> m (task_id t) = Some (status t) \<and> agrees ts m"
  by (simp add: agrees_def)

lemma agrees_upd: "agrees ts m \<Longrightarrow> i \<notin> task_id ` set ts \<Longrightarrow> agrees ts (m(i \<mapsto> s))"
  by (auto simp: agrees_def rev_image_eqI)

lemma scope_of_mem:
  "distinct (map task_id ts) \<Longrightarrow> t \<in> set ts \<Longrightarrow> scope_of ts (task_id t) = Some (deps_of t)"
  by (auto simp: scope_of_def comp_def intro: map_of_is_SomeI)

lemma scope_of_SomeD:
  "scope_of ts i = Some ds \<Longrightarrow> \<exists>t \<in> set ts. task_id t = i \<and> ds = deps_of t"
  by (auto simp: scope_of_def dest!: map_of_SomeD)

definition doomed_row :: "task_row \<Rightarrow> task_row \<Rightarrow> bool" where
  "doomed_row t t' \<longleftrightarrow>
     t' = t \<or> task_id t' = task_id t \<and> task_job_id t' = task_job_id t \<and> deps_of t' = deps_of t \<and>
       status t = Pending \<and> status t' \<in> {Failed, Cancelled, Cancelled_Dirty}"

lemma doomed_row_trans: "doomed_row a b \<Longrightarrow> doomed_row b c \<Longrightarrow> doomed_row a c"
  by (auto simp: doomed_row_def)

section \<open>The interface\<close>

locale sweep =
  fixes visit :: "status_map \<Rightarrow> task_row \<Rightarrow> task_row option"
    and loop :: "task_row list \<Rightarrow> status_map \<Rightarrow> task_row list \<Rightarrow>
      task_row list \<times> status_map \<times> task_row list"
    and sz :: "task_row list \<Rightarrow> status_map \<Rightarrow> nat"
  assumes visit_Some: "m (task_id t) = Some (status t) \<Longrightarrow> visit m t = Some t' \<Longrightarrow>
      status t = Pending \<and> task_id t' = task_id t \<and> task_job_id t' = task_job_id t \<and>
      deps_of t' = deps_of t \<and> doom_status (dependency_state (deps_of t) m) = Some (status t')"
    and visit_None: "m (task_id t) = Some (status t) \<Longrightarrow> visit m t = None \<Longrightarrow>
      status t = Pending \<Longrightarrow> doom_status (dependency_state (deps_of t) m) = None"
    and loop_eq: "loop ts m changed =
      (case sweep_pass visit ts m of (ts', m', ch) \<Rightarrow>
         if ch = [] then (ts', m', changed) else loop ts' m' (changed @ ch))"
    and progress: "sweep_pass visit ts m = (ts', m', ch) \<Longrightarrow> ch \<noteq> [] \<Longrightarrow> sz ts' m' < sz ts m"
begin

lemma visit_bad: "m (task_id t) = Some (status t) \<Longrightarrow> visit m t = Some t' \<Longrightarrow> status t' \<noteq> Pending"
  by (drule (1) visit_Some) (auto dest!: doom_status_bad)

text \<open>A turn keeps the keys, the edges and the agreement of rows and map.\<close>

lemma pass_keeps:
  "sweep_pass visit ts m = (ts', m', ch) \<Longrightarrow> distinct (map task_id ts) \<Longrightarrow> agrees ts m \<Longrightarrow>
   map task_id ts' = map task_id ts \<and> map task_job_id ts' = map task_job_id ts \<and>
   scope_of ts' = scope_of ts \<and> agrees ts' m' \<and>
   (\<forall>i. i \<notin> task_id ` set ts \<longrightarrow> m' i = m i)"
proof (induction ts arbitrary: m ts' m' ch)
  case Nil
  then show ?case by simp
next
  case (Cons t ts)
  have new: "task_id t \<notin> task_id ` set ts" and head: "m (task_id t) = Some (status t)"
    using Cons.prems(2,3) by (simp_all add: agrees_Cons)
  show ?case
  proof (cases "visit m t")
    case None
    with Cons.prems(1) obtain a where "sweep_pass visit ts m = (a, m', ch)" "ts' = t # a"
      by (rule sweep_pass_None)
    with Cons.IH [of m a m' ch] Cons.prems new head show ?thesis
      by (simp add: agrees_Cons scope_of_def)
  next
    case (Some t')
    with Cons.prems(1) obtain a b where
      a: "sweep_pass visit ts (m(task_id t \<mapsto> status t')) = (a, m', b)" "ts' = t' # a"
      by (rule sweep_pass_Some)
    have "agrees ts (m(task_id t \<mapsto> status t'))"
      using Cons.prems(3) new by (intro agrees_upd) (simp_all add: agrees_Cons)
    note IH = Cons.IH [OF a(1) _ this]
    have old: "i \<notin> task_id ` set (t # ts) \<Longrightarrow> m' i = m i" for i
      using IH Cons.prems(2) by simp
    have "m' (task_id t) = Some (status t')"
      using IH Cons.prems(2) new by simp
    with IH Cons.prems(2) visit_Some [OF head Some] a(2) old show ?thesis
      by (simp add: agrees_Cons scope_of_def)
  qed
qed

text \<open>A turn is a run of doom steps, and it reports the rows it doomed.\<close>

lemma pass_steps:
  "sweep_pass visit ts m = (ts', m', ch) \<Longrightarrow> distinct (map task_id ts) \<Longrightarrow> agrees ts m \<Longrightarrow>
   (\<And>t. t \<in> set ts \<Longrightarrow> scope (task_id t) = Some (deps_of t)) \<Longrightarrow> doom_steps scope m m'"
proof (induction ts arbitrary: m ts' m' ch)
  case Nil
  then show ?case by simp
next
  case (Cons t ts)
  have new: "task_id t \<notin> task_id ` set ts" and head: "m (task_id t) = Some (status t)"
    using Cons.prems(2,3) by (simp_all add: agrees_Cons)
  show ?case
  proof (cases "visit m t")
    case None
    with Cons.prems(1) obtain a where "sweep_pass visit ts m = (a, m', ch)"
      by (rule sweep_pass_None)
    with Cons.IH [of m a m' ch] Cons.prems show ?thesis by (simp add: agrees_Cons)
  next
    case (Some t')
    with Cons.prems(1) obtain a b where
      a: "sweep_pass visit ts (m(task_id t \<mapsto> status t')) = (a, m', b)"
      by (rule sweep_pass_Some)
    have "doom_step scope m (m(task_id t \<mapsto> status t'))"
      using Cons.prems(4) [of t] visit_Some [OF head Some] head by (auto intro: doom_step.doom)
    moreover have "agrees ts (m(task_id t \<mapsto> status t'))"
      using Cons.prems(3) new by (intro agrees_upd) (simp_all add: agrees_Cons)
    from Cons.IH [OF a _ this] Cons.prems(2,4) have "doom_steps scope (m(task_id t \<mapsto> status t')) m'"
      by (simp del: fun_upd_apply)
    ultimately show ?thesis by (rule converse_rtranclp_into_rtranclp)
  qed
qed

lemma pass_reports:
  "sweep_pass visit ts m = (ts', m', ch) \<Longrightarrow> distinct (map task_id ts) \<Longrightarrow> agrees ts m \<Longrightarrow>
   task_id ` set ch = {i. m i = Some Pending \<and> m' i \<noteq> Some Pending} \<and>
   (\<forall>i. i \<notin> task_id ` set ch \<longrightarrow> find_task ts' i = find_task ts i)"
proof (induction ts arbitrary: m ts' m' ch)
  case Nil
  then show ?case by simp
next
  case (Cons t ts)
  have new: "task_id t \<notin> task_id ` set ts" and head: "m (task_id t) = Some (status t)"
    using Cons.prems(2,3) by (simp_all add: agrees_Cons)
  show ?case
  proof (cases "visit m t")
    case None
    with Cons.prems(1) obtain a where "sweep_pass visit ts m = (a, m', ch)" "ts' = t # a"
      by (rule sweep_pass_None)
    with Cons.IH [of m a m' ch] Cons.prems show ?thesis
      by (auto simp: agrees_Cons find_task_def)
  next
    case (Some t')
    with Cons.prems(1) obtain a b where
      a: "sweep_pass visit ts (m(task_id t \<mapsto> status t')) = (a, m', b)" "ts' = t' # a" "ch = t' # b"
      by (rule sweep_pass_Some)
    have agr: "agrees ts (m(task_id t \<mapsto> status t'))"
      using Cons.prems(3) new by (intro agrees_upd) (simp_all add: agrees_Cons)
    have last: "m' (task_id t) = Some (status t')"
      using pass_keeps [OF a(1)] Cons.prems(2) agr new by simp
    from Cons.IH [OF a(1) _ agr] Cons.prems(2)
    have "task_id ` set b = {i. (m(task_id t \<mapsto> status t')) i = Some Pending \<and> m' i \<noteq> Some Pending}"
      and "\<forall>i. i \<notin> task_id ` set b \<longrightarrow> find_task a i = find_task ts i" by simp_all
    from this(1) visit_bad [OF head Some] head last visit_Some [OF head Some]
    have "task_id ` set ch = {i. m i = Some Pending \<and> m' i \<noteq> Some Pending}"
      by (simp add: set_eq_iff a(3))
    moreover have "find_task ts' i = find_task (t # ts) i" if "i \<notin> task_id ` set ch" for i
      using that \<open>\<forall>i. i \<notin> task_id ` set b \<longrightarrow> _\<close> a(2,3) visit_Some [OF head Some]
      by (auto simp: find_task_def)
    ultimately show ?thesis by blast
  qed
qed

lemma pass_quiet:
  "sweep_pass visit ts m = (ts', m', []) \<Longrightarrow>
   ts' = ts \<and> m' = m \<and> (\<forall>t \<in> set ts. visit m t = None)"
proof (induction ts arbitrary: ts')
  case Nil
  then show ?case by simp
next
  case (Cons t ts)
  show ?case
  proof (cases "visit m t")
    case None
    with Cons.prems obtain a where "sweep_pass visit ts m = (a, m', [])" "ts' = t # a"
      by (rule sweep_pass_None)
    with Cons.IH None show ?thesis by simp
  next
    case (Some t')
    with Cons.prems show ?thesis by (auto split: prod.splits)
  qed
qed

text \<open>Row by row: a row is untouched, or it was pending and is now terminal.\<close>

lemma visit_rel:
  "m (task_id t) = Some (status t) \<Longrightarrow> visit m t = Some t' \<Longrightarrow> doomed_row t t'"
  using visit_Some [of m t t'] visit_bad [of m t t'] doom_status_bad [of "dependency_state (deps_of t) m"]
  by (auto simp: doomed_row_def)

lemma pass_rows:
  "sweep_pass visit ts m = (ts', m', ch) \<Longrightarrow> distinct (map task_id ts) \<Longrightarrow> agrees ts m \<Longrightarrow>
   list_all2 doomed_row ts ts'"
proof (induction ts arbitrary: m ts' m' ch)
  case Nil
  then show ?case by simp
next
  case (Cons t ts)
  have new: "task_id t \<notin> task_id ` set ts" and head: "m (task_id t) = Some (status t)"
    using Cons.prems(2,3) by (simp_all add: agrees_Cons)
  show ?case
  proof (cases "visit m t")
    case None
    with Cons.prems(1) obtain a where "sweep_pass visit ts m = (a, m', ch)" "ts' = t # a"
      by (rule sweep_pass_None)
    with Cons.IH [of m a m' ch] Cons.prems(2,3) show ?thesis
      by (simp add: agrees_Cons doomed_row_def)
  next
    case (Some t')
    with Cons.prems(1) obtain a b where
      a: "sweep_pass visit ts (m(task_id t \<mapsto> status t')) = (a, m', b)" "ts' = t' # a"
      by (rule sweep_pass_Some)
    have "agrees ts (m(task_id t \<mapsto> status t'))"
      using Cons.prems(3) new by (intro agrees_upd) (simp_all add: agrees_Cons)
    from Cons.IH [OF a(1) _ this] Cons.prems(2) visit_rel [OF head Some] a(2) show ?thesis
      by simp
  qed
qed

text \<open>The loop refines the doom steps, exhausts them and reports what it doomed.\<close>

definition swept ::
  "task_row list \<Rightarrow> status_map \<Rightarrow> task_row list \<Rightarrow> status_map \<Rightarrow> string set \<Rightarrow> bool" where
  "swept ts m ts' m' ids \<longleftrightarrow>
     doom_steps (scope_of ts) m m' \<and> agrees ts' m' \<and> scope_of ts' = scope_of ts \<and>
     map task_id ts' = map task_id ts \<and> map task_job_id ts' = map task_job_id ts \<and>
     ids = {i. m i = Some Pending \<and> m' i \<noteq> Some Pending} \<and>
     (\<forall>i. i \<notin> ids \<longrightarrow> find_task ts' i = find_task ts i)"

lemma doom_steps_pending: "doom_steps s m m' \<Longrightarrow> m' i = Some Pending \<Longrightarrow> m i = Some Pending"
  using doom_steps_sound [of s m m' i] by (auto simp: bad_upstream_def)

lemma pass_swept:
  assumes "sweep_pass visit ts m = (ts', m', ch)" and "distinct (map task_id ts)" and "agrees ts m"
  shows "swept ts m ts' m' (task_id ` set ch)"
  using pass_keeps [OF assms] pass_reports [OF assms]
    pass_steps [OF assms, of "scope_of ts"] scope_of_mem [OF assms(2)]
  by (simp add: swept_def)

lemma swept_trans:
  "swept ts m a b ch \<Longrightarrow> swept a b ts' m' ch' \<Longrightarrow> swept ts m ts' m' (ch \<union> ch')"
  unfolding swept_def using doom_steps_pending [of "scope_of ts"] by auto

lemma loop_swept:
  "loop ts m changed = (ts', m', changed') \<Longrightarrow> distinct (map task_id ts) \<Longrightarrow> agrees ts m \<Longrightarrow>
   \<exists>new. changed' = changed @ new \<and> swept ts m ts' m' (task_id ` set new) \<and>
     exhausted (scope_of ts) m'"
proof (induction "sz ts m" arbitrary: ts m changed rule: less_induct)
  case less
  obtain a b ch where pass: "sweep_pass visit ts m = (a, b, ch)"
    by (cases "sweep_pass visit ts m") auto
  note first = pass_swept [OF pass less.prems(2,3)]
  show ?case
  proof (cases "ch = []")
    case True
    with less.prems(1) pass have out: "ts' = a" "m' = b" "changed' = changed"
      by (auto simp: loop_eq [of ts])
    from pass_quiet [OF pass [unfolded True]] have quiet: "b = m" "\<forall>t \<in> set ts. visit m t = None"
      by auto
    then have "exhausted (scope_of ts) m"
      using less.prems(3)
      by (auto simp: exhausted_def agrees_def dest!: scope_of_SomeD intro: visit_None)
    with out quiet(1) first True show ?thesis by auto
  next
    case False
    with less.prems(1) pass have rest: "loop a b (changed @ ch) = (ts', m', changed')"
      by (simp add: loop_eq [of ts])
    from first have "distinct (map task_id a)" "agrees a b" "scope_of a = scope_of ts"
      using less.prems(2) by (auto simp: swept_def)
    with less.hyps [OF progress [OF pass False] rest] obtain new where
      "changed' = (changed @ ch) @ new" "swept a b ts' m' (task_id ` set new)"
      "exhausted (scope_of ts) m'" by auto
    with swept_trans [OF first] show ?thesis
      by (intro exI [of _ "ch @ new"]) (simp add: image_Un)
  qed
qed

lemma loop_rows:
  "loop ts m changed = (ts', m', changed') \<Longrightarrow> distinct (map task_id ts) \<Longrightarrow> agrees ts m \<Longrightarrow>
   list_all2 doomed_row ts ts'"
proof (induction "sz ts m" arbitrary: ts m changed rule: less_induct)
  case less
  obtain a b ch where pass: "sweep_pass visit ts m = (a, b, ch)"
    by (cases "sweep_pass visit ts m") auto
  note first = pass_rows [OF pass less.prems(2,3)]
  show ?case
  proof (cases "ch = []")
    case True
    with less.prems(1) pass first show ?thesis by (auto simp: loop_eq [of ts])
  next
    case False
    with less.prems(1) pass have rest: "loop a b (changed @ ch) = (ts', m', changed')"
      by (simp add: loop_eq [of ts])
    from pass_swept [OF pass less.prems(2,3)] have "distinct (map task_id a)" "agrees a b"
      using less.prems(2) by (auto simp: swept_def)
    from less.hyps [OF progress [OF pass False] rest this] show ?thesis
      using list_all2_trans [of doomed_row doomed_row doomed_row] first doomed_row_trans by blast
  qed
qed

text \<open>Started with nothing changed: the changed rows are the doomed ones.\<close>

lemma loop_dooms:
  assumes "loop ts m [] = (ts', m', ch)" and "distinct (map task_id ts)" and "agrees ts m"
  shows "task_id ` set ch = {i. doomed (scope_of ts) m i}"
    and "exhausted (scope_of ts) m'" and "doom_steps (scope_of ts) m m'" and "agrees ts' m'"
    and "map task_id ts' = map task_id ts" and "map task_job_id ts' = map task_job_id ts"
    and "\<And>i. i \<notin> task_id ` set ch \<Longrightarrow> find_task ts' i = find_task ts i"
    and "\<And>i. i \<in> task_id ` set ch \<Longrightarrow> m' i \<in> Some ` {Failed, Cancelled, Cancelled_Dirty}"
    and "\<And>i. i \<notin> task_id ` set ch \<Longrightarrow> m' i = m i"
proof -
  from loop_swept [OF assms] have sw: "swept ts m ts' m' (task_id ` set ch)"
    and ex: "exhausted (scope_of ts) m'" by auto
  then have steps: "doom_steps (scope_of ts) m m'" by (simp add: swept_def)
  have "m i = Some Pending \<and> m' i \<noteq> Some Pending \<longleftrightarrow> doomed (scope_of ts) m i" for i
    using exhausted_run [OF steps ex, of i] doomed_pending [of "scope_of ts" m i] by auto
  with sw show doomed: "task_id ` set ch = {i. doomed (scope_of ts) m i}"
    by (simp add: swept_def)
  show "m' i \<in> Some ` {Failed, Cancelled, Cancelled_Dirty}" if "i \<in> task_id ` set ch" for i
    using exhausted_run [OF steps ex, of i] that by (auto simp: doomed)
  show "m' i = m i" if "i \<notin> task_id ` set ch" for i
    using exhausted_run [OF steps ex, of i] that by (auto simp: doomed)
  show "exhausted (scope_of ts) m'" "doom_steps (scope_of ts) m m'" by (fact ex, fact steps)
  show "agrees ts' m'" "map task_id ts' = map task_id ts" "map task_job_id ts' = map task_job_id ts"
    and "\<And>i. i \<notin> task_id ` set ch \<Longrightarrow> find_task ts' i = find_task ts i"
    using sw by (simp_all add: swept_def)
qed

end

section \<open>Doomed rows\<close>

text \<open>The change both loops make to a row whose dependencies decide it.\<close>

definition doom_row :: "time \<Rightarrow> string \<Rightarrow> dep_state \<Rightarrow> task_row \<Rightarrow> task_row option" where
  "doom_row now failure_message state t =
     (case state of
        Dep_Ready \<Rightarrow> None
      | Dep_Blocked \<Rightarrow> None
      | Dep_Failed \<Rightarrow> Some (t\<lparr>status := Failed, error_class := Some ''DependencyFailed'',
          error_message := Some failure_message, finished_at := Some now\<rparr>)
      | Dep_Cancelled \<Rightarrow> Some (t\<lparr>status := Cancelled, error_class := Some ''DependencyCancelled'',
          error_message := Some ''upstream dependency cancelled'', finished_at := Some now\<rparr>)
      | Dep_Cancelled_Dirty \<Rightarrow> Some (t\<lparr>status := Cancelled_Dirty,
          error_class := Some ''DependencyCancelled'',
          error_message := Some ''upstream dependency cancelled'', finished_at := Some now\<rparr>))"

lemma doom_row_Some:
  "doom_row now msg st t = Some t' \<Longrightarrow>
   task_id t' = task_id t \<and> task_job_id t' = task_job_id t \<and> deps_of t' = deps_of t \<and>
   tenant_id t' = tenant_id t \<and> task_state_json t' = task_state_json t \<and>
   doom_status st = Some (status t')"
  by (cases st) (auto simp: doom_row_def deps_of_def)

lemma doom_row_None: "doom_row now msg st t = None \<longleftrightarrow> doom_status st = None"
  by (cases st) (auto simp: doom_row_def)

lemma filter_length_less:
  assumes "\<And>x. x \<in> set xs \<Longrightarrow> Q x \<Longrightarrow> P x" and "y \<in> set xs" "P y" "\<not> Q y"
  shows "length (filter Q xs) < length (filter P xs)"
  using assms
proof (induction xs)
  case Nil
  then show ?case by simp
next
  case (Cons x xs)
  have "filter Q xs = filter Q (filter P xs)"
    using Cons.prems(1) by (auto intro: filter_cong)
  then have le: "length (filter Q xs) \<le> length (filter P xs)"
    by (metis length_filter_le)
  show ?case
  proof (cases "y \<in> set xs")
    case True
    with Cons have "length (filter Q xs) < length (filter P xs)" by simp
    with Cons.prems(1) [of x] show ?thesis by auto
  next
    case False
    with Cons.prems le show ?thesis by auto
  qed
qed

section \<open>Writing the rows back\<close>

text \<open>The session flush writes the changed objects back to their rows.\<close>

definition write_back :: "task_row list \<Rightarrow> task_row list \<Rightarrow> task_row list" where
  "write_back objs ts =
     map (\<lambda>t. case find_task objs (task_id t) of None \<Rightarrow> t | Some t' \<Rightarrow> t') ts"

lemma write_back_row:
  "task_id (case find_task objs (task_id t) of None \<Rightarrow> t | Some t' \<Rightarrow> t') = task_id t"
  by (auto dest: find_task_Some split: option.splits)

lemma find_task_write_back:
  "find_task (write_back objs ts) i =
   (case find_task ts i of None \<Rightarrow> None
    | Some t \<Rightarrow> (case find_task objs i of None \<Rightarrow> Some t | Some t' \<Rightarrow> Some t'))"
  unfolding write_back_def find_task_map [of "\<lambda>t. case find_task objs (task_id t) of None \<Rightarrow> t | Some t' \<Rightarrow> t'", OF write_back_row]
  by (auto dest: find_task_Some split: option.splits)

lemma write_back_ids [simp]: "map task_id (write_back objs ts) = map task_id ts"
  by (simp add: write_back_def write_back_row)

text \<open>Writing back the rows a loop returned changes the rows it doomed, and no other.\<close>

lemma find_task_list_all2:
  "list_all2 R xs ys \<Longrightarrow> (\<And>x y. R x y \<Longrightarrow> task_id y = task_id x) \<Longrightarrow>
   find_task ys i = Some y \<Longrightarrow> \<exists>x. find_task xs i = Some x \<and> R x y"
  by (induction rule: list_all2_induct) (auto simp: find_task_def split: if_splits)

lemma write_back_rows:
  assumes "list_all2 doomed_row (filter P ts) objs" and "distinct (map task_id ts)"
  shows "list_all2 doomed_row ts (write_back objs ts)"
proof -
  have "doomed_row t (case find_task objs (task_id t) of None \<Rightarrow> t | Some t' \<Rightarrow> t')"
    if "t \<in> set ts" for t
  proof (cases "find_task objs (task_id t)")
    case None
    then show ?thesis by (simp add: doomed_row_def)
  next
    case (Some t')
    have "task_id y = task_id x" if "doomed_row x y" for x y
      using that by (auto simp: doomed_row_def)
    from find_task_list_all2 [OF assms(1) this Some] obtain x where
      "find_task (filter P ts) (task_id t) = Some x" "doomed_row x t'" by blast
    moreover from find_task_Some [OF this(1)] have "x \<in> set (filter P ts)" "task_id x = task_id t"
      by (fact conjunct1, fact conjunct2)
    then have "x = t" using assms(2) that by (auto simp: distinct_map dest: inj_onD)
    ultimately show ?thesis using Some by simp
  qed
  then show ?thesis
    unfolding write_back_def by (auto simp: list.rel_map intro!: list.rel_refl_strong)
qed

end
