(* ===== verification/Sweeps.thy ===== *)
theory Sweeps
  imports Sweep_Loop
begin

text \<open>
  The database sweeps of \<open>orchestrator/janitor.py\<close>: lease reclaim, the ready-pending query
  and the propagation of terminal dependencies with its fixed-point loop. The loop is a
  function whose termination measure is the number of rows still pending; it is shown to
  refine the doom steps of \<open>Doom\<close> and to exhaust them.
\<close>

section \<open>Lease reclaim\<close>

definition lease_expired :: "time \<Rightarrow> task_row \<Rightarrow> bool" where
  "lease_expired now t \<longleftrightarrow>
     status t = Running \<and> (case lease_expires_at t of None \<Rightarrow> False | Some e \<Rightarrow> e < now)"

definition reclaim_expired_leases :: "time \<Rightarrow> 'r db \<Rightarrow> 'r db \<times> string list" where
  "reclaim_expired_leases now d =
     (let reclaimed = map task_id (filter (lease_expired now) (tasks d))
      in (if reclaimed = [] then d
          else d\<lparr>tasks := map (\<lambda>t. if lease_expired now t \<and> task_id t \<in> set reclaimed
              then t\<lparr>status := Pending, worker_id := None, lease_expires_at := None\<rparr>
              else t) (tasks d)\<rparr>,
          reclaimed))"

section \<open>The pending rows and the statuses they depend on\<close>

definition load_pending_tasks_with_dep_statuses ::
  "task_row list \<Rightarrow> task_row list \<times> status_map" where
  "load_pending_tasks_with_dep_statuses ts =
     (let pending = filter (\<lambda>t. status t = Pending) ts;
          status_by_id = statuses_of pending;
          dep_ids = concat (map deps_of pending);
          unknown = filter (\<lambda>dep. status_by_id dep = None) dep_ids
      in (pending, status_by_id ++ statuses_of (filter (\<lambda>t. task_id t \<in> set unknown) ts)))"

definition find_ready_pending_tasks :: "task_row list \<Rightarrow> string list" where
  "find_ready_pending_tasks ts =
     (let (pending, status_by_id) = load_pending_tasks_with_dep_statuses ts
      in map task_id
           (filter (\<lambda>t. task_state_json t \<noteq> None \<and> dependencies_ready (deps_of t) status_by_id)
              pending))"

section \<open>Propagation\<close>

text \<open>The reconstruction a task writes to, when its state names one.\<close>

definition json_get :: "json \<Rightarrow> string \<Rightarrow> json option" where
  "json_get j k = (case j of JObj kvs \<Rightarrow> map_of kvs k | _ \<Rightarrow> None)"

definition task_recon_id :: "task_row \<Rightarrow> string option" where
  "task_recon_id t =
     (let state = (case task_state_json t of Some (JObj kvs) \<Rightarrow> JObj kvs | _ \<Rightarrow> JObj []);
          inputs = (case json_get state ''inputs'' of Some (JObj kvs) \<Rightarrow> JObj kvs | _ \<Rightarrow> JObj [])
      in case json_get inputs ''recon_id'' of
           Some (JStr s) \<Rightarrow> if s = [] then None else Some s
         | _ \<Rightarrow> None)"

definition resource_status_for_task :: "task_row \<Rightarrow> task_status option" where
  "resource_status_for_task t =
     (if status t = Failed then Some Failed
      else if status t = Cancelled \<or> status t = Cancelled_Dirty then Some (status t)
      else None)"

text \<open>One row of one turn of the loop: a doomed row gets its status and its error.\<close>

definition visit_row :: "time \<Rightarrow> status_map \<Rightarrow> task_row \<Rightarrow> task_row option" where
  "visit_row now m t =
     (if m (task_id t) \<noteq> Some Pending then None
      else let state = dependency_state (deps_of t) m;
               missing = list_ex (\<lambda>dep. m dep = None) (deps_of t)
           in doom_row now (if missing then ''upstream dependency missing''
                            else ''upstream dependency failed'') state t)"

definition pending_count :: "task_row list \<Rightarrow> status_map \<Rightarrow> nat" where
  "pending_count ts m = length (filter (\<lambda>t. m (task_id t) = Some Pending) ts)"

lemma visit_row_Some:
  assumes "visit_row now m t = Some t'"
  shows "m (task_id t) = Some Pending" and "task_id t' = task_id t"
    and "task_job_id t' = task_job_id t" and "deps_of t' = deps_of t"
    and "doom_status (dependency_state (deps_of t) m) = Some (status t')"
  using assms by (auto simp: visit_row_def Let_def dest: doom_row_Some split: if_splits)

lemma visit_row_bad: "visit_row now m t = Some t' \<Longrightarrow> status t' \<noteq> Pending"
  by (auto dest!: visit_row_Some(5) doom_status_bad)

lemma visit_row_None:
  "visit_row now m t = None \<longleftrightarrow>
   m (task_id t) \<noteq> Some Pending \<or> doom_status (dependency_state (deps_of t) m) = None"
  by (simp add: visit_row_def Let_def doom_row_None)

lemma pass_antimono:
  "sweep_pass (visit_row now) ts m = (ts', m', ch) \<Longrightarrow>
   map task_id ts' = map task_id ts \<and> (m' u = Some Pending \<longrightarrow> m u = Some Pending)"
proof (induction ts arbitrary: m ts' m' ch)
  case Nil
  then show ?case by simp
next
  case (Cons t ts)
  show ?case
  proof (cases "visit_row now m t")
    case None
    with Cons show ?thesis by (auto split: prod.splits)
  next
    case (Some t')
    with Cons.prems obtain a b where
      a: "sweep_pass (visit_row now) ts (m(task_id t \<mapsto> status t')) = (a, m', b)" "ts' = t' # a"
      by (rule sweep_pass_Some)
    from Cons.IH [OF a(1)] a(2) visit_row_bad [OF Some] visit_row_Some(2) [OF Some] show ?thesis
      by (simp split: if_splits)
  qed
qed

lemma pass_changes:
  "sweep_pass (visit_row now) ts m = (ts', m', ch) \<Longrightarrow> ch \<noteq> [] \<Longrightarrow>
   \<exists>t \<in> set ts. m (task_id t) = Some Pending \<and> m' (task_id t) \<noteq> Some Pending"
proof (induction ts arbitrary: m ts' m' ch)
  case Nil
  then show ?case by simp
next
  case (Cons t ts)
  show ?case
  proof (cases "visit_row now m t")
    case None
    with Cons.prems obtain a where "sweep_pass (visit_row now) ts m = (a, m', ch)"
      by (auto split: prod.splits)
    from Cons.IH [OF this Cons.prems(2)] show ?thesis by simp
  next
    case (Some t')
    with Cons.prems(1) obtain a b where
      pass: "sweep_pass (visit_row now) ts (m(task_id t \<mapsto> status t')) = (a, m', b)"
      by (rule sweep_pass_Some)
    have "m' (task_id t) \<noteq> Some Pending"
      using pass_antimono [OF pass, of "task_id t"] visit_row_bad [OF Some] by auto
    with visit_row_Some(1) [OF Some] show ?thesis by simp
  qed
qed

lemma pending_count_ids:
  assumes "map task_id ts = map task_id ts'"
  shows "pending_count ts m = pending_count ts' m"
proof -
  have ids: "pending_count ts m = length (filter (\<lambda>i. m i = Some Pending) (map task_id ts))" for ts
    by (induction ts) (auto simp: pending_count_def)
  show ?thesis unfolding ids by (simp only: assms)
qed

lemma pass_decreases:
  assumes "sweep_pass (visit_row now) ts m = (ts', m', ch)" and "ch \<noteq> []"
  shows "pending_count ts' m' < pending_count ts m"
proof -
  from pass_changes [OF assms] obtain t where
    "t \<in> set ts" "m (task_id t) = Some Pending" "m' (task_id t) \<noteq> Some Pending" by blast
  then have "pending_count ts m' < pending_count ts m"
    unfolding pending_count_def using pass_antimono [OF assms(1)]
    by (intro filter_length_less) auto
  then show ?thesis
    using pending_count_ids pass_antimono [OF assms(1)] by metis
qed

text \<open>\<open>while progressed\<close>.\<close>

function propagate_loop ::
  "time \<Rightarrow> task_row list \<Rightarrow> status_map \<Rightarrow> task_row list \<Rightarrow>
   task_row list \<times> status_map \<times> task_row list" where
  "propagate_loop now ts m changed =
     (case sweep_pass (visit_row now) ts m of (ts', m', ch) \<Rightarrow>
        if ch = [] then (ts', m', changed)
        else propagate_loop now ts' m' (changed @ ch))"
  by pat_completeness auto
termination
  by (relation "measure (\<lambda>(now, ts, m, changed). pending_count ts m)")
    (auto dest: pass_decreases [OF sym])

declare propagate_loop.simps [simp del]

interpretation janitor_sweep: sweep "visit_row now" "propagate_loop now" pending_count
proof
  fix m and t t' :: task_row
  assume "m (task_id t) = Some (status t)"
  then show "visit_row now m t = Some t' \<Longrightarrow>
      status t = Pending \<and> task_id t' = task_id t \<and> task_job_id t' = task_job_id t \<and>
      deps_of t' = deps_of t \<and> doom_status (dependency_state (deps_of t) m) = Some (status t')"
    and "visit_row now m t = None \<Longrightarrow> status t = Pending \<Longrightarrow>
      doom_status (dependency_state (deps_of t) m) = None"
    using visit_row_Some [of now m t t'] by (auto simp: visit_row_None)
next
  fix ts m changed
  show "propagate_loop now ts m changed =
      (case sweep_pass (visit_row now) ts m of (ts', m', ch) \<Rightarrow>
         if ch = [] then (ts', m', changed) else propagate_loop now ts' m' (changed @ ch))"
    by (rule propagate_loop.simps)
next
  fix ts m ts' m' ch
  show "sweep_pass (visit_row now) ts m = (ts', m', ch) \<Longrightarrow> ch \<noteq> [] \<Longrightarrow>
      pending_count ts' m' < pending_count ts m"
    by (rule pass_decreases)
qed

definition set_recon_status ::
  "string \<Rightarrow> string \<Rightarrow> task_status \<Rightarrow> recon_row list \<Rightarrow> recon_row list" where
  "set_recon_status tenant rid st rs =
     map (\<lambda>r. if recon_tenant_id r = tenant \<and> recon_id r = rid then r\<lparr>recon_status := st\<rparr> else r) rs"

definition affect_recon :: "recon_row list \<Rightarrow> task_row \<Rightarrow> recon_row list" where
  "affect_recon rs t =
     (case (task_recon_id t, resource_status_for_task t) of
        (Some rid, Some st) \<Rightarrow> set_recon_status (tenant_id t) rid st rs
      | _ \<Rightarrow> rs)"

text \<open>\<open>dict.fromkeys\<close> and set insertion: the first occurrence of each.\<close>

definition dedup :: "'a list \<Rightarrow> 'a list" where
  "dedup xs = rev (remdups (rev xs))"

lemma set_dedup [simp]: "set (dedup xs) = set xs"
  by (simp add: dedup_def)

definition propagate_terminal_dependencies :: "time \<Rightarrow> 'r db \<Rightarrow> 'r db \<times> string list" where
  "propagate_terminal_dependencies now d =
     (let (pending, status_by_id) = load_pending_tasks_with_dep_statuses (tasks d);
          (objs, m, changed) = propagate_loop now pending status_by_id []
      in if changed = [] then (d, [])
         else (let d1 = d\<lparr>tasks := write_back objs (tasks d),
                    resources := (resources d)\<lparr>recons := foldl affect_recon (recons (resources d)) changed\<rparr>\<rparr>
               in (foldl (\<lambda>d jid. finalize_job_if_ready now jid d) d1
                     (dedup (map task_job_id changed)),
                   map task_id changed)))"

section \<open>What the sweep does to the tables\<close>

abbreviation pending_rows :: "task_row list \<Rightarrow> task_row list" where
  "pending_rows ts \<equiv> filter (\<lambda>t. status t = Pending) ts"

lemma pending_rows_distinct [simp]:
  "distinct (map task_id ts) \<Longrightarrow> distinct (map task_id (filter P ts))"
  by (simp add: distinct_map_filter)

lemma statuses_of_filter:
  "distinct (map task_id ts) \<Longrightarrow> statuses_of (filter P ts) i =
     (case find_task ts i of None \<Rightarrow> None | Some t \<Rightarrow> if P t then Some (status t) else None)"
proof (induction ts)
  case Nil
  then show ?case by (simp add: statuses_of_def find_task_def)
next
  case (Cons t ts)
  then have "statuses_of ts (task_id t) = None" "find_task ts (task_id t) = None"
    by (auto simp: statuses_of_None find_task_None)
  moreover from this have "statuses_of (filter P ts) (task_id t) = None"
    by (auto simp: statuses_of_None)
  ultimately show ?case
    using Cons by (auto simp: statuses_of_def find_task_def map_add_def split: option.splits)
qed

text \<open>The map the sweep loads covers the pending rows and everything they depend on.\<close>

lemma load_pending:
  assumes "load_pending_tasks_with_dep_statuses ts = (pending, m)" and "distinct (map task_id ts)"
  shows "pending = pending_rows ts" and "agrees pending m"
    and "\<And>t. t \<in> set pending \<Longrightarrow> m (task_id t) = statuses_of ts (task_id t)"
    and "\<And>t d. t \<in> set pending \<Longrightarrow> d \<in> set (deps_of t) \<Longrightarrow> m d = statuses_of ts d"
    and "\<And>i. m i = Some Pending \<longleftrightarrow> statuses_of ts i = Some Pending"
proof -
  show pending: "pending = pending_rows ts"
    using assms(1) by (simp add: load_pending_tasks_with_dep_statuses_def Let_def)
  define unknown where
    "unknown = filter (\<lambda>dep. statuses_of pending dep = None) (concat (map deps_of pending))"
  have m: "m = statuses_of pending ++ statuses_of (filter (\<lambda>t. task_id t \<in> set unknown) ts)"
    using assms(1) by (simp add: load_pending_tasks_with_dep_statuses_def Let_def unknown_def pending)
  have val: "m i = (case find_task ts i of None \<Rightarrow> None
      | Some t \<Rightarrow> if status t = Pending \<or> i \<in> set unknown then Some (status t) else None)" for i
    unfolding m pending
    using find_task_Some [of ts i]
    by (auto simp: map_add_def statuses_of_filter [OF assms(2)] split: option.splits)
  have found: "find_task ts (task_id t) = Some t" if "t \<in> set pending" for t
    using that find_task_unique [OF assms(2)] by (simp add: pending)
  show "agrees pending m"
    using found by (auto simp: agrees_def val pending)
  show "m (task_id t) = statuses_of ts (task_id t)" if "t \<in> set pending" for t
    using found [OF that] that by (simp add: val statuses_of_find [OF assms(2)] pending)
  show "m i = Some Pending \<longleftrightarrow> statuses_of ts i = Some Pending" for i
    by (auto simp: val statuses_of_find [OF assms(2)] split: option.splits)
  show "m d = statuses_of ts d" if "t \<in> set pending" "d \<in> set (deps_of t)" for t d
  proof (cases "find_task ts d")
    case None
    then show ?thesis by (simp add: val statuses_of_find [OF assms(2)])
  next
    case (Some u)
    then have "status u \<noteq> Pending \<longrightarrow> d \<in> set unknown"
      using that by (auto simp: unknown_def pending statuses_of_filter [OF assms(2)])
    with Some show ?thesis by (auto simp: val statuses_of_find [OF assms(2)])
  qed
qed

lemma fold_finalize_tasks [simp]:
  "tasks (foldl (\<lambda>d jid. finalize_job_if_ready now jid d) d js) = tasks d"
  by (induction js arbitrary: d) simp_all

lemma doomed_mono_cong:
  assumes "\<And>t ds. scope t = Some ds \<Longrightarrow> m t = m' t \<and> (\<forall>d \<in> set ds. m d = m' d)"
  shows "doomed scope m t \<Longrightarrow> doomed scope m' t"
  by (induction rule: doomed.induct)
    (use assms in \<open>auto intro: doomed.direct doomed.through\<close>)

lemma doomed_cong:
  assumes "\<And>t ds. scope t = Some ds \<Longrightarrow> m t = m' t \<and> (\<forall>d \<in> set ds. m d = m' d)"
  shows "doomed scope m t = doomed scope m' t"
  using doomed_mono_cong [of scope m m' t] doomed_mono_cong [of scope m' m t] assms by metis

lemma exhausted_cong:
  assumes "\<And>t ds. scope t = Some ds \<Longrightarrow> m t = m' t \<and> (\<forall>d \<in> set ds. m d = m' d)"
  shows "exhausted scope m = exhausted scope m'"
proof -
  have "dependency_state ds m = dependency_state ds m'" if "scope t = Some ds" for t ds
    using assms [OF that] by (intro dependency_state_cong) simp
  with assms show ?thesis unfolding exhausted_def by metis
qed

text \<open>The whole sweep, in terms of the doom steps.\<close>

lemma propagate_dooms_aux:
  assumes uniq: "keys_unique d" and run: "propagate_terminal_dependencies now d = (d', ids)"
  defines "scope \<equiv> scope_of (pending_rows (tasks d))"
  shows "set ids = {i. doomed scope (statuses_of (tasks d)) i}"
    and "\<And>i. i \<notin> set ids \<Longrightarrow> find_task (tasks d') i = find_task (tasks d) i"
    and "\<And>i. i \<in> set ids \<Longrightarrow> \<exists>t. find_task (tasks d') i = Some t \<and>
      status t \<in> {Failed, Cancelled, Cancelled_Dirty}"
    and "exhausted scope (statuses_of (tasks d'))"
    and "map task_id (tasks d') = map task_id (tasks d)"
proof -
  obtain pending m0 where load: "load_pending_tasks_with_dep_statuses (tasks d) = (pending, m0)"
    by (cases "load_pending_tasks_with_dep_statuses (tasks d)") auto
  obtain objs m ch where loop: "propagate_loop now pending m0 [] = (objs, m, ch)"
    by (cases "propagate_loop now pending m0 []") auto
  have dist: "distinct (map task_id (tasks d))" using uniq by (simp add: keys_unique_def)
  note loaded = load_pending [OF load dist]
  have pending: "pending = pending_rows (tasks d)" "distinct (map task_id pending)"
    using loaded(1) dist by simp_all
  have ids: "ids = map task_id ch" and rows: "ch \<noteq> [] \<Longrightarrow> tasks d' = write_back objs (tasks d)"
    and quiet: "ch = [] \<Longrightarrow> d' = d"
    using run load loop
    by (auto simp: propagate_terminal_dependencies_def Let_def split: if_splits)
  note sw = janitor_sweep.loop_dooms [OF loop pending(2) loaded(2)]
  have scope: "scope_of pending = scope" by (simp add: scope_def pending(1))
  note sw = sw [unfolded scope]
  have same: "m0 t = statuses_of (tasks d) t \<and> (\<forall>u \<in> set ds. m0 u = statuses_of (tasks d) u)"
    if "scope t = Some ds" for t ds
    using that loaded(3,4) by (auto simp: scope_def pending(1) [symmetric] dest!: scope_of_SomeD)
  have doomed: "doomed scope m0 i = doomed scope (statuses_of (tasks d)) i" for i
    by (rule doomed_cong) (rule same)
  have changed: "set ids = task_id ` set ch" by (simp add: ids)
  show set_ids: "set ids = {i. doomed scope (statuses_of (tasks d)) i}"
    using sw(1) by (simp add: changed doomed)
  have new: "find_task (tasks d') i = (case find_task (tasks d) i of None \<Rightarrow> None
      | Some t \<Rightarrow> (case find_task objs i of None \<Rightarrow> Some t | Some t' \<Rightarrow> Some t'))" for i
  proof (cases "ch = []")
    case True
    then have "find_task objs i = find_task pending i"
      using sw(7) by simp
    then show ?thesis
      using True quiet by (auto simp: pending(1) find_task_unique [OF dist]
          dest: find_task_Some split: option.splits)
  qed (simp add: rows find_task_write_back)
  show "find_task (tasks d') i = find_task (tasks d) i" if "i \<notin> set ids" for i
  proof -
    have "find_task objs i = find_task pending i"
      using sw(7) that by (simp add: changed)
    then show ?thesis
      by (auto simp: new pending(1) find_task_unique [OF dist] dest: find_task_Some
          split: option.splits)
  qed
  have objs_dist: "distinct (map task_id objs)" using sw(5) pending(2) by simp
  have objs: "\<exists>t. find_task objs i = Some t \<and> find_task (tasks d') i = Some t \<and> m i = Some (status t)"
    if "i \<in> task_id ` set pending" for i
  proof -
    have "i \<in> task_id ` set objs" using that sw(5) by (metis set_map)
    then obtain t where t: "t \<in> set objs" "i = task_id t" by blast
    then have "find_task objs i = Some t" using find_task_unique [OF objs_dist] by simp
    moreover have "find_task (tasks d) i \<noteq> None"
      using that by (auto simp: find_task_None pending(1))
    ultimately show ?thesis
      using t sw(4) by (auto simp: new agrees_def)
  qed
  have in_pending: "i \<in> task_id ` set pending" if "m0 i = Some Pending" for i
    using that loaded(5) [of i] find_task_Some [of "tasks d" i]
    by (auto simp: statuses_of_find [OF dist] pending(1))
  show "\<exists>t. find_task (tasks d') i = Some t \<and> status t \<in> {Failed, Cancelled, Cancelled_Dirty}"
    if "i \<in> set ids" for i
  proof -
    from that have "doomed scope m0 i" by (simp add: set_ids doomed)
    then have "m0 i = Some Pending" by (rule doomed_pending)
    from objs [OF in_pending [OF this]] sw(8) [of i] that show ?thesis by (auto simp: changed)
  qed
  show task_ids: "map task_id (tasks d') = map task_id (tasks d)"
    using rows quiet by (cases "ch = []") auto
  have dist': "distinct (map task_id (tasks d'))" using dist by (simp only: task_ids)
  have after: "m u = statuses_of (tasks d') u" if "m0 u = statuses_of (tasks d) u" for u
  proof (cases "m0 u = Some Pending")
    case True
    from objs [OF in_pending [OF this]] show ?thesis by (auto simp: statuses_of_find [OF dist'])
  next
    case False
    then have "u \<notin> set ids" using doomed_pending by (auto simp: set_ids doomed [symmetric])
    moreover from this have "m u = m0 u" using sw(9) by (simp add: changed)
    ultimately show ?thesis
      using that \<open>\<And>i. i \<notin> set ids \<Longrightarrow> find_task (tasks d') i = find_task (tasks d) i\<close>
      by (simp add: statuses_of_find [OF dist'] statuses_of_find [OF dist])
  qed
  have "exhausted scope m = exhausted scope (statuses_of (tasks d'))"
    by (rule exhausted_cong) (use same after in blast)
  with sw(2) show "exhausted scope (statuses_of (tasks d'))" by simp
qed

lemma ready_pending_rows:
  assumes "distinct (map task_id ts)"
  shows "find_ready_pending_tasks ts =
    map task_id (filter (\<lambda>t. status t = Pending \<and> task_state_json t \<noteq> None \<and>
      statuses_of ts ` set (deps_of t) \<subseteq> {Some Succeeded, Some Skipped}) ts)"
proof -
  obtain pending m where load: "load_pending_tasks_with_dep_statuses ts = (pending, m)"
    by (cases "load_pending_tasks_with_dep_statuses ts") auto
  note loaded = load_pending [OF load assms]
  have "dependencies_ready (deps_of t) m \<longleftrightarrow>
      statuses_of ts ` set (deps_of t) \<subseteq> {Some Succeeded, Some Skipped}" if "t \<in> set pending" for t
    using readiness.ready_upstream [of "deps_of t" m] readiness.upstream_ready [of "deps_of t" m]
      loaded(4) [OF that] by (auto simp: image_subset_iff)
  then have "filter (\<lambda>t. task_state_json t \<noteq> None \<and> dependencies_ready (deps_of t) m) pending =
      filter (\<lambda>t. task_state_json t \<noteq> None \<and>
        statuses_of ts ` set (deps_of t) \<subseteq> {Some Succeeded, Some Skipped}) pending"
    by (intro filter_cong) auto
  then show ?thesis
    using load by (simp add: find_ready_pending_tasks_def loaded(1) conj_commute conj_left_commute)
qed

section \<open>Properties\<close>

text \<open>
  C4. One run of the propagation sweep fails or cancels exactly the pending tasks that
  reach a missing, failed or cancelled task through pending ones, in any number of hops;
  it leaves every other row untouched, and afterwards no pending task has a terminal
  dependency left.
\<close>

theorem propagate_dooms_exactly:
  assumes "keys_unique d" and "propagate_terminal_dependencies now d = (d', ids)"
  defines "scope \<equiv> scope_of (filter (\<lambda>t. status t = Pending) (tasks d))"
  shows "set ids = {i. doomed scope (statuses_of (tasks d)) i} \<and>
    (\<forall>i. if i \<in> set ids
       then \<exists>t. find_task (tasks d') i = Some t \<and> status t \<in> {Failed, Cancelled, Cancelled_Dirty}
       else find_task (tasks d') i = find_task (tasks d) i) \<and>
    exhausted scope (statuses_of (tasks d'))"
  using propagate_dooms_aux [OF assms(1,2)] unfolding scope_def by auto

definition chain_tasks :: "task_row list" where
  "chain_tasks =
     [blank_task\<lparr>task_id := ''c'', task_job_id := ''j'', depends_on_json := Some [''b'']\<rparr>,
      blank_task\<lparr>task_id := ''b'', task_job_id := ''j'', depends_on_json := Some [''a'']\<rparr>,
      blank_task\<lparr>task_id := ''a'', task_job_id := ''j'', status := Failed\<rparr>,
      blank_task\<lparr>task_id := ''e'', task_job_id := ''j''\<rparr>]"

definition chain_db :: "unit db" where
  "chain_db = \<lparr>tasks = chain_tasks, jobs = [blank_job\<lparr>job_id := ''j''\<rparr>], job_events = [],
     resources = \<lparr>recons = [], stage_artifacts = [], others = ()\<rparr>\<rparr>"

lemmas chain_defs = chain_db_def chain_tasks_def blank_rows

lemma chain_unique: "keys_unique chain_db"
  by (simp add: keys_unique_def chain_defs)

lemma chain_run: "snd (propagate_terminal_dependencies 5 chain_db) = [''b'', ''c'']"
  by code_simp

theorem propagate_dooms_exactly_witness:
  "doomed (scope_of (filter (\<lambda>t. status t = Pending) (tasks chain_db)))
     (statuses_of (tasks chain_db)) ''c''"
proof -
  obtain d' ids where run: "propagate_terminal_dependencies 5 chain_db = (d', ids)"
    by (cases "propagate_terminal_dependencies 5 chain_db") auto
  with chain_run have "''c'' \<in> set ids" by simp
  with propagate_dooms_exactly [OF chain_unique run] show ?thesis by simp
qed

text \<open>
  Lease reclaim puts back to pending, without owner and lease, exactly the running
  tasks whose lease expiry lies in the past, reports their ids, and touches nothing else.
\<close>

theorem reclaim_exactly_expired:
  "reclaim_expired_leases now d = (d', ids) \<Longrightarrow>
   ids = map task_id (filter (lease_expired now) (tasks d)) \<and>
   tasks d' = map (\<lambda>t. if status t = Running \<and> lease_expires_at t \<in> Some ` {..<now}
       then t\<lparr>status := Pending, worker_id := None, lease_expires_at := None\<rparr> else t) (tasks d) \<and>
   jobs d' = jobs d \<and> resources d' = resources d"
proof -
  have expired: "lease_expired now t \<longleftrightarrow> status t = Running \<and> lease_expires_at t \<in> Some ` {..<now}" for t
    by (auto simp: lease_expired_def split: option.splits)
  assume "reclaim_expired_leases now d = (d', ids)"
  then show ?thesis
    by (auto simp: reclaim_expired_leases_def Let_def expired [symmetric] filter_empty_conv
        intro!: map_idI [symmetric] split: if_splits)
qed

theorem reclaim_exactly_expired_witness:
  "fst (reclaim_expired_leases 9
     (chain_db\<lparr>tasks := [blank_task\<lparr>status := Running, lease_expires_at := Some 8\<rparr>]\<rparr>)) =
   chain_db\<lparr>tasks := [blank_task]\<rparr>"
  using reclaim_exactly_expired [of 9
      "chain_db\<lparr>tasks := [blank_task\<lparr>status := Running, lease_expires_at := Some 8\<rparr>]\<rparr>"]
  by (simp add: reclaim_expired_leases_def lease_expired_def Let_def blank_task_def)

text \<open>
  The ready-pending query returns exactly the pending tasks that carry a state and
  whose dependencies have all succeeded or been skipped, so a task whose queue message was
  lost is offered again by every sweep until a worker takes it.
\<close>

theorem ready_pending_complete:
  assumes "distinct (map task_id ts)"
  shows "find_ready_pending_tasks ts =
    map task_id (filter (\<lambda>t. status t = Pending \<and> task_state_json t \<noteq> None \<and>
      statuses_of ts ` set (deps_of t) \<subseteq> {Some Succeeded, Some Skipped}) ts)"
  using assms by (rule ready_pending_rows)

theorem ready_pending_complete_witness:
  "find_ready_pending_tasks
     [blank_task\<lparr>task_id := ''a'', status := Succeeded\<rparr>,
      blank_task\<lparr>task_id := ''b'', depends_on_json := Some [''a''], task_state_json := Some JNull\<rparr>] =
   [''b'']"
proof -
  let ?ts = "[blank_task\<lparr>task_id := ''a'', status := Succeeded\<rparr>,
      blank_task\<lparr>task_id := ''b'', depends_on_json := Some [''a''], task_state_json := Some JNull\<rparr>]"
  have "distinct (map task_id ?ts)" by simp
  from ready_pending_complete [OF this] show ?thesis
    by (simp add: blank_task_def deps_of_def statuses_of_def)
qed

end
