(* ===== verification/Dispatcher.thy ===== *)
theory Dispatcher
  imports Sweeps
begin

text \<open>
  \<open>workers/dispatcher.py\<close>: running one task. \<open>execute_task\<close> is cut at its commits: the
  pickup transaction, the handler (which runs outside any transaction), and the
  transaction that commits its result. Each is a function on the database, so other
  workers, the janitor and the API may act between them; \<open>Engine\<close> interleaves them. Inside
  one transaction the clock is read once.

  A delivery of a task id to the queue is a returned id; with the inline backend the same
  delivery is a nested call. Hooks write resources only.
\<close>

section \<open>Dependencies of one task, and of one job\<close>

definition task_dependency_state :: "task_row list \<Rightarrow> task_row \<Rightarrow> dep_state" where
  "task_dependency_state ts t =
     (let deps = deps_of t in
      if deps = [] then Dep_Ready
      else dependency_state deps (statuses_of (filter (\<lambda>u. task_id u \<in> set deps) ts)))"

definition mark_row :: "time \<Rightarrow> status_map \<Rightarrow> task_row \<Rightarrow> task_row option" where
  "mark_row now m t =
     (if status t \<noteq> Pending then None
      else if deps_of t = [] then None
      else doom_row now ''upstream dependency failed'' (dependency_state (deps_of t) m) t)"

definition pending_row_count :: "task_row list \<Rightarrow> status_map \<Rightarrow> nat" where
  "pending_row_count ts m = length (filter (\<lambda>t. status t = Pending) ts)"

lemma mark_row_Some:
  "mark_row now m t = Some t' \<Longrightarrow>
   status t = Pending \<and> status t' \<noteq> Pending \<and> task_id t' = task_id t \<and>
   task_job_id t' = task_job_id t \<and> deps_of t' = deps_of t \<and>
   doom_status (dependency_state (deps_of t) m) = Some (status t')"
proof -
  assume visit: "mark_row now m t = Some t'"
  then have "doom_row now ''upstream dependency failed'' (dependency_state (deps_of t) m) t = Some t'"
    and "status t = Pending"
    by (simp_all add: mark_row_def split: if_splits)
  from this(2) doom_row_Some [OF this(1)] doom_status_bad [of "dependency_state (deps_of t) m" "status t'"]
  show ?thesis by auto
qed

lemma mark_row_None:
  "mark_row now m t = None \<longleftrightarrow>
   status t \<noteq> Pending \<or> doom_status (dependency_state (deps_of t) m) = None"
  by (auto simp: mark_row_def doom_row_None)

lemma mark_pass_decreases:
  "sweep_pass (mark_row now) ts m = (ts', m', ch) \<Longrightarrow>
   pending_row_count ts' m' + length ch = pending_row_count ts m"
proof (induction ts arbitrary: m ts' m' ch)
  case Nil
  then show ?case by (simp add: pending_row_count_def)
next
  case (Cons t ts)
  show ?case
  proof (cases "mark_row now m t")
    case None
    with Cons.prems obtain a where "sweep_pass (mark_row now) ts m = (a, m', ch)" "ts' = t # a"
      by (rule sweep_pass_None)
    with Cons.IH show ?thesis by (auto simp: pending_row_count_def)
  next
    case (Some t')
    with Cons.prems obtain a b where
      "sweep_pass (mark_row now) ts (m(task_id t \<mapsto> status t')) = (a, m', b)" "ts' = t' # a"
      "ch = t' # b" by (rule sweep_pass_Some)
    with Cons.IH mark_row_Some [OF Some] show ?thesis by (fastforce simp: pending_row_count_def)
  qed
qed

lemma mark_pass_less:
  "sweep_pass (mark_row now) ts m = (ts', m', ch) \<Longrightarrow> ch \<noteq> [] \<Longrightarrow>
   pending_row_count ts' m' < pending_row_count ts m"
  using mark_pass_decreases [of now ts m ts' m' ch] by (cases ch) auto

text \<open>\<open>while changed\<close>; the loop keeps the rows it changed, the code only whether there are any.\<close>

function mark_loop ::
  "time \<Rightarrow> task_row list \<Rightarrow> status_map \<Rightarrow> task_row list \<Rightarrow>
   task_row list \<times> status_map \<times> task_row list" where
  "mark_loop now ts m changed =
     (case sweep_pass (mark_row now) ts m of (ts', m', ch) \<Rightarrow>
        if ch = [] then (ts', m', changed)
        else mark_loop now ts' m' (changed @ ch))"
  by pat_completeness auto
termination
  by (relation "measure (\<lambda>(now, ts, m, changed). pending_row_count ts m)")
    (auto dest: mark_pass_less [OF sym])

declare mark_loop.simps [simp del]

interpretation dispatcher_sweep: sweep "mark_row now" "mark_loop now" pending_row_count
proof
  fix m and t t' :: task_row
  show "mark_row now m t = Some t' \<Longrightarrow>
      status t = Pending \<and> task_id t' = task_id t \<and> task_job_id t' = task_job_id t \<and>
      deps_of t' = deps_of t \<and> doom_status (dependency_state (deps_of t) m) = Some (status t')"
    by (drule mark_row_Some) simp
  show "mark_row now m t = None \<Longrightarrow> status t = Pending \<Longrightarrow>
      doom_status (dependency_state (deps_of t) m) = None"
    by (simp add: mark_row_None)
next
  fix ts m changed
  show "mark_loop now ts m changed =
      (case sweep_pass (mark_row now) ts m of (ts', m', ch) \<Rightarrow>
         if ch = [] then (ts', m', changed) else mark_loop now ts' m' (changed @ ch))"
    by (rule mark_loop.simps)
next
  fix ts m ts' m' ch
  show "sweep_pass (mark_row now) ts m = (ts', m', ch) \<Longrightarrow> ch \<noteq> [] \<Longrightarrow>
      pending_row_count ts' m' < pending_row_count ts m"
    by (rule mark_pass_less)
qed

definition mark_dependency_failures_and_ready ::
  "time \<Rightarrow> string \<Rightarrow> 'r db \<Rightarrow> 'r db \<times> string list" where
  "mark_dependency_failures_and_ready now jid d =
     (let rows = job_tasks (tasks d) jid;
          (rows', status_by_id, _) = mark_loop now rows (statuses_of rows) [];
          ready = map task_id (filter (\<lambda>t. status t = Pending \<and> deps_of t \<noteq> [] \<and>
            list_all (\<lambda>dep. status_in READY_DEPENDENCY_STATUSES (status_by_id dep)) (deps_of t)) rows')
      in (d\<lparr>tasks := write_back rows' (tasks d)\<rparr>, ready))"

definition advance_job_after_terminal :: "time \<Rightarrow> string \<Rightarrow> 'r db \<Rightarrow> 'r db \<times> string list" where
  "advance_job_after_terminal now jid d =
     (let (d1, ready) = mark_dependency_failures_and_ready now jid d
      in (finalize_job_if_ready now jid d1, ready))"

section \<open>Terminal transitions\<close>

definition run_status_hook ::
  "'r env \<Rightarrow> 'r resources \<Rightarrow> task_row \<Rightarrow> task_status \<Rightarrow> 'r resources" where
  "run_status_hook env res t st =
     (case status_hooks env (kind t) of None \<Rightarrow> res | Some hook \<Rightarrow> hook res t st)"

definition run_success_hook ::
  "'r env \<Rightarrow> 'r resources \<Rightarrow> task_row \<Rightarrow> json \<Rightarrow> exn + 'r resources" where
  "run_success_hook env res t outputs =
     (case success_hooks env (kind t) of None \<Rightarrow> Inr res | Some hook \<Rightarrow> hook res t outputs)"

definition finalize_row ::
  "time \<Rightarrow> task_status \<Rightarrow> string option \<Rightarrow> string option \<Rightarrow> task_row \<Rightarrow> task_row" where
  "finalize_row now st ec em t =
     t\<lparr>status := st,
       error_class := (if ec \<noteq> None then ec else error_class t),
       error_message := (if em \<noteq> None then em else error_message t),
       finished_at := Some now\<rparr>"

definition finalize_task ::
  "'r env \<Rightarrow> time \<Rightarrow> task_row \<Rightarrow> task_status \<Rightarrow> string option \<Rightarrow> string option \<Rightarrow> 'r db \<Rightarrow> 'r db" where
  "finalize_task env now t st ec em d =
     (let t' = finalize_row now st ec em t
      in d\<lparr>tasks := modify_task (task_id t) (\<lambda>_. t') (tasks d),
           resources := run_status_hook env (resources d) t' Failed\<rparr>)"

definition maybe_finalize_job :: "time \<Rightarrow> string \<Rightarrow> 'r db \<Rightarrow> 'r db" where
  "maybe_finalize_job now jid d =
     (let rows = job_tasks (tasks d) jid in
      case rolled_up rows of
        None \<Rightarrow> d
      | Some new_status \<Rightarrow>
          d\<lparr>jobs := modify_job jid
              (\<lambda>j. if job_status j = new_status then j
                   else let j = j\<lparr>job_status := new_status, job_finished_at := Some now\<rparr>
                        in if new_status = Failed then copy_first_error rows j else j)
              (jobs d)\<rparr>)"

definition post_terminal :: "time \<Rightarrow> string \<Rightarrow> 'r db \<Rightarrow> 'r db \<times> string list" where
  "post_terminal now jid d = advance_job_after_terminal now jid (maybe_finalize_job now jid d)"

section \<open>The pickup transaction\<close>

text \<open>The dictionary \<open>execute_task\<close> returns.\<close>

datatype task_result =
    R_missing
  | R_busy
  | R_blocked
  | R_lost_lease
  | R_status task_status
  | R_failed string
  | R_succeeded json

datatype pickup = Done task_result | Run task_row

definition start_task ::
  "'r env \<Rightarrow> time \<Rightarrow> task_row \<Rightarrow> 'r db \<Rightarrow> 'r db \<times> string list \<times> pickup" where
  "start_task env now t d =
     (let t' = t\<lparr>status := Running, started_at := Some now\<rparr>
      in (d\<lparr>tasks := modify_task (task_id t) (\<lambda>_. t') (tasks d),
            resources := run_status_hook env (resources d) t' Running\<rparr>, [], Run t'))"

definition pickup_task ::
  "'r env \<Rightarrow> string \<Rightarrow> time \<Rightarrow> string \<Rightarrow> 'r db \<Rightarrow> 'r db \<times> string list \<times> pickup" where
  "pickup_task env w now tid d =
     (case find_task (tasks d) tid of
        None \<Rightarrow> (d, [], Done R_missing)
      | Some t \<Rightarrow>
          if status t \<noteq> Pending then (d, [], Done (R_status (status t)))
          else let dep_state = task_dependency_state (tasks d) t in
            if dep_state = Dep_Blocked then (d, [], Done R_blocked)
            else case doom_row now ''upstream dependency failed'' dep_state t of
              Some t' \<Rightarrow>
                (let (d', ready) = advance_job_after_terminal now (task_job_id t)
                       (d\<lparr>tasks := modify_task tid (\<lambda>_. t') (tasks d)\<rparr>)
                 in (d', ready, Done (if dep_state = Dep_Failed then R_failed ''dependency_failed''
                                      else R_status (status t'))))
            | None \<Rightarrow>
                (let (ts, acquired) = try_acquire_lease now now tid w (lease_ttl_seconds env)
                       (\<lambda>u. status u = Pending) (tasks d)
                 in if \<not> acquired then (d\<lparr>tasks := ts\<rparr>, [], Done R_busy)
                    else case find_task ts tid of
                      None \<Rightarrow> (d\<lparr>tasks := ts\<rparr>, [], Done R_missing)
                    | Some u \<Rightarrow>
                        (case find_job (jobs d) (task_job_id u) of
                           Some j \<Rightarrow>
                             if cancel_requested j
                             then let d1 = finalize_task env now u
                                      (if cancel_force j then Cancelled_Dirty else Cancelled) None None
                                      (d\<lparr>tasks := ts\<rparr>);
                                    (d2, ready) = post_terminal now (task_job_id u) d1
                                  in (d2, ready, Done (R_status Cancelled))
                             else start_task env now u (d\<lparr>tasks := ts\<rparr>)
                         | None \<Rightarrow> start_task env now u (d\<lparr>tasks := ts\<rparr>))))"

section \<open>The transactions that commit a result\<close>

text \<open>
  Every one of them reads the row again and does nothing unless the worker still owns a
  live lease on a running task.
\<close>

definition fail_owned_task ::
  "'r env \<Rightarrow> string \<Rightarrow> time \<Rightarrow> string \<Rightarrow> string \<Rightarrow> string \<Rightarrow> task_result \<Rightarrow> 'r db \<Rightarrow>
   'r db \<times> string list \<times> task_result" where
  "fail_owned_task env w now tid ec em result d =
     (case find_task (tasks d) tid of
        None \<Rightarrow> (d, [], R_missing)
      | Some t \<Rightarrow>
          if \<not> owns_live_running_lease w now t then (d, [], R_lost_lease)
          else let d1 = finalize_task env now t Failed (Some ec) (Some em) d;
                   (d2, ready) = post_terminal now (task_job_id t) d1
               in (d2, ready, result))"

text \<open>\<open>name.removesuffix("Error")\<close>.\<close>

definition removesuffix :: "string \<Rightarrow> string \<Rightarrow> string" where
  "removesuffix suf s =
     (if suf \<noteq> [] \<and> suffix suf s then take (length s - length suf) s else s)"

definition handle_exception ::
  "'r env \<Rightarrow> string \<Rightarrow> time \<Rightarrow> string \<Rightarrow> exn \<Rightarrow> 'r db \<Rightarrow> 'r db \<times> string list \<times> task_result" where
  "handle_exception env w now tid e d =
     (let public_error = sanitize_error env (exn_text e) in
      if exn_backend_unavailable e
      then fail_owned_task env w now tid (removesuffix ''Error'' (exn_name e)) public_error
             (R_failed ''backend_unavailable'') d
      else fail_owned_task env w now tid (exn_name e) public_error (R_failed public_error) d)"

definition commit_success ::
  "'r env \<Rightarrow> string \<Rightarrow> time \<Rightarrow> string \<Rightarrow> json \<Rightarrow> 'r db \<Rightarrow>
   exn + ('r db \<times> string list \<times> task_result)" where
  "commit_success env w now tid outputs d =
     (case find_task (tasks d) tid of
        None \<Rightarrow> Inr (d, [], R_missing)
      | Some t \<Rightarrow>
          if \<not> owns_live_running_lease w now t then Inr (d, [], R_lost_lease)
          else let j = find_job (jobs d) (task_job_id t) in
            if (case j of None \<Rightarrow> False | Some j \<Rightarrow> cancel_requested j)
            then let d1 = finalize_task env now t Cancelled_Dirty (Some ''Cancelled'')
                       (Some ''job cancellation requested before task commit'') d;
                     (d2, ready) = post_terminal now (task_job_id t) d1
                 in Inr (d2, ready, R_status Cancelled_Dirty)
            else andthen (register_derived_dataset env (resources d) j t outputs)
              (\<lambda>(res1, outputs).
                let t' = t\<lparr>status := Succeeded, outputs_ref_json := Some outputs,
                      finished_at := Some now\<rparr>
                in andthen (record_task_artifacts env res1 t' outputs) (\<lambda>res2.
                   andthen (run_success_hook env res2 t' outputs) (\<lambda>res3.
                     let d1 = d\<lparr>tasks := modify_task tid (\<lambda>_. t') (tasks d), resources := res3\<rparr>;
                         (d2, ready) = post_terminal now (task_job_id t) d1
                     in Inr (d2, ready, R_succeeded outputs)))))"

text \<open>The part of \<open>execute_task\<close> after the handler was looked up and called.\<close>

definition finish_task ::
  "'r env \<Rightarrow> string \<Rightarrow> time \<Rightarrow> task_row \<Rightarrow> 'r db \<Rightarrow> 'r db \<times> string list \<times> task_result" where
  "finish_task env w now picked d =
     (let tid = task_id picked in
      case handlers env (kind picked) of
        None \<Rightarrow> fail_owned_task env w now tid ''UnknownTask''
                  (''No handler for kind='' @ kind picked) (R_status Failed) d
      | Some handler \<Rightarrow>
          (case (case handler picked of
                   Raised e \<Rightarrow> Inl e
                 | Returned raw \<Rightarrow>
                     andthen (normalize_task_outputs env picked raw)
                       (\<lambda>outputs. commit_success env w now tid outputs d)) of
             Inl e \<Rightarrow> handle_exception env w now tid e d
           | Inr r \<Rightarrow> r))"

text \<open>Without interference: both transactions in a row, at the two times given.\<close>

definition execute_task ::
  "'r env \<Rightarrow> string \<Rightarrow> time \<Rightarrow> time \<Rightarrow> string \<Rightarrow> 'r db \<Rightarrow> 'r db \<times> string list \<times> task_result" where
  "execute_task env w now now' tid d =
     (case pickup_task env w now tid d of
        (d1, q1, Done r) \<Rightarrow> (d1, q1, r)
      | (d1, q1, Run picked) \<Rightarrow>
          (case finish_task env w now' picked d1 of (d2, q2, r) \<Rightarrow> (d2, q1 @ q2, r)))"

definition heartbeat ::
  "'r env \<Rightarrow> string \<Rightarrow> time \<Rightarrow> string \<Rightarrow> 'r db \<Rightarrow> 'r db \<times> bool" where
  "heartbeat env w now tid d =
     (let (ts, refreshed) = refresh_lease now tid w (lease_ttl_seconds env) (tasks d)
      in (d\<lparr>tasks := ts\<rparr>, refreshed))"

definition heartbeat_interval :: "'r env \<Rightarrow> int" where
  "heartbeat_interval env = max 1 (lease_ttl_seconds env div 3)"

section \<open>The rollup of the dispatcher\<close>

interpretation dispatcher_rollup: job_rollup maybe_finalize_job
proof
  fix now jid and d :: "'r db"
  show "tasks (maybe_finalize_job now jid d) = tasks d"
    and "resources (maybe_finalize_job now jid d) = resources d"
    by (simp_all add: maybe_finalize_job_def Let_def split: option.splits)
  show "map job_id (jobs (maybe_finalize_job now jid d)) = map job_id (jobs d)"
    by (simp add: maybe_finalize_job_def Let_def split: option.splits)
  show "rolled_up (job_tasks (tasks d) jid) = None \<Longrightarrow> maybe_finalize_job now jid d = d"
    by (simp add: maybe_finalize_job_def)
  show "find_job (jobs (maybe_finalize_job now jid d)) jid' = find_job (jobs d) jid'"
    if "jid' \<noteq> jid" for jid'
    using that by (simp add: maybe_finalize_job_def Let_def find_job_modify split: option.splits)
  show "\<exists>j'. find_job (jobs (maybe_finalize_job now jid d)) jid = Some j' \<and> job_status j' = s \<and>
      job_finished_at j' = (if job_status j = s then job_finished_at j else Some now)"
    if "rolled_up (job_tasks (tasks d) jid) = Some s" and "find_job (jobs d) jid = Some j" for s j
    using that by (simp add: maybe_finalize_job_def Let_def find_job_modify)
qed

end
