(* ===== verification/Scheduler.thy ===== *)
theory Scheduler
  imports Dispatcher
begin

text \<open>
  \<open>orchestrator/scheduler.py\<close>, \<open>orchestrator/resume.py\<close>, the backend choice of
  \<open>orchestrator/queue.py\<close> and the record sweep of \<open>orchestrator/janitor.py\<close>: how jobs enter
  the task tables, how a finished one is put back to work, and how it leaves. The ids
  handed to a queue are returned; a queue that refuses a delivery loses it, and the
  janitor's sweep of ready pending tasks offers it again.
\<close>

section \<open>Submission\<close>

definition resolve_external_dep_statuses ::
  "task_row list \<Rightarrow> task_row list \<Rightarrow> status_map \<Rightarrow> status_map" where
  "resolve_external_dep_statuses table ts status_by_id =
     (let external = filter (\<lambda>dep. status_by_id dep = None) (concat (map deps_of ts))
      in if external = [] then status_by_id
         else status_by_id ++ statuses_of (filter (\<lambda>u. task_id u \<in> set external) table))"

text \<open>
  The runtime version row and the new ids are arguments. The result holds the database,
  the job id, the rows and the ids handed to the queue.
\<close>

definition submit_job_dag ::
  "'r env \<Rightarrow> time \<Rightarrow> string \<Rightarrow> string list \<Rightarrow> string \<Rightarrow> string \<Rightarrow> string \<Rightarrow> string \<Rightarrow> json option \<Rightarrow>
   task_node list \<Rightarrow> 'r db \<Rightarrow> exn + ('r db \<times> string \<times> task_row list \<times> string list)" where
  "submit_job_dag env now new_job new_ids rv tenant project rcp spec nodes d =
     (let (d1, j) = create_job new_job tenant project rcp spec d in
      andthen (materialize_dag env new_ids tenant (job_id j) rv nodes d1) (\<lambda>(d2, rows).
        let status_by_id = statuses_of rows;
            pending = filter (\<lambda>t. status t \<noteq> Succeeded) rows
        in if pending = [] then Inr (finalize_job_if_ready now (job_id j) d2, job_id j, rows, [])
           else let m = resolve_external_dep_statuses (tasks d2) pending status_by_id;
                    ready = filter (\<lambda>t. dependencies_ready (deps_of t) m) pending
                in Inr (d2, job_id j, rows, map task_id ready)))"

section \<open>Resume\<close>

definition resumable :: "task_status \<Rightarrow> bool" where
  "resumable s \<longleftrightarrow> s \<in> {Failed, Cancelled, Cancelled_Dirty}"

definition reset_task :: "task_row \<Rightarrow> task_row" where
  "reset_task t =
     (if resumable (status t)
      then t\<lparr>status := Pending, error_class := None, error_message := None,
             lease_expires_at := None, worker_id := None, started_at := None,
             finished_at := None\<rparr>
      else t)"

definition reset_job :: "job_row \<Rightarrow> job_row" where
  "reset_job j =
     j\<lparr>cancel_requested := False, cancel_force := False, job_status := Pending,
       job_error_class := None, job_error_message := None, job_started_at := None,
       job_finished_at := None\<rparr>"

definition resume_job ::
  "string \<Rightarrow> string \<Rightarrow> 'r db \<Rightarrow> api_error + ('r db \<times> job_row \<times> string list)" where
  "resume_job tenant jid d =
     (case find (\<lambda>j. job_tenant_id j = tenant \<and> job_id j = jid) (jobs d) of
        None \<Rightarrow> raising NotFoundError (''Job '' @ jid @ '' not found'')
      | Some j \<Rightarrow>
          if \<not> resumable (job_status j)
          then raising ValidationError (''Job '' @ jid @ '' is not resumable from status ''
                 @ py_repr (status_str (job_status j)))
          else let rows = job_tasks (tasks d) jid;
                   reset_count = length (filter (\<lambda>t. resumable (status t)) rows)
               in if reset_count = 0
                  then raising ValidationError
                         (''Job '' @ jid @ '' has no failed or cancelled tasks to resume'')
                  else let rows' = map reset_task rows;
                           status_by_id = statuses_of rows';
                           ready = map task_id (filter (\<lambda>t. status t = Pending \<and>
                             dependencies_ready (deps_of t) status_by_id) rows')
                       in Inr (d\<lparr>tasks := map (\<lambda>t. if task_job_id t = jid then reset_task t else t)
                                    (tasks d),
                                  jobs := modify_job (job_id j) reset_job (jobs d)\<rparr>,
                               reset_job j, ready))"

section \<open>Cancellation and retention\<close>

definition TERMINAL_JOB_STATUSES :: "task_status list" where
  "TERMINAL_JOB_STATUSES = [Succeeded, Failed, Cancelled, Cancelled_Dirty]"

definition seconds_per_day :: int where
  "seconds_per_day = 86400"

definition job_expired :: "time \<Rightarrow> job_row \<Rightarrow> bool" where
  "job_expired cutoff j \<longleftrightarrow>
     job_status j \<in> set TERMINAL_JOB_STATUSES \<and> \<not> pinned j \<and>
     (case job_finished_at j of None \<Rightarrow> False | Some f \<Rightarrow> f < cutoff)"

text \<open>The unlinking of the event file is left out; its errors are suppressed.\<close>

definition gc_expired_job_records :: "'r env \<Rightarrow> time \<Rightarrow> 'r db \<Rightarrow> 'r db \<times> nat" where
  "gc_expired_job_records env now d =
     (case retention_days env of
        None \<Rightarrow> (d, 0)
      | Some days \<Rightarrow>
          let cutoff = now - days * seconds_per_day;
              expired = filter (job_expired cutoff) (jobs d);
              job_ids = set (map job_id expired)
          in if expired = [] then (d, 0)
             else (d\<lparr>resources := (resources d)\<lparr>stage_artifacts :=
                        filter (\<lambda>a. artifact_job_id a \<notin> job_ids) (stage_artifacts (resources d))\<rparr>,
                     job_events := filter (\<lambda>e. event_job_id e \<notin> job_ids) (job_events d),
                     tasks := filter (\<lambda>t. task_job_id t \<notin> job_ids) (tasks d),
                     jobs := filter (\<lambda>j. job_id j \<notin> job_ids) (jobs d)\<rparr>,
                   length expired))"

section \<open>The queue backend\<close>

definition BACKENDS :: "string list" where
  "BACKENDS = [''arq'', ''inline'', ''raw_redis'']"

definition resolve_backend_name :: "bool \<Rightarrow> bool \<Rightarrow> string \<Rightarrow> string" where
  "resolve_backend_name force_inline inline_tasks queue_backend =
     (if force_inline \<or> inline_tasks then ''inline'' else queue_backend)"

definition get_queue :: "bool \<Rightarrow> bool \<Rightarrow> string \<Rightarrow> string + string" where
  "get_queue force_inline inline_tasks queue_backend =
     (let backend = resolve_backend_name force_inline inline_tasks queue_backend
      in if backend \<in> set BACKENDS then Inr backend
         else Inl (''unknown queue_backend='' @ py_repr backend @ ''; valid: ''
                   @ ''['' @ joins '', '' (map py_repr (sort BACKENDS)) @ '']''))"

text \<open>The process-wide cache holds one queue per pooled backend; inline is not cached.\<close>

definition get_shared_queue ::
  "bool \<Rightarrow> bool \<Rightarrow> string \<Rightarrow> string list \<Rightarrow> (string + string) \<times> string list" where
  "get_shared_queue force_inline inline_tasks queue_backend cached =
     (let backend = resolve_backend_name force_inline inline_tasks queue_backend
      in if backend = ''inline'' then (Inr ''inline'', cached)
         else if backend \<in> set cached then (Inr backend, cached)
         else case get_queue force_inline inline_tasks queue_backend of
             Inl e \<Rightarrow> (Inl e, cached)
           | Inr q \<Rightarrow> (Inr q, cached @ [q]))"

section \<open>Facts\<close>

lemma reset_task_keeps [simp]:
  "task_id (reset_task t) = task_id t" "task_job_id (reset_task t) = task_job_id t"
  "task_cache_key (reset_task t) = task_cache_key t" "deps_of (reset_task t) = deps_of t"
  "tenant_id (reset_task t) = tenant_id t" "outputs_ref_json (reset_task t) = outputs_ref_json t"
  by (simp_all add: reset_task_def deps_of_def)

lemma reset_task_status:
  "status (reset_task t) = (if resumable (status t) then Pending else status t)"
  by (simp add: reset_task_def)

lemma materialize_dag_rows:
  assumes "materialize_dag env ids tenant jid rv nodes d = Inr (d', out)"
  shows "tasks d' = tasks d @ out" and "jobs d' = jobs d"
    and "map task_id out = map node_id (fill_ids ids nodes)"
  using assms record_cached_rows materialize_nodes_ids [of env tenant jid rv "fill_ids ids nodes" "tasks d"]
  by (fastforce simp: materialize_dag_def Let_def andthen_Inr)+

end
