(* ===== verification/Row_Changes.thy ===== *)
theory Row_Changes
  imports Scheduler
begin

text \<open>
  What a transaction of the engine may do to a task row. \<open>row_ok D\<close> is a reflexive and
  transitive relation between a row and its later version: a terminal row keeps its status
  and outputs, a row starts running only where \<open>D\<close> held of it and only with a lease, and
  it succeeds only with outputs. Every transaction of the dispatcher and the janitor is
  shown to relate the table before it to the table after it.
\<close>

definition terminal :: "task_status \<Rightarrow> bool" where
  "terminal s \<longleftrightarrow> s \<noteq> Pending \<and> s \<noteq> Running"

definition leased :: "task_row \<Rightarrow> bool" where
  "leased t \<longleftrightarrow> worker_id t \<noteq> None \<and> lease_expires_at t \<noteq> None"

definition row_ok :: "(task_row \<Rightarrow> bool) \<Rightarrow> task_row \<Rightarrow> task_row \<Rightarrow> bool" where
  "row_ok D t t' \<longleftrightarrow>
     task_id t' = task_id t \<and> task_job_id t' = task_job_id t \<and> deps_of t' = deps_of t \<and>
     (terminal (status t) \<longrightarrow> status t' = status t \<and> outputs_ref_json t' = outputs_ref_json t) \<and>
     (status t' = Running \<longrightarrow>
        (status t = Running \<or> D t) \<and> ((status t = Running \<longrightarrow> leased t) \<longrightarrow> leased t')) \<and>
     (status t' = Succeeded \<longrightarrow> status t = Succeeded \<or> outputs_ref_json t' \<noteq> None)"

abbreviation rows_ok :: "(task_row \<Rightarrow> bool) \<Rightarrow> task_row list \<Rightarrow> task_row list \<Rightarrow> bool" where
  "rows_ok D \<equiv> list_all2 (row_ok D)"

lemma row_ok_refl [simp]: "row_ok D t t"
  by (simp add: row_ok_def)

lemma rows_ok_refl [simp]: "rows_ok D ts ts"
  by (simp add: list.rel_refl)

lemma row_ok_trans:
  assumes t: "row_ok D t u" and u: "row_ok D' u v" and D: "D' u \<Longrightarrow> status u \<noteq> Running \<Longrightarrow> D t"
  shows "row_ok D t v"
proof -
  have "terminal (status t) \<longrightarrow> status v = status t \<and> outputs_ref_json v = outputs_ref_json t"
    using t u by (simp add: row_ok_def)
  moreover have "status v = Running \<longrightarrow>
      (status t = Running \<or> D t) \<and> ((status t = Running \<longrightarrow> leased t) \<longrightarrow> leased v)"
  proof
    assume "status v = Running"
    with u have v: "status u = Running \<or> D' u" "(status u = Running \<longrightarrow> leased u) \<longrightarrow> leased v"
      by (simp_all add: row_ok_def)
    show "(status t = Running \<or> D t) \<and> ((status t = Running \<longrightarrow> leased t) \<longrightarrow> leased v)"
    proof (cases "status u = Running")
      case True
      with t v(2) show ?thesis by (simp add: row_ok_def)
    next
      case False
      with v D show ?thesis by simp
    qed
  qed
  moreover have "status v = Succeeded \<longrightarrow> status t = Succeeded \<or> outputs_ref_json v \<noteq> None"
  proof
    assume v: "status v = Succeeded"
    show "status t = Succeeded \<or> outputs_ref_json v \<noteq> None"
    proof (cases "status u = Succeeded")
      case True
      then have "outputs_ref_json v = outputs_ref_json u"
        using u by (simp add: row_ok_def terminal_def)
      with t True show ?thesis by (simp add: row_ok_def)
    next
      case False
      with u v show ?thesis by (simp add: row_ok_def)
    qed
  qed
  ultimately show ?thesis
    using t u by (simp add: row_ok_def)
qed

lemma rows_ok_map:
  "(\<And>t. t \<in> set ts \<Longrightarrow> row_ok D t (f t)) \<Longrightarrow> rows_ok D ts (map f ts)"
  by (auto simp: list.rel_map intro!: list.rel_refl_strong)

lemma rows_ok_trans:
  assumes "rows_ok D ts us" and "rows_ok D us vs" and "\<And>t u. deps_of u = deps_of t \<Longrightarrow> D u = D t"
  shows "rows_ok D ts vs"
proof -
  have "row_ok D t v" if "row_ok D t u" "row_ok D u v" for t u v
    using that by (rule row_ok_trans) (use that assms(3) [of u t] in \<open>simp add: row_ok_def\<close>)
  then show ?thesis
    using assms(1,2) by (rule list_all2_trans)
qed

lemma rows_ok_weaken: "rows_ok D ts us \<Longrightarrow> (\<And>t. D t \<Longrightarrow> D' t) \<Longrightarrow> rows_ok D' ts us"
  by (erule list_all2_mono) (auto simp: row_ok_def)

lemma doomed_row_ok: "doomed_row t t' \<Longrightarrow> row_ok D t t'"
  by (auto simp: doomed_row_def row_ok_def terminal_def)

lemma doomed_rows_ok: "list_all2 doomed_row ts ts' \<Longrightarrow> rows_ok D ts ts'"
  by (erule list_all2_mono) (rule doomed_row_ok)

text \<open>Changes that never start a task are \<open>row_ok\<close> for every \<open>D\<close>.\<close>

abbreviation never :: "task_row \<Rightarrow> bool" where
  "never t \<equiv> False"

lemma row_ok_then: "row_ok D t u \<Longrightarrow> row_ok never u v \<Longrightarrow> row_ok D t v"
  using row_ok_trans [of D t u "\<lambda>_. False" v] by simp

lemma rows_ok_then: "rows_ok D ts us \<Longrightarrow> rows_ok never us vs \<Longrightarrow> rows_ok D ts vs"
  by (rule list_all2_trans [OF row_ok_then])

lemma row_ok_weaken: "row_ok D t u \<Longrightarrow> (D t \<Longrightarrow> D' t) \<Longrightarrow> row_ok D' t u"
  by (auto simp: row_ok_def)

lemma rows_ok_ids:
  "rows_ok D ts ts' \<Longrightarrow> map task_id ts' = map task_id ts \<and> map task_job_id ts' = map task_job_id ts"
  by (induction rule: list_all2_induct) (auto simp: row_ok_def)

lemma row_ok_id: "row_ok D t t' \<Longrightarrow> task_id t' = task_id t"
  by (simp add: row_ok_def)

lemma rows_ok_find:
  "rows_ok D ts ts' \<Longrightarrow> find_task ts i = Some t \<Longrightarrow>
   \<exists>t'. find_task ts' i = Some t' \<and> row_ok D t t'"
  by (induction rule: list_all2_induct) (auto simp: find_task_def row_ok_id)

lemma doomed_rows_find:
  "list_all2 doomed_row ts ts' \<Longrightarrow> find_task ts i = Some t \<Longrightarrow> status t \<noteq> Pending \<Longrightarrow>
   find_task ts' i = Some t"
  by (induction rule: list_all2_induct) (auto simp: find_task_def doomed_row_def split: if_splits)

lemma rows_ok_modify:
  assumes "find_task ts tid = Some t" and "distinct (map task_id ts)" and "row_ok D t u"
  shows "rows_ok D ts (modify_task tid (\<lambda>_. u) ts)"
  unfolding modify_task_def
proof (rule rows_ok_map)
  fix v assume "v \<in> set ts"
  then show "row_ok D v (if task_id v = tid then u else v)"
    using assms find_task_unique [OF assms(2)] by auto
qed

section \<open>The sweeps\<close>

lemma mark_rows:
  assumes "mark_dependency_failures_and_ready now jid d = (d', ready)"
    and dist: "distinct (map task_id (tasks d))"
  shows "list_all2 doomed_row (tasks d) (tasks d')" and "jobs d' = jobs d"
    and "resources d' = resources d"
proof -
  obtain rows' m ch where
    loop: "mark_loop now (job_tasks (tasks d) jid) (statuses_of (job_tasks (tasks d) jid)) [] =
      (rows', m, ch)"
    by (cases "mark_loop now (job_tasks (tasks d) jid) (statuses_of (job_tasks (tasks d) jid)) []")
      auto
  then have d': "d' = d\<lparr>tasks := write_back rows' (tasks d)\<rparr>"
    using assms(1) by (simp add: mark_dependency_failures_and_ready_def)
  have dist': "distinct (map task_id (job_tasks (tasks d) jid))"
    using dist by (simp add: job_tasks_def)
  then have "agrees (job_tasks (tasks d) jid) (statuses_of (job_tasks (tasks d) jid))"
    by (simp add: agrees_def statuses_of_mem)
  from dispatcher_sweep.loop_rows [OF loop dist' this]
  show "list_all2 doomed_row (tasks d) (tasks d')"
    unfolding d' job_tasks_def by (simp add: write_back_rows dist)
  show "jobs d' = jobs d" "resources d' = resources d" by (simp_all add: d')
qed

lemma advance_rows:
  assumes "advance_job_after_terminal now jid d = (d', ready)"
    and "distinct (map task_id (tasks d))"
  shows "list_all2 doomed_row (tasks d) (tasks d')"
proof -
  obtain d1 where "mark_dependency_failures_and_ready now jid d = (d1, ready)"
      "d' = finalize_job_if_ready now jid d1"
    using assms(1) by (auto simp: advance_job_after_terminal_def split: prod.splits)
  with mark_rows(1) [OF _ assms(2)] show ?thesis by simp
qed

lemma post_terminal_rows:
  "post_terminal now jid d = (d', ready) \<Longrightarrow> distinct (map task_id (tasks d)) \<Longrightarrow>
   list_all2 doomed_row (tasks d) (tasks d')"
  unfolding post_terminal_def by (drule advance_rows) simp_all

lemma propagate_rows:
  assumes "propagate_terminal_dependencies now d = (d', ids)"
    and dist: "distinct (map task_id (tasks d))"
  shows "list_all2 doomed_row (tasks d) (tasks d')"
proof -
  obtain pending m0 where load: "load_pending_tasks_with_dep_statuses (tasks d) = (pending, m0)"
    by (cases "load_pending_tasks_with_dep_statuses (tasks d)") auto
  obtain objs m ch where loop: "propagate_loop now pending m0 [] = (objs, m, ch)"
    by (cases "propagate_loop now pending m0 []") auto
  note loaded = load_pending [OF load dist]
  have "tasks d' = tasks d \<or> tasks d' = write_back objs (tasks d)"
    using assms(1) load loop
    by (auto simp: propagate_terminal_dependencies_def Let_def split: if_splits)
  moreover have "list_all2 doomed_row pending objs"
    using janitor_sweep.loop_rows [OF loop _ loaded(2)] dist by (simp add: loaded(1))
  then have "list_all2 doomed_row (tasks d) (write_back objs (tasks d))"
    unfolding loaded(1) by (rule write_back_rows) (rule dist)
  ultimately show ?thesis
    by (auto simp: doomed_row_def intro!: list.rel_refl_strong)
qed

lemma reclaim_rows:
  "reclaim_expired_leases now d = (d', ids) \<Longrightarrow> rows_ok never (tasks d) (tasks d') \<and>
   jobs d' = jobs d"
  by (auto simp: reclaim_expired_leases_def Let_def lease_expired_def row_ok_def terminal_def
      deps_of_def split: if_splits intro!: rows_ok_map)

section \<open>The transactions of the dispatcher\<close>

abbreviation deps_ready_in :: "task_row list \<Rightarrow> task_row \<Rightarrow> bool" where
  "deps_ready_in ts t \<equiv> task_dependency_state ts t = Dep_Ready"

lemma heartbeat_rows:
  "heartbeat env w now tid d = (d', b) \<Longrightarrow> rows_ok never (tasks d) (tasks d') \<and> jobs d' = jobs d"
  by (auto simp: heartbeat_def refresh_lease_def Let_def row_ok_def deps_of_def leased_def
      intro!: rows_ok_map)

lemma finalize_task_rows:
  assumes "find_task (tasks d) tid = Some t" and "distinct (map task_id (tasks d))"
    and "status t = Pending \<or> status t = Running" and "st \<in> {Failed, Cancelled, Cancelled_Dirty}"
  shows "rows_ok never (tasks d) (tasks (finalize_task env now t st ec em d))"
    and "jobs (finalize_task env now t st ec em d) = jobs d"
proof -
  have "row_ok never t (finalize_row now st ec em t)"
    using assms(3,4) by (auto simp: row_ok_def finalize_row_def terminal_def deps_of_def)
  from rows_ok_modify [OF assms(1,2) this] find_task_Some [OF assms(1)]
  show "rows_ok never (tasks d) (tasks (finalize_task env now t st ec em d))"
    by (simp add: finalize_task_def Let_def)
  show "jobs (finalize_task env now t st ec em d) = jobs d"
    by (simp add: finalize_task_def Let_def)
qed

lemma task_dependency_state_deps:
  "deps_of u = deps_of t \<Longrightarrow> task_dependency_state ts u = task_dependency_state ts t"
  by (simp add: task_dependency_state_def)

lemma acquire_rows_ok:
  "try_acquire_lease n n' pk w ttl (\<lambda>u. status u = Pending) ts = (ts', b) \<Longrightarrow>
   rows_ok never ts ts'"
  by (auto simp: try_acquire_lease_def acquire_matches_def Let_def row_ok_def terminal_def deps_of_def
      intro!: rows_ok_map)

lemma start_rows:
  assumes "start_task env now u d = (d', ready, r)" and "find_task (tasks d) (task_id u) = Some u"
    and "distinct (map task_id (tasks d))" and "status u = Pending" and "leased u" and "D u"
  shows "rows_ok D (tasks d) (tasks d')" and "jobs d' = jobs d"
proof -
  have "row_ok D u (u\<lparr>status := Running, started_at := Some now\<rparr>)"
    using assms(4-6) by (simp add: row_ok_def terminal_def deps_of_def leased_def)
  from rows_ok_modify [OF assms(2,3) this] assms(1)
  show "rows_ok D (tasks d) (tasks d')" and "jobs d' = jobs d"
    by (auto simp: start_task_def Let_def)
qed

text \<open>The four ways a pickup can go once the task was found pending.\<close>

lemma pickup_cases:
  assumes "pickup_task env w now tid d = (d', ready, r)" and dist: "distinct (map task_id (tasks d))"
  obtains (unchanged) "d' = d" "ready = []" "\<And>t. r \<noteq> Run t"
  | (doomed) t t' where "find_task (tasks d) tid = Some t" "status t = Pending"
      "doom_row now ''upstream dependency failed'' (task_dependency_state (tasks d) t) t = Some t'"
      "advance_job_after_terminal now (task_job_id t)
         (d\<lparr>tasks := modify_task tid (\<lambda>_. t') (tasks d)\<rparr>) = (d', ready)" "\<And>t. r \<noteq> Run t"
  | (cancelled) t u ts j where "find_task (tasks d) tid = Some t" "status t = Pending"
      "task_dependency_state (tasks d) t = Dep_Ready" "lease_free now t"
      "try_acquire_lease now now tid w (lease_ttl_seconds env) (\<lambda>u. status u = Pending) (tasks d)
         = (ts, True)"
      "find_task ts tid = Some u"
      "u = t\<lparr>lease_expires_at := Some (now + lease_ttl_seconds env), worker_id := Some w\<rparr>"
      "find_job (jobs d) (task_job_id t) = Some j" "cancel_requested j"
      "post_terminal now (task_job_id u) (finalize_task env now u
          (if cancel_force j then Cancelled_Dirty else Cancelled) None None (d\<lparr>tasks := ts\<rparr>))
        = (d', ready)" "r = Done (R_status Cancelled)"
  | (started) t u ts where "find_task (tasks d) tid = Some t" "status t = Pending"
      "task_dependency_state (tasks d) t = Dep_Ready" "lease_free now t"
      "try_acquire_lease now now tid w (lease_ttl_seconds env) (\<lambda>u. status u = Pending) (tasks d)
         = (ts, True)"
      "find_task ts tid = Some u"
      "u = t\<lparr>lease_expires_at := Some (now + lease_ttl_seconds env), worker_id := Some w\<rparr>"
      "\<And>j. find_job (jobs d) (task_job_id t) = Some j \<Longrightarrow> \<not> cancel_requested j"
      "start_task env now u (d\<lparr>tasks := ts\<rparr>) = (d', ready, r)"
proof (cases "find_task (tasks d) tid")
  case None
  with assms(1) show thesis by (intro unchanged) (auto simp: pickup_task_def)
next
  case (Some t)
  note t = Some
  show thesis
  proof (cases "status t = Pending \<and> task_dependency_state (tasks d) t \<noteq> Dep_Blocked")
    case False
    with assms(1) t show thesis by (intro unchanged) (auto simp: pickup_task_def split: if_splits)
  next
    case pend: True
    show thesis
    proof (cases "doom_row now ''upstream dependency failed'' (task_dependency_state (tasks d) t) t")
      case (Some t')
      with assms(1) t pend show thesis
        by (intro doomed) (auto simp: pickup_task_def Let_def split: prod.splits)
    next
      case None
      with pend have ready: "task_dependency_state (tasks d) t = Dep_Ready"
        by (cases "task_dependency_state (tasks d) t") (auto simp: doom_row_def)
      obtain ts acq where acq: "try_acquire_lease now now tid w (lease_ttl_seconds env)
          (\<lambda>u. status u = Pending) (tasks d) = (ts, acq)"
        by (cases "try_acquire_lease now now tid w (lease_ttl_seconds env)
          (\<lambda>u. status u = Pending) (tasks d)") auto
      show thesis
      proof (cases acq)
        case False
        with acq acq_fails [OF _ dist] have "ts = tasks d" by simp
        with assms(1) t pend None acq False show thesis
          by (intro unchanged) (auto simp: pickup_task_def Let_def)
      next
        case True
        with acq have acq': "try_acquire_lease now now tid w (lease_ttl_seconds env)
          (\<lambda>u. status u = Pending) (tasks d) = (ts, True)" by simp
        from acquire_found [OF dist acq'] t obtain u where u: "find_task ts tid = Some u" "lease_free now t"
          "u = t\<lparr>lease_expires_at := Some (now + lease_ttl_seconds env), worker_id := Some w\<rparr>"
          by auto
        show thesis
        proof (cases "\<exists>j. find_job (jobs d) (task_job_id t) = Some j \<and> cancel_requested j")
          case True
          then obtain j where "find_job (jobs d) (task_job_id t) = Some j" "cancel_requested j"
            by blast
          with assms(1) t pend None acq \<open>acq\<close> u ready acq' show thesis
            by (intro cancelled [of t ts u j]) (auto simp: pickup_task_def Let_def split: prod.splits)
        next
          case False
          with assms(1) t pend None acq \<open>acq\<close> u ready acq' show thesis
            by (intro started [of t ts u]) (auto simp: pickup_task_def Let_def split: option.splits)
        qed
      qed
    qed
  qed
qed

lemma pickup_rows:
  assumes "pickup_task env w now tid d = (d', ready, r)" and dist: "distinct (map task_id (tasks d))"
  shows "rows_ok (deps_ready_in (tasks d)) (tasks d) (tasks d')"
  using assms
proof (cases rule: pickup_cases)
  case unchanged
  then show ?thesis by simp
next
  case (doomed t t')
  let ?ts = "modify_task tid (\<lambda>_. t') (tasks d)"
  have "doomed_row t t'"
    using doom_row_Some [OF doomed(3)] doom_status_bad doomed(2) unfolding doomed_row_def by blast
  then have ok: "rows_ok (deps_ready_in (tasks d)) (tasks d) ?ts"
    by (intro rows_ok_modify [OF doomed(1) dist] doomed_row_ok)
  have "distinct (map task_id ?ts)" using rows_ok_ids [OF ok] dist by simp
  with advance_rows [OF doomed(4)] have "list_all2 doomed_row ?ts (tasks d')" by simp
  with ok show ?thesis by (intro rows_ok_then [OF ok] doomed_rows_ok)
next
  case (cancelled t u ts j)
  note acq = acquire_rows_ok [OF cancelled(5)]
  have dist': "distinct (map task_id ts)" using rows_ok_ids [OF acq] dist by simp
  let ?d = "finalize_task env now u (if cancel_force j then Cancelled_Dirty else Cancelled) None None
      (d\<lparr>tasks := ts\<rparr>)"
  have fin: "rows_ok never ts (tasks ?d)"
    using finalize_task_rows(1) [of "d\<lparr>tasks := ts\<rparr>" tid u] cancelled(2,6,7) dist' by simp
  then have "distinct (map task_id (tasks ?d))" using rows_ok_ids dist' by metis
  with post_terminal_rows [OF cancelled(10)] have "rows_ok never (tasks ?d) (tasks d')"
    by (intro doomed_rows_ok)
  from rows_ok_then [OF rows_ok_then [OF acq fin] this] show ?thesis
    by (rule rows_ok_weaken) simp
next
  case (started t u ts)
  note acq = acquire_rows_ok [OF started(5)]
  have dist': "distinct (map task_id ts)" using rows_ok_ids [OF acq] dist by simp
  have "deps_ready_in (tasks d) u"
    using started(3,7) task_dependency_state_deps [of u t] by (simp add: deps_of_def)
  moreover have found: "find_task ts (task_id u) = Some u"
    using started(6) find_task_Some [OF started(6)] by metis
  moreover have pend: "status u = Pending" "leased u"
    using started(2) unfolding started(7) leased_def by simp_all
  ultimately have run: "rows_ok (deps_ready_in (tasks d)) ts (tasks d')"
    using start_rows(1) [OF started(9), of "deps_ready_in (tasks d)"] found dist' pend by simp
  from acq have before: "rows_ok (deps_ready_in (tasks d)) (tasks d) ts"
    by (rule rows_ok_weaken) simp
  show ?thesis
    by (rule rows_ok_trans [OF before run]) (simp add: task_dependency_state_def)
qed

text \<open>The transactions that commit a result do nothing unless the worker owns the task.\<close>

lemma fail_owned_cases:
  assumes "fail_owned_task env w now tid ec em result d = (d', ready, r)"
  obtains (unchanged) "d' = d" "r = R_missing \<or> r = R_lost_lease"
  | (failed) t where "find_task (tasks d) tid = Some t" "owns_live_running_lease w now t"
      "post_terminal now (task_job_id t) (finalize_task env now t Failed (Some ec) (Some em) d)
        = (d', ready)" "r = result"
  using assms
  by (auto simp: fail_owned_task_def Let_def split: option.splits if_splits prod.splits)

lemma commit_cases:
  assumes "commit_success env w now tid outputs d = Inr (d', ready, r)"
  obtains (unchanged) "d' = d" "r = R_missing \<or> r = R_lost_lease"
  | (cancelled) t j where "find_task (tasks d) tid = Some t" "owns_live_running_lease w now t"
      "find_job (jobs d) (task_job_id t) = Some j" "cancel_requested j"
      "post_terminal now (task_job_id t) (finalize_task env now t Cancelled_Dirty (Some ''Cancelled'')
         (Some ''job cancellation requested before task commit'') d) = (d', ready)"
      "r = R_status Cancelled_Dirty"
  | (succeeded) t t' outs res where "find_task (tasks d) tid = Some t" "owns_live_running_lease w now t"
      "\<And>j. find_job (jobs d) (task_job_id t) = Some j \<Longrightarrow> \<not> cancel_requested j"
      "t' = t\<lparr>status := Succeeded, outputs_ref_json := Some outs, finished_at := Some now\<rparr>"
      "post_terminal now (task_job_id t)
         (d\<lparr>tasks := modify_task tid (\<lambda>_. t') (tasks d), resources := res\<rparr>) = (d', ready)"
      "r = R_succeeded outs"
proof (cases "find_task (tasks d) tid")
  case None
  with assms show thesis by (intro unchanged) (auto simp: commit_success_def)
next
  case (Some t)
  note t = Some
  show thesis
  proof (cases "owns_live_running_lease w now t")
    case False
    with assms t show thesis by (intro unchanged) (auto simp: commit_success_def)
  next
    case own: True
    show thesis
    proof (cases "\<exists>j. find_job (jobs d) (task_job_id t) = Some j \<and> cancel_requested j")
      case True
      then obtain j where "find_job (jobs d) (task_job_id t) = Some j" "cancel_requested j" by blast
      with assms t own show thesis
        by (intro cancelled [of t j]) (auto simp: commit_success_def Let_def split: prod.splits)
    next
      case False
      with assms t own show thesis
        by (auto simp: commit_success_def Let_def andthen_Inr case_prod_unfold prod_eq_iff
            intro!: succeeded [OF _ _ _ refl] split: option.splits)
    qed
  qed
qed

lemma owned_running: "owns_live_running_lease w now t \<Longrightarrow> status t = Running"
  by (simp add: owns_live_running_lease_def)

lemma fail_owned_rows:
  assumes "fail_owned_task env w now tid ec em result d = (d', ready, r)"
    and dist: "distinct (map task_id (tasks d))"
  shows "rows_ok never (tasks d) (tasks d')"
  using assms(1)
proof (cases rule: fail_owned_cases)
  case unchanged
  then show ?thesis by simp
next
  case (failed t)
  let ?d = "finalize_task env now t Failed (Some ec) (Some em) d"
  have fin: "rows_ok never (tasks d) (tasks ?d)"
    using finalize_task_rows(1) [OF failed(1) dist] owned_running [OF failed(2)] by simp
  then have "distinct (map task_id (tasks ?d))" using rows_ok_ids dist by metis
  with post_terminal_rows [OF failed(3)] show ?thesis
    by (intro rows_ok_then [OF fin] doomed_rows_ok)
qed

lemma commit_rows:
  assumes "commit_success env w now tid outputs d = Inr (d', ready, r)"
    and dist: "distinct (map task_id (tasks d))"
  shows "rows_ok never (tasks d) (tasks d')"
  using assms(1)
proof (cases rule: commit_cases)
  case unchanged
  then show ?thesis by simp
next
  case (cancelled t j)
  let ?d = "finalize_task env now t Cancelled_Dirty (Some ''Cancelled'')
         (Some ''job cancellation requested before task commit'') d"
  have fin: "rows_ok never (tasks d) (tasks ?d)"
    using finalize_task_rows(1) [OF cancelled(1) dist] owned_running [OF cancelled(2)] by simp
  then have "distinct (map task_id (tasks ?d))" using rows_ok_ids dist by metis
  with post_terminal_rows [OF cancelled(5)] show ?thesis
    by (intro rows_ok_then [OF fin] doomed_rows_ok)
next
  case (succeeded t t' outs res)
  have "row_ok never t t'"
    using owned_running [OF succeeded(2)]
    by (simp add: row_ok_def succeeded(4) terminal_def deps_of_def)
  from rows_ok_modify [OF succeeded(1) dist this]
  have fin: "rows_ok never (tasks d) (modify_task tid (\<lambda>_. t') (tasks d))" .
  then have "distinct (map task_id (modify_task tid (\<lambda>_. t') (tasks d)))"
    using rows_ok_ids dist by metis
  with post_terminal_rows [OF succeeded(5)] show ?thesis
    by (intro rows_ok_then [OF fin] doomed_rows_ok) simp
qed

lemma finish_cases:
  assumes "finish_task env w now picked d = (d', ready, r)"
  obtains (failed) ec em result where
      "fail_owned_task env w now (task_id picked) ec em result d = (d', ready, r)"
      "\<And>v. result \<noteq> R_succeeded v"
  | (committed) outputs where
      "commit_success env w now (task_id picked) outputs d = Inr (d', ready, r)"
proof (cases "handlers env (kind picked)")
  case None
  with assms show thesis by (intro failed) (auto simp: finish_task_def)
next
  case (Some h)
  have exc: thesis if "handle_exception env w now (task_id picked) e d = (d', ready, r)" for e
    using that by (auto simp: handle_exception_def Let_def split: if_splits intro: failed)
  let ?run = "case h picked of Raised e \<Rightarrow> Inl e
      | Returned raw \<Rightarrow> andthen (normalize_task_outputs env picked raw)
          (\<lambda>outputs. commit_success env w now (task_id picked) outputs d)"
  show thesis
  proof (cases ?run)
    case (Inl e)
    with assms Some show thesis by (intro exc) (simp add: finish_task_def)
  next
    case (Inr x)
    with assms Some have "?run = Inr (d', ready, r)" by (simp add: finish_task_def)
    then show thesis
      by (auto simp: andthen_Inr split: handler_outcome.splits intro: committed)
  qed
qed

lemma finish_rows:
  assumes "finish_task env w now picked d = (d', ready, r)"
    and "distinct (map task_id (tasks d))"
  shows "rows_ok never (tasks d) (tasks d')"
  using assms(1)
  by (cases rule: finish_cases) (auto intro: fail_owned_rows commit_rows assms(2))

end
