(* ===== verification/Engine.thy ===== *)
theory Engine
  imports Row_Changes
begin

text \<open>
  The task engine as a transition system. A state is the database and the clock; a step is
  one transaction of the scheduler, of a worker, of the janitor or of the API, in any
  order. A worker ends a task in three transactions (the row, the rollup of its job, the
  marking of its dependents); they occur as three steps with anything between them or, where
  the worker crashes, without the later ones, and also as one step without interference.
  Deliveries are unconstrained: a worker may pick up any task id at any time, any
  number of times, and may try to commit a result for a row it picked up long ago. The
  invariants therefore hold for every queue backend and every interleaving of workers.
\<close>

section \<open>Steps\<close>

text \<open>New ids are random 128-bit values; a step that draws a used one is left out.\<close>

definition fresh_ids :: "'r db \<Rightarrow> string \<Rightarrow> string list \<Rightarrow> bool" where
  "fresh_ids d new_job ids \<longleftrightarrow>
     new_job \<notin> job_id ` set (jobs d) \<and> new_job \<notin> task_job_id ` set (tasks d) \<and>
     distinct ids \<and> set ids \<inter> task_id ` set (tasks d) = {} \<and>
     (\<forall>t \<in> set (tasks d). set ids \<inter> set (deps_of t) = {})"

text \<open>
  The state at the first commit of a worker that is done with task \<open>tid\<close>: \<open>d\<close> is the database
  before and \<open>d'\<close> the one after all its transactions; the row and the resources are committed,
  the job is not rolled up and no other task is marked yet.
\<close>

definition at_commit :: "string \<Rightarrow> 'r db \<Rightarrow> 'r db \<Rightarrow> 'r db" where
  "at_commit tid d d' = d\<lparr>tasks := (case find_task (tasks d') tid of None \<Rightarrow> tasks d
      | Some t \<Rightarrow> modify_task tid (\<lambda>_. t) (tasks d)), resources := resources d'\<rparr>"

inductive engine_step :: "'r env \<Rightarrow> 'r db \<times> time \<Rightarrow> 'r db \<times> time \<Rightarrow> bool" for env where
  tick: "now \<le> now' \<Longrightarrow> engine_step env (d, now) (d, now')"
| submit: "submit_job_dag env now new_job new_ids rv tenant project rcp spec nodes d
      = Inr (d', jid, rows, ready) \<Longrightarrow>
    fresh_ids d new_job (map node_id (fill_ids new_ids nodes)) \<Longrightarrow>
    engine_step env (d, now) (d', now)"
| cancel: "cancel_job tenant jid force d = Inr d' \<Longrightarrow> engine_step env (d, now) (d', now)"
| pickup: "pickup_task env w now tid d = (d', ready, r) \<Longrightarrow> engine_step env (d, now) (d', now)"
| finish: "finish_task env w now picked d = (d', ready, r) \<Longrightarrow> engine_step env (d, now) (d', now)"
| pickup_commit: "pickup_task env w now tid d = (d', ready, r) \<Longrightarrow>
    engine_step env (d, now) (at_commit tid d d', now)"
| finish_commit: "finish_task env w now picked d = (d', ready, r) \<Longrightarrow>
    engine_step env (d, now) (at_commit (task_id picked) d d', now)"
| rollup: "engine_step env (d, now) (maybe_finalize_job now jid d, now)"
| advance: "advance_job_after_terminal now jid d = (d', ready) \<Longrightarrow> engine_step env (d, now) (d', now)"
| beat: "heartbeat env w now tid d = (d', refreshed) \<Longrightarrow> engine_step env (d, now) (d', now)"
| reclaim: "reclaim_expired_leases now d = (d', ids) \<Longrightarrow> engine_step env (d, now) (d', now)"
| propagate: "propagate_terminal_dependencies now d = (d', ids) \<Longrightarrow>
    engine_step env (d, now) (d', now)"
| resume: "resume_job tenant jid d = Inr (d', j, ready) \<Longrightarrow> engine_step env (d, now) (d', now)"
| gc: "gc_expired_job_records env now d = (d', n) \<Longrightarrow> engine_step env (d, now) (d', now)"

inductive_cases engine_stepE: "engine_step env s s'"

text \<open>The states of a deployment that started with empty task and job tables.\<close>

inductive reachable :: "'r env \<Rightarrow> 'r db \<times> time \<Rightarrow> bool" for env where
  start: "tasks d = [] \<Longrightarrow> jobs d = [] \<Longrightarrow> reachable env (d, now)"
| step: "reachable env s \<Longrightarrow> engine_step env s s' \<Longrightarrow> reachable env s'"

section \<open>The invariant\<close>

definition jobs_rolled :: "'r db \<Rightarrow> bool" where
  "jobs_rolled d \<longleftrightarrow>
     (\<forall>j \<in> set (jobs d). job_status j = Pending \<or>
        rolled_up (job_tasks (tasks d) (job_id j)) = Some (job_status j))"

definition running_leased :: "'r db \<Rightarrow> bool" where
  "running_leased d \<longleftrightarrow> (\<forall>t \<in> set (tasks d). status t = Running \<longrightarrow> leased t)"

definition running_ready :: "'r db \<Rightarrow> bool" where
  "running_ready d \<longleftrightarrow>
     (\<forall>t \<in> set (tasks d). status t = Running \<longrightarrow>
        (\<forall>u \<in> set (tasks d). task_id u \<in> set (deps_of t) \<longrightarrow>
           status u \<in> READY_DEPENDENCY_STATUSES))"

definition succeeded_outputs :: "'r db \<Rightarrow> bool" where
  "succeeded_outputs d \<longleftrightarrow>
     (\<forall>t \<in> set (tasks d). status t = Succeeded \<longrightarrow> outputs_ref_json t \<noteq> None)"

definition engine_inv :: "'r db \<Rightarrow> bool" where
  "engine_inv d \<longleftrightarrow> keys_unique d \<and> jobs_rolled d \<and> running_leased d \<and> running_ready d \<and>
     succeeded_outputs d"

lemmas engine_inv_defs =
  keys_unique_def running_leased_def running_ready_def succeeded_outputs_def

text \<open>
  The part about the tasks is kept by every change of rows that starts only tasks whose
  dependencies are ready.
\<close>

definition tasks_inv :: "task_row list \<Rightarrow> bool" where
  "tasks_inv ts \<longleftrightarrow> distinct (map task_id ts) \<and>
     (\<forall>t \<in> set ts. status t = Running \<longrightarrow> leased t \<and>
        (\<forall>u \<in> set ts. task_id u \<in> set (deps_of t) \<longrightarrow> status u \<in> READY_DEPENDENCY_STATUSES)) \<and>
     (\<forall>t \<in> set ts. status t = Succeeded \<longrightarrow> outputs_ref_json t \<noteq> None)"

lemma engine_inv_split:
  "engine_inv d \<longleftrightarrow> tasks_inv (tasks d) \<and> distinct (map job_id (jobs d)) \<and> jobs_rolled d"
  by (auto simp: engine_inv_def engine_inv_defs tasks_inv_def)

lemma rows_ok_mem:
  "rows_ok D ts ts' \<Longrightarrow> t' \<in> set ts' \<Longrightarrow> \<exists>t \<in> set ts. row_ok D t t'"
  by (induction rule: list_all2_induct) auto

lemma deps_ready_members:
  assumes "task_dependency_state ts t = Dep_Ready" and "distinct (map task_id ts)"
    and "u \<in> set ts" and "task_id u \<in> set (deps_of t)"
  shows "status u \<in> READY_DEPENDENCY_STATUSES"
proof -
  let ?m = "statuses_of (filter (\<lambda>u. task_id u \<in> set (deps_of t)) ts)"
  have "dependencies_ready (deps_of t) ?m"
    using assms(1,4) by (auto simp: task_dependency_state_def Let_def ready_iff_state split: if_splits)
  from readiness.ready_upstream [OF this assms(4)] have "?m (task_id u) = Some Succeeded \<or>
      ?m (task_id u) = Some Skipped" .
  moreover have "?m (task_id u) = Some (status u)"
    using assms(2-4) by (intro statuses_of_mem) auto
  ultimately show ?thesis by (auto simp: dependency_vocabulary)
qed

lemma ready_terminal: "s \<in> READY_DEPENDENCY_STATUSES \<Longrightarrow> terminal s"
  by (auto simp: dependency_vocabulary terminal_def)

lemma tasks_inv_rows:
  assumes inv: "tasks_inv ts" and ok: "rows_ok D ts ts'"
    and D: "\<And>t u. t \<in> set ts \<Longrightarrow> D t \<Longrightarrow> u \<in> set ts \<Longrightarrow> task_id u \<in> set (deps_of t) \<Longrightarrow>
      status u \<in> READY_DEPENDENCY_STATUSES"
  shows "tasks_inv ts'"
proof -
  have run: "leased t' \<and> (\<forall>u' \<in> set ts'. task_id u' \<in> set (deps_of t') \<longrightarrow>
      status u' \<in> READY_DEPENDENCY_STATUSES)"
    if t': "t' \<in> set ts'" "status t' = Running" for t'
  proof -
    from rows_ok_mem [OF ok t'(1)] obtain t where t: "t \<in> set ts" "row_ok D t t'" by blast
    have good: "status u \<in> READY_DEPENDENCY_STATUSES"
      if "u \<in> set ts" "task_id u \<in> set (deps_of t)" for u
    proof (cases "status t = Running")
      case True
      with inv t(1) that show ?thesis by (simp add: tasks_inv_def)
    next
      case False
      with t t'(2) D [OF t(1) _ that] show ?thesis by (simp add: row_ok_def)
    qed
    have "status u' \<in> READY_DEPENDENCY_STATUSES"
      if u': "u' \<in> set ts'" "task_id u' \<in> set (deps_of t')" for u'
    proof -
      from rows_ok_mem [OF ok u'(1)] obtain u where u: "u \<in> set ts" "row_ok D u u'" by blast
      have "status u \<in> READY_DEPENDENCY_STATUSES"
        using good [OF u(1)] u(2) u'(2) t(2) by (simp add: row_ok_def)
      moreover from ready_terminal [OF this] u(2) have "status u' = status u"
        by (simp add: row_ok_def)
      ultimately show ?thesis by simp
    qed
    moreover have "leased t'"
      using t t'(2) inv by (simp add: row_ok_def tasks_inv_def)
    ultimately show ?thesis by blast
  qed
  have out: "outputs_ref_json t' \<noteq> None" if t': "t' \<in> set ts'" "status t' = Succeeded" for t'
  proof -
    from rows_ok_mem [OF ok t'(1)] obtain t where t: "t \<in> set ts" "row_ok D t t'" by blast
    with t'(2) inv show ?thesis by (auto simp: row_ok_def tasks_inv_def terminal_def)
  qed
  from rows_ok_ids [OF ok] inv run out show ?thesis by (simp add: tasks_inv_def)
qed

text \<open>A rolled-up job stays so: its tasks are terminal, and terminal rows keep their status.\<close>

lemma rolled_up_statuses: "map status rows = map status rows' \<Longrightarrow> rolled_up rows = rolled_up rows'"
  by (cases rows; cases rows') (simp_all add: rolled_up_def Let_def)

lemma rows_ok_job_tasks:
  "rows_ok D ts ts' \<Longrightarrow> rows_ok D (job_tasks ts jid) (job_tasks ts' jid)"
  by (induction rule: list_all2_induct) (auto simp: job_tasks_def row_ok_def)

lemma rolled_up_kept:
  assumes "rows_ok D ts ts'" and "rolled_up (job_tasks ts jid) = Some s"
  shows "rolled_up (job_tasks ts' jid) = Some s"
proof -
  have over: "\<forall>t \<in> set (job_tasks ts jid). terminal (status t)"
    using rolled_up_Some [OF assms(2)] by (auto simp: terminal_def)
  from rows_ok_job_tasks [OF assms(1), of jid] over
  have "map status (job_tasks ts' jid) = map status (job_tasks ts jid)"
    by (induction rule: list_all2_induct) (auto simp: row_ok_def)
  from rolled_up_statuses [OF this] assms(2) show ?thesis by simp
qed

lemma jobs_rolled_rows:
  "jobs_rolled d \<Longrightarrow> rows_ok D (tasks d) (tasks d') \<Longrightarrow> jobs d' = jobs d \<Longrightarrow> jobs_rolled d'"
  using rolled_up_kept by (fastforce simp: jobs_rolled_def)

context job_rollup
begin

lemma find_job_mem:
  "distinct (map job_id js) \<Longrightarrow> j \<in> set js \<Longrightarrow> find_job js (job_id j) = Some j"
proof (induction js)
  case Nil
  then show ?case by simp
next
  case (Cons i js)
  then show ?case by (auto simp: find_job_def rev_image_eqI)
qed

lemma keeps_rolled:
  assumes "jobs_rolled d" and dist: "distinct (map job_id (jobs d))"
  shows "jobs_rolled (fin now jid d)"
proof -
  have dist': "distinct (map job_id (jobs (fin now jid d)))" using dist by simp
  have "job_status j' = Pending \<or> rolled_up (job_tasks (tasks d) (job_id j')) = Some (job_status j')"
    if j': "j' \<in> set (jobs (fin now jid d))" for j'
  proof -
    have found: "find_job (jobs (fin now jid d)) (job_id j') = Some j'"
      by (rule find_job_mem [OF dist' j'])
    have "job_id j' \<in> set (map job_id (jobs d))"
      using j' by (metis keeps_job_ids image_eqI set_map)
    then obtain j where j: "j \<in> set (jobs d)" "job_id j = job_id j'" by auto
    then have old: "find_job (jobs d) (job_id j') = Some j"
      using find_job_mem [OF dist] by metis
    show ?thesis
    proof (cases "job_id j' = jid \<and> rolled_up (job_tasks (tasks d) jid) \<noteq> None")
      case True
      then obtain s where "rolled_up (job_tasks (tasks d) jid) = Some s" by auto
      with rolls [OF this, of j now] old found True show ?thesis by auto
    next
      case False
      then have "find_job (jobs (fin now jid d)) (job_id j') = find_job (jobs d) (job_id j')"
        using keeps_other_jobs not_ready by metis
      with found old assms(1) j show ?thesis by (auto simp: jobs_rolled_def)
    qed
  qed
  then show ?thesis by (simp add: jobs_rolled_def)
qed

end

section \<open>Every transaction keeps the invariant\<close>

lemma inv_rows:
  assumes "engine_inv d" and "rows_ok never (tasks d) (tasks d')" and "jobs d' = jobs d"
  shows "engine_inv d'"
  using assms tasks_inv_rows [OF _ assms(2)] jobs_rolled_rows [OF _ assms(2,3)]
  by (simp add: engine_inv_split)

lemma inv_finalize [simp]: "engine_inv d \<Longrightarrow> engine_inv (finalize_job_if_ready now jid d)"
  by (simp add: engine_inv_split service_rollup.keeps_rolled)

lemma inv_maybe_finalize [simp]: "engine_inv d \<Longrightarrow> engine_inv (maybe_finalize_job now jid d)"
  by (simp add: engine_inv_split dispatcher_rollup.keeps_rolled)

lemma inv_distinct: "engine_inv d \<Longrightarrow> distinct (map task_id (tasks d))"
  by (simp add: engine_inv_split tasks_inv_def)

lemma inv_doomed:
  "engine_inv d \<Longrightarrow> list_all2 doomed_row (tasks d) (tasks d') \<Longrightarrow> jobs d' = jobs d \<Longrightarrow> engine_inv d'"
  by (rule inv_rows [OF _ doomed_rows_ok])

lemma inv_advance:
  assumes "engine_inv d" and "advance_job_after_terminal now jid d = (d', ready)"
  shows "engine_inv d'"
proof -
  obtain d1 where d1: "mark_dependency_failures_and_ready now jid d = (d1, ready)"
      "d' = finalize_job_if_ready now jid d1"
    using assms(2) by (auto simp: advance_job_after_terminal_def split: prod.splits)
  from inv_doomed [OF assms(1) mark_rows(1,2) [OF d1(1) inv_distinct [OF assms(1)]]] d1(2)
  show ?thesis by simp
qed

lemma inv_post_terminal:
  "engine_inv d \<Longrightarrow> post_terminal now jid d = (d', ready) \<Longrightarrow> engine_inv d'"
  unfolding post_terminal_def by (rule inv_advance [OF inv_maybe_finalize])

lemma inv_finalize_task:
  assumes "engine_inv d" and "find_task (tasks d) tid = Some t"
    and "status t = Pending \<or> status t = Running" and "st \<in> {Failed, Cancelled, Cancelled_Dirty}"
  shows "engine_inv (finalize_task env now t st ec em d)"
  using inv_rows [OF assms(1)] finalize_task_rows [OF assms(2) inv_distinct [OF assms(1)] assms(3,4)]
  by blast

lemma inv_fail_owned:
  assumes "engine_inv d" and "fail_owned_task env w now tid ec em result d = (d', ready, r)"
  shows "engine_inv d'"
  using assms(2)
proof (cases rule: fail_owned_cases)
  case unchanged
  with assms(1) show ?thesis by simp
next
  case (failed t)
  from inv_finalize_task [OF assms(1) failed(1)] owned_running [OF failed(2)]
  show ?thesis by (intro inv_post_terminal [OF _ failed(3)]) simp
qed

lemma inv_commit:
  assumes inv: "engine_inv d" and "commit_success env w now tid outputs d = Inr (d', ready, r)"
  shows "engine_inv d'"
  using assms(2)
proof (cases rule: commit_cases)
  case unchanged
  with inv show ?thesis by simp
next
  case (cancelled t j)
  from inv_finalize_task [OF inv cancelled(1)] owned_running [OF cancelled(2)]
  show ?thesis by (intro inv_post_terminal [OF _ cancelled(5)]) simp
next
  case (succeeded t t' outs res)
  have "row_ok never t t'"
    using owned_running [OF succeeded(2)]
    by (simp add: row_ok_def succeeded(4) terminal_def deps_of_def)
  from rows_ok_modify [OF succeeded(1) inv_distinct [OF inv] this]
  have "engine_inv (d\<lparr>tasks := modify_task tid (\<lambda>_. t') (tasks d), resources := res\<rparr>)"
    by (intro inv_rows [OF inv]) simp_all
  then show ?thesis by (rule inv_post_terminal [OF _ succeeded(5)])
qed

lemma inv_finish:
  assumes "engine_inv d" and "finish_task env w now picked d = (d', ready, r)"
  shows "engine_inv d'"
  using assms(2)
  by (cases rule: finish_cases) (auto intro: inv_fail_owned inv_commit assms(1))

lemma start_keeps_jobs: "start_task env now u d = (d', ready, r) \<Longrightarrow> jobs d' = jobs d"
  by (auto simp: start_task_def Let_def)

lemma inv_pickup:
  assumes inv: "engine_inv d" and run: "pickup_task env w now tid d = (d', ready, r)"
  shows "engine_inv d'"
  using run inv_distinct [OF inv]
proof (cases rule: pickup_cases)
  case unchanged
  with inv show ?thesis by simp
next
  case (doomed t t')
  have "doomed_row t t'"
    using doom_row_Some [OF doomed(3)] doom_status_bad doomed(2) unfolding doomed_row_def by blast
  from rows_ok_modify [OF doomed(1) inv_distinct [OF inv] doomed_row_ok [OF this]]
  have "engine_inv (d\<lparr>tasks := modify_task tid (\<lambda>_. t') (tasks d)\<rparr>)"
    by (intro inv_rows [OF inv]) simp_all
  then show ?thesis by (rule inv_advance [OF _ doomed(4)])
next
  case (cancelled t u ts j)
  have "engine_inv (d\<lparr>tasks := ts\<rparr>)"
    using acquire_rows_ok [OF cancelled(5)] by (intro inv_rows [OF inv]) simp_all
  from inv_finalize_task [OF this, of tid u] cancelled(2,6,7)
  show ?thesis by (intro inv_post_terminal [OF _ cancelled(10)]) simp
next
  case (started t u ts)
  have jobs: "jobs d' = jobs d" using start_keeps_jobs [OF started(9)] by simp
  note rows = pickup_rows [OF run inv_distinct [OF inv]]
  have "tasks_inv (tasks d')"
    using inv by (intro tasks_inv_rows [OF _ rows])
      (auto simp: engine_inv_split intro: deps_ready_members inv_distinct [OF inv])
  moreover have "jobs_rolled d'"
    using inv by (intro jobs_rolled_rows [OF _ rows jobs]) (simp add: engine_inv_split)
  ultimately show ?thesis using inv jobs by (simp add: engine_inv_split)
qed

lemma inv_fold_finalize:
  "engine_inv d \<Longrightarrow> engine_inv (foldl (\<lambda>d jid. finalize_job_if_ready now jid d) d js)"
  by (induction js arbitrary: d) simp_all

lemma inv_propagate:
  assumes inv: "engine_inv d" and run: "propagate_terminal_dependencies now d = (d', ids)"
  shows "engine_inv d'"
proof -
  obtain pending m0 where load: "load_pending_tasks_with_dep_statuses (tasks d) = (pending, m0)"
    by (cases "load_pending_tasks_with_dep_statuses (tasks d)") auto
  obtain objs m ch where loop: "propagate_loop now pending m0 [] = (objs, m, ch)"
    by (cases "propagate_loop now pending m0 []") auto
  show ?thesis
  proof (cases "ch = []")
    case True
    with run load loop inv show ?thesis
      by (simp add: propagate_terminal_dependencies_def)
  next
    case False
    define d1 where "d1 = d\<lparr>tasks := write_back objs (tasks d),
      resources := (resources d)\<lparr>recons := foldl affect_recon (recons (resources d)) ch\<rparr>\<rparr>"
    have d': "d' = foldl (\<lambda>d jid. finalize_job_if_ready now jid d) d1 (dedup (map task_job_id ch))"
      using run load loop False by (simp add: propagate_terminal_dependencies_def d1_def Let_def)
    have "list_all2 doomed_row (tasks d) (tasks d1)"
      using propagate_rows [OF run inv_distinct [OF inv]] by (simp add: d')
    then have "engine_inv d1" by (rule inv_doomed [OF inv]) (simp add: d1_def)
    then show ?thesis unfolding d' by (rule inv_fold_finalize)
  qed
qed

section \<open>Submission, resume, cancellation and retention\<close>

lemma materialize_node_row:
  "materialize_node env tenant jid rv n ts = (t, hit) \<Longrightarrow>
   task_job_id t = jid \<and> (status t = Pending \<and> \<not> hit \<or> status t = Succeeded \<and> hit)"
  by (auto simp: materialize_node_def Let_def blank_task_def split: option.splits if_splits)

lemma materialize_nodes_rows:
  "(t, hit) \<in> set (materialize_nodes env tenant jid rv ns ts) \<Longrightarrow>
   task_job_id t = jid \<and> (status t = Pending \<and> \<not> hit \<or> status t = Succeeded \<and> hit)"
  by (induction ns arbitrary: ts) (auto simp: Let_def dest: materialize_node_row [OF sym])

lemma record_cached_out:
  "record_cached env rows res = Inr (out, res') \<Longrightarrow>
   (\<And>t hit. (t, hit) \<in> set rows \<Longrightarrow> task_job_id t = jid \<and>
     (status t = Pending \<and> \<not> hit \<or> status t = Succeeded \<and> hit)) \<Longrightarrow>
   t \<in> set out \<Longrightarrow> task_job_id t = jid \<and>
     (status t = Pending \<or> status t = Succeeded \<and> outputs_ref_json t \<noteq> None)"
proof (induction rows arbitrary: res out)
  case Nil
  then show ?case by simp
next
  case (Cons row rows)
  obtain u hit where row: "row = (u, hit)" by (cases row)
  from Cons.prems(1) row obtain u' r ts where ts: "out = u' # ts" "record_cached env rows r = Inr (ts, res')"
      "u' = u \<and> \<not> hit \<or> hit \<and> (\<exists>v. u' = u\<lparr>outputs_ref_json := Some v\<rparr>)"
    by (auto simp: andthen_Inr Let_def split: if_splits)
  show ?case
  proof (cases "t \<in> set ts")
    case True
    show ?thesis
      by (rule Cons.IH [OF ts(2) _ True]) (use Cons.prems(2) in auto)
  next
    case False
    with ts Cons.prems(2) [of u hit] Cons.prems(3) row show ?thesis by auto
  qed
qed

lemma materialize_dag_out:
  assumes "materialize_dag env ids tenant jid rv nodes d = Inr (d', out)" and "t \<in> set out"
  shows "task_job_id t = jid \<and>
    (status t = Pending \<or> status t = Succeeded \<and> outputs_ref_json t \<noteq> None)"
proof -
  from assms(1) obtain res' where
    "record_cached env (materialize_nodes env tenant jid rv (fill_ids ids nodes) (tasks d))
       (resources d) = Inr (out, res')"
    by (auto simp: materialize_dag_def Let_def andthen_Inr)
  then show ?thesis
    by (rule record_cached_out [of env _ "resources d" out res' jid]) (auto dest: materialize_nodes_rows intro: assms(2))
qed

lemma inv_submit:
  assumes inv: "engine_inv d" and fresh: "fresh_ids d new_job (map node_id (fill_ids new_ids nodes))"
    and run: "submit_job_dag env now new_job new_ids rv tenant project rcp spec nodes d
      = Inr (d', jid, rows, ready)"
  shows "engine_inv d'"
proof -
  define j where "j = blank_job\<lparr>job_id := new_job, job_tenant_id := tenant,
    job_project_id := project, recipe := rcp, spec_json := spec, job_status := Pending\<rparr>"
  have cj: "create_job new_job tenant project rcp spec d = (d\<lparr>jobs := jobs d @ [j]\<rparr>, j)"
    by (simp add: create_job_def j_def Let_def)
  from run obtain d2 where
    mat: "materialize_dag env new_ids tenant new_job rv nodes (d\<lparr>jobs := jobs d @ [j]\<rparr>) = Inr (d2, rows)"
    and d': "d' = d2 \<or> d' = finalize_job_if_ready now new_job d2"
    by (auto simp: submit_job_dag_def cj andthen_Inr j_def Let_def split: if_splits)
  note d2 = materialize_dag_rows [OF mat, simplified]
  note new = materialize_dag_out [OF mat]
  have ids: "task_id ` set rows = set (map node_id (fill_ids new_ids nodes))"
    using d2(3) by (metis set_map)
  have "tasks_inv (tasks d @ rows)"
  proof -
    have "distinct (map task_id (tasks d @ rows))"
      using inv fresh d2(3) ids by (auto simp: engine_inv_split tasks_inv_def fresh_ids_def)
    moreover have "status u \<in> READY_DEPENDENCY_STATUSES"
      if "t \<in> set (tasks d)" "status t = Running" "u \<in> set (tasks d @ rows)"
        "task_id u \<in> set (deps_of t)" for t u
    proof (cases "u \<in> set (tasks d)")
      case True
      with inv that show ?thesis by (auto simp: engine_inv_split tasks_inv_def)
    next
      case False
      with that have "task_id u \<in> task_id ` set rows" by auto
      with ids fresh that(1,4) show ?thesis unfolding fresh_ids_def by blast
    qed
    moreover have "t \<in> set (tasks d)" if "t \<in> set (tasks d @ rows)" "status t = Running" for t
      using that new [of t] by auto
    moreover have "outputs_ref_json t \<noteq> None" if "t \<in> set (tasks d @ rows)" "status t = Succeeded" for t
      using that new [of t] inv by (auto simp: engine_inv_split tasks_inv_def)
    moreover have "leased t" if "t \<in> set (tasks d)" "status t = Running" for t
      using that inv by (simp add: engine_inv_split tasks_inv_def)
    ultimately show ?thesis unfolding tasks_inv_def by blast
  qed
  moreover have "distinct (map job_id (jobs d2))"
    using inv fresh d2(2) by (auto simp: engine_inv_split fresh_ids_def j_def)
  moreover have "jobs_rolled d2"
  proof -
    have "job_tasks (tasks d @ rows) (job_id i) = job_tasks (tasks d) (job_id i)" if "i \<in> set (jobs d)" for i
      using that fresh new by (auto simp: job_tasks_def fresh_ids_def filter_empty_conv)
    then show ?thesis
      using inv by (auto simp: engine_inv_split jobs_rolled_def d2(1,2) j_def blank_job_def)
  qed
  ultimately have "engine_inv d2" by (simp add: engine_inv_split d2(1))
  with d' show ?thesis by auto
qed

lemma inv_cancel:
  assumes "engine_inv d" and "cancel_job tenant jid force d = Inr d'"
  shows "engine_inv d'"
proof -
  from assms(2) obtain k where d': "d' = d\<lparr>jobs := modify_job k
      (\<lambda>j. j\<lparr>cancel_requested := True, cancel_force := force \<or> cancel_force j\<rparr>) (jobs d)\<rparr>"
    by (auto simp: cancel_job_def andthen_Inr)
  then have "map job_id (jobs d') = map job_id (jobs d)" and same: "tasks d' = tasks d" by simp_all
  then have "distinct (map job_id (jobs d'))" using assms(1) by (simp only: engine_inv_split)
  moreover have "jobs_rolled d'"
    using assms(1) by (auto simp: engine_inv_split jobs_rolled_def d' modify_job_def)
  ultimately show ?thesis using assms(1) same by (simp add: engine_inv_split)
qed

lemma inv_resume:
  assumes inv: "engine_inv d" and run: "resume_job tenant jid d = Inr (d', j, ready)"
  shows "engine_inv d'"
proof -
  from run have d': "d' = d\<lparr>tasks := map (\<lambda>t. if task_job_id t = jid then reset_task t else t) (tasks d),
      jobs := modify_job jid reset_job (jobs d)\<rparr>"
    by (auto simp: resume_job_def Let_def raising_def find_Some_iff split: option.splits if_splits)
  let ?f = "\<lambda>t. if task_job_id t = jid then reset_task t else t"
  have same: "task_id (?f t) = task_id t" "deps_of (?f t) = deps_of t" for t by simp_all
  have keep: "?f t = t" if "status t \<in> READY_DEPENDENCY_STATUSES \<or> status t = Running" for t
    using that by (simp add: reset_task_def resumable_def dependency_vocabulary) fastforce
  have live: "?f t = t" if "status (?f t) = Running \<or> status (?f t) = Succeeded" for t
    using that by (cases "resumable (status t)") (simp_all add: reset_task_def split: if_splits)
  have "tasks_inv (tasks d')"
    unfolding tasks_inv_def
  proof (intro conjI ballI impI)
    show "distinct (map task_id (tasks d'))"
      using inv by (simp add: d' comp_def same engine_inv_split tasks_inv_def)
  next
    fix t' assume t': "t' \<in> set (tasks d')" "status t' = Running"
    then obtain t where t: "t \<in> set (tasks d)" "t' = ?f t" by (auto simp: d')
    with live [of t] t'(2) have "t' = t" by simp
    with t(1) t'(2) inv have l: "leased t'" and g: "\<And>u. u \<in> set (tasks d) \<Longrightarrow>
        task_id u \<in> set (deps_of t') \<Longrightarrow> status u \<in> READY_DEPENDENCY_STATUSES"
      by (auto simp: engine_inv_split tasks_inv_def)
    show "leased t'" by (fact l)
    fix u' assume u': "u' \<in> set (tasks d')" "task_id u' \<in> set (deps_of t')"
    then obtain u where u: "u \<in> set (tasks d)" "u' = ?f u" by (auto simp: d')
    with u'(2) same have "status u \<in> READY_DEPENDENCY_STATUSES" by (intro g) simp_all
    with keep [of u] u(2) show "status u' \<in> READY_DEPENDENCY_STATUSES" by simp
  next
    fix t' assume t': "t' \<in> set (tasks d')" "status t' = Succeeded"
    then obtain t where t: "t \<in> set (tasks d)" "t' = ?f t" by (auto simp: d')
    with live [of t] t'(2) have "t' = t" by simp
    with t(1) t'(2) inv show "outputs_ref_json t' \<noteq> None" by (auto simp: engine_inv_split tasks_inv_def)
  qed
  moreover have "jobs_rolled d'"
  proof -
    have "job_tasks (map ?f ts) k = job_tasks ts k" if "k \<noteq> jid" for k ts
      unfolding job_tasks_def using that by (induction ts) auto
    then show ?thesis
      using inv by (auto simp: engine_inv_split jobs_rolled_def d' modify_job_def reset_job_def)
  qed
  ultimately show ?thesis
    using inv by (simp add: engine_inv_split d' reset_job_def)
qed

lemma inv_gc:
  assumes inv: "engine_inv d" and run: "gc_expired_job_records env now d = (d', n)"
  shows "engine_inv d'"
proof -
  from run have "d' = d \<or> (\<exists>gone. tasks d' = filter (\<lambda>t. task_job_id t \<notin> gone) (tasks d) \<and>
      jobs d' = filter (\<lambda>j. job_id j \<notin> gone) (jobs d))"
    by (auto simp: gc_expired_job_records_def Let_def split: option.splits if_splits)
  then show ?thesis
  proof
    assume "d' = d"
    with inv show ?thesis by simp
  next
    assume "\<exists>gone. tasks d' = filter (\<lambda>t. task_job_id t \<notin> gone) (tasks d) \<and>
      jobs d' = filter (\<lambda>j. job_id j \<notin> gone) (jobs d)"
    then obtain gone where d': "tasks d' = filter (\<lambda>t. task_job_id t \<notin> gone) (tasks d)"
      "jobs d' = filter (\<lambda>j. job_id j \<notin> gone) (jobs d)" by blast
    have "job_tasks (tasks d') k = job_tasks (tasks d) k" if "k \<notin> gone" for k
      using that by (auto simp: d' job_tasks_def intro: filter_cong)
    with inv show ?thesis
      by (auto simp: engine_inv_split tasks_inv_def jobs_rolled_def d' distinct_map_filter)
  qed
qed

text \<open>A worker cut off at its first commit: its row is final, the rest of the state is as before.\<close>

lemma rows_ok_at_commit:
  assumes "rows_ok D (tasks d) (tasks d')" and "distinct (map task_id (tasks d))"
  shows "rows_ok D (tasks d) (tasks (at_commit tid d d'))"
proof (cases "find_task (tasks d') tid")
  case None
  then show ?thesis by (simp add: at_commit_def)
next
  case (Some t')
  then have new: "t' \<in> set (tasks d')" "task_id t' = tid" using find_task_Some by auto
  from rows_ok_mem [OF assms(1) new(1)] obtain t where t: "t \<in> set (tasks d)" "row_ok D t t'" by blast
  with new(2) have "task_id t = tid" using row_ok_id by metis
  note t = t this
  from find_task_unique [OF assms(2) t(1)] t(3) have "find_task (tasks d) tid = Some t" by simp
  from rows_ok_modify [OF this assms(2) t(2)] Some show ?thesis by (simp add: at_commit_def)
qed

lemma jobs_at_commit [simp]: "jobs (at_commit tid d d') = jobs d"
  by (simp add: at_commit_def)

lemma inv_pickup_commit:
  assumes inv: "engine_inv d" and run: "pickup_task env w now tid d = (d', ready, r)"
  shows "engine_inv (at_commit tid d d')"
proof -
  note rows = rows_ok_at_commit [OF pickup_rows [OF run inv_distinct [OF inv]] inv_distinct [OF inv], of tid]
  have "tasks_inv (tasks (at_commit tid d d'))"
    using inv by (intro tasks_inv_rows [OF _ rows])
      (auto simp: engine_inv_split intro: deps_ready_members inv_distinct [OF inv])
  moreover have "jobs_rolled (at_commit tid d d')"
    using inv by (intro jobs_rolled_rows [OF _ rows]) (simp_all add: engine_inv_split)
  ultimately show ?thesis using inv by (simp add: engine_inv_split)
qed

lemma inv_finish_commit:
  "engine_inv d \<Longrightarrow> finish_task env w now picked d = (d', ready, r) \<Longrightarrow> engine_inv (at_commit tid d d')"
  by (rule inv_rows [OF _ rows_ok_at_commit [OF finish_rows]]) (auto intro: inv_distinct)

text \<open>
  That \<open>at_commit\<close> is the state between the first and the second transaction: the later ones
  change neither the terminal row nor the resources.
\<close>

lemma post_terminal_resources:
  assumes "post_terminal now jid d = (d', ready)" and "distinct (map task_id (tasks d))"
  shows "resources d' = resources d"
proof -
  obtain d1 where "mark_dependency_failures_and_ready now jid (maybe_finalize_job now jid d) = (d1, ready)"
      "d' = finalize_job_if_ready now jid d1"
    using assms(1) by (auto simp: post_terminal_def advance_job_after_terminal_def split: prod.splits)
  with mark_rows(3) [OF this(1)] assms(2) show ?thesis by simp
qed

lemma after_first_commit:
  assumes d1: "d1 = d\<lparr>tasks := modify_task tid (\<lambda>_. t') (tasks d), resources := res\<rparr>"
    and t: "find_task (tasks d) tid = Some t" "task_id t' = tid" "status t' \<noteq> Pending"
    and dist: "distinct (map task_id (tasks d))"
    and run: "post_terminal now jid d1 = (d2, ready)"
  shows "at_commit tid d d2 = d1"
proof -
  have ids: "map task_id (tasks d1) = map task_id (tasks d)"
    using t(2) by (auto simp: d1 modify_task_def)
  then have dist1: "distinct (map task_id (tasks d1))" using dist by simp
  note rows = post_terminal_rows [OF run dist1]
  have found: "find_task (tasks d1) tid = Some t'"
    using t find_task_replace [of t' tid "tasks d" tid] by (simp add: d1)
  have "find_task (tasks d2) tid = Some t'"
    by (rule doomed_rows_find [OF rows found t(3)])
  moreover have "resources d2 = res"
    using post_terminal_resources [OF run dist1] by (simp add: d1)
  ultimately show ?thesis by (simp add: at_commit_def d1)
qed

lemma inv_step: "engine_step env s s' \<Longrightarrow> engine_inv (fst s) \<Longrightarrow> engine_inv (fst s')"
proof (induction rule: engine_step.induct)
  case (beat w now tid d d' refreshed)
  then show ?case using heartbeat_rows [OF beat(1)] inv_rows by auto
next
  case (reclaim now d d' ids)
  then show ?case using reclaim_rows [OF reclaim(1)] inv_rows by auto
qed (auto intro: inv_submit inv_cancel inv_pickup inv_finish inv_pickup_commit inv_finish_commit inv_advance inv_propagate inv_resume inv_gc)

lemma reachable_inv: "reachable env s \<Longrightarrow> engine_inv (fst s)"
proof (induction rule: reachable.induct)
  case (start d now)
  then show ?case
    by (simp add: engine_inv_def engine_inv_defs jobs_rolled_def)
next
  case (step s s')
  then show ?case using inv_step by blast
qed

end
