(* ===== verification/Dispatch_Correct.thy ===== *)
theory Dispatch_Correct
  imports Row_Changes
begin

text \<open>
  What the dispatcher guarantees: the marking loop after a finished task, the conditions
  under which a worker starts a task and under which it commits a result, the two rollups
  of a job, and where the marking loop differs from the janitor's sweep.
\<close>

section \<open>The marking loop\<close>

lemma find_task_filter:
  assumes "distinct (map task_id ts)" and "find_task (filter P ts) i = Some t"
  shows "find_task ts i = Some t"
proof -
  from find_task_Some [OF assms(2)] have t: "t \<in> set ts" "task_id t = i" by simp_all
  from find_task_unique [OF assms(1) t(1)] t(2) show ?thesis by simp
qed

abbreviation job_scope :: "task_row list \<Rightarrow> string \<Rightarrow> scope" where
  "job_scope ts jid \<equiv> scope_of (job_tasks ts jid)"

abbreviation job_statuses :: "task_row list \<Rightarrow> string \<Rightarrow> status_map" where
  "job_statuses ts jid \<equiv> statuses_of (job_tasks ts jid)"

lemma mark_loop_run:
  assumes "mark_dependency_failures_and_ready now jid d = (d', ready)"
    and "distinct (map task_id (tasks d))"
  obtains rows m ch where "mark_loop now (job_tasks (tasks d) jid) (job_statuses (tasks d) jid) [] = (rows, m, ch)"
    and "tasks d' = write_back rows (tasks d)"
    and "ready = map task_id (filter (\<lambda>t. status t = Pending \<and> deps_of t \<noteq> [] \<and>
            list_all (\<lambda>dep. status_in READY_DEPENDENCY_STATUSES (m dep)) (deps_of t)) rows)"
    and "distinct (map task_id (job_tasks (tasks d) jid))"
    and "agrees (job_tasks (tasks d) jid) (job_statuses (tasks d) jid)"
proof -
  obtain rows m ch where
    loop: "mark_loop now (job_tasks (tasks d) jid) (job_statuses (tasks d) jid) [] = (rows, m, ch)"
    by (cases "mark_loop now (job_tasks (tasks d) jid) (job_statuses (tasks d) jid) []") auto
  moreover have dist: "distinct (map task_id (job_tasks (tasks d) jid))"
    using assms(2) by (simp add: job_tasks_def)
  moreover have "agrees (job_tasks (tasks d) jid) (job_statuses (tasks d) jid)"
    using dist by (simp add: agrees_def statuses_of_mem)
  moreover have "tasks d' = write_back rows (tasks d)" and "ready = map task_id (filter (\<lambda>t.
      status t = Pending \<and> deps_of t \<noteq> [] \<and>
      list_all (\<lambda>dep. status_in READY_DEPENDENCY_STATUSES (m dep)) (deps_of t)) rows)"
    using assms(1) [symmetric] by (simp_all add: mark_dependency_failures_and_ready_def loop)
  ultimately show thesis using that [of rows m ch] by simp
qed

lemma mark_find:
  assumes mark: "mark_dependency_failures_and_ready now jid d = (d', ready)"
    and dist: "distinct (map task_id (tasks d))"
  shows "if doomed (job_scope (tasks d) jid) (job_statuses (tasks d) jid) i
    then \<exists>t. find_task (tasks d') i = Some t \<and> status t \<in> {Failed, Cancelled, Cancelled_Dirty}
    else find_task (tasks d') i = find_task (tasks d) i"
proof -
  obtain rows m ch where
    loop: "mark_loop now (job_tasks (tasks d) jid) (job_statuses (tasks d) jid) [] = (rows, m, ch)"
    and d': "tasks d' = write_back rows (tasks d)"
    and "ready = map task_id (filter (\<lambda>t. status t = Pending \<and> deps_of t \<noteq> [] \<and>
            list_all (\<lambda>dep. status_in READY_DEPENDENCY_STATUSES (m dep)) (deps_of t)) rows)"
    and dist': "distinct (map task_id (job_tasks (tasks d) jid))"
    and agr: "agrees (job_tasks (tasks d) jid) (job_statuses (tasks d) jid)" by (rule mark_loop_run [OF mark dist])
  note run = dispatcher_sweep.loop_dooms [OF loop dist' agr]
  have found: "find_task (tasks d) i = Some t" if "find_task (job_tasks (tasks d) jid) i = Some t" for t
    using find_task_filter [OF dist] that by (simp add: job_tasks_def)
  show ?thesis
  proof (cases "doomed (job_scope (tasks d) jid) (job_statuses (tasks d) jid) i")
    case True
    then have ch: "i \<in> task_id ` set ch" using run(1) by simp
    have "job_statuses (tasks d) jid i = Some Pending" by (rule doomed_pending [OF True])
    then obtain t where t: "find_task (job_tasks (tasks d) jid) i = Some t"
      using statuses_of_find [OF dist'] by auto
    then have "i \<in> task_id ` set rows"
      using run(5) find_task_Some [OF t] by (metis image_eqI set_map)
    then obtain u where u: "u \<in> set rows" "task_id u = i" by blast
    have "distinct (map task_id rows)" using run(5) dist' by simp
    from find_task_unique [OF this u(1)] u(2) have "find_task rows i = Some u" by simp
    moreover have "m i = Some (status u)" using run(4) u by (auto simp: agrees_def)
    ultimately show ?thesis
      using True run(8) [OF ch] found [OF t] by (auto simp: d' find_task_write_back)
  next
    case False
    then have "i \<notin> task_id ` set ch" using run(1) by simp
    from run(7) [OF this] have "find_task rows i = find_task (job_tasks (tasks d) jid) i" .
    then show ?thesis
      using False found by (auto simp: d' find_task_write_back split: option.splits)
  qed
qed

text \<open>
  C35. After a task of a job became terminal, the dispatcher fails or cancels exactly the
  pending tasks of the job that reach a failed, cancelled or absent task through pending
  tasks of the job, and changes no other row.
\<close>

theorem mark_dooms_exactly:
  assumes "keys_unique d" and "mark_dependency_failures_and_ready now jid d = (d', ready)"
  shows "\<forall>i. if doomed (scope_of (job_tasks (tasks d) jid)) (statuses_of (job_tasks (tasks d) jid)) i
    then \<exists>t. find_task (tasks d') i = Some t \<and> status t \<in> {Failed, Cancelled, Cancelled_Dirty}
    else find_task (tasks d') i = find_task (tasks d) i"
  using assms(1) by (intro allI mark_find [OF assms(2)]) (simp add: keys_unique_def)

lemma chain_doomed: "doomed (job_scope chain_tasks ''j'') (job_statuses chain_tasks ''j'') ''c''"
proof -
  have s: "job_scope chain_tasks ''j'' ''c'' = Some [''b'']" "job_scope chain_tasks ''j'' ''b'' = Some [''a'']"
    "job_statuses chain_tasks ''j'' ''c'' = Some Pending" "job_statuses chain_tasks ''j'' ''b'' = Some Pending"
    "job_statuses chain_tasks ''j'' ''a'' = Some Failed"
    by code_simp+
  have b: "doomed (job_scope chain_tasks ''j'') (job_statuses chain_tasks ''j'') ''b''"
    using doomed.direct [of "job_scope chain_tasks ''j''" "''b''" "[''a'']"
        "job_statuses chain_tasks ''j''" "''a''"] s by (simp add: bad_upstream_def)
  show ?thesis
    using doomed.through [of "job_scope chain_tasks ''j''" "''c''" "[''b'']"
        "job_statuses chain_tasks ''j''" "''b''"] s b by simp
qed

theorem mark_dooms_exactly_witness:
  "\<exists>t. find_task (tasks (fst (mark_dependency_failures_and_ready 5 ''j'' chain_db))) ''c'' = Some t \<and>
     status t \<in> {Failed, Cancelled, Cancelled_Dirty}"
proof -
  obtain d' r where run: "mark_dependency_failures_and_ready 5 ''j'' chain_db = (d', r)"
    by (cases "mark_dependency_failures_and_ready 5 ''j'' chain_db") auto
  from mark_dooms_exactly [OF chain_unique run, rule_format, of "''c''"] chain_doomed run
  show ?thesis by (simp add: chain_db_def)
qed

section \<open>The dispatcher and the janitor\<close>

definition deps_within_job :: "task_row list \<Rightarrow> string \<Rightarrow> bool" where
  "deps_within_job ts jid \<longleftrightarrow>
     list_all (\<lambda>t. task_job_id t = jid \<longrightarrow>
       list_all (\<lambda>u. task_id u \<in> set (deps_of t) \<longrightarrow> task_job_id u = jid) ts) ts"

lemma within_job:
  assumes within: "deps_within_job ts jid" and t: "t \<in> set ts" "task_job_id t = jid"
    and u: "u \<in> set ts" "task_id u \<in> set (deps_of t)"
  shows "task_job_id u = jid"
  using within t u unfolding deps_within_job_def list_all_iff by blast

lemma job_statuses_own:
  assumes dist: "distinct (map task_id ts)" and t: "t \<in> set ts" "task_job_id t = jid"
  shows "job_statuses ts jid (task_id t) = Some (status t)"
    and "statuses_of ts (task_id t) = Some (status t)"
    and "job_scope ts jid (task_id t) = Some (deps_of t)"
    and "status t = Pending \<Longrightarrow> scope_of (pending_rows ts) (task_id t) = Some (deps_of t)"
proof -
  have mem: "t \<in> set (job_tasks ts jid)" using t by (simp add: job_tasks_def)
  have dist': "distinct (map task_id (job_tasks ts jid))" using dist by (simp add: job_tasks_def)
  show "job_statuses ts jid (task_id t) = Some (status t)"
    by (rule statuses_of_mem [OF dist' mem])
  show "statuses_of ts (task_id t) = Some (status t)" by (rule statuses_of_mem [OF dist t(1)])
  show "job_scope ts jid (task_id t) = Some (deps_of t)" by (rule scope_of_mem [OF dist' mem])
  show "scope_of (pending_rows ts) (task_id t) = Some (deps_of t)" if "status t = Pending"
    using that t(1) by (intro scope_of_mem pending_rows_distinct dist) simp
qed

lemma job_statuses_dep:
  assumes dist: "distinct (map task_id ts)" and within: "deps_within_job ts jid"
    and t: "t \<in> set ts" "task_job_id t = jid" and i: "i \<in> set (deps_of t)"
  shows "job_statuses ts jid i = statuses_of ts i"
proof (cases "find_task ts i")
  case None
  then show ?thesis
    by (simp add: job_tasks_def statuses_of_filter [OF dist] statuses_of_find [OF dist])
next
  case (Some u)
  from find_task_Some [OF Some] i have "u \<in> set ts" "task_id u \<in> set (deps_of t)" by simp_all
  from within_job [OF within t this] Some show ?thesis
    by (simp add: job_tasks_def statuses_of_filter [OF dist] statuses_of_find [OF dist])
qed

lemma job_scope_row:
  "job_scope ts jid i = Some ds \<Longrightarrow>
   \<exists>t \<in> set ts. task_job_id t = jid \<and> i = task_id t \<and> ds = deps_of t"
  by (drule scope_of_SomeD) (auto simp: job_tasks_def)

lemma pending_scope_row:
  "scope_of (pending_rows ts) i = Some ds \<Longrightarrow>
   \<exists>t \<in> set ts. status t = Pending \<and> i = task_id t \<and> ds = deps_of t"
  by (drule scope_of_SomeD) auto

lemma job_doomed_global:
  assumes dist: "distinct (map task_id ts)" and within: "deps_within_job ts jid"
  shows "doomed (job_scope ts jid) (job_statuses ts jid) i \<Longrightarrow>
    doomed (scope_of (pending_rows ts)) (statuses_of ts) i"
proof (induction rule: doomed.induct)
  case (direct i ds dep)
  from job_scope_row [OF direct(1)] obtain t where
    t: "t \<in> set ts" "task_job_id t = jid" "i = task_id t" "ds = deps_of t" by blast
  note own = job_statuses_own [OF dist t(1,2)]
  have pend: "status t = Pending" using direct(2) own(1) t(3) by simp
  have "bad_upstream (statuses_of ts dep)"
    using direct(3,4) job_statuses_dep [OF dist within t(1,2)] t(4) by simp
  with doomed.direct [of "scope_of (pending_rows ts)" "task_id t" "deps_of t" "statuses_of ts" dep]
    own(2,4) pend direct(3) t(3,4) show ?case by simp
next
  case (through i ds dep)
  from job_scope_row [OF through(1)] obtain t where
    t: "t \<in> set ts" "task_job_id t = jid" "i = task_id t" "ds = deps_of t" by blast
  note own = job_statuses_own [OF dist t(1,2)]
  have pend: "status t = Pending" using through(2) own(1) t(3) by simp
  with doomed.through [of "scope_of (pending_rows ts)" "task_id t" "deps_of t" "statuses_of ts" dep]
    own(2,4) through(3,5) t(3,4) show ?case by simp
qed

lemma global_doomed_job:
  assumes dist: "distinct (map task_id ts)" and within: "deps_within_job ts jid"
  shows "doomed (scope_of (pending_rows ts)) (statuses_of ts) i \<Longrightarrow>
    i \<in> task_id ` set (job_tasks ts jid) \<Longrightarrow> doomed (job_scope ts jid) (job_statuses ts jid) i"
proof (induction rule: doomed.induct)
  case (direct i ds dep)
  from direct(5) obtain t where t: "t \<in> set ts" "task_job_id t = jid" "i = task_id t"
    by (auto simp: job_tasks_def)
  note own = job_statuses_own [OF dist t(1,2)]
  have pend: "status t = Pending" using direct(2) own(2) t(3) by simp
  then have ds: "ds = deps_of t" using direct(1) own(4) t(3) by simp
  have "bad_upstream (job_statuses ts jid dep)"
    using direct(3,4) job_statuses_dep [OF dist within t(1,2)] ds by simp
  with doomed.direct [of "job_scope ts jid" "task_id t" "deps_of t" "job_statuses ts jid" dep]
    own(1,3) pend direct(3) t(3) ds show ?case by simp
next
  case (through i ds dep)
  from through(6) obtain t where t: "t \<in> set ts" "task_job_id t = jid" "i = task_id t"
    by (auto simp: job_tasks_def)
  note own = job_statuses_own [OF dist t(1,2)]
  have pend: "status t = Pending" using through(2) own(2) t(3) by simp
  then have ds: "ds = deps_of t" using through(1) own(4) t(3) by simp
  from doomed_pending [OF through(4)] statuses_of_None [of ts dep] obtain u where
    u: "u \<in> set ts" "dep = task_id u" by auto
  from within_job [OF within t(1,2) u(1)] through(3) u(2) ds have "task_job_id u = jid" by simp
  with u have "dep \<in> task_id ` set (job_tasks ts jid)" by (auto simp: job_tasks_def)
  from through(5) [OF this]
    doomed.through [of "job_scope ts jid" "task_id t" "deps_of t" "job_statuses ts jid" dep]
    own(1,3) pend through(3) t(3) ds show ?case by simp
qed

text \<open>
  C34. When the dependencies of a job stay inside the job, the dispatcher's marking loop and
  the janitor's sweep leave the same tasks of the job pending.
\<close>

theorem dispatcher_janitor_agree:
  assumes "keys_unique d" and "deps_within_job (tasks d) jid"
    and "i \<in> task_id ` set (job_tasks (tasks d) jid)"
  shows "statuses_of (tasks (fst (mark_dependency_failures_and_ready now jid d))) i = Some Pending \<longleftrightarrow>
    statuses_of (tasks (fst (propagate_terminal_dependencies now' d))) i = Some Pending"
proof -
  have dist: "distinct (map task_id (tasks d))" using assms(1) by (simp add: keys_unique_def)
  obtain d1 r where mark: "mark_dependency_failures_and_ready now jid d = (d1, r)"
    by (cases "mark_dependency_failures_and_ready now jid d") auto
  obtain d2 ids where jan: "propagate_terminal_dependencies now' d = (d2, ids)"
    by (cases "propagate_terminal_dependencies now' d") auto
  note p = propagate_dooms_aux [OF assms(1) jan]
  have same: "doomed (job_scope (tasks d) jid) (job_statuses (tasks d) jid) i \<longleftrightarrow> i \<in> set ids"
    using job_doomed_global [OF dist assms(2)] global_doomed_job [OF dist assms(2) _ assms(3)] p(1)
    by blast
  have "map task_id (tasks d1) = map task_id (tasks d)"
    using rows_ok_ids [OF doomed_rows_ok [OF mark_rows(1) [OF mark dist]]] by simp
  then have dist1: "distinct (map task_id (tasks d1))" using dist by simp
  have dist2: "distinct (map task_id (tasks d2))" using dist p(5) by simp
  show ?thesis
    using mark_find [OF mark dist, of i] p(2,3) [of i] same
    by (auto simp: mark jan statuses_of_find [OF dist1] statuses_of_find [OF dist2]
        statuses_of_find [OF dist] split: if_splits)
qed

theorem dispatcher_janitor_agree_witness:
  "statuses_of (tasks (fst (mark_dependency_failures_and_ready 5 ''j'' chain_db))) ''e'' = Some Pending \<longleftrightarrow>
   statuses_of (tasks (fst (propagate_terminal_dependencies 6 chain_db))) ''e'' = Some Pending"
proof (rule dispatcher_janitor_agree [OF chain_unique])
  show "deps_within_job (tasks chain_db) ''j''"
    by (simp add: deps_within_job_def chain_defs deps_of_def)
  show "''e'' \<in> task_id ` set (job_tasks (tasks chain_db) ''j'')"
    by (simp add: job_tasks_def chain_defs)
qed

text \<open>
  The marking loop knows only the tasks of the job: a pending task with a dependency in
  another job is failed by it, whatever the status of that dependency, even where the
  janitor and the scheduler find the task ready to run.
\<close>

theorem cross_job_dependency_failed:
  assumes "keys_unique d" and mark: "mark_dependency_failures_and_ready now jid d = (d', ready)"
    and t: "t \<in> set (tasks d)" "task_job_id t = jid" "status t = Pending"
    and dep: "dep \<in> set (deps_of t)" "dep \<notin> task_id ` set (job_tasks (tasks d) jid)"
  shows "\<exists>t'. find_task (tasks d') (task_id t) = Some t' \<and> status t' = Failed \<and>
    task_id t \<notin> set ready"
proof -
  have dist: "distinct (map task_id (tasks d))" using assms(1) by (simp add: keys_unique_def)
  obtain rows m ch where
    loop: "mark_loop now (job_tasks (tasks d) jid) (job_statuses (tasks d) jid) [] = (rows, m, ch)"
    and d': "tasks d' = write_back rows (tasks d)"
    and ready: "ready = map task_id (filter (\<lambda>t. status t = Pending \<and> deps_of t \<noteq> [] \<and>
            list_all (\<lambda>dep. status_in READY_DEPENDENCY_STATUSES (m dep)) (deps_of t)) rows)"
    and dist': "distinct (map task_id (job_tasks (tasks d) jid))"
    and agr: "agrees (job_tasks (tasks d) jid) (job_statuses (tasks d) jid)"
    by (rule mark_loop_run [OF mark dist])
  note run = dispatcher_sweep.loop_dooms [OF loop dist' agr]
  note own = job_statuses_own [OF dist t(1,2)]
  have none: "job_statuses (tasks d) jid dep = None" using dep(2) by (simp add: statuses_of_None)
  have "doomed (job_scope (tasks d) jid) (job_statuses (tasks d) jid) (task_id t)"
    using doomed.direct [of "job_scope (tasks d) jid" "task_id t" "deps_of t"
        "job_statuses (tasks d) jid" dep] own(1,3) t(3) dep(1) none
    by (simp add: bad_upstream_def)
  then have ch: "task_id t \<in> task_id ` set ch" using run(1) by simp
  from missing_dependency_fails [OF run(3) own(3) dep(1)] none run(8) [OF ch] own(1) t(3)
  have failed: "m (task_id t) = Some Failed" by auto
  have "task_id t \<in> task_id ` set rows"
    using t run(5) by (metis (mono_tags, lifting) image_eqI job_tasks_def list.set_map mem_Collect_eq set_filter)
  then obtain u where u: "u \<in> set rows" "task_id u = task_id t" by auto
  have dist_rows: "distinct (map task_id rows)" using run(5) dist' by simp
  have st: "status u = Failed" using run(4) u failed by (auto simp: agrees_def)
  have "find_task rows (task_id t) = Some u" using find_task_unique [OF dist_rows u(1)] u(2) by simp
  then have "find_task (tasks d') (task_id t) = Some u"
    by (simp add: d' find_task_write_back find_task_unique [OF dist t(1)])
  moreover have "task_id t \<notin> set ready"
    using run(4) failed by (auto simp: ready agrees_def)
  ultimately show ?thesis using st by blast
qed

definition cross_job_db :: "unit db" where
  "cross_job_db = chain_db\<lparr>tasks :=
     [blank_task\<lparr>task_id := ''up'', task_job_id := ''other'', status := Succeeded\<rparr>,
      blank_task\<lparr>task_id := ''down'', task_job_id := ''j'', depends_on_json := Some [''up''],
        task_state_json := Some (JObj [])\<rparr>]\<rparr>"

lemma cross_job_unique: "keys_unique cross_job_db"
  by (simp add: cross_job_db_def keys_unique_def chain_defs)

theorem cross_job_dependency_failed_witness:
  "find_ready_pending_tasks (tasks cross_job_db) = [''down''] \<and>
   (\<exists>t'. find_task (tasks (fst (mark_dependency_failures_and_ready 5 ''j'' cross_job_db))) ''down''
      = Some t' \<and> status t' = Failed)"
proof
  show "find_ready_pending_tasks (tasks cross_job_db) = [''down'']" by code_simp
  obtain d' r where run: "mark_dependency_failures_and_ready 5 ''j'' cross_job_db = (d', r)"
    by (cases "mark_dependency_failures_and_ready 5 ''j'' cross_job_db") auto
  let ?t = "blank_task\<lparr>task_id := ''down'', task_job_id := ''j'', depends_on_json := Some [''up''],
        task_state_json := Some (JObj [])\<rparr>"
  have "?t \<in> set (tasks cross_job_db)" "''up'' \<notin> task_id ` set (job_tasks (tasks cross_job_db) ''j'')"
    by (simp_all add: cross_job_db_def job_tasks_def)
  from cross_job_dependency_failed [OF cross_job_unique run this(1) _ _ _ this(2)] run
  show "\<exists>t'. find_task (tasks (fst (mark_dependency_failures_and_ready 5 ''j'' cross_job_db))) ''down''
      = Some t' \<and> status t' = Failed"
    by (auto simp: blank_task_def deps_of_def)
qed

section \<open>Starting a task\<close>

text \<open>
  C21. A worker starts a task only from pending, with a free lease, with every upstream
  task succeeded or skipped and with no cancellation requested on the job; afterwards the
  row is running and the worker holds its lease for the configured time.
\<close>

theorem pickup_starts_only_ready:
  assumes uniq: "keys_unique d" and run: "pickup_task env w now tid d = (d', ready, Run t)"
  shows "\<exists>t0. find_task (tasks d) tid = Some t0 \<and> status t0 = Pending \<and> lease_free now t0 \<and>
    statuses_of (tasks d) ` set (deps_of t0) \<subseteq> {Some Succeeded, Some Skipped} \<and>
    (case find_job (jobs d) (task_job_id t0) of None \<Rightarrow> True | Some j \<Rightarrow> \<not> cancel_requested j) \<and>
    find_task (tasks d') tid = Some t \<and> status t = Running \<and> worker_id t = Some w \<and>
    lease_expires_at t = Some (now + lease_ttl_seconds env)"
proof -
  have dist: "distinct (map task_id (tasks d))" using uniq by (simp add: keys_unique_def)
  from run dist show ?thesis
  proof (cases rule: pickup_cases)
    case (started t0 u ts)
    have deps: "statuses_of (tasks d) dep \<in> {Some Succeeded, Some Skipped}"
      if dep: "dep \<in> set (deps_of t0)" for dep
    proof -
      let ?m = "statuses_of (filter (\<lambda>u. task_id u \<in> set (deps_of t0)) (tasks d))"
      have "dependencies_ready (deps_of t0) ?m"
        using started(3) dep
        by (auto simp: task_dependency_state_def Let_def ready_iff_state split: if_splits)
      from readiness.ready_upstream [OF this dep] show ?thesis
        by (auto simp: statuses_of_filter [OF dist] statuses_of_find [OF dist]
            split: option.splits if_splits)
    qed
    have tid: "task_id u = tid" using find_task_Some [OF started(6)] by simp
    have t: "t = u\<lparr>status := Running, started_at := Some now\<rparr>"
      and d': "tasks d' = modify_task tid (\<lambda>_. t) ts"
      using started(9) tid by (auto simp: start_task_def Let_def)
    have "find_task (tasks d') tid = Some t"
      using started(6) tid by (simp add: d' find_task_replace t)
    with started t deps show ?thesis
      by (intro exI [of _ t0]) (auto split: option.splits)
  qed auto
qed

definition one_task_db :: "unit db" where
  "one_task_db = chain_db\<lparr>tasks := [blank_task\<lparr>task_id := ''a'', task_job_id := ''j''\<rparr>]\<rparr>"

lemma one_task_unique: "keys_unique one_task_db"
  by (simp add: one_task_db_def keys_unique_def chain_defs)

lemma one_task_pickup:
  "pickup_task plain_env ''w'' 5 ''a'' one_task_db =
     (one_task_db\<lparr>tasks := [blank_task\<lparr>task_id := ''a'', task_job_id := ''j'', status := Running,
        worker_id := Some ''w'', lease_expires_at := Some 35, started_at := Some 5\<rparr>]\<rparr>, [],
      Run (blank_task\<lparr>task_id := ''a'', task_job_id := ''j'', status := Running,
        worker_id := Some ''w'', lease_expires_at := Some 35, started_at := Some 5\<rparr>))"
  by code_simp

theorem pickup_starts_only_ready_witness:
  "\<exists>t0. find_task (tasks one_task_db) ''a'' = Some t0 \<and> lease_free 5 t0"
  using pickup_starts_only_ready [OF one_task_unique one_task_pickup] by blast

section \<open>Committing a result\<close>

text \<open>
  C3. A worker reports success only when, at the commit, the task was running under a lease
  it held that had not expired, and no cancellation of the job was requested; the task is
  then succeeded with the outputs reported.
\<close>

theorem success_needs_owned_lease:
  assumes uniq: "keys_unique d"
    and run: "finish_task env w now picked d = (d', ready, R_succeeded outs)"
  shows "\<exists>t e. find_task (tasks d) (task_id picked) = Some t \<and> status t = Running \<and>
    worker_id t = Some w \<and> lease_expires_at t = Some e \<and> now < e \<and>
    (case find_job (jobs d) (task_job_id t) of None \<Rightarrow> True | Some j \<Rightarrow> \<not> cancel_requested j) \<and>
    (\<exists>t'. find_task (tasks d') (task_id picked) = Some t' \<and> status t' = Succeeded \<and>
      outputs_ref_json t' = Some outs \<and> finished_at t' = Some now)"
proof -
  have dist: "distinct (map task_id (tasks d))" using uniq by (simp add: keys_unique_def)
  from run show ?thesis
  proof (cases rule: finish_cases)
    case (failed ec em result)
    from failed(1) show ?thesis
      by (cases rule: fail_owned_cases) (use failed(2) in auto)
  next
    case (committed outputs)
    then show ?thesis
    proof (cases rule: commit_cases)
      case (succeeded t t' outs' res)
      let ?ts = "modify_task (task_id picked) (\<lambda>_. t') (tasks d)"
      have id: "task_id t' = task_id picked" using find_task_Some [OF succeeded(1)] succeeded(4) by simp
      have new: "find_task ?ts (task_id picked) = Some t'"
        using succeeded(1) by (simp add: find_task_replace id)
      have "row_ok never t t'"
        using owned_running [OF succeeded(2)]
        by (simp add: row_ok_def succeeded(4) terminal_def deps_of_def)
      from rows_ok_ids [OF rows_ok_modify [OF succeeded(1) dist this]] dist
      have "distinct (map task_id ?ts)" by simp
      with post_terminal_rows [OF succeeded(5)] have "list_all2 doomed_row ?ts (tasks d')" by simp
      from doomed_rows_find [OF this new] succeeded(4)
      have "find_task (tasks d') (task_id picked) = Some t'" by simp
      with succeeded show ?thesis
        by (auto simp: owns_live_running_lease_def split: option.splits)
    qed auto
  qed
qed

definition running_db :: "unit db" where
  "running_db = fst (pickup_task plain_env ''w'' 5 ''a'' one_task_db)"

definition picked_task :: task_row where
  "picked_task = blank_task\<lparr>task_id := ''a'', task_job_id := ''j'', status := Running,
        worker_id := Some ''w'', lease_expires_at := Some 35, started_at := Some 5\<rparr>"

lemma running_db_eq: "running_db = one_task_db\<lparr>tasks := [picked_task]\<rparr>"
  by (simp add: running_db_def one_task_pickup picked_task_def)

lemma running_unique: "keys_unique running_db"
  using one_task_unique by (simp add: running_db_eq keys_unique_def)

lemma running_finish: "snd (snd (finish_task plain_env ''w'' 20 picked_task running_db)) = R_succeeded (JObj [])"
  unfolding running_db_eq by code_simp

theorem success_needs_owned_lease_witness:
  "\<exists>t e. find_task (tasks running_db) ''a'' = Some t \<and> lease_expires_at t = Some e \<and> (20 :: int) < e"
proof -
  obtain d' r where run: "finish_task plain_env ''w'' 20 picked_task running_db = (d', r, R_succeeded (JObj []))"
    using running_finish by (cases "finish_task plain_env ''w'' 20 picked_task running_db") auto
  from success_needs_owned_lease [OF running_unique run] show ?thesis
    by (auto simp: picked_task_def)
qed

text \<open>
  C22. A worker whose lease expired, or whose task was taken over, changes nothing when it
  comes back: whatever its handler returned or raised, the database stays as it is.
\<close>

theorem stale_worker_changes_nothing:
  assumes "find_task (tasks d) (task_id picked) = Some t"
    and "\<not> (status t = Running \<and> worker_id t = Some w \<and> (\<exists>e > now. lease_expires_at t = Some e))"
  shows "finish_task env w now picked d = (d, [], R_lost_lease)"
proof -
  have stale: "\<not> owns_live_running_lease w now t"
    using assms(2) by (auto simp: owns_live_running_lease_def split: option.splits)
  have fail: "fail_owned_task env w now (task_id picked) ec em result d = (d, [], R_lost_lease)" for ec em result
    using assms(1) stale by (simp add: fail_owned_task_def)
  then have "handle_exception env w now (task_id picked) e d = (d, [], R_lost_lease)" for e
    by (simp add: handle_exception_def Let_def)
  moreover have "commit_success env w now (task_id picked) outputs d = Inr (d, [], R_lost_lease)" for outputs
    using assms(1) stale by (simp add: commit_success_def)
  ultimately show ?thesis
    using fail
    by (auto simp: finish_task_def Let_def andthen_Inr
        split: option.splits handler_outcome.splits sum.splits)
qed

theorem stale_worker_changes_nothing_witness:
  "finish_task plain_env ''w'' 35 picked_task running_db = (running_db, [], R_lost_lease)"
proof -
  have "find_task (tasks running_db) (task_id picked_task) = Some picked_task"
    by (simp add: running_db_eq find_task_def)
  then show ?thesis
    by (rule stale_worker_changes_nothing) (simp add: picked_task_def)
qed

section \<open>The two rollups\<close>

text \<open>
  The service's rollup gives a job the status its tasks determine: unchanged while it
  has no task or one that is pending or running, otherwise failed if a task failed, else
  cancelled if one was cancelled, else succeeded.
\<close>

theorem rollup_outcome:
  assumes "find_job (jobs d) jid = Some j"
  shows "\<exists>j'. find_job (jobs (finalize_job_if_ready now jid d)) jid = Some j' \<and>
    (let S = status ` set (job_tasks (tasks d) jid) in
     job_status j' =
       (if S = {} \<or> Pending \<in> S \<or> Running \<in> S then job_status j
        else if Failed \<in> S then Failed
        else if Cancelled \<in> S \<or> Cancelled_Dirty \<in> S then Cancelled
        else Succeeded))"
proof (cases "rolled_up (job_tasks (tasks d) jid)")
  case None
  then have "finalize_job_if_ready now jid d = d" by (rule service_rollup.not_ready)
  moreover have "status ` set (job_tasks (tasks d) jid) = {} \<or>
      Pending \<in> status ` set (job_tasks (tasks d) jid) \<or> Running \<in> status ` set (job_tasks (tasks d) jid)"
    using None by (simp add: rolled_up_def Let_def split: if_splits)
  ultimately show ?thesis
    using assms by (auto simp: Let_def)
next
  case (Some s)
  from service_rollup.rolls [OF this assms, of now] Some show ?thesis
    by (auto simp: rolled_up_def Let_def split: if_splits)
qed

theorem rollup_outcome_witness:
  "\<exists>j'. find_job (jobs (finalize_job_if_ready 5 ''j''
     (one_task_db\<lparr>tasks := [blank_task\<lparr>task_job_id := ''j'', status := Skipped\<rparr>]\<rparr>))) ''j'' = Some j' \<and>
     job_status j' = Succeeded"
proof -
  let ?d = "one_task_db\<lparr>tasks := [blank_task\<lparr>task_job_id := ''j'', status := Skipped\<rparr>]\<rparr>"
  have "find_job (jobs ?d) ''j'' = Some (blank_job\<lparr>job_id := ''j''\<rparr>)"
    by (simp add: one_task_db_def chain_db_def find_job_def)
  from rollup_outcome [OF this, of 5] show ?thesis
    by (simp add: job_tasks_def blank_task_def)
qed

text \<open>
  The dispatcher's rollup and the service's rollup give every job the same status and
  the same finish time, and running one after the other changes neither again.
\<close>

theorem rollups_equivalent:
  "map (\<lambda>j. (job_id j, job_status j, job_finished_at j)) (jobs (maybe_finalize_job now jid d)) =
   map (\<lambda>j. (job_id j, job_status j, job_finished_at j)) (jobs (finalize_job_if_ready now jid d)) \<and>
   map (\<lambda>j. (job_id j, job_status j, job_finished_at j))
     (jobs (finalize_job_if_ready now' jid (maybe_finalize_job now jid d))) =
   map (\<lambda>j. (job_id j, job_status j, job_finished_at j)) (jobs (maybe_finalize_job now jid d))"
  by (auto simp: maybe_finalize_job_def finalize_job_if_ready_def modify_job_def Let_def
      split: option.splits)

end
