(* ===== verification/Engine_Correct.thy ===== *)
theory Engine_Correct
  imports Engine Dispatch_Correct
begin

text \<open>
  What holds of every deployment: properties of the reachable states of \<open>Engine\<close>, and the
  contracts of submission, resume and retention.
\<close>

section \<open>Reachable states\<close>

text \<open>
  C1. In every reachable state a job that is not pending has the status its tasks
  determine; in particular all its tasks are terminal. No interleaving of workers, sweeps
  and API calls finishes a job early or lets a task of a finished job move on.
\<close>

theorem finished_job_rolled_up:
  "reachable env (d, now) \<Longrightarrow>
   list_all (\<lambda>j. job_status j = Pending \<or>
     rolled_up (job_tasks (tasks d) (job_id j)) = Some (job_status j)) (jobs d)"
  using reachable_inv [of env "(d, now)"]
  by (simp add: engine_inv_def jobs_rolled_def list_all_iff)

text \<open>
  C2. In every reachable state a running task has an owner and a lease, every upstream row
  still in the table has succeeded or was skipped, and every succeeded task has outputs.
\<close>

theorem running_task_safe:
  "reachable env (d, now) \<Longrightarrow>
   list_all (\<lambda>t.
     (status t = Running \<longrightarrow> worker_id t \<noteq> None \<and> lease_expires_at t \<noteq> None \<and>
        list_all (\<lambda>u. task_id u \<in> set (deps_of t) \<longrightarrow> status u \<in> {Succeeded, Skipped}) (tasks d)) \<and>
     (status t = Succeeded \<longrightarrow> outputs_ref_json t \<noteq> None)) (tasks d)"
  using reachable_inv [of env "(d, now)"]
  by (simp add: engine_inv_split tasks_inv_def list_all_iff leased_def READY_DEPENDENCY_STATUSES_def)

text \<open>Every step but submission, resume and retention relates the rows by \<open>row_ok\<close>.\<close>

definition final_kept :: "task_row list \<Rightarrow> task_row list \<Rightarrow> bool" where
  "final_kept ts ts' \<longleftrightarrow>
     (\<forall>i t. find_task ts i = Some t \<longrightarrow> status t \<in> {Succeeded, Skipped} \<longrightarrow>
        (case find_task ts' i of None \<Rightarrow> True
         | Some t' \<Rightarrow> status t' = status t \<and> outputs_ref_json t' = outputs_ref_json t))"

lemma rows_ok_final: "rows_ok D ts ts' \<Longrightarrow> final_kept ts ts'"
  unfolding final_kept_def
  by (auto dest!: rows_ok_find simp: row_ok_def terminal_def)

lemma final_kept_refl: "final_kept ts ts"
  by (simp add: final_kept_def)

lemma find_task_append:
  "find_task (xs @ ys) i = (case find_task xs i of None \<Rightarrow> find_task ys i | Some t \<Rightarrow> Some t)"
  by (induction xs) (auto simp: find_task_def)

lemma final_kept_append: "final_kept ts (ts @ rows)"
  by (simp add: final_kept_def find_task_append)

lemma final_kept_filter:
  assumes "distinct (map task_id ts)" shows "final_kept ts (filter P ts)"
  unfolding final_kept_def using find_task_filter [OF assms, of P] by (auto split: option.splits)

lemma final_kept_resume:
  "final_kept ts (map (\<lambda>t. if task_job_id t = jid then reset_task t else t) ts)"
  unfolding final_kept_def
  by (subst find_task_map) (auto simp: reset_task_def resumable_def)

lemma submit_tasks:
  assumes "submit_job_dag env now new_job new_ids rv tenant project rcp spec nodes d
      = Inr (d', jid, rows, ready)"
  shows "tasks d' = tasks d @ rows" and "jid = new_job"
    and "map task_id rows = map node_id (fill_ids new_ids nodes)"
    and "t \<in> set rows \<Longrightarrow> task_job_id t = new_job \<and> (status t = Pending \<or> status t = Succeeded)"
proof -
  from assms obtain d1 j d2 where
    "create_job new_job tenant project rcp spec d = (d1, j)" and
    mat: "materialize_dag env new_ids tenant (job_id j) rv nodes d1 = Inr (d2, rows)" and
    d': "d' = d2 \<or> d' = finalize_job_if_ready now (job_id j) d2" and "jid = job_id j"
    by (auto simp: submit_job_dag_def andthen_Inr Let_def split: if_splits prod.splits)
  moreover from this(1) have "tasks d1 = tasks d" "job_id j = new_job"
    by (auto simp: create_job_def Let_def)
  ultimately show "tasks d' = tasks d @ rows" and "jid = new_job"
    and "map task_id rows = map node_id (fill_ids new_ids nodes)"
    and "t \<in> set rows \<Longrightarrow> task_job_id t = new_job \<and> (status t = Pending \<or> status t = Succeeded)"
    using materialize_dag_rows [OF mat] materialize_dag_out [OF mat, of t] by auto
qed

lemma step_final:
  "engine_step env s s' \<Longrightarrow> engine_inv (fst s) \<Longrightarrow> final_kept (tasks (fst s)) (tasks (fst s'))"
proof (induction rule: engine_step.induct)
  case (submit now new_job new_ids rv tenant project rcp spec nodes d d' jid rows ready)
  then show ?case using submit_tasks(1) [OF submit(1)] by (simp add: final_kept_append)
next
  case (cancel tenant jid force d d' now)
  then have "tasks d' = tasks d" by (auto simp: cancel_job_def andthen_Inr)
  then show ?case by (simp add: final_kept_refl)
next
  case (pickup w now tid d d' ready r)
  then show ?case using pickup_rows [OF pickup(1)] rows_ok_final inv_distinct by auto
next
  case (finish w now picked d d' ready r)
  then show ?case using finish_rows [OF finish(1)] rows_ok_final inv_distinct by auto
next
  case (pickup_commit w now tid d d' ready r)
  then show ?case
    using rows_ok_final [OF rows_ok_at_commit [OF pickup_rows [OF pickup_commit(1)]]] inv_distinct by auto
next
  case (finish_commit w now picked d d' ready r)
  then show ?case
    using rows_ok_final [OF rows_ok_at_commit [OF finish_rows [OF finish_commit(1)]]] inv_distinct by auto
next
  case (rollup d now jid)
  then show ?case by (simp add: dispatcher_rollup.keeps_tasks final_kept_refl)
next
  case (advance now jid d d' ready)
  then show ?case
    using advance_rows [OF advance(1) inv_distinct] doomed_rows_ok rows_ok_final by fastforce
next
  case (beat w now tid d d' refreshed)
  then show ?case using heartbeat_rows [OF beat(1)] rows_ok_final by auto
next
  case (reclaim now d d' ids)
  then show ?case using reclaim_rows [OF reclaim(1)] rows_ok_final by auto
next
  case (propagate now d d' ids)
  then show ?case
    using propagate_rows [OF propagate(1) inv_distinct] doomed_rows_ok rows_ok_final by fastforce
next
  case (resume tenant jid d d' j ready now)
  then have "tasks d' = map (\<lambda>t. if task_job_id t = jid then reset_task t else t) (tasks d)"
    by (auto simp: resume_job_def Let_def raising_def split: option.splits if_splits)
  then show ?case by (simp add: final_kept_resume)
next
  case (gc now d d' n)
  then show ?case
    using final_kept_filter [OF inv_distinct, of d]
    by (auto simp: gc_expired_job_records_def Let_def final_kept_refl split: option.splits if_splits)
qed (simp add: final_kept_refl)

text \<open>
  C7. A succeeded or skipped task is final: no step of any component changes its status or
  its outputs, whatever workers still hold it, until retention deletes the row.
\<close>

theorem succeeded_is_final:
  assumes "reachable env (d, now)" and "engine_step env (d, now) (d', now')"
    and "find_task (tasks d) i = Some t" and "status t \<in> {Succeeded, Skipped}"
  shows "case find_task (tasks d') i of None \<Rightarrow> True
    | Some t' \<Rightarrow> status t' = status t \<and> outputs_ref_json t' = outputs_ref_json t"
proof -
  have "final_kept (tasks d) (tasks d')"
    using step_final [OF assms(2)] reachable_inv [OF assms(1)] by simp
  with assms(3,4) show ?thesis unfolding final_kept_def by blast
qed

text \<open>A run of the engine, for the witnesses: one task submitted, picked up and finished.\<close>

definition empty_db :: "unit db" where
  "empty_db = \<lparr>tasks = [], jobs = [], job_events = [],
     resources = \<lparr>recons = [], stage_artifacts = [], others = ()\<rparr>\<rparr>"

definition run_submit :: "exn + (unit db \<times> string \<times> task_row list \<times> string list)" where
  "run_submit = submit_job_dag plain_env 1 ''j'' [] ''v'' ''default'' ''p'' ''r'' None [noop_node] empty_db"

definition run_submitted :: "unit db" where
  "run_submitted = fst (projr run_submit)"

definition run_picked :: "unit db" where
  "run_picked = fst (pickup_task plain_env ''w'' 1 ''n'' run_submitted)"

definition run_row :: task_row where
  "run_row = hd (tasks run_picked)"

definition run_done :: "unit db" where
  "run_done = fst (finish_task plain_env ''w'' 1 run_row run_picked)"

lemma run_submit_ok: "run_submit = Inr (run_submitted, snd (projr run_submit))"
proof -
  have "ok run_submit" by code_simp
  then obtain x where "run_submit = Inr x" by (auto simp: ok_def split: sum.splits)
  then have "projr run_submit = x" by (rule arg_cong [of _ "Inr x" projr, unfolded sum.sel])
  with \<open>run_submit = Inr x\<close> show ?thesis unfolding run_submitted_def by (metis prod.collapse)
qed

lemma run_reaches:
  "reachable plain_env (run_submitted, 1)" "reachable plain_env (run_picked, 1)"
  "reachable plain_env (run_done, 1)" "engine_step plain_env (run_picked, 1) (run_done, 1)"
proof -
  have "reachable plain_env (empty_db, 1)"
    by (rule reachable.start) (simp_all add: empty_db_def)
  moreover obtain jid rows ready where
    "submit_job_dag plain_env 1 ''j'' [] ''v'' ''default'' ''p'' ''r'' None [noop_node] empty_db
       = Inr (run_submitted, jid, rows, ready)"
    using run_submit_ok unfolding run_submit_def by (metis prod.collapse)
  then have "engine_step plain_env (empty_db, 1) (run_submitted, 1)"
    by (rule engine_step.submit) (simp add: fresh_ids_def empty_db_def noop_node_def)
  ultimately show sub: "reachable plain_env (run_submitted, 1)" by (rule reachable.step)
  obtain d1 r1 p1 where "pickup_task plain_env ''w'' 1 ''n'' run_submitted = (d1, r1, p1)"
    by (cases "pickup_task plain_env ''w'' 1 ''n'' run_submitted") auto
  then have "engine_step plain_env (run_submitted, 1) (run_picked, 1)"
    using engine_step.pickup [of plain_env "''w''" 1 "''n''" run_submitted d1 r1 p1]
    by (simp add: run_picked_def)
  with sub show pick: "reachable plain_env (run_picked, 1)" by (rule reachable.step)
  obtain d2 r2 p2 where "finish_task plain_env ''w'' 1 run_row run_picked = (d2, r2, p2)"
    by (cases "finish_task plain_env ''w'' 1 run_row run_picked") auto
  then show fin: "engine_step plain_env (run_picked, 1) (run_done, 1)"
    using engine_step.finish [of plain_env "''w''" 1 run_row run_picked d2 r2 p2]
    by (simp add: run_done_def)
  with pick show "reachable plain_env (run_done, 1)" by (rule reachable.step)
qed

text \<open>
  The same run, but the worker crashes between the commit of the task and the rollup: the state is
  reachable, the task has succeeded and the job is pending.
\<close>

definition run_crashed :: "unit db" where
  "run_crashed = at_commit (task_id run_row) run_picked run_done"

lemma crash_before_rollup:
  "reachable plain_env (run_crashed, 1)"
  "rolled_up (job_tasks (tasks run_crashed) ''j'') = Some Succeeded"
  "map_option job_status (find_job (jobs run_crashed) ''j'') = Some Pending"
proof -
  obtain d2 r2 p2 where "finish_task plain_env ''w'' 1 run_row run_picked = (d2, r2, p2)"
    by (cases "finish_task plain_env ''w'' 1 run_row run_picked") auto
  then have "engine_step plain_env (run_picked, 1) (run_crashed, 1)"
    using engine_step.finish_commit [of plain_env "''w''" 1 run_row run_picked d2 r2 p2]
    by (simp add: run_crashed_def run_done_def)
  with run_reaches(2) show "reachable plain_env (run_crashed, 1)" by (rule reachable.step)
  show "rolled_up (job_tasks (tasks run_crashed) ''j'') = Some Succeeded"
    and "map_option job_status (find_job (jobs run_crashed) ''j'') = Some Pending" by code_simp+
qed

theorem finished_job_rolled_up_witness:
  "map job_status (jobs run_done) = [Succeeded] \<and>
   rolled_up (job_tasks (tasks run_done) (job_id (hd (jobs run_done)))) = Some Succeeded"
proof
  show st: "map job_status (jobs run_done) = [Succeeded]" by code_simp
  then obtain j where j: "jobs run_done = [j]" "job_status j = Succeeded"
    by (cases "jobs run_done") auto
  with finished_job_rolled_up [OF run_reaches(3)]
  show "rolled_up (job_tasks (tasks run_done) (job_id (hd (jobs run_done)))) = Some Succeeded"
    by simp
qed

theorem running_task_safe_witness:
  "map status (tasks run_picked) = [Running] \<and> worker_id (hd (tasks run_picked)) \<noteq> None"
proof
  show st: "map status (tasks run_picked) = [Running]" by code_simp
  then obtain t where t: "tasks run_picked = [t]" "status t = Running"
    by (cases "tasks run_picked") auto
  with running_task_safe [OF run_reaches(2)] show "worker_id (hd (tasks run_picked)) \<noteq> None" by simp
qed

theorem succeeded_is_final_witness:
  "\<exists>t. find_task (tasks run_done) ''n'' = Some t \<and> status t = Succeeded \<and>
     (case find_task (tasks (fst (pickup_task plain_env ''w'' 9 ''n'' run_done))) ''n'' of
        None \<Rightarrow> True | Some t' \<Rightarrow> status t' = Succeeded)"
proof -
  have "map (\<lambda>t. (task_id t, status t)) (tasks run_done) = [(''n'', Succeeded)]" by code_simp
  then obtain t where t: "tasks run_done = [t]" "task_id t = ''n''" "status t = Succeeded" by auto
  then have found: "find_task (tasks run_done) ''n'' = Some t" by (simp add: find_task_def)
  have late: "reachable plain_env (run_done, 9)"
    by (rule reachable.step [OF run_reaches(3)]) (simp add: engine_step.tick)
  obtain d' r p where run: "pickup_task plain_env ''w'' 9 ''n'' run_done = (d', r, p)"
    by (cases "pickup_task plain_env ''w'' 9 ''n'' run_done") auto
  from succeeded_is_final [OF late engine_step.pickup [OF run] found] t(3) run found
  show ?thesis by (auto split: option.splits)
qed

section \<open>Resume\<close>

text \<open>
  C37. A resumed job is pending with both cancel flags and its error cleared; of its tasks the
  failed and cancelled ones are pending again with error, lease and times cleared and every other
  one is as it was, so no failed or cancelled task is left and at least one is pending. Nothing
  else is touched: no task and no job row of another job, no event and no resource.
\<close>

theorem resume_contract:
  assumes "resume_job tenant jid d = Inr (d', j, ready)"
  shows "d' = d\<lparr>
      tasks := map (\<lambda>t. if task_job_id t = jid \<and> status t \<in> {Failed, Cancelled, Cancelled_Dirty}
        then t\<lparr>status := Pending, error_class := None, error_message := None, lease_expires_at := None,
               worker_id := None, started_at := None, finished_at := None\<rparr> else t) (tasks d),
      jobs := map (\<lambda>i. if job_id i = jid
        then i\<lparr>cancel_requested := False, cancel_force := False, job_status := Pending, job_error_class := None,
               job_error_message := None, job_started_at := None, job_finished_at := None\<rparr> else i) (jobs d)\<rparr> \<and>
    status ` set (job_tasks (tasks d') jid) \<subseteq> {Pending, Running, Succeeded, Skipped} \<and>
    Pending \<in> status ` set (job_tasks (tasks d') jid) \<and>
    (\<exists>j'. find_job (jobs d') jid = Some j' \<and> job_status j' = Pending \<and>
       \<not> cancel_requested j' \<and> \<not> cancel_force j')"
proof -
  let ?f = "\<lambda>t. if task_job_id t = jid then reset_task t else t"
  from assms obtain i where i: "find (\<lambda>j. job_tenant_id j = tenant \<and> job_id j = jid) (jobs d) = Some i"
    and some: "filter (\<lambda>t. resumable (status t)) (job_tasks (tasks d) jid) \<noteq> []"
    and d': "d' = d\<lparr>tasks := map ?f (tasks d), jobs := modify_job (job_id i) reset_job (jobs d)\<rparr>"
    by (auto simp: resume_job_def Let_def raising_def split: option.splits if_splits)
  from i have jid: "job_id i = jid" by (auto simp: find_Some_iff)
  have job: "job_tasks (tasks d') jid = map reset_task (job_tasks (tasks d) jid)"
    unfolding d' job_tasks_def by (induction "tasks d") (simp_all add: filter_map comp_def cong: map_cong)
  have rows: "?f = (\<lambda>t. if task_job_id t = jid \<and> status t \<in> {Failed, Cancelled, Cancelled_Dirty}
        then t\<lparr>status := Pending, error_class := None, error_message := None, lease_expires_at := None,
               worker_id := None, started_at := None, finished_at := None\<rparr> else t)"
    by (simp add: fun_eq_iff reset_task_def resumable_def)
  have reset: "modify_job (job_id i) reset_job (jobs d) = map (\<lambda>i. if job_id i = jid
        then i\<lparr>cancel_requested := False, cancel_force := False, job_status := Pending, job_error_class := None,
               job_error_message := None, job_started_at := None, job_finished_at := None\<rparr> else i) (jobs d)"
    by (simp add: modify_job_def reset_job_def jid)
  have st: "status (reset_task t) \<in> {Pending, Running, Succeeded, Skipped}" for t
    by (cases "status t") (simp_all add: reset_task_def resumable_def)
  from some obtain t where "t \<in> set (job_tasks (tasks d) jid)" "resumable (status t)"
    by (auto simp: filter_empty_conv)
  then have "Pending \<in> status ` set (job_tasks (tasks d') jid)"
    unfolding job by (force simp: reset_task_status)
  moreover have "\<exists>j'. find_job (jobs d') jid = Some j' \<and> job_status j' = Pending \<and>
       \<not> cancel_requested j' \<and> \<not> cancel_force j'"
  proof -
    from i have "find_job (jobs d) jid \<noteq> None"
      using jid by (auto simp: find_job_def find_None_iff find_Some_iff intro: nth_mem)
    then obtain k where "find_job (jobs d) jid = Some k" by auto
    then have "find_job (jobs d') jid = Some (reset_job k)"
      by (simp add: d' jid find_job_modify reset_job_def)
    then show ?thesis by (simp add: reset_job_def)
  qed
  moreover have "status ` set (job_tasks (tasks d') jid) \<subseteq> {Pending, Running, Succeeded, Skipped}"
    unfolding job using st by auto
  ultimately show ?thesis using d' [unfolded rows reset] by blast
qed

definition failed_db :: "unit db" where
  "failed_db = empty_db\<lparr>
     tasks := [blank_task\<lparr>task_id := ''a'', task_job_id := ''j'', status := Succeeded\<rparr>,
               blank_task\<lparr>task_id := ''b'', task_job_id := ''j'', status := Failed,
                 depends_on_json := Some [''a'']\<rparr>],
     jobs := [blank_job\<lparr>job_id := ''j'', job_status := Failed\<rparr>]\<rparr>"

lemma failed_resume:
  "map_sum (\<lambda>_. ()) (snd \<circ> snd) (resume_job ''default'' ''j'' failed_db) = Inr [''b'']"
  by code_simp

theorem resume_contract_witness:
  "\<exists>d' j. resume_job ''default'' ''j'' failed_db = Inr (d', j, [''b'']) \<and>
     Pending \<in> status ` set (job_tasks (tasks d') ''j'')"
proof -
  from failed_resume obtain d' j where run: "resume_job ''default'' ''j'' failed_db = Inr (d', j, [''b''])"
    by (cases "resume_job ''default'' ''j'' failed_db") auto
  from resume_contract [OF run] run show ?thesis by blast
qed

section \<open>Retention\<close>

text \<open>
  Retention deletes a job only together with all its tasks, events and artifacts, and
  never one that is pinned, that is not terminal, or that finished within the retention
  time; without a retention time it deletes nothing.
\<close>

theorem gc_keeps_live_jobs:
  assumes "gc_expired_job_records env now d = (d', n)"
  shows "\<exists>gone. jobs d' = filter (\<lambda>j. job_id j \<notin> gone) (jobs d) \<and>
    tasks d' = filter (\<lambda>t. task_job_id t \<notin> gone) (tasks d) \<and>
    job_events d' = filter (\<lambda>e. event_job_id e \<notin> gone) (job_events d) \<and>
    stage_artifacts (resources d') =
      filter (\<lambda>a. artifact_job_id a \<notin> gone) (stage_artifacts (resources d)) \<and>
    gone = (case retention_days env of None \<Rightarrow> {} | Some days \<Rightarrow>
      job_id ` {j \<in> set (jobs d). job_status j \<in> {Succeeded, Failed, Cancelled, Cancelled_Dirty} \<and>
        \<not> pinned j \<and> (\<exists>f < now - days * 86400. job_finished_at j = Some f)})"
proof (cases "retention_days env")
  case None
  with assms show ?thesis by (simp add: gc_expired_job_records_def)
next
  case (Some days)
  let ?gone = "job_id ` {j \<in> set (jobs d). job_expired (now - days * seconds_per_day) j}"
  have gone: "?gone = job_id ` {j \<in> set (jobs d).
      job_status j \<in> {Succeeded, Failed, Cancelled, Cancelled_Dirty} \<and>
      \<not> pinned j \<and> (\<exists>f < now - days * 86400. job_finished_at j = Some f)}"
    by (auto simp: job_expired_def TERMINAL_JOB_STATUSES_def seconds_per_day_def split: option.splits)
  have empty: "?gone = {}" if "filter (job_expired (now - days * seconds_per_day)) (jobs d) = []"
    using that by (auto simp: filter_empty_conv)
  have "jobs d' = filter (\<lambda>j. job_id j \<notin> ?gone) (jobs d) \<and>
    tasks d' = filter (\<lambda>t. task_job_id t \<notin> ?gone) (tasks d) \<and>
    job_events d' = filter (\<lambda>e. event_job_id e \<notin> ?gone) (job_events d) \<and>
    stage_artifacts (resources d') =
      filter (\<lambda>a. artifact_job_id a \<notin> ?gone) (stage_artifacts (resources d))"
  proof (cases "filter (job_expired (now - days * seconds_per_day)) (jobs d) = []")
    case True
    with assms Some have "d' = d" by (simp add: gc_expired_job_records_def)
    then show ?thesis by (simp add: empty [OF True])
  next
    case False
    with assms Some show ?thesis by (auto simp: gc_expired_job_records_def Let_def)
  qed
  then show ?thesis
    unfolding gone by (intro exI [of _ "_ ` _"]) (simp add: Some)
qed

definition gc_env :: "unit env" where
  "gc_env = plain_env\<lparr>retention_days := Some 1\<rparr>"

definition old_db :: "unit db" where
  "old_db = failed_db\<lparr>jobs := [blank_job\<lparr>job_id := ''j'', job_status := Failed, job_finished_at := Some 0\<rparr>]\<rparr>"

theorem gc_keeps_live_jobs_witness:
  "jobs (fst (gc_expired_job_records gc_env 90000 old_db)) = [] \<and>
   jobs (fst (gc_expired_job_records gc_env 80000 old_db)) = jobs old_db"
proof -
  obtain d1 n1 where g1: "gc_expired_job_records gc_env 90000 old_db = (d1, n1)"
    by (cases "gc_expired_job_records gc_env 90000 old_db") auto
  obtain d2 n2 where g2: "gc_expired_job_records gc_env 80000 old_db = (d2, n2)"
    by (cases "gc_expired_job_records gc_env 80000 old_db") auto
  have jobs: "jobs old_db = [blank_job\<lparr>job_id := ''j'', job_status := Failed, job_finished_at := Some 0\<rparr>]"
    by (simp add: old_db_def)
  have old: "job_id ` {j \<in> set (jobs old_db). job_status j \<in> {Succeeded, Failed, Cancelled, Cancelled_Dirty} \<and>
      \<not> pinned j \<and> (\<exists>f < now - 1 * 86400. job_finished_at j = Some f)} = (if 86400 < now then {''j''} else {})"
    for now
    unfolding set_filter [symmetric] jobs by (simp add: blank_job_def)
  have env: "retention_days gc_env = Some 1" by (simp add: gc_env_def)
  from gc_keeps_live_jobs [OF g1] have "jobs d1 = []"
    unfolding env option.case old by (auto simp: jobs)
  moreover from gc_keeps_live_jobs [OF g2] have "jobs d2 = jobs old_db"
    unfolding env option.case old by auto
  ultimately show ?thesis using g1 g2 by simp
qed

section \<open>Submission\<close>

lemma materialized_dependency_map:
  assumes uniq: "distinct (map task_id (ts @ rows))" and t: "t \<in> set pending" "set pending \<subseteq> set rows"
    and dep: "dep \<in> set (deps_of t)"
  shows "resolve_external_dep_statuses (ts @ rows) pending (statuses_of rows) dep = statuses_of (ts @ rows) dep"
proof -
  define ext where "ext = filter (\<lambda>dep. statuses_of rows dep = None) (concat (map deps_of pending))"
  have rows: "distinct (map task_id rows)" using uniq by simp
  have val: "resolve_external_dep_statuses (ts @ rows) pending (statuses_of rows) dep =
      (statuses_of rows ++ statuses_of (filter (\<lambda>u. task_id u \<in> set ext) (ts @ rows))) dep"
    unfolding resolve_external_dep_statuses_def Let_def ext_def [symmetric]
    by (cases "ext = []") (simp_all add: statuses_of_def)
  have "statuses_of rows dep = None \<Longrightarrow> dep \<in> set ext"
    using t dep by (auto simp: ext_def)
  moreover have "statuses_of rows dep = Some s \<Longrightarrow> dep \<notin> set ext" for s by (auto simp: ext_def)
  moreover have "statuses_of rows dep = Some s \<Longrightarrow> statuses_of (ts @ rows) dep = Some s" for s
  proof -
    assume s: "statuses_of rows dep = Some s"
    then obtain u where u: "u \<in> set rows" "task_id u = dep" "status u = s"
      using statuses_of_find [OF rows, of dep] find_task_Some by fastforce
    then show "statuses_of (ts @ rows) dep = Some s"
      using statuses_of_mem [OF uniq, of u] by simp
  qed
  ultimately show ?thesis
    unfolding val using statuses_of_filter [OF uniq, of "\<lambda>u. task_id u \<in> set ext" dep]
      statuses_of_find [OF uniq, of dep] find_task_Some [of "ts @ rows" dep]
    by (cases "statuses_of rows dep") (auto simp: map_add_def split: option.splits if_splits)
qed

text \<open>The branches of a submission that succeeds.\<close>

definition not_cached :: "task_row list \<Rightarrow> task_row list" where
  "not_cached rows = filter (\<lambda>t. status t \<noteq> Succeeded) rows"

lemma submit_result:
  assumes run: "submit_job_dag env now new_job new_ids rv tenant project rcp spec nodes (d :: 'r db)
      = Inr (d', jid, rows, ready)"
  shows "\<exists>d2. tasks d2 = tasks d @ rows \<and> find_job (jobs d2) new_job \<noteq> None \<and>
    (if not_cached rows = [] then d' = finalize_job_if_ready now new_job d2 \<and> ready = []
     else ready = map task_id (filter (\<lambda>t. dependencies_ready (deps_of t)
        (resolve_external_dep_statuses (tasks d2) (not_cached rows) (statuses_of rows))) (not_cached rows)))"
proof -
  define j where "j = blank_job\<lparr>job_id := new_job, job_tenant_id := tenant,
    job_project_id := project, recipe := rcp, spec_json := spec, job_status := Pending\<rparr>"
  have cj: "create_job new_job tenant project rcp spec d = (d\<lparr>jobs := jobs d @ [j]\<rparr>, j)"
    by (simp add: create_job_def j_def Let_def)
  have job: "job_id j = new_job" by (simp add: j_def)
  from run obtain x where "materialize_dag env new_ids tenant new_job rv nodes (d\<lparr>jobs := jobs d @ [j]\<rparr>) = Inr x"
    by (auto simp: submit_job_dag_def cj job andthen_Inr)
  then obtain d2 rows2 where x: "materialize_dag env new_ids tenant new_job rv nodes
      (d\<lparr>jobs := jobs d @ [j]\<rparr>) = Inr (d2, rows2)" by (cases x) auto
  then have "rows2 = rows"
    using run by (auto simp: submit_job_dag_def cj job Let_def split: if_splits)
  note x = x [unfolded this]
  note d2 = materialize_dag_rows [OF x, simplified]
  have "find_job (jobs d2) new_job \<noteq> None"
    by (auto simp: d2(2) find_job_def find_None_iff job)
  with d2(1) x run show ?thesis
    by (intro exI [of _ d2]) (auto simp: submit_job_dag_def cj job Let_def not_cached_def split: if_splits)
qed

lemma submit_ready_rows:
  assumes "distinct (map task_id (ts @ rows))"
  shows "task_id ` {t \<in> set (not_cached rows). dependencies_ready (deps_of t)
      (resolve_external_dep_statuses (ts @ rows) (not_cached rows) (statuses_of rows))} =
    task_id ` {t \<in> set (not_cached rows). statuses_of (ts @ rows) ` set (deps_of t) \<subseteq> {Some Succeeded, Some Skipped}}"
proof -
  have sub: "set (not_cached rows) \<subseteq> set rows" by (auto simp: not_cached_def)
  have "dependencies_ready (deps_of t)
        (resolve_external_dep_statuses (ts @ rows) (not_cached rows) (statuses_of rows)) \<longleftrightarrow>
      statuses_of (ts @ rows) ` set (deps_of t) \<subseteq> {Some Succeeded, Some Skipped}"
    if "t \<in> set (not_cached rows)" for t
    using materialized_dependency_map [OF assms that sub]
    by (simp add: ready_iff_upstream_reusable image_subset_iff)
  then show ?thesis by (intro arg_cong [of _ _ "image task_id"]) blast
qed

lemma all_cached_rolled:
  assumes "tasks d2 = tasks d @ rows" and "find_job (jobs d2) new_job \<noteq> None"
    and "filter (\<lambda>t. task_job_id t = new_job) (tasks d) = []" and "\<forall>t \<in> set rows. task_job_id t = new_job"
    and "rows \<noteq> []" and "status ` set rows \<subseteq> {Succeeded}"
  shows "\<exists>j. find_job (jobs (finalize_job_if_ready now new_job d2)) new_job = Some j \<and> job_status j = Succeeded"
proof -
  have "job_tasks (tasks d2) new_job = rows"
    using assms(3,4) by (auto simp: assms(1) job_tasks_def intro: filter_True)
  then have "rolled_up (job_tasks (tasks d2) new_job) = Some Succeeded"
    using assms(5,6) by (auto simp: rolled_up_def Let_def)
  moreover obtain i where "find_job (jobs d2) new_job = Some i" using assms(2) by auto
  ultimately show ?thesis
    using service_rollup.rolls [of d2 new_job Succeeded i now] by auto
qed

lemma submit_ready_set:
  assumes uniq: "keys_unique d" and fresh: "fresh_ids d new_job (map node_id (fill_ids new_ids nodes))"
    and run: "submit_job_dag env now new_job new_ids rv tenant project rcp spec nodes (d :: 'r db)
      = Inr (d', jid, rows, ready)"
  shows "set ready = {task_id t | t. t \<in> set rows \<and> status t = Pending \<and>
      statuses_of (tasks d') ` set (deps_of t) \<subseteq> {Some Succeeded, Some Skipped}}"
proof -
  note sub = submit_tasks [OF run]
  obtain d2 where d2: "tasks d2 = tasks d @ rows" "find_job (jobs d2) new_job \<noteq> None"
    and out: "if not_cached rows = [] then d' = finalize_job_if_ready now new_job d2 \<and> ready = []
      else ready = map task_id (filter (\<lambda>t. dependencies_ready (deps_of t)
        (resolve_external_dep_statuses (tasks d2) (not_cached rows) (statuses_of rows))) (not_cached rows))"
    using submit_result [OF run] by blast
  have dist: "distinct (map task_id (tasks d @ rows))"
    using uniq fresh sub(3) by (auto simp: keys_unique_def fresh_ids_def simp flip: set_map)
  have "set ready = task_id ` {t \<in> set (not_cached rows).
      statuses_of (tasks d @ rows) ` set (deps_of t) \<subseteq> {Some Succeeded, Some Skipped}}"
    using out submit_ready_rows [OF dist] by (cases "not_cached rows = []") (simp_all add: d2(1))
  moreover have "t \<in> set (not_cached rows) \<longleftrightarrow> t \<in> set rows \<and> status t = Pending" for t
    using sub(4) [of t] by (auto simp: not_cached_def)
  ultimately show "set ready = {task_id t | t. t \<in> set rows \<and> status t = Pending \<and>
      statuses_of (tasks d') ` set (deps_of t) \<subseteq> {Some Succeeded, Some Skipped}}"
    unfolding sub(1) by blast
qed

text \<open>
  C36. Submission hands to the queue exactly the new tasks that are pending and whose
  dependencies, in this job or in another, have all succeeded or been skipped; a job all of
  whose tasks are cache hits is handed over to nobody and is finished at once.
\<close>

theorem submit_enqueues_ready:
  assumes uniq: "keys_unique d" and fresh: "fresh_ids d new_job (map node_id (fill_ids new_ids nodes))"
    and run: "submit_job_dag env now new_job new_ids rv tenant project rcp spec nodes (d :: 'r db)
      = Inr (d', jid, rows, ready)"
  shows "set ready = {task_id t | t. t \<in> set rows \<and> status t = Pending \<and>
      statuses_of (tasks d') ` set (deps_of t) \<subseteq> {Some Succeeded, Some Skipped}} \<and>
    (if rows \<noteq> [] \<and> status ` set rows \<subseteq> {Succeeded}
     then \<exists>j. find_job (jobs d') jid = Some j \<and> job_status j = Succeeded else True)"
proof -
  note sub = submit_tasks [OF run]
  obtain d2 where d2: "tasks d2 = tasks d @ rows" "find_job (jobs d2) new_job \<noteq> None"
    and out: "not_cached rows = [] \<longrightarrow> d' = finalize_job_if_ready now new_job d2"
    using submit_result [OF run] by auto
  note submit_ready_set [OF uniq fresh run]
  moreover have "\<exists>j. find_job (jobs d') jid = Some j \<and> job_status j = Succeeded"
    if all: "rows \<noteq> []" "status ` set rows \<subseteq> {Succeeded}"
  proof -
    have "not_cached rows = []" using all by (auto simp: not_cached_def filter_empty_conv)
    then show ?thesis
      using all_cached_rolled [OF d2 _ _ all, of now] out fresh sub(2,4)
      by (auto simp: fresh_ids_def filter_empty_conv)
  qed
  ultimately show ?thesis by simp
qed

theorem submit_enqueues_ready_witness:
  "\<exists>ready. set ready = {''n''} \<and> map_sum (\<lambda>_. ()) (snd \<circ> snd \<circ> snd) run_submit = Inr ready"
proof -
  obtain jid rows ready where run:
    "submit_job_dag plain_env 1 ''j'' [] ''v'' ''default'' ''p'' ''r'' None [noop_node] empty_db
       = Inr (run_submitted, jid, rows, ready)"
    using run_submit_ok unfolding run_submit_def by (metis prod.collapse)
  have "keys_unique empty_db" "fresh_ids empty_db ''j'' (map node_id (fill_ids [] [noop_node]))"
    by (simp_all add: keys_unique_def empty_db_def fresh_ids_def noop_node_def)
  note sub = submit_enqueues_ready [OF this run] 
  have "map_sum (\<lambda>_. ()) (\<lambda>x. map (\<lambda>t. (task_id t, status t, deps_of t)) (fst (snd (snd x)))) run_submit
      = Inr [(''n'', Pending, [])]" by code_simp
  then have "map (\<lambda>t. (task_id t, status t, deps_of t)) rows = [(''n'', Pending, [])]"
    using run by (simp add: run_submit_def)
  then have "set ready = {''n''}" using sub by auto
  with run show ?thesis by (intro exI [of _ ready]) (simp add: run_submit_def)
qed

end
