(* ===== verification/Attributes.thy ===== *)
theory Attributes
  imports Errors
begin

text \<open>
  \<open>core/attributes.py\<close>: the portable configuration contract of a processor. The data type
  registry (\<open>is_data_type\<close>, owned by the package \<open>sceneio\<close>) and the interpreter's shortest
  decimal form of a float are the fields of the parameter \<open>contract_env\<close>.
\<close>

record contract_env =
  float_repr :: "rat \<Rightarrow> string"
  is_data_type :: "string \<Rightarrow> bool"

definition ATTRIBUTE_TYPES :: "string list" where
  "ATTRIBUTE_TYPES =
     [''int'', ''float'', ''bool'', ''str'', ''enum'', ''datatype-ref'', ''object'']"

text \<open>Python's \<open>str\<close> of a number, inside the messages.\<close>

fun num_text :: "contract_env \<Rightarrow> pynum \<Rightarrow> string" where
  "num_text E (NumI i) = str_of_int i"
| "num_text E (NumF (Fin q)) = float_repr E q"
| "num_text E (NumF PosInf) = ''inf''"
| "num_text E (NumF NegInf) = ''-inf''"
| "num_text E (NumF NaN) = ''nan''"

fun num_json :: "pynum \<Rightarrow> json" where
  "num_json (NumI i) = JInt i"
| "num_json (NumF f) = JFloat f"

record attribute =
  at_name :: string
  at_type :: string
  at_required :: bool
  at_default :: json
  at_has_default :: bool
  at_enum :: "string list"
  at_min :: "pynum option"
  at_max :: "pynum option"
  at_description :: string
  at_datatype_lookup :: "(string \<Rightarrow> bool) option"

section \<open>Types of values\<close>

fun is_bool :: "json \<Rightarrow> bool" where
  "is_bool (JBool _) = True"
| "is_bool _ = False"

fun is_int :: "json \<Rightarrow> bool" where
  "is_int (JInt _) = True"
| "is_int _ = False"

text \<open>\<open>isinstance(value, (int, float)) and not isinstance(value, bool)\<close>.\<close>

fun is_number :: "json \<Rightarrow> bool" where
  "is_number (JInt _) = True"
| "is_number (JFloat _) = True"
| "is_number _ = False"

fun is_str :: "json \<Rightarrow> bool" where
  "is_str (JStr _) = True"
| "is_str _ = False"

fun is_dict :: "json \<Rightarrow> bool" where
  "is_dict (JObj _) = True"
| "is_dict _ = False"

fun in_enum :: "json \<Rightarrow> string list \<Rightarrow> bool" where
  "in_enum (JStr s) vs = (s \<in> set vs)"
| "in_enum _ vs = False"

text \<open>\<open>datatype_lookup or attr.datatype_lookup or is_data_type\<close>.\<close>

definition chosen_lookup ::
  "contract_env \<Rightarrow> attribute \<Rightarrow> (string \<Rightarrow> bool) option \<Rightarrow> string \<Rightarrow> bool" where
  "chosen_lookup E a lookup =
     (case lookup of
        Some f \<Rightarrow> f
      | None \<Rightarrow> (case at_datatype_lookup a of Some f \<Rightarrow> f | None \<Rightarrow> is_data_type E))"

fun str_satisfies :: "(string \<Rightarrow> bool) \<Rightarrow> json \<Rightarrow> bool" where
  "str_satisfies p (JStr s) = p s"
| "str_satisfies p _ = False"

definition type_ok ::
  "contract_env \<Rightarrow> (string \<Rightarrow> bool) option \<Rightarrow> attribute \<Rightarrow> json \<Rightarrow> bool" where
  "type_ok E lookup a v =
     (if at_type a = ''bool'' then is_bool v
      else if at_type a = ''int'' then is_int v
      else if at_type a = ''float'' then is_number v
      else if at_type a = ''str'' then is_str v
      else if at_type a = ''enum'' then in_enum v (at_enum a)
      else if at_type a = ''datatype-ref'' then str_satisfies (chosen_lookup E a lookup) v
      else if at_type a = ''object'' then is_dict v
      else False)"

text \<open>
  \<open>value < attr.min\<close> and \<open>value > attr.max\<close>. The comparison of a value that is no number
  raises in Python; an attribute that passed its constructor has bounds only when its type
  is numeric, so the checks are reached with numbers only (\<open>bounds_on_numbers\<close>).
\<close>

definition below :: "json \<Rightarrow> pynum option \<Rightarrow> bool" where
  "below v bound =
     (case bound of None \<Rightarrow> False
      | Some m \<Rightarrow> (case json_num v of None \<Rightarrow> False | Some n \<Rightarrow> num_less n m))"

definition above :: "json \<Rightarrow> pynum option \<Rightarrow> bool" where
  "above v bound =
     (case bound of None \<Rightarrow> False
      | Some m \<Rightarrow> (case json_num v of None \<Rightarrow> False | Some n \<Rightarrow> num_less m n))"

definition min_over_max :: "pynum option \<Rightarrow> pynum option \<Rightarrow> bool" where
  "min_over_max lo hi =
     (case lo of None \<Rightarrow> False
      | Some l \<Rightarrow> (case hi of None \<Rightarrow> False | Some h \<Rightarrow> num_less h l))"

section \<open>Declaring an attribute\<close>

definition numeric_type :: "string \<Rightarrow> bool" where
  "numeric_type t \<longleftrightarrow> t = ''int'' \<or> t = ''float''"

text \<open>
  \<open>Attribute.__post_init__\<close>: the value errors, in the order of the tests. The test that the
  enumerated values are strings cannot fail on the model's typed lists.
\<close>

definition attribute_checks :: "contract_env \<Rightarrow> attribute \<Rightarrow> (bool \<times> string) list" where
  "attribute_checks E a =
     (let n = ''attribute '' @ py_repr (at_name a); t = py_repr (at_type a) in
      [(at_type a \<notin> set ATTRIBUTE_TYPES, n @ '' has unknown type '' @ t),
       (at_type a = ''enum'' \<and> at_enum a = [],
        ''enum '' @ n @ '' must declare enum values''),
       (at_type a \<noteq> ''enum'' \<and> at_enum a \<noteq> [], n @ '' uses enum values but type is '' @ t),
       (\<not> distinct (map py_repr (at_enum a)), n @ '' enum values must be unique''),
       (\<not> numeric_type (at_type a) \<and> (at_min a \<noteq> None \<or> at_max a \<noteq> None),
        n @ '' min/max are only valid for numeric types''),
       (min_over_max (at_min a) (at_max a), n @ '' min must be <= max''),
       (at_required a \<and> at_has_default a, n @ '' cannot be required and defaulted'')] @
      (if at_has_default a then
         [(at_default a = JNull, n @ '' default cannot be null''),
          (\<not> type_ok E (at_datatype_lookup a) a (at_default a),
           n @ '' default must match type '' @ t)] @
         (if numeric_type (at_type a) \<and> is_number (at_default a) then
            [(below (at_default a) (at_min a), n @ '' default must be >= min''),
             (above (at_default a) (at_max a), n @ '' default must be <= max'')]
          else [])
       else []))"

definition attribute_post_init :: "contract_env \<Rightarrow> attribute \<Rightarrow> string + unit" where
  "attribute_post_init E a = raise_first (attribute_checks E a)"

definition attribute_contract :: "attribute \<Rightarrow> json" where
  "attribute_contract a =
     JObj ([(''name'', JStr (at_name a)), (''type'', JStr (at_type a)),
            (''required'', JBool (at_required a)), (''description'', JStr (at_description a))] @
       (if at_has_default a then [(''default'', at_default a)] else []) @
       (if at_enum a = [] then [] else [(''enum'', JList (map JStr (at_enum a)))]) @
       (case at_min a of None \<Rightarrow> [] | Some m \<Rightarrow> [(''min'', num_json m)]) @
       (case at_max a of None \<Rightarrow> [] | Some m \<Rightarrow> [(''max'', num_json m)]))"

definition attributes_contract :: json where
  "attributes_contract =
     JObj [(''contract'', JStr ''attributes''), (''contract_schema_version'', JInt 1),
       (''attribute_types'', JList (map JStr ATTRIBUTE_TYPES)),
       (''rules'', JObj
         [(''required_with_default'', JStr ''invalid''),
          (''unknown_core_attribute'', JStr ''unknown_attribute''),
          (''plugin_attribute_namespace'', JStr ''plugin_id.attribute_name'')])]"

section \<open>Binding values\<close>

record attribute_error =
  ae_reason :: string
  ae_path :: string
  ae_message :: string

definition unknown_attribute :: "string \<Rightarrow> string \<Rightarrow> attribute_error" where
  "unknown_attribute pfx n =
     \<lparr>ae_reason = ''unknown_attribute'', ae_path = pfx @ ''.'' @ n,
      ae_message = ''unknown attribute '' @ quoted n\<rparr>"

definition invalid_attribute :: "string \<Rightarrow> attribute \<Rightarrow> string \<Rightarrow> attribute_error" where
  "invalid_attribute pfx a msg =
     \<lparr>ae_reason = ''invalid_attribute'', ae_path = pfx @ ''.'' @ at_name a,
      ae_message = ''attribute '' @ quoted (at_name a) @ '' must be '' @ msg\<rparr>"

definition missing_attribute :: "string \<Rightarrow> attribute \<Rightarrow> attribute_error" where
  "missing_attribute pfx a =
     \<lparr>ae_reason = ''missing_required_attribute'', ae_path = pfx @ ''.'' @ at_name a,
      ae_message = ''missing required attribute '' @ quoted (at_name a)\<rparr>"

definition check_value ::
  "contract_env \<Rightarrow> (string \<Rightarrow> bool) option \<Rightarrow> string \<Rightarrow> attribute \<Rightarrow> json \<Rightarrow> attribute_error list" where
  "check_value E lookup pfx a v =
     (if v = JNull \<or> \<not> type_ok E lookup a v then [invalid_attribute pfx a (at_type a)]
      else
        (case at_min a of
           Some m \<Rightarrow> if below v (Some m) then [invalid_attribute pfx a (''>= '' @ num_text E m)] else []
         | None \<Rightarrow> []) @
        (case at_max a of
           Some m \<Rightarrow> if above v (Some m) then [invalid_attribute pfx a (''<= '' @ num_text E m)] else []
         | None \<Rightarrow> []))"

definition check_attribute ::
  "contract_env \<Rightarrow> (string \<Rightarrow> bool) option \<Rightarrow> string \<Rightarrow> json dict \<Rightarrow> attribute \<Rightarrow> attribute_error list" where
  "check_attribute E lookup pfx values a =
     (case map_of values (at_name a) of
        None \<Rightarrow> if at_required a then [missing_attribute pfx a] else []
      | Some v \<Rightarrow> check_value E lookup pfx a v)"

definition validate_attributes ::
  "contract_env \<Rightarrow> attribute list \<Rightarrow> json dict \<Rightarrow> string \<Rightarrow> (string \<Rightarrow> bool) option
     \<Rightarrow> attribute_error list" where
  "validate_attributes E attrs values pfx lookup =
     map (unknown_attribute pfx)
       (sorted_set (filter (\<lambda>n. n \<notin> set (map at_name attrs)) (keys values))) @
     concat (map (check_attribute E lookup pfx values) attrs)"

section \<open>What an accepted binding satisfies\<close>

text \<open>The contract of one value: a non-null value of the type within the bounds.\<close>

definition value_ok ::
  "contract_env \<Rightarrow> (string \<Rightarrow> bool) option \<Rightarrow> attribute \<Rightarrow> json \<Rightarrow> bool" where
  "value_ok E lookup a v \<longleftrightarrow>
     v \<noteq> JNull \<and> type_ok E lookup a v \<and> \<not> below v (at_min a) \<and> \<not> above v (at_max a)"

lemma below_None [simp]: "\<not> below v None" "\<not> above v None"
  by (simp_all add: below_def above_def)

lemma check_value_Nil: "check_value E lookup pfx a v = [] \<longleftrightarrow> value_ok E lookup a v"
  by (auto simp: check_value_def value_ok_def split: option.splits)

lemma type_ok_null [simp]: "\<not> type_ok E lookup a JNull"
  by (simp add: type_ok_def)

lemma attribute_ok_bounds:
  assumes "attribute_post_init E a = Inr ()" and "at_min a \<noteq> None \<or> at_max a \<noteq> None"
  shows "numeric_type (at_type a)"
  using assms by (auto simp: attribute_post_init_def raise_first_Inr attribute_checks_def Let_def)

lemma numeric_values: "numeric_type (at_type a) \<Longrightarrow> type_ok E lookup a v \<Longrightarrow> is_number v"
  by (cases v) (auto simp: numeric_type_def type_ok_def)

lemma number_json_num: "is_number v \<Longrightarrow> json_num v \<noteq> None"
  by (cases v) auto

text \<open>A bound is compared with a number only, so the comparison raises no \<open>TypeError\<close>.\<close>

lemma bounds_on_numbers:
  assumes "attribute_post_init E a = Inr ()" and "at_min a \<noteq> None \<or> at_max a \<noteq> None"
    and "type_ok E lookup a v"
  shows "json_num v \<noteq> None"
  using assms attribute_ok_bounds numeric_values number_json_num by blast

section \<open>Properties\<close>

text \<open>
  A binding is accepted exactly when it names declared attributes only, has every
  required one, and each value is non-null, of the declared type and within the bounds.
\<close>

theorem validate_attributes_spec:
  "validate_attributes E attrs values pfx lookup = [] \<longleftrightarrow>
     set (keys values) \<subseteq> set (map at_name attrs) \<and>
     (\<forall>a \<in> set attrs. case map_of values (at_name a) of
        None \<Rightarrow> \<not> at_required a
      | Some v \<Rightarrow> v \<noteq> JNull \<and> type_ok E lookup a v \<and> \<not> below v (at_min a) \<and> \<not> above v (at_max a))"
proof -
  have "check_attribute E lookup pfx values a = [] \<longleftrightarrow>
      (case map_of values (at_name a) of None \<Rightarrow> \<not> at_required a | Some v \<Rightarrow> value_ok E lookup a v)" for a
    by (simp add: check_attribute_def check_value_Nil split: option.splits)
  then show ?thesis
    unfolding value_ok_def [symmetric]
    by (simp add: validate_attributes_def filter_empty_conv subset_eq)
qed

theorem validate_attributes_spec_witness:
  "validate_attributes \<lparr>float_repr = \<lambda>q. [], is_data_type = \<lambda>s. False\<rparr>
     [\<lparr>at_name = ''k'', at_type = ''int'', at_required = False, at_default = JNull, at_has_default = False,
       at_enum = [], at_min = Some (NumI 1), at_max = None, at_description = [], at_datatype_lookup = None\<rparr>]
     [(''k'', JInt 1)] ''attributes'' None = []"
  unfolding validate_attributes_spec by code_simp

text \<open>
  An attribute that its constructor accepts accepts its own default: binding the default
  explicitly is the same as leaving it out.
\<close>

theorem default_validates:
  assumes "attribute_post_init E a = Inr ()" and "at_has_default a"
  shows "validate_attributes E [a] [(at_name a, at_default a)] pfx (at_datatype_lookup a) = [] \<and>
    validate_attributes E [a] [] pfx (at_datatype_lookup a) = []"
proof -
  have c: "\<forall>c \<in> set (attribute_checks E a). \<not> fst c"
    using assms(1) by (simp add: attribute_post_init_def raise_first_Inr)
  then have d: "\<not> at_required a" "at_default a \<noteq> JNull" "type_ok E (at_datatype_lookup a) a (at_default a)"
    using assms(2) by (simp_all add: attribute_checks_def Let_def)
  have "\<not> below (at_default a) (at_min a) \<and> \<not> above (at_default a) (at_max a)"
  proof (cases "at_min a \<noteq> None \<or> at_max a \<noteq> None")
    case True
    then have n: "numeric_type (at_type a)"
      using assms(1) attribute_ok_bounds by blast
    with d have "is_number (at_default a)"
      using numeric_values by blast
    with c n assms(2) show ?thesis
      by (simp add: attribute_checks_def Let_def)
  qed simp
  with d have "check_value E (at_datatype_lookup a) pfx a (at_default a) = []"
    by (simp add: check_value_Nil value_ok_def)
  with d show ?thesis
    by (simp add: validate_attributes_def check_attribute_def keys_def sorted_set_def)
qed

theorem default_validates_witness:
  "validate_attributes \<lparr>float_repr = \<lambda>q. [], is_data_type = \<lambda>s. False\<rparr>
     [\<lparr>at_name = ''k'', at_type = ''int'', at_required = False, at_default = JInt 3, at_has_default = True,
       at_enum = [], at_min = Some (NumI 1), at_max = None, at_description = [], at_datatype_lookup = None\<rparr>]
     [(''k'', JInt 3)] ''attributes'' None = []"
  using default_validates [of "\<lparr>float_repr = \<lambda>q. [], is_data_type = \<lambda>s. False\<rparr>"
      "\<lparr>at_name = ''k'', at_type = ''int'', at_required = False, at_default = JInt 3, at_has_default = True,
        at_enum = [], at_min = Some (NumI 1), at_max = None, at_description = [], at_datatype_lookup = None\<rparr>"
      "''attributes''"]
  by (simp add: attribute_post_init_def raise_first_all attribute_checks_def Let_def py_str
      ATTRIBUTE_TYPES_def numeric_type_def type_ok_def below_def above_def num_less_def min_over_max_def)

end
