(* ===== verification/Processors.thy ===== *)
theory Processors
  imports Attributes
begin

text \<open>
  \<open>core/processors.py\<close>, \<open>core/config_stages.py\<close> and the compatibility view
  \<open>core/operations.py\<close>: typed verbs with named ports, the registry of core processors with
  the checks run when the module is loaded, and the lookup by id, alias and capability.
\<close>

definition CONFIG_STAGES :: "string list" where
  "CONFIG_STAGES =
     [''features'', ''pairs'', ''matcher'', ''verify'', ''mapping'', ''bundle_adjustment'']"

definition CONFIG_STAGE_ORDER :: "nat dict" where
  "CONFIG_STAGE_ORDER =
     map (\<lambda>(index, stage). (stage, (index + 1) * 10)) (enumerate 0 CONFIG_STAGES)"

record port_spec =
  ps_datatype :: string
  ps_required :: bool
  ps_multiple :: bool
  ps_description :: string

definition port_contract :: "port_spec \<Rightarrow> json" where
  "port_contract p =
     JObj [(''datatype'', JStr (ps_datatype p)), (''required'', JBool (ps_required p)),
           (''multiple'', JBool (ps_multiple p)), (''description'', JStr (ps_description p))]"

record processor =
  pr_id :: string
  pr_title :: string
  pr_consumer :: "port_spec dict"
  pr_supplier :: "port_spec dict"
  pr_attributes :: "attribute list"
  pr_description :: string
  pr_capabilities :: "string list"
  pr_config_stage :: "string option"
  pr_aliases :: "string list"
  pr_special_inputs :: "port_spec dict"
  pr_special_attributes :: "attribute list"

definition consumes :: "processor \<Rightarrow> string list" where
  "consumes p = map (ps_datatype \<circ> snd) (pr_consumer p)"

definition produces :: "processor \<Rightarrow> string list" where
  "produces p = map (ps_datatype \<circ> snd) (pr_supplier p)"

definition opt_json :: "string option \<Rightarrow> json" where
  "opt_json x = (case x of None \<Rightarrow> JNull | Some s \<Rightarrow> JStr s)"

definition ports_contract :: "port_spec dict \<Rightarrow> json" where
  "ports_contract ports = JObj (map (\<lambda>(role, p). (role, port_contract p)) (sort_key fst ports))"

definition processor_contract :: "processor \<Rightarrow> json" where
  "processor_contract p =
     JObj [(''processor_id'', JStr (pr_id p)), (''title'', JStr (pr_title p)),
       (''consumer'', ports_contract (pr_consumer p)),
       (''supplier'', ports_contract (pr_supplier p)),
       (''attributes'', JList (map attribute_contract (pr_attributes p))),
       (''special_inputs'', ports_contract (pr_special_inputs p)),
       (''special_attributes'', JList (map attribute_contract (pr_special_attributes p))),
       (''capabilities'', JList (map JStr (pr_capabilities p))),
       (''config_stage'', opt_json (pr_config_stage p)),
       (''aliases'', JList (map JStr (pr_aliases p))),
       (''description'', JStr (pr_description p))]"

definition operation_contract :: "processor \<Rightarrow> json" where
  "operation_contract p =
     JObj [(''op_id'', JStr (pr_id p)), (''title'', JStr (pr_title p)),
       (''consumes'', JList (map JStr (consumes p))),
       (''produces'', JList (map JStr (produces p))),
       (''capabilities'', JList (map JStr (pr_capabilities p))),
       (''config_stage'', opt_json (pr_config_stage p)),
       (''description'', JStr (pr_description p))]"

section \<open>The core attribute tables\<close>

definition port :: "string \<Rightarrow> string \<Rightarrow> port_spec" where
  "port datatype description =
     \<lparr>ps_datatype = datatype, ps_required = True, ps_multiple = False,
      ps_description = description\<rparr>"

definition attr ::
  "string \<Rightarrow> string \<Rightarrow> string \<Rightarrow> json option \<Rightarrow> string list \<Rightarrow> pynum option \<Rightarrow> pynum option
     \<Rightarrow> attribute" where
  "attr name ty description dflt enum lo hi =
     \<lparr>at_name = name, at_type = ty, at_required = False,
      at_default = (case dflt of None \<Rightarrow> JNull | Some d \<Rightarrow> d),
      at_has_default = (dflt \<noteq> None), at_enum = enum, at_min = lo, at_max = hi,
      at_description = description, at_datatype_lookup = None\<rparr>"

definition use_gpu :: attribute where
  "use_gpu =
     attr ''use_gpu'' ''bool'' ''Whether GPU acceleration may be used.''
       (Some (JBool True)) [] None None"

definition seed :: attribute where
  "seed = attr ''seed'' ''int'' ''Deterministic seed.'' (Some (JInt 0)) [] None None"

definition max_runtime_seconds :: attribute where
  "max_runtime_seconds =
     attr ''max_runtime_seconds'' ''int'' ''Optional runtime budget in seconds.''
       None [] (Some (NumI 1)) None"

definition FEATURE_ATTRIBUTES :: "attribute list" where
  "FEATURE_ATTRIBUTES =
     [attr ''type'' ''enum'' ''Feature extractor family.'' (Some (JStr ''sift''))
        [''sift'', ''superpoint'', ''aliked'', ''disk'', ''r2d2'', ''d2net'', ''sosnet''] None None,
      attr ''max_num_features'' ''int'' ''Maximum features per image.''
        (Some (JInt 8192)) [] (Some (NumI 0)) None,
      use_gpu, seed]"

definition PAIR_ATTRIBUTES :: "attribute list" where
  "PAIR_ATTRIBUTES =
     [attr ''strategy'' ''enum'' ''Image pair selection strategy.'' (Some (JStr ''exhaustive''))
        [''exhaustive'', ''sequential'', ''spatial'', ''vocabtree'', ''retrieval'', ''from_poses'',
         ''explicit''] None None,
      attr ''overlap'' ''int'' ''Sequential overlap window.''
        (Some (JInt 10)) [] (Some (NumI 0)) None,
      attr ''retrieval_k'' ''int'' ''Number of retrieval neighbors.''
        (Some (JInt 20)) [] (Some (NumI 1)) None]"

text \<open>The literals 0.8 and 0.7 are the binary64 values nearest to them.\<close>

definition MATCH_ATTRIBUTES :: "attribute list" where
  "MATCH_ATTRIBUTES =
     [attr ''type'' ''enum'' ''Feature matcher family.'' (Some (JStr ''nn-mutual''))
        [''nn-mutual'', ''nn-ratio'', ''superglue'', ''lightglue'', ''loftr'', ''mast3r''] None None,
      use_gpu,
      attr ''cross_check'' ''bool'' ''Require reciprocal nearest neighbors.''
        (Some (JBool True)) [] None None,
      attr ''max_ratio'' ''float'' ''Lowe ratio threshold.''
        (Some (JFloat (Fin (3602879701896397 / 4503599627370496)))) []
        (Some (NumF (Fin 0))) (Some (NumF (Fin 1))),
      attr ''max_distance'' ''float'' ''Descriptor distance threshold.''
        (Some (JFloat (Fin (3152519739159347 / 4503599627370496)))) []
        (Some (NumF (Fin 0))) None]"

definition VERIFY_ATTRIBUTES :: "attribute list" where
  "VERIFY_ATTRIBUTES =
     [use_gpu,
      attr ''min_inlier_ratio'' ''float'' ''Minimum accepted inlier ratio.''
        (Some (JFloat (Fin (1 / 4)))) [] (Some (NumF (Fin 0))) (Some (NumF (Fin 1)))]"

definition MAP_ATTRIBUTES :: "attribute list" where
  "MAP_ATTRIBUTES =
     [attr ''kind'' ''enum'' ''Mapping recipe.'' (Some (JStr ''incremental''))
        [''incremental'', ''global'', ''hierarchical'', ''spherical''] None None,
      seed, max_runtime_seconds]"

definition MAP_FEED_FORWARD_ATTRIBUTES :: "attribute list" where
  "MAP_FEED_FORWARD_ATTRIBUTES = [seed, max_runtime_seconds]"

definition REFINE_ATTRIBUTES :: "attribute list" where
  "REFINE_ATTRIBUTES =
     [attr ''mode'' ''enum'' ''Bundle-adjustment mode.'' (Some (JStr ''standard''))
        [''standard'', ''two_stage'', ''featuremetric'', ''rig''] None None,
      attr ''max_num_iterations'' ''int'' ''Maximum solver iterations.''
        (Some (JInt 100)) [] (Some (NumI 1)) None]"

section \<open>The core processors\<close>

definition proc ::
  "string \<Rightarrow> string \<Rightarrow> port_spec dict \<Rightarrow> port_spec dict \<Rightarrow> attribute list \<Rightarrow> string
     \<Rightarrow> string list \<Rightarrow> string option \<Rightarrow> processor" where
  "proc i t ins outs attrs desc caps stage =
     \<lparr>pr_id = i, pr_title = t, pr_consumer = ins, pr_supplier = outs, pr_attributes = attrs,
      pr_description = desc, pr_capabilities = caps, pr_config_stage = stage, pr_aliases = [],
      pr_special_inputs = [], pr_special_attributes = []\<rparr>"

definition CORE_PROCESSORS :: "processor list" where
  "CORE_PROCESSORS =
     [proc ''features'' ''Feature extraction''
        [(''images'', port ''image_sequence'' ''Captured image sequence.'')]
        [(''features'', port ''feature_set'' ''Per-image keypoints and descriptors.'')]
        FEATURE_ATTRIBUTES ''Detect keypoints + compute descriptors per image.''
        [''features.extract''] (Some ''features''),
      proc ''pairs'' ''Pair selection''
        [(''features'', port ''feature_set'' ''Feature set used for retrieval or metadata.'')]
        [(''pairs'', port ''pair_set'' ''Selected image pairs.'')]
        PAIR_ATTRIBUTES ''Choose which image pairs to match (exhaustive, retrieval, ...).''
        [''pairs''] (Some ''pairs''),
      proc ''matches'' ''Feature matching''
        [(''features'', port ''feature_set'' ''Features to match.''),
         (''pairs'', port ''pair_set'' ''Image pairs to evaluate.'')]
        [(''matches'', port ''match_graph'' ''Raw feature correspondences.'')]
        MATCH_ATTRIBUTES ''Match features across the selected pairs.''
        [''matchers'', ''match.detector_free'', ''keypoints.persistent''] (Some ''matcher''),
      proc ''verify'' ''Geometric verification''
        [(''matches'', port ''match_graph'' ''Candidate correspondences.'')]
        [(''matches'', port ''match_graph'' ''Geometrically verified correspondences.'')]
        VERIFY_ATTRIBUTES ''Filter matches by two-view geometry.''
        [''matches.verify'', ''geometry.two_view''] (Some ''verify''),
      proc ''map'' ''Mapping (SfM)''
        [(''features'', port ''feature_set'' ''Feature observations.''),
         (''matches'', port ''match_graph'' ''Verified correspondences.'')]
        [(''model'', port ''sparse_model'' ''Sparse reconstruction model.'')]
        MAP_ATTRIBUTES ''Reconstruct camera poses + sparse points (incremental, global, ...).''
        [''map''] (Some ''mapping''),
      proc ''map_feed_forward'' ''Feed-forward mapping''
        [(''images'', port ''image_sequence'' ''Captured image sequence.'')]
        [(''model'', port ''sparse_model'' ''Sparse reconstruction model.'')]
        MAP_FEED_FORWARD_ATTRIBUTES
        ''Map raw views directly with a feed-forward model (no correspondence stage).''
        [''map.feed_forward''] (Some ''mapping''),
      proc ''triangulate'' ''Triangulation''
        [(''model'', port ''sparse_model'' ''Existing sparse model.''),
         (''matches'', port ''match_graph'' ''Additional correspondences.'')]
        [(''model'', port ''sparse_model'' ''Sparse model with added points.'')]
        [] ''Triangulate additional 3D points into an existing model.'' [''triangulate''] None,
      proc ''refine'' ''Bundle adjustment''
        [(''model'', port ''sparse_model'' ''Sparse model to refine.'')]
        [(''model'', port ''sparse_model'' ''Refined sparse model.'')]
        REFINE_ATTRIBUTES ''Jointly refine camera poses, intrinsics, and 3D points.''
        [''ba''] (Some ''bundle_adjustment''),
      proc ''optimize_poses'' ''Pose-graph optimization''
        [(''model'', port ''sparse_model'' ''Sparse model to optimize.'')]
        [(''model'', port ''sparse_model'' ''Pose-optimized sparse model.'')]
        [] ''Optimize the pose graph of a reconstruction.'' [''pgo''] None,
      proc ''relocalize'' ''Relocalization''
        [(''model'', port ''sparse_model'' ''Reference sparse model.'')]
        [(''model'', port ''sparse_model'' ''Sparse model with registered images.'')]
        [] ''Register additional images into an existing reconstruction.'' [''relocalize''] None,
      proc ''merge'' ''Reconstruction merge''
        [(''model'', (port ''sparse_model'' ''Sparse model component.'')\<lparr>ps_multiple := True\<rparr>)]
        [(''model'', port ''sparse_model'' ''Merged sparse model.'')]
        [] ''Merge disconnected submodels into one reconstruction.'' [''recon.merge''] None,
      proc ''georegister'' ''Georegistration''
        [(''model'', port ''sparse_model'' ''Sparse model to align.'')]
        [(''model'', port ''sparse_model'' ''Georegistered sparse model.'')]
        [] ''Align a reconstruction to a geographic / metric frame.'' [''georegister''] None,
      proc ''undistort'' ''Undistortion''
        [(''model'', port ''sparse_model'' ''Sparse model with source cameras.'')]
        [(''model'', port ''sparse_model'' ''Sparse model with adjusted intrinsics.'')]
        [] ''Undistort images and emit adjusted intrinsics.'' [''image.undistort''] None,
      proc ''project'' ''Reprojection''
        [(''images'', port ''image_sequence'' ''Images to reproject.'')]
        [(''projection'', port ''projection'' ''Projected image set.'')]
        [] ''Reproject images between equirectangular / cubemap / perspective.''
        [''projection'', ''spherical''] None]"

section \<open>Checks run when the module is loaded\<close>

definition registry_checks :: "(bool \<times> string) list" where
  "registry_checks =
     (let ids = map pr_id CORE_PROCESSORS; aliases = concat (map pr_aliases CORE_PROCESSORS) in
      [(\<not> distinct ids, ''duplicate core processor id''),
       (\<not> distinct aliases, ''duplicate core processor alias''),
       (set aliases \<inter> set ids \<noteq> {}, ''processor alias collides with a processor id'')])"

definition role_ok :: "string \<Rightarrow> bool" where
  "role_ok = dollar lower_ident"

definition port_checks ::
  "contract_env \<Rightarrow> processor \<Rightarrow> string \<times> port_spec dict \<Rightarrow> (bool \<times> string) list" where
  "port_checks E p g =
     (let n = ''processor '' @ py_repr (pr_id p) in
      concat (map (\<lambda>(role, ps).
        [(\<not> role_ok role, n @ '' has invalid '' @ fst g @ '' role '' @ py_repr role),
         (\<not> is_data_type E (ps_datatype ps),
          n @ '' references unknown DataType '' @ py_repr (ps_datatype ps))]) (snd g)))"

definition validate_processor :: "contract_env \<Rightarrow> processor \<Rightarrow> string + unit" where
  "validate_processor E p =
     (let n = ''processor '' @ py_repr (pr_id p) in
      raise_first
        (concat (map (port_checks E p)
           [(''consumer'', pr_consumer p), (''supplier'', pr_supplier p),
            (''special_inputs'', pr_special_inputs p)]) @
         [(\<exists>r \<in> set (keys (pr_consumer p)). r \<in> set (keys (pr_special_inputs p)),
           n @ '' has colliding core/special input roles''),
          (\<not> distinct (map at_name (pr_attributes p @ pr_special_attributes p)),
           n @ '' has duplicate attributes''),
          (case pr_config_stage p of None \<Rightarrow> False | Some s \<Rightarrow> s \<notin> set CONFIG_STAGES,
           n @ '' has unknown config_stage '' @
             (case pr_config_stage p of None \<Rightarrow> ''None'' | Some s \<Rightarrow> py_repr s))]))"

text \<open>Loading the module: the attribute constructors, the registry tests, every processor.\<close>

definition load_registry :: "contract_env \<Rightarrow> string + unit" where
  "load_registry E =
     andthen (each (attribute_post_init E) (concat (map pr_attributes CORE_PROCESSORS))) (\<lambda>_.
     andthen (raise_first registry_checks) (\<lambda>_.
     each (validate_processor E) CORE_PROCESSORS))"

section \<open>Lookups\<close>

definition PROCESSORS_BY_ID :: "processor dict" where
  "PROCESSORS_BY_ID = update_all [] (map (\<lambda>p. (pr_id p, p)) CORE_PROCESSORS)"

definition PROCESSOR_ALIASES :: "string dict" where
  "PROCESSOR_ALIASES =
     update_all [] (concat (map (\<lambda>p. map (\<lambda>a. (a, pr_id p)) (pr_aliases p)) CORE_PROCESSORS))"

definition processor_for :: "string \<Rightarrow> processor option" where
  "processor_for i =
     map_of PROCESSORS_BY_ID (case map_of PROCESSOR_ALIASES i of None \<Rightarrow> i | Some j \<Rightarrow> j)"

definition families :: "string dict" where
  "families =
     update_all [] (concat (map (\<lambda>p. map (\<lambda>f. (f, pr_id p)) (pr_capabilities p)) CORE_PROCESSORS))"

text \<open>\<open>capability == family or capability.startswith(family + ".")\<close>.\<close>

definition in_family :: "string \<Rightarrow> string \<Rightarrow> bool" where
  "in_family cap family \<longleftrightarrow> cap = family \<or> prefix (family @ ''.'') cap"

text \<open>\<open>sorted(d, key=len, reverse=True)\<close>: longest first, ties in the order of the dictionary.\<close>

definition longest_first :: "string list \<Rightarrow> string list" where
  "longest_first fs = rev (sort_key length (rev fs))"

definition processor_for_capability :: "string \<Rightarrow> string option" where
  "processor_for_capability cap =
     (case find (in_family cap) (longest_first (keys families)) of
        None \<Rightarrow> None | Some f \<Rightarrow> map_of families f)"

definition processors_for_capabilities :: "string list \<Rightarrow> string set" where
  "processors_for_capabilities caps = set (List.map_filter processor_for_capability caps)"

definition processors_contract :: json where
  "processors_contract =
     JObj [(''contract'', JStr ''processors''), (''contract_schema_version'', JInt 1),
       (''processors'', JList (map processor_contract CORE_PROCESSORS)),
       (''rules'', JObj
         [(''composition'', JStr (''A.supplier[out] -> B.consumer[in] is legal iff their '' @
             ''PortSpec.datatype values match exactly; current match_graph '' @
             ''verification is a compatibility refinement captured by the '' @
             ''Pipeline contract until raw/verified match graphs split.'')),
          (''port_datatype'', JStr ''singular''), (''plugin_core_contract'', JStr ''closed''),
          (''special_inputs'', JStr ''optional'')])]"

text \<open>\<open>core/operations.py\<close> renames the lookups and projects the registry.\<close>

definition operation_for :: "string \<Rightarrow> processor option" where
  "operation_for op_id = processor_for op_id"

definition operation_for_capability :: "string \<Rightarrow> string option" where
  "operation_for_capability cap = processor_for_capability cap"

definition operations_for_capabilities :: "string list \<Rightarrow> string set" where
  "operations_for_capabilities caps = processors_for_capabilities caps"

definition operations_contract :: json where
  "operations_contract =
     JObj [(''contract'', JStr ''operations''), (''contract_schema_version'', JInt 1),
       (''operations'', JList (map operation_contract CORE_PROCESSORS)),
       (''compatibility'', JObj
         [(''native_contract'', JStr ''processors''), (''status'', JStr ''legacy_projection'')])]"

section \<open>The registry, evaluated\<close>

lemmas core_tables =
  CORE_PROCESSORS_def proc_def port_def FEATURE_ATTRIBUTES_def PAIR_ATTRIBUTES_def
  MATCH_ATTRIBUTES_def VERIFY_ATTRIBUTES_def MAP_ATTRIBUTES_def MAP_FEED_FORWARD_ATTRIBUTES_def
  REFINE_ATTRIBUTES_def attr_def use_gpu_def seed_def max_runtime_seconds_def

lemma core_ids_distinct: "distinct (map pr_id CORE_PROCESSORS)"
  by code_simp

lemma no_aliases: "PROCESSOR_ALIASES = []"
  by code_simp

lemma update_fresh: "k \<notin> set (map fst d) \<Longrightarrow> AList.update k v d = d @ [(k, v)]"
  by (induction d) auto

lemma update_all_distinct:
  "distinct (map fst d @ map fst kvs) \<Longrightarrow> update_all d kvs = d @ kvs"
proof (induction d kvs rule: update_all.induct)
  case (2 d k v kvs)
  then show ?case using update_fresh [of k d v] by auto
qed simp

lemma processors_by_id: "PROCESSORS_BY_ID = map (\<lambda>p. (pr_id p, p)) CORE_PROCESSORS"
  unfolding PROCESSORS_BY_ID_def using core_ids_distinct
  by (subst update_all_distinct) (simp_all add: comp_def)

lemma processor_for_iff:
  "processor_for i = Some p \<longleftrightarrow> p \<in> set CORE_PROCESSORS \<and> pr_id p = i"
proof -
  have "distinct (map fst PROCESSORS_BY_ID)"
    using core_ids_distinct by (simp add: processors_by_id comp_def)
  then show ?thesis
    by (auto simp: processor_for_def no_aliases map_of_eq_Some_iff processors_by_id)
qed

lemma core_attributes_ok:
  "list_all (\<lambda>a. attribute_post_init E a = Inr ()) (concat (map pr_attributes CORE_PROCESSORS))"
  by (simp add: core_tables attribute_post_init_def raise_first_all attribute_checks_def Let_def
      ATTRIBUTE_TYPES_def numeric_type_def type_ok_def py_str below_def above_def num_less_def
      min_over_max_def)

lemma registry_checks_ok: "raise_first registry_checks = Inr ()"
  by code_simp

definition core_datatypes :: "string list" where
  "core_datatypes = [''image_sequence'', ''feature_set'', ''pair_set'', ''match_graph'',
     ''sparse_model'', ''projection'']"

text \<open>The part of the processor check that does not ask the data type registry.\<close>

definition all_ports :: "processor \<Rightarrow> (string \<times> port_spec) list" where
  "all_ports p = pr_consumer p @ pr_supplier p @ pr_special_inputs p"

definition processor_static_ok :: "processor \<Rightarrow> bool" where
  "processor_static_ok p \<longleftrightarrow>
     list_all (\<lambda>(role, ps). role_ok role) (all_ports p) \<and>
     list_all (\<lambda>r. r \<notin> set (keys (pr_special_inputs p))) (keys (pr_consumer p)) \<and>
     distinct (map at_name (pr_attributes p @ pr_special_attributes p)) \<and>
     (case pr_config_stage p of None \<Rightarrow> True | Some s \<Rightarrow> s \<in> set CONFIG_STAGES)"

lemma port_checks_ok:
  "list_all (\<lambda>c. \<not> fst c) (port_checks E p g) \<longleftrightarrow>
     list_all (\<lambda>(role, ps). role_ok role) (snd g) \<and>
     list_all (\<lambda>(role, ps). is_data_type E (ps_datatype ps)) (snd g)"
  by (simp add: port_checks_def Let_def list_all_concat list.pred_map comp_def case_prod_unfold
      list_all_conj del: append.simps)

lemma validate_processor_ok:
  "validate_processor E p = Inr () \<longleftrightarrow>
     processor_static_ok p \<and> list_all (\<lambda>(role, ps). is_data_type E (ps_datatype ps)) (all_ports p)"
  unfolding validate_processor_def Let_def raise_first_all
  by (auto simp: port_checks_ok processor_static_ok_def all_ports_def comp_def list_all_concat
      list.pred_map list_all_iff [of _ "keys _"] split: option.splits)

lemma core_static_ok: "list_all processor_static_ok CORE_PROCESSORS"
  by code_simp

lemma core_port_types:
  "sorted_set (map (ps_datatype \<circ> snd) (concat (map all_ports CORE_PROCESSORS))) = sorted_set core_datatypes"
  by code_simp

section \<open>The longest family\<close>

lemma set_longest_first [simp]: "set (longest_first fs) = set fs"
  by (simp add: longest_first_def)

lemma longest_first_sorted: "sorted_wrt (\<lambda>a b. length b \<le> length a) (longest_first fs)"
  unfolding longest_first_def sorted_wrt_rev
  using sorted_sort_key [of length "rev fs"] by (simp add: sorted_map)

lemma find_sorted_wrt:
  assumes "sorted_wrt R xs" and "find P xs = Some x"
  shows "x \<in> set xs \<and> P x \<and> (\<forall>y \<in> set xs. P y \<longrightarrow> y = x \<or> R x y)"
  using assms by (induction xs) (auto split: if_splits)

lemma families_map: "map_of families f \<noteq> None \<longleftrightarrow> f \<in> set (keys families)"
  by (simp add: keys_def map_of_eq_None_iff)

section \<open>Properties\<close>

text \<open>
  The module loads exactly when the data type registry knows the six types the core
  processors name: every attribute table is well-formed, the ids are unique, and every
  processor passes its check; then the lookup by id finds exactly the core processors.
\<close>

theorem registry_loads:
  "(load_registry E = Inr () \<longleftrightarrow> list_all (is_data_type E) core_datatypes) \<and>
   (processor_for i = Some p \<longleftrightarrow> p \<in> set CORE_PROCESSORS \<and> pr_id p = i)"
proof
  have t: "set (map (ps_datatype \<circ> snd) (concat (map all_ports CORE_PROCESSORS))) = set core_datatypes"
    using arg_cong [OF core_port_types, of set] by simp
  have a: "each (attribute_post_init E) (concat (map pr_attributes CORE_PROCESSORS)) = Inr ()"
    using core_attributes_ok [of E] by (simp add: each_Inr list_all_iff)
  have "load_registry E = Inr () \<longleftrightarrow> (\<forall>p \<in> set CORE_PROCESSORS. validate_processor E p = Inr ())"
    unfolding load_registry_def a registry_checks_ok by (simp add: each_Inr)
  also have "\<dots> \<longleftrightarrow> (\<forall>d \<in> set (map (ps_datatype \<circ> snd) (concat (map all_ports CORE_PROCESSORS))).
      is_data_type E d)"
    using core_static_ok by (fastforce simp: validate_processor_ok list_all_iff)
  finally show "load_registry E = Inr () \<longleftrightarrow> list_all (is_data_type E) core_datatypes"
    unfolding t by (simp add: list_all_iff)
  show "processor_for i = Some p \<longleftrightarrow> p \<in> set CORE_PROCESSORS \<and> pr_id p = i"
    by (rule processor_for_iff)
qed

text \<open>
  A capability belongs to the processor that declares the longest family equal to it or
  a dotted prefix of it, and to no processor exactly when no family fits.
\<close>

theorem capability_longest_family:
  "case processor_for_capability cap of
     None \<Rightarrow> \<not> (\<exists>f \<in> set (keys families). in_family cap f)
   | Some i \<Rightarrow> \<exists>f. map_of families f = Some i \<and> in_family cap f \<and>
       (\<nexists>g. g \<in> set (keys families) \<and> in_family cap g \<and> length f \<le> length g \<and> g \<noteq> f)"
proof (cases "find (in_family cap) (longest_first (keys families))")
  case None
  then have "\<not> (\<exists>f \<in> set (keys families). in_family cap f)"
    by (auto simp: find_None_iff)
  with None show ?thesis by (simp add: processor_for_capability_def)
next
  case (Some f)
  have m: "f \<in> set (keys families)" "in_family cap f"
    "\<forall>g \<in> set (keys families). in_family cap g \<longrightarrow> g = f \<or> length g \<le> length f"
    using find_sorted_wrt [OF longest_first_sorted Some] by auto
  then obtain i where i: "map_of families f = Some i"
    using families_map by blast
  have "g = f" if "in_family cap g" "length g = length f" for g
    using that m(2) by (auto simp: in_family_def prefix_def)
  with m(3) have "\<nexists>g. g \<in> set (keys families) \<and> in_family cap g \<and> length f \<le> length g \<and> g \<noteq> f"
    by (metis le_antisym)
  with m(2) i show ?thesis
    by (auto simp: processor_for_capability_def Some)
qed

end
