(* ===== verification/Pipelines.thy ===== *)
theory Pipelines
  imports Processors
begin

text \<open>
  \<open>core/pipelines.py\<close>: typed compositions of processors. A pipeline is a list of steps whose
  consumer ports are wired, by name or by the only supply of the type, to the supplier ports
  of earlier steps or to the initial inputs. The processor lookup is an argument (\<open>lk\<close>), as
  in the code.
\<close>

section \<open>Steps, supplies and errors\<close>

definition DEFAULT_INITIAL_INPUTS :: "string list" where
  "DEFAULT_INITIAL_INPUTS = [''image_sequence'']"

record chain_error =
  ce_where :: string
  ce_message :: string
  ce_reason :: "string option"
  ce_path :: "string option"

record pipeline_step =
  st_ref :: string
  st_processor :: string
  st_attributes :: "json dict"
  st_wires :: "json dict"

type_synonym lookup = "string \<Rightarrow> processor option"

record supplied =
  su_ref :: string
  su_port :: string
  su_datatype :: string
  su_verified :: bool

definition wire_ref :: "supplied \<Rightarrow> string" where
  "wire_ref s = su_ref s @ ''.'' @ su_port s"

definition CANONICAL_PIPELINES :: "string list dict" where
  "CANONICAL_PIPELINES =
     [(''sfm'', [''features'', ''pairs'', ''matches'', ''verify'', ''map'']),
      (''feed_forward'', [''map_feed_forward''])]"

definition mk_chain_error :: "string \<Rightarrow> string \<Rightarrow> string \<Rightarrow> string \<Rightarrow> chain_error" where
  "mk_chain_error w msg reason path =
     \<lparr>ce_where = w, ce_message = msg, ce_reason = Some reason, ce_path = Some path\<rparr>"

definition requires_verified :: "string \<Rightarrow> string \<Rightarrow> bool" where
  "requires_verified proc_id role \<longleftrightarrow>
     (proc_id = ''map'' \<or> proc_id = ''triangulate'') \<and> role = ''matches''"

definition processor_consumer :: "processor \<Rightarrow> port_spec dict" where
  "processor_consumer p = update_all (pr_consumer p) (pr_special_inputs p)"

definition processor_attributes :: "processor \<Rightarrow> attribute list" where
  "processor_attributes p = pr_attributes p @ pr_special_attributes p"

definition step_supply :: "pipeline_step \<Rightarrow> string \<Rightarrow> string \<Rightarrow> supplied" where
  "step_supply st role datatype =
     \<lparr>su_ref = st_ref st, su_port = role, su_datatype = datatype,
      su_verified = (st_processor st = ''verify'' \<and> role = ''matches'' \<and> datatype = ''match_graph'')\<rparr>"

section \<open>The flat validator of operation lists\<close>

text \<open>
  The counter of available types is the list of the types supplied so far; its sorted keys
  are the sorted set of the list.
\<close>

definition legacy_port_errors ::
  "string list \<Rightarrow> nat \<Rightarrow> nat \<Rightarrow> string \<Rightarrow> string \<times> port_spec \<Rightarrow> chain_error list" where
  "legacy_port_errors available verified i op_id rp =
     (let role = fst rp; ps = snd rp; n = count_list available (ps_datatype ps);
          w = ''step '' @ str_of_nat i @ '' '' @ quoted op_id; path = ''steps.'' @ str_of_nat i in
      (if ps_multiple ps \<and> ps_required ps \<and> n = 1 then
         [mk_chain_error w (''consumer port '' @ quoted role @ '' requires at least two inputs'')
            ''invalid_fan_in'' path] else []) @
      (if requires_verified op_id role \<and> 0 < n \<and> verified = 0 then
         [mk_chain_error w (''consumer port '' @ quoted role @ '' requires verified match_graph input'')
            ''unverified_match_graph'' path] else []))"

definition legacy_op_errors ::
  "string list \<Rightarrow> nat \<Rightarrow> nat \<Rightarrow> string \<Rightarrow> processor \<Rightarrow> chain_error list" where
  "legacy_op_errors available verified i op_id p =
     (let missing = filter (\<lambda>t. count_list available t = 0) (consumes p) in
      (if missing \<noteq> [] then
         [mk_chain_error (''step '' @ str_of_nat i @ '' '' @ quoted op_id)
            (''missing input(s): '' @ joins '', '' missing @
             ''; upstream produced: '' @ joins '', '' (sorted_set available))
            ''missing_required_port'' (''steps.'' @ str_of_nat i)] else []) @
      concat (map (legacy_port_errors available verified i op_id) (pr_consumer p)))"

fun legacy_loop ::
  "lookup \<Rightarrow> string list \<Rightarrow> nat \<Rightarrow> nat \<Rightarrow> string list \<Rightarrow> chain_error list" where
  "legacy_loop lk available verified i [] = []"
| "legacy_loop lk available verified i (op_id # ops) =
     (case lk op_id of
        None \<Rightarrow>
          mk_chain_error (''step '' @ str_of_nat i) (''unknown operation '' @ quoted op_id)
            ''unknown_processor'' (''steps.'' @ str_of_nat i) #
          legacy_loop lk available verified (Suc i) ops
      | Some p \<Rightarrow>
          legacy_op_errors available verified i op_id p @
          legacy_loop lk (available @ produces p)
            (verified + (if op_id = ''verify'' then count_list (produces p) ''match_graph'' else 0))
            (Suc i) ops)"

definition legacy_validate_pipeline ::
  "string list \<Rightarrow> string list \<Rightarrow> lookup \<Rightarrow> chain_error list" where
  "legacy_validate_pipeline op_ids initial_inputs lk = legacy_loop lk initial_inputs 0 0 op_ids"

section \<open>Wires\<close>

definition parse_wire_ref :: "json \<Rightarrow> (string \<times> string) option" where
  "parse_wire_ref v =
     (case v of
        JStr s \<Rightarrow>
          if CHR ''.'' \<notin> set s then None
          else if prefix ''inputs.'' s then
            (let p = drop 7 s in if p = [] then None else Some (''inputs'', p))
          else
            (let r = rbefore CHR ''.'' s; p = rafter CHR ''.'' s in
             if r = [] \<or> p = [] then None else Some (r, p))
      | _ \<Rightarrow> None)"

fun wire_list :: "json \<Rightarrow> json list option" where
  "wire_list (JList xs) = Some xs"
| "wire_list _ = None"

definition wire_values :: "json \<Rightarrow> port_spec \<Rightarrow> json list" where
  "wire_values raw ps =
     (if ps_multiple ps then (case wire_list raw of Some xs \<Rightarrow> xs | None \<Rightarrow> [raw]) else [raw])"

definition available_datatypes :: "supplied list \<Rightarrow> string" where
  "available_datatypes available = joins '', '' (sorted_set (map su_datatype available))"

section \<open>The validator of named ports\<close>

text \<open>\<open>available\<close> and \<open>by_wire\<close>.\<close>

type_synonym supplies = "supplied list \<times> (string \<rightharpoonup> supplied)"

text \<open>Where a step's errors are reported: its label, its path and its processor.\<close>

definition step_label :: "nat \<Rightarrow> pipeline_step \<Rightarrow> string" where
  "step_label i st = ''step '' @ str_of_nat i @ '' '' @ quoted (st_ref st)"

definition step_path :: "nat \<Rightarrow> string" where
  "step_path i = ''steps.'' @ str_of_nat i"

definition wire_error ::
  "nat \<Rightarrow> pipeline_step \<Rightarrow> string \<Rightarrow> string \<Rightarrow> string \<Rightarrow> chain_error" where
  "wire_error i st role msg reason =
     mk_chain_error (step_label i st) msg reason (step_path i @ ''.wires.'' @ role)"

text \<open>One value of a wire: its errors, and its key when it names a supply.\<close>

definition check_wire ::
  "(string \<rightharpoonup> supplied) \<Rightarrow> nat \<Rightarrow> pipeline_step \<Rightarrow> string \<Rightarrow> port_spec \<Rightarrow> json
     \<Rightarrow> chain_error list \<times> string list" where
  "check_wire by_wire i st role ps v =
     (case parse_wire_ref v of
        None \<Rightarrow>
          ([wire_error i st role
              (''wire for port '' @ quoted role @ '' must be '' @ quoted ''step_ref.supplier_port'')
              ''unknown_port''], [])
      | Some (r, p) \<Rightarrow>
          (case by_wire (r @ ''.'' @ p) of
             None \<Rightarrow>
               ([wire_error i st role (''unknown supplier port '' @ quoted (r @ ''.'' @ p))
                   ''unknown_port''], [])
           | Some s \<Rightarrow>
               (if su_datatype s \<noteq> ps_datatype ps then
                  [wire_error i st role
                     (''datatype mismatch for port '' @ quoted role @ '': expected '' @
                      ps_datatype ps @ '', got '' @ su_datatype s) ''datatype_mismatch'']
                else if requires_verified (st_processor st) role \<and> \<not> su_verified s then
                  [wire_error i st role
                     (''consumer port '' @ quoted role @ '' requires verified match_graph input'')
                     ''unverified_match_graph'']
                else [], [wire_ref s])))"

definition wired_port_errors ::
  "(string \<rightharpoonup> supplied) \<Rightarrow> nat \<Rightarrow> pipeline_step \<Rightarrow> string \<Rightarrow> port_spec \<Rightarrow> json \<Rightarrow> chain_error list" where
  "wired_port_errors by_wire i st role ps raw =
     (let vs = wire_values raw ps; port = ''consumer port '' @ quoted role in
      if \<not> ps_multiple ps \<and> wire_list raw \<noteq> None then
        [wire_error i st role (port @ '' does not accept multiple inputs'') ''invalid_fan_in'']
      else if vs = [] \<and> ps_required ps then
        [wire_error i st role
           (''missing required input port '' @ quoted role @ '' ('' @ ps_datatype ps @ '')'')
           ''missing_required_port'']
      else if ps_multiple ps \<and> ps_required ps \<and> length vs = 1 then
        [wire_error i st role (port @ '' requires at least two inputs'') ''invalid_fan_in'']
      else
        (let rs = map (check_wire by_wire i st role ps) vs; ks = concat (map snd rs) in
         concat (map fst rs) @
         (if ps_multiple ps \<and> length (remdups ks) \<noteq> length ks then
            [wire_error i st role (port @ '' does not accept duplicate inputs'') ''invalid_fan_in'']
          else if ps_multiple ps \<and> ps_required ps \<and> length (remdups ks) < 2 then
            [wire_error i st role (port @ '' requires at least two distinct inputs'')
               ''invalid_fan_in'']
          else [])))"

definition unwired_port_errors ::
  "supplied list \<Rightarrow> nat \<Rightarrow> pipeline_step \<Rightarrow> string \<Rightarrow> port_spec \<Rightarrow> chain_error list" where
  "unwired_port_errors available i st role ps =
     (let cs = filter (\<lambda>s. su_datatype s = ps_datatype ps) available;
          port = ''consumer port '' @ quoted role in
      if \<not> ps_required ps then []
      else if cs = [] then
        [wire_error i st role
           (''missing input(s): '' @ ps_datatype ps @ ''; upstream produced: '' @
            available_datatypes available) ''missing_required_port'']
      else if ps_multiple ps \<and> length cs = 1 then
        [wire_error i st role (port @ '' requires at least two inputs'') ''invalid_fan_in'']
      else if ps_multiple ps \<and> length (remdups (map wire_ref cs)) < 2 then
        [wire_error i st role (port @ '' requires at least two distinct inputs'') ''invalid_fan_in'']
      else if \<not> ps_multiple ps \<and> 1 < length cs then
        [wire_error i st role
           (''ambiguous input for port '' @ quoted role @ '' ('' @ ps_datatype ps @ ''): '' @
            joins '', '' (map wire_ref cs)) ''ambiguous_input'']
      else if requires_verified (st_processor st) role \<and> filter su_verified cs = [] then
        [wire_error i st role (port @ '' requires verified match_graph input'')
           ''unverified_match_graph'']
      else [])"

definition port_errors ::
  "supplies \<Rightarrow> nat \<Rightarrow> pipeline_step \<Rightarrow> string \<times> port_spec \<Rightarrow> chain_error list" where
  "port_errors av i st rp =
     (case map_of (st_wires st) (fst rp) of
        Some raw \<Rightarrow> wired_port_errors (snd av) i st (fst rp) (snd rp) raw
      | None \<Rightarrow> unwired_port_errors (fst av) i st (fst rp) (snd rp))"

definition attribute_errors ::
  "contract_env \<Rightarrow> nat \<Rightarrow> pipeline_step \<Rightarrow> processor \<Rightarrow> chain_error list" where
  "attribute_errors E i st p =
     map (\<lambda>e. \<lparr>ce_where = step_label i st, ce_message = ae_message e,
               ce_reason = Some (ae_reason e), ce_path = Some (ae_path e)\<rparr>)
       (validate_attributes E (processor_attributes p) (st_attributes st)
          (step_path i @ ''.attributes'') None)"

definition step_errors ::
  "contract_env \<Rightarrow> supplies \<Rightarrow> nat \<Rightarrow> pipeline_step \<Rightarrow> processor \<Rightarrow> chain_error list" where
  "step_errors E av i st p =
     attribute_errors E i st p @
     map (\<lambda>role. wire_error i st role (''unknown consumer port '' @ quoted role) ''unknown_port'')
       (sorted_set (filter (\<lambda>r. r \<notin> set (keys (processor_consumer p))) (keys (st_wires st)))) @
     concat (map (port_errors av i st) (processor_consumer p))"

definition add_supply :: "supplied \<Rightarrow> supplies \<Rightarrow> supplies" where
  "add_supply s av = (fst av @ [s], (snd av)(wire_ref s \<mapsto> s))"

definition add_supplies :: "pipeline_step \<Rightarrow> processor \<Rightarrow> supplies \<Rightarrow> supplies" where
  "add_supplies st p av =
     fold (\<lambda>(role, ps). add_supply (step_supply st role (ps_datatype ps))) (pr_supplier p) av"

definition initial_supplies :: "string list \<Rightarrow> supplies" where
  "initial_supplies inputs =
     fold add_supply
       (map (\<lambda>d. \<lparr>su_ref = ''inputs'', su_port = d, su_datatype = d, su_verified = False\<rparr>) inputs)
       ([], Map.empty)"

fun strict_loop ::
  "contract_env \<Rightarrow> lookup \<Rightarrow> supplies \<Rightarrow> string list \<Rightarrow> nat \<Rightarrow> pipeline_step list
     \<Rightarrow> chain_error list" where
  "strict_loop E lk av seen i [] = []"
| "strict_loop E lk av seen i (st # sts) =
     (if st_ref st \<in> set seen then
        mk_chain_error (step_label i st) (''duplicate step ref '' @ quoted (st_ref st))
          ''duplicate_step_ref'' (step_path i @ ''.ref'') #
        strict_loop E lk av seen (Suc i) sts
      else
        (case lk (st_processor st) of
           None \<Rightarrow>
             mk_chain_error (step_label i st) (''unknown processor '' @ quoted (st_processor st))
               ''unknown_processor'' (step_path i @ ''.processor'') #
             strict_loop E lk av (st_ref st # seen) (Suc i) sts
         | Some p \<Rightarrow>
             step_errors E av i st p @
             strict_loop E lk (add_supplies st p av) (st_ref st # seen) (Suc i) sts))"

definition strict_validate_pipeline ::
  "contract_env \<Rightarrow> pipeline_step list \<Rightarrow> string list \<Rightarrow> lookup \<Rightarrow> chain_error list" where
  "strict_validate_pipeline E steps inputs lk =
     map (\<lambda>d. mk_chain_error ''inputs'' (''duplicate initial input datatype '' @ quoted d)
            ''duplicate_initial_input'' ''initial_inputs'') (duplicates inputs) @
     strict_loop E lk (initial_supplies inputs) [''inputs''] 0 steps"

text \<open>\<open>validate_pipeline\<close>: a list of operation ids or of steps.\<close>

datatype pipeline_input = Ops "string list" | Steps "pipeline_step list"

definition validate_pipeline ::
  "contract_env \<Rightarrow> pipeline_input \<Rightarrow> string list \<Rightarrow> lookup option \<Rightarrow> chain_error list" where
  "validate_pipeline E steps inputs lookup =
     (let lk = (case lookup of None \<Rightarrow> processor_for | Some l \<Rightarrow> l) in
      case steps of
        Ops ops \<Rightarrow> if ops = [] then [] else legacy_validate_pipeline ops inputs lk
      | Steps sts \<Rightarrow> if sts = [] then [] else strict_validate_pipeline E sts inputs lk)"

definition validate_step_attributes ::
  "contract_env \<Rightarrow> pipeline_step list \<Rightarrow> lookup option \<Rightarrow> chain_error list" where
  "validate_step_attributes E steps lookup =
     (let lk = (case lookup of None \<Rightarrow> processor_for | Some l \<Rightarrow> l) in
      concat (map (\<lambda>(i, st). case lk (st_processor st) of
          None \<Rightarrow> [] | Some p \<Rightarrow> attribute_errors E i st p) (enumerate 0 steps)))"

section \<open>Dependencies implied by the wiring\<close>

text \<open>The supplies that the loop over one consumer port hands to \<open>add_dep\<close>, in order.\<close>

definition port_suppliers ::
  "supplies \<Rightarrow> pipeline_step \<Rightarrow> string \<times> port_spec \<Rightarrow> supplied list" where
  "port_suppliers av st rp =
     (let role = fst rp; ps = snd rp in
      case map_of (st_wires st) role of
        Some raw \<Rightarrow>
          List.map_filter
            (\<lambda>v. case parse_wire_ref v of None \<Rightarrow> None | Some (r, p) \<Rightarrow> snd av (r @ ''.'' @ p))
            (wire_values raw ps)
      | None \<Rightarrow>
          if \<not> ps_required ps then []
          else
            (let cs = filter (\<lambda>s. su_datatype s = ps_datatype ps \<and>
                 (\<not> requires_verified (st_processor st) role \<or> su_verified s)) (fst av) in
             if ps_multiple ps then cs else take 1 cs))"

definition add_dep :: "string \<Rightarrow> string list \<Rightarrow> string list" where
  "add_dep r deps = (if r \<noteq> ''inputs'' \<and> r \<notin> set deps then deps @ [r] else deps)"

definition step_deps :: "supplies \<Rightarrow> pipeline_step \<Rightarrow> processor \<Rightarrow> string list" where
  "step_deps av st p =
     fold (\<lambda>s. add_dep (su_ref s)) (concat (map (port_suppliers av st) (processor_consumer p))) []"

fun infer_loop ::
  "lookup \<Rightarrow> supplies \<Rightarrow> string list dict \<Rightarrow> pipeline_step list \<Rightarrow> string list dict" where
  "infer_loop lk av out [] = out"
| "infer_loop lk av out (st # sts) =
     (case lk (st_processor st) of
        None \<Rightarrow> infer_loop lk av (AList.update (st_ref st) [] out) sts
      | Some p \<Rightarrow>
          infer_loop lk (add_supplies st p av)
            (AList.update (st_ref st) (step_deps av st p) out) sts)"

definition inferred_step_dependencies ::
  "pipeline_step list \<Rightarrow> string list \<Rightarrow> lookup option \<Rightarrow> string list dict" where
  "inferred_step_dependencies steps inputs lookup =
     infer_loop (case lookup of None \<Rightarrow> processor_for | Some l \<Rightarrow> l) (initial_supplies inputs) [] steps"

text \<open>The contract document of the module.\<close>

definition validation_reasons :: "string list" where
  "validation_reasons =
     [''unknown_processor'', ''unknown_port'', ''unknown_attribute'', ''datatype_mismatch'',
      ''ambiguous_input'', ''missing_required_port'', ''missing_required_attribute'',
      ''invalid_attribute'', ''duplicate_initial_input'', ''unknown_datatype'',
      ''duplicate_step_ref'', ''invalid_fan_in'', ''unverified_match_graph'', ''provider_unsupported'']"

definition composition_rule :: string where
  "composition_rule =
     ''A pipeline is valid iff each Processor consumer port is wired from an '' @
     ''upstream supplier port with the same DataType. Nominal: ids match exactly; '' @
     ''a missing input requires an explicit conversion Processor, never an '' @
     ''implicit type coercion. Compatibility refinement: map/triangulate require '' @
     ''match_graph supplied by verify until raw/verified match graphs are split '' @
     ''into distinct DataTypes. Legacy operation lists retain the flat '' @
     ''availability projection for compatibility.''"

definition pipelines_contract :: json where
  "pipelines_contract =
     JObj [(''contract'', JStr ''pipelines''), (''contract_schema_version'', JInt 1),
       (''composition_rule'', JStr composition_rule),
       (''initial_inputs'', JList (map JStr DEFAULT_INITIAL_INPUTS)),
       (''canonical_pipelines'', JObj
         (map (\<lambda>(n, steps). (n, JList (map JStr steps))) (sort_key fst CANONICAL_PIPELINES))),
       (''plugin_pipelines'', JList []),
       (''step_schema'', JObj
         [(''legacy_step'', JObj
            [(''string'', JStr ''legacy operation id for validation only''),
             (''op'', JStr ''legacy operation id''),
             (''params'', JStr (''legacy alias for processor attributes; still validated '' @
                 ''against the Processor attribute schema''))]),
          (''ref'', JStr ''pipeline-local step id''),
          (''processor'', JStr ''processor_id''),
          (''attributes'',
             JStr ''attribute values bound for this step; wins over params on key overlap''),
          (''params'', JStr ''legacy alias for attributes''),
          (''wires'', JObj
            [(''consumer_port'',
                JStr ''producer_ref.supplier_port or list of refs for multiple=true ports'')])]),
       (''validation_reasons'', JList (map JStr validation_reasons))]"

end
