(* ===== verification/Pipeline_Correct.thy ===== *)
theory Pipeline_Correct
  imports Pipelines
begin

text \<open>
  What a validated pipeline guarantees: the typing judgement that the strict validator
  decides, type soundness of the wiring, the order of the inferred dependencies, the
  verification rule for mapping, and the relation between the two validators.
\<close>

section \<open>Supplies\<close>

lemma parse_wire_ref_join:
  assumes "parse_wire_ref v = Some (r, p)"
  shows "v = JStr (r @ ''.'' @ p)"
proof (cases v)
  case (JStr s)
  show ?thesis
  proof (cases "prefix ''inputs.'' s")
    case True
    then show ?thesis
      using assms JStr by (auto simp: parse_wire_ref_def Let_def prefix_def split: if_splits)
  next
    case False
    then have "CHR ''.'' \<in> set s" "r = rbefore CHR ''.'' s" "p = rafter CHR ''.'' s"
      using assms JStr by (auto simp: parse_wire_ref_def Let_def split: if_splits)
    then show ?thesis
      using rsplit_id [of "CHR ''.''" s] JStr by simp
  qed
qed (use assms in \<open>simp_all add: parse_wire_ref_def\<close>)

text \<open>\<open>by_wire\<close> indexes \<open>available\<close> by wire reference.\<close>

definition indexed :: "supplies \<Rightarrow> bool" where
  "indexed av \<longleftrightarrow>
     (\<forall>w s. snd av w = Some s \<longrightarrow> s \<in> set (fst av) \<and> wire_ref s = w) \<and>
     (\<forall>s \<in> set (fst av). snd av (wire_ref s) \<noteq> None)"

lemma indexed_add [intro]: "indexed av \<Longrightarrow> indexed (add_supply s av)"
  by (auto simp: indexed_def add_supply_def split: if_splits)

lemma indexed_fold: "indexed av \<Longrightarrow> indexed (fold add_supply ss av)"
  by (induction ss arbitrary: av) (simp_all add: indexed_add)

lemma fst_fold_add: "fst (fold add_supply ss av) = fst av @ ss"
  by (induction ss arbitrary: av) (auto simp: add_supply_def)

definition own_supplies :: "pipeline_step \<Rightarrow> processor \<Rightarrow> supplied list" where
  "own_supplies st p = map (\<lambda>(role, ps). step_supply st role (ps_datatype ps)) (pr_supplier p)"

lemma add_supplies_fold: "add_supplies st p av = fold add_supply (own_supplies st p) av"
  unfolding add_supplies_def own_supplies_def fold_map
  by (rule fold_cong) auto

lemma fst_add_supplies [simp]: "fst (add_supplies st p av) = fst av @ own_supplies st p"
  by (simp add: add_supplies_fold fst_fold_add)

lemma indexed_add_supplies [intro]: "indexed av \<Longrightarrow> indexed (add_supplies st p av)"
  by (simp add: add_supplies_fold indexed_fold)

lemma indexed_initial [simp]: "indexed (initial_supplies inputs)"
  unfolding initial_supplies_def by (rule indexed_fold) (simp add: indexed_def)

lemma fst_initial:
  "fst (initial_supplies inputs) =
     map (\<lambda>d. \<lparr>su_ref = ''inputs'', su_port = d, su_datatype = d, su_verified = False\<rparr>) inputs"
  by (simp add: initial_supplies_def fst_fold_add)

lemma own_supplies_ref: "s \<in> set (own_supplies st p) \<Longrightarrow> su_ref s = st_ref st"
  by (auto simp: own_supplies_def step_supply_def)

lemma own_supplies_verified:
  "s \<in> set (own_supplies st p) \<Longrightarrow> su_verified s \<Longrightarrow>
     st_processor st = ''verify'' \<and> su_datatype s = ''match_graph'' \<and> ''match_graph'' \<in> set (produces p)"
  by (force simp: own_supplies_def step_supply_def produces_def)

text \<open>The supplies after a prefix of the steps.\<close>

definition supplies_after :: "lookup \<Rightarrow> supplies \<Rightarrow> pipeline_step list \<Rightarrow> supplies" where
  "supplies_after lk = foldl (\<lambda>av st. case lk (st_processor st) of
       None \<Rightarrow> av | Some p \<Rightarrow> add_supplies st p av)"

lemma supplies_after_simps [simp]:
  "supplies_after lk av [] = av"
  "supplies_after lk av (st # sts) =
     supplies_after lk (case lk (st_processor st) of None \<Rightarrow> av | Some p \<Rightarrow> add_supplies st p av) sts"
  by (simp_all add: supplies_after_def)

lemma indexed_after: "indexed av \<Longrightarrow> indexed (supplies_after lk av sts)"
  by (induction sts arbitrary: av) (simp_all add: indexed_add_supplies split: option.split)

text \<open>Every supply is an initial input or a supplier port of an earlier step.\<close>

lemma supplies_after_origin:
  "s \<in> set (fst (supplies_after lk av sts)) \<Longrightarrow>
     s \<in> set (fst av) \<or>
     (\<exists>st p. st \<in> set sts \<and> lk (st_processor st) = Some p \<and> s \<in> set (own_supplies st p))"
proof (induction sts arbitrary: av)
  case (Cons st sts)
  show ?case
  proof (cases "lk (st_processor st)")
    case None
    with Cons.prems Cons.IH [of av] show ?thesis by auto
  next
    case (Some p)
    with Cons.prems Cons.IH [of "add_supplies st p av"] show ?thesis
      by auto
  qed
qed simp

section \<open>The typing judgement\<close>

definition fits :: "pipeline_step \<Rightarrow> string \<Rightarrow> port_spec \<Rightarrow> supplied \<Rightarrow> bool" where
  "fits st role ps s \<longleftrightarrow> su_datatype s = ps_datatype ps \<and>
     (\<not> requires_verified (st_processor st) role \<or> su_verified s)"

definition resolves ::
  "(string \<rightharpoonup> supplied) \<Rightarrow> pipeline_step \<Rightarrow> string \<Rightarrow> port_spec \<Rightarrow> json \<Rightarrow> supplied \<Rightarrow> bool" where
  "resolves by_wire st role ps v s \<longleftrightarrow>
     (\<exists>w. v = JStr w \<and> parse_wire_ref v \<noteq> None \<and> by_wire w = Some s) \<and> fits st role ps s"

text \<open>
  A named wire resolves value by value to supplies that fit the port: one for a single port,
  pairwise distinct ones, and at least two when it is required, for a multiple port.
\<close>

definition wired_typed ::
  "(string \<rightharpoonup> supplied) \<Rightarrow> pipeline_step \<Rightarrow> string \<Rightarrow> port_spec \<Rightarrow> json \<Rightarrow> supplied list \<Rightarrow> bool" where
  "wired_typed by_wire st role ps raw ss \<longleftrightarrow>
     list_all2 (resolves by_wire st role ps) (wire_values raw ps) ss \<and>
     (if ps_multiple ps then distinct (map wire_ref ss) \<and> (ps_required ps \<longrightarrow> 2 \<le> length ss)
      else wire_list raw = None)"

text \<open>
  A port without a wire takes the only supply of its type, or, when it accepts several, all
  of them, of which two differ; the verification rule asks for a verified supply among them.
\<close>

definition unwired_typed ::
  "supplied list \<Rightarrow> pipeline_step \<Rightarrow> string \<Rightarrow> port_spec \<Rightarrow> bool" where
  "unwired_typed available st role ps \<longleftrightarrow>
     (let cs = filter (\<lambda>s. su_datatype s = ps_datatype ps) available in
      ps_required ps \<longrightarrow>
        (if ps_multiple ps then 2 \<le> card (wire_ref ` set cs) else length cs = 1) \<and>
        (requires_verified (st_processor st) role \<longrightarrow> (\<exists>s \<in> set cs. su_verified s)))"

definition port_typed :: "supplies \<Rightarrow> pipeline_step \<Rightarrow> string \<times> port_spec \<Rightarrow> bool" where
  "port_typed av st rp \<longleftrightarrow>
     (case map_of (st_wires st) (fst rp) of
        Some raw \<Rightarrow> \<exists>ss. wired_typed (snd av) st (fst rp) (snd rp) raw ss
      | None \<Rightarrow> unwired_typed (fst av) st (fst rp) (snd rp))"

definition step_typed :: "contract_env \<Rightarrow> supplies \<Rightarrow> pipeline_step \<Rightarrow> processor \<Rightarrow> bool" where
  "step_typed E av st p \<longleftrightarrow>
     validate_attributes E (processor_attributes p) (st_attributes st) [] None = [] \<and>
     set (keys (st_wires st)) \<subseteq> set (keys (processor_consumer p)) \<and>
     (\<forall>rp \<in> set (processor_consumer p). port_typed av st rp)"

inductive steps_typed ::
  "contract_env \<Rightarrow> lookup \<Rightarrow> supplies \<Rightarrow> string set \<Rightarrow> pipeline_step list \<Rightarrow> bool"
  for E lk where
  Nil: "steps_typed E lk av refs []"
| Cons: "st_ref st \<notin> refs \<Longrightarrow> lk (st_processor st) = Some p \<Longrightarrow> step_typed E av st p \<Longrightarrow>
    steps_typed E lk (add_supplies st p av) (insert (st_ref st) refs) sts \<Longrightarrow>
    steps_typed E lk av refs (st # sts)"

inductive_simps steps_typed_simps [simp]:
  "steps_typed E lk av refs []"
  "steps_typed E lk av refs (st # sts)"

section \<open>The validator decides the judgement\<close>

lemma check_wire_resolves:
  assumes "resolves bw st role ps v s"
  shows "check_wire bw i st role ps v = ([], [wire_ref s])"
proof -
  obtain r p where rp: "parse_wire_ref v = Some (r, p)"
    using assms by (auto simp: resolves_def)
  then show ?thesis
    using assms parse_wire_ref_join [OF rp] by (auto simp: check_wire_def resolves_def fits_def)
qed

lemma check_wire_Nil:
  assumes "fst (check_wire bw i st role ps v) = []"
  shows "\<exists>s. resolves bw st role ps v s"
proof (cases "parse_wire_ref v")
  case None
  then show ?thesis using assms by (simp add: check_wire_def)
next
  case (Some rp)
  then obtain r p where rp: "parse_wire_ref v = Some (r, p)" by (cases rp) auto
  with parse_wire_ref_join [OF rp] assms show ?thesis
    by (auto simp: check_wire_def resolves_def fits_def split: option.splits if_splits)
qed

text \<open>A list of wires without errors resolves, and its keys are those of the supplies.\<close>

lemma check_wires_resolve:
  "list_all2 (resolves bw st role ps) vs ss \<Longrightarrow>
     concat (map fst (map (check_wire bw i st role ps) vs)) = [] \<and>
     concat (map snd (map (check_wire bw i st role ps) vs)) = map wire_ref ss"
  by (induction vs ss rule: list_all2_induct) (simp_all add: check_wire_resolves)

lemma check_wires_Nil:
  "concat (map fst (map (check_wire bw i st role ps) vs)) = [] \<Longrightarrow>
     \<exists>ss. list_all2 (resolves bw st role ps) vs ss"
proof (induction vs)
  case (Cons v vs)
  then obtain s ss where "resolves bw st role ps v s" "list_all2 (resolves bw st role ps) vs ss"
    using check_wire_Nil by fastforce
  then show ?case by (intro exI [of _ "s # ss"]) simp
qed (auto intro: exI [of _ "[]"])

lemma remdups_length: "length (remdups xs) = length xs \<longleftrightarrow> distinct xs"
  by (metis card_distinct distinct_card length_remdups_card_conv)

lemma wired_port_errors_Nil:
  "wired_port_errors bw i st role ps raw = [] \<longleftrightarrow> (\<exists>ss. wired_typed bw st role ps raw ss)"
proof -
  define vs where "vs = wire_values raw ps"
  define ks where "ks = concat (map snd (map (check_wire bw i st role ps) vs))"
  define es where "es = concat (map fst (map (check_wire bw i st role ps) vs))"
  have Nil: "wired_port_errors bw i st role ps raw = [] \<longleftrightarrow>
      (ps_multiple ps \<or> wire_list raw = None) \<and> \<not> (vs = [] \<and> ps_required ps) \<and>
      \<not> (ps_multiple ps \<and> ps_required ps \<and> length vs = 1) \<and> es = [] \<and>
      (ps_multiple ps \<longrightarrow> distinct ks \<and> (ps_required ps \<longrightarrow> 2 \<le> length (remdups ks)))"
    unfolding wired_port_errors_def Let_def vs_def [symmetric] ks_def [symmetric] es_def [symmetric]
    by (simp add: remdups_length not_less)
  show ?thesis
  proof
    assume "wired_port_errors bw i st role ps raw = []"
    then have *: "ps_multiple ps \<or> wire_list raw = None" "es = []"
      "ps_multiple ps \<longrightarrow> distinct ks \<and> (ps_required ps \<longrightarrow> 2 \<le> length (remdups ks))"
      by (simp_all add: Nil)
    then obtain ss where ss: "list_all2 (resolves bw st role ps) vs ss"
      unfolding es_def using check_wires_Nil by blast
    then have "ks = map wire_ref ss"
      unfolding ks_def using check_wires_resolve by blast
    with * ss show "\<exists>ss. wired_typed bw st role ps raw ss"
      unfolding wired_typed_def vs_def [symmetric]
      by (intro exI [of _ ss]) (auto simp: distinct_remdups_id)
  next
    assume "\<exists>ss. wired_typed bw st role ps raw ss"
    then obtain ss where ss: "list_all2 (resolves bw st role ps) vs ss"
      "if ps_multiple ps then distinct (map wire_ref ss) \<and> (ps_required ps \<longrightarrow> 2 \<le> length ss)
       else wire_list raw = None"
      unfolding wired_typed_def vs_def by blast
    have k: "es = []" "ks = map wire_ref ss"
      unfolding es_def ks_def using check_wires_resolve [OF ss(1)] by blast+
    have l: "length vs = length ss" using ss(1) by (rule list_all2_lengthD)
    have "vs \<noteq> []" if "\<not> ps_multiple ps"
      using that by (simp add: vs_def wire_values_def)
    then have "(ps_multiple ps \<or> wire_list raw = None) \<and> \<not> (vs = [] \<and> ps_required ps) \<and>
      \<not> (ps_multiple ps \<and> ps_required ps \<and> length vs = 1)"
      using ss(2) l by (auto split: if_splits)
    moreover have "ps_multiple ps \<longrightarrow> distinct ks \<and> (ps_required ps \<longrightarrow> 2 \<le> length (remdups ks))"
      using ss(2) k(2) by (simp add: distinct_remdups_id)
    ultimately show "wired_port_errors bw i st role ps raw = []"
      by (simp add: Nil k(1))
  qed
qed

lemma card_wire_refs: "length (remdups (map wire_ref cs)) = card (wire_ref ` set cs)"
  by (simp add: length_remdups_card_conv)

lemma unwired_port_errors_Nil:
  "unwired_port_errors available i st role ps = [] \<longleftrightarrow> unwired_typed available st role ps"
proof -
  define cs where "cs = filter (\<lambda>s. su_datatype s = ps_datatype ps) available"
  have c: "card (wire_ref ` set cs) < 2" if "length cs \<le> 1"
    using that card_length [of "map wire_ref cs"] by simp
  have v: "filter su_verified cs = [] \<longleftrightarrow> \<not> (\<exists>s \<in> set cs. su_verified s)"
    by (auto simp: filter_empty_conv)
  have n: "cs \<noteq> [] \<and> \<not> 1 < length cs \<longleftrightarrow> length cs = 1"
    by (cases cs) auto
  show ?thesis
    unfolding unwired_port_errors_def unwired_typed_def Let_def cs_def [symmetric] card_wire_refs v
    using c n by (cases "ps_multiple ps") auto
qed

lemma port_errors_Nil: "port_errors av i st rp = [] \<longleftrightarrow> port_typed av st rp"
  by (simp add: port_errors_def port_typed_def wired_port_errors_Nil unwired_port_errors_Nil
      split: option.splits)

text \<open>The path prefix of the attribute errors does not decide whether there are any.\<close>

lemma validate_attributes_path:
  "validate_attributes E as vs pfx lookup = [] \<longleftrightarrow> validate_attributes E as vs [] lookup = []"
proof -
  have "check_attribute E lookup pfx vs a = [] \<longleftrightarrow> check_attribute E lookup [] vs a = []" for a
    by (simp add: check_attribute_def check_value_Nil split: option.splits)
  then show ?thesis by (simp add: validate_attributes_def)
qed

lemma step_errors_Nil: "step_errors E av i st p = [] \<longleftrightarrow> step_typed E av st p"
  by (auto simp: step_errors_def step_typed_def attribute_errors_def port_errors_Nil
      filter_empty_conv validate_attributes_path [of _ _ _ "step_path i @ _"])

lemma strict_loop_Nil: "strict_loop E lk av seen i sts = [] \<longleftrightarrow> steps_typed E lk av (set seen) sts"
proof (induction sts arbitrary: av seen i)
  case (Cons st sts)
  then show ?case
    by (cases "lk (st_processor st)") (simp_all add: step_errors_Nil)
qed simp

definition pipeline_typed ::
  "contract_env \<Rightarrow> lookup \<Rightarrow> string list \<Rightarrow> pipeline_step list \<Rightarrow> bool" where
  "pipeline_typed E lk inputs steps \<longleftrightarrow>
     distinct inputs \<and> steps_typed E lk (initial_supplies inputs) {''inputs''} steps"

lemma strict_validate_Nil:
  "strict_validate_pipeline E steps inputs lk = [] \<longleftrightarrow> pipeline_typed E lk inputs steps"
  by (simp add: strict_validate_pipeline_def pipeline_typed_def strict_loop_Nil)

section \<open>Inside a typed pipeline\<close>

lemma steps_typed_refs:
  "steps_typed E lk av refs sts \<Longrightarrow>
     distinct (map st_ref sts) \<and> refs \<inter> set (map st_ref sts) = {}"
  by (induction rule: steps_typed.induct) auto

lemma steps_typed_split:
  "steps_typed E lk av refs (pre @ st # post) \<Longrightarrow>
     \<exists>p. lk (st_processor st) = Some p \<and> step_typed E (supplies_after lk av pre) st p"
proof (induction pre arbitrary: av refs)
  case (Cons a pre)
  then obtain p where "lk (st_processor a) = Some p"
    "steps_typed E lk (add_supplies a p av) (insert (st_ref a) refs) (pre @ st # post)"
    by auto
  with Cons.IH show ?case by simp
qed auto

definition before_step :: "lookup \<Rightarrow> string list \<Rightarrow> pipeline_step list \<Rightarrow> supplies" where
  "before_step lk inputs pre = supplies_after lk (initial_supplies inputs) pre"

lemma indexed_before [simp]: "indexed (before_step lk inputs pre)"
  by (simp add: before_step_def indexed_after)

text \<open>Where a supply comes from.\<close>

definition comes_from :: "lookup \<Rightarrow> string list \<Rightarrow> pipeline_step list \<Rightarrow> supplied \<Rightarrow> bool" where
  "comes_from lk inputs pre s \<longleftrightarrow>
     su_ref s = ''inputs'' \<and> su_datatype s \<in> set inputs \<and> \<not> su_verified s \<or>
     (\<exists>st p. st \<in> set pre \<and> lk (st_processor st) = Some p \<and> s \<in> set (own_supplies st p))"

lemma before_step_origin: "s \<in> set (fst (before_step lk inputs pre)) \<Longrightarrow> comes_from lk inputs pre s"
  unfolding before_step_def comes_from_def
  by (drule supplies_after_origin) (auto simp: fst_initial)

lemma resolves_supply:
  assumes "resolves (snd av) st role ps v s" and "indexed av"
  shows "(case parse_wire_ref v of None \<Rightarrow> None | Some (r, p) \<Rightarrow> snd av (r @ ''.'' @ p)) = Some s"
    and "s \<in> set (fst av)" and "fits st role ps s"
proof -
  obtain r p where rp: "parse_wire_ref v = Some (r, p)"
    using assms(1) by (auto simp: resolves_def)
  with parse_wire_ref_join [OF rp] assms
  show "(case parse_wire_ref v of None \<Rightarrow> None | Some (r, p) \<Rightarrow> snd av (r @ ''.'' @ p)) = Some s"
    by (auto simp: resolves_def)
  show "s \<in> set (fst av)" "fits st role ps s"
    using assms by (auto simp: resolves_def indexed_def)
qed

lemma map_filter_resolves:
  assumes "list_all2 (resolves (snd av) st role ps) vs ss" and "indexed av"
  shows "List.map_filter (\<lambda>v. case parse_wire_ref v of None \<Rightarrow> None
      | Some (r, p) \<Rightarrow> snd av (r @ ''.'' @ p)) vs = ss"
  using assms
proof (induction vs ss rule: list_all2_induct)
  case (Cons v vs s ss)
  then show ?case using resolves_supply(1) [OF Cons.hyps(1) Cons.prems]
    by simp
qed simp

lemma list_all2_right: "list_all2 P xs ys \<Longrightarrow> y \<in> set ys \<Longrightarrow> \<exists>x. P x y"
  by (induction xs ys rule: list_all2_induct) auto

text \<open>
  A typed port gets supplies that fit; a required one gets at least one, a single one at
  most one, and a required multiple one two distinct ones.
\<close>

definition port_served :: "supplies \<Rightarrow> pipeline_step \<Rightarrow> string \<times> port_spec \<Rightarrow> bool" where
  "port_served av st rp \<longleftrightarrow>
     (let ss = port_suppliers av st rp; ps = snd rp in
      (\<forall>s \<in> set ss. s \<in> set (fst av) \<and> fits st (fst rp) ps s) \<and>
      (ps_required ps \<longrightarrow> ss \<noteq> []) \<and> (\<not> ps_multiple ps \<longrightarrow> length ss \<le> 1) \<and>
      (ps_multiple ps \<and> ps_required ps \<and> \<not> requires_verified (st_processor st) (fst rp) \<longrightarrow>
         2 \<le> card (wire_ref ` set ss)))"

lemma wired_served:
  assumes "map_of (st_wires st) role = Some raw" and "wired_typed (snd av) st role ps raw ss"
    and "indexed av"
  shows "port_suppliers av st (role, ps) = ss \<and> port_served av st (role, ps)"
proof -
  have r: "list_all2 (resolves (snd av) st role ps) (wire_values raw ps) ss"
    using assms(2) by (simp add: wired_typed_def)
  have e: "port_suppliers av st (role, ps) = ss"
    using assms(1) map_filter_resolves [OF r assms(3)] by (simp add: port_suppliers_def Let_def)
  have a: "\<forall>s \<in> set ss. s \<in> set (fst av) \<and> fits st role ps s"
    using list_all2_right [OF r] resolves_supply(2,3) assms(3) by blast
  have l: "length ss = length (wire_values raw ps)"
    using r by (simp add: list_all2_lengthD)
  have "\<not> ps_multiple ps \<longrightarrow> length ss = 1"
    using l by (simp add: wire_values_def)
  moreover have "ps_multiple ps \<longrightarrow> distinct (map wire_ref ss) \<and> (ps_required ps \<longrightarrow> 2 \<le> length ss)"
    using assms(2) by (simp add: wired_typed_def)
  moreover have "distinct (map wire_ref ss) \<Longrightarrow> card (wire_ref ` set ss) = length ss"
    using distinct_card [of "map wire_ref ss"] by simp
  ultimately show ?thesis
    unfolding port_served_def e Let_def fst_conv snd_conv using a by force
qed

lemma unwired_served:
  assumes "map_of (st_wires st) role = None" and "unwired_typed (fst av) st role ps"
  shows "port_served av st (role, ps)"
proof (cases "ps_required ps")
  case False
  then show ?thesis using assms(1) by (simp add: port_served_def port_suppliers_def Let_def)
next
  case True
  define cs where "cs = filter (\<lambda>s. su_datatype s = ps_datatype ps) (fst av)"
  define vs where "vs = filter (\<lambda>s. su_datatype s = ps_datatype ps \<and>
     (\<not> requires_verified (st_processor st) role \<or> su_verified s)) (fst av)"
  have vs: "vs = filter (\<lambda>s. \<not> requires_verified (st_processor st) role \<or> su_verified s) cs"
    unfolding vs_def cs_def by (simp add: conj_commute)
  have t: "if ps_multiple ps then 2 \<le> card (wire_ref ` set cs) else length cs = 1"
    "requires_verified (st_processor st) role \<longrightarrow> (\<exists>s \<in> set cs. su_verified s)"
    using assms(2) True unfolding unwired_typed_def Let_def cs_def [symmetric] by blast+
  have e: "port_suppliers av st (role, ps) = (if ps_multiple ps then vs else take 1 vs)"
    using assms(1) True by (simp add: port_suppliers_def Let_def vs_def)
  have a: "\<forall>s \<in> set vs. s \<in> set (fst av) \<and> fits st role ps s"
    by (auto simp: vs_def fits_def)
  have "cs \<noteq> []" using t(1) by (auto split: if_splits)
  with t(2) have "vs \<noteq> []" by (cases "requires_verified (st_processor st) role") (auto simp: vs filter_empty_conv)
  moreover have "\<not> requires_verified (st_processor st) role \<longrightarrow> vs = cs" by (simp add: vs)
  ultimately show ?thesis
    using a t(1) unfolding port_served_def e Let_def fst_conv snd_conv
    by (auto simp: fits_def dest: in_set_takeD)
qed

lemma port_typed_served: "port_typed av st rp \<Longrightarrow> indexed av \<Longrightarrow> port_served av st rp"
  by (cases rp) (auto simp: port_typed_def wired_served unwired_served split: option.splits)

section \<open>Inferred dependencies\<close>

lemma set_add_deps:
  "set (fold (\<lambda>s. add_dep (su_ref s)) ss deps) = set deps \<union> (su_ref ` set ss - {''inputs''})"
  by (induction ss arbitrary: deps) (auto simp: add_dep_def)

lemma distinct_add_deps: "distinct deps \<Longrightarrow> distinct (fold (\<lambda>s. add_dep (su_ref s)) ss deps)"
  by (induction ss arbitrary: deps) (simp_all add: add_dep_def)

lemma set_step_deps:
  "set (step_deps av st p) =
     su_ref ` (\<Union>rp \<in> set (processor_consumer p). set (port_suppliers av st rp)) - {''inputs''}"
  by (simp add: step_deps_def set_add_deps)

lemma distinct_step_deps [simp]: "distinct (step_deps av st p)"
  by (simp add: step_deps_def distinct_add_deps)

lemma update_new: "k \<notin> set (map fst d) \<Longrightarrow> AList.update k v d = d @ [(k, v)]"
  by (rule update_fresh)

lemma infer_loop_keys:
  "distinct (map fst out @ map st_ref sts) \<Longrightarrow>
     map fst (infer_loop lk av out sts) = map fst out @ map st_ref sts"
proof (induction sts arbitrary: av out)
  case (Cons st sts)
  then show ?case
    by (cases "lk (st_processor st)") (auto simp: update_new)
qed simp

lemma infer_loop_other:
  "r \<notin> set (map st_ref sts) \<Longrightarrow> map_of (infer_loop lk av out sts) r = map_of out r"
  by (induction sts arbitrary: av out) (auto split: option.splits)

lemma infer_loop_split:
  assumes "distinct (map st_ref (pre @ st # post))" and "lk (st_processor st) = Some p"
  shows "map_of (infer_loop lk av out (pre @ st # post)) (st_ref st) =
     Some (step_deps (supplies_after lk av pre) st p)"
  using assms
proof (induction pre arbitrary: av out)
  case (Cons a pre)
  then show ?case by (cases "lk (st_processor a)") simp_all
qed (simp add: infer_loop_other)

section \<open>The core processors\<close>

text \<open>Every consumer port of a core processor is required, and the verified one is single.\<close>

definition core_shape :: "processor \<Rightarrow> bool" where
  "core_shape p \<longleftrightarrow> pr_special_inputs p = [] \<and>
     list_all (\<lambda>(r, ps). ps_required ps \<and> (ps_multiple ps \<longrightarrow> r \<noteq> ''matches'')) (pr_consumer p) \<and>
     (pr_id p = ''map'' \<or> pr_id p = ''triangulate'' \<longrightarrow> ''matches'' \<in> set (keys (pr_consumer p)))"

lemma core_shapes: "list_all core_shape CORE_PROCESSORS"
  by code_simp

lemma processor_for_shape: "processor_for i = Some p \<Longrightarrow> core_shape p \<and> pr_id p = i"
  using core_shapes by (auto simp: processor_for_iff list_all_iff)

lemma core_consumer: "processor_for i = Some p \<Longrightarrow> processor_consumer p = pr_consumer p"
  using processor_for_shape [of i p] by (simp add: core_shape_def processor_consumer_def)

lemma core_port_required:
  "processor_for i = Some p \<Longrightarrow> rp \<in> set (pr_consumer p) \<Longrightarrow>
     ps_required (snd rp) \<and> (ps_multiple (snd rp) \<longrightarrow> \<not> requires_verified j (fst rp))"
  using processor_for_shape [of i p] by (auto simp: core_shape_def list_all_iff requires_verified_def)

lemma produces_own: "map su_datatype (own_supplies st p) = produces p"
  by (simp add: own_supplies_def produces_def step_supply_def case_prod_unfold comp_def)

lemma count_map: "count_list (map f xs) y = length (filter (\<lambda>x. f x = y) xs)"
  by (induction xs) auto

lemma served_count:
  assumes "port_served av st rp" and "ps_required (snd rp)"
  shows "0 < count_list (map su_datatype (fst av)) (ps_datatype (snd rp))"
    and "ps_multiple (snd rp) \<and> \<not> requires_verified (st_processor st) (fst rp) \<Longrightarrow>
      count_list (map su_datatype (fst av)) (ps_datatype (snd rp)) \<noteq> 1"
    and "requires_verified (st_processor st) (fst rp) \<Longrightarrow> \<exists>s \<in> set (fst av). su_verified s"
proof -
  define ss where "ss = port_suppliers av st rp"
  have s: "\<forall>s \<in> set ss. s \<in> set (fst av) \<and> fits st (fst rp) (snd rp) s" "ss \<noteq> []"
    using assms by (simp_all add: port_served_def Let_def ss_def)
  then obtain x where x: "x \<in> set ss" by fastforce
  let ?cs = "filter (\<lambda>s. su_datatype s = ps_datatype (snd rp)) (fst av)"
  have sub: "set ss \<subseteq> set ?cs" using s(1) by (auto simp: fits_def)
  with x show "0 < count_list (map su_datatype (fst av)) (ps_datatype (snd rp))"
    unfolding count_map by (metis length_pos_if_in_set subsetD)
  show "\<exists>s \<in> set (fst av). su_verified s" if "requires_verified (st_processor st) (fst rp)"
    using that s(1) x by (auto simp: fits_def)
  assume "ps_multiple (snd rp) \<and> \<not> requires_verified (st_processor st) (fst rp)"
  then have "2 \<le> card (wire_ref ` set ss)"
    using assms by (simp add: port_served_def Let_def ss_def)
  also have "\<dots> \<le> card (wire_ref ` set ?cs)"
    using sub by (intro card_mono) auto
  also have "\<dots> \<le> length ?cs"
    using card_image_le [of "set ?cs" wire_ref] card_length [of ?cs] by simp
  finally show "count_list (map su_datatype (fst av)) (ps_datatype (snd rp)) \<noteq> 1"
    unfolding count_map by simp
qed

lemma served_legacy_ok:
  assumes "\<forall>rp \<in> set (pr_consumer p). port_served av st rp" and "processor_for (st_processor st) = Some p"
    and "(\<exists>s \<in> set (fst av). su_verified s) \<longrightarrow> 0 < n"
  shows "legacy_op_errors (map su_datatype (fst av)) n i (st_processor st) p = []"
proof -
  note r = core_port_required [OF assms(2)]
  have "0 < count_list (map su_datatype (fst av)) (ps_datatype (snd rp))"
    if "rp \<in> set (pr_consumer p)" for rp
    using served_count(1) [of av st rp] assms(1) r [OF that] that by blast
  then have "filter (\<lambda>t. count_list (map su_datatype (fst av)) t = 0) (consumes p) = []"
    by (auto simp: consumes_def filter_empty_conv)
  moreover have "legacy_port_errors (map su_datatype (fst av)) n i (st_processor st) rp = []"
    if "rp \<in> set (pr_consumer p)" for rp
    using served_count(2,3) [of av st rp] assms(1,3) r [OF that] that
    by (auto simp: legacy_port_errors_def Let_def)
  ultimately show ?thesis by (simp add: legacy_op_errors_def Let_def)
qed

lemma typed_legacy_ok:
  "steps_typed E processor_for av refs sts \<Longrightarrow> indexed av \<Longrightarrow>
     (\<exists>s \<in> set (fst av). su_verified s) \<longrightarrow> 0 < n \<Longrightarrow>
     legacy_loop processor_for (map su_datatype (fst av)) n i (map st_processor sts) = []"
proof (induction av refs sts arbitrary: n i rule: steps_typed.induct)
  case (Cons st refs p av sts)
  have "\<forall>rp \<in> set (pr_consumer p). port_served av st rp"
    using Cons.hyps(2,3) Cons.prems(1) core_consumer by (auto simp: step_typed_def intro: port_typed_served)
  then have ok: "legacy_op_errors (map su_datatype (fst av)) n i (st_processor st) p = []"
    using Cons.hyps(2) Cons.prems(2) by (rule served_legacy_ok)
  let ?n = "n + (if st_processor st = ''verify'' then count_list (produces p) ''match_graph'' else 0)"
  have "(\<exists>s \<in> set (fst (add_supplies st p av)). su_verified s) \<longrightarrow> 0 < ?n"
    using Cons.prems(2) own_supplies_verified count_list_pos [of "produces p" "''match_graph''"] by force
  from Cons.IH [OF indexed_add_supplies [OF Cons.prems(1)] this, of "Suc i"] ok Cons.hyps(2)
  show ?case by (simp add: produces_own)
qed simp

section \<open>Properties\<close>

text \<open>
  C5. The strict validator reports no error exactly when the pipeline has a typing
  derivation: distinct initial inputs, fresh step refs, known processors, accepted
  attributes, declared wires only, and every port typed by the supplies of earlier steps.
\<close>

theorem strict_decides_typing:
  "strict_validate_pipeline E steps inputs lk = [] \<longleftrightarrow> pipeline_typed E lk inputs steps"
  by (rule strict_validate_Nil)

text \<open>
  C23. Type soundness: when a validated pipeline reaches a step, the inference resolves every
  consumer port to supplies of the port's type, each an initial input or a port of an
  earlier step; a required port gets one, and at least two distinct ones if it is multiple.
\<close>

theorem validated_steps_served:
  assumes "strict_validate_pipeline E (pre @ st # post) inputs lk = []"
  shows "\<exists>p. lk (st_processor st) = Some p \<and> st_ref st \<notin> insert ''inputs'' (set (map st_ref pre)) \<and>
    (\<forall>rp \<in> set (processor_consumer p). port_served (before_step lk inputs pre) st rp \<and>
       (\<forall>s \<in> set (port_suppliers (before_step lk inputs pre) st rp). comes_from lk inputs pre s))"
proof -
  have t: "steps_typed E lk (initial_supplies inputs) {''inputs''} (pre @ st # post)"
    using assms by (simp add: strict_validate_Nil pipeline_typed_def)
  obtain p where p: "lk (st_processor st) = Some p" "step_typed E (before_step lk inputs pre) st p"
    using steps_typed_split [OF t] unfolding before_step_def by blast
  have "port_served (before_step lk inputs pre) st rp" if "rp \<in> set (processor_consumer p)" for rp
    using p(2) that by (auto simp: step_typed_def intro: port_typed_served)
  with p(1) steps_typed_refs [OF t] show ?thesis
    by (auto simp: port_served_def Let_def intro: before_step_origin)
qed

text \<open>
  The inferred dependencies of a validated pipeline are a dictionary with one entry per
  step, in order, whose values are duplicate-free and name earlier steps only: the graph of
  tasks is acyclic and its order is topological.
\<close>

theorem inferred_dependencies_topological:
  assumes "strict_validate_pipeline E (pre @ st # post) inputs lk = []"
  shows "map fst (inferred_step_dependencies (pre @ st # post) inputs (Some lk)) = map st_ref (pre @ st # post) \<and>
    (\<exists>deps. map_of (inferred_step_dependencies (pre @ st # post) inputs (Some lk)) (st_ref st) = Some deps \<and>
       distinct deps \<and> set deps \<subseteq> set (map st_ref pre))"
proof -
  have t: "steps_typed E lk (initial_supplies inputs) {''inputs''} (pre @ st # post)"
    using assms by (simp add: strict_validate_Nil pipeline_typed_def)
  note d = conjunct1 [OF steps_typed_refs [OF t]]
  obtain p where p: "lk (st_processor st) = Some p"
    "\<forall>rp \<in> set (processor_consumer p).
       (\<forall>s \<in> set (port_suppliers (before_step lk inputs pre) st rp). comes_from lk inputs pre s)"
    using validated_steps_served [OF assms] by blast
  have "su_ref s \<in> insert ''inputs'' (set (map st_ref pre))" if "comes_from lk inputs pre s" for s
    using that own_supplies_ref by (fastforce simp: comes_from_def)
  with p(2) have "set (step_deps (before_step lk inputs pre) st p) \<subseteq> set (map st_ref pre)"
    unfolding set_step_deps by blast
  then show ?thesis
    using infer_loop_split [of pre st post lk p "initial_supplies inputs" "[]"] p(1)
      infer_loop_keys [of "[]" "pre @ st # post" lk "initial_supplies inputs"] d
    by (simp add: inferred_step_dependencies_def before_step_def)
qed

text \<open>
  Mapping and triangulation never run on raw correspondences: in a validated pipeline of
  core processors the step depends, by the inferred graph, on an earlier verification step.
\<close>

theorem mapping_depends_on_verify:
  assumes "validate_pipeline E (Steps (pre @ st # post)) inputs None = []"
    and "st_processor st \<in> {''map'', ''triangulate''}"
  shows "\<exists>v deps. v \<in> set pre \<and> st_processor v = ''verify'' \<and>
    map_of (inferred_step_dependencies (pre @ st # post) inputs None) (st_ref st) = Some deps \<and>
    st_ref v \<in> set deps"
proof -
  have ok: "strict_validate_pipeline E (pre @ st # post) inputs processor_for = []"
    using assms(1) by (simp add: validate_pipeline_def)
  then have t: "steps_typed E processor_for (initial_supplies inputs) {''inputs''} (pre @ st # post)"
    by (simp add: strict_validate_Nil pipeline_typed_def)
  note d = steps_typed_refs [OF t]
  obtain p where p: "processor_for (st_processor st) = Some p"
    "\<forall>rp \<in> set (processor_consumer p). port_served (before_step processor_for inputs pre) st rp \<and>
       (\<forall>s \<in> set (port_suppliers (before_step processor_for inputs pre) st rp). comes_from processor_for inputs pre s)"
    using validated_steps_served [OF ok] by blast
  obtain ps where ps: "(''matches'', ps) \<in> set (processor_consumer p)"
    using processor_for_shape [OF p(1)] core_consumer [OF p(1)] assms(2)
    by (auto simp: core_shape_def keys_def)
  then have req: "ps_required ps"
    using core_port_required [OF p(1)] core_consumer [OF p(1)] by fastforce
  let ?ss = "port_suppliers (before_step processor_for inputs pre) st (''matches'', ps)"
  obtain s where s: "s \<in> set ?ss" "fits st ''matches'' ps s" "comes_from processor_for inputs pre s"
    using p(2) ps req unfolding port_served_def Let_def
    by (metis fst_conv hd_in_set snd_conv)
  then have "su_verified s"
    using assms(2) by (auto simp: fits_def requires_verified_def)
  with s(3) obtain v q where v: "v \<in> set pre" "s \<in> set (own_supplies v q)" "st_processor v = ''verify''"
    using own_supplies_verified unfolding comes_from_def by blast
  then have "st_ref v \<in> set (map st_ref (pre @ st # post))" by simp
  then have n: "st_ref v \<noteq> ''inputs''" using conjunct2 [OF d] by blast
  have e: "su_ref s = st_ref v" using v(2) by (rule own_supplies_ref)
  have m: "su_ref s \<in> su_ref ` (\<Union>rp \<in> set (processor_consumer p).
      set (port_suppliers (before_step processor_for inputs pre) st rp))"
    by (rule imageI, rule UN_I [of "(''matches'', ps)"]) (rule ps, rule s(1))
  have "st_ref v \<in> set (step_deps (before_step processor_for inputs pre) st p)"
    unfolding set_step_deps e [symmetric] by (rule DiffI [OF m]) (simp add: e n)
  with v show ?thesis
    using infer_loop_split [of pre st post processor_for p "initial_supplies inputs" "[]"] p(1) d
    by (auto simp: inferred_step_dependencies_def before_step_def)
qed

text \<open>
  The flat validator is weaker than the strict one: when a wired pipeline of core
  processors validates, so does the list of its operation ids.
\<close>

theorem strict_implies_flat:
  assumes "validate_pipeline E (Steps sts) inputs None = []"
  shows "validate_pipeline E (Ops (map st_processor sts)) inputs None = []"
proof (cases "sts = []")
  case False
  then have "steps_typed E processor_for (initial_supplies inputs) {''inputs''} sts"
    using assms by (simp add: validate_pipeline_def strict_validate_Nil pipeline_typed_def)
  from typed_legacy_ok [OF this indexed_initial, of 0 0] False show ?thesis
    by (simp add: validate_pipeline_def legacy_validate_pipeline_def fst_initial comp_def)
qed (simp add: validate_pipeline_def)

section \<open>A wired pipeline\<close>

definition sfm_step :: "string \<Rightarrow> json dict \<Rightarrow> pipeline_step" where
  "sfm_step i wires = \<lparr>st_ref = i, st_processor = i, st_attributes = [], st_wires = wires\<rparr>"

definition sfm_front :: "pipeline_step list" where
  "sfm_front = [sfm_step ''features'' [], sfm_step ''pairs'' [], sfm_step ''matches'' [],
     sfm_step ''verify'' []]"

definition sfm_map :: pipeline_step where
  "sfm_map = sfm_step ''map'' [(''matches'', JStr ''verify.matches'')]"

definition plain_contract :: contract_env where
  "plain_contract = \<lparr>float_repr = \<lambda>q. [], is_data_type = \<lambda>s. s \<in> set core_datatypes\<rparr>"

lemma sfm_valid: "validate_pipeline plain_contract (Steps (sfm_front @ [sfm_map])) DEFAULT_INITIAL_INPUTS None = []"
  by code_simp

lemma sfm_strict:
  "strict_validate_pipeline plain_contract (sfm_front @ sfm_map # []) DEFAULT_INITIAL_INPUTS processor_for = []"
  by code_simp

theorem validated_steps_served_witness:
  "\<exists>p. processor_for (st_processor sfm_map) = Some p \<and>
    (\<forall>rp \<in> set (processor_consumer p). port_served (before_step processor_for DEFAULT_INITIAL_INPUTS sfm_front) sfm_map rp)"
  using validated_steps_served [OF sfm_strict] by blast

theorem inferred_dependencies_topological_witness:
  "\<exists>deps. map_of (inferred_step_dependencies (sfm_front @ [sfm_map]) DEFAULT_INITIAL_INPUTS (Some processor_for))
      (st_ref sfm_map) = Some deps \<and> set deps \<subseteq> set (map st_ref sfm_front)"
  using inferred_dependencies_topological [OF sfm_strict] by blast

theorem mapping_depends_on_verify_witness:
  "\<exists>v deps. v \<in> set sfm_front \<and> st_processor v = ''verify'' \<and>
    map_of (inferred_step_dependencies (sfm_front @ [sfm_map]) DEFAULT_INITIAL_INPUTS None)
      (st_ref sfm_map) = Some deps \<and> st_ref v \<in> set deps"
  by (rule mapping_depends_on_verify [OF sfm_valid]) code_simp

theorem strict_implies_flat_witness:
  "validate_pipeline plain_contract (Ops (map st_processor (sfm_front @ [sfm_map]))) DEFAULT_INITIAL_INPUTS None = []"
  by (rule strict_implies_flat [OF sfm_valid])

text \<open>
  The canonical pipelines validate as operation lists. As unwired steps the classical
  one does not: its mapping step sees the raw and the verified match graph and is ambiguous,
  and one explicit wire settles it.
\<close>

theorem canonical_pipelines_validate:
  "list_all (\<lambda>(n, ops). validate_pipeline plain_contract (Ops ops) DEFAULT_INITIAL_INPUTS None = []) CANONICAL_PIPELINES \<and>
   map ce_reason (validate_pipeline plain_contract (Steps (sfm_front @ [sfm_step ''map'' []])) DEFAULT_INITIAL_INPUTS None)
     = [Some ''ambiguous_input''] \<and>
   inferred_step_dependencies (sfm_front @ [sfm_map]) DEFAULT_INITIAL_INPUTS None =
     [(''features'', []), (''pairs'', [''features'']), (''matches'', [''features'', ''pairs'']),
      (''verify'', [''matches'']), (''map'', [''features'', ''verify''])]"
  by code_simp

end
