(* ===== verification/Plugin_Dataflow.thy ===== *)
theory Plugin_Dataflow
  imports Pipeline_Correct
begin

text \<open>
  \<open>sfm_hub/models/dataflow.py\<close>: the typed-dataflow declarations of a plugin manifest, the
  validators of each declaration, and the validation of the graph that the declarations form
  with the core registry. A validator that raises \<open>ValueError\<close> returns \<open>Inl\<close> of its message.
  The set of core data types is the argument \<open>core_dts\<close> (the registry of \<open>sceneio\<close>).
\<close>

section \<open>Identifier patterns\<close>

text \<open>\<open>sfm_hub/models/validation.py\<close>: the compiled patterns that the validators match.\<close>

definition dashed_word :: "char \<Rightarrow> bool" where
  "dashed_word c \<longleftrightarrow> lower_word c \<or> c = CHR ''-''"

fun starts_lower :: "(char \<Rightarrow> bool) \<Rightarrow> string \<Rightarrow> bool" where
  "starts_lower good [] = False"
| "starts_lower good (c # cs) = (lower_alpha c \<and> list_all good cs)"

definition contract_id :: "string \<Rightarrow> bool" where
  "contract_id = dollar (starts_lower (\<lambda>c. dashed_word c \<or> c = CHR ''.''))"

definition local_declaration_id :: "string \<Rightarrow> bool" where
  "local_declaration_id = dollar (starts_lower dashed_word)"

definition special_role :: "string \<Rightarrow> bool" where
  "special_role = dollar (\<lambda>s. 2 \<le> length (split_on CHR ''.'' s) \<and>
     list_all (starts_lower dashed_word) (split_on CHR ''.'' s))"

definition attribute_name :: "string \<Rightarrow> bool" where
  "attribute_name = dollar (\<lambda>s. list_all (starts_lower dashed_word) (split_on CHR ''.'' s))"

definition CONTRACT_ID_RE :: string where "CONTRACT_ID_RE = ''^[a-z][a-z0-9_.-]*$''"
definition LOCAL_DECLARATION_ID_RE :: string where "LOCAL_DECLARATION_ID_RE = ''^[a-z][a-z0-9_-]*$''"
definition ROLE_RE :: string where "ROLE_RE = ''^[a-z][a-z0-9_]*$''"
definition SPECIAL_ROLE_RE :: string where
  "SPECIAL_ROLE_RE = ''^[a-z][a-z0-9_-]*(?:'' @ [CHR 0x5C] @ ''.[a-z][a-z0-9_-]*)+$''"
definition ATTRIBUTE_RE :: string where
  "ATTRIBUTE_RE = ''^[a-z][a-z0-9_-]*(?:'' @ [CHR 0x5C] @ ''.[a-z][a-z0-9_-]*)*$''"

section \<open>Declarations\<close>

record plugin_datatype =
  pd_type_id :: string
  pd_title :: string
  pd_kind :: string
  pd_description :: string

text \<open>
  Ports and attributes have the fields of the core ones, less the data type lookup; a
  default counts when it was set.
\<close>

definition manifest_attribute :: "attribute \<Rightarrow> attribute" where
  "manifest_attribute a = a\<lparr>at_datatype_lookup := None\<rparr>"

lemma manifest_attribute_fields [simp]:
  "at_name (manifest_attribute a) = at_name a" "at_required (manifest_attribute a) = at_required a"
  "at_datatype_lookup (manifest_attribute a) = None"
  by (simp_all add: manifest_attribute_def)

record plugin_processor =
  pp_id :: string
  pp_title :: string
  pp_consumer :: "port_spec dict"
  pp_supplier :: "port_spec dict"
  pp_attributes :: "attribute list"
  pp_description :: string
  pp_capabilities :: "string list"

record plugin_extension =
  px_id :: string
  px_special_inputs :: "port_spec dict"
  px_special_attributes :: "attribute list"

record plugin_pipeline =
  pl_id :: string
  pl_title :: string
  pl_initial_inputs :: "string list"
  pl_steps :: "pipeline_step list"
  pl_description :: string

definition must_match :: "string \<Rightarrow> string \<Rightarrow> string \<Rightarrow> string" where
  "must_match what pat v = what @ '' must match '' @ py_repr pat @ '': '' @ v"

definition type_id_format :: "string \<Rightarrow> string + unit" where
  "type_id_format i =
     guard (\<not> local_declaration_id i) (must_match ''type_id'' LOCAL_DECLARATION_ID_RE (py_repr i))"

definition datatype_format :: "string \<Rightarrow> string + unit" where
  "datatype_format d =
     guard (\<not> contract_id d) (must_match ''datatype'' CONTRACT_ID_RE (py_repr d))"

definition attribute_manifest :: "attribute \<Rightarrow> string + unit" where
  "attribute_manifest a =
     raise_first
       [(\<not> attribute_name (at_name a),
         must_match ''attribute name'' ATTRIBUTE_RE (py_repr (at_name a))),
        (at_type a = ''enum'' \<and> at_enum a = [], ''enum attributes must declare enum values''),
        (at_required a \<and> at_has_default a, ''attributes cannot be required and defaulted'')]"

definition bad_roles :: "(string \<Rightarrow> bool) \<Rightarrow> port_spec dict \<Rightarrow> string list" where
  "bad_roles good ports = filter (\<lambda>r. \<not> good r) (keys ports)"

definition port_roles_format :: "port_spec dict \<Rightarrow> string + unit" where
  "port_roles_format ports =
     guard (bad_roles role_ok ports \<noteq> [])
       (must_match ''port roles'' ROLE_RE (joins '', '' (sort (bad_roles role_ok ports))))"

definition processor_id_format :: "(string \<Rightarrow> bool) \<Rightarrow> string \<Rightarrow> string \<Rightarrow> string + unit" where
  "processor_id_format good pat i = guard (\<not> good i) (must_match ''processor_id'' pat (py_repr i))"

definition attributes_unique :: "string \<Rightarrow> attribute list \<Rightarrow> string + unit" where
  "attributes_unique what as =
     guard (duplicates (map at_name as) \<noteq> [])
       (''duplicate '' @ what @ '' attributes: '' @ joins '', '' (duplicates (map at_name as)))"

text \<open>\<open>PluginProcessorManifest\<close>: the capabilities are stored sorted and without duplicates.\<close>

definition capabilities_are_unique :: "string list \<Rightarrow> string list" where
  "capabilities_are_unique caps = sorted_set caps"

definition processor_manifest :: "plugin_processor \<Rightarrow> string + unit" where
  "processor_manifest p =
     andthen (processor_id_format local_declaration_id LOCAL_DECLARATION_ID_RE (pp_id p)) (\<lambda>_.
     andthen (port_roles_format (pp_consumer p)) (\<lambda>_.
     andthen (port_roles_format (pp_supplier p)) (\<lambda>_.
     attributes_unique ''processor'' (pp_attributes p))))"

definition special_roles_format :: "port_spec dict \<Rightarrow> string + unit" where
  "special_roles_format ports =
     guard (bad_roles special_role ports \<noteq> [])
       (''special input roles must be plugin-qualified and match '' @ py_repr SPECIAL_ROLE_RE @
        '': '' @ joins '', '' (sort (bad_roles special_role ports)))"

definition special_attributes_unique :: "plugin_extension \<Rightarrow> string + unit" where
  "special_attributes_unique x =
     (let ins = map fst (filter (\<lambda>(r, ps). ps_required ps) (px_special_inputs x));
          req = map at_name (filter at_required (px_special_attributes x));
          names = map at_name (px_special_attributes x);
          unq = sort (filter (\<lambda>n. CHR ''.'' \<notin> set n) names) in
      raise_first
        [(ins \<noteq> [], ''special_inputs must be optional; set required=false for: '' @
            joins '', '' (sort ins)),
         (req \<noteq> [], ''special_attributes must be optional; set required=false for: '' @
            joins '', '' (sort req)),
         (unq \<noteq> [], ''special attribute names must be plugin-qualified: '' @ joins '', '' unq),
         (duplicates names \<noteq> [],
            ''duplicate special attributes: '' @ joins '', '' (duplicates names))])"

definition extension_manifest :: "plugin_extension \<Rightarrow> string + unit" where
  "extension_manifest x =
     andthen (processor_id_format contract_id CONTRACT_ID_RE (px_id x)) (\<lambda>_.
     andthen (special_roles_format (px_special_inputs x)) (\<lambda>_.
     special_attributes_unique x))"

text \<open>A wire array is a list of strings; only arrays are tested for duplicates.\<close>

fun json_strings :: "json list \<Rightarrow> string list" where
  "json_strings [] = []"
| "json_strings (JStr s # xs) = s # json_strings xs"
| "json_strings (_ # xs) = json_strings xs"

definition wire_array_unique :: "string \<times> json \<Rightarrow> string + unit" where
  "wire_array_unique rw =
     (case wire_list (snd rw) of
        None \<Rightarrow> Inr ()
      | Some xs \<Rightarrow>
          guard (duplicates (json_strings xs) \<noteq> [])
            (''wires.'' @ fst rw @ '' must not contain duplicate supplier reference(s): '' @
             joins '', '' (duplicates (json_strings xs))))"

definition step_manifest :: "pipeline_step \<Rightarrow> string + unit" where
  "step_manifest st =
     andthen (raise_first
       [(\<not> role_ok (st_ref st), must_match ''step ref'' ROLE_RE (py_repr (st_ref st))),
        (st_ref st = ''inputs'',
         quoted ''inputs'' @ '' is reserved for the synthetic pipeline input source''),
        (\<not> contract_id (st_processor st),
         must_match ''processor'' CONTRACT_ID_RE (py_repr (st_processor st)))]) (\<lambda>_.
     each wire_array_unique (st_wires st))"

definition initial_inputs_format :: "string list \<Rightarrow> string + unit" where
  "initial_inputs_format inputs =
     (let bad = filter (\<lambda>d. \<not> contract_id d) inputs in
      raise_first
        [(bad \<noteq> [], ''initial_inputs must match '' @ py_repr CONTRACT_ID_RE @ '': '' @
            joins '', '' (sort bad)),
         (duplicates inputs \<noteq> [], ''initial_inputs must not contain duplicate datatype(s): '' @
            joins '', '' (duplicates inputs))])"

definition refs_unique :: "pipeline_step list \<Rightarrow> string + unit" where
  "refs_unique steps =
     guard (duplicates (map st_ref steps) \<noteq> [])
       (''duplicate pipeline step refs: '' @ joins '', '' (duplicates (map st_ref steps)))"

definition pipeline_manifest :: "plugin_pipeline \<Rightarrow> string + unit" where
  "pipeline_manifest l =
     andthen (guard (\<not> local_declaration_id (pl_id l))
       (must_match ''pipeline_id'' LOCAL_DECLARATION_ID_RE (py_repr (pl_id l)))) (\<lambda>_.
     andthen (initial_inputs_format (pl_initial_inputs l)) (\<lambda>_.
     andthen (each step_manifest (pl_steps l)) (\<lambda>_.
     refs_unique (pl_steps l))))"

definition validate_plugin_owned_declaration_ids ::
  "string \<Rightarrow> plugin_datatype list \<Rightarrow> plugin_processor list \<Rightarrow> plugin_pipeline list \<Rightarrow> string + unit" where
  "validate_plugin_owned_declaration_ids plugin_id dts procs pipes =
     each (\<lambda>(f, v). guard (CHR ''.'' \<in> set v)
         (''plugin-owned '' @ f @ '' '' @ py_repr v @ '' must be a local declaration id; '' @
          py_repr plugin_id @ '' is applied during registry merge''))
       (map (\<lambda>d. (''type_id'', pd_type_id d)) dts @ map (\<lambda>p. (''processor_id'', pp_id p)) procs @
        map (\<lambda>l. (''pipeline_id'', pl_id l)) pipes)"

section \<open>Attribute schemas and bindings\<close>

definition value_matches_attribute :: "string list \<Rightarrow> attribute \<Rightarrow> json \<Rightarrow> bool" where
  "value_matches_attribute known a v =
     (if at_type a = ''bool'' then is_bool v
      else if at_type a = ''int'' then is_int v
      else if at_type a = ''float'' then is_number v
      else if at_type a = ''str'' then is_str v
      else if at_type a = ''enum'' then in_enum v (at_enum a)
      else if at_type a = ''datatype-ref'' then str_satisfies (\<lambda>s. s \<in> set known) v
      else if at_type a = ''object'' then is_dict v
      else False)"

definition validate_attribute_schema :: "string list \<Rightarrow> attribute \<Rightarrow> string + unit" where
  "validate_attribute_schema known a =
     (let n = ''attribute '' @ py_repr (at_name a); t = py_repr (at_type a) in
      raise_first
       ([(at_type a \<noteq> ''enum'' \<and> at_enum a \<noteq> [], n @ '' uses enum values but type is '' @ t),
         (at_type a = ''enum'' \<and> \<not> distinct (map py_repr (at_enum a)),
          n @ '' enum values must be unique''),
         (\<not> numeric_type (at_type a) \<and> (at_min a \<noteq> None \<or> at_max a \<noteq> None),
          n @ '' min/max are only valid for numeric types''),
         (min_over_max (at_min a) (at_max a), n @ '' min must be <= max'')] @
        (if at_has_default a then
           [(at_default a = JNull, n @ '' default cannot be null''),
            (\<not> value_matches_attribute known a (at_default a),
             n @ '' default must match type '' @ t)] @
           (if numeric_type (at_type a) \<and> is_number (at_default a) then
              [(below (at_default a) (at_min a), n @ '' default must be >= min''),
               (above (at_default a) (at_max a), n @ '' default must be <= max'')]
            else [])
         else [])))"

definition step_text :: "string \<Rightarrow> pipeline_step \<Rightarrow> string" where
  "step_text pid st = ''pipeline '' @ py_repr pid @ '' step '' @ py_repr (st_ref st)"

text \<open>\<open>isinstance(value, (int, float))\<close>, which a Boolean also satisfies.\<close>

definition bound_text :: "contract_env \<Rightarrow> pynum option \<Rightarrow> string" where
  "bound_text E b = (case b of None \<Rightarrow> [] | Some m \<Rightarrow> num_text E m)"

definition bind_attribute ::
  "contract_env \<Rightarrow> string list \<Rightarrow> string \<Rightarrow> pipeline_step \<Rightarrow> attribute \<Rightarrow> string + unit" where
  "bind_attribute E known pid st a =
     (case map_of (st_attributes st) (at_name a) of
        None \<Rightarrow>
          guard (at_required a)
            (step_text pid st @ '' missing required attribute '' @ py_repr (at_name a))
      | Some v \<Rightarrow>
          raise_first
            [(v = JNull \<or> \<not> value_matches_attribute known a v,
              step_text pid st @ '' attribute '' @ py_repr (at_name a) @ '' must be '' @ at_type a),
             (below v (at_min a),
              step_text pid st @ '' attribute '' @ py_repr (at_name a) @ '' must be >= '' @
              bound_text E (at_min a)),
             (above v (at_max a),
              step_text pid st @ '' attribute '' @ py_repr (at_name a) @ '' must be <= '' @
              bound_text E (at_max a))])"

definition validate_step_binding ::
  "contract_env \<Rightarrow> string list \<Rightarrow> string \<Rightarrow> pipeline_step \<Rightarrow> attribute list \<Rightarrow> string + unit" where
  "validate_step_binding E known pid st as =
     (let unknown = sorted_set (filter (\<lambda>n. n \<notin> set (map at_name as)) (keys (st_attributes st))) in
      andthen (guard (unknown \<noteq> [])
        (step_text pid st @ '' uses unknown attribute(s): '' @ joins '', '' unknown)) (\<lambda>_.
      each (bind_attribute E known pid st) as))"

end
