(* ===== verification/Plugin_Graph.thy ===== *)
theory Plugin_Graph
  imports Plugin_Dataflow
begin

text \<open>
  The graph part of \<open>sfm_hub/models/dataflow.py\<close>: the tables of ports and attributes of core
  and plugin processors, the validation of one pipeline against them, and the validation of
  all declarations of a manifest with the extensions merged in.
\<close>

section \<open>One pipeline\<close>

type_synonym port_table = "(port_spec dict \<times> port_spec dict) dict"
type_synonym attribute_table = "attribute list dict"

text \<open>The entries of \<open>available\<close> and \<open>by_wire\<close> are the supplies of the core validator.\<close>

definition graph_wire ::
  "(string \<rightharpoonup> supplied) \<Rightarrow> string \<Rightarrow> pipeline_step \<Rightarrow> string \<Rightarrow> port_spec \<Rightarrow> json \<Rightarrow> string + string" where
  "graph_wire by_wire n st role ps v =
     (case parse_wire_ref v of
        None \<Rightarrow> Inl (n @ '' wire for port '' @ py_repr role @ '' must be '' @
          quoted ''step_ref.supplier_port'')
      | Some (r, p) \<Rightarrow>
          (case by_wire (r @ ''.'' @ p) of
             None \<Rightarrow> Inl (n @ '' references unknown supplier port '' @ r @ ''.'' @ p)
           | Some s \<Rightarrow>
               if su_datatype s \<noteq> ps_datatype ps then
                 Inl (n @ '' datatype mismatch for port '' @ py_repr role @ '': expected '' @
                   ps_datatype ps @ '', got '' @ su_datatype s)
               else if requires_verified (st_processor st) role \<and> \<not> su_verified s then
                 Inl (n @ '' port '' @ py_repr role @ '' requires verified match_graph input'')
               else Inr (r @ ''.'' @ p)))"

definition graph_wired_port ::
  "(string \<rightharpoonup> supplied) \<Rightarrow> string \<Rightarrow> pipeline_step \<Rightarrow> string \<Rightarrow> port_spec \<Rightarrow> json \<Rightarrow> string + unit" where
  "graph_wired_port by_wire n st role ps raw =
     (let port = n @ '' port '' @ py_repr role; vs = wire_values raw ps in
      andthen (raise_first
        [(wire_list raw \<noteq> None \<and> \<not> ps_multiple ps, port @ '' does not accept multiple inputs''),
         (vs = [] \<and> ps_required ps, n @ '' missing required input port '' @ py_repr role)]) (\<lambda>_.
      andthen (collect (graph_wire by_wire n st role ps) vs) (\<lambda>ks.
      raise_first
        [(ps_multiple ps \<and> length (remdups ks) \<noteq> length ks, port @ '' does not accept duplicate inputs''),
         (ps_multiple ps \<and> ps_required ps \<and> length (remdups ks) < 2,
          port @ '' requires at least two distinct inputs'')])))"

definition graph_unwired_port ::
  "supplied list \<Rightarrow> string \<Rightarrow> pipeline_step \<Rightarrow> string \<Rightarrow> port_spec \<Rightarrow> string + unit" where
  "graph_unwired_port available n st role ps =
     (let port = '' port '' @ py_repr role;
          cs = filter (\<lambda>s. su_datatype s = ps_datatype ps) available in
      if \<not> ps_required ps then Inr ()
      else raise_first
        [(cs = [], n @ '' missing input datatype '' @ py_repr (ps_datatype ps)),
         (ps_multiple ps \<and> length (remdups (map (\<lambda>s. (su_ref s, su_port s)) cs)) = 1,
          n @ port @ '' requires at least two distinct inputs''),
         (cs \<noteq> [] \<and> 1 < length cs \<and> \<not> ps_multiple ps,
          n @ '' has ambiguous input for port '' @ py_repr role),
         (requires_verified (st_processor st) role \<and> \<not> list_ex su_verified cs,
          n @ port @ '' requires verified match_graph input'')])"

definition graph_port ::
  "supplies \<Rightarrow> string \<Rightarrow> pipeline_step \<Rightarrow> string \<times> port_spec \<Rightarrow> string + unit" where
  "graph_port av n st rp =
     (case map_of (st_wires st) (fst rp) of
        Some raw \<Rightarrow> graph_wired_port (snd av) n st (fst rp) (snd rp) raw
      | None \<Rightarrow> graph_unwired_port (fst av) n st (fst rp) (snd rp))"

definition attributes_of :: "attribute_table \<Rightarrow> string \<Rightarrow> attribute list" where
  "attributes_of attrs i = (case map_of attrs i of None \<Rightarrow> [] | Some as \<Rightarrow> as)"

definition graph_step ::
  "contract_env \<Rightarrow> string list \<Rightarrow> string \<Rightarrow> attribute_table \<Rightarrow> supplies \<Rightarrow> pipeline_step
     \<Rightarrow> port_spec dict \<Rightarrow> string + unit" where
  "graph_step E known pid attrs av st consumer =
     (let unknown = sorted_set (filter (\<lambda>r. r \<notin> set (keys consumer)) (keys (st_wires st))) in
      andthen (validate_step_binding E known pid st (attributes_of attrs (st_processor st))) (\<lambda>_.
      andthen (guard (unknown \<noteq> [])
        (step_text pid st @ '' wires unknown consumer ports: '' @ joins '', '' unknown)) (\<lambda>_.
      each (graph_port av (step_text pid st) st) consumer)))"

definition graph_supplies :: "pipeline_step \<Rightarrow> port_spec dict \<Rightarrow> supplies \<Rightarrow> supplies" where
  "graph_supplies st supplier av =
     fold (\<lambda>(role, ps). add_supply (step_supply st role (ps_datatype ps))) supplier av"

fun graph_loop ::
  "contract_env \<Rightarrow> string list \<Rightarrow> string \<Rightarrow> port_table \<Rightarrow> attribute_table \<Rightarrow> supplies
     \<Rightarrow> pipeline_step list \<Rightarrow> string + unit" where
  "graph_loop E known pid ports attrs av [] = Inr ()"
| "graph_loop E known pid ports attrs av (st # sts) =
     (case map_of ports (st_processor st) of
        None \<Rightarrow> graph_loop E known pid ports attrs av sts
      | Some (consumer, supplier) \<Rightarrow>
          andthen (graph_step E known pid attrs av st consumer)
            (\<lambda>_. graph_loop E known pid ports attrs (graph_supplies st supplier av) sts))"

definition validate_pipeline_graph ::
  "contract_env \<Rightarrow> string list \<Rightarrow> port_table \<Rightarrow> attribute_table \<Rightarrow> plugin_pipeline \<Rightarrow> string + unit" where
  "validate_pipeline_graph E known ports attrs l =
     graph_loop E known (pl_id l) ports attrs (initial_supplies (pl_initial_inputs l)) (pl_steps l)"

section \<open>All declarations\<close>

definition core_processor_ports :: port_table where
  "core_processor_ports =
     map (\<lambda>(i, p). (i, pr_consumer p, pr_supplier p)) PROCESSORS_BY_ID"

definition plugin_processor_ports :: "plugin_processor list \<Rightarrow> port_table" where
  "plugin_processor_ports ps =
     update_all [] (map (\<lambda>p. (pp_id p, pp_consumer p, pp_supplier p)) ps)"

text \<open>
  The core attributes go through their contract document, which keeps every field that the
  manifest model has; the lookup, which it has not, is unset in the core tables.
\<close>

definition core_processor_attributes :: attribute_table where
  "core_processor_attributes =
     map (\<lambda>(i, p). (i, map manifest_attribute (pr_attributes p))) PROCESSORS_BY_ID"

definition plugin_processor_attributes :: "plugin_processor list \<Rightarrow> attribute_table" where
  "plugin_processor_attributes ps = update_all [] 
       (map (\<lambda>p. (pp_id p, map manifest_attribute (pp_attributes p))) ps)"

definition unique_ids :: "string \<Rightarrow> string list \<Rightarrow> string + unit" where
  "unique_ids what ids =
     guard (duplicates ids \<noteq> []) (''duplicate '' @ what @ '': '' @ joins '', '' (duplicates ids))"

definition shadowing :: "string list \<Rightarrow> string list \<Rightarrow> string list" where
  "shadowing ids core = sorted_set (filter (\<lambda>i. i \<in> set core) ids)"

definition minus_sorted :: "string list \<Rightarrow> string list \<Rightarrow> string list" where
  "minus_sorted xs ys = sorted_set (filter (\<lambda>x. x \<notin> set ys) xs)"

definition capability_checks ::
  "plugin_processor list \<Rightarrow> string list option \<Rightarrow> string list list option \<Rightarrow> string + unit" where
  "capability_checks procs declared providers =
     andthen
       (case declared of None \<Rightarrow> Inr ()
        | Some caps \<Rightarrow> each (\<lambda>p. guard (minus_sorted (pp_capabilities p) caps \<noteq> [])
            (''processor '' @ py_repr (pp_id p) @ '' references undeclared capabilities: '' @
             joins '', '' (minus_sorted (pp_capabilities p) caps))) procs) (\<lambda>_.
       (case providers of None \<Rightarrow> Inr ()
        | Some sets \<Rightarrow> each (\<lambda>p. guard (\<not> list_ex (\<lambda>caps. set (pp_capabilities p) \<subseteq> set caps) sets)
            (''processor '' @ py_repr (pp_id p) @
             '' capabilities are not declared together by any provider'')) procs))"

definition known_ports :: "string \<Rightarrow> string list \<Rightarrow> port_spec dict \<Rightarrow> string + unit" where
  "known_ports text known ports =
     each (\<lambda>(role, ps). guard (ps_datatype ps \<notin> set known)
       (text @ py_repr role @ '' references unknown datatype '' @ py_repr (ps_datatype ps))) ports"

definition extension_checks :: "string list \<Rightarrow> string list \<Rightarrow> plugin_extension \<Rightarrow> string + unit" where
  "extension_checks known known_procs x =
     andthen (guard (px_id x \<notin> set known_procs)
       (''processor extension references unknown processor '' @ py_repr (px_id x))) (\<lambda>_.
     andthen (known_ports (''processor extension '' @ py_repr (px_id x) @ '' input '') known
       (px_special_inputs x)) (\<lambda>_.
     each (validate_attribute_schema known) (px_special_attributes x)))"

definition namespace_check :: "string list \<Rightarrow> plugin_extension \<Rightarrow> string + unit" where
  "namespace_check namespaces x =
     (let names = sort (keys (px_special_inputs x)) @ sort (map at_name (px_special_attributes x));
          bad = filter (\<lambda>n. \<not> list_ex (\<lambda>ns. prefix (ns @ ''.'') n) namespaces) names in
      guard (bad \<noteq> [])
        (''processor extension names must use the owning plugin namespace: '' @ joins '', '' bad))"

text \<open>Merging one extension into the tables.\<close>

definition merge_extension ::
  "plugin_extension \<Rightarrow> port_table \<times> attribute_table \<Rightarrow> string + (port_table \<times> attribute_table)" where
  "merge_extension x tabs =
     (case map_of (fst tabs) (px_id x) of
        None \<Rightarrow> Inl (py_repr (px_id x))
      | Some (consumer, supplier) \<Rightarrow>
          (let collisions = shadowing (keys (px_special_inputs x)) (keys consumer);
               existing = attributes_of (snd tabs) (px_id x);
               dups = sort (map at_name (filter (\<lambda>a. at_name a \<in> set (map at_name existing))
                 (px_special_attributes x)));
               n = ''processor extension '' @ py_repr (px_id x) in
           andthen (raise_first
             [(collisions \<noteq> [], n @ '' duplicates consumer port(s): '' @ joins '', '' collisions),
              (dups \<noteq> [], n @ '' duplicates attribute(s): '' @ joins '', '' dups)]) (\<lambda>_.
           Inr (AList.update (px_id x) (update_all consumer (px_special_inputs x), supplier) (fst tabs),
                AList.update (px_id x) (existing @ map manifest_attribute (px_special_attributes x)) (snd tabs)))))"

fun merge_extensions ::
  "plugin_extension list \<Rightarrow> port_table \<times> attribute_table \<Rightarrow> string + (port_table \<times> attribute_table)" where
  "merge_extensions [] tabs = Inr tabs"
| "merge_extensions (x # xs) tabs = andthen (merge_extension x tabs) (merge_extensions xs)"

record typed_graph =
  tg_datatypes :: "plugin_datatype list"
  tg_processors :: "plugin_processor list"
  tg_pipelines :: "plugin_pipeline list"
  tg_extensions :: "plugin_extension list"
  tg_declared :: "string list option"
  tg_provider_caps :: "string list list option"
  tg_namespaces :: "string list option"

definition known_datatypes :: "string list \<Rightarrow> typed_graph \<Rightarrow> string list" where
  "known_datatypes core_dts g = core_dts @ map pd_type_id (tg_datatypes g)"

definition known_processors :: "typed_graph \<Rightarrow> string list" where
  "known_processors g = keys PROCESSORS_BY_ID @ map pp_id (tg_processors g)"

definition base_tables :: "typed_graph \<Rightarrow> port_table \<times> attribute_table" where
  "base_tables g =
     (update_all core_processor_ports (plugin_processor_ports (tg_processors g)),
      update_all core_processor_attributes (plugin_processor_attributes (tg_processors g)))"

definition declaration_checks :: "string list \<Rightarrow> typed_graph \<Rightarrow> string + unit" where
  "declaration_checks core_dts g =
     (let dts = map pd_type_id (tg_datatypes g); pids = map pp_id (tg_processors g);
          known = known_datatypes core_dts g; procs = tg_processors g; exts = tg_extensions g in
      andthen (unique_ids ''datatypes'' dts) (\<lambda>_.
      andthen (guard (shadowing dts core_dts \<noteq> [])
        (''plugin datatypes cannot redefine core datatypes: '' @ joins '', '' (shadowing dts core_dts))) (\<lambda>_.
      andthen (unique_ids ''processors'' pids) (\<lambda>_.
      andthen (guard (shadowing pids (keys PROCESSORS_BY_ID) \<noteq> [])
        (''plugin processors cannot redefine core processors; use processor_extensions instead: '' @
         joins '', '' (shadowing pids (keys PROCESSORS_BY_ID)))) (\<lambda>_.
      andthen (capability_checks procs (tg_declared g) (tg_provider_caps g)) (\<lambda>_.
      andthen (each (\<lambda>p. each (validate_attribute_schema known) (pp_attributes p)) procs) (\<lambda>_.
      andthen (each (\<lambda>p. known_ports (''processor '' @ py_repr (pp_id p) @ '' port '') known
        (update_all (pp_consumer p) (pp_supplier p))) procs) (\<lambda>_.
      andthen (unique_ids ''processor_extensions'' (map px_id exts)) (\<lambda>_.
      andthen (each (extension_checks known (known_processors g)) exts) (\<lambda>_.
      (case tg_namespaces g of None \<Rightarrow> Inr ()
       | Some ns \<Rightarrow> each (namespace_check ns) exts)))))))))))"

definition pipeline_checks ::
  "contract_env \<Rightarrow> string list \<Rightarrow> typed_graph \<Rightarrow> port_table \<times> attribute_table \<Rightarrow> plugin_pipeline
     \<Rightarrow> string + unit" where
  "pipeline_checks E core_dts g tabs l =
     (let unknown = minus_sorted (pl_initial_inputs l) (known_datatypes core_dts g) in
      andthen (guard (unknown \<noteq> [])
        (''pipeline '' @ py_repr (pl_id l) @ '' references unknown initial datatype(s): '' @
         joins '', '' unknown)) (\<lambda>_.
      andthen (each (\<lambda>st. guard (st_processor st \<notin> set (known_processors g))
        (step_text (pl_id l) st @ '' references unknown processor '' @ py_repr (st_processor st)))
        (pl_steps l)) (\<lambda>_.
      validate_pipeline_graph E (known_datatypes core_dts g) (fst tabs) (snd tabs) l)))"

definition validate_typed_extension_graph ::
  "contract_env \<Rightarrow> string list \<Rightarrow> typed_graph \<Rightarrow> string + unit" where
  "validate_typed_extension_graph E core_dts g =
     (let lids = map pl_id (tg_pipelines g); core = keys CANONICAL_PIPELINES in
      andthen (declaration_checks core_dts g) (\<lambda>_.
      andthen (unique_ids ''pipelines'' lids) (\<lambda>_.
      andthen (guard (shadowing lids core \<noteq> [])
        (''plugin pipelines cannot redefine core pipelines: '' @ joins '', '' (shadowing lids core))) (\<lambda>_.
      andthen (merge_extensions (tg_extensions g) (base_tables g)) (\<lambda>tabs.
      each (pipeline_checks E core_dts g tabs) (tg_pipelines g))))))"

end
