(* ===== verification/Plugin_Correct.thy ===== *)
theory Plugin_Correct
  imports Plugin_Graph
begin

text \<open>
  The two pipeline validators agree: the graph validation of plugin manifests accepts a
  pipeline exactly when the strict validator of the server does, with the processors given
  by the merged tables; and extensions leave every valid pipeline of core processors valid.
\<close>

section \<open>The merged registry as a lookup\<close>

definition merged_lookup :: "port_table \<times> attribute_table \<Rightarrow> lookup" where
  "merged_lookup tabs i =
     (case map_of (fst tabs) i of
        None \<Rightarrow> None
      | Some (consumer, supplier) \<Rightarrow>
          Some \<lparr>pr_id = i, pr_title = [], pr_consumer = consumer, pr_supplier = supplier,
            pr_attributes = attributes_of (snd tabs) i, pr_description = [], pr_capabilities = [],
            pr_config_stage = None, pr_aliases = [], pr_special_inputs = [],
            pr_special_attributes = []\<rparr>)"

lemma merged_lookup_Some:
  "merged_lookup tabs i = Some p \<Longrightarrow>
     map_of (fst tabs) i = Some (processor_consumer p, pr_supplier p) \<and>
     processor_attributes p = attributes_of (snd tabs) i"
  by (auto simp: merged_lookup_def processor_consumer_def processor_attributes_def split: option.splits)

lemma merged_lookup_dom: "merged_lookup tabs i = None \<longleftrightarrow> map_of (fst tabs) i = None"
  by (auto simp: merged_lookup_def split: option.splits)

section \<open>Attribute bindings\<close>

definition no_lookups :: "attribute_table \<Rightarrow> bool" where
  "no_lookups attrs \<longleftrightarrow> (\<forall>i. \<forall>a \<in> set (attributes_of attrs i). at_datatype_lookup a = None)"

lemma value_matches_type_ok:
  assumes "at_datatype_lookup a = None" and "is_data_type E = (\<lambda>s. s \<in> set known)"
  shows "value_matches_attribute known a v \<longleftrightarrow> type_ok E None a v"
  using assms by (simp add: value_matches_attribute_def type_ok_def chosen_lookup_def)

lemma step_binding_ok:
  assumes "\<forall>a \<in> set as. at_datatype_lookup a = None" and "is_data_type E = (\<lambda>s. s \<in> set known)"
  shows "validate_step_binding E known pid st as = Inr () \<longleftrightarrow>
    validate_attributes E as (st_attributes st) [] None = []"
proof -
  have "bind_attribute E known pid st a = Inr () \<longleftrightarrow>
      check_attribute E None [] (st_attributes st) a = []" if "a \<in> set as" for a
    using value_matches_type_ok [of a E known] assms that
    by (auto simp: bind_attribute_def check_attribute_def check_value_Nil value_ok_def raise_first_all
        split: option.splits)
  then show ?thesis
    by (auto simp: validate_step_binding_def validate_attributes_def Let_def andthen_Inr each_Inr)
qed

section \<open>Ports\<close>

lemma graph_wire_Inr:
  assumes "indexed av"
  shows "graph_wire (snd av) n st role ps v = Inr k \<longleftrightarrow>
    (\<exists>s. resolves (snd av) st role ps v s \<and> k = wire_ref s)"
proof (cases "parse_wire_ref v")
  case None
  then show ?thesis by (auto simp: graph_wire_def resolves_def)
next
  case (Some rp)
  then obtain r p where rp: "parse_wire_ref v = Some (r, p)" by (cases rp) auto
  note v = parse_wire_ref_join [OF rp]
  show ?thesis
  proof (cases "snd av (r @ ''.'' @ p)")
    case None
    with rp v show ?thesis by (simp add: graph_wire_def resolves_def)
  next
    case (Some s)
    then have "wire_ref s = r @ ''.'' @ p"
      using assms by (auto simp: indexed_def)
    with Some rp v show ?thesis
      by (auto simp: graph_wire_def resolves_def fits_def)
  qed
qed

lemma list_all2_ex:
  "list_all2 (\<lambda>v k. \<exists>s. R v s \<and> k = f s) vs ks \<longleftrightarrow> (\<exists>ss. list_all2 R vs ss \<and> ks = map f ss)"
proof
  assume "list_all2 (\<lambda>v k. \<exists>s. R v s \<and> k = f s) vs ks"
  then show "\<exists>ss. list_all2 R vs ss \<and> ks = map f ss"
  proof (induction vs ks rule: list_all2_induct)
    case (Cons v vs k ks)
    then obtain s ss where "R v s" "k = f s" "list_all2 R vs ss" "ks = map f ss" by blast
    then show ?case by (intro exI [of _ "s # ss"]) simp
  qed (auto intro: exI [of _ "[]"])
next
  assume "\<exists>ss. list_all2 R vs ss \<and> ks = map f ss"
  then show "list_all2 (\<lambda>v k. \<exists>s. R v s \<and> k = f s) vs ks"
    by (auto simp: list_all2_conv_all_nth)
qed

lemma graph_wires_Inr:
  "indexed av \<Longrightarrow> collect (graph_wire (snd av) n st role ps) vs = Inr ks \<longleftrightarrow>
     (\<exists>ss. list_all2 (resolves (snd av) st role ps) vs ss \<and> ks = map wire_ref ss)"
  by (simp add: collect_Inr graph_wire_Inr list_all2_ex)

lemma graph_wired_port_ok:
  assumes "indexed av"
  shows "graph_wired_port (snd av) n st role ps raw = Inr () \<longleftrightarrow>
    (\<exists>ss. wired_typed (snd av) st role ps raw ss)"
proof -
  define vs where "vs = wire_values raw ps"
  have "graph_wired_port (snd av) n st role ps raw = Inr () \<longleftrightarrow>
      (wire_list raw = None \<or> ps_multiple ps) \<and> \<not> (vs = [] \<and> ps_required ps) \<and>
      (\<exists>ss. list_all2 (resolves (snd av) st role ps) vs ss \<and>
         (ps_multiple ps \<longrightarrow> distinct (map wire_ref ss) \<and> (ps_required ps \<longrightarrow> 2 \<le> length (remdups (map wire_ref ss)))))"
    unfolding graph_wired_port_def Let_def vs_def [symmetric] andthen_unit andthen_Inr raise_first_all graph_wires_Inr [OF assms]
    by (auto simp: remdups_length not_less)
  also have "\<dots> \<longleftrightarrow> (\<exists>ss. wired_typed (snd av) st role ps raw ss)"
  proof -
    have "vs \<noteq> []" if "\<not> ps_multiple ps" using that by (simp add: vs_def wire_values_def)
    then show ?thesis
      unfolding wired_typed_def vs_def [symmetric]
      by (auto simp: distinct_remdups_id dest: list_all2_lengthD)
  qed
  finally show ?thesis .
qed

text \<open>References without a dot make the pair of a supply and its wire reference agree.\<close>

definition dotless :: "supplies \<Rightarrow> bool" where
  "dotless av \<longleftrightarrow> (\<forall>s \<in> set (fst av). CHR ''.'' \<notin> set (su_ref s))"

lemma wire_ref_inj:
  assumes "CHR ''.'' \<notin> set (su_ref s)" and "CHR ''.'' \<notin> set (su_ref t)"
  shows "wire_ref s = wire_ref t \<longleftrightarrow> (su_ref s, su_port s) = (su_ref t, su_port t)"
proof
  assume e: "wire_ref s = wire_ref t"
  have "before CHR ''.'' (wire_ref x) = su_ref x \<and> after CHR ''.'' (wire_ref x) = su_port x"
    if "CHR ''.'' \<notin> set (su_ref x)" for x
    using that before_append [of "CHR ''.''" "su_ref x" "su_port x"]
      after_append [of "CHR ''.''" "su_ref x" "su_port x"] by (simp add: wire_ref_def)
  with assms e show "(su_ref s, su_port s) = (su_ref t, su_port t)" by metis
qed (simp add: wire_ref_def)

lemma card_pairs:
  assumes "\<forall>s \<in> S. CHR ''.'' \<notin> set (su_ref s)"
  shows "card ((\<lambda>s. (su_ref s, su_port s)) ` S) = card (wire_ref ` S)"
proof -
  have "wire_ref ` S = (\<lambda>(r, p). r @ ''.'' @ p) ` (\<lambda>s. (su_ref s, su_port s)) ` S"
    by (auto simp: wire_ref_def image_image)
  moreover have "inj_on (\<lambda>(r, p). r @ ''.'' @ p) ((\<lambda>s. (su_ref s, su_port s)) ` S)"
    using assms wire_ref_inj by (auto simp: inj_on_def wire_ref_def)
  ultimately show ?thesis by (simp add: card_image)
qed

lemma graph_unwired_port_ok:
  assumes "dotless av"
  shows "graph_unwired_port (fst av) n st role ps = Inr () \<longleftrightarrow> unwired_typed (fst av) st role ps"
proof -
  define cs where "cs = filter (\<lambda>s. su_datatype s = ps_datatype ps) (fst av)"
  define K where "K = card (wire_ref ` set cs)"
  have p: "length (remdups (map (\<lambda>s. (su_ref s, su_port s)) cs)) = K"
    using card_pairs [of "set cs"] assms by (simp add: length_remdups_card_conv dotless_def cs_def K_def)
  have c: "cs = [] \<longleftrightarrow> K = 0"
    by (simp add: K_def)
  have n: "cs \<noteq> [] \<and> \<not> 1 < length cs \<longleftrightarrow> length cs = 1"
    by (cases cs) auto
  have e: "list_ex su_verified cs \<longleftrightarrow> (\<exists>s \<in> set cs. su_verified s)"
    by (simp add: list_ex_iff)
  have "graph_unwired_port (fst av) n st role ps = Inr () \<longleftrightarrow> (ps_required ps \<longrightarrow> cs \<noteq> [] \<and>
      \<not> (ps_multiple ps \<and> K = 1) \<and> \<not> (1 < length cs \<and> \<not> ps_multiple ps) \<and>
      \<not> (requires_verified (st_processor st) role \<and> \<not> (\<exists>s \<in> set cs. su_verified s)))"
    unfolding graph_unwired_port_def Let_def cs_def [symmetric] p e
    by (cases "ps_required ps") (auto simp: raise_first_all)
  then show ?thesis
    unfolding unwired_typed_def Let_def cs_def [symmetric] K_def [symmetric]
    using c n by (cases "ps_multiple ps"; cases "ps_required ps"; cases "K \<le> 1") auto
qed

lemma graph_port_ok:
  "indexed av \<Longrightarrow> dotless av \<Longrightarrow> graph_port av n st rp = Inr () \<longleftrightarrow> port_typed av st rp"
  by (simp add: graph_port_def port_typed_def graph_wired_port_ok graph_unwired_port_ok split: option.splits)

section \<open>Steps\<close>

lemma graph_step_ok:
  assumes "indexed av" "dotless av" "no_lookups (snd tabs)" "is_data_type E = (\<lambda>s. s \<in> set known)"
    and "merged_lookup tabs (st_processor st) = Some p"
  shows "graph_step E known pid (snd tabs) av st (processor_consumer p) = Inr () \<longleftrightarrow> step_typed E av st p"
proof -
  have "validate_step_binding E known pid st (attributes_of (snd tabs) (st_processor st)) = Inr () \<longleftrightarrow>
      validate_attributes E (processor_attributes p) (st_attributes st) [] None = []"
    using step_binding_ok [OF _ assms(4)] assms(3) merged_lookup_Some [OF assms(5)]
    by (simp add: no_lookups_def)
  then show ?thesis
    using assms(1,2)
    by (auto simp: graph_step_def step_typed_def Let_def andthen_Inr each_Inr graph_port_ok filter_empty_conv)
qed

lemma dotless_add: "dotless av \<Longrightarrow> CHR ''.'' \<notin> set (st_ref st) \<Longrightarrow> dotless (add_supplies st p av)"
  using own_supplies_ref by (fastforce simp: dotless_def)

lemma dotless_initial: "dotless (initial_supplies inputs)"
  by (auto simp: dotless_def fst_initial)

lemma graph_loop_ok:
  assumes "no_lookups (snd tabs)" "is_data_type E = (\<lambda>s. s \<in> set known)"
    and "indexed av" "dotless av" "distinct (map st_ref sts)" "refs \<inter> set (map st_ref sts) = {}"
    and "list_all (\<lambda>st. CHR ''.'' \<notin> set (st_ref st) \<and> merged_lookup tabs (st_processor st) \<noteq> None) sts"
  shows "graph_loop E known pid (fst tabs) (snd tabs) av sts = Inr () \<longleftrightarrow>
    steps_typed E (merged_lookup tabs) av refs sts"
  using assms(3-)
proof (induction sts arbitrary: av refs)
  case (Cons st sts)
  then obtain p where p: "merged_lookup tabs (st_processor st) = Some p" by auto
  have s: "graph_supplies st (pr_supplier p) av = add_supplies st p av"
    by (simp add: graph_supplies_def add_supplies_def)
  have "graph_loop E known pid (fst tabs) (snd tabs) (add_supplies st p av) sts = Inr () \<longleftrightarrow>
      steps_typed E (merged_lookup tabs) (add_supplies st p av) (insert (st_ref st) refs) sts"
    using Cons.prems by (intro Cons.IH) (auto simp: dotless_add)
  with p s Cons.prems merged_lookup_Some [OF p] graph_step_ok [OF Cons.prems(1,2) assms(1,2) p]
  show ?case by (auto simp: andthen_Inr)
qed simp

section \<open>Merging keeps the core ports\<close>

text \<open>
  An extended processor has the ports of the original, further optional ones under fresh
  roles, the same supplier ports, and further optional attributes under fresh names.
\<close>

definition extended ::
  "port_spec dict \<times> port_spec dict \<times> attribute list \<Rightarrow> port_spec dict \<times> port_spec dict \<times> attribute list \<Rightarrow> bool"
where
  "extended x y \<longleftrightarrow>
     (case x of (c, s, as) \<Rightarrow> case y of (c', s', as') \<Rightarrow>
        s' = s \<and> set (keys c) \<subseteq> set (keys c') \<and>
        (\<forall>rp \<in> set c'. rp \<in> set c \<or> (\<not> ps_required (snd rp) \<and> fst rp \<notin> set (keys c))) \<and>
        (\<exists>bs. as' = as @ bs \<and> list_all (\<lambda>b. \<not> at_required b \<and> at_name b \<notin> set (map at_name as)) bs))"

lemma extended_refl: "extended x x"
  by (cases x) (auto simp: extended_def)

lemma extended_trans: "extended x y \<Longrightarrow> extended y z \<Longrightarrow> extended x z"
  by (cases x; cases y; cases z) (fastforce simp: extended_def list_all_iff)

definition entry :: "port_table \<times> attribute_table \<Rightarrow> string
    \<Rightarrow> (port_spec dict \<times> port_spec dict \<times> attribute list) option" where
  "entry tabs i = (case map_of (fst tabs) i of None \<Rightarrow> None
     | Some (c, s) \<Rightarrow> Some (c, s, attributes_of (snd tabs) i))"

definition extends :: "port_table \<times> attribute_table \<Rightarrow> port_table \<times> attribute_table \<Rightarrow> bool" where
  "extends tabs tabs' \<longleftrightarrow>
     (\<forall>i x. entry tabs i = Some x \<longrightarrow> (\<exists>y. entry tabs' i = Some y \<and> extended x y))"

lemma update_all_entries:
  "set (update_all d kvs) \<subseteq> set d \<union> set kvs"
  "set (keys (update_all d kvs)) = set (keys d) \<union> set (keys kvs)"
proof -
  have u: "set (AList.update k v d) \<subseteq> insert (k, v) (set d)" for k v and d :: "('a \<times> 'b) list"
    by (induction d) auto
  show "set (update_all d kvs) \<subseteq> set d \<union> set kvs"
  proof (induction d kvs rule: update_all.induct)
    case (2 d k v kvs)
    then show ?case using u [of k v d] by auto
  qed simp
  show "set (keys (update_all d kvs)) = set (keys d) \<union> set (keys kvs)"
    by (induction d kvs rule: update_all.induct) (auto simp: keys_def dom_update simp flip: dom_map_of_conv_image_fst)
qed

lemma sort_empty [simp]: "sort xs = [] \<longleftrightarrow> xs = []"
  by (metis set_empty set_sort)

text \<open>What the manifest validator of an extension establishes.\<close>

lemma extension_manifest_optional:
  "extension_manifest x = Inr () \<Longrightarrow>
     (\<forall>rp \<in> set (px_special_inputs x). \<not> ps_required (snd rp)) \<and>
     (\<forall>a \<in> set (px_special_attributes x). \<not> at_required a)"
  by (auto simp: extension_manifest_def special_attributes_unique_def andthen_unit Let_def
      raise_first_all filter_empty_conv)

lemma merge_extension_extends:
  assumes "merge_extension x tabs = Inr tabs'" and "extension_manifest x = Inr ()"
  shows "extends tabs tabs'"
proof -
  obtain c s where cs: "map_of (fst tabs) (px_id x) = Some (c, s)"
    using assms(1) by (auto simp: merge_extension_def split: option.splits)
  let ?as = "attributes_of (snd tabs) (px_id x)"
  have t: "tabs' = (AList.update (px_id x) (update_all c (px_special_inputs x), s) (fst tabs),
       AList.update (px_id x) (?as @ map manifest_attribute (px_special_attributes x)) (snd tabs))"
    and c: "shadowing (keys (px_special_inputs x)) (keys c) = []"
    and d: "filter (\<lambda>a. at_name a \<in> set (map at_name ?as)) (px_special_attributes x) = []"
    using assms(1) cs sorted_set_Nil
    by (auto simp: merge_extension_def Let_def andthen_unit raise_first_all filter_empty_conv)
  have "extended (c, s, ?as) (update_all c (px_special_inputs x), s, ?as @ map manifest_attribute (px_special_attributes x))"
    using update_all_entries [of c "px_special_inputs x"] extension_manifest_optional [OF assms(2)] c d
    by (auto simp: extended_def shadowing_def filter_empty_conv list_all_iff keys_def)
  moreover have "entry tabs (px_id x) = Some (c, s, ?as)"
    using cs by (simp add: entry_def)
  moreover have "entry tabs' (px_id x) =
      Some (update_all c (px_special_inputs x), s, ?as @ map manifest_attribute (px_special_attributes x))"
    by (simp add: entry_def t attributes_of_def)
  moreover have "entry tabs' i = entry tabs i" if "i \<noteq> px_id x" for i
    using that by (simp add: entry_def t attributes_of_def split: option.split)
  ultimately show ?thesis
    unfolding extends_def by (metis extended_refl option.inject)
qed

lemma extends_trans:
  assumes "extends t1 t2" and "extends t2 t3"
  shows "extends t1 t3"
  unfolding extends_def
proof (intro allI impI)
  fix i x assume "entry t1 i = Some x"
  then obtain y where y: "entry t2 i = Some y" "extended x y"
    using assms(1) unfolding extends_def by blast
  then obtain z where "entry t3 i = Some z" "extended y z"
    using assms(2) unfolding extends_def by blast
  with y(2) show "\<exists>z. entry t3 i = Some z \<and> extended x z"
    using extended_trans by blast
qed

lemma merge_extensions_extends:
  "merge_extensions xs tabs = Inr tabs' \<Longrightarrow> \<forall>x \<in> set xs. extension_manifest x = Inr () \<Longrightarrow>
     extends tabs tabs'"
proof (induction xs arbitrary: tabs)
  case Nil
  then show ?case by (auto simp: extends_def intro: extended_refl)
next
  case (Cons x xs)
  then obtain t where t: "merge_extension x tabs = Inr t" "merge_extensions xs t = Inr tabs'"
    by (auto simp: andthen_Inr)
  then have "extends tabs t" "extends t tabs'"
    using merge_extension_extends Cons by auto
  then show ?case by (rule extends_trans)
qed

section \<open>Typing under extension\<close>

lemma merged_lookup_entry:
  "merged_lookup tabs i = Some p \<Longrightarrow>
     entry tabs i = Some (processor_consumer p, pr_supplier p, processor_attributes p)"
  using merged_lookup_Some [of tabs i p] by (simp add: entry_def)

lemma entry_merged_lookup:
  "entry tabs i = Some (c, s, as) \<Longrightarrow>
     \<exists>p. merged_lookup tabs i = Some p \<and> processor_consumer p = c \<and> pr_supplier p = s \<and>
       processor_attributes p = as"
  by (auto simp: entry_def merged_lookup_def processor_consumer_def processor_attributes_def
      split: option.splits)

lemma step_typed_extended:
  assumes "step_typed E av st p"
    and "extended (processor_consumer p, pr_supplier p, processor_attributes p)
           (processor_consumer q, pr_supplier q, processor_attributes q)"
  shows "step_typed E av st q"
proof -
  have w: "set (keys (st_wires st)) \<subseteq> set (keys (processor_consumer p))"
    and ports: "\<forall>rp \<in> set (processor_consumer p). port_typed av st rp"
    and va: "validate_attributes E (processor_attributes p) (st_attributes st) [] None = []"
    using assms(1) by (auto simp: step_typed_def)
  obtain bs where bs: "processor_attributes q = processor_attributes p @ bs"
    "list_all (\<lambda>b. \<not> at_required b \<and> at_name b \<notin> set (map at_name (processor_attributes p))) bs"
    using assms(2) by (auto simp: extended_def)
  have k: "set (keys (st_attributes st)) \<subseteq> set (map at_name (processor_attributes p))"
    using va by (auto simp: validate_attributes_def filter_empty_conv)
  have "check_attribute E None [] (st_attributes st) b = []" if "b \<in> set bs" for b
  proof -
    have "at_name b \<notin> set (keys (st_attributes st))" "\<not> at_required b"
      using bs(2) k that by (auto simp: list_all_iff)
    then show ?thesis by (simp add: check_attribute_def keys_iff)
  qed
  with va bs(1) k have "validate_attributes E (processor_attributes q) (st_attributes st) [] None = []"
    by (auto simp: validate_attributes_def filter_empty_conv)
  moreover have "port_typed av st rp" if "rp \<in> set (processor_consumer q)" for rp
  proof (cases "rp \<in> set (processor_consumer p)")
    case False
    then have r: "\<not> ps_required (snd rp)" "fst rp \<notin> set (keys (processor_consumer p))"
      using assms(2) that unfolding extended_def by auto
    then have "map_of (st_wires st) (fst rp) = None"
      using w keys_iff [of "fst rp" "st_wires st"] by blast
    with r(1) show ?thesis by (simp add: port_typed_def unwired_typed_def)
  qed (use ports in blast)
  moreover have "set (keys (processor_consumer p)) \<subseteq> set (keys (processor_consumer q))"
    using assms(2) unfolding extended_def by auto
  ultimately show ?thesis
    using w unfolding step_typed_def by blast
qed

lemma steps_typed_extended:
  assumes "\<And>i p. lk i = Some p \<Longrightarrow> \<exists>q. lk' i = Some q \<and>
      extended (processor_consumer p, pr_supplier p, processor_attributes p)
        (processor_consumer q, pr_supplier q, processor_attributes q)"
  shows "steps_typed E lk av refs sts \<Longrightarrow> steps_typed E lk' av refs sts"
proof (induction rule: steps_typed.induct)
  case (Cons st refs p av sts)
  obtain q where q: "lk' (st_processor st) = Some q"
    "extended (processor_consumer p, pr_supplier p, processor_attributes p)
       (processor_consumer q, pr_supplier q, processor_attributes q)"
    using assms [OF Cons.hyps(2)] by blast
  then have "pr_supplier q = pr_supplier p" by (simp add: extended_def)
  then have "add_supplies st q av = add_supplies st p av" by (simp add: add_supplies_def)
  with Cons q step_typed_extended [OF Cons.hyps(3) q(2)] show ?case by simp
qed simp

section \<open>The base tables\<close>

lemma core_no_lookup: "list_all (\<lambda>p. list_all (\<lambda>a. at_datatype_lookup a = None) (pr_attributes p)) CORE_PROCESSORS"
  by (simp add: core_tables)

lemma core_manifest_attributes:
  "p \<in> set CORE_PROCESSORS \<Longrightarrow> map manifest_attribute (pr_attributes p) = pr_attributes p"
  using core_no_lookup by (auto simp: list_all_iff manifest_attribute_def intro!: map_idI)

lemma core_no_special: "p \<in> set CORE_PROCESSORS \<Longrightarrow> pr_special_attributes p = []"
  by (auto simp: core_tables)

lemma map_of_by_id:
  assumes "p \<in> set CORE_PROCESSORS"
  shows "map_of (map (\<lambda>(i, p). (i, f p)) PROCESSORS_BY_ID) (pr_id p) = Some (f p)"
proof -
  have "distinct (map fst (map (\<lambda>(i, p). (i, f p)) PROCESSORS_BY_ID))"
    using core_ids_distinct by (simp add: processors_by_id comp_def)
  then show ?thesis using assms by (auto simp: map_of_eq_Some_iff processors_by_id)
qed

text \<open>Plugin processors with foreign ids leave the core entries as they are.\<close>

lemma base_entry:
  assumes "shadowing (map pp_id (tg_processors g)) (keys PROCESSORS_BY_ID) = []"
    and "processor_for i = Some p"
  shows "entry (base_tables g) i = Some (processor_consumer p, pr_supplier p, processor_attributes p)"
proof -
  have p: "p \<in> set CORE_PROCESSORS" "pr_id p = i"
    using assms(2) by (simp_all add: processor_for_iff)
  then have "i \<in> set (keys PROCESSORS_BY_ID)"
    by (auto simp: keys_def processors_by_id)
  then have n: "i \<notin> set (map pp_id (tg_processors g))"
    using assms(1) by (auto simp: shadowing_def filter_empty_conv)
  have none: "map_of (rev (update_all [] (map (\<lambda>p. (pp_id p, f p)) (tg_processors g)))) i = None" for f :: "plugin_processor \<Rightarrow> 'a"
    using n update_all_entries(2) [of "[]" "map (\<lambda>p. (pp_id p, f p)) (tg_processors g)"]
    by (auto simp: map_of_eq_None_iff keys_def image_image)
  show ?thesis
    using p map_of_by_id [OF p(1), of "\<lambda>p. (pr_consumer p, pr_supplier p)"]
      map_of_by_id [OF p(1), of "\<lambda>p. map manifest_attribute (pr_attributes p)"]
      none [of "\<lambda>p. (pp_consumer p, pp_supplier p)"] none [of "\<lambda>p. map manifest_attribute (pp_attributes p)"]
    by (simp add: entry_def base_tables_def map_of_update_all map_add_def core_processor_ports_def
        core_processor_attributes_def plugin_processor_ports_def plugin_processor_attributes_def
        attributes_of_def core_consumer [OF assms(2)] processor_attributes_def
        core_manifest_attributes core_no_special)
qed

lemma no_lookups_update:
  "no_lookups attrs \<Longrightarrow> \<forall>a \<in> set as. at_datatype_lookup a = None \<Longrightarrow>
     no_lookups (AList.update i as attrs)"
  by (auto simp: no_lookups_def attributes_of_def)

lemma no_lookups_update_all:
  "no_lookups attrs \<Longrightarrow> \<forall>(i, as) \<in> set kvs. \<forall>a \<in> set as. at_datatype_lookup a = None \<Longrightarrow>
     no_lookups (update_all attrs kvs)"
  by (induction attrs kvs rule: update_all.induct) (auto intro: no_lookups_update)

lemma no_lookups_base: "no_lookups (snd (base_tables g))"
proof -
  have c: "no_lookups core_processor_attributes"
    unfolding no_lookups_def attributes_of_def core_processor_attributes_def
    by (auto split: option.split dest!: map_of_SomeD [OF sym] map_of_SomeD)
  have "\<forall>(i, as) \<in> set (plugin_processor_attributes (tg_processors g)). \<forall>a \<in> set as. at_datatype_lookup a = None"
    using update_all_entries(1) [of "[]" "map (\<lambda>p. (pp_id p, map manifest_attribute (pp_attributes p))) (tg_processors g)"]
    by (fastforce simp: plugin_processor_attributes_def)
  with c show ?thesis by (simp add: base_tables_def no_lookups_update_all)
qed

lemma no_lookups_merge:
  "merge_extensions xs tabs = Inr tabs' \<Longrightarrow> no_lookups (snd tabs) \<Longrightarrow> no_lookups (snd tabs')"
proof (induction xs arbitrary: tabs)
  case (Cons x xs)
  then obtain t where t: "merge_extension x tabs = Inr t" "merge_extensions xs t = Inr tabs'"
    by (auto simp: andthen_Inr)
  have "\<forall>a \<in> set (attributes_of (snd tabs) (px_id x)). at_datatype_lookup a = None"
    using Cons.prems(2) by (simp add: no_lookups_def)
  then have "no_lookups (snd t)"
    using t(1) Cons.prems(2)
    by (auto simp: merge_extension_def Let_def andthen_unit split: option.splits intro!: no_lookups_update)
  with t(2) show ?case by (rule Cons.IH)
qed simp

text \<open>Every known processor has an entry, which merging keeps.\<close>

lemma known_processors_merged:
  assumes "merge_extensions xs (base_tables g) = Inr tabs" and "i \<in> set (known_processors g)"
  shows "merged_lookup tabs i \<noteq> None"
proof -
  have "set (keys (fst t)) \<subseteq> set (keys (fst tabs))" if "merge_extensions xs t = Inr tabs" for xs t
    using that
  proof (induction xs arbitrary: t)
    case (Cons x xs)
    then obtain u where u: "merge_extension x t = Inr u" "merge_extensions xs u = Inr tabs"
      by (auto simp: andthen_Inr)
    have "set (keys (fst t)) \<subseteq> set (keys (fst u))"
      using u(1) by (auto simp: merge_extension_def Let_def andthen_unit keys_iff split: option.splits if_splits)
    with Cons.IH [OF u(2)] show ?case by blast
  qed simp
  from this [OF assms(1)] have "set (keys (fst (base_tables g))) \<subseteq> set (keys (fst tabs))" .
  moreover have "i \<in> set (keys (fst (base_tables g)))"
    using assms(2) by (auto simp: known_processors_def base_tables_def update_all_entries(2)
        core_processor_ports_def plugin_processor_ports_def) (force simp: keys_def)+
  ultimately show ?thesis
    using keys_iff [of i "fst tabs"] by (auto simp: merged_lookup_dom)
qed

lemma pipeline_manifest_refs:
  assumes "pipeline_manifest l = Inr ()"
  shows "distinct (map st_ref (pl_steps l))" "''inputs'' \<notin> set (map st_ref (pl_steps l))"
    "list_all (\<lambda>st. CHR ''.'' \<notin> set (st_ref st)) (pl_steps l)" "distinct (pl_initial_inputs l)"
proof -
  have s: "\<forall>st \<in> set (pl_steps l). role_ok (st_ref st) \<and> st_ref st \<noteq> ''inputs''"
    using assms by (auto simp: pipeline_manifest_def andthen_unit each_Inr step_manifest_def raise_first_all)
  have "CHR ''.'' \<notin> set r" if "role_ok r" for r
  proof -
    have "set r = insert CHR 0x0A (set (butlast r))" if "r \<noteq> []" "last r = CHR 0x0A"
      using that append_butlast_last_id [of r]
      by (metis Un_insert_right list.simps(15) set_append set_empty sup_bot.right_neutral)
    with \<open>role_ok r\<close> lower_ident_no_dot show ?thesis
      unfolding role_ok_def dollar_def by auto
  qed
  with s show "list_all (\<lambda>st. CHR ''.'' \<notin> set (st_ref st)) (pl_steps l)"
    by (simp add: list_all_iff)
  show "''inputs'' \<notin> set (map st_ref (pl_steps l))" using s by auto
  show "distinct (map st_ref (pl_steps l))" "distinct (pl_initial_inputs l)"
    using assms by (auto simp: pipeline_manifest_def andthen_unit refs_unique_def initial_inputs_format_def
        raise_first_all Let_def)
qed

section \<open>Properties\<close>

text \<open>
  C38. The two validators agree: on a well-formed manifest pipeline whose processors are
  known, the plugin graph validation accepts exactly when the strict pipeline validator
  reports no error, for the registry that the merged tables stand for.
\<close>

theorem graph_validation_agrees:
  assumes "pipeline_manifest l = Inr ()" and "merge_extensions exts (base_tables g) = Inr tabs"
    and "is_data_type E = (\<lambda>s. s \<in> set known)"
    and "list_all (\<lambda>st. merged_lookup tabs (st_processor st) \<noteq> None) (pl_steps l)"
  shows "validate_pipeline_graph E known (fst tabs) (snd tabs) l = Inr () \<longleftrightarrow>
    strict_validate_pipeline E (pl_steps l) (pl_initial_inputs l) (merged_lookup tabs) = []"
proof -
  note m = pipeline_manifest_refs [OF assms(1)]
  have "no_lookups (snd tabs)"
    using no_lookups_merge [OF assms(2) no_lookups_base] .
  then have "graph_loop E known (pl_id l) (fst tabs) (snd tabs) (initial_supplies (pl_initial_inputs l)) (pl_steps l) = Inr () \<longleftrightarrow>
      steps_typed E (merged_lookup tabs) (initial_supplies (pl_initial_inputs l)) {''inputs''} (pl_steps l)"
    using m assms(3,4) dotless_initial by (intro graph_loop_ok) (auto simp: list_all_iff)
  then show ?thesis
    using m(4) by (simp add: validate_pipeline_graph_def strict_validate_Nil pipeline_typed_def)
qed

text \<open>
  C8. An accepted manifest declares working pipelines: each of them passes the strict
  validator of the server under the registry with the plugin's processors and extensions.
\<close>

theorem accepted_manifest_pipelines_valid:
  assumes "validate_typed_extension_graph E core_dts g = Inr ()"
    and "is_data_type E = (\<lambda>s. s \<in> set (known_datatypes core_dts g))"
    and "l \<in> set (tg_pipelines g)" and "pipeline_manifest l = Inr ()"
  shows "\<exists>tabs. merge_extensions (tg_extensions g) (base_tables g) = Inr tabs \<and>
    strict_validate_pipeline E (pl_steps l) (pl_initial_inputs l) (merged_lookup tabs) = []"
proof -
  obtain tabs where t: "merge_extensions (tg_extensions g) (base_tables g) = Inr tabs"
    "\<forall>l \<in> set (tg_pipelines g). pipeline_checks E core_dts g tabs l = Inr ()"
    using assms(1) by (auto simp: validate_typed_extension_graph_def Let_def andthen_unit andthen_Inr each_Inr)
  have c: "\<forall>st \<in> set (pl_steps l). st_processor st \<in> set (known_processors g)"
    "validate_pipeline_graph E (known_datatypes core_dts g) (fst tabs) (snd tabs) l = Inr ()"
    using t(2) assms(3) by (auto simp: pipeline_checks_def Let_def andthen_unit each_Inr)
  have known: "merged_lookup tabs i \<noteq> None" if "i \<in> set (known_processors g)" for i
    using known_processors_merged [OF t(1) that] .
  with c(1) have "list_all (\<lambda>st. merged_lookup tabs (st_processor st) \<noteq> None) (pl_steps l)"
    by (simp add: list_all_iff)
  with c(2) t(1) show ?thesis
    using graph_validation_agrees [OF assms(4) t(1) assms(2)] by blast
qed

text \<open>
  A plugin cannot break the core: every pipeline of core processors that validates
  without the plugin validates with its processors and extensions merged in.
\<close>

theorem extensions_keep_core_pipelines:
  assumes "validate_typed_extension_graph E' core_dts g = Inr ()"
    and "list_all (\<lambda>x. extension_manifest x = Inr ()) (tg_extensions g)"
    and "validate_pipeline E (Steps sts) inputs None = []"
  shows "\<exists>tabs. merge_extensions (tg_extensions g) (base_tables g) = Inr tabs \<and>
    validate_pipeline E (Steps sts) inputs (Some (merged_lookup tabs)) = []"
proof -
  obtain tabs where t: "merge_extensions (tg_extensions g) (base_tables g) = Inr tabs"
    and s: "shadowing (map pp_id (tg_processors g)) (keys PROCESSORS_BY_ID) = []"
    using assms(1) by (auto simp: validate_typed_extension_graph_def declaration_checks_def Let_def
        andthen_unit andthen_Inr)
  have x: "extends (base_tables g) tabs"
    using merge_extensions_extends [OF t] assms(2) by (simp add: list_all_iff)
  have "\<exists>q. merged_lookup tabs i = Some q \<and>
      extended (processor_consumer p, pr_supplier p, processor_attributes p)
        (processor_consumer q, pr_supplier q, processor_attributes q)"
    if pf: "processor_for i = Some p" for i p
  proof -
    obtain c s as where y: "entry tabs i = Some (c, s, as)"
      "extended (processor_consumer p, pr_supplier p, processor_attributes p) (c, s, as)"
      using x base_entry [OF s pf] unfolding extends_def by (metis prod_cases3)
    then show ?thesis using entry_merged_lookup [OF y(1)] by blast
  qed
  then have "steps_typed E processor_for av refs sts \<Longrightarrow> steps_typed E (merged_lookup tabs) av refs sts" for av refs
    by (rule steps_typed_extended)
  then have "validate_pipeline E (Steps sts) inputs (Some (merged_lookup tabs)) = []"
    using assms(3) by (auto simp: validate_pipeline_def strict_validate_Nil pipeline_typed_def split: if_splits)
  with t show ?thesis by blast
qed

section \<open>A manifest\<close>

definition demo_processor :: plugin_processor where
  "demo_processor = \<lparr>pp_id = ''densify'', pp_title = [], pp_consumer = [(''model'', port ''sparse_model'' [])],
     pp_supplier = [(''cloud'', port ''dense_cloud'' [])], pp_attributes = [], pp_description = [],
     pp_capabilities = [''dense'']\<rparr>"

definition demo_extension :: plugin_extension where
  "demo_extension = \<lparr>px_id = ''map'',
     px_special_inputs = [(''acme.prior'', (port ''sparse_model'' [])\<lparr>ps_required := False\<rparr>)],
     px_special_attributes = []\<rparr>"

definition demo_pipeline :: plugin_pipeline where
  "demo_pipeline = \<lparr>pl_id = ''dense'', pl_title = [], pl_initial_inputs = [''image_sequence''],
     pl_steps = [sfm_step ''map_feed_forward'' [],
       \<lparr>st_ref = ''refmap'', st_processor = ''densify'', st_attributes = [],
        st_wires = [(''model'', JStr ''map_feed_forward.model'')]\<rparr>],
     pl_description = []\<rparr>"

definition demo_graph :: typed_graph where
  "demo_graph = \<lparr>tg_datatypes = [\<lparr>pd_type_id = ''dense_cloud'', pd_title = [], pd_kind = ''artifact'', pd_description = []\<rparr>],
     tg_processors = [demo_processor], tg_pipelines = [demo_pipeline], tg_extensions = [demo_extension],
     tg_declared = Some [''dense''], tg_provider_caps = Some [[''dense'']], tg_namespaces = Some [''acme'']\<rparr>"

definition demo_env :: contract_env where
  "demo_env = \<lparr>float_repr = \<lambda>q. [],
     is_data_type = \<lambda>s. s \<in> set (known_datatypes core_datatypes demo_graph)\<rparr>"

definition demo_tabs :: "port_table \<times> attribute_table" where
  "demo_tabs = projr (merge_extensions (tg_extensions demo_graph) (base_tables demo_graph))"

lemma demo_merge: "merge_extensions (tg_extensions demo_graph) (base_tables demo_graph) = Inr demo_tabs"
proof -
  have "\<not> isl (merge_extensions (tg_extensions demo_graph) (base_tables demo_graph))"
    by code_simp
  then show ?thesis by (simp add: demo_tabs_def)
qed

lemma demo_accepted: "validate_typed_extension_graph demo_env core_datatypes demo_graph = Inr ()"
  by code_simp

lemma demo_manifest: "pipeline_manifest demo_pipeline = Inr ()"
  by code_simp

lemma demo_datatypes: "is_data_type demo_env = (\<lambda>s. s \<in> set (known_datatypes core_datatypes demo_graph))"
  by (simp add: demo_env_def)

lemma demo_known: "list_all (\<lambda>st. merged_lookup demo_tabs (st_processor st) \<noteq> None) (pl_steps demo_pipeline)"
proof -
  have "list_all (\<lambda>st. \<not> Option.is_none (merged_lookup demo_tabs (st_processor st))) (pl_steps demo_pipeline)"
    by code_simp
  then show ?thesis by (simp add: list_all_iff Option.is_none_def)
qed

theorem graph_validation_agrees_witness:
  "validate_pipeline_graph demo_env (known_datatypes core_datatypes demo_graph) (fst demo_tabs) (snd demo_tabs)
     demo_pipeline = Inr () \<longleftrightarrow>
   strict_validate_pipeline demo_env (pl_steps demo_pipeline) (pl_initial_inputs demo_pipeline)
     (merged_lookup demo_tabs) = []"
  by (rule graph_validation_agrees [OF demo_manifest demo_merge demo_datatypes demo_known])

theorem accepted_manifest_pipelines_valid_witness:
  "\<exists>tabs. merge_extensions (tg_extensions demo_graph) (base_tables demo_graph) = Inr tabs \<and>
    strict_validate_pipeline demo_env (pl_steps demo_pipeline) (pl_initial_inputs demo_pipeline) (merged_lookup tabs) = []"
  by (rule accepted_manifest_pipelines_valid [OF demo_accepted demo_datatypes _ demo_manifest])
    (simp add: demo_graph_def)

theorem extensions_keep_core_pipelines_witness:
  "\<exists>tabs. merge_extensions (tg_extensions demo_graph) (base_tables demo_graph) = Inr tabs \<and>
    validate_pipeline plain_contract (Steps (sfm_front @ [sfm_map])) DEFAULT_INITIAL_INPUTS (Some (merged_lookup tabs)) = []"
  by (rule extensions_keep_core_pipelines [OF demo_accepted _ sfm_valid]) code_simp

end
