(* ===== verification/Blob_Store.thy ===== *)
theory Blob_Store
  imports Errors
begin

text \<open>
  \<open>storage/blobs.py\<close>: the content-addressed blob stores (filesystem and in-memory), the
  factory that chooses one, and the working area of chunked uploads. SHA-256 (bytes to
  lowercase hex) and the address check of \<open>sceneio.blobstore\<close> are the fields of \<open>digest\<close>.
  Bytes are lists of characters. The S3 store is a client of an external service and is not
  modelled.

  The interface \<open>content_store\<close> is what the clients of a store rely on; it is interpreted
  on both stores and on the store that the factory returns.
\<close>

record digest =
  dg_sha :: "string \<Rightarrow> string"
  dg_valid :: "string \<Rightarrow> bool"

text \<open>\<open>_validate_sha\<close> raises the contract package's error, which maps to the same status.\<close>

definition validate_sha :: "digest \<Rightarrow> string \<Rightarrow> api_error + unit" where
  "validate_sha D sha =
     guard (\<not> dg_valid D sha) (mk_error StorageError (''Invalid sha256: '' @ py_repr sha) [])"

section \<open>Reading a stream\<close>

text \<open>What a reader returns, call by call; it ends with an empty chunk or an exception.\<close>

datatype chunk = Chunk string | Read_Error api_error

fun read_all :: "chunk list \<Rightarrow> string \<Rightarrow> api_error + string" where
  "read_all [] acc = Inr acc"
| "read_all (Chunk c # cs) acc = (if c = [] then Inr acc else read_all cs (acc @ c))"
| "read_all (Read_Error e # cs) acc = Inl e"

text \<open>\<open>reader.read(chunk_size)\<close> over bytes in memory or in a file.\<close>

function chunks_of :: "nat \<Rightarrow> string \<Rightarrow> chunk list" where
  "chunks_of n data =
     (if data = [] \<or> n = 0 then [] else Chunk (take n data) # chunks_of n (drop n data))"
  by pat_completeness auto
termination by (relation "measure (\<lambda>(n, data). length data)") auto

declare chunks_of.simps [simp del]

lemma read_chunks: "0 < n \<Longrightarrow> read_all (chunks_of n data) acc = Inr (acc @ data)"
proof (induction n data arbitrary: acc rule: chunks_of.induct)
  case (1 n data)
  then show ?case
    by (cases "data = []") (simp_all add: chunks_of.simps [of n data] chunks_of.simps [of n "[]"])
qed

lemma read_all_mono: "read_all cs acc = Inr b \<Longrightarrow> \<exists>s. b = acc @ s"
  by (induction cs acc rule: read_all.induct) (auto split: if_splits)

section \<open>The filesystem store\<close>

text \<open>Files below the root, by directory and name; a temporary file never survives a call.\<close>

type_synonym fs = "string \<times> string \<rightharpoonup> string"

definition path_for :: "string \<Rightarrow> string \<times> string" where
  "path_for sha = (take 2 sha, sha)"

definition fs_put_stream :: "digest \<Rightarrow> chunk list \<Rightarrow> fs \<Rightarrow> fs \<times> (api_error + string \<times> nat)" where
  "fs_put_stream D reader st =
     (case read_all reader [] of
        Inl e \<Rightarrow> (st, Inl e)
      | Inr data \<Rightarrow>
          (let sha = dg_sha D data in
           case validate_sha D sha of
             Inl e \<Rightarrow> (st, Inl e)
           | Inr _ \<Rightarrow>
               (if st (path_for sha) \<noteq> None then st else st(path_for sha \<mapsto> data),
                Inr (sha, length data))))"

definition fs_put_bytes :: "digest \<Rightarrow> string \<Rightarrow> fs \<Rightarrow> fs \<times> (api_error + string \<times> nat)" where
  "fs_put_bytes D data st = fs_put_stream D (chunks_of (1024 * 1024) data) st"

definition fs_exists :: "digest \<Rightarrow> string \<Rightarrow> fs \<Rightarrow> api_error + bool" where
  "fs_exists D sha st = andthen (validate_sha D sha) (\<lambda>_. Inr (st (path_for sha) \<noteq> None))"

definition blob_missing :: "string \<Rightarrow> api_error" where
  "blob_missing sha = mk_error StorageError (''Blob missing: '' @ sha) []"

definition fs_open :: "digest \<Rightarrow> string \<Rightarrow> fs \<Rightarrow> api_error + string" where
  "fs_open D sha st =
     andthen (validate_sha D sha) (\<lambda>_.
       case st (path_for sha) of None \<Rightarrow> Inl (blob_missing sha) | Some data \<Rightarrow> Inr data)"

definition fs_delete :: "digest \<Rightarrow> string \<Rightarrow> fs \<Rightarrow> fs \<times> (api_error + unit)" where
  "fs_delete D sha st =
     (case validate_sha D sha of
        Inl e \<Rightarrow> (st, Inl e)
      | Inr _ \<Rightarrow> (st(path_for sha := None), Inr ()))"

section \<open>The in-memory store\<close>

text \<open>The bytes by address, and the files materialised in the scratch directory.\<close>

record mem =
  mem_bytes :: "string \<rightharpoonup> string"
  mem_scratch :: "string \<times> string \<rightharpoonup> string"

definition mem_put_bytes :: "digest \<Rightarrow> string \<Rightarrow> mem \<Rightarrow> mem \<times> (api_error + string \<times> nat)" where
  "mem_put_bytes D data st =
     (let sha = dg_sha D data in
      (if mem_bytes st sha \<noteq> None then st else st\<lparr>mem_bytes := (mem_bytes st)(sha \<mapsto> data)\<rparr>,
       Inr (sha, length data)))"

definition mem_put_stream :: "digest \<Rightarrow> chunk list \<Rightarrow> mem \<Rightarrow> mem \<times> (api_error + string \<times> nat)" where
  "mem_put_stream D reader st =
     (case read_all reader [] of Inl e \<Rightarrow> (st, Inl e) | Inr data \<Rightarrow> mem_put_bytes D data st)"

definition mem_exists :: "digest \<Rightarrow> string \<Rightarrow> mem \<Rightarrow> api_error + bool" where
  "mem_exists D sha st = andthen (validate_sha D sha) (\<lambda>_. Inr (mem_bytes st sha \<noteq> None))"

definition mem_open :: "digest \<Rightarrow> string \<Rightarrow> mem \<Rightarrow> api_error + string" where
  "mem_open D sha st =
     (case mem_bytes st sha of None \<Rightarrow> Inl (blob_missing sha) | Some data \<Rightarrow> Inr data)"

text \<open>\<open>local_path\<close> writes the file once and returns its path.\<close>

definition mem_local_path ::
  "digest \<Rightarrow> string \<Rightarrow> mem \<Rightarrow> mem \<times> (api_error + string \<times> string)" where
  "mem_local_path D sha st =
     (case validate_sha D sha of
        Inl e \<Rightarrow> (st, Inl e)
      | Inr _ \<Rightarrow>
          (case mem_bytes st sha of
             None \<Rightarrow> (st, Inl (blob_missing sha))
           | Some data \<Rightarrow>
               (if mem_scratch st (path_for sha) \<noteq> None then st
                else st\<lparr>mem_scratch := (mem_scratch st)(path_for sha \<mapsto> data)\<rparr>,
                Inr (path_for sha))))"

definition mem_delete :: "digest \<Rightarrow> string \<Rightarrow> mem \<Rightarrow> mem \<times> (api_error + unit)" where
  "mem_delete D sha st =
     (st\<lparr>mem_bytes := (mem_bytes st)(sha := None),
         mem_scratch := (mem_scratch st)(path_for sha := None)\<rparr>, Inr ())"

definition mem_shutdown :: "mem \<Rightarrow> mem" where
  "mem_shutdown st = \<lparr>mem_bytes = Map.empty, mem_scratch = Map.empty\<rparr>"

section \<open>The factory\<close>

datatype blob_store = FS fs | Mem mem

fun put_stream :: "digest \<Rightarrow> chunk list \<Rightarrow> blob_store \<Rightarrow> blob_store \<times> (api_error + string \<times> nat)" where
  "put_stream D r (FS st) = (case fs_put_stream D r st of (st', x) \<Rightarrow> (FS st', x))"
| "put_stream D r (Mem st) = (case mem_put_stream D r st of (st', x) \<Rightarrow> (Mem st', x))"

fun open_blob :: "digest \<Rightarrow> string \<Rightarrow> blob_store \<Rightarrow> api_error + string" where
  "open_blob D sha (FS st) = fs_open D sha st"
| "open_blob D sha (Mem st) = mem_open D sha st"

fun delete_blob :: "digest \<Rightarrow> string \<Rightarrow> blob_store \<Rightarrow> blob_store \<times> (api_error + unit)" where
  "delete_blob D sha (FS st) = (case fs_delete D sha st of (st', x) \<Rightarrow> (FS st', x))"
| "delete_blob D sha (Mem st) = (case mem_delete D sha st of (st', x) \<Rightarrow> (Mem st', x))"

text \<open>
  \<open>get_blob_store\<close>: the filesystem store is a fresh wrapper over the files, the in-memory
  one a cached instance (a new one when there is none yet); \<open>s3\<close> needs the external client.
\<close>

definition get_blob_store :: "string \<Rightarrow> fs \<Rightarrow> mem option \<Rightarrow> api_error + blob_store option" where
  "get_blob_store backend files instance_opt =
     (if backend = ''fs'' then Inr (Some (FS files))
      else if backend = ''s3'' then Inr None
      else if backend = ''memory'' then
        Inr (Some (Mem (case instance_opt of
          None \<Rightarrow> \<lparr>mem_bytes = Map.empty, mem_scratch = Map.empty\<rparr> | Some m \<Rightarrow> m)))
      else raising StorageError (''unknown blob_backend='' @ py_repr backend @ ''; valid: ['' @
        joins '', '' (map py_repr [''fs'', ''memory'', ''s3'']) @ '']''))"

section \<open>The interface of a content-addressed store\<close>

locale content_store =
  fixes D :: digest
    and put :: "chunk list \<Rightarrow> 's \<Rightarrow> 's \<times> (api_error + string \<times> nat)"
    and get :: "string \<Rightarrow> 's \<Rightarrow> api_error + string"
    and del :: "string \<Rightarrow> 's \<Rightarrow> 's \<times> (api_error + unit)"
    and holds :: "'s \<Rightarrow> string \<rightharpoonup> string"
  assumes put_error: "read_all r [] = Inl e \<Longrightarrow> put r s = (s, Inl e)"
    and put_ok: "read_all r [] = Inr b \<Longrightarrow> dg_valid D (dg_sha D b) \<Longrightarrow>
      snd (put r s) = Inr (dg_sha D b, length b) \<and>
      holds (fst (put r s)) =
        (if holds s (dg_sha D b) = None then (holds s)(dg_sha D b \<mapsto> b) else holds s)"
    and get_holds: "dg_valid D sha \<Longrightarrow> get sha s = Inr b \<longleftrightarrow> holds s sha = Some b"
    and del_holds: "dg_valid D sha \<Longrightarrow> holds (fst (del sha s)) = (holds s)(sha := None)"
begin

text \<open>Every stored blob hashes to its address.\<close>

definition addressed :: "'s \<Rightarrow> bool" where
  "addressed s \<longleftrightarrow> (\<forall>sha b. holds s sha = Some b \<longrightarrow> dg_sha D b = sha)"

lemma put_addressed:
  assumes "addressed s" and "\<And>b. read_all r [] = Inr b \<Longrightarrow> dg_valid D (dg_sha D b)"
  shows "addressed (fst (put r s))"
proof (cases "read_all r []")
  case (Inl e)
  then show ?thesis using assms(1) put_error by simp
next
  case (Inr b)
  then show ?thesis
    using put_ok [OF Inr assms(2) [OF Inr], of s] assms(1) by (auto simp: addressed_def)
qed

lemma del_addressed: "addressed s \<Longrightarrow> dg_valid D sha \<Longrightarrow> addressed (fst (del sha s))"
  by (auto simp: addressed_def del_holds)

text \<open>What was put is read back, unless another blob with the same hash was there first.\<close>

lemma put_get:
  assumes "addressed s" and "read_all r [] = Inr b" and "dg_valid D (dg_sha D b)"
  shows "\<exists>b'. get (dg_sha D b) (fst (put r s)) = Inr b' \<and> dg_sha D b' = dg_sha D b \<and>
    (holds s (dg_sha D b) = None \<longrightarrow> b' = b)"
proof (cases "holds s (dg_sha D b)")
  case None
  then show ?thesis using put_ok [OF assms(2,3), of s] get_holds [OF assms(3)] by auto
next
  case (Some b')
  then have "dg_sha D b' = dg_sha D b" using assms(1) by (simp add: addressed_def)
  with Some show ?thesis using put_ok [OF assms(2,3), of s] get_holds [OF assms(3)] by auto
qed

text \<open>A put never changes what is read under an address that was readable before.\<close>

lemma put_keeps:
  assumes "get sha s = Inr b" and "dg_valid D sha" and "\<And>b. read_all r [] = Inr b \<Longrightarrow> dg_valid D (dg_sha D b)"
  shows "get sha (fst (put r s)) = Inr b"
proof (cases "read_all r []")
  case (Inl e)
  then show ?thesis using assms(1) put_error by simp
next
  case (Inr c)
  then show ?thesis
    using put_ok [OF Inr assms(3) [OF Inr], of s] assms(1,2) by (auto simp: get_holds)
qed

end

text \<open>What each store holds.\<close>

fun blob_holds :: "blob_store \<Rightarrow> string \<rightharpoonup> string" where
  "blob_holds (FS st) sha = st (path_for sha)"
| "blob_holds (Mem st) sha = mem_bytes st sha"

lemma path_for_inj [simp]: "path_for a = path_for b \<longleftrightarrow> a = b"
  by (auto simp: path_for_def)

lemma validate_sha_ok [simp]: "dg_valid D sha \<Longrightarrow> validate_sha D sha = Inr ()"
  by (simp add: validate_sha_def)

interpretation fs_store: content_store D "fs_put_stream D" "fs_open D" "fs_delete D" "\<lambda>st sha. st (path_for sha)" for D
  by unfold_locales
    (auto simp: fs_put_stream_def fs_open_def fs_delete_def Let_def fun_eq_iff split: option.splits)

interpretation mem_store: content_store D "mem_put_stream D" "mem_open D" "mem_delete D" mem_bytes for D
  by unfold_locales
    (auto simp: mem_put_stream_def mem_put_bytes_def mem_open_def mem_delete_def Let_def split: option.splits)

interpretation any_store: content_store D "put_stream D" "open_blob D" "delete_blob D" blob_holds for D
proof
  fix r e and s :: blob_store
  assume "read_all r [] = Inl e"
  then show "put_stream D r s = (s, Inl e)"
    using fs_store.put_error mem_store.put_error by (cases s) auto
next
  fix r b and s :: blob_store
  assume "read_all r [] = Inr b" "dg_valid D (dg_sha D b)"
  then show "snd (put_stream D r s) = Inr (dg_sha D b, length b) \<and>
      blob_holds (fst (put_stream D r s)) =
        (if blob_holds s (dg_sha D b) = None then (blob_holds s)(dg_sha D b \<mapsto> b) else blob_holds s)"
    by (cases s) (auto simp: fs_put_stream_def mem_put_stream_def mem_put_bytes_def Let_def fun_eq_iff)
next
  fix sha b and s :: blob_store
  assume "dg_valid D sha"
  then show "open_blob D sha s = Inr b \<longleftrightarrow> blob_holds s sha = Some b"
    using fs_store.get_holds mem_store.get_holds by (cases s) auto
  from \<open>dg_valid D sha\<close> show "blob_holds (fst (delete_blob D sha s)) = (blob_holds s)(sha := None)"
    by (cases s) (auto simp: fs_delete_def mem_delete_def fun_eq_iff)
qed

end
