(* ===== verification/Uploads.thy ===== *)
theory Uploads
  imports Blob_Store
begin

text \<open>
  \<open>services/upload_service.py\<close>, \<open>services/quota_service.py\<close> and the working area
  \<open>TempUploadStore\<close> of \<open>storage/blobs.py\<close>: chunked uploads from the first byte to a
  content-addressed blob.

  An operation returns the world and its result. When it raises, the request's transaction
  is rolled back, so the rows are those before the call; what it did to the files stays.
\<close>

type_synonym time = int

datatype upload_status = Open | Received | Finalized

record upload =
  up_id :: string
  up_tenant :: string
  up_idempotency_key :: "string option"
  up_expected_size :: int
  up_received_bytes :: int
  up_content_type :: "string option"
  up_expected_sha :: "string option"
  up_state :: upload_status
  up_blob_sha :: "string option"
  up_expires_at :: "time option"

record blob_row =
  blob_sha256 :: string
  blob_byte_size :: int
  blob_mime :: "string option"
  blob_refcount :: int

record quota_row =
  quota_storage_max :: "int option"
  quota_storage_used :: int
  quota_gpu_max :: "int option"

record gpu_usage =
  gpu_tenant :: string
  gpu_started_at :: time
  gpu_seconds :: "int option"

record upload_world =
  uploads :: "upload list"
  blob_rows :: "blob_row list"
  quotas :: "string \<rightharpoonup> quota_row"
  gpu_usages :: "gpu_usage list"
  temp_files :: "string \<rightharpoonup> string"
  store :: blob_store

record upload_settings =
  us_auth_mode :: string
  us_expiry_hours :: int
  us_digest :: digest

type_synonym 'a outcome = "upload_world \<times> (api_error + 'a)"

text \<open>The rollback: the rows of the world before, the files of the world after.\<close>

definition rolled_back :: "upload_world \<Rightarrow> upload_world \<Rightarrow> upload_world" where
  "rolled_back w w' = w\<lparr>temp_files := temp_files w', store := store w'\<rparr>"

section \<open>The working area\<close>

definition temp_append ::
  "string \<Rightarrow> int \<Rightarrow> string \<Rightarrow> (string \<rightharpoonup> string) \<Rightarrow> (string \<rightharpoonup> string) \<times> (api_error + int)" where
  "temp_append uid offset data fs =
     (let old = (case fs uid of None \<Rightarrow> [] | Some b \<Rightarrow> b);
          opened = fs(uid \<mapsto> old); current = int (length old) in
      if offset \<noteq> current then
        (opened, raising StorageError
           (''Out-of-order chunk: expected offset '' @ str_of_int current @ '', got '' @ str_of_int offset))
      else (fs(uid \<mapsto> old @ data), Inr (int (length (old @ data)))))"

definition temp_size :: "string \<Rightarrow> (string \<rightharpoonup> string) \<Rightarrow> int" where
  "temp_size uid fs = (case fs uid of None \<Rightarrow> 0 | Some b \<Rightarrow> int (length b))"

definition temp_hash_and_size :: "digest \<Rightarrow> string \<Rightarrow> (string \<rightharpoonup> string) \<Rightarrow> string \<times> int" where
  "temp_hash_and_size D uid fs =
     (case fs uid of None \<Rightarrow> ([], 0) | Some b \<Rightarrow> (dg_sha D b, int (length b)))"

definition temp_discard :: "string \<Rightarrow> (string \<rightharpoonup> string) \<Rightarrow> (string \<rightharpoonup> string)" where
  "temp_discard uid fs = fs(uid := None)"

text \<open>The file is removed as soon as the blob store has its bytes.\<close>

definition finalize_into ::
  "digest \<Rightarrow> string \<Rightarrow> upload_world \<Rightarrow> (string \<times> int) outcome" where
  "finalize_into D uid w =
     (case temp_files w uid of
        None \<Rightarrow> (w, raising StorageError (''No upload data for '' @ uid))
      | Some b \<Rightarrow>
          (case put_stream D (chunks_of (1024 * 1024) b) (store w) of
             (st, Inl e) \<Rightarrow> (w\<lparr>store := st\<rparr>, Inl e)
           | (st, Inr (sha, n)) \<Rightarrow>
               (w\<lparr>store := st, temp_files := temp_discard uid (temp_files w)\<rparr>, Inr (sha, int n))))"

section \<open>Quotas\<close>

definition fresh_quota :: quota_row where
  "fresh_quota = \<lparr>quota_storage_max = None, quota_storage_used = 0, quota_gpu_max = None\<rparr>"

definition get_or_create_quota :: "string \<Rightarrow> upload_world \<Rightarrow> upload_world \<times> quota_row" where
  "get_or_create_quota tenant w =
     (case quotas w tenant of
        Some q \<Rightarrow> (w, q)
      | None \<Rightarrow> (w\<lparr>quotas := (quotas w)(tenant \<mapsto> fresh_quota)\<rparr>, fresh_quota))"

definition check_storage ::
  "upload_settings \<Rightarrow> string \<Rightarrow> int \<Rightarrow> upload_world \<Rightarrow> unit outcome" where
  "check_storage s tenant additional w =
     (if us_auth_mode s = ''none'' then (w, Inr ())
      else
        (let (w1, q) = get_or_create_quota tenant w in
         case quota_storage_max q of
           None \<Rightarrow> (w1, Inr ())
         | Some m \<Rightarrow>
             if m < quota_storage_used q + additional then
               (w1, raising QuotaExceededError
                  (''storage quota: used='' @ str_of_int (quota_storage_used q) @
                   '', max='' @ str_of_int m))
             else (w1, Inr ())))"

definition seconds_of :: "int option \<Rightarrow> int" where
  "seconds_of x = (case x of None \<Rightarrow> 0 | Some n \<Rightarrow> n)"

definition day_seconds :: int where "day_seconds = 24 * 60 * 60"

definition check_gpu_seconds ::
  "upload_settings \<Rightarrow> time \<Rightarrow> string \<Rightarrow> upload_world \<Rightarrow> unit outcome" where
  "check_gpu_seconds s now tenant w =
     (if us_auth_mode s = ''none'' then (w, Inr ())
      else
        (let (w1, q) = get_or_create_quota tenant w in
         case quota_gpu_max q of
           None \<Rightarrow> (w1, Inr ())
         | Some m \<Rightarrow>
             (let used = sum_list (map (\<lambda>g. seconds_of (gpu_seconds g))
                  (filter (\<lambda>g. gpu_tenant g = tenant \<and> now - day_seconds \<le> gpu_started_at g)
                     (gpu_usages w))) in
              if m \<le> used then
                (w1, raising QuotaExceededError
                   (''gpu seconds quota: used='' @ str_of_int used @ '', max='' @ str_of_int m))
              else (w1, Inr ()))))"

section \<open>The operations\<close>

definition upload_expired :: "time \<Rightarrow> upload \<Rightarrow> bool" where
  "upload_expired now u =
     (if up_state u = Finalized then False
      else case up_expires_at u of None \<Rightarrow> True | Some t \<Rightarrow> t < now)"

definition gc_expired_uploads :: "time \<Rightarrow> upload_world \<Rightarrow> upload_world \<times> nat" where
  "gc_expired_uploads now w =
     (let rows = filter (\<lambda>u. up_state u \<noteq> Finalized \<and>
            (case up_expires_at u of None \<Rightarrow> True | Some t \<Rightarrow> t < now)) (uploads w);
          ids = map up_id rows in
      (w\<lparr>temp_files := fold temp_discard ids (temp_files w),
         uploads := filter (\<lambda>u. up_id u \<notin> set ids) (uploads w)\<rparr>, length rows))"

definition not_found :: "string \<Rightarrow> api_error" where
  "not_found uid = mk_error NotFoundError (''Upload '' @ uid @ '' not found'') []"

definition insert_upload ::
  "upload_settings \<Rightarrow> time \<Rightarrow> string \<Rightarrow> string \<Rightarrow> int \<Rightarrow> string option \<Rightarrow> string option
     \<Rightarrow> string option \<Rightarrow> upload_world \<Rightarrow> upload outcome" where
  "insert_upload s now new_id tenant wanted ctype sha key w =
     (let u = \<lparr>up_id = new_id, up_tenant = tenant, up_idempotency_key = key,
            up_expected_size = wanted, up_received_bytes = 0, up_content_type = ctype,
            up_expected_sha = sha, up_state = Open, up_blob_sha = None,
            up_expires_at = Some (now + us_expiry_hours s * 3600)\<rparr> in
      if key \<noteq> None \<and> list_ex (\<lambda>v. up_tenant v = tenant \<and> up_idempotency_key v = key) (uploads w)
      then (w, raising ConflictError ''Idempotency conflict on upload'')
      else (w\<lparr>uploads := uploads w @ [u]\<rparr>, Inr u))"

text \<open>
  \<open>if idempotency_key:\<close> skips the lookup for the empty key, which the unique constraint on
  the inserted row still sees.
\<close>

definition init_upload ::
  "upload_settings \<Rightarrow> time \<Rightarrow> string \<Rightarrow> string \<Rightarrow> int \<Rightarrow> string option \<Rightarrow> string option
     \<Rightarrow> string option \<Rightarrow> upload_world \<Rightarrow> upload outcome" where
  "init_upload s now new_id tenant wanted ctype sha key w =
     (if wanted \<le> 0 then (w, raising ValidationError ''expected_size must be > 0'')
      else case check_storage s tenant wanted w of
        (w1, Inl e) \<Rightarrow> (rolled_back w w1, Inl e)
      | (w1, Inr _) \<Rightarrow>
          (let w2 = fst (gc_expired_uploads now w1);
               existing = (if key = None \<or> key = Some [] then None
                 else find (\<lambda>u. up_tenant u = tenant \<and> up_idempotency_key u = key) (uploads w2)) in
           case existing of
             Some u \<Rightarrow>
               if upload_expired now u then (rolled_back w w2, Inl (not_found (up_id u)))
               else (w2, Inr u)
           | None \<Rightarrow>
               (case insert_upload s now new_id tenant wanted ctype sha key w2 of
                  (w3, Inl e) \<Rightarrow> (rolled_back w w3, Inl e)
                | (w3, Inr u) \<Rightarrow> (w3, Inr u))))"

definition get_upload :: "time \<Rightarrow> string \<Rightarrow> string \<Rightarrow> upload_world \<Rightarrow> api_error + upload" where
  "get_upload now tenant uid w =
     (case find (\<lambda>u. up_tenant u = tenant \<and> up_id u = uid) (uploads w) of
        None \<Rightarrow> Inl (not_found uid)
      | Some u \<Rightarrow> if upload_expired now u then Inl (not_found uid) else Inr u)"

definition save_upload :: "upload \<Rightarrow> upload_world \<Rightarrow> upload_world" where
  "save_upload u w = w\<lparr>uploads := map (\<lambda>v. if up_id v = up_id u then u else v) (uploads w)\<rparr>"

fun state_text :: "upload_status \<Rightarrow> string" where
  "state_text Open = ''open''"
| "state_text Received = ''received''"
| "state_text Finalized = ''finalized''"

definition append_chunk ::
  "time \<Rightarrow> string \<Rightarrow> string \<Rightarrow> int \<Rightarrow> string \<Rightarrow> upload_world \<Rightarrow> upload outcome" where
  "append_chunk now tenant uid offset data w =
     (case get_upload now tenant uid w of
        Inl e \<Rightarrow> (w, Inl e)
      | Inr u \<Rightarrow>
          if up_state u \<noteq> Open then
            (w, raising ConflictError
               (''Upload '' @ uid @ '' is not open (state='' @ state_text (up_state u) @ '')''))
          else if offset \<noteq> up_received_bytes u then
            (w, raising ValidationError
               (''Out-of-order chunk: expected offset '' @ str_of_int (up_received_bytes u) @
                '', got '' @ str_of_int offset))
          else if up_expected_size u < up_received_bytes u + int (length data) then
            (w, raising ValidationError ''Chunk exceeds expected_size'')
          else
            (case temp_append uid offset data (temp_files w) of
               (fs, Inl e) \<Rightarrow> (w\<lparr>temp_files := fs\<rparr>, Inl e)
             | (fs, Inr _) \<Rightarrow>
                 (let n = up_received_bytes u + int (length data);
                      u' = u\<lparr>up_received_bytes := n,
                             up_state := (if n = up_expected_size u then Received else Open)\<rparr> in
                  (save_upload u' (w\<lparr>temp_files := fs\<rparr>), Inr u'))))"

definition sha_differs :: "string option \<Rightarrow> string \<Rightarrow> bool" where
  "sha_differs given sha = (case given of None \<Rightarrow> False | Some g \<Rightarrow> g \<noteq> [] \<and> g \<noteq> sha)"

definition opt_text :: "string option \<Rightarrow> string" where
  "opt_text x = (case x of None \<Rightarrow> ''None'' | Some s \<Rightarrow> s)"

definition add_blob_row :: "string \<Rightarrow> int \<Rightarrow> string option \<Rightarrow> upload_world \<Rightarrow> upload_world" where
  "add_blob_row sha n mime w =
     (if list_ex (\<lambda>b. blob_sha256 b = sha) (blob_rows w) then w
      else w\<lparr>blob_rows := blob_rows w @
        [\<lparr>blob_sha256 = sha, blob_byte_size = n, blob_mime = mime, blob_refcount = 0\<rparr>]\<rparr>)"

definition finalize_upload ::
  "upload_settings \<Rightarrow> time \<Rightarrow> string \<Rightarrow> string \<Rightarrow> string option \<Rightarrow> upload_world \<Rightarrow> upload outcome" where
  "finalize_upload s now tenant uid client_sha w =
     (case get_upload now tenant uid w of
        Inl e \<Rightarrow> (w, Inl e)
      | Inr u \<Rightarrow>
          if up_state u = Finalized then (w, Inr u)
          else if up_state u = Open \<and> up_received_bytes u \<noteq> up_expected_size u then
            (w, raising ConflictError
               (''Upload incomplete: received '' @ str_of_int (up_received_bytes u) @ ''/'' @
                str_of_int (up_expected_size u)))
          else
            (case finalize_into (us_digest s) uid w of
               (w1, Inl e) \<Rightarrow> (rolled_back w w1, Inl e)
             | (w1, Inr (sha, nbytes)) \<Rightarrow>
                 if sha_differs (up_expected_sha u) sha then
                   (rolled_back w w1, raising ValidationError
                      (''Content sha mismatch: expected '' @ opt_text (up_expected_sha u) @
                       '', got '' @ sha))
                 else if sha_differs client_sha sha then
                   (rolled_back w w1, raising ValidationError
                      (''Content sha mismatch: client said '' @ opt_text client_sha @
                       '', got '' @ sha))
                 else if nbytes \<noteq> up_expected_size u then
                   (rolled_back w w1, raising ValidationError
                      (''Final size mismatch: expected '' @ str_of_int (up_expected_size u) @
                       '', got '' @ str_of_int nbytes))
                 else
                   (let u' = u\<lparr>up_state := Finalized, up_blob_sha := Some sha\<rparr> in
                    (save_upload u' (add_blob_row sha nbytes (up_content_type u) w1), Inr u'))))"

end
