(* ===== verification/Upload_Correct.thy ===== *)
theory Upload_Correct
  imports Uploads
begin

text \<open>
  Chunked uploads: a complete upload ends as a blob with the bytes of its chunks; the state
  of every upload is consistent after every operation; and a failed check at the end strands
  the upload, because its bytes are removed before the checks.
\<close>

section \<open>Rows\<close>

lemma get_upload_Some:
  "get_upload now tenant uid w = Inr u \<longleftrightarrow>
     find (\<lambda>u. up_tenant u = tenant \<and> up_id u = uid) (uploads w) = Some u \<and> \<not> upload_expired now u"
  by (auto simp: get_upload_def split: option.splits)

lemma get_upload_fields:
  "get_upload now tenant uid w = Inr u \<Longrightarrow> up_tenant u = tenant \<and> up_id u = uid \<and> u \<in> set (uploads w)"
  by (auto simp: get_upload_Some find_Some_iff)

lemma find_saved:
  "find (\<lambda>u. up_tenant u = tenant \<and> up_id u = uid) us = Some u \<Longrightarrow> up_id u' = uid \<Longrightarrow> up_tenant u' = tenant \<Longrightarrow>
     find (\<lambda>u. up_tenant u = tenant \<and> up_id u = uid) (map (\<lambda>v. if up_id v = up_id u' then u' else v) us) = Some u'"
  by (induction us) (auto split: if_splits)

lemma get_saved:
  assumes "get_upload now tenant uid w = Inr u" and "up_id u' = uid" "up_tenant u' = tenant"
    and "\<not> upload_expired now u'" and "uploads w' = uploads w"
  shows "get_upload now tenant uid (save_upload u' w') = Inr u'"
  using assms find_saved [of tenant uid "uploads w" u u']
  by (simp add: get_upload_Some save_upload_def)

lemma save_upload_fields [simp]:
  "temp_files (save_upload u w) = temp_files w" "store (save_upload u w) = store w"
  "blob_rows (save_upload u w) = blob_rows w" "quotas (save_upload u w) = quotas w"
  by (simp_all add: save_upload_def)

lemma add_blob_row_fields [simp]:
  "temp_files (add_blob_row sha n m w) = temp_files w" "store (add_blob_row sha n m w) = store w"
  "uploads (add_blob_row sha n m w) = uploads w" "quotas (add_blob_row sha n m w) = quotas w"
  by (simp_all add: add_blob_row_def)

lemma add_blob_row_sha: "sha \<in> blob_sha256 ` set (blob_rows (add_blob_row sha n m w))"
  by (auto simp: add_blob_row_def list_ex_iff)

lemma add_blob_row_mono: "blob_sha256 ` set (blob_rows w) \<subseteq> blob_sha256 ` set (blob_rows (add_blob_row sha n m w))"
  by (auto simp: add_blob_row_def)

section \<open>Appending\<close>

text \<open>The client's loop: chunks in order, at the offset reached so far.\<close>

fun append_all ::
  "time \<Rightarrow> string \<Rightarrow> string \<Rightarrow> int \<Rightarrow> string list \<Rightarrow> upload_world \<Rightarrow> unit outcome" where
  "append_all now tenant uid offset [] w = (w, Inr ())"
| "append_all now tenant uid offset (c # cs) w =
     (case append_chunk now tenant uid offset c w of
        (w', Inl e) \<Rightarrow> (w', Inl e)
      | (w', Inr _) \<Rightarrow> append_all now tenant uid (offset + int (length c)) cs w')"

text \<open>The upload row and the file agree on what has arrived.\<close>

definition holds_bytes :: "time \<Rightarrow> string \<Rightarrow> string \<Rightarrow> upload_world \<Rightarrow> upload \<Rightarrow> string \<Rightarrow> bool" where
  "holds_bytes now tenant uid w u b \<longleftrightarrow>
     get_upload now tenant uid w = Inr u \<and> up_received_bytes u = int (length b) \<and>
     (temp_files w uid = Some b \<or> temp_files w uid = None \<and> b = []) \<and>
     up_state u = (if up_received_bytes u = up_expected_size u then Received else Open)"

lemma append_step:
  assumes "holds_bytes now tenant uid w u b" and "int (length b + length c) \<le> up_expected_size u"
    and "int (length b) < up_expected_size u"
  shows "\<exists>w' u'. append_chunk now tenant uid (int (length b)) c w = (w', Inr u') \<and>
    holds_bytes now tenant uid w' u' (b @ c) \<and> temp_files w' uid = Some (b @ c) \<and>
    store w' = store w \<and> blob_rows w' = blob_rows w \<and> up_expected_size u' = up_expected_size u \<and>
    up_expected_sha u' = up_expected_sha u"
proof -
  have g: "get_upload now tenant uid w = Inr u" and r: "up_received_bytes u = int (length b)"
    and t: "temp_files w uid = Some b \<or> temp_files w uid = None \<and> b = []" and o: "up_state u = Open"
    using assms by (auto simp: holds_bytes_def)
  define n where "n = int (length b) + int (length c)"
  define u' where "u' = u\<lparr>up_received_bytes := n,
     up_state := (if n = up_expected_size u then Received else Open)\<rparr>"
  define w' where "w' = save_upload u' (w\<lparr>temp_files := (temp_files w)(uid \<mapsto> b @ c)\<rparr>)"
  have ta: "temp_append uid (int (length b)) c (temp_files w) =
      ((temp_files w)(uid \<mapsto> b @ c), Inr (int (length (b @ c))))"
    using t by (auto simp: temp_append_def)
  have "append_chunk now tenant uid (int (length b)) c w = (w', Inr u')"
    using assms(2) by (simp add: append_chunk_def g o r ta w'_def u'_def n_def Let_def)
  moreover have "\<not> upload_expired now u'"
    using g o by (auto simp: get_upload_Some upload_expired_def u'_def split: option.splits if_splits)
  then have "get_upload now tenant uid w' = Inr u'"
    unfolding w'_def using get_upload_fields [OF g] by (intro get_saved [OF g]) (auto simp: u'_def)
  ultimately show ?thesis
    by (auto simp: holds_bytes_def w'_def u'_def n_def)
qed

lemma append_all_bytes:
  assumes "holds_bytes now tenant uid w u b" and "int (length b + length (concat cs)) = up_expected_size u"
    and "[] \<notin> set cs" and "0 < up_expected_size u"
  shows "\<exists>w' u'. append_all now tenant uid (int (length b)) cs w = (w', Inr ()) \<and>
    holds_bytes now tenant uid w' u' (b @ concat cs) \<and> store w' = store w \<and> blob_rows w' = blob_rows w \<and>
    up_expected_size u' = up_expected_size u \<and> up_expected_sha u' = up_expected_sha u"
  using assms
proof (induction cs arbitrary: w u b)
  case Nil
  then show ?case by auto
next
  case (Cons c cs)
  have "0 < length c" using Cons.prems(3) by (cases c) auto
  moreover have "up_expected_size u = int (length b) + int (length c) + int (length (concat cs))"
    using Cons.prems(2) by simp
  ultimately have "int (length b + length c) \<le> up_expected_size u" "int (length b) < up_expected_size u"
    by linarith+
  from append_step [OF Cons.prems(1) this] obtain w1 u1 where
    s: "append_chunk now tenant uid (int (length b)) c w = (w1, Inr u1)"
       "holds_bytes now tenant uid w1 u1 (b @ c)" "store w1 = store w" "blob_rows w1 = blob_rows w"
       "up_expected_size u1 = up_expected_size u" "up_expected_sha u1 = up_expected_sha u"
    by blast
  have "int (length (b @ c) + length (concat cs)) = up_expected_size u1"
    using Cons.prems(2) s(5) by simp
  from Cons.IH [OF s(2) this] Cons.prems(3,4) s(5) obtain w2 u2 where
    "append_all now tenant uid (int (length (b @ c))) cs w1 = (w2, Inr ())"
    "holds_bytes now tenant uid w2 u2 ((b @ c) @ concat cs)" "store w2 = store w1" "blob_rows w2 = blob_rows w1"
    "up_expected_size u2 = up_expected_size u1" "up_expected_sha u2 = up_expected_sha u1"
    by auto
  moreover have "int (length b) + int (length c) = int (length (b @ c))" by simp
  ultimately show ?case
    using s by (intro exI [of _ w2] exI [of _ u2]) (simp only: append_all.simps prod.case sum.case append_assoc concat.simps)
qed

section \<open>Finalizing\<close>

lemma finalize_into_file:
  assumes "temp_files w uid = Some b" and "dg_valid D (dg_sha D b)"
  shows "\<exists>w'. finalize_into D uid w = (w', Inr (dg_sha D b, int (length b))) \<and>
    store w' = fst (put_stream D (chunks_of (1024 * 1024) b) (store w)) \<and>
    temp_files w' = (temp_files w)(uid := None) \<and> uploads w' = uploads w \<and> blob_rows w' = blob_rows w \<and>
    quotas w' = quotas w \<and> gpu_usages w' = gpu_usages w"
proof -
  have r: "read_all (chunks_of (1024 * 1024) b) [] = Inr b"
    by (simp add: read_chunks)
  from any_store.put_ok [OF r assms(2), of "store w"] assms(1) show ?thesis
    by (cases "put_stream D (chunks_of (1024 * 1024) b) (store w)")
      (auto simp: finalize_into_def temp_discard_def)
qed

lemma finalize_ok:
  assumes "holds_bytes now tenant uid w u b" and "temp_files w uid = Some b"
    and "up_expected_size u = int (length b)" and "dg_valid (us_digest s) (dg_sha (us_digest s) b)"
    and "\<not> sha_differs (up_expected_sha u) (dg_sha (us_digest s) b)"
    and "\<not> sha_differs client (dg_sha (us_digest s) b)"
  shows "\<exists>w'. finalize_upload s now tenant uid client w =
      (w', Inr (u\<lparr>up_state := Finalized, up_blob_sha := Some (dg_sha (us_digest s) b)\<rparr>)) \<and>
    store w' = fst (put_stream (us_digest s) (chunks_of (1024 * 1024) b) (store w)) \<and>
    temp_files w' uid = None \<and> dg_sha (us_digest s) b \<in> blob_sha256 ` set (blob_rows w')"
proof -
  have g: "get_upload now tenant uid w = Inr u" "up_state u = Received" "up_received_bytes u = up_expected_size u"
    using assms(1,3) by (auto simp: holds_bytes_def)
  obtain w1 where w1: "finalize_into (us_digest s) uid w = (w1, Inr (dg_sha (us_digest s) b, int (length b)))"
    "store w1 = fst (put_stream (us_digest s) (chunks_of (1024 * 1024) b) (store w))"
    "temp_files w1 = (temp_files w)(uid := None)"
    using finalize_into_file [OF assms(2,4)] by blast
  then show ?thesis
    using assms(3,5,6) add_blob_row_sha [of "dg_sha (us_digest s) b" "int (length b)" "up_content_type u" w1]
    by (simp add: finalize_upload_def g Let_def)
qed

section \<open>Consistency\<close>

definition upload_ok :: "digest \<Rightarrow> blob_store \<Rightarrow> string set \<Rightarrow> upload \<Rightarrow> bool" where
  "upload_ok D st shas u \<longleftrightarrow>
     0 \<le> up_received_bytes u \<and> up_received_bytes u \<le> up_expected_size u \<and> 0 < up_expected_size u \<and>
     (case up_state u of
        Open \<Rightarrow> up_received_bytes u < up_expected_size u
      | Received \<Rightarrow> up_received_bytes u = up_expected_size u
      | Finalized \<Rightarrow> up_received_bytes u = up_expected_size u \<and>
          (\<exists>sha. up_blob_sha u = Some sha \<and> sha \<in> shas \<and> blob_holds st sha \<noteq> None \<and>
             \<not> sha_differs (up_expected_sha u) sha))"

definition upload_inv :: "digest \<Rightarrow> upload_world \<Rightarrow> bool" where
  "upload_inv D w \<longleftrightarrow>
     distinct (map up_id (uploads w)) \<and> any_store.addressed D (store w) \<and>
     (\<forall>u \<in> set (uploads w). upload_ok D (store w) (blob_sha256 ` set (blob_rows w)) u)"

text \<open>Rows and stored blobs only grow.\<close>

definition grows :: "upload_world \<Rightarrow> upload_world \<Rightarrow> bool" where
  "grows w w' \<longleftrightarrow>
     blob_sha256 ` set (blob_rows w) \<subseteq> blob_sha256 ` set (blob_rows w') \<and>
     (\<forall>sha. blob_holds (store w) sha \<noteq> None \<longrightarrow> blob_holds (store w') sha \<noteq> None)"

lemma upload_ok_grows:
  "upload_ok D (store w) (blob_sha256 ` set (blob_rows w)) u \<Longrightarrow> grows w w' \<Longrightarrow>
     upload_ok D (store w') (blob_sha256 ` set (blob_rows w')) u"
  by (auto simp: upload_ok_def grows_def split: upload_status.splits)

lemma upload_inv_grows:
  assumes "upload_inv D w" and "grows w w'" and "any_store.addressed D (store w')"
    and "distinct (map up_id (uploads w'))" and "set (uploads w') \<subseteq> set (uploads w)"
  shows "upload_inv D w'"
  using assms upload_ok_grows [OF _ assms(2)] by (auto simp: upload_inv_def)

lemma upload_inv_save:
  assumes "upload_inv D w" and "grows w w'" and "any_store.addressed D (store w')"
    and "uploads w' = uploads w"
    and "upload_ok D (store w') (blob_sha256 ` set (blob_rows w')) u"
  shows "upload_inv D (save_upload u w')"
proof -
  have "map up_id (uploads (save_upload u w')) = map up_id (uploads w)"
    using assms(4) by (auto simp: save_upload_def)
  then show ?thesis
    using assms upload_ok_grows [OF _ assms(2)]
    by (simp add: upload_inv_def) (auto simp: save_upload_def)
qed

lemma grows_refl: "blob_rows w' = blob_rows w \<Longrightarrow> store w' = store w \<Longrightarrow> grows w w'"
  by (simp add: grows_def)

lemma upload_inv_same_rows:
  "upload_inv D w \<Longrightarrow> uploads w' = uploads w \<Longrightarrow> blob_rows w' = blob_rows w \<Longrightarrow> store w' = store w \<Longrightarrow>
     upload_inv D w'"
  by (simp add: upload_inv_def)

lemma gc_fields:
  "store (fst (gc_expired_uploads now w)) = store w"
  "blob_rows (fst (gc_expired_uploads now w)) = blob_rows w"
  "set (uploads (fst (gc_expired_uploads now w))) \<subseteq> set (uploads w)"
  "distinct (map up_id (uploads w)) \<Longrightarrow> distinct (map up_id (uploads (fst (gc_expired_uploads now w))))"
  by (auto simp: gc_expired_uploads_def Let_def distinct_map_filter)

lemma upload_inv_gc:
  assumes "upload_inv D w"
  shows "upload_inv D (fst (gc_expired_uploads now w))"
proof (rule upload_inv_grows [OF assms])
  show "grows w (fst (gc_expired_uploads now w))" by (simp add: grows_refl gc_fields)
qed (use assms in \<open>simp_all add: upload_inv_def gc_fields\<close>)

lemma check_storage_fields:
  "check_storage s t n w = (w', r) \<Longrightarrow>
     uploads w' = uploads w \<and> blob_rows w' = blob_rows w \<and> store w' = store w \<and> temp_files w' = temp_files w"
  by (auto simp: check_storage_def get_or_create_quota_def Let_def split: if_splits option.splits prod.splits)

lemma rolled_back_fields [simp]:
  "uploads (rolled_back w w') = uploads w" "blob_rows (rolled_back w w') = blob_rows w"
  "store (rolled_back w w') = store w'" "temp_files (rolled_back w w') = temp_files w'"
  by (simp_all add: rolled_back_def)

lemma upload_inv_insert:
  assumes "upload_inv D w" and "new_id \<notin> set (map up_id (uploads w))" and "0 < wanted"
    and "insert_upload s now new_id tenant wanted ctype sha key w = (w', r)"
  shows "upload_inv D w' \<and> store w' = store w"
proof (cases "uploads w' = uploads w")
  case True
  then show ?thesis
    using assms by (auto simp: insert_upload_def Let_def split: if_splits)
next
  case False
  then obtain u where u: "w' = w\<lparr>uploads := uploads w @ [u]\<rparr>" "up_id u = new_id" "up_state u = Open"
    "up_received_bytes u = 0" "up_expected_size u = wanted"
    using assms(4) by (auto simp: insert_upload_def Let_def split: if_splits)
  then have "upload_ok D (store w) (blob_sha256 ` set (blob_rows w)) u"
    using assms(3) by (simp add: upload_ok_def)
  with u assms(1,2) show ?thesis by (auto simp: upload_inv_def)
qed

lemma upload_inv_init:
  assumes "upload_inv D w" and "new_id \<notin> set (map up_id (uploads w))"
  shows "upload_inv D (fst (init_upload s now new_id tenant wanted ctype sha key w))"
proof (cases "wanted \<le> 0")
  case False
  obtain w1 r where c: "check_storage s tenant wanted w = (w1, r)" by fastforce
  note f = check_storage_fields [OF c]
  have i1: "upload_inv D w1" using assms(1) f by (auto intro: upload_inv_same_rows)
  define w2 where "w2 = fst (gc_expired_uploads now w1)"
  have i2: "upload_inv D w2" using upload_inv_gc [OF i1] by (simp add: w2_def)
  have s2: "store w2 = store w" "new_id \<notin> set (map up_id (uploads w2))"
    using gc_fields [where now = now and w = w1] f assms(2) by (auto simp: w2_def)
  have undo: "upload_inv D (rolled_back w v)" if "store v = store w" for v
    using assms(1) that by (auto intro: upload_inv_same_rows)
  obtain w3 r3 where i: "insert_upload s now new_id tenant wanted ctype sha key w2 = (w3, r3)" by fastforce
  have i3: "upload_inv D w3" "store w3 = store w"
    using upload_inv_insert [OF i2 s2(2) _ i] False s2(1) by auto
  show ?thesis
    using False c i i2 i3 undo f s2(1)
    by (auto simp: init_upload_def Let_def w2_def [symmetric] split: sum.splits option.splits if_splits)
qed (use assms in \<open>simp add: init_upload_def\<close>)

lemma upload_inv_append:
  assumes "upload_inv D w"
  shows "upload_inv D (fst (append_chunk now tenant uid offset data w))"
proof (cases "snd (append_chunk now tenant uid offset data w)")
  case (Inl e)
  then have "uploads (fst (append_chunk now tenant uid offset data w)) = uploads w \<and>
      blob_rows (fst (append_chunk now tenant uid offset data w)) = blob_rows w \<and>
      store (fst (append_chunk now tenant uid offset data w)) = store w"
    by (auto simp: append_chunk_def Let_def split: sum.splits if_splits prod.splits)
  with assms show ?thesis by (auto intro: upload_inv_same_rows)
next
  case (Inr u')
  then obtain u fs where u: "get_upload now tenant uid w = Inr u" "up_state u = Open"
    "up_received_bytes u + int (length data) \<le> up_expected_size u"
    and r: "append_chunk now tenant uid offset data w = (save_upload u' (w\<lparr>temp_files := fs\<rparr>), Inr u')"
    and u': "u' = u\<lparr>up_received_bytes := up_received_bytes u + int (length data),
       up_state := (if up_received_bytes u + int (length data) = up_expected_size u then Received else Open)\<rparr>"
    by (auto simp: append_chunk_def Let_def raising_def split: sum.splits if_splits prod.splits)
  have "upload_ok D (store w) (blob_sha256 ` set (blob_rows w)) u"
    using get_upload_fields [OF u(1)] assms by (auto simp: upload_inv_def)
  then have "upload_ok D (store w) (blob_sha256 ` set (blob_rows w)) u'"
    using u(2,3) by (auto simp: upload_ok_def u')
  then show ?thesis
    unfolding r fst_conv
    by (intro upload_inv_save [OF assms]) (use assms in \<open>auto simp: grows_refl upload_inv_def\<close>)
qed

lemma put_grows:
  assumes "\<And>b. dg_valid D (dg_sha D b)" and "any_store.addressed D st"
  shows "any_store.addressed D (fst (put_stream D r st))"
    and "blob_holds st sha \<noteq> None \<Longrightarrow> blob_holds (fst (put_stream D r st)) sha \<noteq> None"
    and "read_all r [] = Inr b \<Longrightarrow> blob_holds (fst (put_stream D r st)) (dg_sha D b) \<noteq> None"
proof -
  show "any_store.addressed D (fst (put_stream D r st))"
    using assms by (intro any_store.put_addressed) auto
  show "blob_holds (fst (put_stream D r st)) sha \<noteq> None" if "blob_holds st sha \<noteq> None"
    using that any_store.put_error [of r _ D st] any_store.put_ok [of r _ D st] assms(1)
    by (cases "read_all r []") auto
  show "blob_holds (fst (put_stream D r st)) (dg_sha D b) \<noteq> None" if "read_all r [] = Inr b"
    using any_store.put_ok [OF that assms(1), of st] by auto
qed

lemma finalize_into_cases:
  assumes "\<And>b. dg_valid D (dg_sha D b)" and "finalize_into D uid w = (w', r)"
  shows "temp_files w uid = None \<and> w' = w \<and> (\<exists>e. r = Inl e \<and> err_class e = StorageError) \<or>
    (\<exists>b. temp_files w uid = Some b \<and> r = Inr (dg_sha D b, int (length b)) \<and>
       store w' = fst (put_stream D (chunks_of (1024 * 1024) b) (store w)) \<and>
       temp_files w' = (temp_files w)(uid := None) \<and> uploads w' = uploads w \<and> blob_rows w' = blob_rows w)"
proof (cases "temp_files w uid")
  case None
  then show ?thesis using assms(2) by (auto simp: finalize_into_def raising_def mk_error_def)
next
  case (Some b)
  with finalize_into_file [OF Some assms(1)] assms(2) show ?thesis by auto
qed

lemma finalize_result:
  assumes "finalize_into (us_digest s) uid w = (w1, r)"
  shows "fst (finalize_upload s now tenant uid client w) \<in> {w, rolled_back w w1} \<or>
    (\<exists>u sha n. get_upload now tenant uid w = Inr u \<and> r = Inr (sha, n) \<and>
      fst (finalize_upload s now tenant uid client w) =
        save_upload (u\<lparr>up_state := Finalized, up_blob_sha := Some sha\<rparr>)
          (add_blob_row sha n (up_content_type u) w1) \<and>
      up_state u \<noteq> Finalized \<and> (up_state u = Open \<longrightarrow> up_received_bytes u = up_expected_size u) \<and>
      \<not> sha_differs (up_expected_sha u) sha)"
proof (cases "get_upload now tenant uid w")
  case (Inl e)
  then show ?thesis by (simp add: finalize_upload_def)
next
  case (Inr u)
  then show ?thesis
    using assms by (cases r) (simp_all add: finalize_upload_def Let_def split: prod.split)
qed

lemma upload_ok_finalized:
  assumes "upload_ok D st shas u" and "up_state u \<noteq> Finalized"
    and "up_state u = Open \<longrightarrow> up_received_bytes u = up_expected_size u"
    and "sha \<in> shas'" and "blob_holds st' sha \<noteq> None" and "\<not> sha_differs (up_expected_sha u) sha"
  shows "upload_ok D st' shas' (u\<lparr>up_state := Finalized, up_blob_sha := Some sha\<rparr>)"
  using assms by (cases "up_state u") (simp_all add: upload_ok_def)

lemma upload_inv_finalize:
  assumes "upload_inv (us_digest s) w" and "\<And>b. dg_valid (us_digest s) (dg_sha (us_digest s) b)"
  shows "upload_inv (us_digest s) (fst (finalize_upload s now tenant uid client w))"
proof -
  let ?D = "us_digest s"
  obtain w1 r where f: "finalize_into ?D uid w = (w1, r)" by fastforce
  have ad: "any_store.addressed ?D (store w)" using assms(1) by (simp add: upload_inv_def)
  have g: "grows w w1 \<and> any_store.addressed ?D (store w1) \<and> uploads w1 = uploads w \<and> blob_rows w1 = blob_rows w"
    using finalize_into_cases [OF assms(2) f] put_grows(1,2) [OF assms(2) ad] ad
    by (elim disjE exE conjE) (simp_all add: grows_def)
  have undo: "upload_inv ?D (rolled_back w w1)"
    by (rule upload_inv_grows [OF assms(1)]) (use g assms(1) in \<open>simp_all add: grows_def upload_inv_def\<close>)
  consider "fst (finalize_upload s now tenant uid client w) \<in> {w, rolled_back w w1}"
    | u sha n where "get_upload now tenant uid w = Inr u" "r = Inr (sha, n)"
        "fst (finalize_upload s now tenant uid client w) =
          save_upload (u\<lparr>up_state := Finalized, up_blob_sha := Some sha\<rparr>)
            (add_blob_row sha n (up_content_type u) w1)"
        "up_state u \<noteq> Finalized" "up_state u = Open \<longrightarrow> up_received_bytes u = up_expected_size u"
        "\<not> sha_differs (up_expected_sha u) sha"
    using finalize_result [OF f] by blast
  then show ?thesis
  proof cases
    case 1
    with assms(1) undo show ?thesis by auto
  next
    case (2 u sha n)
    obtain b where b: "sha = dg_sha ?D b" "store w1 = fst (put_stream ?D (chunks_of (1024 * 1024) b) (store w))"
      using finalize_into_cases [OF assms(2) f] 2(2) by auto
    have "read_all (chunks_of (1024 * 1024) b) [] = Inr b" by (simp add: read_chunks)
    then have held: "blob_holds (store w1) sha \<noteq> None"
      unfolding b by (rule put_grows(3) [OF assms(2) ad])
    have "upload_ok ?D (store w) (blob_sha256 ` set (blob_rows w)) u"
      using get_upload_fields [OF 2(1)] assms(1) by (auto simp: upload_inv_def)
    note ok = upload_ok_finalized [OF this 2(4,5) add_blob_row_sha held 2(6)]
    show ?thesis
      unfolding 2(3)
    proof (rule upload_inv_save [OF assms(1)])
      show "grows w (add_blob_row sha n (up_content_type u) w1)"
        using g add_blob_row_mono [of w1 sha n "up_content_type u"] by (auto simp: grows_def)
    qed (use g ok in simp_all)
  qed
qed

text \<open>The operations in any order.\<close>

inductive upload_step :: "upload_settings \<Rightarrow> upload_world \<Rightarrow> upload_world \<Rightarrow> bool" for s where
  Init: "new_id \<notin> set (map up_id (uploads w)) \<Longrightarrow>
    upload_step s w (fst (init_upload s now new_id tenant wanted ctype sha key w))"
| Append: "upload_step s w (fst (append_chunk now tenant uid offset data w))"
| Finalize: "upload_step s w (fst (finalize_upload s now tenant uid client w))"
| GC: "upload_step s w (fst (gc_expired_uploads now w))"
| Put: "upload_step s w (w\<lparr>store := fst (put_stream (us_digest s) r (store w))\<rparr>)"

definition empty_world :: "upload_world" where
  "empty_world = \<lparr>uploads = [], blob_rows = [], quotas = Map.empty, gpu_usages = [], temp_files = Map.empty,
     store = FS Map.empty\<rparr>"

inductive upload_reachable :: "upload_settings \<Rightarrow> upload_world \<Rightarrow> bool" for s where
  Start: "upload_reachable s empty_world"
| Step: "upload_reachable s w \<Longrightarrow> upload_step s w w' \<Longrightarrow> upload_reachable s w'"

lemma upload_inv_upload_step:
  assumes "upload_step s w w'" and "upload_inv (us_digest s) w"
    and "\<And>b. dg_valid (us_digest s) (dg_sha (us_digest s) b)"
  shows "upload_inv (us_digest s) w'"
  using assms(1)
proof cases
  case (Put r)
  have a: "any_store.addressed (us_digest s) (store w)" using assms(2) by (simp add: upload_inv_def)
  have "grows w w'" using Put put_grows(2) [OF assms(3) a] by (simp add: grows_def)
  then show ?thesis
    using put_grows(1) [OF assms(3) a] assms(2) Put
    by (elim upload_inv_grows [OF assms(2)]) (simp_all add: upload_inv_def)
qed (use assms in \<open>auto intro: upload_inv_init upload_inv_append upload_inv_finalize upload_inv_gc\<close>)

section \<open>Properties\<close>

text \<open>
  C24. Round trip of a chunked upload: sending the bytes as non-empty chunks, in order and to
  the announced size, and finalizing yields a blob whose address is their hash and which
  reads back as a blob with that hash, namely these bytes unless the address was taken
  before; the file is gone.
\<close>

theorem upload_round_trip:
  assumes "get_upload now tenant uid w = Inr u" and "up_state u = Open" and "up_received_bytes u = 0"
    and "temp_files w uid = None" and "[] \<notin> set cs" and "cs \<noteq> []"
    and "up_expected_size u = int (length (concat cs))"
    and "any_store.addressed (us_digest s) (store w)"
    and "dg_valid (us_digest s) (dg_sha (us_digest s) (concat cs))"
    and "up_expected_sha u = None \<or> up_expected_sha u = Some (dg_sha (us_digest s) (concat cs))"
  shows "\<exists>w1 w2 v b. append_all now tenant uid 0 cs w = (w1, Inr ()) \<and>
    finalize_upload s now tenant uid None w1 = (w2, Inr v) \<and> up_state v = Finalized \<and>
    up_blob_sha v = Some (dg_sha (us_digest s) (concat cs)) \<and> temp_files w2 uid = None \<and>
    open_blob (us_digest s) (dg_sha (us_digest s) (concat cs)) (store w2) = Inr b \<and>
    dg_sha (us_digest s) b = dg_sha (us_digest s) (concat cs) \<and>
    (blob_holds (store w) (dg_sha (us_digest s) (concat cs)) = None \<longrightarrow> b = concat cs)"
proof -
  have pos: "concat cs \<noteq> []" using assms(5,6) by (cases cs) auto
  then have "0 < up_expected_size u" using assms(7) by simp
  moreover have "holds_bytes now tenant uid w u []"
    using assms(1-4) calculation by (auto simp: holds_bytes_def)
  ultimately obtain w1 u1 where a: "append_all now tenant uid 0 cs w = (w1, Inr ())"
    "holds_bytes now tenant uid w1 u1 (concat cs)" "store w1 = store w"
    "up_expected_size u1 = up_expected_size u" "up_expected_sha u1 = up_expected_sha u"
    using append_all_bytes [of now tenant uid w u "[]" cs] assms(5,7) by auto
  then have f: "temp_files w1 uid = Some (concat cs)"
    using pos by (auto simp: holds_bytes_def)
  obtain w2 where w2: "finalize_upload s now tenant uid None w1 =
      (w2, Inr (u1\<lparr>up_state := Finalized, up_blob_sha := Some (dg_sha (us_digest s) (concat cs))\<rparr>))"
    "store w2 = fst (put_stream (us_digest s) (chunks_of (1024 * 1024) (concat cs)) (store w))"
    "temp_files w2 uid = None"
    using finalize_ok [OF a(2) f _ assms(9), of None] a(3,4,5) assms(7,10) by (auto simp: sha_differs_def)
  have "read_all (chunks_of (1024 * 1024) (concat cs)) [] = Inr (concat cs)"
    by (simp add: read_chunks)
  from any_store.put_get [OF assms(8) this assms(9)] a(1) w2 show ?thesis by auto
qed

text \<open>A digest that prefixes its bytes, and an upload of three bytes.\<close>

definition demo_settings :: upload_settings where
  "demo_settings = \<lparr>us_auth_mode = ''none'', us_expiry_hours = 1,
     us_digest = \<lparr>dg_sha = (\<lambda>b. CHR ''h'' # b), dg_valid = (\<lambda>sha. take 1 sha = ''h'')\<rparr>\<rparr>"

definition demo_upload :: upload where
  "demo_upload = \<lparr>up_id = ''u'', up_tenant = ''t'', up_idempotency_key = None, up_expected_size = 3,
     up_received_bytes = 0, up_content_type = None, up_expected_sha = Some ''habc'', up_state = Open,
     up_blob_sha = None, up_expires_at = Some 3600\<rparr>"

definition demo_world :: upload_world where
  "demo_world = empty_world\<lparr>uploads := [demo_upload]\<rparr>"

lemmas demo_simps = demo_settings_def demo_upload_def demo_world_def empty_world_def

lemma demo_init: "fst (init_upload demo_settings 0 ''u'' ''t'' 3 None (Some ''habc'') None empty_world) = demo_world"
  by (simp add: init_upload_def check_storage_def gc_expired_uploads_def insert_upload_def demo_simps Let_def)

lemma upload_round_trip_witness:
  "\<exists>w1 w2 v b. append_all 0 ''t'' ''u'' 0 [''ab'', ''c''] demo_world = (w1, Inr ()) \<and>
    finalize_upload demo_settings 0 ''t'' ''u'' None w1 = (w2, Inr v) \<and> up_state v = Finalized \<and>
    up_blob_sha v = Some ''habc'' \<and> temp_files w2 ''u'' = None \<and>
    open_blob (us_digest demo_settings) ''habc'' (store w2) = Inr b \<and> b = ''abc''"
  using upload_round_trip [of 0 "''t''" "''u''" demo_world demo_upload "[''ab'', ''c'']" demo_settings]
  by (simp add: demo_simps get_upload_def upload_expired_def any_store.addressed_def)

text \<open>
  C6. In every reachable state the ids are distinct, every stored blob hashes to its address,
  no upload has more bytes than announced, and a finalized one is complete, matches its
  expected hash and has a registered blob whose bytes are stored.
\<close>

theorem upload_state_consistent:
  assumes "upload_reachable s w" and "\<And>b. dg_valid (us_digest s) (dg_sha (us_digest s) b)"
    and "u \<in> set (uploads w)"
  shows "0 \<le> up_received_bytes u \<and> up_received_bytes u \<le> up_expected_size u \<and>
    (up_state u = Finalized \<longrightarrow> up_received_bytes u = up_expected_size u \<and>
       (\<exists>sha b. up_blob_sha u = Some sha \<and> sha \<in> blob_sha256 ` set (blob_rows w) \<and>
          \<not> sha_differs (up_expected_sha u) sha \<and>
          open_blob (us_digest s) sha (store w) = Inr b \<and> dg_sha (us_digest s) b = sha))"
proof -
  have "upload_inv (us_digest s) w"
    using assms(1)
  proof induction
    case Start
    then show ?case by (simp add: upload_inv_def empty_world_def any_store.addressed_def)
  next
    case (Step w w')
    then show ?case using upload_inv_upload_step assms(2) by blast
  qed
  then have ok: "upload_ok (us_digest s) (store w) (blob_sha256 ` set (blob_rows w)) u"
    and ad: "any_store.addressed (us_digest s) (store w)"
    using assms(3) by (auto simp: upload_inv_def)
  have "\<exists>b. open_blob (us_digest s) sha (store w) = Inr b \<and> dg_sha (us_digest s) b = sha"
    if h: "blob_holds (store w) sha \<noteq> None" for sha
  proof -
    obtain b where b: "blob_holds (store w) sha = Some b" using h by auto
    then have "dg_sha (us_digest s) b = sha" using ad by (simp add: any_store.addressed_def)
    with b assms(2) show ?thesis using any_store.get_holds by metis
  qed
  with ok show ?thesis by (auto simp: upload_ok_def)
qed

definition demo_received :: upload_world where
  "demo_received = fst (append_chunk 0 ''t'' ''u'' 0 ''abc'' demo_world)"

definition demo_finalized :: upload_world where
  "demo_finalized = fst (finalize_upload demo_settings 0 ''t'' ''u'' None demo_received)"

lemma demo_received_eq:
  "demo_received = demo_world\<lparr>temp_files := [''u'' \<mapsto> ''abc''],
     uploads := [demo_upload\<lparr>up_received_bytes := 3, up_state := Received\<rparr>]\<rparr>"
  by (simp add: demo_received_def demo_simps append_chunk_def get_upload_def upload_expired_def
      temp_append_def save_upload_def Let_def)

lemma demo_finalized_uploads:
  "uploads demo_finalized =
     [demo_upload\<lparr>up_received_bytes := 3, up_state := Finalized, up_blob_sha := Some ''habc''\<rparr>]"
  by (simp add: demo_finalized_def demo_received_eq demo_simps finalize_upload_def get_upload_def
      upload_expired_def finalize_into_def fs_put_stream_def read_chunks sha_differs_def save_upload_def
      add_blob_row_def Let_def)

lemma demo_reachable: "upload_reachable demo_settings demo_finalized"
proof -
  have "upload_reachable demo_settings demo_world"
    unfolding demo_init [symmetric]
    by (rule upload_reachable.Step [OF upload_reachable.Start]) (rule upload_step.Init, simp add: empty_world_def)
  then have "upload_reachable demo_settings demo_received"
    unfolding demo_received_def by (rule upload_reachable.Step) (rule upload_step.Append)
  then show ?thesis
    unfolding demo_finalized_def by (rule upload_reachable.Step) (rule upload_step.Finalize)
qed

lemma upload_state_consistent_witness:
  "\<exists>b. open_blob (us_digest demo_settings) ''habc'' (store demo_finalized) = Inr b \<and> b = ''abc''"
  using upload_state_consistent [OF demo_reachable, of "hd (uploads demo_finalized)"]
  by (simp add: demo_finalized_uploads demo_settings_def)

text \<open>
  A finalization whose hash check fails strands the upload: it reports a validation
  error, the row stays received, the bytes are gone, and from then on every append is a
  conflict and every finalization, with the right hash too, a storage error.
\<close>

theorem finalize_mismatch_strands_upload:
  assumes "get_upload now tenant uid w = Inr u" and "up_state u = Received"
    and "temp_files w uid = Some b" and "dg_valid (us_digest s) (dg_sha (us_digest s) b)"
    and "sha_differs client (dg_sha (us_digest s) b)"
  shows "\<exists>w' e. finalize_upload s now tenant uid client w = (w', Inl e) \<and> err_class e = ValidationError \<and>
    get_upload now tenant uid w' = Inr u \<and> temp_files w' uid = None \<and>
    (\<exists>e1. snd (append_chunk now tenant uid offset data w') = Inl e1 \<and> err_class e1 = ConflictError) \<and>
    (\<exists>e2. finalize_upload s now tenant uid client' w' = (w', Inl e2) \<and> err_class e2 = StorageError)"
proof -
  obtain w1 where w1: "finalize_into (us_digest s) uid w = (w1, Inr (dg_sha (us_digest s) b, int (length b)))"
    "temp_files w1 = (temp_files w)(uid := None)"
    using finalize_into_file [OF assms(3,4)] by blast
  obtain e where f: "finalize_upload s now tenant uid client w = (rolled_back w w1, Inl e)" "err_class e = ValidationError"
    using assms(1,2,5) w1(1)
    by (cases "sha_differs (up_expected_sha u) (dg_sha (us_digest s) b)")
      (simp_all add: finalize_upload_def raising_def mk_error_def)
  let ?w = "rolled_back w w1"
  have g: "get_upload now tenant uid ?w = Inr u" "temp_files ?w uid = None"
    using assms(1) w1(2) by (simp_all add: get_upload_def)
  have r: "rolled_back ?w ?w = ?w" by (simp add: rolled_back_def)
  have "\<exists>e1. snd (append_chunk now tenant uid offset data ?w) = Inl e1 \<and> err_class e1 = ConflictError"
    using g(1) assms(2) by (simp add: append_chunk_def raising_def mk_error_def)
  moreover have "\<exists>e2. finalize_upload s now tenant uid client' ?w = (?w, Inl e2) \<and> err_class e2 = StorageError"
    using g assms(2) r by (simp add: finalize_upload_def finalize_into_def raising_def mk_error_def)
  ultimately show ?thesis using f g by blast
qed

lemma finalize_mismatch_strands_upload_witness:
  "\<exists>w' e. finalize_upload demo_settings 0 ''t'' ''u'' (Some ''hxyz'') demo_received = (w', Inl e) \<and>
    err_class e = ValidationError \<and>
    get_upload 0 ''t'' ''u'' w' = Inr (demo_upload\<lparr>up_received_bytes := 3, up_state := Received\<rparr>) \<and>
    temp_files w' ''u'' = None \<and>
    (\<exists>e1. snd (append_chunk 0 ''t'' ''u'' 0 ''abc'' w') = Inl e1 \<and> err_class e1 = ConflictError) \<and>
    (\<exists>e2. finalize_upload demo_settings 0 ''t'' ''u'' (Some ''habc'') w' = (w', Inl e2) \<and>
       err_class e2 = StorageError)"
  by (rule finalize_mismatch_strands_upload [where b = "''abc''"])
    (simp_all add: demo_received_eq demo_simps get_upload_def upload_expired_def sha_differs_def)

end
