(* ===== verification/Janitor.thy ===== *)
theory Janitor
  imports Scheduler Uploads
begin

text \<open>
  \<open>run_janitor_once\<close> of \<open>orchestrator/janitor.py\<close>: one tick over the tables of the engine
  and of the uploads. Every phase is guarded by its own handler; a phase that raises is one
  that changes nothing and returns nothing. The phases read the clock one after the other;
  here they read the same time. Deliveries to the queue are returned, and one that fails is
  suppressed by the code.
\<close>

record faults =
  reclaim_fails :: bool
  propagate_fails :: bool
  find_fails :: bool
  uploads_fail :: bool
  records_fail :: bool

definition run_janitor_once ::
  "'r env \<Rightarrow> faults \<Rightarrow> time \<Rightarrow> 'r db \<times> upload_world
     \<Rightarrow> ('r db \<times> upload_world) \<times> string list \<times> string list" where
  "run_janitor_once env F now s =
     (let (d, w) = s;
          (d1, reclaimed) = (if reclaim_fails F then (d, []) else reclaim_expired_leases now d);
          (d2, terminal_deps) =
            (if propagate_fails F then (d1, []) else propagate_terminal_dependencies now d1);
          ready_pending = (if find_fails F then [] else find_ready_pending_tasks (tasks d2));
          enqueue_ids = dedup (reclaimed @ ready_pending);
          w' = (if uploads_fail F then w else fst (gc_expired_uploads now w));
          d3 = (if records_fail F then d2 else fst (gc_expired_job_records env now d2))
      in ((d3, w'), reclaimed, enqueue_ids))"

definition no_faults :: faults where
  "no_faults = \<lparr>reclaim_fails = False, propagate_fails = False, find_fails = False,
     uploads_fail = False, records_fail = False\<rparr>"

lemma distinct_dedup [simp]: "distinct (dedup xs)"
  by (simp add: dedup_def)

lemma reclaim_ids:
  assumes "reclaim_expired_leases now d = (d1, reclaimed)"
  shows "map task_id (tasks d1) = map task_id (tasks d)" and "jobs d1 = jobs d"
    and "\<forall>t \<in> set (tasks d1). \<not> lease_expired now t"
  using assms
  by (auto simp: reclaim_expired_leases_def Let_def lease_expired_def filter_empty_conv split: if_splits)

lemma gc_subset:
  "set (tasks (fst (gc_expired_job_records env now d))) \<subseteq> set (tasks d)"
  "distinct (map task_id (tasks d)) \<Longrightarrow> distinct (map task_id (tasks (fst (gc_expired_job_records env now d))))"
  by (auto simp: gc_expired_job_records_def Let_def distinct_map_filter split: option.split)

text \<open>A row of the propagated table either was there before or is terminal.\<close>

lemma propagate_mem:
  assumes "keys_unique d" and "propagate_terminal_dependencies now d = (d', ids)" and "t \<in> set (tasks d')"
  shows "t \<in> set (tasks d) \<or> status t \<in> {Failed, Cancelled, Cancelled_Dirty}"
proof -
  note p = propagate_dooms_aux [OF assms(1,2)]
  have "distinct (map task_id (tasks d'))" using p(5) assms(1) by (simp add: keys_unique_def)
  then have f: "find_task (tasks d') (task_id t) = Some t" using assms(3) by (rule find_task_unique)
  show ?thesis
  proof (cases "task_id t \<in> set ids")
    case True
    with p(3) f show ?thesis by force
  next
    case False
    with p(2) f have "find_task (tasks d) (task_id t) = Some t" by simp
    then show ?thesis using find_task_Some by blast
  qed
qed

lemma statuses_of_subset:
  assumes "distinct (map task_id ts)" and "distinct (map task_id ts')" and "set ts' \<subseteq> set ts"
    and "statuses_of ts' i = Some s"
  shows "statuses_of ts i = Some s"
proof -
  obtain t where "find_task ts' i = Some t" "s = status t"
    using assms(2,4) by (auto simp: statuses_of_find)
  with find_task_Some [of ts' i t] assms(3) statuses_of_mem [OF assms(1), of t] show ?thesis by auto
qed

lemma fold_discard: "fold temp_discard ids fs i = (if i \<in> set ids then None else fs i)"
  by (induction ids arbitrary: fs) (simp_all add: temp_discard_def)

lemma expired_discarded:
  "u \<in> set (uploads w) \<Longrightarrow> upload_expired now u \<Longrightarrow> temp_files (fst (gc_expired_uploads now w)) (up_id u) = None"
  by (auto simp: gc_expired_uploads_def Let_def fold_discard upload_expired_def split: if_splits)

text \<open>
  C25. Recovery by one tick without faults: afterwards no running task has an expired lease,
  every pending task with a state whose dependencies are reusable has been delivered to the
  queue, and so has every reclaimed task, each id once; and no expired upload is left, nor
  a file of one.
\<close>

theorem janitor_tick_recovers:
  assumes "keys_unique d" and "run_janitor_once env no_faults now (d, w) = ((d', w'), reclaimed, delivered)"
  shows "(\<forall>t \<in> set (tasks d'). \<not> lease_expired now t) \<and>
    {task_id t | t. t \<in> set (tasks d') \<and> status t = Pending \<and> task_state_json t \<noteq> None \<and>
      statuses_of (tasks d') ` set (deps_of t) \<subseteq> {Some Succeeded, Some Skipped}} \<subseteq> set delivered \<and>
    set reclaimed \<subseteq> set delivered \<and> distinct delivered \<and>
    (\<forall>u \<in> set (uploads w'). \<not> upload_expired now u) \<and>
    (\<forall>u \<in> set (uploads w). upload_expired now u \<longrightarrow> temp_files w' (up_id u) = None)"
proof -
  obtain d1 where r: "reclaim_expired_leases now d = (d1, reclaimed)"
    and rest: "\<exists>d2 deps. propagate_terminal_dependencies now d1 = (d2, deps) \<and>
      delivered = dedup (reclaimed @ find_ready_pending_tasks (tasks d2)) \<and>
      d' = fst (gc_expired_job_records env now d2) \<and> w' = fst (gc_expired_uploads now w)"
    using assms(2) by (auto simp: run_janitor_once_def no_faults_def Let_def split: prod.splits)
  then obtain d2 deps where p: "propagate_terminal_dependencies now d1 = (d2, deps)"
    and out: "delivered = dedup (reclaimed @ find_ready_pending_tasks (tasks d2))"
      "d' = fst (gc_expired_job_records env now d2)" "w' = fst (gc_expired_uploads now w)" by blast
  note r1 = reclaim_ids [OF r]
  have u1: "keys_unique d1" using assms(1) r1(1,2) by (simp add: keys_unique_def)
  have u2: "distinct (map task_id (tasks d2))"
    using propagate_dooms_aux(5) [OF u1 p] u1 by (simp add: keys_unique_def)
  have sub: "set (tasks d') \<subseteq> set (tasks d2)" and u3: "distinct (map task_id (tasks d'))"
    unfolding out(2) using gc_subset u2 by blast+
  have lease: "\<not> lease_expired now t" if "t \<in> set (tasks d')" for t
    using propagate_mem [OF u1 p, of t] that sub r1(3) by (auto simp: lease_expired_def)
  have "task_id t \<in> set delivered" if t: "t \<in> set (tasks d')" "status t = Pending" "task_state_json t \<noteq> None"
    "statuses_of (tasks d') ` set (deps_of t) \<subseteq> {Some Succeeded, Some Skipped}" for t
  proof -
    have "statuses_of (tasks d2) ` set (deps_of t) \<subseteq> {Some Succeeded, Some Skipped}"
      using t(4) statuses_of_subset [OF u2 u3 sub] by (fastforce simp: image_subset_iff)
    then show ?thesis
      unfolding out(1) using t(1-3) sub by (auto simp: ready_pending_rows [OF u2])
  qed
  moreover have "\<not> upload_expired now u" if "u \<in> set (uploads w')" for u
    using that unfolding out(3) by (auto simp: gc_expired_uploads_def upload_expired_def Let_def)
  moreover have "temp_files w' (up_id u) = None" if "u \<in> set (uploads w)" "upload_expired now u" for u
    unfolding out(3) using that expired_discarded by blast
  ultimately show ?thesis
    using lease by (auto simp: out(1))
qed

lemma janitor_tick_recovers_witness:
  "\<forall>env. ''a'' \<in> set (snd (snd (run_janitor_once env no_faults 9
     (chain_db\<lparr>tasks := [blank_task\<lparr>task_id := ''a'', status := Running, lease_expires_at := Some 8\<rparr>]\<rparr>,
      \<lparr>uploads = [], blob_rows = [], quotas = Map.empty, gpu_usages = [], temp_files = Map.empty,
       store = FS Map.empty\<rparr>))))"
proof
  fix env :: "unit env"
  let ?d = "chain_db\<lparr>tasks := [blank_task\<lparr>task_id := ''a'', status := Running, lease_expires_at := Some 8\<rparr>]\<rparr>"
  let ?w = "\<lparr>uploads = [], blob_rows = [], quotas = Map.empty, gpu_usages = [], temp_files = Map.empty,
       store = FS Map.empty\<rparr>"
  obtain d' w' reclaimed delivered where
    run: "run_janitor_once env no_faults 9 (?d, ?w) = ((d', w'), reclaimed, delivered)"
    by (metis surj_pair)
  then have "reclaimed = snd (reclaim_expired_leases 9 ?d)"
    by (auto simp: run_janitor_once_def no_faults_def Let_def split: prod.splits)
  also have "\<dots> = [''a'']"
    by (simp add: reclaim_expired_leases_def lease_expired_def Let_def blank_task_def)
  finally have "''a'' \<in> set reclaimed" by simp
  moreover have "keys_unique ?d" by (simp add: keys_unique_def chain_db_def)
  ultimately show "''a'' \<in> set (snd (snd (run_janitor_once env no_faults 9 (?d, ?w))))"
    using janitor_tick_recovers [OF _ run] unfolding run by auto
qed

section \<open>A job that no tick repairs\<close>

text \<open>
  The worker that ends the last task of a job commits the row and only then rolls the job up. If it
  crashes in between, no task is left to deliver, to reclaim or to doom, and the sweep rolls up
  only jobs in which it doomed a task: the job stays pending for ever.
\<close>

abbreviation not_of :: "string \<Rightarrow> task_row list \<Rightarrow> bool" where
  "not_of jid ts \<equiv> list_all (\<lambda>t. task_job_id t \<noteq> jid) ts"

lemma pass_not_of:
  "sweep_pass (visit_row now) ts m = (ts', m', ch) \<Longrightarrow> not_of jid ts \<Longrightarrow> not_of jid ts' \<and> not_of jid ch"
proof (induction ts arbitrary: m ts' m' ch)
  case Nil
  then show ?case by simp
next
  case (Cons t ts)
  show ?case
  proof (cases "visit_row now m t")
    case None
    with Cons.prems(1) obtain a where "sweep_pass (visit_row now) ts m = (a, m', ch)" "ts' = t # a"
      by (rule sweep_pass_None)
    with Cons.IH [OF this(1)] Cons.prems(2) show ?thesis by simp
  next
    case (Some t')
    with Cons.prems(1) obtain a b where
      a: "sweep_pass (visit_row now) ts (m(task_id t \<mapsto> status t')) = (a, m', b)" "ts' = t' # a"
      "ch = t' # b" by (rule sweep_pass_Some)
    from Cons.IH [OF a(1)] Cons.prems(2) visit_row_Some(3) [OF Some] a(2,3) show ?thesis by simp
  qed
qed

lemma loop_not_of:
  "propagate_loop now ts m ch = (ts', m', ch') \<Longrightarrow> not_of jid ts \<Longrightarrow> not_of jid ch \<Longrightarrow> not_of jid ch'"
proof (induction now ts m ch rule: propagate_loop.induct)
  case (1 now ts m ch)
  obtain a b c where pass: "sweep_pass (visit_row now) ts m = (a, b, c)"
    by (cases "sweep_pass (visit_row now) ts m") auto
  show ?case
  proof (cases "c = []")
    case True
    with 1(2,4) pass show ?thesis by (simp add: propagate_loop.simps [of now ts])
  next
    case False
    with 1(2) pass have "propagate_loop now a b (ch @ c) = (ts', m', ch')"
      by (simp add: propagate_loop.simps [of now ts])
    from 1(1) [OF pass [symmetric] refl False this] pass_not_of [OF pass 1(3)] 1(4) show ?thesis by simp
  qed
qed

lemma fold_finalize_others:
  "jid \<notin> set js \<Longrightarrow>
   find_job (jobs (foldl (\<lambda>d i. finalize_job_if_ready now i d) d js)) jid = find_job (jobs d) jid"
  by (induction js arbitrary: d) (simp_all add: service_rollup.keeps_other_jobs)

lemma propagate_keeps_job:
  assumes run: "propagate_terminal_dependencies now d = (d', ids)"
    and "distinct (map task_id (tasks d))" and none: "\<forall>t \<in> set (job_tasks (tasks d) jid). status t \<noteq> Pending"
  shows "find_job (jobs d') jid = find_job (jobs d) jid"
proof -
  obtain pending m0 where load: "load_pending_tasks_with_dep_statuses (tasks d) = (pending, m0)"
    by (cases "load_pending_tasks_with_dep_statuses (tasks d)") auto
  obtain objs m ch where loop: "propagate_loop now pending m0 [] = (objs, m, ch)"
    by (cases "propagate_loop now pending m0 []") auto
  have "not_of jid pending"
    using none unfolding load_pending(1) [OF load assms(2)] by (auto simp: job_tasks_def list_all_iff)
  then have "jid \<notin> set (dedup (map task_job_id ch))"
    using loop_not_of [OF loop] by (auto simp: list_all_iff)
  with run load loop show ?thesis
    by (auto simp: propagate_terminal_dependencies_def Let_def fold_finalize_others split: if_splits)
qed

lemma propagate_job_ids:
  "map job_id (jobs (fst (propagate_terminal_dependencies now d))) = map job_id (jobs d)"
proof -
  have fold: "map job_id (jobs (foldl (\<lambda>d i. finalize_job_if_ready now i d) d js)) = map job_id (jobs d)" for js and d :: "'r db"
    by (induction js arbitrary: d) simp_all
  show ?thesis by (simp add: propagate_terminal_dependencies_def Let_def case_prod_unfold fold)
qed

lemma gc_keeps_pending:
  assumes "distinct (map job_id (jobs d))" and "find_job (jobs d) jid = Some j" and "job_status j = Pending"
  shows "find_job (jobs (fst (gc_expired_job_records env now d))) jid = Some j"
proof -
  have "jid \<notin> job_id ` {i \<in> set (jobs d). job_expired c i}" for c
  proof
    assume "jid \<in> job_id ` {i \<in> set (jobs d). job_expired c i}"
    then obtain i where i: "i \<in> set (jobs d)" "job_id i = jid" "job_expired c i" by blast
    with find_job_Some [OF assms(2)] assms(1) have "i = j" by (auto simp: distinct_map dest: inj_onD)
    with i(3) assms(3) show False by (simp add: job_expired_def TERMINAL_JOB_STATUSES_def)
  qed
  moreover have "find_job (filter (\<lambda>i. job_id i \<notin> gone) js) jid = find_job js jid" if "jid \<notin> gone" for gone js
    using that by (induction js) (auto simp: find_job_def)
  ultimately show ?thesis
    using assms(2) by (simp add: gc_expired_job_records_def Let_def split: option.splits)
qed

theorem no_tick_rolls_up:
  assumes uniq: "keys_unique d" and "rolled_up (job_tasks (tasks d) jid) = Some s"
    and job: "find_job (jobs d) jid = Some j" "job_status j = Pending"
    and run: "run_janitor_once env F now (d, w) = ((d', w'), reclaimed, delivered)"
  shows "find_job (jobs d') jid = Some j"
proof -
  define d1 where "d1 = (if reclaim_fails F then d else fst (reclaim_expired_leases now d))"
  define d2 where "d2 = (if propagate_fails F then d1 else fst (propagate_terminal_dependencies now d1))"
  have d': "d' = (if records_fail F then d2 else fst (gc_expired_job_records env now d2))"
    using run by (auto simp: run_janitor_once_def d1_def d2_def Let_def split: prod.splits if_splits)
  have over: "\<forall>t \<in> set (job_tasks (tasks d) jid). status t \<noteq> Pending \<and> status t \<noteq> Running"
    using rolled_up_Some [OF assms(2)] by auto
  have one: "map task_id (tasks d1) = map task_id (tasks d) \<and> jobs d1 = jobs d \<and>
      (\<forall>t \<in> set (job_tasks (tasks d1) jid). status t \<noteq> Pending)"
    using over by (auto simp: d1_def reclaim_expired_leases_def lease_expired_def job_tasks_def Let_def)
  then have "distinct (map task_id (tasks d1))" using uniq by (simp add: keys_unique_def)
  from propagate_keeps_job [OF surjective_pairing this, of jid now] one
  have found: "find_job (jobs d2) jid = Some j" using job(1) by (simp add: d2_def)
  have "distinct (map job_id (jobs d2))"
    using uniq one by (simp add: d2_def keys_unique_def propagate_job_ids)
  from gc_keeps_pending [OF this found job(2)] found show ?thesis by (simp add: d')
qed

end
