(* ===== verification/Pagination.thy ===== *)
theory Pagination
  imports Processors Errors "HOL-Library.Product_Lexorder"
begin

text \<open>
  Listings: \<open>db/pagination.py\<close>, the descriptor registry \<open>adapters/_descriptor_registry.py\<close>
  whose rows the backend surface lists, and the cursors of
  \<open>services/backend_action_service.py\<close>. The client's loop that follows the tokens is
  \<open>walk\<close>; the interface \<open>paged\<close> says what a listing must do for the loop to see every
  row once.

  The page size is a natural number, as the routes demand at least one. SQL compares the
  keys by code point (SQLite's binary collation).
\<close>

section \<open>The two helpers\<close>

text \<open>\<open>rows[page_size - 1]\<close>, which for size zero is Python's last element.\<close>

definition at_end :: "nat \<Rightarrow> 'a list \<Rightarrow> 'a" where
  "at_end n rows = (if n = 0 then last rows else rows ! (n - 1))"

definition order_by :: "('a \<Rightarrow> string) \<Rightarrow> bool \<Rightarrow> 'a list \<Rightarrow> 'a list" where
  "order_by pk descending rows =
     (if descending then rev (sort_key pk rows) else sort_key pk rows)"

definition paginate_keyset ::
  "('a \<Rightarrow> string) \<Rightarrow> nat \<Rightarrow> string option \<Rightarrow> bool \<Rightarrow> 'a list \<Rightarrow> 'a list \<times> string option" where
  "paginate_keyset pk page_size page_token descending stmt =
     (let selected = (case page_token of
            None \<Rightarrow> stmt
          | Some t \<Rightarrow>
              if t = [] then stmt
              else filter (\<lambda>r. if descending then pk r < t else t < pk r) stmt);
          rows = take (page_size + 1) (order_by pk descending selected) in
      if page_size < length rows then (take page_size rows, Some (pk (at_end page_size rows)))
      else (rows, None))"

definition paginate_sequence ::
  "nat \<Rightarrow> ('a \<Rightarrow> string) \<Rightarrow> 'a list \<Rightarrow> 'a list \<times> string option" where
  "paginate_sequence page_size token_for rows =
     (let page = take (page_size + 1) rows in
      if page_size < length page then (take page_size page, Some (token_for (at_end page_size page)))
      else (page, None))"

section \<open>The descriptor registry\<close>

text \<open>The fields of a normalised row that ordering and cursors read.\<close>

record descriptor =
  desc_id :: string
  desc_stage :: "string option"

definition rank_of :: "nat dict \<Rightarrow> string \<Rightarrow> int" where
  "rank_of order s = (case map_of order s of None \<Rightarrow> 999 | Some n \<Rightarrow> int n)"

text \<open>\<open>str(item.get("stage"))\<close>.\<close>

definition stage_text :: "'a descriptor_scheme \<Rightarrow> string" where
  "stage_text r = (case desc_stage r of None \<Rightarrow> ''None'' | Some s \<Rightarrow> s)"

text \<open>\<open>by_id.setdefault\<close>: the first row of an id stays.\<close>

fun first_wins :: "'a descriptor_scheme list \<Rightarrow> 'a descriptor_scheme dict \<Rightarrow> 'a descriptor_scheme dict" where
  "first_wins [] by_id = by_id"
| "first_wins (r # rows) by_id =
     first_wins rows (if map_of by_id (desc_id r) = None then by_id @ [(desc_id r, r)] else by_id)"

definition dedupe :: "nat dict option \<Rightarrow> 'a descriptor_scheme list \<Rightarrow> 'a descriptor_scheme list" where
  "dedupe stage_order rows =
     (let by_id = first_wins rows [] in
      case stage_order of
        None \<Rightarrow> map (\<lambda>k. the (map_of by_id k)) (sort (keys by_id))
      | Some order \<Rightarrow>
          sort_key (\<lambda>r. (rank_of order (stage_text r), desc_id r))
            (map snd by_id))"

text \<open>The provider's raw rows, when it has the listing, before the fallback's.\<close>

definition list_rows ::
  "nat dict option \<Rightarrow> bool \<Rightarrow> ('raw \<Rightarrow> api_error + 'a descriptor_scheme) \<Rightarrow> 'raw list option
     \<Rightarrow> 'a descriptor_scheme list \<Rightarrow> api_error + 'a descriptor_scheme list" where
  "list_rows stage_order generic_wins normalise generic fallback =
     andthen (case generic of None \<Rightarrow> Inr [] | Some raws \<Rightarrow> collect normalise raws) (\<lambda>rows.
       if rows \<noteq> [] \<and> generic_wins then Inr (dedupe stage_order rows)
       else Inr (dedupe stage_order (rows @ fallback)))"

definition find_row :: "'a descriptor_scheme list \<Rightarrow> string \<Rightarrow> 'a descriptor_scheme option" where
  "find_row rows item_id = find (\<lambda>r. desc_id r = item_id) rows"

definition get_row :: "string \<Rightarrow> 'a descriptor_scheme list \<Rightarrow> string \<Rightarrow> api_error + 'a descriptor_scheme" where
  "get_row heading rows item_id =
     (case find_row rows item_id of
        None \<Rightarrow> raising NotFoundError (heading @ '' '' @ py_repr item_id @ '' not found'')
      | Some r \<Rightarrow> Inr r)"

text \<open>The stage order of the config schemas has one stage more than the core's.\<close>

definition config_stage_order :: "nat dict" where
  "config_stage_order =
     [(''features'', 10), (''pairs'', 20), (''matcher'', 30), (''verify'', 40), (''mapping'', 50),
      (''bundle_adjustment'', 60), (''radiance'', 70)]"

section \<open>Cursors\<close>

definition descriptor_page_key :: "descriptor \<Rightarrow> int \<times> string" where
  "descriptor_page_key r =
     (rank_of CONFIG_STAGE_ORDER (case desc_stage r of None \<Rightarrow> [] | Some s \<Rightarrow> s), desc_id r)"

definition encode_descriptor_page_token :: "descriptor \<Rightarrow> string" where
  "encode_descriptor_page_token r =
     (let (rank, i) = descriptor_page_key r in str_of_int rank @ '':'' @ i)"

definition descriptor_page_token_key :: "descriptor list \<Rightarrow> string \<Rightarrow> int \<times> string" where
  "descriptor_page_token_key rows token =
     (if CHR '':'' \<in> set token then
        (case parse_int (before (CHR '':'') token) of
           Some rank \<Rightarrow> (rank, after (CHR '':'') token)
         | None \<Rightarrow> (999, token))
      else
        (case find (\<lambda>r. desc_id r = token) rows of
           Some r \<Rightarrow> descriptor_page_key r
         | None \<Rightarrow> (999, token)))"

text \<open>\<open>list_actions\<close>, and the body of \<open>list_config_schemas\<close> and \<open>list_artifact_contracts\<close>.\<close>

definition list_actions ::
  "nat \<Rightarrow> string option \<Rightarrow> descriptor list \<Rightarrow> descriptor list \<times> string option" where
  "list_actions page_size page_token actions =
     paginate_sequence page_size desc_id
       (case page_token of
          None \<Rightarrow> actions
        | Some t \<Rightarrow> if t = [] then actions else filter (\<lambda>a. t < desc_id a) actions)"

definition list_descriptors ::
  "nat \<Rightarrow> string option \<Rightarrow> descriptor list \<Rightarrow> descriptor list \<times> string option" where
  "list_descriptors page_size page_token rows =
     paginate_sequence page_size encode_descriptor_page_token
       (case page_token of
          None \<Rightarrow> rows
        | Some t \<Rightarrow>
            if t = [] then rows
            else (let bound = descriptor_page_token_key rows t in
                  filter (\<lambda>r. bound < descriptor_page_key r) rows))"

section \<open>Following the tokens\<close>

fun walk ::
  "nat \<Rightarrow> (string option \<Rightarrow> 'a list \<times> string option) \<Rightarrow> string option \<Rightarrow> 'a list list option" where
  "walk 0 f token = None"
| "walk (Suc fuel) f token =
     (case f token of
        (page, None) \<Rightarrow> Some [page]
      | (page, Some t) \<Rightarrow> map_option (\<lambda>ps. page # ps) (walk fuel f (Some t)))"

text \<open>A listing answers the token of its last row with what comes after it.\<close>

locale paged =
  fixes n :: nat and token_for :: "'a \<Rightarrow> string"
    and f :: "string option \<Rightarrow> 'a list \<times> string option" and rows :: "'a list"
  assumes positive: "0 < n"
    and first_page: "f None = paginate_sequence n token_for rows"
    and next_page: "rows = pre @ [x] @ post \<Longrightarrow> f (Some (token_for x)) = paginate_sequence n token_for post"
begin

lemma walk_from:
  assumes "f token = paginate_sequence n token_for post" and "rows = pre @ post" and "length post \<le> fuel"
  shows "\<exists>pages. walk (Suc fuel) f token = Some pages \<and> concat pages = post \<and>
    (\<forall>p \<in> set pages. length p \<le> n) \<and> (\<forall>p \<in> set (butlast pages). length p = n)"
  using assms
proof (induction fuel arbitrary: token pre post)
  case 0
  then show ?case using positive by (simp add: paginate_sequence_def)
next
  case (Suc fuel)
  show ?case
  proof (cases "length post \<le> n")
    case True
    then have "f token = (post, None)"
      using Suc.prems(1) by (simp add: paginate_sequence_def)
    with True show ?thesis by simp
  next
    case False
    let ?x = "post ! (n - 1)" and ?post = "drop n post"
    have f: "f token = (take n post, Some (token_for ?x))"
      using Suc.prems(1) False positive by (simp add: paginate_sequence_def at_end_def min_def)
    have split: "take n post = take (n - 1) post @ [?x]"
      using False positive take_Suc_conv_app_nth [of "n - 1" post] by simp
    have "rows = (pre @ take (n - 1) post) @ [?x] @ ?post"
      using Suc.prems(2) split append_take_drop_id [of n post] by (metis append.assoc)
    then have "f (Some (token_for ?x)) = paginate_sequence n token_for ?post"
      by (rule next_page)
    moreover have "rows = (pre @ take n post) @ ?post" using Suc.prems(2) by simp
    moreover have "length ?post \<le> fuel" using Suc.prems(3) positive by simp
    ultimately obtain pages where p: "walk (Suc fuel) f (Some (token_for ?x)) = Some pages"
      "concat pages = ?post" "\<forall>p \<in> set pages. length p \<le> n" "\<forall>p \<in> set (butlast pages). length p = n"
      using Suc.IH by blast
    have "walk (Suc (Suc fuel)) f token = Some (take n post # pages)"
      using f p(1) by (simp only: walk.simps prod.case option.case option.map)
    with p(2-4) False show ?thesis by auto
  qed
qed

lemma walk_all:
  "\<exists>pages. walk (Suc (length rows)) f None = Some pages \<and> concat pages = rows \<and>
    (\<forall>p \<in> set pages. length p \<le> n) \<and> (\<forall>p \<in> set (butlast pages). length p = n)"
  using walk_from [OF first_page] by simp

end

declare walk.simps [simp del]

section \<open>Cursors over sorted rows\<close>

lemma filter_after:
  assumes "sorted_wrt R (pre @ [x] @ post)" and "asymp R"
  shows "filter (R x) (pre @ [x] @ post) = post"
  using assms by (auto simp: sorted_wrt_append filter_empty_conv filter_id_conv dest: asympD)

lemma filter_after_key:
  "sorted_wrt (\<lambda>a b. k a < k b) (pre @ [x] @ post) \<Longrightarrow> filter (\<lambda>r. k x < k r) (pre @ [x] @ post) = post"
  for k :: "'a \<Rightarrow> 'b :: linorder"
  by (rule filter_after [of "\<lambda>a b. k a < k b"]) (simp_all add: asymp_on_def less_imp_not_less)

lemma sorted_wrt_less_map:
  "sorted (map k xs) \<Longrightarrow> distinct (map k xs) \<Longrightarrow> sorted_wrt (\<lambda>a b. k a < k b) xs" for k :: "'a \<Rightarrow> 'b :: linorder"
  using strict_sorted_iff [of "map k xs"] by (simp add: sorted_wrt_map)

lemma order_by_facts [simp]:
  "set (order_by pk d xs) = set xs" "length (order_by pk d xs) = length xs"
  by (simp_all add: order_by_def)

lemma order_by_filter: "order_by pk d (filter P xs) = filter P (order_by pk d xs)"
  by (simp add: order_by_def filter_sort rev_filter [symmetric])

lemma order_by_sorted:
  assumes "distinct (map pk xs)"
  shows "sorted_wrt (\<lambda>a b. if d then pk b < pk a else pk a < pk b) (order_by pk d xs)"
proof -
  have "distinct (map pk (sort_key pk xs))"
    using assms by (simp add: distinct_map)
  then have "sorted_wrt (\<lambda>a b. pk a < pk b) (sort_key pk xs)"
    by (intro sorted_wrt_less_map) simp_all
  then show ?thesis by (cases d) (simp_all add: order_by_def sorted_wrt_rev)
qed

lemma paginate_keyset_sequence:
  "paginate_keyset pk n None d rows = paginate_sequence n pk (order_by pk d rows)"
  "t \<noteq> [] \<Longrightarrow> paginate_keyset pk n (Some t) d rows =
     paginate_sequence n pk (filter (\<lambda>r. if d then pk r < t else t < pk r) (order_by pk d rows))"
  by (simp_all add: paginate_keyset_def paginate_sequence_def order_by_filter Let_def del: order_by_facts(2))

lemma keyset_paged:
  assumes "0 < n" and "distinct (map pk rows)" and "[] \<notin> pk ` set rows"
  shows "paged n pk (\<lambda>t. paginate_keyset pk n t d rows) (order_by pk d rows)"
proof
  fix pre x post
  assume s: "order_by pk d rows = pre @ [x] @ post"
  have "x \<in> set rows" using order_by_facts(1) [of pk d rows] unfolding s by auto
  then have "pk x \<noteq> []" using assms(3) by (auto simp: image_iff)
  moreover have "asymp (\<lambda>a b. if d then pk b < pk a else pk a < pk b)"
    by (rule asympI) (simp split: if_splits)
  then have "filter (\<lambda>r. if d then pk r < pk x else pk x < pk r) (pre @ [x] @ post) = post"
    using filter_after [of "\<lambda>a b. if d then pk b < pk a else pk a < pk b" pre x post]
      order_by_sorted [OF assms(2), of d] unfolding s by blast
  ultimately show "paginate_keyset pk n (Some (pk x)) d rows = paginate_sequence n pk post"
    by (simp add: paginate_keyset_sequence s)
qed (use assms in \<open>simp_all add: paginate_keyset_sequence\<close>)

section \<open>Descriptors\<close>

definition indexed :: "'a descriptor_scheme dict \<Rightarrow> bool" where
  "indexed d \<longleftrightarrow> distinct (map fst d) \<and> list_all (\<lambda>p. fst p = desc_id (snd p)) d"

lemma indexed_first_wins: "indexed d \<Longrightarrow> indexed (first_wins rows d)"
  by (induction rows d rule: first_wins.induct) (simp_all add: indexed_def map_of_eq_None_iff)

lemma first_wins_map:
  "map_of (first_wins rows d) i = (case map_of d i of Some r \<Rightarrow> Some r | None \<Rightarrow> find (\<lambda>r. desc_id r = i) rows)"
  by (induction rows d rule: first_wins.induct) (simp_all add: map_add_def split: option.split)

lemma indexed_keys: "indexed d \<Longrightarrow> keys d = map desc_id (map snd d)"
  by (simp add: indexed_def keys_def list_all_iff)

lemma indexed_lookup:
  assumes "indexed d"
  shows "r \<in> snd ` set d \<longleftrightarrow> map_of d (desc_id r) = Some r"
proof -
  have "r \<in> snd ` set d \<longleftrightarrow> (desc_id r, r) \<in> set d"
    using assms by (force simp: indexed_def list_all_iff)
  with assms show ?thesis by (simp add: indexed_def)
qed

lemma map_sort_key: "map f (sort_key f xs) = sort (map f xs)"
proof -
  have "map f (insort_key f x ys) = insort (f x) (map f ys)" for x ys
    by (induction ys) simp_all
  then show ?thesis by (induction xs) simp_all
qed

lemma dedupe_unstaged: "dedupe None rows = sort_key desc_id (map snd (first_wins rows []))"
proof -
  let ?b = "first_wins rows []"
  have i: "indexed ?b" by (rule indexed_first_wins) (simp add: indexed_def)
  have "sort (keys ?b) = map desc_id (sort_key desc_id (map snd ?b))"
    by (simp add: indexed_keys [OF i] map_sort_key)
  moreover have "map (\<lambda>r. the (map_of ?b (desc_id r))) (sort_key desc_id (map snd ?b)) = sort_key desc_id (map snd ?b)"
    using indexed_lookup [OF i] by (intro map_idI) simp
  ultimately show ?thesis by (simp add: dedupe_def comp_def)
qed

definition stage_key :: "nat dict option \<Rightarrow> 'a descriptor_scheme \<Rightarrow> int \<times> string" where
  "stage_key stage_order r =
     (case stage_order of None \<Rightarrow> 0
      | Some order \<Rightarrow> rank_of order (stage_text r), desc_id r)"

text \<open>The listing: one row per id, the first one, in the order of stage and id.\<close>

lemma dedupe_rows:
  "set (dedupe stage_order rows) = {r. find (\<lambda>v. desc_id v = desc_id r) rows = Some r}"
  "distinct (map desc_id (dedupe stage_order rows))"
  "sorted (map (stage_key stage_order) (dedupe stage_order rows))"
proof -
  let ?b = "first_wins rows []"
  have i: "indexed ?b" by (rule indexed_first_wins) (simp add: indexed_def)
  have k: "dedupe stage_order rows = sort_key (stage_key stage_order) (map snd ?b)"
  proof (cases stage_order)
    case None
    have "sort_key desc_id xs = sort_key (\<lambda>r. (0 :: int, desc_id r)) xs" for xs
    proof -
      have h: "insort_key desc_id x ys = insort_key (\<lambda>r. (0 :: int, desc_id r)) x ys" for x ys
        by (induction ys) (simp_all add: less_eq_prod_def)
      show ?thesis by (induction xs) (simp_all add: h)
    qed
    with None show ?thesis by (simp add: dedupe_unstaged stage_key_def [abs_def])
  qed (simp add: dedupe_def stage_key_def [abs_def])
  have "distinct (keys ?b)" using i by (simp add: indexed_def keys_def)
  then have d: "distinct (map desc_id (map snd ?b))" by (simp only: indexed_keys [OF i])
  then show "distinct (map desc_id (dedupe stage_order rows))"
    unfolding k by (simp only: distinct_map set_sort distinct_sort simp_thms)
  show "sorted (map (stage_key stage_order) (dedupe stage_order rows))"
    unfolding k by simp
  show "set (dedupe stage_order rows) = {r. find (\<lambda>v. desc_id v = desc_id r) rows = Some r}"
    using indexed_lookup [OF i] by (auto simp: k first_wins_map)
qed

text \<open>A cursor is read back as the key it was made of.\<close>

lemma rank_range:
  "rank_of CONFIG_STAGE_ORDER s \<in> {10, 20, 30, 40, 50, 60, 999}"
  by (simp add: rank_of_def CONFIG_STAGE_ORDER_def CONFIG_STAGES_def split: option.split)

lemma token_round_trip: "descriptor_page_token_key rows (encode_descriptor_page_token r) = descriptor_page_key r"
proof -
  obtain rank i where k: "descriptor_page_key r = (rank, i)" by fastforce
  then have "rank \<in> {10, 20, 30, 40, 50, 60, 999}"
    using rank_range by (auto simp: descriptor_page_key_def)
  then have "CHR '':'' \<notin> set (str_of_int rank) \<and> parse_int (str_of_int rank) = Some rank"
    by (elim insertE emptyE)
      (simp_all add: str_of_int_def str_of_nat.simps parse_int_def strip_def py_space_def parse_digits_def
        digit_value_def ascii_digit_def)
  with k show ?thesis
    by (simp add: descriptor_page_token_key_def encode_descriptor_page_token_def before_append after_append)
qed
text \<open>Rows in the order of their cursors can be paged.\<close>

lemma descriptors_paged:
  assumes "0 < n" and "sorted (map descriptor_page_key rows)" and "distinct (map desc_id rows)"
  shows "paged n encode_descriptor_page_token (\<lambda>t. list_descriptors n t rows) rows"
proof
  fix pre x post
  assume s: "rows = pre @ [x] @ post"
  have "distinct (map descriptor_page_key rows)"
    using assms(3) by (auto simp: distinct_map descriptor_page_key_def inj_on_def)
  then have "sorted_wrt (\<lambda>a b. descriptor_page_key a < descriptor_page_key b) (pre @ [x] @ post)"
    using assms(2) sorted_wrt_less_map [of descriptor_page_key rows] s by blast
  then have "filter (\<lambda>r. descriptor_page_key x < descriptor_page_key r) rows = post"
    unfolding s by (rule filter_after_key)
  moreover have "encode_descriptor_page_token x \<noteq> []"
    by (simp add: encode_descriptor_page_token_def split: prod.split)
  ultimately show "list_descriptors n (Some (encode_descriptor_page_token x)) rows =
      paginate_sequence n encode_descriptor_page_token post"
    by (simp add: list_descriptors_def token_round_trip Let_def)
qed (use assms in \<open>simp_all add: list_descriptors_def\<close>)

lemma page_key_stage:
  "rank_of order (stage_text r) =
     rank_of CONFIG_STAGE_ORDER (stage_text r) \<Longrightarrow>
   stage_key (Some order) r = descriptor_page_key r"
  by (cases "desc_stage r")
    (simp_all add: stage_text_def stage_key_def descriptor_page_key_def rank_of_def CONFIG_STAGE_ORDER_def CONFIG_STAGES_def)

text \<open>
  The artifact contracts, listed in the core's stage order, are paged: the interface holds
  for whatever rows the provider gives.
\<close>

interpretation artifact_listing: paged "Suc n" encode_descriptor_page_token
  "\<lambda>t. list_descriptors (Suc n) t (dedupe (Some CONFIG_STAGE_ORDER) rows)"
  "dedupe (Some CONFIG_STAGE_ORDER) rows" for n rows
proof (rule descriptors_paged)
  have "stage_key (Some CONFIG_STAGE_ORDER) = descriptor_page_key"
    by (rule ext) (rule page_key_stage, rule refl)
  then show "sorted (map descriptor_page_key (dedupe (Some CONFIG_STAGE_ORDER) rows))"
    using dedupe_rows(3) [of "Some CONFIG_STAGE_ORDER" rows] by simp
qed (simp_all add: dedupe_rows(2))

lemma artifact_contract_pages:
  "\<exists>pages. walk (Suc (length (dedupe (Some CONFIG_STAGE_ORDER) rows)))
      (\<lambda>t. list_descriptors (Suc n) t (dedupe (Some CONFIG_STAGE_ORDER) rows)) None = Some pages \<and>
    concat pages = dedupe (Some CONFIG_STAGE_ORDER) rows"
  using artifact_listing.walk_all by blast

lemma actions_paged:
  assumes "0 < n" and "[] \<notin> desc_id ` set rows"
  shows "paged n desc_id (\<lambda>t. list_actions n t (dedupe None rows)) (dedupe None rows)"
proof
  fix pre x post
  assume s: "dedupe None rows = pre @ [x] @ post"
  have "sorted (map desc_id (dedupe None rows))"
    by (simp add: dedupe_unstaged)
  then have "sorted_wrt (\<lambda>a b. desc_id a < desc_id b) (pre @ [x] @ post)"
    using dedupe_rows(2) [of None rows] sorted_wrt_less_map [of desc_id "dedupe None rows"] s by simp
  then have "filter (\<lambda>r. desc_id x < desc_id r) (dedupe None rows) = post"
    unfolding s by (rule filter_after_key)
  moreover have "x \<in> set (dedupe None rows)" unfolding s by simp
  then have "x \<in> set rows" by (auto simp: dedupe_rows(1) find_Some_iff)
  then have "desc_id x \<noteq> []" using assms(2) by (auto simp: image_iff)
  ultimately show "list_actions n (Some (desc_id x)) (dedupe None rows) = paginate_sequence n desc_id post"
    by (simp add: list_actions_def)
qed (use assms in \<open>simp_all add: list_actions_def\<close>)

section \<open>Properties\<close>

text \<open>
  Keyset pagination, in either direction: following the tokens from the first page ends
  and visits the selected rows exactly once, in order, on full pages except for the last.
\<close>

theorem keyset_pages_complete:
  assumes "0 < n" and "distinct (map pk stmt)" and "[] \<notin> pk ` set stmt"
  shows "\<exists>pages. walk (Suc (length stmt)) (\<lambda>t. paginate_keyset pk n t descending stmt) None = Some pages \<and>
    concat pages = order_by pk descending stmt \<and> set (concat pages) = set stmt \<and>
    distinct (map pk (concat pages)) \<and>
    (\<forall>p \<in> set pages. length p \<le> n) \<and> (\<forall>p \<in> set (butlast pages). length p = n)"
proof -
  obtain pages where p: "walk (Suc (length stmt)) (\<lambda>t. paginate_keyset pk n t descending stmt) None = Some pages"
    "concat pages = order_by pk descending stmt"
    "\<forall>p \<in> set pages. length p \<le> n" "\<forall>p \<in> set (butlast pages). length p = n"
    using paged.walk_all [OF keyset_paged [OF assms, of descending]] unfolding order_by_facts by blast
  have "distinct (map pk (order_by pk descending stmt))"
    using assms(2) by (simp add: order_by_def distinct_map)
  then have "set (concat pages) = set stmt \<and> distinct (map pk (concat pages))"
    by (simp only: p(2) order_by_facts simp_thms)
  with p show ?thesis by blast
qed

lemma keyset_pages_complete_witness:
  "\<exists>pages. walk 4 (\<lambda>t. paginate_keyset id 2 t True [''b'', ''c'', ''a'']) None = Some pages \<and>
    concat pages = [''c'', ''b'', ''a'']"
  using keyset_pages_complete [of 2 id "[''b'', ''c'', ''a'']" True]
  by (auto simp: order_by_def less_eq_char_def eval_nat_numeral)

text \<open>
  The listing of the backend's descriptors, from the registry to the cursor: when the
  stage order of the registry gives the rows' stages the core's ranks, following the tokens
  visits, in the registry's order, exactly one row per id, the first one given.
\<close>

theorem descriptor_pages_complete:
  assumes "0 < n"
    and "\<forall>r \<in> set rows. rank_of order (stage_text r) = rank_of CONFIG_STAGE_ORDER (stage_text r)"
  shows "\<exists>pages. walk (Suc (length (dedupe (Some order) rows)))
      (\<lambda>t. list_descriptors n t (dedupe (Some order) rows)) None = Some pages \<and>
    concat pages = dedupe (Some order) rows \<and> distinct (map desc_id (concat pages)) \<and>
    set (concat pages) = {r. find_row rows (desc_id r) = Some r}"
proof -
  have "r \<in> set rows" if "r \<in> set (dedupe (Some order) rows)" for r
    using that by (auto simp: dedupe_rows(1) find_Some_iff)
  then have m: "map (stage_key (Some order)) (dedupe (Some order) rows) =
      map descriptor_page_key (dedupe (Some order) rows)"
    using assms(2) page_key_stage by (intro map_cong) auto
  have "sorted (map descriptor_page_key (dedupe (Some order) rows))"
    unfolding m [symmetric] by (rule dedupe_rows(3))
  from paged.walk_all [OF descriptors_paged [OF assms(1) this dedupe_rows(2)]]
  obtain pages where p: "walk (Suc (length (dedupe (Some order) rows)))
      (\<lambda>t. list_descriptors n t (dedupe (Some order) rows)) None = Some pages"
    "concat pages = dedupe (Some order) rows" by blast
  moreover have "distinct (map desc_id (concat pages)) \<and>
      set (concat pages) = {r. find_row rows (desc_id r) = Some r}"
    unfolding p(2) find_row_def by (simp only: dedupe_rows simp_thms)
  ultimately show ?thesis by blast
qed

definition demo_rows :: "descriptor list" where
  "demo_rows = map (\<lambda>(i, s). \<lparr>desc_id = i, desc_stage = Some s\<rparr>)
     [(''x:y'', ''mapping''), (''b'', ''features''), (''a'', ''mapping''), (''b'', ''verify'')]"

lemma demo_rows_listed:
  "map desc_id (dedupe (Some config_stage_order) demo_rows) = [''b'', ''a'', ''x:y'']"
  by (simp add: demo_rows_def rank_of_def config_stage_order_def dedupe_def stage_text_def less_eq_prod_def
      less_eq_char_def)

lemma descriptor_pages_complete_witness:
  "\<exists>pages. walk (Suc (length (dedupe (Some config_stage_order) demo_rows)))
      (\<lambda>t. list_descriptors 1 t (dedupe (Some config_stage_order) demo_rows)) None = Some pages \<and>
    map desc_id (concat pages) = [''b'', ''a'', ''x:y'']"
proof -
  have "\<forall>r \<in> set demo_rows. rank_of config_stage_order (stage_text r) = rank_of CONFIG_STAGE_ORDER (stage_text r)"
    by (simp add: demo_rows_def stage_text_def rank_of_def config_stage_order_def CONFIG_STAGE_ORDER_def
        CONFIG_STAGES_def)
  from descriptor_pages_complete [OF _ this, of 1] show ?thesis
    by (metis demo_rows_listed zero_less_one)
qed

text \<open>
  The config schemas are listed in an order the cursor does not know: a radiance schema
  comes before a schema of an unknown stage, while their cursors compare by id. When the
  unknown one has the smaller id, following the tokens with one row per page never shows it.
\<close>

theorem config_schema_pages_lose_row:
  assumes "desc_stage a = Some ''radiance''" and "desc_stage b = Some s"
    and "s \<notin> fst ` set config_stage_order" and "desc_id b < desc_id a"
  shows "dedupe (Some config_stage_order) [b, a] = [a, b] \<and>
    walk (Suc (Suc fuel)) (\<lambda>t. list_descriptors 1 t (dedupe (Some config_stage_order) [b, a])) None = Some [[a], []]"
proof -
  have l: "dedupe (Some config_stage_order) [b, a] = [a, b]"
    using assms by (auto simp: stage_text_def dedupe_def rank_of_def config_stage_order_def less_eq_prod_def map_of_eq_None_iff)
  have k: "descriptor_page_key a = (999, desc_id a)" "descriptor_page_key b = (999, desc_id b)"
    using assms by (auto simp: descriptor_page_key_def rank_of_def CONFIG_STAGE_ORDER_def CONFIG_STAGES_def
        config_stage_order_def)
  have "encode_descriptor_page_token a \<noteq> []"
    by (simp add: encode_descriptor_page_token_def split: prod.split)
  then show ?thesis
    using assms(4) by (simp add: l list_descriptors_def paginate_sequence_def at_end_def token_round_trip k Let_def walk.simps)
qed

lemma config_schema_pages_lose_row_witness:
  "walk 9 (\<lambda>t. list_descriptors 1 t (dedupe (Some config_stage_order)
      [\<lparr>desc_id = ''a.x'', desc_stage = Some ''other''\<rparr>, \<lparr>desc_id = ''radiance.train'', desc_stage = Some ''radiance''\<rparr>]))
      None = Some [[\<lparr>desc_id = ''radiance.train'', desc_stage = Some ''radiance''\<rparr>], []]"
  using conjunct2 [OF config_schema_pages_lose_row [of "\<lparr>desc_id = ''radiance.train'', desc_stage = Some ''radiance''\<rparr>"
      "\<lparr>desc_id = ''a.x'', desc_stage = Some ''other''\<rparr>" "''other''" 7]]
  by (simp add: config_stage_order_def)

end
