(* ===== verification/Job_Reads.thy ===== *)
theory Job_Reads
  imports Job_Service Pagination
begin

text \<open>
  The reading side of jobs: \<open>list_jobs\<close> of \<open>services/job_service.py\<close> and the progress
  snapshot of \<open>services/job_progress_service.py\<close>. Fractions are exact rationals instead of
  rounded floats; a quotient too large for a float, which Python refuses, is not modelled.
  The tasks of a job are read in the order of the table, their order of creation. Fields of
  the snapshot that are copied from a row or an event are kept as they are there.
\<close>

section \<open>Listing\<close>

definition list_jobs ::
  "string \<Rightarrow> nat \<Rightarrow> string option \<Rightarrow> task_status option \<Rightarrow> 'r db \<Rightarrow> job_row list \<times> string option" where
  "list_jobs tenant page_size page_token st d =
     (let stmt = filter (\<lambda>j. job_tenant_id j = tenant) (jobs d);
          stmt = (case st of None \<Rightarrow> stmt | Some s \<Rightarrow> filter (\<lambda>j. job_status j = s) stmt) in
      paginate_keyset job_id page_size page_token True stmt)"

section \<open>Progress\<close>

definition TERMINAL_TASK_STATUSES :: "task_status set" where
  "TERMINAL_TASK_STATUSES = {Succeeded, Failed, Cancelled, Cancelled_Dirty, Skipped}"

definition elapsed_seconds :: "time option \<Rightarrow> time option \<Rightarrow> time \<Rightarrow> int option" where
  "elapsed_seconds started finished now =
     (case started of
        None \<Rightarrow> None
      | Some start \<Rightarrow>
          (let finish = (case finished of None \<Rightarrow> now | Some t \<Rightarrow> t) in Some (max 0 (finish - start))))"

text \<open>\<open>isinstance(x, int)\<close>, which a bool also satisfies.\<close>

fun as_int :: "json option \<Rightarrow> int option" where
  "as_int (Some (JInt i)) = Some i"
| "as_int (Some (JBool b)) = Some (if b then 1 else 0)"
| "as_int _ = None"

type_synonym payload = "json dict"

definition event_fraction :: "payload option \<Rightarrow> rat option \<times> int option \<times> int option" where
  "event_fraction payload =
     (case payload of
        None \<Rightarrow> (None, None, None)
      | Some p \<Rightarrow>
          if map_of p ''kind'' \<noteq> Some (JStr ''phase_progress'') then (None, None, None)
          else
            (case (as_int (map_of p ''current''), as_int (map_of p ''total'')) of
               (Some c, Some t) \<Rightarrow>
                 if t \<le> 0 then (None, Some c, None)
                 else (Some (max 0 (min 1 (of_int c / of_int t))), Some c, Some t)
             | (c, _) \<Rightarrow> (None, c, None)))"

definition task_fraction :: "task_row \<Rightarrow> payload option \<Rightarrow> rat \<times> int option \<times> int option" where
  "task_fraction t latest_payload =
     (if status t \<in> TERMINAL_TASK_STATUSES then (1, None, None)
      else (case event_fraction latest_payload of
              (fraction, c, n) \<Rightarrow> (case fraction of None \<Rightarrow> 0 | Some x \<Rightarrow> x, c, n)))"

text \<open>\<open>payload_json or {}\<close>.\<close>

definition payload_of :: "event_row \<Rightarrow> payload" where
  "payload_of e = (case event_payload e of JObj kvs \<Rightarrow> kvs | _ \<Rightarrow> [])"

definition events_desc :: "'r db \<Rightarrow> string \<Rightarrow> event_row list" where
  "events_desc d jid =
     take 1000 (rev (sort_key event_id (filter (\<lambda>e. event_job_id e = jid) (job_events d))))"

text \<open>The newest event of each task: the first of the descending list.\<close>

fun latest_by_task :: "event_row list \<Rightarrow> event_row dict \<Rightarrow> event_row dict" where
  "latest_by_task [] acc = acc"
| "latest_by_task (e # es) acc =
     latest_by_task es
       (case map_of (payload_of e) ''task_id'' of
          Some (JStr tid) \<Rightarrow> if map_of acc tid = None then acc @ [(tid, e)] else acc
        | _ \<Rightarrow> acc)"

record task_report =
  tr_task_id :: string
  tr_kind :: string
  tr_status :: task_status
  tr_progress :: rat
  tr_phase :: "json option"
  tr_current :: "int option"
  tr_total :: "int option"
  tr_latest_event_id :: "int option"
  tr_latest_event_kind :: "json option"
  tr_started_at :: "time option"
  tr_finished_at :: "time option"
  tr_elapsed_seconds :: "int option"

definition task_report_of :: "time \<Rightarrow> event_row dict \<Rightarrow> task_row \<Rightarrow> task_report" where
  "task_report_of now latest t =
     (let ev = map_of latest (task_id t); payload = map_option payload_of ev;
          (fraction, c, n) = task_fraction t payload;
          field = (\<lambda>k. Option.bind payload (\<lambda>p. map_of p k)) in
      \<lparr>tr_task_id = task_id t, tr_kind = kind t, tr_status = status t, tr_progress = fraction,
       tr_phase = field ''phase'', tr_current = c, tr_total = n,
       tr_latest_event_id = map_option event_id ev, tr_latest_event_kind = field ''kind'',
       tr_started_at = started_at t, tr_finished_at = finished_at t,
       tr_elapsed_seconds = elapsed_seconds (started_at t) (finished_at t) now\<rparr>)"

definition count_status :: "task_row \<Rightarrow> (task_status \<times> nat) list \<Rightarrow> (task_status \<times> nat) list" where
  "count_status t counts =
     AList.update (status t) ((case map_of counts (status t) of None \<Rightarrow> 0 | Some n \<Rightarrow> n) + 1) counts"

record job_progress =
  jp_job_id :: string
  jp_recipe :: string
  jp_status :: task_status
  jp_progress :: rat
  jp_total_tasks :: nat
  jp_completed_tasks :: nat
  jp_task_counts :: "(task_status \<times> nat) list"
  jp_current_task_id :: "string option"
  jp_current_task_kind :: "string option"
  jp_current_phase :: "json option"
  jp_latest_event_id :: "int option"
  jp_latest_event :: "payload option"
  jp_tasks :: "task_report list"

definition get_job_progress :: "time \<Rightarrow> string \<Rightarrow> string \<Rightarrow> 'r db \<Rightarrow> api_error + job_progress" where
  "get_job_progress now tenant jid d =
     andthen (get_job tenant jid d) (\<lambda>j.
       let ts = job_tasks (tasks d) jid;
           evs = events_desc d jid;
           latest_event = (case evs of [] \<Rightarrow> None | e # _ \<Rightarrow> Some e);
           latest_payload = map_option payload_of latest_event;
           reports = map (task_report_of now (latest_by_task evs [])) ts;
           overall = (if ts \<noteq> [] then sum_list (map tr_progress reports) / of_nat (length ts)
                      else if job_status j \<in> {Succeeded, Failed, Cancelled} then 1 else 0);
           current = (case find (\<lambda>t. status t = Running) ts of
                        Some t \<Rightarrow> Some t | None \<Rightarrow> find (\<lambda>t. status t = Pending) ts) in
       Inr \<lparr>jp_job_id = job_id j, jp_recipe = recipe j, jp_status = job_status j,
            jp_progress = max 0 (min 1 overall), jp_total_tasks = length ts,
            jp_completed_tasks = length (filter (\<lambda>t. status t \<in> TERMINAL_TASK_STATUSES) ts),
            jp_task_counts = fold count_status ts [],
            jp_current_task_id = map_option task_id current,
            jp_current_task_kind = map_option kind current,
            jp_current_phase = Option.bind latest_payload (\<lambda>p. map_of p ''phase''),
            jp_latest_event_id = map_option event_id latest_event,
            jp_latest_event = latest_payload, jp_tasks = reports\<rparr>)"

section \<open>Bounds\<close>

lemma task_fraction_bounds: "0 \<le> fst (task_fraction t p) \<and> fst (task_fraction t p) \<le> 1"
  by (auto simp: task_fraction_def event_fraction_def split: option.splits prod.splits)

lemma report_progress: "tr_progress (task_report_of now latest t) = fst (task_fraction t (map_option payload_of (map_of latest (task_id t))))"
  by (simp add: task_report_of_def Let_def split: prod.split)

lemma sum_between:
  fixes f :: "'a \<Rightarrow> rat"
  assumes "\<And>x. x \<in> set xs \<Longrightarrow> 0 \<le> f x \<and> f x \<le> 1" and "\<And>x. x \<in> set xs \<Longrightarrow> P x \<Longrightarrow> f x = 1"
  shows "of_nat (length (filter P xs)) \<le> sum_list (map f xs) \<and> sum_list (map f xs) \<le> of_nat (length xs)"
  using assms by (induction xs) force+

text \<open>The snapshot exists exactly for the jobs of the tenant.\<close>

lemma progress_answers:
  "(\<exists>p. get_job_progress now tenant jid d = Inr p) \<longleftrightarrow> (\<exists>j. get_job tenant jid d = Inr j)"
  by (cases "get_job tenant jid d") (simp_all add: get_job_progress_def Let_def)

lemma progress_fields:
  "get_job_progress now tenant jid d = Inr p \<Longrightarrow>
     jp_completed_tasks p = length (filter (\<lambda>t. status t \<in> TERMINAL_TASK_STATUSES) (job_tasks (tasks d) jid)) \<and>
     jp_tasks p = map (task_report_of now (latest_by_task (events_desc d jid) [])) (job_tasks (tasks d) jid)"
  by (cases "get_job tenant jid d") (simp_all add: get_job_progress_def Let_def, auto)

lemma fold_count_status: "sum_list (map snd (fold count_status ts counts)) = length ts + sum_list (map snd counts)"
proof (induction ts arbitrary: counts)
  case (Cons t ts)
  have "sum_list (map snd (AList.update k (n + 1) c)) = sum_list (map snd c) + 1"
    if "n = (case map_of c k of None \<Rightarrow> 0 | Some n \<Rightarrow> n)" for k and n :: nat and c :: "(task_status \<times> nat) list"
    using that by (induction c) auto
  with Cons show ?case by (simp add: count_status_def)
qed simp

text \<open>
  The progress snapshot is consistent: every fraction and the overall progress lie
  between 0 and 1, the counts by status add up to the number of tasks, the overall progress
  is at least the completed share, and it is 1 when every task is terminal.
\<close>

theorem progress_bounds:
  assumes "get_job_progress now tenant jid d = Inr p"
  shows "0 \<le> jp_progress p \<and> jp_progress p \<le> 1 \<and>
    list_all (\<lambda>r. 0 \<le> tr_progress r \<and> tr_progress r \<le> 1) (jp_tasks p) \<and>
    jp_total_tasks p = length (job_tasks (tasks d) jid) \<and>
    jp_completed_tasks p \<le> jp_total_tasks p \<and>
    sum_list (map snd (jp_task_counts p)) = jp_total_tasks p \<and>
    of_nat (jp_completed_tasks p) / of_nat (jp_total_tasks p) \<le> jp_progress p \<and>
    (jp_completed_tasks p = jp_total_tasks p \<and> 0 < jp_total_tasks p \<longrightarrow> jp_progress p = 1)"
proof -
  let ?ts = "job_tasks (tasks d) jid" and ?l = "latest_by_task (events_desc d jid) []"
  let ?f = "\<lambda>t. tr_progress (task_report_of now ?l t)"
  let ?done = "length (filter (\<lambda>t. status t \<in> TERMINAL_TASK_STATUSES) ?ts)"
  obtain j where j: "get_job tenant jid d = Inr j"
    using assms progress_answers by blast
  have b: "0 \<le> ?f t \<and> ?f t \<le> 1" for t
    unfolding report_progress by (rule task_fraction_bounds)
  have "?f t = 1" if "status t \<in> TERMINAL_TASK_STATUSES" for t
    using that by (simp add: report_progress task_fraction_def)
  with b have s: "of_nat ?done \<le> sum_list (map ?f ?ts) \<and> sum_list (map ?f ?ts) \<le> of_nat (length ?ts)"
    by (intro sum_between) auto
  define avg where "avg = sum_list (map ?f ?ts) / of_nat (length ?ts)"
  have avg: "of_nat ?done / of_nat (length ?ts) \<le> avg \<and> avg \<le> 1"
    using s by (auto simp: avg_def divide_le_eq_1 intro!: divide_right_mono)
  have le: "?done \<le> length ?ts" by simp
  have p: "jp_total_tasks p = length ?ts" "jp_completed_tasks p = ?done"
    "jp_task_counts p = fold count_status ?ts []" "jp_tasks p = map (task_report_of now ?l) ?ts"
    "0 \<le> jp_progress p \<and> jp_progress p \<le> 1" "?ts \<noteq> [] \<longrightarrow> jp_progress p = max 0 (min 1 avg)"
    using assms j by (auto simp: get_job_progress_def Let_def avg_def comp_def)
  have "of_nat ?done / of_nat (length ?ts) \<le> jp_progress p \<and>
      (?done = length ?ts \<and> 0 < length ?ts \<longrightarrow> jp_progress p = 1)"
  proof (cases "?ts = []")
    case True
    then show ?thesis using p(5) by simp
  next
    case False
    with p(6) avg show ?thesis by (auto simp: max_def min_def)
  qed
  with p b le show ?thesis by (simp add: list_all_iff fold_count_status)
qed
definition demo_jobs :: "unit db" where
  "demo_jobs = \<lparr>tasks = [blank_task\<lparr>task_id := ''a'', task_job_id := ''j'', status := Succeeded\<rparr>,
       blank_task\<lparr>task_id := ''b'', task_job_id := ''j'', status := Running\<rparr>],
     jobs = [blank_job\<lparr>job_id := ''j''\<rparr>],
     job_events = [\<lparr>event_id = 1, event_job_id = ''j'', event_ts = 0, event_payload =
         JObj [(''kind'', JStr ''phase_progress''), (''task_id'', JStr ''b''), (''current'', JInt 1), (''total'', JInt 2)]\<rparr>,
       \<lparr>event_id = 2, event_job_id = ''j'', event_ts = 0, event_payload =
         JObj [(''kind'', JStr ''log_line''), (''task_id'', JStr ''b'')]\<rparr>],
     resources = \<lparr>recons = [], stage_artifacts = [], others = ()\<rparr>\<rparr>"

lemma demo_job: "get_job ''default'' ''j'' demo_jobs = Inr (blank_job\<lparr>job_id := ''j''\<rparr>)"
  by (simp add: get_job_def demo_jobs_def blank_rows)

lemma demo_events: "events_desc demo_jobs ''j'' = rev (job_events demo_jobs)"
  by (simp add: events_desc_def demo_jobs_def)

lemma progress_bounds_witness:
  "\<exists>p. get_job_progress 0 ''default'' ''j'' demo_jobs = Inr p \<and> 1 / 2 \<le> jp_progress p \<and> jp_progress p \<le> 1"
proof -
  obtain p where p: "get_job_progress 0 ''default'' ''j'' demo_jobs = Inr p"
    using demo_job progress_answers by blast
  have "length (filter (\<lambda>t. status t \<in> TERMINAL_TASK_STATUSES) (job_tasks (tasks demo_jobs) ''j'')) = 1"
    "length (job_tasks (tasks demo_jobs) ''j'') = 2"
    by (simp_all add: job_tasks_def demo_jobs_def blank_rows TERMINAL_TASK_STATUSES_def)
  then have n: "jp_completed_tasks p = 1" "jp_total_tasks p = 2"
    using progress_fields [OF p] progress_bounds [OF p] by simp_all
  have "of_nat (jp_completed_tasks p) / of_nat (jp_total_tasks p) \<le> jp_progress p" "jp_progress p \<le> 1"
    using progress_bounds [OF p] by blast+
  with p show ?thesis by (auto simp: n)
qed

lemma latest_keeps: "map_of acc tid = Some e \<Longrightarrow> map_of (latest_by_task es acc) tid = Some e"
  by (induction es acc rule: latest_by_task.induct) (auto split: option.splits json.splits)

text \<open>
  Only the newest event of a task counts: when it is not a progress event, a task that is
  still running is reported with no progress, whatever its earlier progress events said.
\<close>

theorem later_event_hides_progress:
  assumes "get_job_progress now tenant jid d = Inr p" and "events_desc d jid = e # es"
    and "map_of (payload_of e) ''task_id'' = Some (JStr (task_id t))"
    and "map_of (payload_of e) ''kind'' \<noteq> Some (JStr ''phase_progress'')"
    and "t \<in> set (job_tasks (tasks d) jid)" and "status t = Running"
  shows "\<exists>r \<in> set (jp_tasks p). tr_task_id r = task_id t \<and> tr_progress r = 0 \<and> tr_current r = None"
proof -
  have "map_of (latest_by_task (e # es) []) (task_id t) = Some e"
    using assms(3) by (simp add: latest_keeps)
  then have "tr_task_id (task_report_of now (latest_by_task (e # es) []) t) = task_id t \<and>
      tr_progress (task_report_of now (latest_by_task (e # es) []) t) = 0 \<and>
      tr_current (task_report_of now (latest_by_task (e # es) []) t) = None"
    using assms(4,6) by (simp add: task_report_of_def task_fraction_def event_fraction_def
        TERMINAL_TASK_STATUSES_def del: latest_by_task.simps)
  moreover have "jp_tasks p = map (task_report_of now (latest_by_task (e # es) [])) (job_tasks (tasks d) jid)"
    using progress_fields [OF assms(1)] unfolding assms(2) by blast
  ultimately show ?thesis using assms(5) by auto
qed

lemma later_event_hides_progress_witness:
  "\<exists>p. get_job_progress 0 ''default'' ''j'' demo_jobs = Inr p \<and>
    (\<exists>r \<in> set (jp_tasks p). tr_task_id r = ''b'' \<and> tr_progress r = 0)"
proof -
  obtain p where p: "get_job_progress 0 ''default'' ''j'' demo_jobs = Inr p"
    using demo_job progress_answers by blast
  have "job_events demo_jobs \<noteq> []" by (simp add: demo_jobs_def)
  then have "events_desc demo_jobs ''j'' = last (job_events demo_jobs) # rev (butlast (job_events demo_jobs))"
    unfolding demo_events by (metis append_butlast_last_id rev_eq_Cons_iff rev_rev_ident)
  from later_event_hides_progress [OF p this, of "tasks demo_jobs ! 1"] p show ?thesis
    by (auto simp: demo_jobs_def payload_of_def job_tasks_def blank_rows)
qed

text \<open>
  C39. Following the tokens of \<open>list_jobs\<close> visits every job of the tenant with the wanted
  status exactly once, the greatest id first.
\<close>

theorem list_jobs_complete:
  assumes "0 < n" and "keys_unique d" and "[] \<notin> job_id ` set (jobs d)"
  shows "\<exists>fuel pages. walk fuel (\<lambda>t. list_jobs tenant n t st d) None = Some pages \<and>
    set (concat pages) =
      {j \<in> set (jobs d). job_tenant_id j = tenant \<and> (\<forall>s. st = Some s \<longrightarrow> job_status j = s)} \<and>
    sorted (rev (map job_id (concat pages))) \<and> distinct (map job_id (concat pages))"
proof -
  define stmt where "stmt = filter (\<lambda>j. job_tenant_id j = tenant \<and> (\<forall>s. st = Some s \<longrightarrow> job_status j = s)) (jobs d)"
  have l: "list_jobs tenant n t st d = paginate_keyset job_id n t True stmt" for t
    by (cases st) (simp_all add: list_jobs_def stmt_def Let_def)
  have "distinct (map job_id stmt)" "[] \<notin> job_id ` set stmt"
    using assms(2,3) by (auto simp: stmt_def keys_unique_def distinct_map_filter)
  from paged.walk_all [OF keyset_paged [OF assms(1) this, of True]] obtain fuel pages where
    w: "walk fuel (\<lambda>t. list_jobs tenant n t st d) None = Some pages" "concat pages = order_by job_id True stmt"
    unfolding l by blast
  have "sorted (rev (map job_id (concat pages)))"
    unfolding w(2) by (simp add: order_by_def rev_map)
  moreover have "distinct (map job_id (concat pages))"
    using \<open>distinct (map job_id stmt)\<close> unfolding w(2) by (simp add: order_by_def rev_map [symmetric] distinct_map)
  moreover have "set (concat pages) =
      {j \<in> set (jobs d). job_tenant_id j = tenant \<and> (\<forall>s. st = Some s \<longrightarrow> job_status j = s)}"
    unfolding w(2) order_by_facts by (simp add: stmt_def)
  ultimately show ?thesis using w(1) by blast
qed

lemma list_jobs_complete_witness:
  "\<exists>fuel pages. walk fuel (\<lambda>t. list_jobs ''default'' 5 t None demo_jobs) None = Some pages \<and>
    set (concat pages) = set (jobs demo_jobs)"
  using list_jobs_complete [of 5 demo_jobs "''default''" None]
  by (fastforce simp: demo_jobs_def keys_unique_def blank_rows)

end
