(* ===== verification/Routing.thy ===== *)
theory Routing
  imports Prelude "HOL-Library.Product_Lexorder" "HOL-Library.Multiset"
begin

text \<open>
  \<open>sfm_hub/state.py\<close> and \<open>sfm_hub/routing.py\<close>: what the hub remembers of installed plugins,
  provider priorities and routing profiles, and how the provider of a stage is chosen. The
  state file is read, updated and replaced under a lock, so an update is a function on the
  state, and one that raises leaves the file as it was. The registry of manifests and the
  plugins found by their entry points are arguments.
\<close>

section \<open>State\<close>

record installed_plugin =
  ip_plugin_id :: string
  ip_method :: string
  ip_source_url :: string
  ip_ref :: string
  ip_resolved_commit :: "string option"
  ip_installed_at :: string
  ip_enabled :: bool
  ip_provision_runtime :: bool
  ip_provisioned :: bool
  ip_provisioning_status :: string
  ip_provisioning_error :: "string option"
  ip_request_id :: "string option"

record routing_profile =
  rp_name :: string
  rp_routes :: "string list dict"

record plugin_state =
  installed :: "installed_plugin dict"
  provider_priority :: "string list"
  profiles :: "routing_profile dict"
  default_profile :: "string option"
  project_profiles :: "string dict"
  workspace_profiles :: "string dict"

record hub_provider =
  hp_provider_id :: string
  hp_capabilities :: "string list"
  hp_backend_actions :: "string list"
  hp_priority_hint :: int

record hub_manifest =
  hm_plugin_id :: string
  hm_runtime_modes :: "string list"
  hm_providers :: "hub_provider list"

datatype hub_error = Key_Error string | Ambiguity_Error string "string list"

definition key_error :: "string \<Rightarrow> hub_error + 'a" where
  "key_error msg = Inl (Key_Error msg)"

text \<open>\<open>PluginState()\<close>, and the check of a profile's constructor.\<close>

definition empty_state :: plugin_state where
  "empty_state = \<lparr>installed = [], provider_priority = [], profiles = [], default_profile = None,
     project_profiles = [], workspace_profiles = []\<rparr>"

definition ROUTING_ROUTE_KEYS :: "string list" where
  "ROUTING_ROUTE_KEYS =
     [''features'', ''pairs'', ''matcher'', ''verify'', ''mapping'', ''radiance'', ''actions'']"

definition routes_are_supported :: "string list dict \<Rightarrow> string + string list dict" where
  "routes_are_supported routes =
     (let unsupported = sorted_set (filter (\<lambda>k. k \<notin> set ROUTING_ROUTE_KEYS) (keys routes)) in
      if unsupported \<noteq> [] then
        Inl (''routes contain unsupported route key(s): '' @ joins '', '' unsupported)
      else Inr routes)"

section \<open>Updates\<close>

definition same_record :: "installed_plugin \<Rightarrow> installed_plugin \<Rightarrow> bool" where
  "same_record a b \<longleftrightarrow>
     ip_method a = ip_method b \<and> ip_source_url a = ip_source_url b \<and> ip_ref a = ip_ref b \<and>
     ip_resolved_commit a = ip_resolved_commit b \<and> ip_enabled a = ip_enabled b \<and>
     ip_provision_runtime a = ip_provision_runtime b \<and> ip_provisioned a = ip_provisioned b \<and>
     ip_provisioning_status a = ip_provisioning_status b \<and>
     ip_provisioning_error a = ip_provisioning_error b \<and> ip_request_id a = ip_request_id b"

definition record_installed :: "installed_plugin \<Rightarrow> plugin_state \<Rightarrow> plugin_state" where
  "record_installed r s =
     (case map_of (installed s) (ip_plugin_id r) of
        Some existing \<Rightarrow>
          if same_record existing r then s
          else s\<lparr>installed := AList.update (ip_plugin_id r) r (installed s)\<rparr>
      | None \<Rightarrow> s\<lparr>installed := AList.update (ip_plugin_id r) r (installed s)\<rparr>)"

definition set_enabled :: "string \<Rightarrow> bool \<Rightarrow> plugin_state \<Rightarrow> hub_error + plugin_state" where
  "set_enabled pid en s =
     (case map_of (installed s) pid of
        None \<Rightarrow> key_error (''plugin '' @ py_repr pid @ '' is not installed'')
      | Some p \<Rightarrow> Inr (s\<lparr>installed := AList.update pid (p\<lparr>ip_enabled := en\<rparr>) (installed s)\<rparr>))"

definition selector :: "string \<Rightarrow> string \<Rightarrow> string" where
  "selector provider plugin = provider @ ''@'' @ plugin"

text \<open>\<open>_known_provider_ids_and_ambiguous_bare\<close>: the second component as a predicate.\<close>

definition known_provider_ids :: "hub_manifest list \<Rightarrow> string list" where
  "known_provider_ids ms =
     concat (map (\<lambda>m. concat (map (\<lambda>p. [hp_provider_id p, selector (hp_provider_id p) (hm_plugin_id m)])
       (hm_providers m))) ms)"

definition ambiguous_bare :: "hub_manifest list \<Rightarrow> string \<Rightarrow> bool" where
  "ambiguous_bare ms pid \<longleftrightarrow>
     1 < length (remdups (map hm_plugin_id
       (filter (\<lambda>m. pid \<in> hp_provider_id ` set (hm_providers m)) ms)))"

definition check_providers :: "string \<Rightarrow> hub_manifest list \<Rightarrow> string list \<Rightarrow> hub_error + unit" where
  "check_providers what ms referenced =
     (let unknown = sorted_set (filter (\<lambda>p. p \<notin> set (known_provider_ids ms)) referenced);
          ambiguous = sorted_set (filter (\<lambda>p. CHR ''@'' \<notin> set p \<and> ambiguous_bare ms p) referenced) in
      if unknown \<noteq> [] then
        key_error (what @ '' unknown provider id(s): '' @ joins '', '' unknown)
      else if ambiguous \<noteq> [] then
        key_error (what @ '' ambiguous provider id(s): '' @ joins '', '' ambiguous @ ''; use provider@plugin'')
      else Inr ())"

definition upsert_profile ::
  "hub_manifest list \<Rightarrow> routing_profile \<Rightarrow> plugin_state \<Rightarrow> hub_error + plugin_state" where
  "upsert_profile ms p s =
     andthen (check_providers (''routing profile '' @ py_repr (rp_name p) @ '' references'') ms
       (concat (map snd (rp_routes p)))) (\<lambda>_.
       Inr (s\<lparr>profiles := AList.update (rp_name p) p (profiles s)\<rparr>))"

definition known_profile :: "string \<Rightarrow> plugin_state \<Rightarrow> hub_error + unit" where
  "known_profile name s =
     guard (map_of (profiles s) name = None)
       (Key_Error (''unknown routing profile '' @ py_repr name))"

definition nonempty_profile :: "string \<Rightarrow> hub_error + unit" where
  "nonempty_profile name = guard (name = []) (Key_Error ''profile name must be non-empty'')"

definition set_default_profile :: "string \<Rightarrow> plugin_state \<Rightarrow> hub_error + plugin_state" where
  "set_default_profile name s =
     andthen (nonempty_profile name) (\<lambda>_. andthen (known_profile name s) (\<lambda>_.
       Inr (s\<lparr>default_profile := Some name\<rparr>)))"

definition set_provider_priority ::
  "hub_manifest list \<Rightarrow> string list \<Rightarrow> plugin_state \<Rightarrow> hub_error + plugin_state" where
  "set_provider_priority ms providers s =
     andthen (check_providers ''provider priority references'' ms providers) (\<lambda>_.
       Inr (s\<lparr>provider_priority := providers\<rparr>))"

definition set_project_profile :: "string \<Rightarrow> string \<Rightarrow> plugin_state \<Rightarrow> hub_error + plugin_state" where
  "set_project_profile project name s =
     andthen (nonempty_profile name) (\<lambda>_. andthen (known_profile name s) (\<lambda>_.
       Inr (s\<lparr>project_profiles := AList.update project name (project_profiles s)\<rparr>)))"

definition set_workspace_profile :: "string \<Rightarrow> string \<Rightarrow> plugin_state \<Rightarrow> hub_error + plugin_state" where
  "set_workspace_profile ws name s =
     andthen (nonempty_profile name) (\<lambda>_. andthen (known_profile name s) (\<lambda>_.
       Inr (s\<lparr>workspace_profiles := AList.update ws name (workspace_profiles s)\<rparr>)))"

section \<open>Provider records\<close>

record provider_record =
  pr_plugin_id :: string
  pr_installed :: bool
  pr_enabled :: bool
  pr_runtime_modes :: "string list"
  pr_provider :: hub_provider

definition manifest_records ::
  "plugin_state \<Rightarrow> string list \<Rightarrow> bool \<Rightarrow> bool \<Rightarrow> hub_manifest \<Rightarrow> provider_record list" where
  "manifest_records s entry_points installed_only enabled_only m =
     (let row = map_of (installed s) (hm_plugin_id m);
          inst = (row \<noteq> None \<or> hm_plugin_id m \<in> set entry_points);
          en = (inst \<and> (case row of Some r \<Rightarrow> ip_enabled r | None \<Rightarrow> True)) in
      if installed_only \<and> \<not> inst \<or> enabled_only \<and> \<not> en then []
      else map (\<lambda>p. \<lparr>pr_plugin_id = hm_plugin_id m, pr_installed = inst, pr_enabled = en,
             pr_runtime_modes = hm_runtime_modes m, pr_provider = p\<rparr>) (hm_providers m))"

definition provider_records ::
  "plugin_state \<Rightarrow> hub_manifest list \<Rightarrow> string list \<Rightarrow> bool \<Rightarrow> bool \<Rightarrow> provider_record list" where
  "provider_records s ms entry_points installed_only enabled_only =
     sort_key (\<lambda>r. (hp_priority_hint (pr_provider r), hp_provider_id (pr_provider r)))
       (concat (map (manifest_records s entry_points installed_only enabled_only) ms))"

definition record_id :: "provider_record \<Rightarrow> string \<times> string" where
  "record_id r = (hp_provider_id (pr_provider r), pr_plugin_id r)"

definition matches_provider :: "string \<Rightarrow> provider_record list \<Rightarrow> provider_record list" where
  "matches_provider sel rows =
     (if CHR ''@'' \<in> set sel then
        filter (\<lambda>r. hp_provider_id (pr_provider r) = before (CHR ''@'') sel \<and>
                    pr_plugin_id r = after (CHR ''@'') sel) rows
      else filter (\<lambda>r. hp_provider_id (pr_provider r) = sel) rows)"

text \<open>\<open>provider_enabled\<close> reads the plain selector before the sign in the same way.\<close>

definition provider_enabled ::
  "string \<Rightarrow> plugin_state \<Rightarrow> hub_manifest list \<Rightarrow> string list \<Rightarrow> bool option" where
  "provider_enabled sel s ms entry_points =
     (let found = matches_provider sel (provider_records s ms entry_points True False) in
      if found = [] then None else Some (list_ex pr_enabled found))"

definition ensure_provider_enabled ::
  "string \<Rightarrow> plugin_state \<Rightarrow> hub_manifest list \<Rightarrow> string list \<Rightarrow> hub_error + unit" where
  "ensure_provider_enabled sel s ms entry_points =
     guard (provider_enabled sel s ms entry_points = Some False)
       (Key_Error (''provider '' @ py_repr sel @ '' is disabled''))"

section \<open>Resolution\<close>

text \<open>Every stage of \<open>STAGE_TO_ROUTE_KEY\<close> is its own route key.\<close>

definition candidate_records ::
  "string \<Rightarrow> string option \<Rightarrow> plugin_state \<Rightarrow> hub_manifest list \<Rightarrow> string list \<Rightarrow> provider_record list" where
  "candidate_records stage cap s ms entry_points =
     filter (\<lambda>r. case cap of
         Some c \<Rightarrow> c \<in> set (hp_capabilities (pr_provider r))
       | None \<Rightarrow> stage \<in> set (hp_capabilities (pr_provider r)) \<or> stage \<in> set (hp_backend_actions (pr_provider r)))
       (provider_records s ms entry_points True True)"

definition display_candidates :: "provider_record list \<Rightarrow> string list" where
  "display_candidates rows = map (\<lambda>r. selector (hp_provider_id (pr_provider r)) (pr_plugin_id r)) rows"

definition single_provider :: "string \<Rightarrow> provider_record list \<Rightarrow> bool \<Rightarrow> hub_error + string" where
  "single_provider stage rows qualified =
     (if length (remdups (map record_id rows)) = 1 then
        (let r = hd rows in
         Inr (if qualified then selector (hp_provider_id (pr_provider r)) (pr_plugin_id r)
              else hp_provider_id (pr_provider r)))
      else Inl (Ambiguity_Error stage (sort (display_candidates rows))))"

text \<open>The profiles that apply, the most specific one first.\<close>

definition profile_names :: "string option \<Rightarrow> string option \<Rightarrow> plugin_state \<Rightarrow> string list" where
  "profile_names project ws s =
     (let pick = (\<lambda>k d. case k of None \<Rightarrow> [] | Some i \<Rightarrow>
            if i = [] then [] else (case map_of d i of None \<Rightarrow> [] | Some n \<Rightarrow> [n])) in
      pick project (project_profiles s) @ pick ws (workspace_profiles s) @
      (case default_profile s of None \<Rightarrow> [] | Some n \<Rightarrow> if n = [] then [] else [n]))"

fun first_match ::
  "string \<Rightarrow> provider_record list \<Rightarrow> string list \<Rightarrow> (hub_error + string) option" where
  "first_match stage cands [] = None"
| "first_match stage cands (sel # sels) =
     (let found = matches_provider sel cands in
      if found \<noteq> [] then Some (single_provider stage found (CHR ''@'' \<in> set sel))
      else first_match stage cands sels)"

fun first_profile ::
  "string \<Rightarrow> provider_record list \<Rightarrow> plugin_state \<Rightarrow> string list \<Rightarrow> (hub_error + string) option" where
  "first_profile stage cands s [] = None"
| "first_profile stage cands s (n # ns) =
     (case map_of (profiles s) n of
        None \<Rightarrow> first_profile stage cands s ns
      | Some p \<Rightarrow>
          (case first_match stage cands (case map_of (rp_routes p) stage of None \<Rightarrow> [] | Some r \<Rightarrow> r) of
             Some r \<Rightarrow> Some r
           | None \<Rightarrow> first_profile stage cands s ns))"

definition resolve_provider ::
  "string \<Rightarrow> string option \<Rightarrow> string option \<Rightarrow> string option \<Rightarrow> string option \<Rightarrow> plugin_state
     \<Rightarrow> hub_manifest list \<Rightarrow> string list \<Rightarrow> hub_error + string option" where
  "resolve_provider stage cap requested project ws s ms entry_points =
     (let cands = candidate_records stage cap s ms entry_points;
          req = (case requested of None \<Rightarrow> [] | Some r \<Rightarrow> r) in
      if cands = [] then
        (let known = matches_provider req (provider_records s ms entry_points True False) in
         if req \<noteq> [] \<and> known \<noteq> [] then
           (if \<not> list_ex pr_enabled known then
              key_error (''provider '' @ py_repr req @ '' is disabled'')
            else key_error (''provider '' @ py_repr req @ '' is not enabled for '' @ stage @ ''; candidates: ''))
         else Inr requested)
      else if req \<noteq> [] then
        (let found = matches_provider req cands in
         if found = [] then
           key_error (''provider '' @ py_repr req @ '' is not enabled for '' @ stage @
             ''; candidates: '' @ joins '', '' (sort (display_candidates cands)))
         else map_sum id Some (single_provider stage found (CHR ''@'' \<in> set req)))
      else
        (case first_profile stage cands s (profile_names project ws s) of
           Some r \<Rightarrow> map_sum id Some r
         | None \<Rightarrow>
             (case first_match stage cands (provider_priority s) of
                Some r \<Rightarrow> map_sum id Some r
              | None \<Rightarrow>
                  if length (remdups (map record_id cands)) = 1
                  then Inr (Some (hp_provider_id (pr_provider (hd cands))))
                  else Inl (Ambiguity_Error stage (sort (display_candidates cands))))))"

end
