(* ===== verification/Routing_Correct.thy ===== *)
theory Routing_Correct
  imports Routing
begin

text \<open>
  What the choice of a provider guarantees: the provider chosen is the only one its selector
  names among the candidates, the choice follows the preferences and does not depend on the
  order of the manifests, and no configured profile is dangling.
\<close>

section \<open>Preferences\<close>

text \<open>The selectors in the order in which they are tried: the profiles' routes, the priority.\<close>

definition preferences :: "string \<Rightarrow> string option \<Rightarrow> string option \<Rightarrow> plugin_state \<Rightarrow> string list" where
  "preferences stage project ws s =
     concat (map (\<lambda>n. case map_of (profiles s) n of
         None \<Rightarrow> []
       | Some p \<Rightarrow> (case map_of (rp_routes p) stage of None \<Rightarrow> [] | Some r \<Rightarrow> r)) (profile_names project ws s)) @
     provider_priority s"

lemma first_match_append:
  "first_match stage cands (xs @ ys) =
     (case first_match stage cands xs of Some r \<Rightarrow> Some r | None \<Rightarrow> first_match stage cands ys)"
  by (induction xs) (simp_all add: Let_def)

lemma first_profile_match:
  "first_profile stage cands s ns = first_match stage cands (concat (map (\<lambda>n. case map_of (profiles s) n of
      None \<Rightarrow> [] | Some p \<Rightarrow> (case map_of (rp_routes p) stage of None \<Rightarrow> [] | Some r \<Rightarrow> r)) ns))"
  by (induction ns) (simp_all add: first_match_append split: option.split)

text \<open>Without a request the first preference that names a candidate decides, else the only candidate.\<close>

lemma resolve_follows_preference:
  assumes "candidate_records stage cap s ms eps \<noteq> []" and "requested = None \<or> requested = Some []"
  shows "resolve_provider stage cap requested project ws s ms eps = map_sum id Some
    (case first_match stage (candidate_records stage cap s ms eps) (preferences stage project ws s) of
       Some r \<Rightarrow> r
     | None \<Rightarrow> single_provider stage (candidate_records stage cap s ms eps) False)"
  using assms
  by (auto simp: resolve_provider_def Let_def preferences_def first_profile_match first_match_append
      single_provider_def split: option.split)

lemma resolve_requested:
  assumes "candidate_records stage cap s ms eps \<noteq> []" and "requested = Some (c # cs)"
  shows "resolve_provider stage cap requested project ws s ms eps =
    (if matches_provider (c # cs) (candidate_records stage cap s ms eps) = [] then
       key_error (''provider '' @ py_repr (c # cs) @ '' is not enabled for '' @ stage @
         ''; candidates: '' @ joins '', '' (sort (display_candidates (candidate_records stage cap s ms eps))))
     else map_sum id Some (single_provider stage
       (matches_provider (c # cs) (candidate_records stage cap s ms eps)) (CHR ''@'' \<in> set (c # cs))))"
  using assms by (simp add: resolve_provider_def Let_def)

section \<open>The choice names one provider\<close>

lemma single_provider_Inr:
  assumes "single_provider stage rows q = Inr sel" and "rows \<noteq> []"
  shows "\<exists>provider plugin. record_id ` set rows = {(provider, plugin)} \<and>
    sel = (if q then selector provider plugin else provider)"
proof -
  have "card (record_id ` set rows) = 1"
    using assms(1) by (auto simp: single_provider_def length_remdups_card_conv split: if_splits)
  then obtain x where "record_id ` set rows = {x}" by (auto simp: card_1_singleton_iff)
  moreover have "record_id (hd rows) \<in> record_id ` set rows" using assms(2) by simp
  ultimately have "record_id ` set rows = {record_id (hd rows)}" by auto
  then show ?thesis
    using assms(1) by (auto simp: single_provider_def record_id_def Let_def split: if_splits)
qed

lemma matches_subset: "set (matches_provider sel rows) \<subseteq> set rows"
  by (auto simp: matches_provider_def)

lemma set_matches:
  "set (matches_provider sel rows) = {r \<in> set rows. if CHR ''@'' \<in> set sel
     then record_id r = (before (CHR ''@'') sel, after (CHR ''@'') sel) else fst (record_id r) = sel}"
  by (auto simp: matches_provider_def record_id_def)

lemma matches_selector:
  "CHR ''@'' \<notin> set provider \<Longrightarrow>
     set (matches_provider (selector provider plugin) rows) = {r \<in> set rows. record_id r = (provider, plugin)}"
  by (auto simp: set_matches selector_def before_append after_append)

lemma single_provider_matches:
  assumes "single_provider stage (matches_provider sel0 cands) (CHR ''@'' \<in> set sel0) = Inr sel"
    and "matches_provider sel0 cands \<noteq> []" and "\<forall>r \<in> set cands. CHR ''@'' \<notin> set (fst (record_id r))"
  shows "\<exists>provider plugin. record_id ` set (matches_provider sel cands) = {(provider, plugin)}"
proof -
  obtain provider plugin where one: "record_id ` set (matches_provider sel0 cands) = {(provider, plugin)}"
    and sel: "sel = (if CHR ''@'' \<in> set sel0 then selector provider plugin else provider)"
    using single_provider_Inr [OF assms(1,2)] by blast
  then obtain r where r: "r \<in> set (matches_provider sel0 cands)" "record_id r = (provider, plugin)" by blast
  then have no: "CHR ''@'' \<notin> set provider" using assms(3) matches_subset [of sel0 cands] by force
  show ?thesis
  proof (cases "CHR ''@'' \<in> set sel0")
    case True
    have "r \<in> set cands" using r matches_subset by blast
    then have "record_id ` {r \<in> set cands. record_id r = (provider, plugin)} = {(provider, plugin)}"
      using r(2) by auto
    then show ?thesis using True by (simp add: sel matches_selector [OF no])
  next
    case False
    then have "provider = sel0" using r by (auto simp: set_matches)
    then show ?thesis using one sel False by auto
  qed
qed

lemma first_match_Inr:
  "first_match stage cands sels = Some r \<Longrightarrow>
     \<exists>sel. r = single_provider stage (matches_provider sel cands) (CHR ''@'' \<in> set sel) \<and> matches_provider sel cands \<noteq> []"
  by (induction sels) (auto simp: Let_def split: if_splits)

lemma map_sum_Inr:
  "map_sum id Some r = Inr y \<longleftrightarrow> (\<exists>x. r = Inr x \<and> y = Some x)"
  "Inr y = map_sum id Some r \<longleftrightarrow> (\<exists>x. r = Inr x \<and> y = Some x)"
  by (cases r; auto)+

text \<open>What makes a record a candidate.\<close>

lemma candidate_facts:
  assumes "r \<in> set (candidate_records stage cap s ms eps)"
  shows "pr_installed r \<and> pr_enabled r \<and>
    (case cap of Some c \<Rightarrow> c \<in> set (hp_capabilities (pr_provider r))
     | None \<Rightarrow> stage \<in> set (hp_capabilities (pr_provider r)) \<union> set (hp_backend_actions (pr_provider r)))"
    and "\<exists>m \<in> set ms. pr_plugin_id r = hm_plugin_id m \<and> pr_provider r \<in> set (hm_providers m)"
proof -
  have r: "r \<in> set (provider_records s ms eps True True)"
    and c: "case cap of Some c \<Rightarrow> c \<in> set (hp_capabilities (pr_provider r))
     | None \<Rightarrow> stage \<in> set (hp_capabilities (pr_provider r)) \<union> set (hp_backend_actions (pr_provider r))"
    using assms by (auto simp: candidate_records_def split: option.splits)
  then obtain m where m: "m \<in> set ms" "r \<in> set (manifest_records s eps True True m)"
    by (auto simp: provider_records_def)
  then have "pr_installed r \<and> pr_enabled r" "pr_plugin_id r = hm_plugin_id m \<and> pr_provider r \<in> set (hm_providers m)"
    by (auto simp: manifest_records_def Let_def split: if_splits)
  with c m(1) show "pr_installed r \<and> pr_enabled r \<and>
    (case cap of Some c \<Rightarrow> c \<in> set (hp_capabilities (pr_provider r))
     | None \<Rightarrow> stage \<in> set (hp_capabilities (pr_provider r)) \<union> set (hp_backend_actions (pr_provider r)))"
    and "\<exists>m \<in> set ms. pr_plugin_id r = hm_plugin_id m \<and> pr_provider r \<in> set (hm_providers m)" by blast+
qed

lemma resolve_single:
  assumes "resolve_provider stage cap requested project ws s ms eps = Inr y"
    and "candidate_records stage cap s ms eps \<noteq> []"
  shows "\<exists>sel. y = Some sel \<and>
    (single_provider stage (candidate_records stage cap s ms eps) False = Inr sel \<or>
     (\<exists>sel0. single_provider stage (matches_provider sel0 (candidate_records stage cap s ms eps)) (CHR ''@'' \<in> set sel0) = Inr sel \<and>
        matches_provider sel0 (candidate_records stage cap s ms eps) \<noteq> []))"
proof (cases "requested = None \<or> requested = Some []")
  case True
  from resolve_follows_preference [OF assms(2) True, of project ws] assms(1) show ?thesis
    by (auto simp: map_sum_Inr dest!: first_match_Inr split: option.splits)
next
  case False
  then obtain c cs where "requested = Some (c # cs)" by (metis list.exhaust option.exhaust)
  from resolve_requested [OF assms(2) this, of project ws] assms(1) show ?thesis
    by (auto simp: map_sum_Inr key_error_def split: if_splits)
qed

text \<open>
  C27. When there are candidates, the selector that is returned names exactly one installed
  and enabled provider among those that support what was asked for; the hub never chooses
  one of several.
\<close>

theorem resolved_provider_unique:
  assumes "resolve_provider stage cap requested project ws s ms eps = Inr y"
    and "candidate_records stage cap s ms eps \<noteq> []"
    and "\<forall>m \<in> set ms. \<forall>p \<in> set (hm_providers m). CHR ''@'' \<notin> set (hp_provider_id p)"
  shows "\<exists>sel provider plugin. y = Some sel \<and>
    record_id ` set (matches_provider sel (candidate_records stage cap s ms eps)) = {(provider, plugin)} \<and>
    (\<forall>r \<in> set (matches_provider sel (candidate_records stage cap s ms eps)). pr_installed r \<and> pr_enabled r \<and>
      (case cap of Some c \<Rightarrow> c \<in> set (hp_capabilities (pr_provider r))
       | None \<Rightarrow> stage \<in> set (hp_capabilities (pr_provider r)) \<union> set (hp_backend_actions (pr_provider r))))"
proof -
  let ?cands = "candidate_records stage cap s ms eps"
  have no: "\<forall>r \<in> set ?cands. CHR ''@'' \<notin> set (fst (record_id r))"
    using candidate_facts(2) assms(3) by (fastforce simp: record_id_def)
  obtain sel where y: "y = Some sel" and sel: "single_provider stage ?cands False = Inr sel \<or>
     (\<exists>sel0. single_provider stage (matches_provider sel0 ?cands) (CHR ''@'' \<in> set sel0) = Inr sel \<and>
        matches_provider sel0 ?cands \<noteq> [])"
    using resolve_single [OF assms(1,2)] by blast
  consider "single_provider stage ?cands False = Inr sel"
    | sel0 where "single_provider stage (matches_provider sel0 ?cands) (CHR ''@'' \<in> set sel0) = Inr sel"
        "matches_provider sel0 ?cands \<noteq> []"
    using sel by blast
  then have "\<exists>provider plugin. record_id ` set (matches_provider sel ?cands) = {(provider, plugin)}"
  proof cases
    case 1
    obtain provider plugin where one: "record_id ` set ?cands = {(provider, plugin)}" "sel = provider"
      using single_provider_Inr [OF 1 assms(2)] by auto
    then have "CHR ''@'' \<notin> set provider" using no by (metis fst_conv imageE insertI1)
    moreover have "fst (record_id r) = provider" if "r \<in> set ?cands" for r
      using one(1) that by (metis fst_conv imageI singletonD)
    ultimately have "set (matches_provider sel ?cands) = set ?cands"
      using one(2) by (auto simp: set_matches)
    then show ?thesis using one by auto
  next
    case 2
    then show ?thesis using single_provider_matches no by blast
  qed
  then obtain provider plugin where
    one: "record_id ` set (matches_provider sel ?cands) = {(provider, plugin)}" by blast
  have "r \<in> set ?cands" if "r \<in> set (matches_provider sel ?cands)" for r
    using that matches_subset by blast
  note facts = candidate_facts(1) [OF this]
  show ?thesis
    by (rule exI [of _ sel], rule exI [of _ provider], rule exI [of _ plugin])
      (intro conjI ballI y one facts, assumption+)
qed

section \<open>The order of the manifests does not matter\<close>

lemma sort_mset: "mset xs = mset ys \<Longrightarrow> sort xs = sort ys" for xs :: "'a :: linorder list"
  by (metis sorted_list_of_multiset_mset)

lemma single_provider_mset:
  assumes "mset rows = mset rows'" and "rows \<noteq> []"
  shows "single_provider stage rows q = single_provider stage rows' q"
proof -
  have s: "set rows = set rows'" using assms(1) by (rule mset_eq_setD)
  have n: "length (remdups (map record_id rows)) = length (remdups (map record_id rows'))"
    by (simp add: length_remdups_card_conv s)
  show ?thesis
  proof (cases "length (remdups (map record_id rows)) = 1")
    case True
    then obtain x where x: "record_id ` set rows = {x}"
      by (auto simp: length_remdups_card_conv card_1_singleton_iff)
    have "rows' \<noteq> []" using assms by auto
    then have "hd rows' \<in> set rows" unfolding s by simp
    moreover have "hd rows \<in> set rows" using assms(2) by simp
    ultimately have "record_id (hd rows) = record_id (hd rows')" using x by (metis imageI singletonD)
    then show ?thesis using n True by (simp add: single_provider_def record_id_def Let_def)
  next
    case False
    have "sort (display_candidates rows) = sort (display_candidates rows')"
      using assms(1) by (intro sort_mset) (simp add: display_candidates_def)
    then show ?thesis using False n by (simp add: single_provider_def)
  qed
qed

lemma matches_mset: "mset rows = mset rows' \<Longrightarrow> mset (matches_provider sel rows) = mset (matches_provider sel rows')"
  by (simp add: matches_provider_def)

lemma mset_Nil: "mset xs = mset ys \<Longrightarrow> xs = [] \<longleftrightarrow> ys = []"
  by auto

lemma first_match_mset:
  "mset rows = mset rows' \<Longrightarrow> first_match stage rows sels = first_match stage rows' sels"
proof (induction sels)
  case (Cons sel sels)
  note m = matches_mset [OF Cons.prems, of sel]
  show ?case
    using Cons mset_Nil [OF m] single_provider_mset [OF m] by (auto simp: Let_def)
qed simp

lemma records_mset:
  assumes "mset ms = mset ms'"
  shows "mset (provider_records s ms eps i e) = mset (provider_records s ms' eps i e)"
proof -
  have "mset (concat (map f xs)) = sum_mset (image_mset (\<lambda>x. mset (f x)) (mset xs))"
    for f :: "hub_manifest \<Rightarrow> provider_record list" and xs
    by (induction xs) simp_all
  then show ?thesis using assms by (simp add: provider_records_def)
qed

text \<open>
  The choice of a provider, errors and their candidate lists included, does not depend on
  the order in which the manifests are found.
\<close>

theorem resolve_ignores_order:
  assumes "mset ms = mset ms'"
  shows "resolve_provider stage cap requested project ws s ms eps =
    resolve_provider stage cap requested project ws s ms' eps"
proof -
  let ?c = "candidate_records stage cap s ms eps" and ?c' = "candidate_records stage cap s ms' eps"
  have c: "mset ?c = mset ?c'"
    using records_mset [OF assms] by (simp add: candidate_records_def)
  note nil = mset_Nil [OF c]
  show ?thesis
  proof (cases "?c = []")
    case True
    let ?k = "\<lambda>ms. matches_provider (case requested of None \<Rightarrow> [] | Some r \<Rightarrow> r) (provider_records s ms eps True False)"
    have k: "mset (?k ms) = mset (?k ms')" by (rule matches_mset) (rule records_mset [OF assms])
    have "list_ex pr_enabled (?k ms) = list_ex pr_enabled (?k ms')"
      using mset_eq_setD [OF k] by (simp add: list_ex_iff)
    then show ?thesis
      using True nil mset_Nil [OF k] by (simp add: resolve_provider_def Let_def)
  next
    case False
    show ?thesis
    proof (cases "requested = None \<or> requested = Some []")
      case True
      show ?thesis
        using resolve_follows_preference [OF _ True] False nil first_match_mset [OF c]
          single_provider_mset [OF c False] by (simp cong: option.case_cong)
    next
      case r: False
      then obtain x xs where r: "requested = Some (x # xs)" by (metis list.exhaust option.exhaust)
      note m = matches_mset [OF c, of "x # xs"]
      have "sort (display_candidates ?c) = sort (display_candidates ?c')"
        using c by (intro sort_mset) (simp add: display_candidates_def)
      then show ?thesis
        using resolve_requested [OF _ r] False nil mset_Nil [OF m] single_provider_mset [OF m] by simp
    qed
  qed
qed

section \<open>Configured profiles exist\<close>

definition hub_inv :: "plugin_state \<Rightarrow> bool" where
  "hub_inv s \<longleftrightarrow>
     (\<forall>n. default_profile s = Some n \<longrightarrow> map_of (profiles s) n \<noteq> None) \<and>
     (\<forall>i n. map_of (project_profiles s) i = Some n \<longrightarrow> map_of (profiles s) n \<noteq> None) \<and>
     (\<forall>i n. map_of (workspace_profiles s) i = Some n \<longrightarrow> map_of (profiles s) n \<noteq> None) \<and>
     (\<forall>n p. map_of (profiles s) n = Some p \<longrightarrow> rp_name p = n) \<and>
     (\<forall>i r. map_of (installed s) i = Some r \<longrightarrow> ip_plugin_id r = i)"

inductive hub_step :: "plugin_state \<Rightarrow> plugin_state \<Rightarrow> bool" where
  "hub_step s (record_installed r s)"
| "set_enabled pid en s = Inr s' \<Longrightarrow> hub_step s s'"
| "upsert_profile ms p s = Inr s' \<Longrightarrow> hub_step s s'"
| "set_default_profile n s = Inr s' \<Longrightarrow> hub_step s s'"
| "set_provider_priority ms ps s = Inr s' \<Longrightarrow> hub_step s s'"
| "set_project_profile i n s = Inr s' \<Longrightarrow> hub_step s s'"
| "set_workspace_profile i n s = Inr s' \<Longrightarrow> hub_step s s'"

inductive_cases hub_stepE: "hub_step s s'"

lemma hub_inv_step: "hub_step s s' \<Longrightarrow> hub_inv s \<Longrightarrow> hub_inv s'"
proof (induction rule: hub_step.induct)
  case (1 s r)
  then show ?case by (auto simp: record_installed_def hub_inv_def split: option.split)
next
  case (2 pid en s s')
  then show ?case by (auto simp: set_enabled_def hub_inv_def key_error_def split: option.splits if_splits)
next
  case (3 ms p s s')
  then show ?case by (auto simp: upsert_profile_def hub_inv_def andthen_unit split: if_splits)
next
  case (4 n s s')
  then show ?case by (auto simp: set_default_profile_def hub_inv_def andthen_unit nonempty_profile_def known_profile_def)
next
  case (5 ms ps s s')
  then show ?case by (auto simp: set_provider_priority_def hub_inv_def andthen_unit)
next
  case (6 i n s s')
  then show ?case
    by (auto simp: set_project_profile_def hub_inv_def andthen_unit nonempty_profile_def known_profile_def split: if_splits)
next
  case (7 i n s s')
  then show ?case
    by (auto simp: set_workspace_profile_def hub_inv_def andthen_unit nonempty_profile_def known_profile_def split: if_splits)
qed

text \<open>
  After any sequence of updates from the empty state, every profile that a project, a
  workspace or the default names exists, and records are stored under their own names.
\<close>

theorem configured_profiles_exist:
  assumes "hub_step\<^sup>*\<^sup>* empty_state s" and "n \<in> set (profile_names project ws s)"
  shows "\<exists>p. map_of (profiles s) n = Some p \<and> rp_name p = n"
proof -
  have "hub_inv s"
    using assms(1)
  proof (induction rule: rtranclp_induct)
    case base
    then show ?case by (simp add: hub_inv_def empty_state_def)
  qed (rule hub_inv_step)
  then have inv: "\<And>n. default_profile s = Some n \<Longrightarrow> map_of (profiles s) n \<noteq> None"
    "\<And>i n. map_of (project_profiles s) i = Some n \<Longrightarrow> map_of (profiles s) n \<noteq> None"
    "\<And>i n. map_of (workspace_profiles s) i = Some n \<Longrightarrow> map_of (profiles s) n \<noteq> None"
    and named: "\<And>p. map_of (profiles s) n = Some p \<Longrightarrow> rp_name p = n"
    unfolding hub_inv_def by blast+
  have "map_of (profiles s) n \<noteq> None"
    using assms(2) inv by (auto simp: profile_names_def Let_def split: option.splits if_splits)
  then show ?thesis using named by auto
qed

section \<open>Witnesses\<close>

definition demo_manifests :: "hub_manifest list" where
  "demo_manifests =
     [\<lparr>hm_plugin_id = ''a'', hm_runtime_modes = [], hm_providers =
         [\<lparr>hp_provider_id = ''p'', hp_capabilities = [''features''], hp_backend_actions = [], hp_priority_hint = 100\<rparr>]\<rparr>,
      \<lparr>hm_plugin_id = ''b'', hm_runtime_modes = [], hm_providers =
         [\<lparr>hp_provider_id = ''p'', hp_capabilities = [''features''], hp_backend_actions = [], hp_priority_hint = 50\<rparr>]\<rparr>]"

definition demo_hub :: plugin_state where
  "demo_hub = empty_state\<lparr>provider_priority := [''q'', ''p@a'']\<rparr>"

lemmas demo_hub_simps = demo_manifests_def demo_hub_def empty_state_def

lemma demo_candidates:
  "map record_id (candidate_records ''features'' None demo_hub demo_manifests [''a'', ''b'']) = [(''p'', ''b''), (''p'', ''a'')]"
  by code_simp

lemma resolved_provider_unique_witness:
  "\<exists>y sel. resolve_provider ''features'' None None None None demo_hub demo_manifests [''a'', ''b''] = Inr y \<and>
     y = Some sel \<and> card (record_id ` set (matches_provider sel
       (candidate_records ''features'' None demo_hub demo_manifests [''a'', ''b'']))) = 1"
proof -
  have r: "resolve_provider ''features'' None None None None demo_hub demo_manifests [''a'', ''b''] = Inr (Some ''p@a'')"
    by code_simp
  have c: "candidate_records ''features'' None demo_hub demo_manifests [''a'', ''b''] \<noteq> []"
    using demo_candidates by auto
  have "\<forall>m \<in> set demo_manifests. \<forall>p \<in> set (hm_providers m). CHR ''@'' \<notin> set (hp_provider_id p)"
    by (simp add: demo_manifests_def)
  from resolved_provider_unique [OF r c this] r show ?thesis by auto
qed

lemma resolve_ignores_order_witness:
  "resolve_provider ''features'' None None None None empty_state (rev demo_manifests) [''a'', ''b''] =
     Inl (Ambiguity_Error ''features'' [''p@a'', ''p@b''])"
proof -
  have "mset (rev demo_manifests) = mset demo_manifests" by simp
  from resolve_ignores_order [OF this] show ?thesis
    by (simp only:) code_simp
qed

lemma configured_profiles_exist_witness:
  "\<exists>p. map_of (profiles (empty_state\<lparr>profiles := [(''x'', \<lparr>rp_name = ''x'', rp_routes = []\<rparr>)],
     default_profile := Some ''x''\<rparr>)) ''x'' = Some p \<and> rp_name p = ''x''"
proof (rule configured_profiles_exist)
  let ?p = "\<lparr>rp_name = ''x'', rp_routes = []\<rparr>"
  have "hub_step empty_state (empty_state\<lparr>profiles := [(''x'', ?p)]\<rparr>)"
    by (rule hub_step.intros(3) [of "[]" ?p])
      (simp add: upsert_profile_def check_providers_def empty_state_def Let_def)
  moreover have "hub_step (empty_state\<lparr>profiles := [(''x'', ?p)]\<rparr>)
      (empty_state\<lparr>profiles := [(''x'', ?p)], default_profile := Some ''x''\<rparr>)"
    by (rule hub_step.intros(4) [of "''x''"])
      (simp add: set_default_profile_def nonempty_profile_def known_profile_def guard_def)
  ultimately show "hub_step\<^sup>*\<^sup>* empty_state (empty_state\<lparr>profiles := [(''x'', ?p)], default_profile := Some ''x''\<rparr>)"
    by (rule converse_rtranclp_into_rtranclp [OF _ r_into_rtranclp])
  show "''x'' \<in> set (profile_names None None (empty_state\<lparr>profiles := [(''x'', ?p)], default_profile := Some ''x''\<rparr>))"
    by (simp add: profile_names_def)
qed

end
