(* ===== verification/Snapshots.thy ===== *)
theory Snapshots
  imports Prelude
begin

text \<open>
  \<open>storage/snapshots.py\<close>: the writer and the readers of sealed snapshots. The directory
  \<open>snapshots/\<close> is the list of its subdirectories, each with its files by relative path, and the
  two files of the pointer. A seal is the sequence of its file system calls, so that a crash of
  the worker is a prefix of the sequence, the last write of which may be torn. The text that
  \<open>json.dumps\<close> makes of the summary is an argument.
\<close>

section \<open>The directory\<close>

record snap_fs =
  dirs :: "string dict dict"
  latest_file :: "string option"
  latest_tmp :: "string option"

definition empty_store :: snap_fs where
  "empty_store = \<lparr>dirs = [], latest_file = None, latest_tmp = None\<rparr>"

datatype fs_op =
    Remove_File string string
  | Remove_Dir string
  | Make_Dir string
  | Write_File string string string
  | Rename_Dir string string
  | Write_Latest_Tmp string
  | Publish_Latest

definition in_dir :: "string \<Rightarrow> (string dict \<Rightarrow> string dict) \<Rightarrow> snap_fs \<Rightarrow> snap_fs" where
  "in_dir d f s =
     (case map_of (dirs s) d of None \<Rightarrow> s | Some files \<Rightarrow> s\<lparr>dirs := AList.update d (f files) (dirs s)\<rparr>)"

fun exec_op :: "fs_op \<Rightarrow> snap_fs \<Rightarrow> snap_fs" where
  "exec_op (Remove_File d f) s = in_dir d (AList.delete f) s"
| "exec_op (Remove_Dir d) s = s\<lparr>dirs := AList.delete d (dirs s)\<rparr>"
| "exec_op (Make_Dir d) s = s\<lparr>dirs := AList.update d [] (dirs s)\<rparr>"
| "exec_op (Write_File d f b) s = in_dir d (AList.update f b) s"
| "exec_op (Rename_Dir a b) s =
     (case map_of (dirs s) a of None \<Rightarrow> s
      | Some files \<Rightarrow> s\<lparr>dirs := AList.update b files (AList.delete a (dirs s))\<rparr>)"
| "exec_op (Write_Latest_Tmp b) s = s\<lparr>latest_tmp := Some b\<rparr>"
| "exec_op Publish_Latest s =
     (case latest_tmp s of None \<Rightarrow> s | Some b \<Rightarrow> s\<lparr>latest_file := Some b, latest_tmp := None\<rparr>)"

section \<open>Names\<close>

text \<open>\<open>f"{seq:08d}"\<close>.\<close>

definition zfill :: "nat \<Rightarrow> string \<Rightarrow> string" where
  "zfill k s = replicate (k - length s) (CHR ''0'') @ s"

definition slot :: "int \<Rightarrow> string" where
  "slot seq =
     (if seq < 0 then CHR ''-'' # zfill 7 (str_of_nat (nat (- seq))) else zfill 8 (str_of_nat (nat seq)))"

definition tmp_slot :: "int \<Rightarrow> string" where
  "tmp_slot seq = ''.tmp_'' @ slot seq"

definition is_tmp :: "string \<Rightarrow> bool" where
  "is_tmp name \<longleftrightarrow> take 5 name = ''.tmp_''"

section \<open>Sealing\<close>

definition rmtree_ops :: "string \<Rightarrow> snap_fs \<Rightarrow> fs_op list" where
  "rmtree_ops d s =
     (case map_of (dirs s) d of None \<Rightarrow> []
      | Some files \<Rightarrow> map (Remove_File d) (keys files) @ [Remove_Dir d])"

definition fill_ops :: "int \<Rightarrow> string dict option \<Rightarrow> string option \<Rightarrow> fs_op list" where
  "fill_ops seq source summary =
     (let tmp = tmp_slot seq in
      Make_Dir tmp #
      (case source of None \<Rightarrow> [] | Some files \<Rightarrow> map (\<lambda>(f, b). Write_File tmp f b) files) @
      (case summary of None \<Rightarrow> [] | Some t \<Rightarrow> [Write_File tmp ''summary.json'' t]) @
      [Write_File tmp ''.complete'' (str_of_int seq)])"

definition set_latest_ops :: "int \<Rightarrow> fs_op list" where
  "set_latest_ops seq = [Write_Latest_Tmp (str_of_int seq), Publish_Latest]"

definition seal_ops :: "int \<Rightarrow> string dict option \<Rightarrow> string option \<Rightarrow> snap_fs \<Rightarrow> fs_op list" where
  "seal_ops seq source summary s =
     rmtree_ops (tmp_slot seq) s @ fill_ops seq source summary @
     Rename_Dir (tmp_slot seq) (slot seq) # set_latest_ops seq"

definition already_sealed :: "int \<Rightarrow> string" where
  "already_sealed seq = ''Snapshot seq '' @ str_of_int seq @ '' already sealed''"

text \<open>Left is the message of the \<open>FileExistsError\<close>.\<close>

definition seal :: "int \<Rightarrow> string dict option \<Rightarrow> string option \<Rightarrow> snap_fs \<Rightarrow> string + snap_fs" where
  "seal seq source summary s =
     (if map_of (dirs s) (slot seq) \<noteq> None then Inl (already_sealed seq)
      else Inr (fold exec_op (seal_ops seq source summary s) s))"

text \<open>The states in which a crash can leave a sequence of calls.\<close>

inductive interrupted :: "fs_op list \<Rightarrow> snap_fs \<Rightarrow> snap_fs \<Rightarrow> bool" where
  stop: "interrupted ops s s"
| step: "interrupted ops (exec_op p s) s' \<Longrightarrow> interrupted (p # ops) s s'"
| torn_file: "interrupted (Write_File d f b # ops) s (exec_op (Write_File d f (take k b)) s)"
| torn_latest: "interrupted (Write_Latest_Tmp b # ops) s (exec_op (Write_Latest_Tmp (take k b)) s)"

inductive_cases interrupted_ConsE: "interrupted (p # ops) s s'"
inductive_simps interrupted_Nil [simp]: "interrupted [] s s'"

section \<open>Reading and retention\<close>

definition sealed_in :: "string \<times> string dict \<Rightarrow> int list" where
  "sealed_in e =
     (if is_tmp (fst e) \<or> map_of (snd e) ''.complete'' = None then []
      else (case parse_int (fst e) of None \<Rightarrow> [] | Some i \<Rightarrow> [i]))"

definition list_sealed :: "snap_fs \<Rightarrow> int list" where
  "list_sealed s = sort (concat (map sealed_in (dirs s)))"

definition latest :: "snap_fs \<Rightarrow> int option" where
  "latest s =
     (case latest_file s of
        None \<Rightarrow> (let seqs = list_sealed s in if seqs = [] then None else Some (last seqs))
      | Some t \<Rightarrow> parse_int (strip t))"

text \<open>The number that every task handler but the radiance one seals under.\<close>

definition next_seq :: "snap_fs \<Rightarrow> int" where
  "next_seq s = (case latest s of None \<Rightarrow> 0 | Some n \<Rightarrow> n) + 1"

text \<open>\<open>seqs[:-keep_last]\<close>: nothing when \<open>keep_last\<close> is 0.\<close>

definition gc_drops :: "int \<Rightarrow> int list \<Rightarrow> int list" where
  "gc_drops keep_last seqs =
     (if int (length seqs) \<le> keep_last \<or> keep_last = 0 then []
      else if 0 < keep_last then take (length seqs - nat keep_last) seqs
      else take (nat (- keep_last)) seqs)"

definition gc :: "int \<Rightarrow> snap_fs \<Rightarrow> int list \<times> snap_fs" where
  "gc keep_last s =
     (let to_drop = gc_drops keep_last (list_sealed s) in
      (to_drop, fold (\<lambda>q s. fold exec_op (rmtree_ops (slot q) s) s) to_drop s))"

end
