(* ===== verification/Snapshots_Correct.thy ===== *)
theory Snapshots_Correct
  imports Snapshots
begin

text \<open>
  Sealed snapshots: a reader sees only complete ones whatever call of the writer a crash
  interrupts, the names of the directories are read back as the numbers they were made
  from, the newest snapshot is the one the pointer names as long as no crash happened, and
  a crash between the rename and the pointer blocks every later seal.
\<close>

section \<open>Names\<close>

lemma digits_zfill: "digits s \<Longrightarrow> digits (zfill k s)"
proof -
  have "CHR ''0'' = digit 0" by simp
  then show "digits s \<Longrightarrow> digits (zfill k s)"
    unfolding digits_def zfill_def by (auto simp del: digit.simps)
qed

lemma fold_zeros: "((\<lambda>n. 10 * n + digit_value (CHR ''0'')) ^^ k) 0 = 0"
  by (induction k) (simp_all add: digit_value_def)

lemma parse_zfill:
  assumes "length (zfill k (str_of_nat n)) \<le> 4300"
  shows "parse_int (zfill k (str_of_nat n)) = Some (int n)"
proof -
  have "zfill k (str_of_nat n) \<noteq> []" using str_of_nat_nonempty [of n] by (simp add: zfill_def)
  with parse_int_digits [OF digits_zfill [OF str_of_nat_digits]] assms show ?thesis
    by (simp add: zfill_def fold_zeros fold_digits)
qed

lemma parse_slot: "0 \<le> n \<Longrightarrow> length (slot n) \<le> 4300 \<Longrightarrow> parse_int (slot n) = Some n"
  by (simp add: slot_def parse_zfill)

lemma digit_not_dot: "digits s \<Longrightarrow> s = c # r \<Longrightarrow> c \<noteq> CHR ''.''"
proof -
  assume "digits s" "s = c # r"
  then have "ascii_digit c" by (auto simp: digits_def simp del: digit.simps)
  then show "c \<noteq> CHR ''.''" by (auto simp: ascii_digit_def)
qed

lemma slot_not_tmp [simp]: "\<not> is_tmp (slot n)"
proof -
  have "s = [] \<or> hd s \<noteq> CHR ''.''" if "digits s" for s
    using digit_not_dot [OF that] by (cases s) auto
  then have "hd (zfill k (str_of_nat m)) \<noteq> CHR ''.''" for k m
    using digits_zfill [OF str_of_nat_digits] str_of_nat_nonempty [of m]
    by (metis append_is_Nil_conv zfill_def)
  then have "hd (slot n) \<noteq> CHR ''.''" by (simp add: slot_def)
  then show ?thesis by (cases "slot n") (auto simp: is_tmp_def)
qed

lemma tmp_slot_tmp [simp]: "is_tmp (tmp_slot n)"
  by (simp add: is_tmp_def tmp_slot_def)

lemma tmp_slot_neq [simp]: "slot m \<noteq> tmp_slot n" "tmp_slot n \<noteq> slot m"
  by (metis slot_not_tmp tmp_slot_tmp)+

section \<open>What a reader sees\<close>

definition view :: "snap_fs \<Rightarrow> string \<Rightarrow> string dict option" where
  "view s name = (if is_tmp name then None else map_of (dirs s) name)"

definition visible_seqs :: "(string \<Rightarrow> string dict option) \<Rightarrow> int set" where
  "visible_seqs v = {i. \<exists>n files. v n = Some files \<and> map_of files ''.complete'' \<noteq> None \<and> parse_int n = Some i}"

text \<open>The content of a complete snapshot.\<close>

definition sealed_files :: "int \<Rightarrow> string dict option \<Rightarrow> string option \<Rightarrow> string dict" where
  "sealed_files seq source summary =
     AList.update ''.complete'' (str_of_int seq)
       ((case summary of None \<Rightarrow> id | Some t \<Rightarrow> AList.update ''summary.json'' t)
         (fold (\<lambda>(f, b). AList.update f b) (case source of None \<Rightarrow> [] | Some files \<Rightarrow> files) []))"

lemma fold_updates:
  "distinct (map fst files) \<Longrightarrow>
   map_of (fold (\<lambda>(f, b). AList.update f b) files acc) k =
     (case map_of files k of None \<Rightarrow> map_of acc k | Some b \<Rightarrow> Some b)"
proof (induction files arbitrary: acc)
  case (Cons e files)
  moreover have "map_of files (fst e) = None" using Cons.prems by (simp add: map_of_eq_None_iff)
  ultimately show ?case by (cases e) (simp add: update_conv' split: option.split)
qed simp

lemma sealed_files_lookup:
  assumes "\<And>files. source = Some files \<Longrightarrow> distinct (map fst files)"
  shows "map_of (sealed_files seq source summary) f =
     (if f = ''.complete'' then Some (str_of_int seq)
      else if f = ''summary.json'' \<and> summary \<noteq> None then summary
      else (case source of None \<Rightarrow> None | Some files \<Rightarrow> map_of files f))"
  using assms
  by (cases summary; cases source) (auto simp: sealed_files_def update_conv' fold_updates split: option.split)

lemma list_sealed_visible:
  assumes "distinct (map fst (dirs s))"
  shows "set (list_sealed s) = visible_seqs (view s)"
proof -
  have sealed: "i \<in> set (sealed_in (n, files)) \<longleftrightarrow>
      \<not> is_tmp n \<and> map_of files ''.complete'' \<noteq> None \<and> parse_int n = Some i" for i n files
    by (auto simp: sealed_in_def split: option.split)
  have view: "view s n = Some files \<longleftrightarrow> \<not> is_tmp n \<and> (n, files) \<in> set (dirs s)" for n files
    using assms by (simp add: view_def)
  have "i \<in> set (list_sealed s) \<longleftrightarrow> (\<exists>n files. (n, files) \<in> set (dirs s) \<and> i \<in> set (sealed_in (n, files)))" for i
    by (simp add: list_sealed_def Bex_def split_paired_Ex)
  then show ?thesis unfolding visible_seqs_def view sealed by blast
qed

lemma visible_insert:
  assumes "v n = None" and "map_of files ''.complete'' \<noteq> None" and "parse_int n = Some i"
  shows "visible_seqs (v(n \<mapsto> files)) = insert i (visible_seqs v)"
proof -
  have other: "(v(n \<mapsto> files)) m = Some fs \<longleftrightarrow> m = n \<and> fs = files \<or> v m = Some fs" for m fs
    using assms(1) by auto
  show ?thesis unfolding visible_seqs_def other using assms(2,3) by auto
qed

section \<open>Calls on the working directory\<close>

fun tmp_only :: "fs_op \<Rightarrow> bool" where
  "tmp_only (Remove_File d f) = is_tmp d"
| "tmp_only (Remove_Dir d) = is_tmp d"
| "tmp_only (Make_Dir d) = is_tmp d"
| "tmp_only (Write_File d f b) = is_tmp d"
| "tmp_only (Rename_Dir a b) = False"
| "tmp_only (Write_Latest_Tmp b) = True"
| "tmp_only Publish_Latest = False"

lemma in_dir_view: "is_tmp d \<Longrightarrow> view (in_dir d f s) = view s"
  by (auto simp: in_dir_def view_def update_conv' fun_eq_iff split: option.split)

lemma in_dir_latest [simp]: "latest_file (in_dir d f s) = latest_file s"
  by (simp add: in_dir_def split: option.split)

lemma tmp_only_exec:
  "tmp_only p \<Longrightarrow> view (exec_op p s) = view s \<and> latest_file (exec_op p s) = latest_file s"
  by (cases p) (auto simp: in_dir_view view_def update_conv' delete_conv' fun_eq_iff)

lemma tmp_only_fold:
  "list_all tmp_only ops \<Longrightarrow>
   view (fold exec_op ops s) = view s \<and> latest_file (fold exec_op ops s) = latest_file s"
  by (induction ops arbitrary: s) (auto simp: tmp_only_exec)

lemma tmp_only_interrupted:
  "interrupted ops s s' \<Longrightarrow> list_all tmp_only ops \<Longrightarrow> view s' = view s \<and> latest_file s' = latest_file s"
  by (induction rule: interrupted.induct) (auto simp: tmp_only_exec in_dir_view view_def)

lemma interrupted_append:
  "interrupted (xs @ ys) s s' \<Longrightarrow> interrupted xs s s' \<or> interrupted ys (fold exec_op xs s) s'"
proof (induction xs arbitrary: s)
  case (Cons p xs)
  note torn = torn_file [unfolded exec_op.simps] torn_latest [unfolded exec_op.simps]
  from Cons.prems have "interrupted (p # xs @ ys) s s'" by simp
  then show ?case
    by (rule interrupted_ConsE)
      (auto simp del: exec_op.simps intro: interrupted.intros torn dest: Cons.IH)
qed simp

lemma interrupted_prefix: "interrupted (xs @ ys) s (fold exec_op xs s)"
  by (induction xs arbitrary: s) (auto intro: interrupted.intros)

lemma distinct_dirs_exec: "distinct (map fst (dirs s)) \<Longrightarrow> distinct (map fst (dirs (exec_op p s)))"
  by (cases p) (auto simp: in_dir_def distinct_update distinct_delete split: option.split)

lemma distinct_dirs_interrupted:
  "interrupted ops s s' \<Longrightarrow> distinct (map fst (dirs s)) \<Longrightarrow> distinct (map fst (dirs s'))"
  by (induction rule: interrupted.induct) (auto simp del: exec_op.simps intro: distinct_dirs_exec)

section \<open>A seal and its crashes\<close>

lemma write_files:
  "map_of (dirs s) d = Some old \<Longrightarrow>
   map_of (dirs (fold exec_op (map (\<lambda>(f, b). Write_File d f b) files) s)) d =
     Some (fold (\<lambda>(f, b). AList.update f b) files old)"
proof (induction files arbitrary: s old)
  case (Cons e files)
  obtain f b where "e = (f, b)" by (cases e)
  then show ?case
    using Cons.prems Cons.IH [of "exec_op (Write_File d f b) s" "AList.update f b old"]
    by (simp add: in_dir_def update_conv')
qed simp

lemma fill_ops_files:
  "map_of (dirs (fold exec_op (fill_ops seq source summary) s)) (tmp_slot seq) =
     Some (sealed_files seq source summary)"
proof -
  let ?tmp = "tmp_slot seq"
  let ?files = "case source of None \<Rightarrow> [] | Some files \<Rightarrow> files"
  let ?s1 = "fold exec_op (map (\<lambda>(f, b). Write_File ?tmp f b) ?files) (exec_op (Make_Dir ?tmp) s)"
  have "map_of (dirs (exec_op (Make_Dir ?tmp) s)) ?tmp = Some []" by (simp add: update_conv')
  from write_files [OF this] have 1: "map_of (dirs ?s1) ?tmp = Some (fold (\<lambda>(f, b). AList.update f b) ?files [])" .
  have "fold exec_op (fill_ops seq source summary) s =
      exec_op (Write_File ?tmp ''.complete'' (str_of_int seq))
        (case summary of None \<Rightarrow> ?s1 | Some t \<Rightarrow> exec_op (Write_File ?tmp ''summary.json'' t) ?s1)"
    by (cases source; cases summary) (simp_all add: fill_ops_def Let_def)
  with 1 show ?thesis
    by (cases summary) (simp_all add: in_dir_def update_conv' sealed_files_def)
qed

definition working_ops :: "int \<Rightarrow> string dict option \<Rightarrow> string option \<Rightarrow> snap_fs \<Rightarrow> fs_op list" where
  "working_ops seq source summary s = rmtree_ops (tmp_slot seq) s @ fill_ops seq source summary"

lemma seal_ops_split:
  "seal_ops seq source summary s =
     working_ops seq source summary s @ Rename_Dir (tmp_slot seq) (slot seq) # set_latest_ops seq"
  by (simp add: seal_ops_def working_ops_def)

lemma working_ops_tmp_only: "list_all tmp_only (working_ops seq source summary s)"
  by (auto simp: working_ops_def rmtree_ops_def fill_ops_def Let_def list_all_iff split: option.splits)

lemma renamed_view:
  "view (exec_op (Rename_Dir (tmp_slot seq) (slot seq)) (fold exec_op (working_ops seq source summary s) s)) =
     (view s)(slot seq \<mapsto> sealed_files seq source summary)"
proof -
  let ?w = "fold exec_op (working_ops seq source summary s) s"
  have "map_of (dirs ?w) (tmp_slot seq) = Some (sealed_files seq source summary)"
    by (simp add: working_ops_def fill_ops_files)
  moreover have "map_of (dirs ?w) n = map_of (dirs s) n" if "\<not> is_tmp n" for n
    using tmp_only_fold [OF working_ops_tmp_only] that by (metis view_def)
  ultimately show ?thesis
    by (auto simp: view_def update_conv' delete_conv' fun_eq_iff)
qed

lemma set_latest_dirs: "interrupted (set_latest_ops seq) s s' \<Longrightarrow> dirs s' = dirs s"
  by (auto simp: set_latest_ops_def elim!: interrupted_ConsE split: option.splits)

lemma view_cong: "dirs s' = dirs s \<Longrightarrow> view s' = view s"
  by (simp add: view_def fun_eq_iff)

text \<open>
  C26. Whatever call of a seal a crash interrupts, and however the write it interrupts is torn,
  the directories that readers look at are those of before, or those with the complete new
  snapshot; so the listing of sealed snapshots has the old numbers, or the new one besides.
\<close>

theorem seal_crash_safe:
  assumes "interrupted (seal_ops seq source summary s) s s'"
    and "seal seq source summary s = Inr done_state"
    and "0 \<le> seq" and "length (slot seq) \<le> 4300" and "distinct (map fst (dirs s))"
  shows "(view s' = view s \<or> view s' = (view s)(slot seq \<mapsto> sealed_files seq source summary)) \<and>
     (set (list_sealed s') = set (list_sealed s) \<or> set (list_sealed s') = insert seq (set (list_sealed s)))"
proof -
  let ?w = "fold exec_op (working_ops seq source summary s) s"
  let ?new = "(view s)(slot seq \<mapsto> sealed_files seq source summary)"
  have w: "view ?w = view s" using tmp_only_fold [OF working_ops_tmp_only] by blast
  have v: "view s' = view s \<or> view s' = ?new"
    using interrupted_append [OF assms(1) [unfolded seal_ops_split]]
  proof
    assume "interrupted (working_ops seq source summary s) s s'"
    then show ?thesis using tmp_only_interrupted [OF _ working_ops_tmp_only] by blast
  next
    assume "interrupted (Rename_Dir (tmp_slot seq) (slot seq) # set_latest_ops seq) ?w s'"
    then show ?thesis
    proof cases
      case step
      then show ?thesis using renamed_view view_cong [OF set_latest_dirs] by metis
    qed (use w in simp)
  qed
  have "map_of (sealed_files seq source summary) ''.complete'' \<noteq> None"
    by (simp add: sealed_files_def update_conv')
  moreover have "view s (slot seq) = None"
    using assms(2) by (simp add: seal_def view_def split: if_splits)
  ultimately have "visible_seqs ?new = insert seq (visible_seqs (view s))"
    using parse_slot [OF assms(3,4)] by (intro visible_insert)
  with v show ?thesis
    using list_sealed_visible assms(5) distinct_dirs_interrupted [OF assms(1,5)] by metis
qed

lemma interrupted_whole: "interrupted xs s (fold exec_op xs s)"
  using interrupted_prefix [of xs "[]"] by simp

lemma seal_done:
  assumes "seal seq source summary s = Inr s'"
  shows "view s' = (view s)(slot seq \<mapsto> sealed_files seq source summary)"
    and "latest_file s' = Some (str_of_int seq)"
    and "distinct (map fst (dirs s)) \<Longrightarrow> distinct (map fst (dirs s'))"
proof -
  let ?r = "exec_op (Rename_Dir (tmp_slot seq) (slot seq)) (fold exec_op (working_ops seq source summary s) s)"
  have s': "s' = fold exec_op (seal_ops seq source summary s) s"
    using assms by (simp add: seal_def split: if_splits)
  then have r: "s' = fold exec_op (set_latest_ops seq) ?r" by (simp add: seal_ops_split)
  then show "view s' = (view s)(slot seq \<mapsto> sealed_files seq source summary)"
    using view_cong [OF set_latest_dirs [OF interrupted_whole]] renamed_view by metis
  show "latest_file s' = Some (str_of_int seq)" by (simp add: r set_latest_ops_def)
  show "distinct (map fst (dirs s'))" if "distinct (map fst (dirs s))"
    unfolding s' by (rule distinct_dirs_interrupted [OF interrupted_whole that])
qed

text \<open>
  A crash between the rename and the update of the pointer leaves a state in which every later
  seal under the next number fails: the pointer still names the snapshot before, and the
  directory of the number after it exists.
\<close>

theorem interrupted_seal_blocks:
  assumes "latest_file s = Some t" and "seal (next_seq s) source summary s = Inr done_state"
  shows "\<exists>s'. interrupted (seal_ops (next_seq s) source summary s) s s' \<and> next_seq s' = next_seq s \<and>
     (\<forall>src sum. seal (next_seq s') src sum s' = Inl (already_sealed (next_seq s)))"
proof (intro exI conjI)
  let ?n = "next_seq s"
  let ?w = "fold exec_op (working_ops ?n source summary s) s"
  let ?r = "exec_op (Rename_Dir (tmp_slot ?n) (slot ?n)) ?w"
  have "interrupted ((working_ops ?n source summary s @ [Rename_Dir (tmp_slot ?n) (slot ?n)]) @ set_latest_ops ?n) s
      (fold exec_op (working_ops ?n source summary s @ [Rename_Dir (tmp_slot ?n) (slot ?n)]) s)"
    by (rule interrupted_prefix)
  then show "interrupted (seal_ops ?n source summary s) s ?r" by (simp add: seal_ops_split)
  have "latest_file ?r = latest_file ?w" by (simp split: option.split)
  then have "latest_file ?r = Some t"
    using tmp_only_fold [OF working_ops_tmp_only] assms(1) by metis
  then show n: "next_seq ?r = ?n" using assms(1) by (simp add: next_seq_def latest_def)
  have "view ?r (slot ?n) \<noteq> None" by (simp only: renamed_view) simp
  then show "\<forall>src sum. seal (next_seq ?r) src sum ?r = Inl (already_sealed ?n)"
    unfolding n by (simp add: seal_def view_def del: exec_op.simps)
qed

section \<open>Retention\<close>

lemma rmtree_view:
  "view (fold exec_op (rmtree_ops (slot q) s) s) = (view s)(slot q := None)"
proof (cases "map_of (dirs s) (slot q)")
  case None
  then show ?thesis by (auto simp: rmtree_ops_def view_def fun_eq_iff)
next
  case (Some files)
  have "map_of (dirs (fold exec_op (map (Remove_File (slot q)) fs) s)) m = map_of (dirs s) m"
    if "m \<noteq> slot q" for fs m and s :: snap_fs
    by (induction fs arbitrary: s) (use that in \<open>auto simp: in_dir_def update_conv' split: option.split\<close>)
  with Some show ?thesis by (auto simp: rmtree_ops_def view_def delete_conv' fun_eq_iff)
qed

lemma rmtree_latest: "latest_file (fold exec_op (rmtree_ops d s) s) = latest_file s"
proof -
  have "latest_file (fold exec_op (map (Remove_File d) fs) s) = latest_file s" for fs and s :: snap_fs
    by (induction fs arbitrary: s) simp_all
  then show ?thesis by (simp add: rmtree_ops_def split: option.split)
qed

definition drop_seqs :: "int list \<Rightarrow> snap_fs \<Rightarrow> snap_fs" where
  "drop_seqs = fold (\<lambda>q s. fold exec_op (rmtree_ops (slot q) s) s)"

lemma gc_state: "gc k s = (gc_drops k (list_sealed s), drop_seqs (gc_drops k (list_sealed s)) s)"
  by (simp add: gc_def drop_seqs_def Let_def)

lemma drop_seqs_facts:
  "view (drop_seqs qs s) m = (if m \<in> slot ` set qs then None else view s m) \<and>
   latest_file (drop_seqs qs s) = latest_file s \<and>
   (distinct (map fst (dirs s)) \<longrightarrow> distinct (map fst (dirs (drop_seqs qs s))))"
proof (induction qs arbitrary: s)
  case (Cons q qs)
  let ?s = "fold exec_op (rmtree_ops (slot q) s) s"
  have "distinct (map fst (dirs s)) \<longrightarrow> distinct (map fst (dirs ?s))"
    using distinct_dirs_interrupted [OF interrupted_whole] by blast
  moreover have "drop_seqs (q # qs) s = drop_seqs qs ?s" by (simp add: drop_seqs_def)
  ultimately show ?case using Cons.IH [of ?s] by (auto simp: rmtree_view rmtree_latest)
qed (simp add: drop_seqs_def)

section \<open>Without crashes after the rename\<close>

lemma length_str_of_nat: "n < 10 ^ k \<Longrightarrow> 0 < k \<Longrightarrow> length (str_of_nat n) \<le> k"
proof (induction k arbitrary: n)
  case (Suc k)
  show ?case
  proof (cases "n < 10")
    case False
    then have "0 < k" using Suc.prems by (cases k) auto
    moreover have "n div 10 < 10 ^ k" using Suc.prems by (simp add: less_mult_imp_div_less mult.commute)
    ultimately have "length (str_of_nat (n div 10)) \<le> k" by (rule Suc.IH [rotated])
    then show ?thesis using False by (subst str_of_nat.simps) simp
  qed (subst str_of_nat.simps, simp)
qed simp

definition seq_limit :: int where
  "seq_limit = 10 ^ 8"

lemma limit_slot:
  assumes "0 \<le> n" and "n \<le> seq_limit + 1"
  shows "parse_int (slot n) = Some n" and "parse_int (strip (str_of_int n)) = Some n"
proof -
  have len: "length (str_of_nat (nat n)) \<le> 9"
    using assms by (intro length_str_of_nat) (simp_all add: seq_limit_def nat_less_iff)
  then show "parse_int (slot n) = Some n"
    using assms(1) by (intro parse_slot) (simp_all add: slot_def zfill_def)
  have "strip (str_of_nat (nat n)) = str_of_nat (nat n)"
    using str_of_nat_digits [of "nat n"] by (intro strip_id) (auto simp: digits_def simp del: digit.simps)
  moreover have "parse_int (str_of_nat (nat n)) = Some (int (nat n))"
    using parse_int_digits [OF str_of_nat_digits str_of_nat_nonempty] len by (simp add: fold_digits)
  ultimately show "parse_int (strip (str_of_int n)) = Some n"
    using assms(1) by (simp add: str_of_int_def)
qed

lemma slot_inj:
  assumes "slot a = slot b" and "a \<in> {0..seq_limit + 1}" and "b \<in> {0..seq_limit + 1}"
  shows "a = b"
proof -
  have "parse_int (slot a) = Some a" "parse_int (slot b) = Some b"
    using assms(2,3) by (auto intro: limit_slot(1))
  then show ?thesis unfolding assms(1) by simp
qed

text \<open>The number of the newest snapshot; every other one has a smaller number.\<close>

definition store_inv :: "int \<Rightarrow> snap_fs \<Rightarrow> bool" where
  "store_inv n s \<longleftrightarrow>
     0 \<le> n \<and> n \<le> seq_limit \<and> distinct (map fst (dirs s)) \<and>
     latest_file s = (if n = 0 then None else Some (str_of_int n)) \<and>
     (0 < n \<longrightarrow> view s (slot n) \<noteq> None) \<and>
     (\<forall>m files. view s m = Some files \<longrightarrow>
        map_of files ''.complete'' \<noteq> None \<and> m \<in> slot ` {1..n})"

lemma store_inv_facts:
  assumes "store_inv n s"
  shows "set (list_sealed s) \<subseteq> {1..n}" and "0 < n \<Longrightarrow> n \<in> set (list_sealed s)"
    and "view s (slot (n + 1)) = None" and "latest s = (if n = 0 then None else Some n)"
proof -
  have lim: "n \<le> seq_limit" "0 \<le> n" and d: "distinct (map fst (dirs s))"
    and v: "\<And>m files. view s m = Some files \<Longrightarrow> map_of files ''.complete'' \<noteq> None \<and> m \<in> slot ` {1..n}"
    using assms by (auto simp: store_inv_def)
  have parse: "parse_int (slot i) = Some i" if "i \<in> {1..n + 1}" for i
    using limit_slot(1) that lim by auto
  show sub: "set (list_sealed s) \<subseteq> {1..n}"
  proof
    fix i assume "i \<in> set (list_sealed s)"
    then obtain m files where m: "view s m = Some files" "parse_int m = Some i"
      unfolding list_sealed_visible [OF d] visible_seqs_def by blast
    then obtain j where "j \<in> {1..n}" "m = slot j" using v by blast
    then show "i \<in> {1..n}" using m(2) parse [of j] by simp
  qed
  show n: "n \<in> set (list_sealed s)" if pos: "0 < n"
  proof -
    obtain files where "view s (slot n) = Some files" using assms pos by (auto simp: store_inv_def)
    with v [OF this] parse [of n] pos show ?thesis
      unfolding list_sealed_visible [OF d] visible_seqs_def by auto
  qed
  show "view s (slot (n + 1)) = None"
  proof (rule ccontr)
    assume "view s (slot (n + 1)) \<noteq> None"
    then obtain files where "view s (slot (n + 1)) = Some files" by blast
    then obtain i where "i \<in> {1..n}" "slot (n + 1) = slot i" using v by blast
    then show False using parse [of i] parse [of "n + 1"] lim by simp
  qed
  show "latest s = (if n = 0 then None else Some n)"
  proof (cases "n = 0")
    case True
    then have "set (list_sealed s) = {}" using sub by simp
    with True assms show ?thesis by (simp add: latest_def store_inv_def)
  next
    case False
    with assms lim show ?thesis by (simp add: latest_def store_inv_def limit_slot(2))
  qed
qed

lemma sorted_last: "sorted xs \<Longrightarrow> x \<in> set xs \<Longrightarrow> x \<le> last xs" for x :: int
  by (induction xs) auto

lemma store_inv_newest:
  assumes "store_inv n s"
  shows "latest s = (if list_sealed s = [] then None else Some (last (list_sealed s)))"
proof (cases "n = 0")
  case True
  then show ?thesis using store_inv_facts(1,4) [OF assms] by simp
next
  case False
  then have "0 < n" using assms by (simp add: store_inv_def)
  then have n: "n \<in> set (list_sealed s)" by (rule store_inv_facts(2) [OF assms])
  then have ne: "list_sealed s \<noteq> []" by auto
  have "sorted (list_sealed s)" by (simp add: list_sealed_def)
  then have "n \<le> last (list_sealed s)" using n by (rule sorted_last)
  moreover have "last (list_sealed s) \<le> n" using store_inv_facts(1) [OF assms] last_in_set [OF ne] by auto
  ultimately show ?thesis using store_inv_facts(4) [OF assms] ne False by simp
qed

text \<open>
  What the workers do to a store when they die at most while they fill the working directory:
  seals under the next number, seals cut short before the rename, and retention.
\<close>

inductive store_step :: "snap_fs \<Rightarrow> snap_fs \<Rightarrow> bool" where
  sealed: "seal (next_seq s) source summary s = Inr s' \<Longrightarrow> next_seq s \<le> seq_limit \<Longrightarrow> store_step s s'"
| cut_short: "interrupted (working_ops (next_seq s) source summary s) s s' \<Longrightarrow> store_step s s'"
| retained: "gc k s = (dropped, s') \<Longrightarrow> 1 \<le> k \<Longrightarrow> store_step s s'"

definition visible :: "string \<times> string dict \<Rightarrow> bool" where
  "visible e \<longleftrightarrow> \<not> is_tmp (fst e) \<and> map_of (snd e) ''.complete'' \<noteq> None \<and> parse_int (fst e) \<noteq> None"

lemma list_sealed_map:
  "list_sealed s = sort (map (\<lambda>e. the (parse_int (fst e))) (filter visible (dirs s)))"
proof -
  have "sealed_in e = (if visible e then [the (parse_int (fst e))] else [])" for e
    by (auto simp: sealed_in_def visible_def split: option.split)
  then have "concat (map sealed_in ds) = map (\<lambda>e. the (parse_int (fst e))) (filter visible ds)" for ds
    by (induction ds) simp_all
  then show ?thesis by (simp add: list_sealed_def)
qed

lemma store_inv_distinct:
  assumes "store_inv n s"
  shows "distinct (list_sealed s)"
proof -
  have d: "distinct (map fst (dirs s))" and lim: "n \<le> seq_limit"
    and v: "\<And>m files. view s m = Some files \<Longrightarrow> m \<in> slot ` {1..n}"
    using assms unfolding store_inv_def by blast+
  have name: "fst e = slot (the (parse_int (fst e)))" if "e \<in> set (dirs s)" "visible e" for e
  proof -
    have "view s (fst e) = Some (snd e)" using that d by (simp add: view_def visible_def)
    from v [OF this] obtain i where "i \<in> {1..n}" "fst e = slot i" by (elim imageE)
    then show ?thesis using limit_slot(1) [of i] lim by simp
  qed
  have "inj_on fst (set (dirs s))" and "distinct (dirs s)" using d by (simp_all add: distinct_map)
  moreover have "inj_on (\<lambda>e. the (parse_int (fst e))) (set (filter visible (dirs s)))"
  proof (rule inj_onI)
    fix e f assume ef: "e \<in> set (filter visible (dirs s))" "f \<in> set (filter visible (dirs s))"
      and "the (parse_int (fst e)) = the (parse_int (fst f))"
    then have "fst e = fst f" using name [of e] name [of f] by simp
    with \<open>inj_on fst (set (dirs s))\<close> ef show "e = f" by (simp add: inj_on_def)
  qed
  ultimately show ?thesis by (simp add: list_sealed_map distinct_map)
qed

lemma last_kept:
  assumes "distinct xs" and "1 \<le> k" and "xs \<noteq> []"
  shows "last xs \<notin> set (gc_drops k xs)"
proof -
  obtain ys y where xs: "xs = ys @ [y]" using assms(3) by (cases xs rule: rev_cases) auto
  have "set (take (length xs - nat k) xs) \<subseteq> set ys"
    using assms(2) by (simp add: xs set_take_subset)
  then show ?thesis using assms by (auto simp: gc_drops_def xs)
qed

lemma store_inv_step: "store_step s s' \<Longrightarrow> store_inv n s \<Longrightarrow> \<exists>n'. store_inv n' s'"
proof (induction rule: store_step.induct)
  case (sealed s source summary s')
  note inv = store_inv_facts [OF sealed.prems]
  have q: "next_seq s = n + 1" using inv(4) by (simp add: next_seq_def)
  have "map_of (sealed_files (n + 1) source summary) ''.complete'' \<noteq> None"
    by (simp add: sealed_files_def update_conv')
  moreover have "slot ` {1..n} \<subseteq> slot ` {1..n + 1}" by (intro image_mono) auto
  moreover have "slot (n + 1) \<in> slot ` {1..n + 1}" using sealed.prems by (simp add: store_inv_def)
  ultimately have "map_of files ''.complete'' \<noteq> None \<and> m \<in> slot ` {1..n + 1}" if "view s' m = Some files" for m files
    using that sealed.prems seal_done(1) [OF sealed.hyps(1)] unfolding q store_inv_def
    by (cases "m = slot (n + 1)") auto
  moreover have "view s' (slot (n + 1)) \<noteq> None" using seal_done(1) [OF sealed.hyps(1)] by (simp add: q)
  ultimately have "store_inv (n + 1) s'"
    using sealed.prems sealed.hyps(2) seal_done(2,3) [OF sealed.hyps(1)] unfolding q store_inv_def by simp
  then show ?case ..
next
  case (cut_short source summary s s')
  then have "store_inv n s'"
    using tmp_only_interrupted [OF cut_short.hyps working_ops_tmp_only] distinct_dirs_interrupted [OF cut_short.hyps]
    by (simp add: store_inv_def)
  then show ?case ..
next
  case (retained k s dropped s')
  let ?qs = "gc_drops k (list_sealed s)"
  have s': "s' = drop_seqs ?qs s" using retained.hyps(1) by (auto simp: gc_state)
  note facts = drop_seqs_facts [of ?qs s]
  note inv = store_inv_facts [OF retained.prems]
  have "n \<notin> set ?qs" if "0 < n"
  proof -
    have "list_sealed s \<noteq> []" using inv(2) [OF that] by auto
    then show ?thesis
      using last_kept [OF store_inv_distinct [OF retained.prems] retained.hyps(2)]
        store_inv_newest [OF retained.prems] inv(4) that by auto
  qed
  moreover have "set ?qs \<subseteq> {1..n}"
    using inv(1) by (auto simp: gc_drops_def dest: in_set_takeD)
  moreover have "n \<le> seq_limit" using retained.prems by (simp add: store_inv_def)
  ultimately have kept: "slot n \<notin> slot ` set ?qs" if "0 < n"
    using that slot_inj [of n] by fastforce
  have "store_inv n s'"
    using retained.prems facts kept unfolding store_inv_def s' by auto
  then show ?case ..
qed

text \<open>
  As long as no worker dies between the rename and the pointer, \<open>latest\<close> is the last
  element of the listing, whatever retention dropped, and the next seal succeeds and becomes
  the latest.
\<close>

theorem latest_is_newest:
  assumes "store_step\<^sup>*\<^sup>* empty_store s"
  shows "latest s = (if list_sealed s = [] then None else Some (last (list_sealed s))) \<and>
     (\<exists>s'. seal (next_seq s) source summary s = Inr s' \<and> latest s' = Some (next_seq s))"
proof -
  have "\<exists>n. store_inv n s"
    using assms
  proof (induction rule: rtranclp_induct)
    case base
    then have "store_inv 0 empty_store"
      by (simp add: store_inv_def empty_store_def view_def seq_limit_def)
    then show ?case ..
  next
    case (step s s')
    then show ?case using store_inv_step by blast
  qed
  then obtain n where inv: "store_inv n s" ..
  note facts = store_inv_facts [OF inv]
  have q: "next_seq s = n + 1" using facts(4) by (simp add: next_seq_def)
  obtain s' where s': "seal (next_seq s) source summary s = Inr s'"
    using facts(3) by (simp add: q seal_def view_def split: if_splits)
  moreover have "latest s' = Some (n + 1)"
    using limit_slot(2) [of "n + 1"] inv seal_done(2) [OF s'] by (simp add: latest_def q store_inv_def)
  ultimately show ?thesis using store_inv_newest [OF inv] q by simp
qed

section \<open>Witnesses\<close>

definition demo_store :: snap_fs where
  "demo_store = \<lparr>dirs = [(''00000001'', [(''.complete'', ''1'')])], latest_file = Some ''1'', latest_tmp = None\<rparr>"

lemma demo_next: "next_seq demo_store = 2"
  by code_simp

lemma demo_seal: "\<exists>d. seal 2 None (Some ''x'') demo_store = Inr d"
  by (simp add: seal_def demo_store_def slot_def zfill_def str_of_nat.simps)

lemma seal_crash_safe_witness:
  "set (list_sealed (exec_op (Make_Dir (tmp_slot 2)) demo_store)) = {1} \<or>
   set (list_sealed (exec_op (Make_Dir (tmp_slot 2)) demo_store)) = {1, 2}"
proof -
  obtain d where d: "seal 2 None (Some ''x'') demo_store = Inr d" using demo_seal by blast
  have "rmtree_ops (tmp_slot 2) demo_store = []" by code_simp
  then obtain rest where "seal_ops 2 None (Some ''x'') demo_store = Make_Dir (tmp_slot 2) # rest"
    by (simp add: seal_ops_def fill_ops_def Let_def)
  then have i: "interrupted (seal_ops 2 None (Some ''x'') demo_store) demo_store (exec_op (Make_Dir (tmp_slot 2)) demo_store)"
    by (simp only:) (intro step stop)
  have "length (slot 2) \<le> 4300" "distinct (map fst (dirs demo_store))"
    by (simp_all add: slot_def zfill_def str_of_nat.simps demo_store_def)
  moreover have "list_sealed demo_store = [1]" by code_simp
  ultimately show ?thesis
    using seal_crash_safe [OF i d] by (simp add: insert_commute del: exec_op.simps)
qed

lemma interrupted_seal_blocks_witness:
  "\<exists>s'. interrupted (seal_ops 2 None (Some ''x'') demo_store) demo_store s' \<and>
     seal 2 None None s' = Inl (already_sealed 2)"
proof -
  obtain d where d: "seal 2 None (Some ''x'') demo_store = Inr d" using demo_seal by blast
  have "latest_file demo_store = Some ''1''" by (simp add: demo_store_def)
  from interrupted_seal_blocks [OF this, unfolded demo_next, OF d] show ?thesis by auto
qed

lemma latest_is_newest_witness:
  "\<exists>s'. seal 1 None None empty_store = Inr s' \<and> latest s' = Some 1"
proof -
  have "store_step\<^sup>*\<^sup>* empty_store empty_store" by simp
  moreover have "next_seq empty_store = 1" by code_simp
  ultimately show ?thesis using latest_is_newest [of empty_store None None] by simp
qed

end
