(* ===== verification/Artifact_Inputs.thy ===== *)
theory Artifact_Inputs
  imports Job_Db
begin

text \<open>
  \<open>core/artifacts.py\<close>: the vocabulary of artifact kinds, formats and input roles, and the half
  of \<open>services/artifact_service.py\<close> that resolves the artifact references of a request. The
  data types of the core formats come from the package \<open>sceneio\<close>: the function \<open>io\<close> gives the
  type of a format.
\<close>

section \<open>JSON objects\<close>

text \<open>\<open>d.get(k)\<close>, the truth value of an object and \<open>x or y\<close>.\<close>

definition jget :: "json dict \<Rightarrow> string \<Rightarrow> json" where
  "jget d k = (case map_of d k of None \<Rightarrow> JNull | Some v \<Rightarrow> v)"

fun truthy :: "json \<Rightarrow> bool" where
  "truthy JNull = False"
| "truthy (JBool b) = b"
| "truthy (JInt i) = (i \<noteq> 0)"
| "truthy (JFloat f) = (f \<noteq> Fin 0)"
| "truthy (JStr s) = (s \<noteq> [])"
| "truthy (JList xs) = (xs \<noteq> [])"
| "truthy (JObj d) = (d \<noteq> [])"

definition json_or :: "json \<Rightarrow> json \<Rightarrow> json" where
  "json_or a b = (if truthy a then a else b)"

definition opt_json :: "('a \<Rightarrow> json) \<Rightarrow> 'a option \<Rightarrow> json" where
  "opt_json f x = (case x of None \<Rightarrow> JNull | Some v \<Rightarrow> f v)"

fun is_obj :: "json \<Rightarrow> bool" where
  "is_obj (JObj d) = True"
| "is_obj _ = False"

fun obj_fields :: "json \<Rightarrow> json dict" where
  "obj_fields (JObj d) = d"
| "obj_fields _ = []"

definition put_all :: "json dict \<Rightarrow> json dict \<Rightarrow> json dict" where
  "put_all new d = fold (\<lambda>(k, v). AList.update k v) new d"

lemma map_of_put_all:
  assumes "distinct (keys new)"
  shows "map_of (put_all new d) k = (case map_of new k of None \<Rightarrow> map_of d k | Some v \<Rightarrow> Some v)"
  using assms
proof (induction new arbitrary: d)
  case (Cons e new)
  obtain i v where e: "e = (i, v)" by (cases e)
  have "map_of new i = None" using Cons.prems by (simp add: e keys_def map_of_eq_None_iff)
  with Cons show ?case by (simp add: e put_all_def keys_def split: option.split)
qed (simp add: put_all_def)

lemma put_all_set:
  "set (put_all new d) \<subseteq> set new \<union> set d \<and> fst ` set (put_all new d) = fst ` set new \<union> fst ` set d"
proof (induction new arbitrary: d)
  case (Cons e new)
  obtain k v where e: "e = (k, v)" by (cases e)
  have "set (AList.update k v d) \<subseteq> insert (k, v) (set d)"
    by (induction d) auto
  moreover have "fst ` set (AList.update k v d) = insert k (fst ` set d)"
    by (induction d) auto
  moreover have "put_all (e # new) d = put_all new (AList.update k v d)" by (simp add: put_all_def e)
  ultimately show ?case using Cons.IH [of "AList.update k v d"] by (auto simp: e)
qed (simp add: put_all_def)

section \<open>Text of a value\<close>

text \<open>\<open>repr(v)\<close> and \<open>str(v)\<close>.\<close>

fun py_float :: "(rat \<Rightarrow> string) \<Rightarrow> pyfloat \<Rightarrow> string" where
  "py_float fr (Fin q) = fr q"
| "py_float fr PosInf = ''inf''"
| "py_float fr NegInf = ''-inf''"
| "py_float fr NaN = ''nan''"

fun json_repr :: "(rat \<Rightarrow> string) \<Rightarrow> json \<Rightarrow> string" where
  "json_repr fr JNull = ''None''"
| "json_repr fr (JBool b) = (if b then ''True'' else ''False'')"
| "json_repr fr (JInt i) = str_of_int i"
| "json_repr fr (JFloat f) = py_float fr f"
| "json_repr fr (JStr s) = py_repr s"
| "json_repr fr (JList xs) = ''['' @ joins '', '' (map (json_repr fr) xs) @ '']''"
| "json_repr fr (JObj d) =
     CHR 0x7B # joins '', '' (map (\<lambda>(k, v). py_repr k @ '': '' @ json_repr fr v) d) @ [CHR 0x7D]"

section \<open>The artifact vocabulary\<close>

definition key_char :: "char \<Rightarrow> bool" where
  "key_char c \<longleftrightarrow> ascii_digit c \<or> lower_alpha c \<or> (65 \<le> (of_char c :: nat) \<and> (of_char c :: nat) \<le> 90)"

text \<open>\<open>ARTIFACT_KEY_RE.fullmatch\<close>.\<close>

definition is_valid_artifact_key :: "string \<Rightarrow> bool" where
  "is_valid_artifact_key s \<longleftrightarrow>
     s \<noteq> [] \<and> key_char (hd s) \<and> list_all (\<lambda>c. key_char c \<or> c \<in> set ''_.-'') (tl s) \<and> length s \<le> 96"

definition ARTIFACT_KEY_PATTERN :: string where
  "ARTIFACT_KEY_PATTERN = ''^[A-Za-z0-9][A-Za-z0-9_.-]{0,95}$''"

definition CORE_ARTIFACT_FORMATS :: "string list" where
  "CORE_ARTIFACT_FORMATS =
     [''sfmapi.features.local.v1'', ''sfmapi.features.global.v1'', ''sfmapi.pairs.image_names.v1'',
      ''sfmapi.matches.indexed.v1'', ''sfmapi.matches.coordinates.v1'', ''sfmapi.matches.dense.v1'',
      ''sfmapi.matches.verified.v1'', ''sfmapi.reconstruction.sparse.v1'',
      ''sfmapi.reconstruction.snapshot.v1'', ''sfmapi.reconstruction.submodel.v1'',
      ''sfmapi.projection.images.v1'']"

text \<open>Each core kind with its default format; every schema version is 1.\<close>

definition CORE_ARTIFACT_KINDS :: "string dict" where
  "CORE_ARTIFACT_KINDS =
     [(''features.local.v1'', ''sfmapi.features.local.v1''),
      (''features.global.v1'', ''sfmapi.features.global.v1''),
      (''pairs.image_names.v1'', ''sfmapi.pairs.image_names.v1''),
      (''matches.indexed.v1'', ''sfmapi.matches.indexed.v1''),
      (''matches.coordinates.v1'', ''sfmapi.matches.coordinates.v1''),
      (''matches.dense.v1'', ''sfmapi.matches.dense.v1''),
      (''matches.verified.v1'', ''sfmapi.matches.verified.v1''),
      (''reconstruction.sparse.v1'', ''sfmapi.reconstruction.sparse.v1''),
      (''reconstruction.snapshot'', ''sfmapi.reconstruction.snapshot.v1''),
      (''reconstruction.submodel'', ''sfmapi.reconstruction.submodel.v1''),
      (''projection.images.v1'', ''sfmapi.projection.images.v1'')]"

definition datatype_for_format :: "(string \<Rightarrow> string) \<Rightarrow> string \<Rightarrow> string option" where
  "datatype_for_format io f = (if f \<in> set CORE_ARTIFACT_FORMATS then Some (io f) else None)"

definition KIND_NAMESPACE_TO_DATATYPE :: "(string \<Rightarrow> string) \<Rightarrow> string dict" where
  "KIND_NAMESPACE_TO_DATATYPE io =
     fold (\<lambda>(k, f). AList.update (before (CHR ''.'') k) (io f)) CORE_ARTIFACT_KINDS []"

definition datatype_for_kind :: "(string \<Rightarrow> string) \<Rightarrow> string \<Rightarrow> string option" where
  "datatype_for_kind io k =
     (case map_of CORE_ARTIFACT_KINDS k of
        Some f \<Rightarrow> Some (io f)
      | None \<Rightarrow> map_of (KIND_NAMESPACE_TO_DATATYPE io) (before (CHR ''.'') k))"

definition is_format_compatible_with_kind :: "(string \<Rightarrow> string) \<Rightarrow> string \<Rightarrow> string \<Rightarrow> bool" where
  "is_format_compatible_with_kind io k f \<longleftrightarrow>
     (case (datatype_for_kind io k, datatype_for_format io f) of
        (Some a, Some b) \<Rightarrow> a = b
      | _ \<Rightarrow> True)"

definition ARTIFACT_INPUT_ROLE_KINDS :: "string list dict" where
  "ARTIFACT_INPUT_ROLE_KINDS =
     [(''features'', [''features.local.v1'', ''features.global.v1'']),
      (''pairs'', [''pairs.image_names.v1'']),
      (''matches'', [''matches.indexed.v1'', ''matches.coordinates.v1'', ''matches.dense.v1'']),
      (''verified_matches'', [''matches.verified.v1'']),
      (''snapshot'', [''reconstruction.sparse.v1'', ''reconstruction.snapshot'']),
      (''submodel'', [''reconstruction.submodel''])]"

definition ARTIFACT_INPUT_ROLE_PREFIXES :: "string list dict" where
  "ARTIFACT_INPUT_ROLE_PREFIXES =
     [(''features'', [''features.'']), (''pairs'', [''pairs.'']), (''matches'', [''matches.'']),
      (''verified_matches'', [''matches.verified.'', ''matches.database.verified.'']),
      (''snapshot'', [''reconstruction.sparse.'', ''reconstruction.snapshot.'']),
      (''submodel'', [''reconstruction.submodel.''])]"

definition starts :: "string \<Rightarrow> string \<Rightarrow> bool" where
  "starts p s \<longleftrightarrow> take (length p) s = p"

definition is_artifact_allowed_for_role :: "string \<Rightarrow> string \<Rightarrow> bool" where
  "is_artifact_allowed_for_role role k \<longleftrightarrow>
     (case map_of ARTIFACT_INPUT_ROLE_KINDS role of
        None \<Rightarrow> True
      | Some allowed \<Rightarrow> k \<in> set allowed \<or>
          (case map_of ARTIFACT_INPUT_ROLE_PREFIXES role of
             None \<Rightarrow> False
           | Some ps \<Rightarrow> list_ex (\<lambda>p. starts p k) ps))"

section \<open>Artifact references of a request\<close>

definition get_artifact :: "string \<Rightarrow> string \<Rightarrow> artifact_row list \<Rightarrow> api_error + artifact_row" where
  "get_artifact tenant aid rows =
     (case find (\<lambda>a. artifact_id a = aid) rows of
        None \<Rightarrow> raising NotFoundError (''artifact not found: '' @ aid)
      | Some a \<Rightarrow>
          if artifact_tenant_id a \<noteq> tenant then raising NotFoundError (''artifact not found: '' @ aid)
          else Inr a)"

text \<open>The id and the expected kind of a reference.\<close>

definition artifact_ref :: "string \<Rightarrow> json \<Rightarrow> api_error + (string \<times> string option)" where
  "artifact_ref role v =
     (case v of
        JObj d \<Rightarrow>
          (case jget d ''artifact_id'' of
             JStr aid \<Rightarrow>
               if aid = [] then raising ValidationError (''input_artifacts.'' @ role @ ''.artifact_id is required'')
               else (case jget d ''kind'' of
                  JNull \<Rightarrow> Inr (aid, None)
                | JStr k \<Rightarrow>
                    if is_valid_artifact_key k then Inr (aid, Some k)
                    else raising ValidationError
                      (''input_artifacts.'' @ role @ ''.kind must match '' @ py_repr ARTIFACT_KEY_PATTERN)
                | _ \<Rightarrow> raising ValidationError
                      (''input_artifacts.'' @ role @ ''.kind must match '' @ py_repr ARTIFACT_KEY_PATTERN))
           | _ \<Rightarrow> raising ValidationError (''input_artifacts.'' @ role @ ''.artifact_id is required''))
      | _ \<Rightarrow> raising ValidationError (''input_artifacts.'' @ role @ '' must be an object''))"

definition metadata_value :: "artifact_row \<Rightarrow> string \<Rightarrow> json" where
  "metadata_value a k = (case artifact_metadata_json a of Some (JObj d) \<Rightarrow> jget d k | _ \<Rightarrow> JNull)"

definition resolved_entry :: "(string \<Rightarrow> string) \<Rightarrow> artifact_row \<Rightarrow> json" where
  "resolved_entry io a = JObj
     [(''artifact_id'', JStr (artifact_id a)),
      (''kind'', JStr (artifact_kind a)),
      (''name'', opt_json JStr (artifact_name a)),
      (''uri'', opt_json JStr (artifact_uri a)),
      (''media_type'', opt_json JStr (artifact_media_type a)),
      (''artifact_format'', metadata_value a ''artifact_format''),
      (''datatype'', json_or (metadata_value a ''datatype'') (opt_json JStr (datatype_for_kind io (artifact_kind a)))),
      (''schema_version'', metadata_value a ''schema_version''),
      (''summary'', opt_json id (artifact_summary_json a)),
      (''metadata'', opt_json id (artifact_metadata_json a)),
      (''job_id'', JStr (artifact_job_id a)),
      (''task_id'', JStr (artifact_task_id a)),
      (''recon_id'', opt_json JStr (artifact_recon_id a)),
      (''dataset_id'', opt_json JStr (artifact_dataset_id a))]"

definition resolve_one ::
  "(string \<Rightarrow> string) \<Rightarrow> string \<Rightarrow> string option \<Rightarrow> artifact_row list \<Rightarrow> string \<times> json \<Rightarrow>
   api_error + (string \<times> json)" where
  "resolve_one io tenant dataset rows e =
     (let role = fst e in
      if \<not> is_valid_artifact_key role then
        raising ValidationError (''input_artifacts role must match '' @ py_repr ARTIFACT_KEY_PATTERN)
      else andthen (artifact_ref role (snd e)) (\<lambda>(aid, expected).
        andthen (get_artifact tenant aid rows) (\<lambda>a.
          if expected \<noteq> None \<and> expected \<noteq> Some (artifact_kind a) then
            raising ValidationError (''input_artifacts.'' @ role @ ''.kind expected '' @ py_repr (the expected) @
              '', but artifact '' @ artifact_id a @ '' is '' @ py_repr (artifact_kind a))
          else if \<not> is_artifact_allowed_for_role role (artifact_kind a) then
            raising ValidationError (''input_artifacts.'' @ role @ '' expects one of ['' @
              joins '', '' (sort (case map_of ARTIFACT_INPUT_ROLE_KINDS role of None \<Rightarrow> [] | Some ks \<Rightarrow> ks)) @
              ''], got '' @ py_repr (artifact_kind a))
          else if dataset \<noteq> None \<and> artifact_dataset_id a \<noteq> None \<and> artifact_dataset_id a \<noteq> dataset then
            raising ValidationError (''input_artifacts.'' @ role @ '' belongs to dataset '' @
              the (artifact_dataset_id a) @ '', not '' @ the dataset)
          else Inr (role, resolved_entry io a))))"

definition resolve_input_artifacts ::
  "(string \<Rightarrow> string) \<Rightarrow> string \<Rightarrow> string option \<Rightarrow> artifact_row list \<Rightarrow> json \<Rightarrow> api_error + json dict" where
  "resolve_input_artifacts io tenant dataset rows input =
     (if \<not> truthy input then Inr []
      else case input of
          JObj d \<Rightarrow> collect (resolve_one io tenant dataset rows) d
        | _ \<Rightarrow> raising ValidationError ''input_artifacts must be an object'')"

fun artifact_uri_from_input_artifacts ::
  "json dict \<Rightarrow> string list \<Rightarrow> string list \<Rightarrow> string option" where
  "artifact_uri_from_input_artifacts inputs [] accepted = None"
| "artifact_uri_from_input_artifacts inputs (role # roles) accepted =
     (case jget inputs role of
        JObj a \<Rightarrow>
          (case (jget a ''kind'', jget a ''uri'') of
             (JStr k, JStr uri) \<Rightarrow>
               if uri \<noteq> [] \<and> (accepted = [] \<or> list_ex (\<lambda>p. starts p k) accepted) then Some uri
               else artifact_uri_from_input_artifacts inputs roles accepted
           | _ \<Rightarrow> artifact_uri_from_input_artifacts inputs roles accepted)
      | _ \<Rightarrow> artifact_uri_from_input_artifacts inputs roles accepted)"

definition database_path_from_input_artifacts :: "json dict \<Rightarrow> string list \<Rightarrow> string option" where
  "database_path_from_input_artifacts inputs roles =
     artifact_uri_from_input_artifacts inputs roles [''features.database.'', ''matches.database.'']"

section \<open>What a resolved reference guarantees\<close>

definition usable :: "string \<Rightarrow> string option \<Rightarrow> string \<Rightarrow> artifact_row \<Rightarrow> bool" where
  "usable tenant dataset role a \<longleftrightarrow>
     artifact_tenant_id a = tenant \<and> is_artifact_allowed_for_role role (artifact_kind a) \<and>
     (dataset = None \<or> artifact_dataset_id a = None \<or> artifact_dataset_id a = dataset)"

lemma resolve_one_Inr:
  assumes "resolve_one io tenant dataset rows e = Inr (role, v)"
  shows "role = fst e \<and> is_valid_artifact_key role \<and>
     (\<exists>a \<in> set rows. usable tenant dataset role a \<and> v = resolved_entry io a \<and>
        jget (obj_fields (snd e)) ''artifact_id'' = JStr (artifact_id a) \<and>
        (jget (obj_fields (snd e)) ''kind'' = JNull \<or> jget (obj_fields (snd e)) ''kind'' = JStr (artifact_kind a)))"
proof -
  let ?role = "fst e"
  obtain aid expected where ref: "artifact_ref ?role (snd e) = Inr (aid, expected)"
    and key: "is_valid_artifact_key ?role"
    using assms by (auto simp: resolve_one_def Let_def raising_def andthen_Inr split: if_splits)
  obtain d where d: "snd e = JObj d" "jget d ''artifact_id'' = JStr aid"
    "jget d ''kind'' = opt_json JStr expected"
    using ref by (auto simp: artifact_ref_def raising_def opt_json_def split: json.splits if_splits)
  obtain a where a: "get_artifact tenant aid rows = Inr a"
    using assms ref key by (auto simp: resolve_one_def Let_def raising_def andthen_Inr)
  then have f: "a \<in> set rows" "artifact_id a = aid" "artifact_tenant_id a = tenant"
    by (auto simp: get_artifact_def raising_def find_Some_iff split: option.splits if_splits)
  from assms ref key a have rest: "\<not> (expected \<noteq> None \<and> expected \<noteq> Some (artifact_kind a))"
    "is_artifact_allowed_for_role ?role (artifact_kind a)"
    "\<not> (dataset \<noteq> None \<and> artifact_dataset_id a \<noteq> None \<and> artifact_dataset_id a \<noteq> dataset)"
    "role = ?role" "v = resolved_entry io a"
    by (simp_all add: resolve_one_def raising_def Let_def split: if_splits)
  then show ?thesis
    using f d key by (auto simp: usable_def opt_json_def split: option.splits intro!: bexI [of _ a])
qed

end
