(* ===== verification/Stages.thy ===== *)
theory Stages
  imports Artifact_Inputs Scheduler Routing
begin

text \<open>
  The shared core of the stage services: \<open>services/_sfm_stage_core.py\<close> with
  \<open>provider_routing_service.py\<close>, \<open>core/path_safety.py\<close>, \<open>core/paths.py\<close> and the lookups of the
  project, dataset and reconstruction services. The tables these read are the component
  \<open>others\<close> of the job database, so a submission is a function on one state.

  \<open>stage_cfg\<close> collects the settings, the state of the plugin hub, the capabilities of the
  deployment, the check of backend options against a backend's schemas and the row of the
  runtime version. Fresh ids are arguments.
\<close>

section \<open>Tables\<close>

record dataset_row =
  dataset_id :: string
  dataset_tenant_id :: string
  dataset_project_id :: string
  dataset_source_id :: string
  manifest_hash :: string
  is_spherical :: bool

record source_row =
  source_id :: string
  source_kind :: string
  uri_or_root :: "string option"

record image_row =
  image_id :: string
  image_tenant_id :: string
  image_dataset_id :: string
  image_name :: string
  content_sha :: string
  rel_path :: "string option"
  pose_prior_json :: "json option"

text \<open>The columns of a reconstruction that \<open>recon_row\<close> leaves out.\<close>

record recon_spec_row =
  rs_recon_id :: string
  rs_tenant_id :: string
  rs_project_id :: string
  rs_dataset_id :: string
  rs_snapshot_hash :: string
  rs_spec_json :: json
  rs_rv_id :: string

record stage_tables =
  datasets :: "dataset_row list"
  sources :: "source_row list"
  images :: "image_row list"
  recon_specs :: "recon_spec_row list"
  known_blobs :: "string list"
  projects :: "(string \<times> string) list"

type_synonym stage_state = "stage_tables db"

definition stage_tables_of :: "stage_state \<Rightarrow> stage_tables" where
  "stage_tables_of d = others (resources d)"

record stage_cfg =
  sc_env :: "stage_tables env"
  sc_workspace :: string
  sc_hub :: plugin_state
  sc_manifests :: "hub_manifest list"
  sc_entry_points :: "string list"
  sc_supports :: "string \<Rightarrow> bool"
  sc_check_options :: "string \<Rightarrow> string \<Rightarrow> json \<Rightarrow> json dict \<Rightarrow> api_error + unit"
  sc_format_type :: "string \<Rightarrow> string"
  sc_rv_id :: string
  sc_runtime_version :: string
  sc_now :: time

section \<open>Text of a value\<close>

definition json_text :: "stage_cfg \<Rightarrow> json \<Rightarrow> string" where
  "json_text C v = (case v of JStr s \<Rightarrow> s | _ \<Rightarrow> json_repr (float_repr (sc_env C)) v)"

text \<open>\<open>str(spec.get(k) or default)\<close>.\<close>

definition text_or :: "stage_cfg \<Rightarrow> json dict \<Rightarrow> string \<Rightarrow> string \<Rightarrow> string" where
  "text_or C d k default_text = json_text C (json_or (jget d k) (JStr default_text))"

section \<open>Lookups\<close>

definition get_project :: "string \<Rightarrow> string \<Rightarrow> stage_state \<Rightarrow> api_error + unit" where
  "get_project tenant project d =
     guard ((tenant, project) \<notin> set (projects (stage_tables_of d)))
       (mk_error NotFoundError (''Project '' @ project @ '' not found'') [])"

definition get_dataset :: "string \<Rightarrow> string \<Rightarrow> string option \<Rightarrow> stage_state \<Rightarrow> api_error + dataset_row" where
  "get_dataset tenant did project d =
     (case find (\<lambda>r. dataset_tenant_id r = tenant \<and> dataset_id r = did) (datasets (stage_tables_of d)) of
        None \<Rightarrow> raising NotFoundError (''Dataset '' @ did @ '' not found'')
      | Some r \<Rightarrow>
          if project \<noteq> None \<and> project \<noteq> Some (dataset_project_id r)
          then raising ValidationError ''Dataset does not belong to project'' else Inr r)"

definition get_reconstruction :: "string \<Rightarrow> string \<Rightarrow> stage_state \<Rightarrow> api_error + recon_spec_row" where
  "get_reconstruction tenant rid d =
     (case find (\<lambda>r. rs_tenant_id r = tenant \<and> rs_recon_id r = rid) (recon_specs (stage_tables_of d)) of
        None \<Rightarrow> raising NotFoundError (''Reconstruction '' @ rid @ '' not found'')
      | Some r \<Rightarrow> Inr r)"

definition dataset_images :: "string \<Rightarrow> string \<Rightarrow> stage_state \<Rightarrow> image_row list" where
  "dataset_images tenant did d =
     filter (\<lambda>i. image_tenant_id i = tenant \<and> image_dataset_id i = did) (images (stage_tables_of d))"

definition require_capability :: "stage_cfg \<Rightarrow> string \<Rightarrow> api_error + unit" where
  "require_capability C cap = guard (\<not> sc_supports C cap) (capability_unavailable cap [])"

section \<open>Paths\<close>

text \<open>\<open>core/paths.py\<close>: joins of names that are not absolute.\<close>

definition subpath :: "string \<Rightarrow> string \<Rightarrow> string" where
  "subpath a b = a @ ''/'' @ b"

definition project_root :: "stage_cfg \<Rightarrow> string \<Rightarrow> string \<Rightarrow> string" where
  "project_root C tenant project = subpath (subpath (subpath (sc_workspace C) tenant) ''projects'') project"

definition dataset_root :: "stage_cfg \<Rightarrow> string \<Rightarrow> string \<Rightarrow> string \<Rightarrow> string" where
  "dataset_root C tenant project did = subpath (subpath (project_root C tenant project) ''datasets'') did"

definition reconstruction_root :: "stage_cfg \<Rightarrow> string \<Rightarrow> string \<Rightarrow> string \<Rightarrow> string" where
  "reconstruction_root C tenant project rid =
     subpath (subpath (project_root C tenant project) ''reconstructions'') rid"

definition reconstruction_database_path :: "stage_cfg \<Rightarrow> string \<Rightarrow> string \<Rightarrow> string \<Rightarrow> string" where
  "reconstruction_database_path C tenant project rid =
     subpath (reconstruction_root C tenant project rid) ''database.db''"

definition reconstruction_paths :: "stage_cfg \<Rightarrow> string \<Rightarrow> recon_spec_row \<Rightarrow> string \<times> string" where
  "reconstruction_paths C tenant r =
     (let root = reconstruction_root C tenant (rs_project_id r) (rs_recon_id r) in (root, subpath root ''sparse''))"

text \<open>\<open>core/path_safety.py\<close>; a drive is one character and a colon.\<close>

definition path_parts :: "string \<Rightarrow> string list" where
  "path_parts s =
     filter (\<lambda>p. p \<noteq> [] \<and> p \<noteq> ''.'')
       (split_on (CHR ''/'') (map (\<lambda>c. if c = CHR 0x5C then CHR ''/'' else c) s))"

definition validate_safe_relative_path :: "string \<Rightarrow> string \<Rightarrow> api_error + string" where
  "validate_safe_relative_path field s =
     (if s = [] then raising ValidationError (field @ '' must be a non-empty relative path'')
      else if CHR 0x00 \<in> set s then raising ValidationError (field @ '' must not contain NUL bytes'')
      else if hd s = CHR ''/'' \<or> hd s = CHR 0x5C \<or> (1 < length s \<and> s ! 1 = CHR '':'')
      then raising ValidationError (field @ '' must be a relative path'')
      else if path_parts s = [] \<or> ''..'' \<in> set (path_parts s)
      then raising ValidationError (field @ '' must stay under the configured root'')
      else Inr s)"

section \<open>Task nodes and single stages\<close>

definition stage_hash :: "stage_cfg \<Rightarrow> json \<Rightarrow> string" where
  "stage_hash C v = hash_inputs (sha256 (sc_env C)) (float_repr (sc_env C)) v"

definition stage_node :: "stage_cfg \<Rightarrow> string \<Rightarrow> string \<Rightarrow> json dict \<Rightarrow> json dict \<Rightarrow> string list \<Rightarrow> task_node" where
  "stage_node C nid k inputs spec deps =
     \<lparr>node_id = nid, node_kind = k,
      node_inputs_hash = stage_hash C (JObj inputs),
      node_params_hash = hash_params (sha256 (sc_env C)) (float_repr (sc_env C)) (JObj spec),
      node_depends_on = deps, node_gpu_required = True,
      node_metadata = [(''inputs'', JObj inputs), (''spec'', JObj spec)]\<rparr>"

text \<open>A request is rejected by a domain error, or the submission of its nodes raises.\<close>

datatype submit_error = Rejected api_error | Submission exn

type_synonym submitted = "stage_state \<times> string \<times> task_row list \<times> string list"

definition checked :: "api_error + 'a \<Rightarrow> submit_error + 'a" where
  "checked r = map_sum Rejected id r"

lemma checked_simps [simp]: "checked (Inl e) = Inl (Rejected e)" "checked (Inr x) = Inr x"
  by (simp_all add: checked_def)

record fresh_ids_of_stage =
  fr_recon :: string
  fr_job :: string
  fr_nodes :: "string list"
  fr_dir :: string

definition submit_nodes ::
  "stage_cfg \<Rightarrow> fresh_ids_of_stage \<Rightarrow> string \<Rightarrow> string \<Rightarrow> string \<Rightarrow> json dict \<Rightarrow> task_node list \<Rightarrow> stage_state \<Rightarrow>
   submit_error + submitted" where
  "submit_nodes C F tenant project rcp spec nodes d =
     map_sum Submission id
       (submit_job_dag (sc_env C) (sc_now C) (fr_job F) [] (sc_runtime_version C) tenant project rcp
          (Some (JObj spec)) nodes d)"

definition submit_single_stage ::
  "stage_cfg \<Rightarrow> fresh_ids_of_stage \<Rightarrow> string \<Rightarrow> string \<Rightarrow> string \<Rightarrow> string \<Rightarrow> json dict \<Rightarrow> json dict \<Rightarrow> stage_state \<Rightarrow>
   submit_error + submitted" where
  "submit_single_stage C F tenant project rcp k inputs spec d =
     submit_nodes C F tenant project rcp spec [stage_node C (hd (fr_nodes F)) k inputs spec []] d"

section \<open>Reconstructions\<close>

definition same_run :: "stage_cfg \<Rightarrow> string \<Rightarrow> dataset_row \<Rightarrow> recon_spec_row \<Rightarrow> bool" where
  "same_run C tenant ds r \<longleftrightarrow>
     rs_tenant_id r = tenant \<and> rs_dataset_id r = dataset_id ds \<and>
     rs_snapshot_hash r = manifest_hash ds \<and> rs_rv_id r = sc_rv_id C"

definition ensure_reconstruction ::
  "stage_cfg \<Rightarrow> string \<Rightarrow> string \<Rightarrow> dataset_row \<Rightarrow> json dict \<Rightarrow> stage_state \<Rightarrow> stage_state \<times> recon_spec_row" where
  "ensure_reconstruction C new_id tenant ds spec d =
     (let t = stage_tables_of d;
          rows = filter (same_run C tenant ds) (recon_specs t) in
      case find (\<lambda>r. stage_hash C (rs_spec_json r) = stage_hash C (JObj spec)) rows of
        Some r \<Rightarrow> (d, r)
      | None \<Rightarrow>
          (let r = \<lparr>rs_recon_id = new_id, rs_tenant_id = tenant, rs_project_id = dataset_project_id ds,
                 rs_dataset_id = dataset_id ds, rs_snapshot_hash = manifest_hash ds,
                 rs_spec_json = JObj spec, rs_rv_id = sc_rv_id C\<rparr> in
           (d\<lparr>resources := (resources d)\<lparr>
                recons := recons (resources d) @ [\<lparr>recon_id = new_id, recon_tenant_id = tenant, recon_status = Running\<rparr>],
                others := t\<lparr>recon_specs := recon_specs t @ [r]\<rparr>\<rparr>\<rparr>, r)))"

text \<open>\<open>_resolve_database_path\<close> does not use its specification.\<close>

definition resolve_database_path ::
  "stage_cfg \<Rightarrow> string \<Rightarrow> string \<Rightarrow> dataset_row \<Rightarrow> json dict \<Rightarrow> stage_state \<Rightarrow> stage_state \<times> recon_spec_row \<times> string" where
  "resolve_database_path C new_id tenant ds spec d =
     (let (d', r) = ensure_reconstruction C new_id tenant ds [] d in
      (d', r, reconstruction_database_path C tenant (dataset_project_id ds) (rs_recon_id r)))"

section \<open>Materialization\<close>

definition order_by_name :: "image_row list \<Rightarrow> image_row list" where
  "order_by_name = sort_key image_name"

definition local_entry :: "image_row \<Rightarrow> api_error + (string \<times> json)" where
  "local_entry i =
     andthen (validate_safe_relative_path ''image name'' (image_name i)) (\<lambda>name.
     andthen (validate_safe_relative_path ''rel_path''
        (case rel_path i of None \<Rightarrow> image_name i | Some p \<Rightarrow> if p = [] then image_name i else p)) (\<lambda>p.
     Inr (name, JStr p)))"

definition derive_materialization :: "string \<Rightarrow> dataset_row \<Rightarrow> stage_state \<Rightarrow> api_error + json dict" where
  "derive_materialization tenant ds d =
     (case find (\<lambda>s. source_id s = dataset_source_id ds) (sources (stage_tables_of d)) of
        None \<Rightarrow> raising ValidationError ''dataset has no source row''
      | Some src \<Rightarrow>
          (let rows = order_by_name (dataset_images tenant (dataset_id ds) d);
               out = [(''kind'', JStr (source_kind src)), (''image_list'', JList (map (JStr \<circ> image_name) rows))];
               root = (case uri_or_root src of None \<Rightarrow> [] | Some u \<Rightarrow> u) in
           if rows = [] then raising ValidationError
             (''dataset has no images registered; add some with POST /v1/datasets/'' @ dataset_id ds @ ''/images first'')
           else if source_kind src = ''upload'' then
             Inr (out @ [(''blob_shas'', JObj (put_all (map (\<lambda>i. (image_name i, JStr (content_sha i))) rows) [])),
                         (''image_root'', JNull)])
           else if source_kind src = ''local'' then
             (if root = [] then raising ValidationError ''local source missing root path''
              else andthen (collect local_entry rows) (\<lambda>entries.
                Inr (out @ [(''image_root'', JStr root), (''rel_paths'', JObj (put_all entries []))])))
           else if source_kind src = ''s3'' then
             (if \<not> starts ''s3://'' root then raising ValidationError ''s3 source missing s3://bucket/prefix uri''
              else Inr (out @ [(''bucket'', JStr (before (CHR ''/'') (drop 5 root))),
                               (''prefix'', JStr (after (CHR ''/'') (drop 5 root))), (''image_root'', JNull)]))
           else raising ValidationError (''unsupported source kind: '' @ source_kind src)))"

section \<open>Specifications\<close>

definition stage_backend_options :: "json dict \<Rightarrow> string \<Rightarrow> api_error + json dict" where
  "stage_backend_options spec stage =
     (case json_or (jget spec ''backend_options'') (JObj []) of
        JObj d \<Rightarrow> Inr d
      | _ \<Rightarrow> raising ValidationError (stage @ ''.backend_options must be an object''))"

fun merge_spec_input_artifacts :: "json list \<Rightarrow> json dict \<Rightarrow> api_error + json dict" where
  "merge_spec_input_artifacts [] merged = Inr merged"
| "merge_spec_input_artifacts (s # ss) merged =
     (case s of
        JNull \<Rightarrow> merge_spec_input_artifacts ss merged
      | JObj d \<Rightarrow> merge_spec_input_artifacts ss (put_all d merged)
      | _ \<Rightarrow> raising ValidationError ''input_artifacts must be an object'')"

text \<open>\<open>str(exc)\<close> of a \<open>KeyError\<close> is the \<open>repr\<close> of its message.\<close>

fun routing_error :: "hub_error \<Rightarrow> api_error" where
  "routing_error (Key_Error msg) = mk_error ValidationError (py_repr msg) []"
| "routing_error (Ambiguity_Error stage cands) =
     mk_error ValidationError
       (stage @ '' has multiple candidate providers: '' @ joins '', '' cands @
        ''; set a plugin-qualified provider selector (provider@plugin) on the request or configure one in a routing profile'')
       [(''candidates'', JList (map JStr cands)),
        (''suggested_fix'', JStr ''set a plugin-qualified provider selector (provider@plugin) on the request or configure one in a routing profile'')]"

definition apply_provider_resolution ::
  "stage_cfg \<Rightarrow> json dict \<Rightarrow> string \<Rightarrow> string \<Rightarrow> string option \<Rightarrow> api_error + json dict" where
  "apply_provider_resolution C spec stage cap project =
     (let requested = (case jget spec ''provider'' of JNull \<Rightarrow> None | v \<Rightarrow> Some (json_text C v)) in
      case resolve_provider stage (Some cap) requested project (Some (sc_workspace C)) (sc_hub C)
             (sc_manifests C) (sc_entry_points C) of
        Inl e \<Rightarrow> Inl (routing_error e)
      | Inr None \<Rightarrow> Inr spec
      | Inr (Some p) \<Rightarrow> Inr (if p = [] then spec else AList.update ''provider'' (JStr p) spec))"

end
