(* ===== verification/Stage_Submits.thy ===== *)
theory Stage_Submits
  imports Stages
begin

text \<open>
  Every submission of the stage services: \<open>services/_sfm_stage_dataset.py\<close> (features, matches,
  verify, projections, imports, the tables of database stages), \<open>_sfm_stage_recon.py\<close> (the
  table of reconstruction stages, localize, merge, cubemap, georegister) and
  \<open>_sfm_stage_recipes.py\<close> with the route that composes a recipe. A request is the JSON its
  pydantic model dumps; a specification that the code mutates in place is returned where the
  caller goes on with it.
\<close>

section \<open>Configurations\<close>

definition check_stage ::
  "stage_cfg \<Rightarrow> string \<Rightarrow> string \<Rightarrow> string option \<Rightarrow> json dict \<Rightarrow> api_error + json dict" where
  "check_stage C stage cap project spec =
     andthen (apply_provider_resolution C spec stage cap project) (\<lambda>spec'.
     andthen (stage_backend_options spec' stage) (\<lambda>options.
     andthen (sc_check_options C stage cap (jget spec' ''provider'') options) (\<lambda>_. Inr spec')))"

definition validate_features_config :: "stage_cfg \<Rightarrow> string option \<Rightarrow> json dict \<Rightarrow> api_error + json dict" where
  "validate_features_config C project spec =
     check_stage C ''features'' (''features.extract.'' @ text_or C spec ''type'' ''sift'') project spec"

definition validate_verify_config :: "stage_cfg \<Rightarrow> string option \<Rightarrow> json dict \<Rightarrow> api_error + json dict" where
  "validate_verify_config C project spec = check_stage C ''verify'' ''matches.verify'' project spec"

definition validate_mapping_config :: "stage_cfg \<Rightarrow> string option \<Rightarrow> json dict \<Rightarrow> api_error + json dict" where
  "validate_mapping_config C project spec =
     check_stage C ''mapping'' (''map.'' @ text_or C spec ''kind'' ''incremental'') project spec"

text \<open>A part that is absent is a fresh dictionary, whose resolved provider is lost.\<close>

definition spec_part :: "json dict \<Rightarrow> string \<Rightarrow> api_error + json dict" where
  "spec_part spec k =
     (case map_of spec k of
        None \<Rightarrow> Inr []
      | Some (JObj d) \<Rightarrow> Inr d
      | Some _ \<Rightarrow> raising ValidationError (''spec.'' @ k @ '' must be a dict''))"

definition put_part :: "string \<Rightarrow> json dict \<Rightarrow> json dict \<Rightarrow> json dict" where
  "put_part k part spec = (if map_of spec k = None then spec else AList.update k (JObj part) spec)"

definition validate_matches_config :: "stage_cfg \<Rightarrow> string option \<Rightarrow> json dict \<Rightarrow> api_error + json dict" where
  "validate_matches_config C project spec =
     andthen (spec_part spec ''pairs'') (\<lambda>pairs.
     andthen (spec_part spec ''matcher'') (\<lambda>matcher.
       let strategy = text_or C pairs ''strategy'' ''exhaustive'';
           matcher_type = text_or C matcher ''type'' ''nn-mutual'' in
       andthen (apply_provider_resolution C pairs ''pairs'' (''pairs.'' @ strategy) project) (\<lambda>pairs'.
       andthen (apply_provider_resolution C matcher ''matcher'' (''matchers.'' @ matcher_type) project) (\<lambda>matcher'.
       andthen (stage_backend_options pairs' ''pairs'') (\<lambda>po.
       andthen (sc_check_options C ''pairs'' (''pairs.'' @ strategy) (jget pairs' ''provider'') po) (\<lambda>_.
       andthen (stage_backend_options matcher' ''matcher'') (\<lambda>mo.
       andthen (sc_check_options C ''matcher'' (''matchers.'' @ matcher_type) (jget matcher' ''provider'') mo) (\<lambda>_.
       Inr (put_part ''matcher'' matcher' (put_part ''pairs'' pairs' spec))))))))))"

section \<open>Features, matches, verify\<close>

definition with_artifacts :: "json dict \<Rightarrow> json dict \<Rightarrow> json dict" where
  "with_artifacts resolved inputs =
     (if resolved = [] then inputs else inputs @ [(''input_artifacts'', JObj resolved)])"

definition resolve_for ::
  "stage_cfg \<Rightarrow> string \<Rightarrow> dataset_row \<Rightarrow> json \<Rightarrow> stage_state \<Rightarrow> api_error + json dict" where
  "resolve_for C tenant ds input d =
     resolve_input_artifacts (sc_format_type C) tenant (Some (dataset_id ds)) (stage_artifacts (resources d)) input"

definition submit_features ::
  "stage_cfg \<Rightarrow> fresh_ids_of_stage \<Rightarrow> string \<Rightarrow> string \<Rightarrow> json dict \<Rightarrow> json \<Rightarrow> stage_state \<Rightarrow>
   submit_error + submitted" where
  "submit_features C F tenant did spec input_artifacts d =
     andthen (checked (get_dataset tenant did None d)) (\<lambda>ds.
     andthen (checked (validate_features_config C (Some (dataset_project_id ds)) spec)) (\<lambda>spec.
       let (d, r) = ensure_reconstruction C (fr_recon F) tenant ds spec d in
     andthen (checked (derive_materialization tenant ds d)) (\<lambda>mat.
       let inputs =
         [(''project_id'', JStr (dataset_project_id ds)), (''dataset_id'', JStr (dataset_id ds)),
          (''recon_id'', JStr (rs_recon_id r)), (''manifest_hash'', JStr (manifest_hash ds)),
          (''materialization'', JObj mat),
          (''database_path'', JStr (reconstruction_database_path C tenant (dataset_project_id ds) (rs_recon_id r)))] in
     andthen (checked (resolve_for C tenant ds (json_or input_artifacts (jget spec ''input_artifacts'')) d)) (\<lambda>resolved.
     submit_single_stage C F tenant (dataset_project_id ds) ''features'' ''extract''
       (with_artifacts resolved inputs) spec d))))"

definition explicit_pair :: "stage_cfg \<Rightarrow> nat \<times> json \<Rightarrow> api_error + (string \<times> string)" where
  "explicit_pair C e =
     (let loc = ''pairs.image_pairs['' @ str_of_nat (fst e) @ '']'' in
      case snd e of
        JObj p \<Rightarrow>
          (let a = text_or C p ''image_name1'' []; b = text_or C p ''image_name2'' [] in
           if a = [] \<or> b = [] then raising ValidationError (loc @ '' requires image_name1 and image_name2'')
           else if a = b then raising ValidationError (loc @ '' must reference two different images'')
           else Inr (a, b))
      | _ \<Rightarrow> raising ValidationError (loc @ '' must be an object''))"

definition explicit_sources :: "json dict \<Rightarrow> json dict \<Rightarrow> bool list" where
  "explicit_sources pairs input_artifacts =
     [truthy (jget pairs ''image_pairs''), truthy (jget pairs ''pairs_blob_sha''),
      truthy (jget input_artifacts ''pairs'')]"

definition validate_explicit_pairs ::
  "stage_cfg \<Rightarrow> string \<Rightarrow> dataset_row \<Rightarrow> json dict \<Rightarrow> json dict \<Rightarrow> stage_state \<Rightarrow> api_error + unit" where
  "validate_explicit_pairs C tenant ds pairs input_artifacts d =
     (let srcs = explicit_sources pairs input_artifacts in
      if jget pairs ''strategy'' \<noteq> JStr ''explicit'' then
        guard (True \<in> set srcs) (mk_error ValidationError
          ''pairs.image_pairs, pairs.pairs_blob_sha, and input_artifacts.pairs require pairs.strategy=explicit'' [])
      else if length (filter id srcs) \<noteq> 1 then
        raising ValidationError (''pairs.strategy=explicit requires exactly one of pairs.image_pairs '' @
          ''or pairs.pairs_blob_sha, or input_artifacts.pairs'')
      else if srcs ! 2 then Inr ()
      else if srcs ! 1 then
        guard (json_text C (jget pairs ''pairs_blob_sha'') \<notin> set (known_blobs (stage_tables_of d)))
          (mk_error ValidationError (''pairs.pairs_blob_sha='' @
             json_repr (float_repr (sc_env C)) (jget pairs ''pairs_blob_sha'') @
             '' does not reference a finalized blob'') [])
      else
        (let ps = (case jget pairs ''image_pairs'' of
              JList xs \<Rightarrow> xs | JObj e \<Rightarrow> map (JStr \<circ> fst) e | JStr s \<Rightarrow> map (\<lambda>c. JStr [c]) s | _ \<Rightarrow> []);
             known = map image_name (dataset_images tenant (dataset_id ds) d) in
         andthen (collect (explicit_pair C) (zip [0..<length ps] ps)) (\<lambda>names.
           let missing = filter (\<lambda>n. n \<notin> set known) (concat (map (\<lambda>(a, b). [a, b]) names)) in
           guard (missing \<noteq> []) (mk_error ValidationError
             (''pairs.image_pairs references unknown dataset images: '' @
              joins '', '' (take 5 (sorted_set missing))) []))))"

definition submit_matches ::
  "stage_cfg \<Rightarrow> fresh_ids_of_stage \<Rightarrow> string \<Rightarrow> string \<Rightarrow> json dict \<Rightarrow> json \<Rightarrow> stage_state \<Rightarrow>
   submit_error + submitted" where
  "submit_matches C F tenant did spec input_artifacts d =
     andthen (checked (get_dataset tenant did None d)) (\<lambda>ds.
     andthen (checked (validate_matches_config C (Some (dataset_project_id ds)) spec)) (\<lambda>spec.
     andthen (checked (spec_part spec ''pairs'')) (\<lambda>pairs.
       let matcher = obj_fields (jget spec ''matcher'') in
     andthen (checked (guard (jget pairs ''strategy'' = JStr ''vocabtree'' \<and> \<not> truthy (jget pairs ''vocab_tree_path''))
       (mk_error ValidationError ''pairs.vocab_tree_path is required for pairs.strategy=vocabtree'' []))) (\<lambda>_.
     andthen (checked (if truthy input_artifacts then Inr input_artifacts
       else map_sum id JObj (merge_spec_input_artifacts
         [jget spec ''input_artifacts'', jget pairs ''input_artifacts'', jget matcher ''input_artifacts''] []))) (\<lambda>raw.
     andthen (checked (validate_explicit_pairs C tenant ds pairs (obj_fields raw) d)) (\<lambda>_.
       let (d, r, db) = resolve_database_path C (fr_recon F) tenant ds spec d in
     andthen (checked (resolve_for C tenant ds raw d)) (\<lambda>resolved.
       let db = (case database_path_from_input_artifacts resolved [''features''] of None \<Rightarrow> db | Some p \<Rightarrow> p);
           inputs =
             [(''dataset_id'', JStr (dataset_id ds)), (''recon_id'', JStr (rs_recon_id r)),
              (''manifest_hash'', JStr (manifest_hash ds)), (''database_path'', JStr db)] in
     submit_single_stage C F tenant (dataset_project_id ds) ''matches'' ''match''
       (with_artifacts resolved inputs) spec d)))))))"

definition submit_verify ::
  "stage_cfg \<Rightarrow> fresh_ids_of_stage \<Rightarrow> string \<Rightarrow> string \<Rightarrow> json dict \<Rightarrow> json \<Rightarrow> stage_state \<Rightarrow>
   submit_error + submitted" where
  "submit_verify C F tenant did spec input_artifacts d =
     andthen (checked (get_dataset tenant did None d)) (\<lambda>ds.
     andthen (checked (validate_verify_config C (Some (dataset_project_id ds)) spec)) (\<lambda>spec.
       let (d, r, db) = resolve_database_path C (fr_recon F) tenant ds spec d in
     andthen (checked (resolve_for C tenant ds (json_or input_artifacts (jget spec ''input_artifacts'')) d)) (\<lambda>resolved.
       let db = (case database_path_from_input_artifacts resolved [''matches''] of None \<Rightarrow> db | Some p \<Rightarrow> p);
           inputs =
             [(''dataset_id'', JStr (dataset_id ds)), (''recon_id'', JStr (rs_recon_id r)),
              (''manifest_hash'', JStr (manifest_hash ds)), (''database_path'', JStr db)] in
     submit_single_stage C F tenant (dataset_project_id ds) ''verify'' ''verify''
       (with_artifacts resolved inputs) spec d)))"

section \<open>Recipes\<close>

definition collect_pose_priors_by_name :: "string \<Rightarrow> string \<Rightarrow> stage_state \<Rightarrow> json dict" where
  "collect_pose_priors_by_name tenant did d =
     put_all (concat (map (\<lambda>i. case pose_prior_json i of
         None \<Rightarrow> []
       | Some p \<Rightarrow> if truthy p then [(image_name i, p)] else []) (dataset_images tenant did d))) []"

definition map_inputs_of ::
  "string \<Rightarrow> string \<Rightarrow> string \<Rightarrow> json dict \<Rightarrow> string \<Rightarrow> json dict \<Rightarrow> json dict \<Rightarrow> json dict" where
  "map_inputs_of project did rid mat db priors inputs =
     with_artifacts inputs
       ([(''project_id'', JStr project), (''recon_id'', JStr rid), (''dataset_id'', JStr did),
         (''database_path'', JStr db), (''materialization'', JObj mat)] @
        (if priors = [] then [] else [(''pose_priors'', JObj priors)]))"

definition matcher_provider :: "json dict \<Rightarrow> json dict" where
  "matcher_provider matches_spec =
     (case jget matches_spec ''matcher'' of
        JObj m \<Rightarrow> (case jget m ''provider'' of
            JStr p \<Rightarrow> AList.update ''provider'' (JStr p) matches_spec
          | _ \<Rightarrow> matches_spec)
      | _ \<Rightarrow> matches_spec)"

definition build_recipe_dag ::
  "stage_cfg \<Rightarrow> fresh_ids_of_stage \<Rightarrow> string \<Rightarrow> string \<Rightarrow> string \<Rightarrow> json dict \<Rightarrow> string \<Rightarrow> json dict \<Rightarrow> json dict \<Rightarrow>
   json dict \<Rightarrow> json dict \<Rightarrow> json dict \<Rightarrow> json dict \<Rightarrow> task_node list" where
  "build_recipe_dag C F project did rid mat db features_spec matches_spec verify_spec pipeline_spec priors inputs =
     (let db_for = (\<lambda>role. case database_path_from_input_artifacts inputs [role] of
            None \<Rightarrow> db | Some p \<Rightarrow> if p = [] then db else p);
          ids = fr_nodes F;
          common = (\<lambda>path. [(''recon_id'', JStr rid), (''dataset_id'', JStr did), (''database_path'', JStr path)]);
          extract = stage_node C (ids ! 0) ''extract'' (with_artifacts inputs
            [(''project_id'', JStr project), (''dataset_id'', JStr did), (''recon_id'', JStr rid),
             (''materialization'', JObj mat), (''database_path'', JStr db)]) features_spec [];
          match = stage_node C (ids ! 1) ''match'' (with_artifacts inputs (common (db_for ''features'')))
            (matcher_provider matches_spec) [node_id extract];
          verify = stage_node C (ids ! 2) ''verify'' (with_artifacts inputs (common (db_for ''matches'')))
            verify_spec [node_id match];
          map_node = stage_node C (ids ! 3) ''map''
            (map_inputs_of project did rid mat (db_for ''verified_matches'') priors inputs)
            pipeline_spec [node_id verify] in
      [extract, match, verify, map_node])"

definition build_feed_forward_dag ::
  "stage_cfg \<Rightarrow> fresh_ids_of_stage \<Rightarrow> string \<Rightarrow> string \<Rightarrow> string \<Rightarrow> json dict \<Rightarrow> string \<Rightarrow> json dict \<Rightarrow>
   json dict \<Rightarrow> json dict \<Rightarrow> task_node list" where
  "build_feed_forward_dag C F project did rid mat db pipeline_spec priors inputs =
     [stage_node C (fr_nodes F ! 0) ''map'' (map_inputs_of project did rid mat db priors inputs) pipeline_spec []]"

record recipe_request =
  rq_dataset_id :: string
  rq_features :: "json dict"
  rq_pairs :: "json dict"
  rq_matcher :: "json dict"
  rq_verify :: "json dict"
  rq_spec :: "json dict"
  rq_input_artifacts :: "json dict"

definition part_artifacts :: "json dict \<Rightarrow> json dict" where
  "part_artifacts spec = obj_fields (jget spec ''input_artifacts'')"

text \<open>What the recipe and the feed-forward branch share once their configurations are checked.\<close>

definition submit_recipe_nodes ::
  "stage_cfg \<Rightarrow> fresh_ids_of_stage \<Rightarrow> string \<Rightarrow> string \<Rightarrow> string \<Rightarrow> dataset_row \<Rightarrow> json dict \<Rightarrow> json dict \<Rightarrow>
   json dict \<Rightarrow> (string \<Rightarrow> json dict \<Rightarrow> string \<Rightarrow> json dict \<Rightarrow> json dict \<Rightarrow> task_node list) \<Rightarrow> stage_state \<Rightarrow>
   submit_error + submitted" where
  "submit_recipe_nodes C F tenant project rcp ds pipeline_spec input job_spec build d =
     andthen (checked (resolve_for C tenant ds (JObj input) d)) (\<lambda>resolved.
     andthen (checked (derive_materialization tenant ds d)) (\<lambda>mat.
       let (d, r) = ensure_reconstruction C (fr_recon F) tenant ds pipeline_spec d;
           db = reconstruction_database_path C tenant project (rs_recon_id r);
           priors = collect_pose_priors_by_name tenant (dataset_id ds) d in
     submit_nodes C F tenant project rcp (with_artifacts resolved job_spec)
       (build (rs_recon_id r) mat db priors resolved) d))"

definition run_recipe ::
  "stage_cfg \<Rightarrow> fresh_ids_of_stage \<Rightarrow> string \<Rightarrow> string \<Rightarrow> string \<Rightarrow> recipe_request \<Rightarrow> stage_state \<Rightarrow>
   submit_error + submitted" where
  "run_recipe C F tenant project rcp q d =
     andthen (checked (guard (jget (rq_spec q) ''kind'' \<noteq> JStr rcp) (mk_error ValidationError
       (''spec.kind='' @ json_text C (jget (rq_spec q) ''kind'') @ '' does not match recipe='' @ rcp) []))) (\<lambda>_.
     andthen (checked (get_dataset tenant (rq_dataset_id q) (Some project) d)) (\<lambda>ds.
     if rcp = ''feed_forward'' then
       andthen (checked (validate_mapping_config C (Some project) (rq_spec q))) (\<lambda>spec.
       submit_recipe_nodes C F tenant project rcp ds spec
         (put_all (rq_input_artifacts q) (part_artifacts (rq_spec q))) [(''spec'', JObj spec)]
         (\<lambda>rid mat db priors resolved.
            build_feed_forward_dag C F project (dataset_id ds) rid mat db spec priors resolved) d)
     else
       andthen (checked (validate_features_config C (Some project) (rq_features q))) (\<lambda>features.
       andthen (checked (validate_matches_config C (Some project)
         [(''pairs'', JObj (rq_pairs q)), (''matcher'', JObj (rq_matcher q))])) (\<lambda>matches.
       andthen (checked (validate_verify_config C (Some project) (rq_verify q))) (\<lambda>verify.
       andthen (checked (validate_mapping_config C (Some project) (rq_spec q))) (\<lambda>spec.
       submit_recipe_nodes C F tenant project rcp ds spec
         (fold put_all [part_artifacts (rq_pairs q), part_artifacts (rq_matcher q), part_artifacts (rq_verify q),
            part_artifacts (rq_spec q), rq_input_artifacts q] (part_artifacts (rq_features q)))
         [(''features'', JObj features), (''matches'', JObj matches), (''verify'', JObj verify), (''spec'', JObj spec)]
         (\<lambda>rid mat db priors resolved.
            build_recipe_dag C F project (dataset_id ds) rid mat db features matches verify spec priors resolved)
         d))))))"

end
