(* ===== verification/Stage_Table.thy ===== *)
theory Stage_Table
  imports Stage_Submits
begin

text \<open>
  The stages that are rows of a table and the bespoke ones: the database stages, the utilities
  and the imports of \<open>services/_sfm_stage_dataset.py\<close> and all of \<open>_sfm_stage_recon.py\<close>. The
  functions that echo the provider return it beside the submission. A projection request is
  given as its pydantic model dumps it.
\<close>

record stage_def =
  sd_kind :: string
  sd_capability :: "stage_cfg \<Rightarrow> json dict \<Rightarrow> string"
  sd_needs_images :: bool

definition with_provider :: "json dict \<Rightarrow> submit_error + submitted \<Rightarrow> submit_error + (submitted \<times> json)" where
  "with_provider spec r = map_sum id (\<lambda>s. (s, jget spec ''provider'')) r"

section \<open>Database stages\<close>

definition DATASET_DB_STAGES :: "stage_def dict" where
  "DATASET_DB_STAGES =
     [(''vocab_tree'', \<lparr>sd_kind = ''vocab_tree'', sd_capability = (\<lambda>_ _. ''index.vocab_tree''), sd_needs_images = False\<rparr>),
      (''configure_rig'', \<lparr>sd_kind = ''configure_rig'', sd_capability = (\<lambda>_ _. ''rigs.configure''), sd_needs_images = False\<rparr>),
      (''two_view'', \<lparr>sd_kind = ''two_view'', sd_capability = (\<lambda>_ _. ''geometry.two_view''), sd_needs_images = False\<rparr>)]"

definition submit_dataset_db_stage ::
  "stage_cfg \<Rightarrow> fresh_ids_of_stage \<Rightarrow> string \<Rightarrow> string \<Rightarrow> string \<Rightarrow> stage_def \<Rightarrow> json dict \<Rightarrow> stage_state \<Rightarrow>
   submit_error + (submitted \<times> json)" where
  "submit_dataset_db_stage C F tenant did rcp stage spec d =
     (let cap = sd_capability stage C spec in
     andthen (checked (require_capability C cap)) (\<lambda>_.
     andthen (checked (get_dataset tenant did None d)) (\<lambda>ds.
       let (d, r, db) = resolve_database_path C (fr_recon F) tenant ds [] d in
     andthen (checked (apply_provider_resolution C spec rcp cap (Some (dataset_project_id ds)))) (\<lambda>spec.
     with_provider spec (submit_single_stage C F tenant (dataset_project_id ds) rcp (sd_kind stage)
       [(''dataset_id'', JStr (dataset_id ds)), (''recon_id'', JStr (rs_recon_id r)), (''database_path'', JStr db),
        (''dataset_dir'', JStr (dataset_root C tenant (dataset_project_id ds) (dataset_id ds)))] spec d)))))"

definition submit_build_vocab_tree ::
  "stage_cfg \<Rightarrow> fresh_ids_of_stage \<Rightarrow> string \<Rightarrow> string \<Rightarrow> json dict \<Rightarrow> stage_state \<Rightarrow>
   submit_error + (submitted \<times> json)" where
  "submit_build_vocab_tree C F tenant did spec d =
     submit_dataset_db_stage C F tenant did ''vocab_tree'' (the (map_of DATASET_DB_STAGES ''vocab_tree'')) spec d"

definition submit_configure_rig ::
  "stage_cfg \<Rightarrow> fresh_ids_of_stage \<Rightarrow> string \<Rightarrow> string \<Rightarrow> json dict \<Rightarrow> stage_state \<Rightarrow>
   submit_error + (submitted \<times> json)" where
  "submit_configure_rig C F tenant did spec d =
     submit_dataset_db_stage C F tenant did ''configure_rig'' (the (map_of DATASET_DB_STAGES ''configure_rig'')) spec d"

definition submit_estimate_two_view ::
  "stage_cfg \<Rightarrow> fresh_ids_of_stage \<Rightarrow> string \<Rightarrow> string \<Rightarrow> json dict \<Rightarrow> stage_state \<Rightarrow>
   submit_error + (submitted \<times> json)" where
  "submit_estimate_two_view C F tenant did spec d =
     submit_dataset_db_stage C F tenant did ''two_view'' (the (map_of DATASET_DB_STAGES ''two_view'')) spec d"

section \<open>Utilities and imports\<close>

definition PROJECTION_CAPABILITIES :: "string dict" where
  "PROJECTION_CAPABILITIES =
     [(''equirectangular_to_cubemap'', ''projection.equirectangular_to_cubemap''),
      (''cubemap_to_equirectangular'', ''projection.cubemap_to_equirectangular''),
      (''equirectangular_to_perspective'', ''projection.equirectangular_to_perspective'')]"

definition submit_project_images ::
  "stage_cfg \<Rightarrow> fresh_ids_of_stage \<Rightarrow> string \<Rightarrow> string \<Rightarrow> string \<Rightarrow> string \<Rightarrow> json dict \<Rightarrow> stage_state \<Rightarrow>
   submit_error + (submitted \<times> json)" where
  "submit_project_images C F tenant did rcp operation spec d =
     (let cap = the (map_of PROJECTION_CAPABILITIES operation) in
     andthen (checked (require_capability C cap)) (\<lambda>_.
     andthen (checked (get_dataset tenant did None d)) (\<lambda>ds.
     andthen (checked (guard (operation \<in> {''equirectangular_to_cubemap'', ''equirectangular_to_perspective''} \<and>
         \<not> is_spherical ds) (mk_error ValidationError
       (operation @ '' is only valid on datasets marked is_spherical=true'') []))) (\<lambda>_.
     andthen (checked (derive_materialization tenant ds d)) (\<lambda>mat.
     andthen (checked (apply_provider_resolution C spec rcp cap (Some (dataset_project_id ds)))) (\<lambda>spec.
     with_provider spec (submit_single_stage C F tenant (dataset_project_id ds) rcp ''project_images''
       [(''dataset_id'', JStr (dataset_id ds)), (''materialization'', JObj mat),
        (''dataset_dir'', JStr (dataset_root C tenant (dataset_project_id ds) (dataset_id ds)))] spec d)))))))"

text \<open>The cubemap options as their model dumps them, without the provider they may have carried.\<close>

definition submit_render_cubemap ::
  "stage_cfg \<Rightarrow> fresh_ids_of_stage \<Rightarrow> string \<Rightarrow> string \<Rightarrow> int option \<Rightarrow> json dict \<Rightarrow> string option \<Rightarrow> string option \<Rightarrow>
   stage_state \<Rightarrow> submit_error + (submitted \<times> json)" where
  "submit_render_cubemap C F tenant did face_size cubemap inner_provider provider d =
     (let cubemap = (case face_size of None \<Rightarrow> cubemap | Some n \<Rightarrow> AList.update ''face_size'' (JInt n) cubemap);
          chosen = (if provider = None \<or> provider = Some [] then inner_provider else provider) in
      submit_project_images C F tenant did ''render_cubemap'' ''equirectangular_to_cubemap''
        [(''operation'', JStr ''equirectangular_to_cubemap''), (''cubemap'', JObj cubemap),
         (''equirectangular'', JNull), (''perspective'', JNull), (''provider'', opt_json JStr chosen)] d)"

text \<open>The body of the imports: a capability, a known project, one task.\<close>

definition submit_import ::
  "stage_cfg \<Rightarrow> fresh_ids_of_stage \<Rightarrow> string \<Rightarrow> string \<Rightarrow> string \<Rightarrow> string \<Rightarrow> json dict \<Rightarrow> json dict \<Rightarrow> stage_state \<Rightarrow>
   submit_error + submitted" where
  "submit_import C F tenant project cap rcp inputs spec d =
     andthen (checked (require_capability C cap)) (\<lambda>_.
     andthen (checked (get_project tenant project d)) (\<lambda>_.
     submit_single_stage C F tenant project rcp rcp inputs spec d))"

definition submit_video_frames ::
  "stage_cfg \<Rightarrow> fresh_ids_of_stage \<Rightarrow> string \<Rightarrow> string \<Rightarrow> string \<Rightarrow> pyfloat \<Rightarrow> int \<Rightarrow> stage_state \<Rightarrow>
   submit_error + submitted" where
  "submit_video_frames C F tenant project video_path fps max_frames d =
     submit_import C F tenant project ''video.frame_extract'' ''video_frames''
       [(''video_path'', JStr video_path),
        (''output_dir'', JStr (subpath (subpath (sc_workspace C) ''_video_frames'') (fr_dir F)))]
       [(''fps'', JFloat fps), (''max_frames'', JInt max_frames)] d"

definition submit_kapture_import ::
  "stage_cfg \<Rightarrow> fresh_ids_of_stage \<Rightarrow> string \<Rightarrow> string \<Rightarrow> string \<Rightarrow> stage_state \<Rightarrow> submit_error + submitted" where
  "submit_kapture_import C F tenant project archive_path d =
     submit_import C F tenant project ''import.kapture'' ''kapture_import''
       [(''archive_path'', JStr archive_path)] [] d"

definition submit_dataset_from_archive ::
  "stage_cfg \<Rightarrow> fresh_ids_of_stage \<Rightarrow> string \<Rightarrow> string \<Rightarrow> string \<Rightarrow> string option \<Rightarrow> string \<Rightarrow> string \<Rightarrow> bool \<Rightarrow>
   string option \<Rightarrow> stage_state \<Rightarrow> submit_error + submitted" where
  "submit_dataset_from_archive C F tenant project blob_sha ds_name camera_model intrinsics_mode spherical image_prefix d =
     submit_import C F tenant project ''import.archive'' ''import_archive''
       [(''blob_sha'', JStr blob_sha),
        (''output_dir'', JStr (subpath (subpath (sc_workspace C) ''_archive_import'') (fr_dir F)))]
       ([(''name'', opt_json JStr ds_name), (''camera_model'', JStr camera_model),
         (''intrinsics_mode'', JStr intrinsics_mode), (''is_spherical'', JBool spherical)] @
        (case image_prefix of None \<Rightarrow> [] | Some p \<Rightarrow> if p = [] then [] else [(''image_prefix'', JStr p)])) d"

definition submit_vlad_index ::
  "stage_cfg \<Rightarrow> fresh_ids_of_stage \<Rightarrow> string \<Rightarrow> string \<Rightarrow> json dict \<Rightarrow> string option \<Rightarrow> stage_state \<Rightarrow>
   submit_error + (submitted \<times> json)" where
  "submit_vlad_index C F tenant did spec provider d =
     andthen (checked (require_capability C ''similarity.vlad'')) (\<lambda>_.
       let spec = (case provider of
             Some p \<Rightarrow> if map_of spec ''provider'' = None then AList.update ''provider'' (JStr p) spec else spec
           | None \<Rightarrow> spec) in
     andthen (checked (get_dataset tenant did None d)) (\<lambda>ds.
     andthen (checked (apply_provider_resolution C spec ''vlad_index'' ''similarity.vlad'' (Some (dataset_project_id ds)))) (\<lambda>spec.
     andthen (checked (derive_materialization tenant ds d)) (\<lambda>mat.
     with_provider spec (submit_single_stage C F tenant (dataset_project_id ds) ''vlad_index'' ''vlad_index''
       [(''dataset_id'', JStr (dataset_id ds)), (''manifest_hash'', JStr (manifest_hash ds)),
        (''materialization'', JObj mat),
        (''image_id_by_name'', JObj (put_all
           (map (\<lambda>i. (image_name i, JStr (image_id i))) (dataset_images tenant (dataset_id ds) d)) [])),
        (''dataset_dir'', JStr (dataset_root C tenant (dataset_project_id ds) (dataset_id ds)))] spec d)))))"

section \<open>Reconstruction stages\<close>

definition BA_MODE_CAPABILITIES :: "string dict" where
  "BA_MODE_CAPABILITIES =
     [(''standard'', ''ba.standard''), (''two_stage'', ''ba.two_stage''),
      (''featuremetric'', ''ba.featuremetric''), (''rig'', ''ba.rig'')]"

definition bundle_adjust_capability :: "stage_cfg \<Rightarrow> json dict \<Rightarrow> string" where
  "bundle_adjust_capability C spec =
     (case map_of BA_MODE_CAPABILITIES (text_or C spec ''mode'' ''standard'') of
        None \<Rightarrow> ''ba.standard'' | Some c \<Rightarrow> c)"

definition export_capability :: "stage_cfg \<Rightarrow> json dict \<Rightarrow> string" where
  "export_capability C spec = ''export.'' @ text_or C spec ''format'' ''ply''"

definition RECON_STAGES :: "stage_def dict" where
  "RECON_STAGES =
     [(''bundle_adjust'', \<lparr>sd_kind = ''ba'', sd_capability = bundle_adjust_capability, sd_needs_images = False\<rparr>),
      (''triangulate'', \<lparr>sd_kind = ''triangulate'', sd_capability = (\<lambda>_ _. ''triangulate.retri''), sd_needs_images = True\<rparr>),
      (''pose_graph_optimize'', \<lparr>sd_kind = ''pgo'', sd_capability = (\<lambda>_ _. ''pgo.optimize''), sd_needs_images = False\<rparr>),
      (''export'', \<lparr>sd_kind = ''export'', sd_capability = export_capability, sd_needs_images = False\<rparr>),
      (''relocalize'', \<lparr>sd_kind = ''relocalize'', sd_capability = (\<lambda>_ _. ''relocalize.images''), sd_needs_images = True\<rparr>),
      (''undistort'', \<lparr>sd_kind = ''undistort'', sd_capability = (\<lambda>_ _. ''image.undistort''), sd_needs_images = True\<rparr>)]"

definition recon_stage_base ::
  "stage_cfg \<Rightarrow> string \<Rightarrow> string \<Rightarrow> bool \<Rightarrow> stage_state \<Rightarrow> api_error + (recon_spec_row \<times> json dict)" where
  "recon_stage_base C tenant rid needs_images d =
     andthen (get_reconstruction tenant rid d) (\<lambda>r.
       let (root, sparse) = reconstruction_paths C tenant r;
           inputs = [(''recon_id'', JStr (rs_recon_id r)), (''reconstruction_root'', JStr root), (''model_path'', JStr sparse)] in
       if \<not> needs_images then Inr (r, inputs)
       else andthen (get_dataset tenant (rs_dataset_id r) None d) (\<lambda>ds.
         andthen (derive_materialization tenant ds d) (\<lambda>mat.
           let image_root = jget mat ''image_root'' in
           if \<not> truthy image_root then raising ValidationError
             (''this stage needs a local image_root; upload sources are not '' @
              ''supported here (the worker can't materialize on demand)'')
           else Inr (r, inputs @ [(''image_root'', image_root),
             (''database_path'', JStr (reconstruction_database_path C tenant (rs_project_id r) (rs_recon_id r)))]))))"

definition submit_recon_stage ::
  "stage_cfg \<Rightarrow> fresh_ids_of_stage \<Rightarrow> string \<Rightarrow> string \<Rightarrow> string \<Rightarrow> stage_def \<Rightarrow> json dict \<Rightarrow> stage_state \<Rightarrow>
   submit_error + (submitted \<times> json)" where
  "submit_recon_stage C F tenant rid rcp stage spec d =
     (let cap = sd_capability stage C spec in
     andthen (checked (require_capability C cap)) (\<lambda>_.
     andthen (checked (recon_stage_base C tenant rid (sd_needs_images stage) d)) (\<lambda>(r, inputs).
     andthen (checked (apply_provider_resolution C spec rcp cap (Some (rs_project_id r)))) (\<lambda>spec.
     with_provider spec (submit_single_stage C F tenant (rs_project_id r) rcp (sd_kind stage) inputs spec d)))))"

definition submit_registered_recon_stage ::
  "stage_cfg \<Rightarrow> fresh_ids_of_stage \<Rightarrow> string \<Rightarrow> string \<Rightarrow> string \<Rightarrow> json dict \<Rightarrow> stage_state \<Rightarrow>
   submit_error + (submitted \<times> json)" where
  "submit_registered_recon_stage C F tenant rid rcp spec d =
     submit_recon_stage C F tenant rid rcp (the (map_of RECON_STAGES rcp)) spec d"

definition submit_bundle_adjust ::
  "stage_cfg \<Rightarrow> fresh_ids_of_stage \<Rightarrow> string \<Rightarrow> string \<Rightarrow> json dict \<Rightarrow> stage_state \<Rightarrow>
   submit_error + (submitted \<times> json)" where
  "submit_bundle_adjust C F tenant rid spec d =
     submit_registered_recon_stage C F tenant rid ''bundle_adjust'' spec d"

definition submit_triangulate ::
  "stage_cfg \<Rightarrow> fresh_ids_of_stage \<Rightarrow> string \<Rightarrow> string \<Rightarrow> json dict \<Rightarrow> stage_state \<Rightarrow>
   submit_error + (submitted \<times> json)" where
  "submit_triangulate C F tenant rid spec d =
     submit_registered_recon_stage C F tenant rid ''triangulate'' spec d"

definition submit_pose_graph_optimize ::
  "stage_cfg \<Rightarrow> fresh_ids_of_stage \<Rightarrow> string \<Rightarrow> string \<Rightarrow> json dict \<Rightarrow> stage_state \<Rightarrow>
   submit_error + (submitted \<times> json)" where
  "submit_pose_graph_optimize C F tenant rid spec d =
     submit_registered_recon_stage C F tenant rid ''pose_graph_optimize'' spec d"

definition submit_export ::
  "stage_cfg \<Rightarrow> fresh_ids_of_stage \<Rightarrow> string \<Rightarrow> string \<Rightarrow> json dict \<Rightarrow> stage_state \<Rightarrow>
   submit_error + (submitted \<times> json)" where
  "submit_export C F tenant rid spec d =
     submit_registered_recon_stage C F tenant rid ''export'' spec d"

definition submit_relocalize ::
  "stage_cfg \<Rightarrow> fresh_ids_of_stage \<Rightarrow> string \<Rightarrow> string \<Rightarrow> json dict \<Rightarrow> stage_state \<Rightarrow>
   submit_error + (submitted \<times> json)" where
  "submit_relocalize C F tenant rid spec d =
     submit_registered_recon_stage C F tenant rid ''relocalize'' spec d"

definition submit_undistort ::
  "stage_cfg \<Rightarrow> fresh_ids_of_stage \<Rightarrow> string \<Rightarrow> string \<Rightarrow> json dict \<Rightarrow> stage_state \<Rightarrow>
   submit_error + (submitted \<times> json)" where
  "submit_undistort C F tenant rid spec d =
     submit_registered_recon_stage C F tenant rid ''undistort'' spec d"

definition submit_localize ::
  "stage_cfg \<Rightarrow> fresh_ids_of_stage \<Rightarrow> string \<Rightarrow> string \<Rightarrow> string \<Rightarrow> json dict \<Rightarrow> stage_state \<Rightarrow>
   submit_error + (submitted \<times> json)" where
  "submit_localize C F tenant rid blob_sha spec d =
     andthen (checked (require_capability C ''localize.from_memory'')) (\<lambda>_.
     andthen (checked (get_reconstruction tenant rid d)) (\<lambda>r.
     andthen (checked (apply_provider_resolution C spec ''localize'' ''localize.from_memory'' (Some (rs_project_id r)))) (\<lambda>spec.
     with_provider spec (submit_single_stage C F tenant (rs_project_id r) ''localize'' ''localize''
       [(''recon_id'', JStr (rs_recon_id r)), (''sparse_dir'', JStr (snd (reconstruction_paths C tenant r))),
        (''blob_sha'', JStr blob_sha)] spec d))))"

definition merge_source :: "stage_cfg \<Rightarrow> string \<Rightarrow> string \<Rightarrow> stage_state \<Rightarrow> string \<Rightarrow> api_error + string" where
  "merge_source C tenant project d rid =
     andthen (get_reconstruction tenant rid d) (\<lambda>r.
       if rs_project_id r \<noteq> project then raising ValidationError
         (''merge: source recon '' @ rid @ '' is in a different project than target'')
       else Inr (snd (reconstruction_paths C tenant r)))"

definition optional_provider :: "string option \<Rightarrow> json dict \<Rightarrow> json dict" where
  "optional_provider provider spec = (case provider of None \<Rightarrow> spec | Some p \<Rightarrow> AList.update ''provider'' (JStr p) spec)"

definition submit_merge_recons ::
  "stage_cfg \<Rightarrow> fresh_ids_of_stage \<Rightarrow> string \<Rightarrow> string \<Rightarrow> string list \<Rightarrow> json list \<Rightarrow> string option \<Rightarrow> stage_state \<Rightarrow>
   submit_error + (submitted \<times> json)" where
  "submit_merge_recons C F tenant target_id source_ids aligners provider d =
     andthen (checked (require_capability C ''recon.merge'')) (\<lambda>_.
     andthen (checked (get_reconstruction tenant target_id d)) (\<lambda>target.
     andthen (checked (collect (merge_source C tenant (rs_project_id target) d) source_ids)) (\<lambda>dirs.
     andthen (checked (apply_provider_resolution C (optional_provider provider [(''sim3_aligners'', JList aligners)])
        ''merge_recons'' ''recon.merge'' (Some (rs_project_id target)))) (\<lambda>spec.
     with_provider spec (submit_single_stage C F tenant (rs_project_id target) ''merge_recons'' ''merge_recons''
       [(''target_recon_id'', JStr (rs_recon_id target)),
        (''target_reconstruction_root'', JStr (fst (reconstruction_paths C tenant target))),
        (''source_sparse_dirs'', JList (map JStr dirs))] spec d)))))"

definition submit_to_cubemap ::
  "stage_cfg \<Rightarrow> fresh_ids_of_stage \<Rightarrow> string \<Rightarrow> string \<Rightarrow> string option \<Rightarrow> stage_state \<Rightarrow>
   submit_error + (submitted \<times> json)" where
  "submit_to_cubemap C F tenant rid provider d =
     andthen (checked (require_capability C ''projection.cubemap_rig'')) (\<lambda>_.
     andthen (checked (get_reconstruction tenant rid d)) (\<lambda>r.
     andthen (checked (get_dataset tenant (rs_dataset_id r) None d)) (\<lambda>ds.
     andthen (checked (guard (\<not> is_spherical ds) (mk_error ValidationError
       ''to_cubemap is only valid on datasets marked is_spherical=true'' []))) (\<lambda>_.
     andthen (checked (derive_materialization tenant ds d)) (\<lambda>mat.
     andthen (checked (guard (\<not> truthy (jget mat ''image_root'')) (mk_error ValidationError
       (''to_cubemap needs a local image_root; upload sources are not '' @
        ''supported yet (worker can't materialize on demand here)'') []))) (\<lambda>_.
     andthen (checked (apply_provider_resolution C (optional_provider provider []) ''to_cubemap''
        ''projection.cubemap_rig'' (Some (rs_project_id r)))) (\<lambda>spec.
     with_provider spec (submit_single_stage C F tenant (rs_project_id r) ''to_cubemap'' ''to_cubemap''
       [(''recon_id'', JStr (rs_recon_id r)),
        (''reconstruction_root'', JStr (fst (reconstruction_paths C tenant r))),
        (''sparse_dir'', JStr (snd (reconstruction_paths C tenant r))),
        (''image_root'', jget mat ''image_root'')] spec d))))))))"

definition submit_georegister ::
  "stage_cfg \<Rightarrow> fresh_ids_of_stage \<Rightarrow> string \<Rightarrow> string \<Rightarrow> json dict \<Rightarrow> stage_state \<Rightarrow>
   submit_error + (submitted \<times> json)" where
  "submit_georegister C F tenant rid spec d =
     (let cap = (if text_or C spec ''mode'' ''sim3'' = ''gps'' then ''georegister.gps'' else ''georegister.sim3'') in
     andthen (checked (require_capability C cap)) (\<lambda>_.
     andthen (checked (get_reconstruction tenant rid d)) (\<lambda>r.
     andthen (checked (apply_provider_resolution C spec ''georegister'' cap (Some (rs_project_id r)))) (\<lambda>spec.
     with_provider spec (submit_single_stage C F tenant (rs_project_id r) ''georegister'' ''georegister''
       ([(''recon_id'', JStr (rs_recon_id r)),
         (''reconstruction_root'', JStr (fst (reconstruction_paths C tenant r))),
         (''sparse_dir'', JStr (snd (reconstruction_paths C tenant r)))] @
        (if truthy (jget spec ''sim3'') then [(''sim3'', jget spec ''sim3'')] else [])) spec d)))))"

end
