(* ===== verification/Json_Text.thy ===== *)
theory Json_Text
  imports Hashing
begin

text \<open>
  The canonical text of \<open>core/hashing.py\<close> determines the value it was printed from, up to the
  order of the keys of objects. So two requests share a cache entry only when they agree on
  their inputs and parameters, or when two texts collide under SHA-256.
\<close>

section \<open>Values up to the order of keys\<close>

fun norm_json :: "json \<Rightarrow> json" where
  "norm_json (JList xs) = JList (map norm_json xs)"
| "norm_json (JObj kvs) = JObj (sort_key fst (map (\<lambda>(k, v). (k, norm_json v)) kvs))"
| "norm_json v = v"

text \<open>
  What \<open>repr\<close> of a finite float guarantees: its text is made of the characters of a number,
  has a point or an exponent, and determines the float.
\<close>

definition number_chars :: string where
  "number_chars = ''0123456789.e+-''"

definition float_printer :: "(rat \<Rightarrow> string) \<Rightarrow> bool" where
  "float_printer fr \<longleftrightarrow>
     inj fr \<and> (\<forall>q. set (fr q) \<subseteq> set number_chars \<and> (CHR ''.'' \<in> set (fr q) \<or> CHR ''e'' \<in> set (fr q)))"

section \<open>Texts that end where a separator follows\<close>

definition boundary :: "string \<Rightarrow> bool" where
  "boundary x \<longleftrightarrow> x = [] \<or> hd x \<in> {CHR '','', CHR '']'', CHR 0x7D}"

lemma boundary_simps [simp]: "boundary []" "boundary (CHR '','' # x)" "boundary (CHR '']'' # x)"
  "boundary (CHR 0x7D # x)"
  by (simp_all add: boundary_def)

lemma token_decode:
  assumes "s @ x = t @ y" and "boundary x" and "boundary y"
    and "\<forall>c \<in> set s. c \<notin> {CHR '','', CHR '']'', CHR 0x7D}"
    and "\<forall>c \<in> set t. c \<notin> {CHR '','', CHR '']'', CHR 0x7D}"
  shows "s = t \<and> x = y"
proof -
  let ?in = "\<lambda>c. c \<notin> {CHR '','', CHR '']'', CHR 0x7D}"
  have tw: "takeWhile ?in (u @ z) = u" if "\<forall>c \<in> set u. ?in c" "boundary z" for u z
    using that by (cases z) (auto simp: boundary_def)
  have "s = t" using tw [OF assms(4,2)] tw [OF assms(5,3)] assms(1) by simp
  with assms(1) show ?thesis by simp
qed

section \<open>Scalars\<close>

lemma digits_number: "digits s \<Longrightarrow> set s \<subseteq> set ''0123456789''"
proof
  fix c assume "digits s" "c \<in> set s"
  then obtain n where "c = digit n" by (auto simp: digits_def)
  moreover have "''0123456789'' ! (n mod 10) \<in> set ''0123456789''"
    by (rule nth_mem) simp
  ultimately show "c \<in> set ''0123456789''" by (simp only: digit.simps)
qed

lemma nat_chars: "set (str_of_nat n) \<subseteq> set ''0123456789''"
  by (rule digits_number) (rule str_of_nat_digits)

lemma int_chars: "set (str_of_int i) \<subseteq> insert (CHR ''-'') (set ''0123456789'')"
proof (cases "i < 0")
  case True
  then have "set (str_of_int i) = insert (CHR ''-'') (set (str_of_nat (nat (- i))))" by (simp add: str_of_int_def)
  then show ?thesis using nat_chars by (simp only: insert_mono)
next
  case False
  then have "set (str_of_int i) = set (str_of_nat (nat i))" by (simp add: str_of_int_def)
  then show ?thesis using nat_chars by (simp only: subset_insertI2)
qed

lemma str_of_nat_inj: "str_of_nat m = str_of_nat n \<Longrightarrow> m = n"
  by (metis fold_digits of_nat_eq_iff)

lemma str_of_int_inj: "str_of_int i = str_of_int j \<Longrightarrow> i = j"
proof -
  have neg: "CHR ''-'' # s \<noteq> str_of_nat n" for s n
  proof
    assume "CHR ''-'' # s = str_of_nat n"
    then have "CHR ''-'' \<in> set (str_of_nat n)" by (metis list.set_intros(1))
    then have "CHR ''-'' \<in> set ''0123456789''" using nat_chars by blast
    then show False by simp
  qed
  assume "str_of_int i = str_of_int j"
  then show ?thesis
    by (auto simp: str_of_int_def neg neg [symmetric] dest!: str_of_nat_inj split: if_splits)
qed

fun scalar :: "json \<Rightarrow> bool" where
  "scalar (JStr s) = False"
| "scalar (JList xs) = False"
| "scalar (JObj d) = False"
| "scalar v = True"

fun word :: "json \<Rightarrow> bool" where
  "word (JInt i) = False"
| "word (JFloat (Fin q)) = False"
| "word v = scalar v"

lemma word_chars:
  assumes "word v"
  shows "\<exists>c \<in> set (canonical_json fr v). c \<notin> set number_chars"
    and "\<forall>c \<in> set (canonical_json fr v). c \<notin> set ('','' @ '']'' @ [CHR 0x7D, CHR 0x22, CHR ''['', CHR 0x7B])"
  using assms by (cases v rule: word.cases; simp add: number_chars_def split: if_split)+

lemma number_chars_of:
  assumes "float_printer fr" and "scalar v" and "\<not> word v"
  shows "set (canonical_json fr v) \<subseteq> set number_chars"
proof -
  have "insert (CHR ''-'') (set ''0123456789'') \<subseteq> set number_chars" by (simp add: number_chars_def)
  then have "set (str_of_int i) \<subseteq> set number_chars" for i by (rule subset_trans [OF int_chars])
  moreover have "set (fr q) \<subseteq> set number_chars" for q using assms(1) unfolding float_printer_def by blast
  moreover have "(\<exists>i. v = JInt i) \<or> (\<exists>q. v = JFloat (Fin q))"
    using assms(2,3) by (cases v rule: word.cases) simp_all
  ultimately show ?thesis by (elim disjE exE) (simp_all only: canonical_json.simps float_text.simps)
qed

lemma word_iff:
  assumes "float_printer fr" and "scalar v"
  shows "word v \<longleftrightarrow> \<not> set (canonical_json fr v) \<subseteq> set number_chars"
  using word_chars(1) [of v fr] number_chars_of [OF assms] by blast

lemma scalar_inj:
  assumes "float_printer fr" and "scalar v" and "scalar w"
    and "canonical_json fr v = canonical_json fr w"
  shows "v = w"
proof -
  have same: "word v \<longleftrightarrow> word w"
    using word_iff [OF assms(1,2)] word_iff [OF assms(1,3)] assms(4) by simp
  show ?thesis
  proof (cases "word v")
    case True
    with same assms(4) show ?thesis
      by (cases v rule: word.cases; cases w rule: word.cases) (auto split: if_splits)
  next
    case False
    have float: "CHR ''.'' \<in> set (fr q) \<or> CHR ''e'' \<in> set (fr q)" and "inj fr" for q
      using assms(1) by (auto simp: float_printer_def)
    have "CHR ''.'' \<notin> insert (CHR ''-'') (set ''0123456789'')" "CHR ''e'' \<notin> insert (CHR ''-'') (set ''0123456789'')"
      by simp_all
    then have int: "CHR ''.'' \<notin> set (str_of_int i)" "CHR ''e'' \<notin> set (str_of_int i)" for i
      using int_chars [of i] by blast+
    have mix: "str_of_int i \<noteq> fr q" for i q using float [of q] int [of i] by metis
    with False same assms(2-4) show ?thesis
      by (cases v rule: word.cases; cases w rule: word.cases)
        (auto dest: str_of_int_inj injD [OF \<open>inj fr\<close>] simp: mix [symmetric])
  qed
qed

lemma scalar_ends:
  assumes "float_printer fr" and "scalar v"
  shows "\<forall>c \<in> set (canonical_json fr v). c \<notin> set ('','' @ '']'' @ [CHR 0x7D, CHR 0x22, CHR ''['', CHR 0x7B])"
proof (cases "word v")
  case True
  then show ?thesis by (rule word_chars(2))
next
  case False
  then show ?thesis using number_chars_of [OF assms False] by (auto simp: number_chars_def)
qed

lemma scalar_decode:
  assumes "float_printer fr" and "scalar v" and "scalar w" and "boundary x" and "boundary y"
    and "canonical_json fr v @ x = canonical_json fr w @ y"
  shows "v = w \<and> x = y"
proof -
  have "canonical_json fr v = canonical_json fr w \<and> x = y"
    using token_decode [OF assms(6,4,5)] scalar_ends [OF assms(1,2)] scalar_ends [OF assms(1,3)] by auto
  then show ?thesis using scalar_inj [OF assms(1-3)] by blast
qed

section \<open>Sequences\<close>

lemma joins_Cons: "joins sep (s # ss) @ r = s @ (if ss = [] then r else sep @ joins sep ss @ r)"
  by (cases ss) simp_all

lemma joins_decode:
  assumes "\<And>a b x y. a \<in> set as \<Longrightarrow> boundary x \<Longrightarrow> boundary y \<Longrightarrow> f a @ x = f b @ y \<Longrightarrow> g a = g b \<and> x = y"
    and "\<And>a. f a \<noteq> [] \<and> hd (f a) \<noteq> cl" and "cl \<in> {CHR '']'', CHR 0x7D}"
    and "joins '','' (map f as) @ cl # x = joins '','' (map f bs) @ cl # y"
  shows "map g as = map g bs \<and> x = y"
  using assms(1,4)
proof (induction as arbitrary: bs)
  case Nil
  show ?case
  proof (cases bs)
    case (Cons b bs')
    then have "f b @ (if bs' = [] then cl # y else '','' @ joins '','' (map f bs') @ cl # y) = cl # x"
      using Nil.prems(2) by (simp add: joins_Cons)
    then show ?thesis using assms(2) [of b] by (cases "f b") auto
  qed (use Nil in simp)
next
  case (Cons a as)
  show ?case
  proof (cases bs)
    case Nil
    then have "f a @ (if as = [] then cl # x else '','' @ joins '','' (map f as) @ cl # x) = cl # y"
      using Cons.prems(2) by (simp add: joins_Cons)
    then show ?thesis using assms(2) [of a] by (cases "f a") auto
  next
    case (Cons b bs')
    let ?x = "if as = [] then cl # x else '','' @ joins '','' (map f as) @ cl # x"
    let ?y = "if bs' = [] then cl # y else '','' @ joins '','' (map f bs') @ cl # y"
    have bd: "boundary ?x" "boundary ?y" using assms(3) by auto
    have eq: "f a @ ?x = f b @ ?y" using Cons.prems(2) Cons by (simp add: joins_Cons)
    from Cons.prems(1) [OF list.set_intros(1) bd eq] have ab: "g a = g b" "?x = ?y" by blast+
    have sep: "cl \<noteq> CHR '',''" using assms(3) by auto
    show ?thesis
    proof (cases "as = [] \<or> bs' = []")
      case True
      with ab sep show ?thesis by (auto simp: Cons split: if_splits)
    next
      case False
      with ab have "joins '','' (map f as) @ cl # x = joins '','' (map f bs') @ cl # y" by simp
      have "map g as = map g bs' \<and> x = y"
        by (rule Cons.IH [OF _ \<open>joins '','' (map f as) @ cl # x = joins '','' (map f bs') @ cl # y\<close>])
          (rule Cons.prems(1), simp_all)
      with ab(1) show ?thesis by (simp add: Cons)
    qed
  qed
qed

section \<open>Decoding\<close>

definition entry_text :: "(rat \<Rightarrow> string) \<Rightarrow> string \<times> json \<Rightarrow> string" where
  "entry_text fr e = json_str (fst e) @ '':'' @ canonical_json fr (snd e)"

lemma sort_key_map: "sort_key f (map h xs) = map h (sort_key (\<lambda>x. f (h x)) xs)"
proof -
  have "insort_key f (h x) (map h ys) = map h (insort_key (\<lambda>x. f (h x)) x ys)" for x ys
    by (induction ys) auto
  then show ?thesis by (induction xs) auto
qed

lemma canonical_obj:
  "canonical_json fr (JObj kvs) = CHR 0x7B # joins '','' (map (entry_text fr) (sort_key fst kvs)) @ [CHR 0x7D]"
proof -
  have "(\<lambda>(k, v). (k, json_str k @ '':'' @ canonical_json fr v)) = (\<lambda>e. (fst e, entry_text fr e))"
    by (simp add: fun_eq_iff entry_text_def)
  then show ?thesis by (simp only: canonical_json.simps sort_key_map map_map comp_def fst_conv snd_conv)
qed

lemma norm_obj: "norm_json (JObj kvs) = JObj (map (\<lambda>e. (fst e, norm_json (snd e))) (sort_key fst kvs))"
proof -
  have "(\<lambda>(k, v). (k, norm_json v)) = (\<lambda>e. (fst e, norm_json (snd e)))" by (simp add: fun_eq_iff)
  then show ?thesis by (simp only: norm_json.simps sort_key_map case_prod_unfold fst_conv)
qed

declare norm_json.simps(2) [simp del] canonical_json.simps(7) [simp del]

text \<open>The first character of a text tells scalars, strings, lists and objects apart.\<close>

definition opener :: "json \<Rightarrow> char option" where
  "opener v = (case v of JStr s \<Rightarrow> Some (CHR 0x22) | JList xs \<Rightarrow> Some (CHR ''['')
     | JObj d \<Rightarrow> Some (CHR 0x7B) | _ \<Rightarrow> None)"

lemma scalar_nonempty: "float_printer fr \<Longrightarrow> scalar v \<Longrightarrow> canonical_json fr v \<noteq> []"
proof -
  assume fr: "float_printer fr" and "scalar v"
  have "fr q \<noteq> []" for q using fr unfolding float_printer_def by (metis empty_iff empty_set)
  moreover have "str_of_int i \<noteq> []" for i by (simp add: str_of_int_def str_of_nat_nonempty)
  ultimately show ?thesis using \<open>scalar v\<close> by (cases v rule: word.cases) simp_all
qed

lemma canonical_hd:
  assumes "float_printer fr"
  shows "canonical_json fr v \<noteq> []"
    and "hd (canonical_json fr v) \<notin> {CHR '']'', CHR 0x7D}"
    and "(if hd (canonical_json fr v) \<in> {CHR 0x22, CHR ''['', CHR 0x7B} then Some (hd (canonical_json fr v)) else None)
       = opener v"
proof -
  have sc: "canonical_json fr v \<noteq> []" "hd (canonical_json fr v) \<notin> set ('','' @ '']'' @ [CHR 0x7D, CHR 0x22, CHR ''['', CHR 0x7B])"
    if "scalar v"
    using scalar_nonempty [OF assms that] scalar_ends [OF assms that] hd_in_set by blast+
  have "scalar v \<or> (\<exists>s. v = JStr s) \<or> (\<exists>xs. v = JList xs) \<or> (\<exists>d. v = JObj d)" by (cases v) auto
  then show "canonical_json fr v \<noteq> []"
    and "hd (canonical_json fr v) \<notin> {CHR '']'', CHR 0x7D}"
    and "(if hd (canonical_json fr v) \<in> {CHR 0x22, CHR ''['', CHR 0x7B} then Some (hd (canonical_json fr v)) else None)
       = opener v"
    using sc by (auto simp: json_str_def canonical_obj opener_def split: json.splits)
qed

lemma opener_same:
  assumes "float_printer fr" and "canonical_json fr v @ x = canonical_json fr w @ y"
  shows "opener v = opener w"
proof -
  have "hd (canonical_json fr v) = hd (canonical_json fr w)"
    using assms(2) canonical_hd(1) [OF assms(1)] by (metis hd_append2)
  then show ?thesis using canonical_hd(3) [OF assms(1)] by metis
qed

lemma scalar_case:
  assumes "float_printer fr" and "scalar v" and "canonical_json fr v @ x = canonical_json fr w @ y"
    and "boundary x" and "boundary y"
  shows "norm_json v = norm_json w \<and> x = y"
proof -
  have "scalar u \<longleftrightarrow> opener u = None" for u by (cases u) (simp_all add: opener_def)
  then have "scalar w" using opener_same [OF assms(1,3)] assms(2) by simp
  then show ?thesis using scalar_decode [OF assms(1,2) _ assms(4,5,3)] by blast
qed

lemma canonical_decode:
  assumes fr: "float_printer fr"
  shows "canonical_json fr v @ x = canonical_json fr w @ y \<Longrightarrow> boundary x \<Longrightarrow> boundary y \<Longrightarrow>
    norm_json v = norm_json w \<and> x = y"
proof (induction v arbitrary: w x y)
  case (JStr s)
  then obtain t where "w = JStr t"
    using opener_same [OF fr JStr.prems(1)] by (auto simp: opener_def split: json.splits)
  with JStr show ?case using json_str_decodable [of s x t y] by simp
next
  case (JList xs)
  then obtain ws where w: "w = JList ws"
    using opener_same [OF fr JList.prems(1)] by (auto simp: opener_def split: json.splits)
  have "map norm_json xs = map norm_json ws \<and> x = y"
  proof (rule joins_decode [where f = "canonical_json fr" and cl = "CHR '']''"])
    show "joins '','' (map (canonical_json fr) xs) @ CHR '']'' # x = joins '','' (map (canonical_json fr) ws) @ CHR '']'' # y"
      using JList.prems(1) by (simp add: w)
  next
    fix a b u z
    assume "a \<in> set xs" and "boundary u" "boundary z"
      and "canonical_json fr a @ u = canonical_json fr b @ z"
    then show "norm_json a = norm_json b \<and> u = z" by (intro JList.IH)
  next
    show "canonical_json fr a \<noteq> [] \<and> hd (canonical_json fr a) \<noteq> CHR '']''" for a
      using canonical_hd(1,2) [OF fr, of a] by simp
  qed simp
  then show ?case by (simp add: w)
next
  case (JObj kvs)
  then obtain ws where w: "w = JObj ws"
    using opener_same [OF fr JObj.prems(1)] by (auto simp: opener_def split: json.splits)
  let ?g = "\<lambda>e. (fst e, norm_json (snd e))"
  have "map ?g (sort_key fst kvs) = map ?g (sort_key fst ws) \<and> x = y"
  proof (rule joins_decode [where f = "entry_text fr" and cl = "CHR 0x7D"])
    show "joins '','' (map (entry_text fr) (sort_key fst kvs)) @ CHR 0x7D # x =
        joins '','' (map (entry_text fr) (sort_key fst ws)) @ CHR 0x7D # y"
      using JObj.prems(1) by (simp add: w canonical_obj)
  next
    fix a b :: "string \<times> json" and u z
    assume a: "a \<in> set (sort_key fst kvs)" and bd: "boundary u" "boundary z"
      and eq: "entry_text fr a @ u = entry_text fr b @ z"
    from eq have "fst a = fst b" and "canonical_json fr (snd a) @ u = canonical_json fr (snd b) @ z"
      using json_str_decodable [of "fst a" "CHR '':'' # canonical_json fr (snd a) @ u" "fst b"]
      by (auto simp: entry_text_def)
    moreover have "snd a \<in> Basic_BNFs.snds a" and "a \<in> set kvs" using a by (simp_all add: snds.simps prod_eq_iff)
    ultimately show "?g a = ?g b \<and> u = z" using JObj.IH [OF _ _ _ bd] by simp
  qed (auto simp: entry_text_def json_str_def)
  then show ?case by (simp add: w norm_obj)
next
  case JNull
  then show ?case by (intro scalar_case [OF fr]) simp_all
next
  case (JBool b)
  then show ?case by (intro scalar_case [OF fr]) simp_all
next
  case (JInt i)
  then show ?case by (intro scalar_case [OF fr]) simp_all
next
  case (JFloat f)
  then show ?case by (intro scalar_case [OF fr]) simp_all
qed

lemma canonical_json_inj:
  "float_printer fr \<Longrightarrow> canonical_json fr v = canonical_json fr w \<Longrightarrow> norm_json v = norm_json w"
  using canonical_decode [of fr v "[]" w "[]"] by simp

text \<open>The text does not see the order of keys.\<close>

lemma canonical_norm: "canonical_json fr (norm_json v) = canonical_json fr v"
proof (induction v)
  case (JObj kvs)
  let ?g = "\<lambda>e. (fst e, norm_json (snd e))"
  have sorted: "sort_key fst (map ?g (sort_key fst kvs)) = map ?g (sort_key fst kvs)"
    by (rule sort_key_id_if_sorted) (simp add: comp_def)
  have "entry_text fr (?g e) = entry_text fr e" if "e \<in> set kvs" for e
    using that JObj.IH [of e "snd e"] by (simp add: entry_text_def snds.simps prod_eq_iff)
  then have "map (entry_text fr) (map ?g (sort_key fst kvs)) = map (entry_text fr) (sort_key fst kvs)"
    by simp
  then show ?case unfolding norm_obj canonical_obj sorted by (simp only:)
qed (simp_all cong: map_cong)

lemma same_json_same_text: "norm_json v = norm_json w \<Longrightarrow> canonical_json fr v = canonical_json fr w"
  by (metis canonical_norm)

text \<open>Two given texts differ and have one digest.\<close>

definition clash :: "(string \<Rightarrow> string) \<Rightarrow> string \<Rightarrow> string \<Rightarrow> bool" where
  "clash sha t t' \<longleftrightarrow> t \<noteq> t' \<and> sha t = sha t'"

lemma same_digest: "sha t = sha t' \<longleftrightarrow> t = t' \<or> clash sha t t'"
  by (auto simp: clash_def)

lemma same_hash_iff:
  assumes "float_printer fr"
  shows "sha (canonical_json fr v) = sha (canonical_json fr w) \<longleftrightarrow>
    norm_json v = norm_json w \<or> clash sha (canonical_json fr v) (canonical_json fr w)"
  unfolding same_digest using canonical_json_inj [OF assms] same_json_same_text by blast

text \<open>The text that a cache key is the digest of.\<close>

definition cache_text :: "(rat \<Rightarrow> string) \<Rightarrow> task_node \<Rightarrow> string \<Rightarrow> string" where
  "cache_text fr n rv = canonical_json fr (cache_payload (node_kind n) (node_inputs_hash n) (node_params_hash n) rv)"

lemma cache_key_text: "cache_key sha fr n rv = sha (cache_text fr n rv)"
  by (simp add: cache_key_def content_address_def cache_text_def)

lemma same_key_iff:
  "cache_key sha fr n rv = cache_key sha fr n' rv' \<longleftrightarrow>
     (node_kind n = node_kind n' \<and> rv = rv' \<and> node_inputs_hash n = node_inputs_hash n' \<and> node_params_hash n = node_params_hash n') \<or>
     clash sha (cache_text fr n rv) (cache_text fr n' rv')"
proof -
  have "cache_text fr n rv = cache_text fr n' rv' \<longleftrightarrow>
      node_kind n = node_kind n' \<and> rv = rv' \<and> node_inputs_hash n = node_inputs_hash n' \<and> node_params_hash n = node_params_hash n'"
    using cache_payload_inj [of fr "node_kind n" "node_inputs_hash n" "node_params_hash n" rv] unfolding cache_text_def by metis
  then show ?thesis unfolding cache_key_text same_digest by simp
qed

lemmas hash_defs = hash_inputs_def hash_params_def content_address_def

text \<open>
  C28. Two task nodes whose hashes were made from their inputs and parameters share a cache key
  if and only if they agree on the kind, the runtime version and, up to the order of keys, on
  the inputs and the parameters, or else two of the very texts that were hashed for these two
  nodes differ and have one SHA-256 digest. The printer of floats is assumed to give different
  numbers different texts made of the characters of a number, which is what \<open>repr\<close> of a float
  promises.
\<close>

theorem same_key_same_request:
  assumes "float_printer fr"
    and "node_inputs_hash n = hash_inputs sha fr inputs" and "node_params_hash n = hash_params sha fr spec"
    and "node_inputs_hash n' = hash_inputs sha fr inputs'" and "node_params_hash n' = hash_params sha fr spec'"
  shows "cache_key sha fr n rv = cache_key sha fr n' rv' \<longleftrightarrow>
    node_kind n = node_kind n' \<and> rv = rv' \<and>
    (norm_json inputs = norm_json inputs' \<or> clash sha (canonical_json fr inputs) (canonical_json fr inputs')) \<and>
    (norm_json spec = norm_json spec' \<or> clash sha (canonical_json fr spec) (canonical_json fr spec')) \<or>
    clash sha (cache_text fr n rv) (cache_text fr n' rv')"
  unfolding same_key_iff assms(2-5) hash_defs same_hash_iff [OF assms(1)] by blast

text \<open>A printer with the required guarantee: numerator, point, denominator.\<close>

definition demo_printer :: "rat \<Rightarrow> string" where
  "demo_printer q = str_of_int (fst (quotient_of q)) @ CHR ''.'' # str_of_int (snd (quotient_of q))"

lemma demo_printer: "float_printer demo_printer"
proof -
  have dot: "CHR ''.'' \<notin> set (str_of_int i)" for i
  proof -
    have "CHR ''.'' \<notin> insert (CHR ''-'') (set ''0123456789'')" by simp
    then show ?thesis using int_chars [of i] by blast
  qed
  have "inj demo_printer"
  proof (rule injI)
    fix p q assume eq: "demo_printer p = demo_printer q"
    have "str_of_int (fst (quotient_of p)) = str_of_int (fst (quotient_of q))"
      using arg_cong [OF eq, of "before (CHR ''.'')"] by (simp only: demo_printer_def before_append [OF dot])
    moreover have "str_of_int (snd (quotient_of p)) = str_of_int (snd (quotient_of q))"
      using arg_cong [OF eq, of "after (CHR ''.'')"] by (simp only: demo_printer_def after_append [OF dot])
    ultimately have "quotient_of p = quotient_of q" by (metis str_of_int_inj prod_eqI)
    then show "p = q" by (rule quotient_of_inject)
  qed
  moreover have "set (str_of_int i) \<subseteq> set number_chars" for i
  proof -
    have "insert (CHR ''-'') (set ''0123456789'') \<subseteq> set number_chars" by (simp add: number_chars_def)
    then show ?thesis by (rule subset_trans [OF int_chars])
  qed
  ultimately show ?thesis by (simp add: float_printer_def demo_printer_def number_chars_def)
qed

definition demo_node :: "json \<Rightarrow> task_node" where
  "demo_node spec = \<lparr>node_id = ''1'', node_kind = ''extract'',
     node_inputs_hash = hash_inputs (\<lambda>s. s) demo_printer JNull,
     node_params_hash = hash_params (\<lambda>s. s) demo_printer spec, node_depends_on = [], node_gpu_required = True, node_metadata = []\<rparr>"

lemma same_key_same_request_witness:
  "cache_key (\<lambda>s. s) demo_printer (demo_node (JObj [(''a'', JInt 1), (''b'', JInt 2)])) ''v'' =
     cache_key (\<lambda>s. s) demo_printer (demo_node (JObj [(''b'', JInt 2), (''a'', JInt 1)])) ''v'' \<and>
   cache_key (\<lambda>s. s) demo_printer (demo_node (JObj [(''a'', JInt 1)])) ''v'' \<noteq>
     cache_key (\<lambda>s. s) demo_printer (demo_node (JObj [(''a'', JFloat (Fin 1))])) ''v''"
proof -
  have iff: "cache_key (\<lambda>s. s) demo_printer (demo_node a) ''v'' = cache_key (\<lambda>s. s) demo_printer (demo_node b) ''v''
      \<longleftrightarrow> norm_json a = norm_json b" for a b
    using same_key_same_request [of demo_printer "demo_node a" "\<lambda>s. s" JNull a "demo_node b" JNull b "''v''" "''v''"]
      demo_printer by (simp add: demo_node_def clash_def)
  show ?thesis unfolding iff by (simp add: norm_obj sort_key_def)
qed

end
