(* ===== verification/Stage_Correct.thy ===== *)
theory Stage_Correct
  imports Stage_Table Engine_Correct Json_Text
begin

text \<open>
  What the stage services promise: the row a submission writes, one reconstruction per dataset
  version and specification, the database each stage is given, which submissions can share a
  cached result, and what a recipe hands to the queue.
\<close>

section \<open>The rows of a submission\<close>

lemma fill_ids_none [simp]: "fill_ids [] ns = ns"
  by (induction ns) simp_all

lemma record_cached_keeps:
  "record_cached env rows res = Inr (out, res') \<Longrightarrow>
   list_all2 (\<lambda>t row. \<exists>v. t = fst row\<lparr>outputs_ref_json := v\<rparr>) out rows"
proof (induction rows arbitrary: res out)
  case (Cons row rows)
  obtain t hit where row: "row = (t, hit)" by (cases row)
  from Cons.prems obtain t' r ts where "out = t' # ts" "record_cached env rows r = Inr (ts, res')"
      "t' = t \<or> (\<exists>v. t' = t\<lparr>outputs_ref_json := v\<rparr>)"
    by (auto simp: row andthen_Inr Let_def split: if_splits)
  moreover have "\<exists>v. t = t\<lparr>outputs_ref_json := v\<rparr>" by (rule exI [of _ "outputs_ref_json t"]) simp
  ultimately show ?case using Cons.IH [of r ts] by (auto simp: row)
qed simp

definition row_of_node :: "'r env \<Rightarrow> string \<Rightarrow> task_node \<Rightarrow> task_row \<Rightarrow> bool" where
  "row_of_node env rv n t \<longleftrightarrow>
     task_id t = node_id n \<and> kind t = node_kind n \<and> deps_of t = node_depends_on n \<and>
     task_cache_key t = cache_key (sha256 env) (float_repr env) n rv \<and>
     (node_metadata n \<noteq> [] \<longrightarrow> task_state_json t = Some (JObj (node_metadata n)))"

lemma row_of_node_outputs [simp]: "row_of_node env rv n (t\<lparr>outputs_ref_json := v\<rparr>) = row_of_node env rv n t"
  by (simp add: row_of_node_def deps_of_def)

lemma materialized_row_of_node:
  "list_all2 (\<lambda>n row. row_of_node env rv n (fst row)) ns (materialize_nodes env tenant jid rv ns ts)"
  by (induction ns arbitrary: ts)
    (auto simp: materialize_node_def Let_def row_of_node_def deps_of_def split: option.split)

lemma submit_rows_of_nodes:
  assumes "submit_job_dag env now new_job [] rv tenant project rcp spec nodes d = Inr (d', jid, rows, ready)"
  shows "list_all2 (row_of_node env rv) nodes rows"
proof -
  obtain d1 d2 j where mat: "materialize_dag env [] tenant j rv nodes d1 = Inr (d2, rows)"
    using assms by (auto simp: submit_job_dag_def andthen_Inr Let_def split: if_splits prod.splits)
  then obtain res where
    "record_cached env (materialize_nodes env tenant j rv nodes (tasks d1)) (resources d1) = Inr (rows, res)"
    by (auto simp: materialize_dag_def Let_def andthen_Inr)
  from record_cached_keeps [OF this] materialized_row_of_node [of env rv nodes tenant j "tasks d1"]
  show ?thesis
    by (fastforce simp: list_all2_conv_all_nth)
qed


section \<open>What a single stage writes\<close>

text \<open>The inputs and the specification a task was hashed from, as its worker reads them.\<close>

definition task_inputs :: "task_row \<Rightarrow> json dict" where
  "task_inputs t = (case task_state_json t of Some (JObj m) \<Rightarrow> obj_fields (jget m ''inputs'') | _ \<Rightarrow> [])"

definition task_spec :: "task_row \<Rightarrow> json" where
  "task_spec t = (case task_state_json t of Some (JObj m) \<Rightarrow> jget m ''spec'' | _ \<Rightarrow> JNull)"

lemma node_row:
  assumes "row_of_node env rv (stage_node C nid k inputs spec deps) t"
  shows "task_id t = nid \<and> kind t = k \<and> deps_of t = deps \<and> task_inputs t = inputs \<and> task_spec t = JObj spec"
  using assms by (simp add: row_of_node_def stage_node_def task_inputs_def task_spec_def jget_def)

lemma single_stage_row:
  assumes "submit_single_stage C F tenant project rcp k inputs spec d = Inr (d', jid, rows, ready)"
  shows "\<exists>t. rows = [t] \<and> task_id t = hd (fr_nodes F) \<and> kind t = k \<and> deps_of t = [] \<and>
     task_inputs t = inputs \<and> task_spec t = JObj spec \<and>
     task_cache_key t = cache_key (sha256 (sc_env C)) (float_repr (sc_env C))
       (stage_node C (hd (fr_nodes F)) k inputs spec []) (sc_runtime_version C)"
proof -
  have "submit_job_dag (sc_env C) (sc_now C) (fr_job F) [] (sc_runtime_version C) tenant project rcp (Some (JObj spec))
      [stage_node C (hd (fr_nodes F)) k inputs spec []] d = Inr (d', jid, rows, ready)"
    using assms unfolding submit_single_stage_def submit_nodes_def
    by (cases "submit_job_dag (sc_env C) (sc_now C) (fr_job F) [] (sc_runtime_version C) tenant project rcp (Some (JObj spec))
      [stage_node C (hd (fr_nodes F)) k inputs spec []] d") simp_all
  from submit_rows_of_nodes [OF this] obtain t where t: "rows = [t]"
    "row_of_node (sc_env C) (sc_runtime_version C) (stage_node C (hd (fr_nodes F)) k inputs spec []) t"
    by (auto simp: list_all2_Cons1)
  with node_row [OF t(2)] show ?thesis by (simp add: row_of_node_def)
qed

lemma checked_Inr [simp]: "checked r = Inr x \<longleftrightarrow> r = Inr x"
  by (cases r) (simp_all add: checked_def)

text \<open>Each of the three stages: the dataset, the resolved specification, the inputs.\<close>

definition artifact_free :: "json dict \<Rightarrow> json dict" where
  "artifact_free inputs = filter (\<lambda>e. fst e \<noteq> ''input_artifacts'') inputs"

lemma artifact_free_with [simp]: "artifact_free (with_artifacts r inputs) = artifact_free inputs"
  by (simp add: artifact_free_def with_artifacts_def)

lemma features_row:
  assumes "submit_features C F tenant did spec ia d = Inr (d', jid, rows, ready)"
  obtains ds spec' t mat where "get_dataset tenant did None d = Inr ds" "rows = [t]" "kind t = ''extract''"
    "validate_features_config C (Some (dataset_project_id ds)) spec = Inr spec'" "task_spec t = JObj spec'"
    "derive_materialization tenant ds (fst (ensure_reconstruction C (fr_recon F) tenant ds spec' d)) = Inr mat"
    "artifact_free (task_inputs t) =
       [(''project_id'', JStr (dataset_project_id ds)), (''dataset_id'', JStr (dataset_id ds)),
        (''recon_id'', JStr (rs_recon_id (snd (ensure_reconstruction C (fr_recon F) tenant ds spec' d)))),
        (''manifest_hash'', JStr (manifest_hash ds)), (''materialization'', JObj mat),
        (''database_path'', JStr (reconstruction_database_path C tenant (dataset_project_id ds)
           (rs_recon_id (snd (ensure_reconstruction C (fr_recon F) tenant ds spec' d)))))]"
    "task_cache_key t = cache_key (sha256 (sc_env C)) (float_repr (sc_env C))
       (stage_node C (hd (fr_nodes F)) ''extract'' (task_inputs t) spec' []) (sc_runtime_version C)"
proof -
  obtain ds where ds: "get_dataset tenant did None d = Inr ds"
    using assms by (auto simp: submit_features_def andthen_Inr)
  obtain spec' where sp: "validate_features_config C (Some (dataset_project_id ds)) spec = Inr spec'"
    using assms by (auto simp: submit_features_def andthen_Inr ds)
  obtain d1 r where e: "ensure_reconstruction C (fr_recon F) tenant ds spec' d = (d1, r)" by fastforce
  obtain mat where mat: "derive_materialization tenant ds d1 = Inr mat"
    using assms by (auto simp: submit_features_def andthen_Inr ds sp e)
  obtain res where run: "submit_single_stage C F tenant (dataset_project_id ds) ''features'' ''extract''
      (with_artifacts res
         [(''project_id'', JStr (dataset_project_id ds)), (''dataset_id'', JStr (dataset_id ds)),
          (''recon_id'', JStr (rs_recon_id r)), (''manifest_hash'', JStr (manifest_hash ds)),
          (''materialization'', JObj mat),
          (''database_path'', JStr (reconstruction_database_path C tenant (dataset_project_id ds) (rs_recon_id r)))])
      spec' d1 = Inr (d', jid, rows, ready)"
    using assms by (auto simp: submit_features_def andthen_Inr ds sp e mat Let_def)
  from single_stage_row [OF run] obtain t where t: "rows = [t]" "kind t = ''extract''" "task_spec t = JObj spec'"
    "task_inputs t = with_artifacts res
         [(''project_id'', JStr (dataset_project_id ds)), (''dataset_id'', JStr (dataset_id ds)),
          (''recon_id'', JStr (rs_recon_id r)), (''manifest_hash'', JStr (manifest_hash ds)),
          (''materialization'', JObj mat),
          (''database_path'', JStr (reconstruction_database_path C tenant (dataset_project_id ds) (rs_recon_id r)))]"
    "task_cache_key t = cache_key (sha256 (sc_env C)) (float_repr (sc_env C))
       (stage_node C (hd (fr_nodes F)) ''extract'' (task_inputs t) spec' []) (sc_runtime_version C)"
    by auto
  show thesis
    by (rule that [OF ds t(1,2) sp t(3)]) (simp_all add: e mat t(4) t(5) [unfolded t(4)], simp add: artifact_free_def)
qed

text \<open>Matches and verify share their shape: the database of the run keyed by the empty specification.\<close>

definition database_inputs :: "stage_cfg \<Rightarrow> fresh_ids_of_stage \<Rightarrow> string \<Rightarrow> dataset_row \<Rightarrow> stage_state \<Rightarrow> string \<Rightarrow> json dict" where
  "database_inputs C F tenant ds d db =
     [(''dataset_id'', JStr (dataset_id ds)),
      (''recon_id'', JStr (rs_recon_id (snd (ensure_reconstruction C (fr_recon F) tenant ds [] d)))),
      (''manifest_hash'', JStr (manifest_hash ds)), (''database_path'', JStr db)]"

definition database_row ::
  "stage_cfg \<Rightarrow> fresh_ids_of_stage \<Rightarrow> string \<Rightarrow> dataset_row \<Rightarrow> stage_state \<Rightarrow> string \<Rightarrow> json dict \<Rightarrow> task_row \<Rightarrow> bool" where
  "database_row C F tenant ds d k spec t \<longleftrightarrow>
     kind t = k \<and> task_spec t = JObj spec \<and>
     (\<exists>res db. task_inputs t = with_artifacts res (database_inputs C F tenant ds d db) \<and>
        (res = [] \<longrightarrow> db = reconstruction_database_path C tenant (dataset_project_id ds)
           (rs_recon_id (snd (ensure_reconstruction C (fr_recon F) tenant ds [] d))))) \<and>
     task_cache_key t = cache_key (sha256 (sc_env C)) (float_repr (sc_env C))
       (stage_node C (hd (fr_nodes F)) k (task_inputs t) spec []) (sc_runtime_version C)"

lemma no_artifact_uri: "artifact_uri_from_input_artifacts [] roles accepted = None"
  by (induction roles) (simp_all add: jget_def)

lemma database_stage_row:
  assumes "(let (d, r, db) = resolve_database_path C (fr_recon F) tenant ds spec0 d in
     andthen (checked (resolve_for C tenant ds raw d)) (\<lambda>resolved.
       let db = (case database_path_from_input_artifacts resolved roles of None \<Rightarrow> db | Some p \<Rightarrow> p);
           inputs =
             [(''dataset_id'', JStr (dataset_id ds)), (''recon_id'', JStr (rs_recon_id r)),
              (''manifest_hash'', JStr (manifest_hash ds)), (''database_path'', JStr db)] in
     submit_single_stage C F tenant project rcp k (with_artifacts resolved inputs) spec d)) =
     Inr (d', jid, rows, ready)"
  shows "\<exists>t. rows = [t] \<and> database_row C F tenant ds d k spec t"
proof -
  obtain d1 r where e: "ensure_reconstruction C (fr_recon F) tenant ds [] d = (d1, r)" by fastforce
  let ?db = "reconstruction_database_path C tenant (dataset_project_id ds) (rs_recon_id r)"
  obtain res where
    "submit_single_stage C F tenant project rcp k (with_artifacts res (database_inputs C F tenant ds d
       (case database_path_from_input_artifacts res roles of None \<Rightarrow> ?db | Some p \<Rightarrow> p))) spec d1 =
     Inr (d', jid, rows, ready)"
    using assms by (auto simp: resolve_database_path_def e andthen_Inr Let_def database_inputs_def)
  from single_stage_row [OF this] obtain t where t: "rows = [t]" "kind t = k" "task_spec t = JObj spec"
    "task_inputs t = with_artifacts res (database_inputs C F tenant ds d
       (case database_path_from_input_artifacts res roles of None \<Rightarrow> ?db | Some p \<Rightarrow> p))"
    "task_cache_key t = cache_key (sha256 (sc_env C)) (float_repr (sc_env C))
       (stage_node C (hd (fr_nodes F)) k (task_inputs t) spec []) (sc_runtime_version C)"
    by auto
  have "res = [] \<longrightarrow> (case database_path_from_input_artifacts res roles of None \<Rightarrow> ?db | Some p \<Rightarrow> p) = ?db"
    by (simp add: database_path_from_input_artifacts_def no_artifact_uri)
  with t e show ?thesis
    unfolding database_row_def by (intro exI [of _ t]) auto
qed

lemma matches_row:
  assumes "submit_matches C F tenant did spec ia d = Inr (d', jid, rows, ready)"
  shows "\<exists>ds spec' t. get_dataset tenant did None d = Inr ds \<and>
     validate_matches_config C (Some (dataset_project_id ds)) spec = Inr spec' \<and>
     rows = [t] \<and> database_row C F tenant ds d ''match'' spec' t"
proof -
  obtain ds where ds: "get_dataset tenant did None d = Inr ds"
    using assms by (auto simp: submit_matches_def andthen_Inr)
  obtain spec' where sp: "validate_matches_config C (Some (dataset_project_id ds)) spec = Inr spec'"
    using assms by (auto simp: submit_matches_def andthen_Inr ds)
  note run = assms [unfolded submit_matches_def ds sp checked_simps andthen.simps]
  obtain pairs where pairs: "spec_part spec' ''pairs'' = Inr pairs"
    using run by (auto simp: andthen_Inr)
  note run = run [unfolded pairs checked_simps andthen.simps]
  show ?thesis
    using run ds sp unfolding andthen_Inr Let_def [of "obj_fields (jget spec' ''matcher'')"]
    by (elim exE conjE) (drule database_stage_row, blast)
qed

lemma verify_row:
  assumes "submit_verify C F tenant did spec ia d = Inr (d', jid, rows, ready)"
  shows "\<exists>ds spec' t. get_dataset tenant did None d = Inr ds \<and>
     validate_verify_config C (Some (dataset_project_id ds)) spec = Inr spec' \<and>
     rows = [t] \<and> database_row C F tenant ds d ''verify'' spec' t"
proof -
  obtain ds where ds: "get_dataset tenant did None d = Inr ds"
    using assms by (auto simp: submit_verify_def andthen_Inr)
  obtain spec' where sp: "validate_verify_config C (Some (dataset_project_id ds)) spec = Inr spec'"
    using assms by (auto simp: submit_verify_def andthen_Inr ds)
  show ?thesis
    using database_stage_row [OF assms [unfolded submit_verify_def ds sp checked_simps andthen.simps]] ds sp
    by blast
qed

section \<open>A recipe does not reuse the results of single stages\<close>

lemma norm_keys: "norm_json (JObj a) = norm_json (JObj b) \<Longrightarrow> map_of a k = None \<longleftrightarrow> map_of b k = None"
proof -
  have eq: "fst ` set (map (\<lambda>e. (fst e, norm_json (snd e))) (sort_key fst xs)) = fst ` set xs" for xs :: "json dict"
    by (simp add: image_image)
  assume "norm_json (JObj a) = norm_json (JObj b)"
  then have "map (\<lambda>e. (fst e, norm_json (snd e))) (sort_key fst a) = map (\<lambda>e. (fst e, norm_json (snd e))) (sort_key fst b)"
    by (simp add: norm_obj)
  from arg_cong [OF this, of "\<lambda>xs. fst ` set xs", unfolded eq] show ?thesis
    by (simp add: map_of_eq_None_iff)
qed

lemma with_artifacts_key [simp]:
  "k \<noteq> ''input_artifacts'' \<Longrightarrow> map_of (with_artifacts r inputs) k = map_of inputs k"
  by (simp add: with_artifacts_def map_add_def split: option.split)

lemma artifact_free_key:
  "k \<noteq> ''input_artifacts'' \<Longrightarrow> map_of (artifact_free inputs) k = map_of inputs k"
  by (induction inputs) (auto simp: artifact_free_def)

text \<open>No node of a recipe has the manifest hash among its inputs.\<close>

lemma recipe_nodes:
  assumes "n \<in> set (build_recipe_dag C F project did rid mat db fs ms vs ps priors inputs)"
  obtains nid k i spec deps where "n = stage_node C nid k i spec deps" "map_of i ''manifest_hash'' = None"
proof -
  have "\<exists>nid k i spec deps. n = stage_node C nid k i spec deps \<and> map_of i ''manifest_hash'' = None"
    using assms unfolding build_recipe_dag_def Let_def
    by (simp only: list.set insert_iff empty_iff) (elim disjE; force simp: map_inputs_of_def)
  then show thesis using that by blast
qed

text \<open>Every task of the three single stages has it.\<close>

lemma single_stage_manifest:
  assumes "Inr (d', jid, rows, ready) \<in> {submit_features C F tenant did spec ia d,
      submit_matches C F tenant did spec ia d, submit_verify C F tenant did spec ia d}"
    and "t \<in> set rows"
  shows "\<exists>nid spec'. map_of (task_inputs t) ''manifest_hash'' \<noteq> None \<and> task_spec t = JObj spec' \<and>
    task_cache_key t = cache_key (sha256 (sc_env C)) (float_repr (sc_env C))
      (stage_node C nid (kind t) (task_inputs t) spec' []) (sc_runtime_version C)"
proof -
  have db: "map_of (task_inputs t) ''manifest_hash'' \<noteq> None \<and> task_spec t = JObj spec' \<and>
    task_cache_key t = cache_key (sha256 (sc_env C)) (float_repr (sc_env C))
      (stage_node C (hd (fr_nodes F)) (kind t) (task_inputs t) spec' []) (sc_runtime_version C)"
    if "database_row C F tenant ds d k spec' t" for ds k spec'
    using that by (auto simp: database_row_def database_inputs_def)
  consider "submit_features C F tenant did spec ia d = Inr (d', jid, rows, ready)"
    | "submit_matches C F tenant did spec ia d = Inr (d', jid, rows, ready)"
    | "submit_verify C F tenant did spec ia d = Inr (d', jid, rows, ready)"
    using assms(1) by (metis empty_iff insert_iff)
  then show ?thesis
  proof cases
    case 1
    show ?thesis
    proof (rule features_row [OF 1])
      fix ds spec' u mat
      assume "rows = [u]" "kind u = ''extract''" "task_spec u = JObj spec'" "artifact_free (task_inputs u) =
         [(''project_id'', JStr (dataset_project_id ds)), (''dataset_id'', JStr (dataset_id ds)),
          (''recon_id'', JStr (rs_recon_id (snd (ensure_reconstruction C (fr_recon F) tenant ds spec' d)))),
          (''manifest_hash'', JStr (manifest_hash ds)), (''materialization'', JObj mat),
          (''database_path'', JStr (reconstruction_database_path C tenant (dataset_project_id ds)
             (rs_recon_id (snd (ensure_reconstruction C (fr_recon F) tenant ds spec' d)))))]"
        "task_cache_key u = cache_key (sha256 (sc_env C)) (float_repr (sc_env C))
          (stage_node C (hd (fr_nodes F)) ''extract'' (task_inputs u) spec' []) (sc_runtime_version C)"
      then show ?thesis
        using assms(2) artifact_free_key [of "''manifest_hash''" "task_inputs t"]
        by (auto dest: sym [of "Some _"])
    qed
  next
    case 2
    then show ?thesis using matches_row [OF 2] assms(2) db by fastforce
  next
    case 3
    then show ?thesis using verify_row [OF 3] assms(2) db by fastforce
  qed
qed

text \<open>The texts that the cache key of a single task is the digest of, and the inputs of a node.\<close>

definition row_text :: "stage_cfg \<Rightarrow> task_row \<Rightarrow> string" where
  "row_text C t = canonical_json (float_repr (sc_env C)) (cache_payload (kind t) (stage_hash C (JObj (task_inputs t)))
     (hash_params (sha256 (sc_env C)) (float_repr (sc_env C)) (task_spec t)) (sc_runtime_version C))"

definition node_inputs :: "task_node \<Rightarrow> json" where
  "node_inputs n = jget (node_metadata n) ''inputs''"

lemma stage_hash_iff:
  assumes "float_printer (float_repr (sc_env C))"
  shows "stage_hash C v = stage_hash C w \<longleftrightarrow> norm_json v = norm_json w \<or>
    clash (sha256 (sc_env C)) (canonical_json (float_repr (sc_env C)) v) (canonical_json (float_repr (sc_env C)) w)"
  unfolding stage_hash_def hash_defs by (rule same_hash_iff [OF assms])

text \<open>
  C33. A task of a single features, matches or verify submission has the cache key of a node of a
  recipe, whatever the dataset and the configurations, only if two texts that were hashed for the
  two, those of the keys or those of the inputs, differ and have one SHA-256 digest: short of
  that a recipe does not short-circuit on work that single stages have done, nor the other way
  round, although the comments in the code promise equal hashes.
\<close>

theorem recipe_never_reuses_single_stage:
  assumes "float_printer (float_repr (sc_env C))"
    and "Inr (d', jid, rows, ready) \<in> {submit_features C F tenant did spec ia d,
      submit_matches C F tenant did spec ia d, submit_verify C F tenant did spec ia d}"
    and "t \<in> set rows"
    and "n \<in> set (build_recipe_dag C F' project did' rid mat db fs ms vs ps priors inputs)"
    and "task_cache_key t = cache_key (sha256 (sc_env C)) (float_repr (sc_env C)) n rv"
  shows "clash (sha256 (sc_env C)) (row_text C t) (cache_text (float_repr (sc_env C)) n rv) \<or>
    clash (sha256 (sc_env C)) (canonical_json (float_repr (sc_env C)) (JObj (task_inputs t)))
      (canonical_json (float_repr (sc_env C)) (node_inputs n))"
proof -
  obtain nid spec' where single: "map_of (task_inputs t) ''manifest_hash'' \<noteq> None" "task_spec t = JObj spec'"
    "task_cache_key t = cache_key (sha256 (sc_env C)) (float_repr (sc_env C))
      (stage_node C nid (kind t) (task_inputs t) spec' []) (sc_runtime_version C)"
    using single_stage_manifest [OF assms(2,3)] by blast
  obtain nid' k i spec'' deps where node: "n = stage_node C nid' k i spec'' deps" "map_of i ''manifest_hash'' = None"
    by (rule recipe_nodes [OF assms(4)])
  have inputs: "node_inputs n = JObj i" by (simp add: node node_inputs_def stage_node_def jget_def)
  have key_text: "cache_text (float_repr (sc_env C)) (stage_node C nid (kind t) (task_inputs t) spec' []) (sc_runtime_version C) = row_text C t"
    by (simp add: cache_text_def row_text_def stage_node_def single(2))
  have "norm_json (JObj (task_inputs t)) \<noteq> norm_json (JObj i)"
    using norm_keys [of "task_inputs t" i "''manifest_hash''"] single(1) node(2) by auto
  moreover have "stage_hash C (JObj (task_inputs t)) = stage_hash C (JObj i) \<or>
      clash (sha256 (sc_env C)) (row_text C t) (cache_text (float_repr (sc_env C)) n rv)"
    using assms(5) [unfolded single(3) same_key_iff key_text] by (auto simp: node stage_node_def)
  ultimately show ?thesis unfolding stage_hash_iff [OF assms(1)] inputs by blast
qed

section \<open>One reconstruction per run\<close>

definition run_of :: "stage_cfg \<Rightarrow> string \<Rightarrow> dataset_row \<Rightarrow> json dict \<Rightarrow> recon_spec_row \<Rightarrow> bool" where
  "run_of C tenant ds spec r \<longleftrightarrow>
     same_run C tenant ds r \<and> stage_hash C (rs_spec_json r) = stage_hash C (JObj spec)"

lemma find_filter: "find P (filter Q xs) = find (\<lambda>x. Q x \<and> P x) xs"
  by (induction xs) auto

lemma find_append: "find P (xs @ ys) = (case find P xs of None \<Rightarrow> find P ys | Some x \<Rightarrow> Some x)"
  by (induction xs) simp_all

lemma ensure_find:
  "ensure_reconstruction C nid tenant ds spec d =
    (case find (run_of C tenant ds spec) (recon_specs (stage_tables_of d)) of
       Some r \<Rightarrow> (d, r)
     | None \<Rightarrow> ensure_reconstruction C nid tenant ds spec d)"
proof -
  have "find (\<lambda>r. stage_hash C (rs_spec_json r) = stage_hash C (JObj spec))
      (filter (same_run C tenant ds) (recon_specs (stage_tables_of d))) =
    find (run_of C tenant ds spec) (recon_specs (stage_tables_of d))"
    unfolding find_filter by (rule arg_cong [of _ _ "\<lambda>P. find P _"]) (simp add: run_of_def fun_eq_iff)
  then show ?thesis unfolding ensure_reconstruction_def Let_def by (simp split: option.split)
qed

lemma ensure_new:
  assumes "find (run_of C tenant ds spec) (recon_specs (stage_tables_of d)) = None"
    and "ensure_reconstruction C nid tenant ds spec d = (d', r)"
  shows "rs_recon_id r = nid" "run_of C tenant ds spec r"
    "recon_specs (stage_tables_of d') = recon_specs (stage_tables_of d) @ [r]"
proof -
  have "find (\<lambda>r. stage_hash C (rs_spec_json r) = stage_hash C (JObj spec))
      (filter (same_run C tenant ds) (recon_specs (stage_tables_of d))) = None"
    using assms(1) by (auto simp: find_None_iff run_of_def)
  with assms(2) show "rs_recon_id r = nid" "run_of C tenant ds spec r"
    "recon_specs (stage_tables_of d') = recon_specs (stage_tables_of d) @ [r]"
    unfolding ensure_reconstruction_def Let_def
    by (auto simp: run_of_def same_run_def stage_tables_of_def)
qed

lemma ensure_materialization:
  "derive_materialization tenant' ds' (fst (ensure_reconstruction C nid tenant ds spec d)) = derive_materialization tenant' ds' d"
proof -
  have "images (stage_tables_of (fst (ensure_reconstruction C nid tenant ds spec d))) = images (stage_tables_of d)"
    "sources (stage_tables_of (fst (ensure_reconstruction C nid tenant ds spec d))) = sources (stage_tables_of d)"
    by (simp_all add: ensure_reconstruction_def Let_def stage_tables_of_def split: option.split)
  then show ?thesis by (simp only: derive_materialization_def dataset_images_def)
qed

lemma ensure_finds:
  assumes "ensure_reconstruction C nid tenant ds spec d = (d', r)"
  shows "find (run_of C tenant ds spec) (recon_specs (stage_tables_of d')) = Some r"
proof (cases "find (run_of C tenant ds spec) (recon_specs (stage_tables_of d))")
  case None
  from ensure_new [OF this assms] None show ?thesis by (simp add: find_append)
next
  case (Some x)
  then show ?thesis using assms ensure_find [of C nid tenant ds spec d] by simp
qed

lemma run_of_iff:
  "run_of C tenant ds spec r \<Longrightarrow> run_of C tenant' ds' spec' r \<longleftrightarrow>
     tenant' = tenant \<and> dataset_id ds' = dataset_id ds \<and> manifest_hash ds' = manifest_hash ds \<and>
     stage_hash C (JObj spec') = stage_hash C (JObj spec)"
  by (auto simp: run_of_def same_run_def)

text \<open>
  C30. A dataset version and a specification have one reconstruction: a later request gets the
  reconstruction of an earlier one if and only if it is of the same tenant, dataset and manifest
  and its specification is the same up to the order of keys, or differs from it with the same
  SHA-256 digest of the two canonical texts; then it writes nothing. The printer of floats is
  assumed to give different numbers different texts, and the ids of reconstructions to be fresh.
\<close>

theorem one_reconstruction_per_run:
  assumes "float_printer (float_repr (sc_env C))"
    and first: "ensure_reconstruction C nid tenant ds spec d = (d1, r)"
    and second: "ensure_reconstruction C nid' tenant' ds' spec' d1 = (d2, r')"
    and ids: "distinct (map rs_recon_id (recon_specs (stage_tables_of d1)))"
      "nid' \<notin> rs_recon_id ` set (recon_specs (stage_tables_of d1))"
  shows "(rs_recon_id r' = rs_recon_id r \<longleftrightarrow>
      tenant' = tenant \<and> dataset_id ds' = dataset_id ds \<and> manifest_hash ds' = manifest_hash ds \<and>
      (norm_json (JObj spec') = norm_json (JObj spec) \<or>
       clash (sha256 (sc_env C)) (canonical_json (float_repr (sc_env C)) (JObj spec'))
         (canonical_json (float_repr (sc_env C)) (JObj spec)))) \<and>
    (rs_recon_id r' = rs_recon_id r \<longrightarrow> d2 = d1)"
proof -
  note found = ensure_finds [OF first]
  then have r: "r \<in> set (recon_specs (stage_tables_of d1))" "run_of C tenant ds spec r"
    by (auto simp: find_Some_iff)
  note same = run_of_iff [OF r(2), of tenant' ds' spec', unfolded stage_hash_iff [OF assms(1)]]
  show ?thesis
  proof (cases "find (run_of C tenant' ds' spec') (recon_specs (stage_tables_of d1))")
    case None
    have "rs_recon_id r' \<noteq> rs_recon_id r" using ensure_new(1) [OF None second] r(1) ids(2) by auto
    moreover have "\<not> run_of C tenant' ds' spec' r" using None r(1) by (simp add: find_None_iff)
    ultimately show ?thesis using same by blast
  next
    case (Some x)
    then have x: "r' = x" "d2 = d1"
      using second ensure_find [of C nid' tenant' ds' spec' d1] by simp_all
    have found': "x \<in> set (recon_specs (stage_tables_of d1))" "run_of C tenant' ds' spec' x"
      using Some by (auto simp: find_Some_iff)
    have id: "rs_recon_id x = rs_recon_id r \<longleftrightarrow> x = r"
      using ids(1) found'(1) r(1) by (metis distinct_map inj_onD)
    have "x = r" if "run_of C tenant' ds' spec' r"
    proof -
      have "run_of C tenant' ds' spec' = run_of C tenant ds spec"
        using run_of_iff [OF r(2)] that by (auto simp: run_of_def same_run_def fun_eq_iff)
      then show ?thesis using Some found by simp
    qed
    then have "x = r \<longleftrightarrow> run_of C tenant' ds' spec' r" using found'(2) by blast
    then show ?thesis using x id same by blast
  qed
qed

section \<open>The stages of one dataset do not share a database\<close>

lemma jget_with_artifacts [simp]:
  "k \<noteq> ''input_artifacts'' \<Longrightarrow> jget (with_artifacts r inputs) k = jget inputs k"
  by (simp add: jget_def)

lemma jget_artifact_free:
  "k \<noteq> ''input_artifacts'' \<Longrightarrow> jget (artifact_free inputs) k = jget inputs k"
  by (simp add: jget_def artifact_free_key)

lemma features_database:
  assumes "submit_features C F tenant did spec ia d = Inr (d', jid, [t], ready)"
  shows "\<exists>ds spec' rid. get_dataset tenant did None d = Inr ds \<and> task_spec t = JObj spec' \<and>
    jget (task_inputs t) ''recon_id'' = JStr rid \<and>
    jget (task_inputs t) ''database_path'' = JStr (reconstruction_database_path C tenant (dataset_project_id ds) rid)"
proof (rule features_row [OF assms])
  fix ds spec' u mat
  let ?rid = "rs_recon_id (snd (ensure_reconstruction C (fr_recon F) tenant ds spec' d))"
  assume "[t] = [u]" "get_dataset tenant did None d = Inr ds" "task_spec u = JObj spec'"
    "artifact_free (task_inputs u) =
       [(''project_id'', JStr (dataset_project_id ds)), (''dataset_id'', JStr (dataset_id ds)),
        (''recon_id'', JStr ?rid), (''manifest_hash'', JStr (manifest_hash ds)), (''materialization'', JObj mat),
        (''database_path'', JStr (reconstruction_database_path C tenant (dataset_project_id ds) ?rid))]"
  then show ?thesis
    using jget_artifact_free [of "''recon_id''" "task_inputs t"] jget_artifact_free [of "''database_path''" "task_inputs t"]
    by (intro exI [of _ ds] exI [of _ spec'] exI [of _ ?rid]) (simp add: jget_def)
qed

lemma database_row_path:
  assumes "database_row C F tenant ds d k spec t" and "jget (task_inputs t) ''input_artifacts'' = JNull"
  shows "jget (task_inputs t) ''database_path'' = JStr (reconstruction_database_path C tenant (dataset_project_id ds)
     (rs_recon_id (snd (ensure_reconstruction C (fr_recon F) tenant ds [] d))))"
proof -
  obtain res db where t: "task_inputs t = with_artifacts res (database_inputs C F tenant ds d db)"
    "res = [] \<longrightarrow> db = reconstruction_database_path C tenant (dataset_project_id ds)
       (rs_recon_id (snd (ensure_reconstruction C (fr_recon F) tenant ds [] d)))"
    using assms(1) by (auto simp: database_row_def)
  have "res = []" using assms(2) unfolding t(1)
    by (auto simp: with_artifacts_def database_inputs_def jget_def split: if_splits)
  then show ?thesis using t by (simp add: database_inputs_def jget_def)
qed

lemma database_path_inj:
  "reconstruction_database_path C tenant project rid = reconstruction_database_path C tenant project rid' \<longleftrightarrow> rid = rid'"
  by (simp add: reconstruction_database_path_def reconstruction_root_def project_root_def subpath_def)

text \<open>
  Submitted one after the other, features and matches are given different databases: the
  features task writes the database of the reconstruction keyed by its specification, and the
  matches task, when it is given no artifacts, reads the database of the one keyed by the
  empty specification, whatever happened in between, short of a clash of the two digests.
\<close>

theorem stages_use_other_database:
  assumes "float_printer (float_repr (sc_env C))"
    and features: "submit_features C F tenant did spec ia d = Inr (d1, j1, [t], ready1)"
    and matches: "submit_matches C F' tenant did spec' ia' d2 = Inr (d3, j3, [t'], ready3)"
    and "task_spec t \<noteq> JObj []" and "jget (task_inputs t') ''input_artifacts'' = JNull"
    and kept: "\<exists>r \<in> set (recon_specs (stage_tables_of d2)). jget (task_inputs t) ''recon_id'' = JStr (rs_recon_id r) \<and>
      rs_spec_json r = task_spec t"
    and ids: "distinct (map rs_recon_id (recon_specs (stage_tables_of d2)))"
      "fr_recon F' \<notin> rs_recon_id ` set (recon_specs (stage_tables_of d2))"
    and project: "map_sum id dataset_project_id (get_dataset tenant did None d2) =
      map_sum id dataset_project_id (get_dataset tenant did None d)"
    and path: "jget (task_inputs t') ''database_path'' = jget (task_inputs t) ''database_path''"
  shows "clash (sha256 (sc_env C)) (canonical_json (float_repr (sc_env C)) (task_spec t)) (canonical_json (float_repr (sc_env C)) (JObj []))"
proof -
  obtain ds fs rid where f: "get_dataset tenant did None d = Inr ds" "task_spec t = JObj fs"
    "jget (task_inputs t) ''recon_id'' = JStr rid"
    "jget (task_inputs t) ''database_path'' = JStr (reconstruction_database_path C tenant (dataset_project_id ds) rid)"
    using features_database [OF features] by blast
  obtain ds' ms where m: "get_dataset tenant did None d2 = Inr ds'" "database_row C F' tenant ds' d2 ''match'' ms t'"
    using matches_row [OF matches] by auto
  obtain d4 r where e: "ensure_reconstruction C (fr_recon F') tenant ds' [] d2 = (d4, r)" by fastforce
  from database_row_path [OF m(2) assms(5)] path f m(1) project have rid: "rid = rs_recon_id r"
    by (simp add: e database_path_inj)
  obtain x where x: "x \<in> set (recon_specs (stage_tables_of d2))" "rs_recon_id x = rid" "rs_spec_json x = JObj fs"
    using kept f by auto
  show ?thesis
  proof (cases "find (run_of C tenant ds' []) (recon_specs (stage_tables_of d2))")
    case None
    then show ?thesis using ensure_new(1) [OF None e] ids(2) x(1,2) rid by (metis image_eqI)
  next
    case (Some y)
    then have "y = r" using e ensure_find [of C "fr_recon F'" tenant ds' "[]" d2] by simp
    with Some have r: "r \<in> set (recon_specs (stage_tables_of d2))" "run_of C tenant ds' [] r"
      by (auto simp: find_Some_iff)
    have "r = x" using ids(1) r(1) x(1,2) rid by (metis distinct_map inj_onD)
    then have "stage_hash C (JObj fs) = stage_hash C (JObj [])" using r(2) x(3) by (simp add: run_of_def)
    moreover have "norm_json (JObj fs) \<noteq> norm_json (JObj [])"
    proof
      assume "norm_json (JObj fs) = norm_json (JObj [])"
      then have "map_of fs (fst (hd fs)) = None" using norm_keys [of fs "[]"] by simp
      then have "fs = []" by (cases fs) auto
      then show False using assms(4) f(2) by simp
    qed
    ultimately show ?thesis unfolding stage_hash_iff [OF assms(1)] by (simp add: f(2))
  qed
qed

section \<open>Witnesses\<close>

text \<open>One project with a dataset of two local images, no plugins, the identity as digest.\<close>

definition demo_env :: "stage_tables env" where
  "demo_env = \<lparr>sha256 = (\<lambda>s. s), float_repr = demo_printer, nulls_first = True, lease_ttl_seconds = 60,
     retention_days = None, handlers = (\<lambda>_. None), status_hooks = (\<lambda>_. None), success_hooks = (\<lambda>_. None),
     normalize_task_outputs = (\<lambda>_ v. Inr v), record_task_artifacts = (\<lambda>r _ _. Inr r),
     register_derived_dataset = (\<lambda>r _ _ v. Inr (r, v)), sanitize_error = (\<lambda>s. s)\<rparr>"

definition demo_cfg :: stage_cfg where
  "demo_cfg = \<lparr>sc_env = demo_env, sc_workspace = ''/w'', sc_hub = empty_state, sc_manifests = [], sc_entry_points = [],
     sc_supports = (\<lambda>_. True), sc_check_options = (\<lambda>_ _ _ _. Inr ()), sc_format_type = (\<lambda>f. f),
     sc_rv_id = ''rv'', sc_runtime_version = ''v'', sc_now = 0\<rparr>"

definition demo_dataset :: dataset_row where
  "demo_dataset = \<lparr>dataset_id = ''d'', dataset_tenant_id = ''default'', dataset_project_id = ''p'',
     dataset_source_id = ''s'', manifest_hash = ''m'', is_spherical = False\<rparr>"

definition demo_image :: "string \<Rightarrow> image_row" where
  "demo_image nm = \<lparr>image_id = nm, image_tenant_id = ''default'', image_dataset_id = ''d'', image_name = nm,
     content_sha = nm, rel_path = None, pose_prior_json = None\<rparr>"

definition demo_tables :: stage_tables where
  "demo_tables = \<lparr>datasets = [demo_dataset], sources = [\<lparr>source_id = ''s'', source_kind = ''local'', uri_or_root = Some ''/data''\<rparr>],
     images = [demo_image ''b.jpg'', demo_image ''a.jpg''], recon_specs = [], known_blobs = [], projects = [(''default'', ''p'')]\<rparr>"

definition demo_state :: stage_state where
  "demo_state = \<lparr>tasks = [], jobs = [], job_events = [],
     resources = \<lparr>recons = [], stage_artifacts = [], others = demo_tables\<rparr>\<rparr>"

definition demo_ids :: "string \<Rightarrow> fresh_ids_of_stage" where
  "demo_ids x = \<lparr>fr_recon = ''r'' @ x, fr_job = ''j'' @ x,
     fr_nodes = [''1'' @ x, ''2'' @ x, ''3'' @ x, ''4'' @ x], fr_dir = x\<rparr>"

definition demo_spec :: "json dict" where "demo_spec = [(''type'', JStr ''sift'')]"

lemmas demo_defs = demo_env_def demo_cfg_def demo_dataset_def demo_image_def demo_tables_def demo_state_def demo_ids_def

lemma demo_resolution: "apply_provider_resolution demo_cfg spec stage cap project =
   (case jget spec ''provider'' of JNull \<Rightarrow> Inr spec | v \<Rightarrow>
      Inr (if json_text demo_cfg v = [] then spec else AList.update ''provider'' (JStr (json_text demo_cfg v)) spec))"
  by (simp add: apply_provider_resolution_def resolve_provider_def candidate_records_def provider_records_def
      matches_provider_def demo_defs Let_def split: json.split)

lemma demo_materialization:
  "\<exists>mat. derive_materialization ''default'' demo_dataset demo_state = Inr mat"
  by (simp add: derive_materialization_def demo_defs stage_tables_of_def dataset_images_def order_by_name_def sort_key_def
    local_entry_def validate_safe_relative_path_def path_parts_def)

lemma demo_record: "\<exists>out. record_cached demo_env rows res = Inr (out, res)"
proof (induction rows)
  case (Cons row rows)
  then obtain out where "record_cached demo_env rows res = Inr (out, res)" by blast
  then show ?case by (cases row) (simp add: demo_env_def Let_def)
qed simp

lemma demo_submission:
  "\<exists>d' rows ready. submit_job_dag demo_env now new_job [] rv tenant project rcp spec nodes d = Inr (d', new_job, rows, ready) \<and>
     resources d' = resources d"
proof -
  obtain d1 j where job: "create_job new_job tenant project rcp spec d = (d1, j)" by fastforce
  then have d1: "resources d1 = resources d" "job_id j = new_job" by (auto simp: create_job_def Let_def)
  obtain out where "record_cached demo_env (materialize_nodes demo_env tenant new_job rv nodes (tasks d1)) (resources d1) =
      Inr (out, resources d1)" using demo_record by blast
  then show ?thesis by (simp add: submit_job_dag_def job d1 materialize_dag_def Let_def)
qed

lemma demo_single_stage:
  "\<exists>d' t ready. submit_single_stage demo_cfg F tenant project rcp k inputs spec d = Inr (d', fr_job F, [t], ready) \<and>
     resources d' = resources d \<and> task_inputs t = inputs \<and> task_spec t = JObj spec"
proof -
  obtain d' rows ready where run: "submit_single_stage demo_cfg F tenant project rcp k inputs spec d = Inr (d', fr_job F, rows, ready)"
    "resources d' = resources d"
    using demo_submission [of 0 "fr_job F" "''v''" tenant project rcp "Some (JObj spec)"
        "[stage_node demo_cfg (hd (fr_nodes F)) k inputs spec []]" d]
    by (auto simp: submit_single_stage_def submit_nodes_def demo_cfg_def)
  moreover obtain t where "rows = [t]" "task_inputs t = inputs" "task_spec t = JObj spec"
    using single_stage_row [OF run(1)] by blast
  ultimately show ?thesis by blast
qed

lemma demo_features:
  "\<exists>d' t ready. submit_features demo_cfg (demo_ids ''1'') ''default'' ''d'' demo_spec JNull demo_state =
       Inr (d', ''j1'', [t], ready) \<and> task_spec t = JObj demo_spec \<and> jget (task_inputs t) ''recon_id'' = JStr ''r1'' \<and>
     stage_tables_of d' = demo_tables\<lparr>recon_specs := [\<lparr>rs_recon_id = ''r1'', rs_tenant_id = ''default'', rs_project_id = ''p'',
       rs_dataset_id = ''d'', rs_snapshot_hash = ''m'', rs_spec_json = JObj demo_spec, rs_rv_id = ''rv''\<rparr>]\<rparr>"
proof -
  obtain d1 r where e: "ensure_reconstruction demo_cfg ''r1'' ''default'' demo_dataset demo_spec demo_state = (d1, r)" by fastforce
  then have r: "rs_recon_id r = ''r1''" "stage_tables_of d1 = demo_tables\<lparr>recon_specs := [\<lparr>rs_recon_id = ''r1'', rs_tenant_id = ''default'', rs_project_id = ''p'',
       rs_dataset_id = ''d'', rs_snapshot_hash = ''m'', rs_spec_json = JObj demo_spec, rs_rv_id = ''rv''\<rparr>]\<rparr>"
    by (auto simp: ensure_reconstruction_def Let_def stage_tables_of_def demo_defs)
  have ds: "get_dataset ''default'' ''d'' None demo_state = Inr demo_dataset"
    by (simp add: get_dataset_def demo_defs stage_tables_of_def)
  have sp: "validate_features_config demo_cfg project demo_spec = Inr demo_spec" for project
    by (simp add: validate_features_config_def check_stage_def demo_resolution)
      (simp add: demo_spec_def jget_def stage_backend_options_def json_or_def demo_cfg_def)
  have "\<exists>mat. derive_materialization ''default'' demo_dataset d1 = Inr mat"
    using demo_materialization
    by (simp only: ensure_materialization [of "''default''" demo_dataset demo_cfg "''r1''" "''default''"
          demo_dataset demo_spec demo_state, unfolded e fst_conv])
  then obtain mat where mat: "derive_materialization ''default'' demo_dataset d1 = Inr mat" by blast
  have none: "resolve_for demo_cfg ''default'' demo_dataset (json_or JNull (jget demo_spec ''input_artifacts'')) d1 = Inr []"
    by (simp add: resolve_for_def json_or_def demo_spec_def jget_def resolve_input_artifacts_def)
  have ids: "fr_recon (demo_ids ''1'') = ''r1''" "fr_job (demo_ids ''1'') = ''j1''" by (simp_all add: demo_ids_def)
  let ?inputs = "[(''project_id'', JStr (dataset_project_id demo_dataset)), (''dataset_id'', JStr (dataset_id demo_dataset)),
      (''recon_id'', JStr (rs_recon_id r)), (''manifest_hash'', JStr (manifest_hash demo_dataset)), (''materialization'', JObj mat),
      (''database_path'', JStr (reconstruction_database_path demo_cfg ''default'' (dataset_project_id demo_dataset) (rs_recon_id r)))]"
  obtain d' t ready where t: "submit_single_stage demo_cfg (demo_ids ''1'') ''default'' (dataset_project_id demo_dataset)
      ''features'' ''extract'' (with_artifacts [] ?inputs) demo_spec d1 = Inr (d', ''j1'', [t], ready)"
    "resources d' = resources d1" "task_inputs t = with_artifacts [] ?inputs" "task_spec t = JObj demo_spec"
    using demo_single_stage [of "demo_ids ''1''"] ids by metis
  have "stage_tables_of d' = stage_tables_of d1" by (simp add: stage_tables_of_def t(2))
  with t r show ?thesis
    unfolding submit_features_def ds sp checked_simps andthen.simps ids e prod.case mat none Let_def
    by (intro exI [of _ d'] exI [of _ t] exI [of _ ready]) (simp add: jget_def)
qed

lemma recipe_never_reuses_single_stage_witness:
  "\<exists>d' t ready. submit_features demo_cfg (demo_ids ''1'') ''default'' ''d'' demo_spec JNull demo_state = Inr (d', ''j1'', [t], ready) \<and>
     task_cache_key t \<notin> (\<lambda>n. cache_key (\<lambda>s. s) demo_printer n ''v'') `
       set (build_recipe_dag demo_cfg (demo_ids ''2'') ''p'' ''d'' ''r1'' [] ''db'' demo_spec [] [] [] [] [])"
proof -
  have cfg: "sha256 (sc_env demo_cfg) = (\<lambda>s. s)" "float_repr (sc_env demo_cfg) = demo_printer" "clash (\<lambda>s. s) = (\<lambda>a b. False)"
    by (simp_all add: demo_cfg_def demo_env_def clash_def fun_eq_iff)
  obtain d' t ready where run:
    "submit_features demo_cfg (demo_ids ''1'') ''default'' ''d'' demo_spec JNull demo_state = Inr (d', ''j1'', [t], ready)"
    using demo_features by blast
  then show ?thesis
    using recipe_never_reuses_single_stage [of demo_cfg d' "''j1''" "[t]" ready "demo_ids ''1''" "''default''" "''d''" demo_spec JNull
        demo_state t _ "demo_ids ''2''" "''p''" "''d''" "''r1''" "[]" "''db''" demo_spec "[]" "[]" "[]" "[]" "[]" "''v''"]
    by (auto simp: cfg demo_printer)
qed

lemma one_reconstruction_per_run_witness:
  "let d = fst (ensure_reconstruction demo_cfg ''r1'' ''default'' demo_dataset demo_spec demo_state) in
     rs_recon_id (snd (ensure_reconstruction demo_cfg ''r2'' ''default'' demo_dataset demo_spec d)) = ''r1'' \<and>
     rs_recon_id (snd (ensure_reconstruction demo_cfg ''r2'' ''default'' demo_dataset [] d)) \<noteq> ''r1''"
proof -
  obtain d r where e: "ensure_reconstruction demo_cfg ''r1'' ''default'' demo_dataset demo_spec demo_state = (d, r)" by fastforce
  then have r: "rs_recon_id r = ''r1''" "recon_specs (stage_tables_of d) = [r]"
    by (auto simp: ensure_reconstruction_def Let_def stage_tables_of_def demo_defs)
  have cfg: "sha256 (sc_env demo_cfg) = (\<lambda>s. s)" "float_repr (sc_env demo_cfg) = demo_printer" "clash (\<lambda>s. s) = (\<lambda>a b. False)"
    by (simp_all add: demo_cfg_def demo_env_def clash_def fun_eq_iff)
  have iff: "rs_recon_id (snd (ensure_reconstruction demo_cfg ''r2'' ''default'' demo_dataset spec d)) = ''r1'' \<longleftrightarrow>
      norm_json (JObj spec) = norm_json (JObj demo_spec)" for spec
    using one_reconstruction_per_run [OF _ e, of "''r2''" "''default''" demo_dataset spec
        "fst (ensure_reconstruction demo_cfg ''r2'' ''default'' demo_dataset spec d)"
        "snd (ensure_reconstruction demo_cfg ''r2'' ''default'' demo_dataset spec d)"] r
    by (simp add: cfg demo_printer)
  show ?thesis unfolding e Let_def fst_conv iff by (simp add: norm_obj demo_spec_def sort_key_def)
qed

lemma demo_matches:
  assumes "get_dataset ''default'' ''d'' None d = Inr demo_dataset"
  shows "\<exists>d' t ready. submit_matches demo_cfg (demo_ids ''2'') ''default'' ''d'' [] JNull d = Inr (d', ''j2'', [t], ready) \<and>
     jget (task_inputs t) ''input_artifacts'' = JNull"
proof -
  have ids: "fr_job (demo_ids ''2'') = ''j2''" by (simp add: demo_ids_def)
  have sp: "validate_matches_config demo_cfg project [] = Inr []" for project
    by (simp add: validate_matches_config_def spec_part_def demo_resolution Let_def jget_def stage_backend_options_def
        json_or_def put_part_def) (simp add: demo_cfg_def)
  have part: "spec_part [] ''pairs'' = Inr []" by (simp add: spec_part_def)
  obtain d1 r db where res: "resolve_database_path demo_cfg (fr_recon (demo_ids ''2'')) ''default'' demo_dataset [] d = (d1, r, db)"
    by (metis prod_cases3)
  let ?inputs = "[(''dataset_id'', JStr (dataset_id demo_dataset)), (''recon_id'', JStr (rs_recon_id r)),
      (''manifest_hash'', JStr (manifest_hash demo_dataset)), (''database_path'', JStr db)]"
  obtain d' t ready where t: "submit_single_stage demo_cfg (demo_ids ''2'') ''default'' (dataset_project_id demo_dataset)
      ''matches'' ''match'' ?inputs [] d1 = Inr (d', ''j2'', [t], ready)" "task_inputs t = ?inputs"
    using demo_single_stage [of "demo_ids ''2''"] ids by metis
  have pairs: "validate_explicit_pairs demo_cfg ''default'' demo_dataset [] [] d = Inr ()"
    by (simp add: validate_explicit_pairs_def explicit_sources_def jget_def guard_def)
  have none: "resolve_for demo_cfg ''default'' demo_dataset (JObj []) d1 = Inr []"
    by (simp add: resolve_for_def resolve_input_artifacts_def)
  show ?thesis
    unfolding submit_matches_def assms sp checked_simps andthen.simps part
    using t by (simp add: jget_def guard_def pairs none res with_artifacts_def database_path_from_input_artifacts_def)
qed

lemma stages_use_other_database_witness:
  "\<exists>d1 t ready d2 t' ready'. submit_features demo_cfg (demo_ids ''1'') ''default'' ''d'' demo_spec JNull demo_state = Inr (d1, ''j1'', [t], ready) \<and>
     submit_matches demo_cfg (demo_ids ''2'') ''default'' ''d'' [] JNull d1 = Inr (d2, ''j2'', [t'], ready') \<and>
     jget (task_inputs t') ''database_path'' \<noteq> jget (task_inputs t) ''database_path''"
proof -
  have cfg: "float_printer (float_repr (sc_env demo_cfg))" "clash (sha256 (sc_env demo_cfg)) = (\<lambda>a b. False)"
    by (simp_all add: demo_cfg_def demo_env_def clash_def demo_printer fun_eq_iff)
  obtain d1 t ready where f: "submit_features demo_cfg (demo_ids ''1'') ''default'' ''d'' demo_spec JNull demo_state = Inr (d1, ''j1'', [t], ready)"
    "task_spec t = JObj demo_spec" "jget (task_inputs t) ''recon_id'' = JStr ''r1''"
    "stage_tables_of d1 = demo_tables\<lparr>recon_specs := [\<lparr>rs_recon_id = ''r1'', rs_tenant_id = ''default'', rs_project_id = ''p'',
       rs_dataset_id = ''d'', rs_snapshot_hash = ''m'', rs_spec_json = JObj demo_spec, rs_rv_id = ''rv''\<rparr>]\<rparr>"
    using demo_features by blast
  have ds: "get_dataset ''default'' ''d'' None d1 = Inr demo_dataset"
    "get_dataset ''default'' ''d'' None demo_state = Inr demo_dataset"
    by (simp_all add: get_dataset_def f(4)) (simp_all add: demo_defs stage_tables_of_def)
  obtain d2 t' ready' where m: "submit_matches demo_cfg (demo_ids ''2'') ''default'' ''d'' [] JNull d1 = Inr (d2, ''j2'', [t'], ready')"
    "jget (task_inputs t') ''input_artifacts'' = JNull"
    using demo_matches [OF ds(1)] by blast
  have "clash (sha256 (sc_env demo_cfg)) (canonical_json (float_repr (sc_env demo_cfg)) (task_spec t))
      (canonical_json (float_repr (sc_env demo_cfg)) (JObj []))"
    if "jget (task_inputs t') ''database_path'' = jget (task_inputs t) ''database_path''"
    by (rule stages_use_other_database [OF cfg(1) f(1) m(1) _ _ _ _ _ _ that])
      (simp_all add: f m ds demo_ids_def demo_spec_def)
  then have "jget (task_inputs t') ''database_path'' \<noteq> jget (task_inputs t) ''database_path''" unfolding cfg(2) by blast
  with f(1) m(1) show ?thesis by blast
qed

end
