(* ===== verification/Stage_Contracts.thy ===== *)
theory Stage_Contracts
  imports Stage_Correct
begin

text \<open>
  The contracts of the other operations of the stage services: explicit image pairs, what the
  materialization of a dataset lists, the sources of a merge, the artifacts a request refers to
  and the tasks of a recipe.
\<close>

section \<open>Explicit pairs\<close>

definition names_pair :: "stage_cfg \<Rightarrow> string list \<Rightarrow> json \<Rightarrow> bool" where
  "names_pair C names v \<longleftrightarrow>
     (\<exists>p. v = JObj p \<and>
        (let a = text_or C p ''image_name1'' []; b = text_or C p ''image_name2'' [] in
         a \<noteq> [] \<and> b \<noteq> [] \<and> a \<noteq> b \<and> a \<in> set names \<and> b \<in> set names))"

lemma explicit_pair_Inr:
  "explicit_pair C (i, v) = Inr (a, b) \<longleftrightarrow>
     (\<exists>p. v = JObj p \<and> a = text_or C p ''image_name1'' [] \<and> b = text_or C p ''image_name2'' [] \<and>
        a \<noteq> [] \<and> b \<noteq> [] \<and> a \<noteq> b)"
  by (auto simp: explicit_pair_def raising_def Let_def split: json.splits)

lemma collect_explicit:
  "(\<exists>names. collect (explicit_pair C) ips = Inr names \<and>
      (\<forall>(a, b) \<in> set names. a \<in> set known \<and> b \<in> set known)) \<longleftrightarrow>
   (\<forall>(i, v) \<in> set ips. names_pair C known v)"
proof (induction ips)
  case (Cons e ips)
  obtain i v where e: "e = (i, v)" by (cases e)
  have "(\<exists>names. collect (explicit_pair C) (e # ips) = Inr names \<and>
      (\<forall>(a, b) \<in> set names. a \<in> set known \<and> b \<in> set known)) \<longleftrightarrow>
    (\<exists>a b. explicit_pair C (i, v) = Inr (a, b) \<and> a \<in> set known \<and> b \<in> set known) \<and>
    (\<exists>names. collect (explicit_pair C) ips = Inr names \<and>
      (\<forall>(a, b) \<in> set names. a \<in> set known \<and> b \<in> set known))"
    by (auto simp: e andthen_Inr)
  also have "(\<exists>a b. explicit_pair C (i, v) = Inr (a, b) \<and> a \<in> set known \<and> b \<in> set known) \<longleftrightarrow> names_pair C known v"
    by (auto simp: explicit_pair_Inr names_pair_def Let_def)
  finally show ?case unfolding Cons.IH by (simp add: e)
qed simp

definition listed_pairs :: "json dict \<Rightarrow> json list" where
  "listed_pairs pairs = (case jget pairs ''image_pairs'' of
      JList xs \<Rightarrow> xs | JObj e \<Rightarrow> map (JStr \<circ> fst) e | JStr s \<Rightarrow> map (\<lambda>c. JStr [c]) s | _ \<Rightarrow> [])"

lemma guard_ok: "guard b e = Inr () \<longleftrightarrow> \<not> b"
  by (simp add: guard_def)

lemma zip_snd: "(\<forall>(i, v) \<in> set (zip [0..<length xs] xs). P v) \<longleftrightarrow> (\<forall>v \<in> set xs. P v)"
proof -
  have "(\<forall>(i, v) \<in> set (zip [0..<length xs] xs). P v) \<longleftrightarrow> (\<forall>v \<in> snd ` set (zip [0..<length xs] xs). P v)"
    by (simp add: split_beta)
  also have "snd ` set (zip [0..<length xs] xs) = set xs"
    by (metis length_upt minus_nat.diff_0 map_snd_zip set_map)
  finally show ?thesis .
qed

lemma no_missing:
  "filter (\<lambda>n. n \<notin> A) (concat (map (\<lambda>(a, b). [a, b]) names)) = [] \<longleftrightarrow>
   (\<forall>(a, b) \<in> set names. a \<in> A \<and> b \<in> A)"
  by (fastforce simp: filter_empty_conv)

text \<open>
  A pairs specification is accepted if and only if a strategy other than \<open>explicit\<close> comes
  without explicit sources, or the strategy is \<open>explicit\<close> with exactly one source, which is an
  artifact, a finalized blob, or a list whose every entry names two different images of the
  dataset.
\<close>

theorem explicit_pairs_accepted_iff:
  "validate_explicit_pairs C tenant ds pairs input_artifacts d = Inr () \<longleftrightarrow>
   (let listed = truthy (jget pairs ''image_pairs''); blob = truthy (jget pairs ''pairs_blob_sha'');
        artifact = truthy (jget input_artifacts ''pairs'') in
    if jget pairs ''strategy'' \<noteq> JStr ''explicit'' then \<not> listed \<and> \<not> blob \<and> \<not> artifact
    else artifact \<and> \<not> listed \<and> \<not> blob \<or>
      blob \<and> \<not> listed \<and> \<not> artifact \<and>
        json_text C (jget pairs ''pairs_blob_sha'') \<in> set (known_blobs (stage_tables_of d)) \<or>
      listed \<and> \<not> blob \<and> \<not> artifact \<and>
        list_all (names_pair C (map image_name (dataset_images tenant (dataset_id ds) d))) (listed_pairs pairs))"
proof -
  let ?known = "map image_name (dataset_images tenant (dataset_id ds) d)"
  have list: "(\<exists>names. collect (explicit_pair C) (zip [0..<length xs] xs) = Inr names \<and>
      filter (\<lambda>n. n \<notin> set ?known) (concat (map (\<lambda>(a, b). [a, b]) names)) = []) \<longleftrightarrow>
    list_all (names_pair C ?known) xs" for xs
  proof -
    show ?thesis
      unfolding no_missing collect_explicit zip_snd list_all_iff ..
  qed
  show ?thesis
    using list [of "listed_pairs pairs"]
    by (cases "truthy (jget pairs ''image_pairs'')"; cases "truthy (jget pairs ''pairs_blob_sha'')";
        cases "truthy (jget input_artifacts ''pairs'')")
      (simp_all add: validate_explicit_pairs_def explicit_sources_def Let_def guard_ok raising_def andthen_Inr
        listed_pairs_def)
qed

section \<open>The images a task is given\<close>

definition safe_path :: "string \<Rightarrow> bool" where
  "safe_path p \<longleftrightarrow>
     p \<noteq> [] \<and> CHR 0x00 \<notin> set p \<and> hd p \<noteq> CHR ''/'' \<and> hd p \<noteq> CHR 0x5C \<and>
     \<not> (1 < length p \<and> p ! 1 = CHR '':'') \<and> path_parts p \<noteq> [] \<and> ''..'' \<notin> set (path_parts p)"

lemma validate_safe: "validate_safe_relative_path field s = Inr p \<Longrightarrow> p = s \<and> safe_path p"
  by (auto simp: validate_safe_relative_path_def raising_def safe_path_def split: if_splits)

lemma local_entry_safe:
  assumes "local_entry i = Inr (k, v)"
  shows "k = image_name i \<and> safe_path k \<and> (\<exists>p. v = JStr p \<and> safe_path p)"
  using assms by (auto simp: local_entry_def andthen_Inr dest!: validate_safe)

lemma local_entries:
  "list_all2 (\<lambda>i e. local_entry i = Inr e) rows entries \<Longrightarrow>
   fst ` set entries = image_name ` set rows \<and>
   (\<forall>(k, v) \<in> set entries. safe_path k \<and> (\<exists>p. v = JStr p \<and> safe_path p))"
  by (induction rule: list_all2_induct) (auto dest: local_entry_safe)

definition lists_images :: "json dict \<Rightarrow> string list \<Rightarrow> bool" where
  "lists_images mat names \<longleftrightarrow>
     (\<exists>sorted_names. jget mat ''image_list'' = JList (map JStr sorted_names) \<and>
        sorted sorted_names \<and> mset sorted_names = mset names)"

lemma ordered_names:
  "sorted (map image_name (order_by_name rows)) \<and> mset (map image_name (order_by_name rows)) = mset (map image_name rows)"
  by (simp add: order_by_name_def)

lemma materialization_cases:
  assumes "derive_materialization tenant ds d = Inr mat"
  obtains src extra where "find (\<lambda>s. source_id s = dataset_source_id ds) (sources (stage_tables_of d)) = Some src"
    "order_by_name (dataset_images tenant (dataset_id ds) d) \<noteq> []"
    "mat = [(''kind'', JStr (source_kind src)),
            (''image_list'', JList (map (JStr \<circ> image_name) (order_by_name (dataset_images tenant (dataset_id ds) d))))] @ extra"
    "source_kind src = ''local'' \<longrightarrow> (\<exists>root entries. uri_or_root src = Some root \<and> root \<noteq> [] \<and>
       extra = [(''image_root'', JStr root), (''rel_paths'', JObj (put_all entries []))] \<and>
       collect local_entry (order_by_name (dataset_images tenant (dataset_id ds) d)) = Inr entries)"
    "source_kind src \<in> {''local'', ''upload'', ''s3''}"
    "source_kind src \<noteq> ''local'' \<longrightarrow> map_of extra ''image_root'' = Some JNull"
proof -
  obtain src where src: "find (\<lambda>s. source_id s = dataset_source_id ds) (sources (stage_tables_of d)) = Some src"
    using assms by (auto simp: derive_materialization_def raising_def split: option.splits)
  let ?rows = "order_by_name (dataset_images tenant (dataset_id ds) d)"
  note run = assms [unfolded derive_materialization_def src option.case Let_def]
  have rows: "?rows \<noteq> []" using run by (auto simp: raising_def)
  have kinds: "source_kind src \<in> {''local'', ''upload'', ''s3''}"
    using run rows by (auto simp: raising_def split: if_splits)
  consider "source_kind src = ''local''" | "source_kind src = ''upload''" | "source_kind src = ''s3''" using kinds by blast
  then show thesis
  proof cases
    case 1
    then show thesis
      using run rows by (intro that [OF src rows _ _ kinds]) (auto simp: raising_def andthen_Inr split: if_splits option.splits)
  next
    case 2
    then show thesis
      using run rows by (intro that [OF src rows _ _ kinds]) (auto simp: raising_def)
  next
    case 3
    then show thesis
      using run rows
      by (cases "uri_or_root src"; intro that [OF src rows _ _ kinds]) (auto simp: raising_def split: if_splits)
  qed
qed

text \<open>
  C32. A materialization lists exactly the images of the dataset, at least one, ordered by name;
  when it names a local root, it gives a path for every image name and for nothing else, and
  every name and path is relative, without a parent component, so it stays under the root.
\<close>

theorem materialization_stays_under_root:
  assumes "derive_materialization tenant ds d = Inr mat"
  shows "dataset_images tenant (dataset_id ds) d \<noteq> [] \<and>
    lists_images mat (map image_name (dataset_images tenant (dataset_id ds) d)) \<and>
    (truthy (jget mat ''image_root'') \<longrightarrow>
      (\<exists>m. jget mat ''rel_paths'' = JObj m \<and>
        fst ` set m = image_name ` set (dataset_images tenant (dataset_id ds) d) \<and>
        (\<forall>(k, v) \<in> set m. safe_path k \<and> (\<exists>p. v = JStr p \<and> safe_path p))))"
proof (rule materialization_cases [OF assms])
  let ?imgs = "dataset_images tenant (dataset_id ds) d"
  fix src extra
  assume rows: "order_by_name ?imgs \<noteq> []" and mat: "mat = [(''kind'', JStr (source_kind src)),
            (''image_list'', JList (map (JStr \<circ> image_name) (order_by_name ?imgs)))] @ extra"
    and loc: "source_kind src = ''local'' \<longrightarrow> (\<exists>root entries. uri_or_root src = Some root \<and> root \<noteq> [] \<and>
       extra = [(''image_root'', JStr root), (''rel_paths'', JObj (put_all entries []))] \<and>
       collect local_entry (order_by_name ?imgs) = Inr entries)"
    and other: "source_kind src \<noteq> ''local'' \<longrightarrow> map_of extra ''image_root'' = Some JNull"
  have "lists_images mat (map image_name ?imgs)"
    unfolding lists_images_def using ordered_names [of ?imgs]
    by (intro exI [of _ "map image_name (order_by_name ?imgs)"]) (simp add: mat jget_def)
  moreover have "\<exists>m. jget mat ''rel_paths'' = JObj m \<and> fst ` set m = image_name ` set ?imgs \<and>
        (\<forall>(k, v) \<in> set m. safe_path k \<and> (\<exists>p. v = JStr p \<and> safe_path p))" if "truthy (jget mat ''image_root'')"
  proof -
    have "source_kind src = ''local''" using that other by (auto simp: mat jget_def)
    then obtain root entries where extra: "extra = [(''image_root'', JStr root), (''rel_paths'', JObj (put_all entries []))]"
      and "list_all2 (\<lambda>i e. local_entry i = Inr e) (order_by_name ?imgs) entries"
      using loc by (auto simp: collect_Inr)
    from local_entries [OF this(2)] have "fst ` set entries = image_name ` set ?imgs \<and>
      (\<forall>(k, v) \<in> set entries. safe_path k \<and> (\<exists>p. v = JStr p \<and> safe_path p))"
      by (simp add: order_by_name_def)
    moreover have "jget mat ''rel_paths'' = JObj (put_all entries [])" by (simp add: mat extra jget_def)
    ultimately show ?thesis using put_all_set [of entries "[]"] by auto
  qed
  ultimately show ?thesis using rows by (auto simp: order_by_name_def)
qed

section \<open>The tasks of a recipe\<close>

lemma ensure_tasks [simp]: "tasks (fst (ensure_reconstruction C nid tenant ds spec d)) = tasks d"
  "jobs (fst (ensure_reconstruction C nid tenant ds spec d)) = jobs d"
  by (simp_all add: ensure_reconstruction_def Let_def split: option.split)

lemma submit_nodes_Inr:
  "submit_nodes C F tenant project rcp spec nodes d = Inr y \<longleftrightarrow>
   submit_job_dag (sc_env C) (sc_now C) (fr_job F) [] (sc_runtime_version C) tenant project rcp
     (Some (JObj spec)) nodes d = Inr y"
  by (cases "submit_job_dag (sc_env C) (sc_now C) (fr_job F) [] (sc_runtime_version C) tenant project rcp
     (Some (JObj spec)) nodes d") (simp_all add: submit_nodes_def)

lemma recipe_submission:
  assumes "submit_recipe_nodes C F tenant project rcp ds pspec input jspec build d = Inr y"
  shows "\<exists>d' spec rid mat db priors resolved. tasks d' = tasks d \<and> jobs d' = jobs d \<and>
    submit_job_dag (sc_env C) (sc_now C) (fr_job F) [] (sc_runtime_version C) tenant project rcp (Some (JObj spec))
      (build rid mat db priors resolved) d' = Inr y"
proof -
  obtain d' r where e: "ensure_reconstruction C (fr_recon F) tenant ds pspec d = (d', r)" by fastforce
  then have "tasks d' = tasks d" "jobs d' = jobs d" by (metis ensure_tasks fst_conv)+
  moreover have "\<exists>spec mat db priors resolved.
      submit_nodes C F tenant project rcp spec (build (rs_recon_id r) mat db priors resolved) d' = Inr y"
    using assms unfolding submit_recipe_nodes_def e andthen_Inr Let_def prod.case
    by (elim exE conjE) (intro exI, assumption)
  ultimately show ?thesis unfolding submit_nodes_Inr by blast
qed

text \<open>The stages of a recipe and the chain they form: \<open>feed_forward\<close> maps the raw views in one task.\<close>

definition recipe_stages :: "string \<Rightarrow> string list" where
  "recipe_stages rcp = (if rcp = ''feed_forward'' then [''map''] else [''extract'', ''match'', ''verify'', ''map''])"

definition chain_of :: "string list \<Rightarrow> string list \<Rightarrow> (string \<times> string \<times> string list) list" where
  "chain_of kinds ids = map (\<lambda>i. (ids ! i, kinds ! i, if i = 0 then [] else [ids ! (i - 1)])) [0..<length kinds]"

lemma recipe_chains:
  "rcp \<noteq> ''feed_forward'' \<Longrightarrow> map (\<lambda>n. (node_id n, node_kind n, node_depends_on n))
     (build_recipe_dag C F project did rid mat db fs ms vs ps priors inputs) = chain_of (recipe_stages rcp) (fr_nodes F)"
  "map (\<lambda>n. (node_id n, node_kind n, node_depends_on n))
     (build_feed_forward_dag C F project did rid mat db ps priors inputs) = chain_of (recipe_stages ''feed_forward'') (fr_nodes F)"
  by (simp_all add: build_recipe_dag_def build_feed_forward_dag_def Let_def chain_of_def recipe_stages_def stage_node_def
      numeral_2_eq_2 numeral_3_eq_3)

lemma run_recipe_dag:
  assumes "run_recipe C F tenant project rcp q d = Inr y"
  shows "\<exists>d' spec nodes. tasks d' = tasks d \<and> jobs d' = jobs d \<and>
    map (\<lambda>n. (node_id n, node_kind n, node_depends_on n)) nodes = chain_of (recipe_stages rcp) (fr_nodes F) \<and>
    submit_job_dag (sc_env C) (sc_now C) (fr_job F) [] (sc_runtime_version C) tenant project rcp (Some (JObj spec))
      nodes d' = Inr y"
proof (cases "rcp = ''feed_forward''")
  case True
  then obtain ds pspec input jspec where "submit_recipe_nodes C F tenant project rcp ds pspec input jspec
      (\<lambda>rid mat db priors resolved.
         build_feed_forward_dag C F project (dataset_id ds) rid mat db pspec priors resolved) d = Inr y"
    using assms unfolding run_recipe_def by (auto simp: andthen_Inr)
  from recipe_submission [OF this] recipe_chains(2) True show ?thesis by blast
next
  case False
  then obtain ds pspec input jspec fs ms vs where "submit_recipe_nodes C F tenant project rcp ds pspec input jspec
      (\<lambda>rid mat db priors resolved.
         build_recipe_dag C F project (dataset_id ds) rid mat db fs ms vs pspec priors resolved) d = Inr y"
    using assms unfolding run_recipe_def by (auto simp: andthen_Inr)
  from recipe_submission [OF this] recipe_chains(1) [OF False] show ?thesis by blast
qed

lemma chain_rows:
  assumes "map (\<lambda>t. (task_id t, kind t, deps_of t)) rows = chain_of kinds ids" and "i < length rows"
  shows "deps_of (rows ! i) = (if i = 0 then [] else [task_id (rows ! (i - 1))])"
proof -
  have len: "length rows = length kinds" using arg_cong [OF assms(1), of length] by (simp add: chain_of_def)
  have "task_id (rows ! j) = ids ! j \<and> deps_of (rows ! j) = (if j = 0 then [] else [ids ! (j - 1)])" if "j < length rows" for j
    using arg_cong [OF assms(1), of "\<lambda>xs. xs ! j"] that by (simp add: chain_of_def len)
  from this [OF assms(2)] this [of "i - 1"] assms(2) show ?thesis by (cases i) simp_all
qed

lemma chain_ids:
  assumes "map (\<lambda>n. (node_id n, node_kind n, node_depends_on n)) nodes = chain_of kinds ids"
    and "length kinds \<le> length ids"
  shows "map node_id nodes = take (length kinds) ids"
proof -
  have "map node_id nodes = map ((!) ids) [0..<length kinds]"
    using arg_cong [OF assms(1), of "map fst"] by (simp add: comp_def chain_of_def)
  also have "\<dots> = take (length kinds) ids"
    using assms(2) by (intro nth_equalityI) simp_all
  finally show ?thesis .
qed

text \<open>
  C29. An accepted recipe becomes a chain of tasks, each waiting for the one before: extract,
  match, verify and map, or for \<open>feed_forward\<close> the one task map. The queue is given exactly the
  pending ones that have nothing to wait for: the first, and any whose predecessor was found in
  the cache. The ids drawn for the job and its tasks are assumed to be new.
\<close>

theorem recipe_hands_over_frontier:
  assumes "run_recipe C F tenant project rcp q d = Inr (d', jid, rows, ready)"
    and "keys_unique d" and "fresh_ids d (fr_job F) (take (length (recipe_stages rcp)) (fr_nodes F))"
    and "length (recipe_stages rcp) \<le> length (fr_nodes F)"
  shows "map (\<lambda>t. (task_id t, kind t, deps_of t)) rows = chain_of (recipe_stages rcp) (fr_nodes F) \<and>
    set ready = {task_id (rows ! i) | i. i < length rows \<and> status (rows ! i) = Pending \<and>
      (i = 0 \<or> status (rows ! (i - 1)) = Succeeded)}"
proof -
  obtain d0 spec nodes where d0: "tasks d0 = tasks d" "jobs d0 = jobs d"
    and nodes: "map (\<lambda>n. (node_id n, node_kind n, node_depends_on n)) nodes = chain_of (recipe_stages rcp) (fr_nodes F)"
    and run: "submit_job_dag (sc_env C) (sc_now C) (fr_job F) [] (sc_runtime_version C) tenant project rcp (Some (JObj spec))
      nodes d0 = Inr (d', jid, rows, ready)"
    using run_recipe_dag [OF assms(1)] by blast
  have "list_all2 (\<lambda>n t. (task_id t, kind t, deps_of t) = (node_id n, node_kind n, node_depends_on n)) nodes rows"
    using submit_rows_of_nodes [OF run] by (rule list_all2_mono) (simp add: row_of_node_def)
  then have rows: "map (\<lambda>t. (task_id t, kind t, deps_of t)) rows = chain_of (recipe_stages rcp) (fr_nodes F)"
    unfolding nodes [symmetric] by (simp add: list_all2_conv_all_nth list_eq_iff_nth_eq)
  note deps = chain_rows [OF rows]
  note ids = chain_ids [OF nodes assms(4)]
  note sub = submit_tasks [OF run]
  have uniq: "distinct (map task_id (tasks d0 @ rows))"
    using assms(2,3) sub(3) by (auto simp: keys_unique_def fresh_ids_def d0 ids simp flip: set_map)
  have st: "statuses_of (tasks d') (task_id t) = Some (status t)" if "t \<in> set rows" for t
    using statuses_of_mem [OF uniq] that by (simp add: sub(1))
  have known: "statuses_of (tasks d') (task_id t) \<in> {Some Succeeded, Some Skipped} \<longleftrightarrow> status t = Succeeded"
    if "t \<in> set rows" for t using st [OF that] sub(4) [OF that] by auto
  have "set ready = {task_id t | t. t \<in> set rows \<and> status t = Pending \<and>
      statuses_of (tasks d') ` set (deps_of t) \<subseteq> {Some Succeeded, Some Skipped}}"
    using submit_ready_set [OF _ _ run] assms(2,3) by (simp add: keys_unique_def fresh_ids_def d0 ids)
  also have "\<dots> = {task_id (rows ! i) | i. i < length rows \<and> status (rows ! i) = Pending \<and>
      statuses_of (tasks d') ` set (deps_of (rows ! i)) \<subseteq> {Some Succeeded, Some Skipped}}"
    unfolding in_set_conv_nth by blast
  also have "\<dots> = {task_id (rows ! i) | i. i < length rows \<and> status (rows ! i) = Pending \<and>
      (i = 0 \<or> status (rows ! (i - 1)) = Succeeded)}"
  proof -
    have "statuses_of (tasks d') ` set (deps_of (rows ! i)) \<subseteq> {Some Succeeded, Some Skipped} \<longleftrightarrow>
        i = 0 \<or> status (rows ! (i - 1)) = Succeeded" if "i < length rows" for i
      using deps [OF that] known [of "rows ! (i - 1)"] that by simp
    then show ?thesis by blast
  qed
  finally show ?thesis using rows by blast
qed

section \<open>Sources of a merge\<close>

lemma merge_source_Inr:
  assumes "merge_source C tenant project d rid = Inr dir"
  shows "\<exists>r \<in> set (recon_specs (stage_tables_of d)). rs_recon_id r = rid \<and> rs_tenant_id r = tenant \<and>
    rs_project_id r = project \<and> dir = snd (reconstruction_paths C tenant r)"
  using assms by (auto simp: merge_source_def andthen_Inr get_reconstruction_def raising_def find_Some_iff
      split: option.splits if_splits)

lemma with_provider_Inr:
  "with_provider spec r = Inr (y, p) \<longleftrightarrow> r = Inr y \<and> p = jget spec ''provider''"
  by (cases r) (auto simp: with_provider_def)

text \<open>
  An accepted merge is one task whose source directories are, in the order given, those of
  reconstructions of the same tenant and of the target's project: no merge reads across
  tenants or projects.
\<close>

theorem merge_stays_in_project:
  assumes "submit_merge_recons C F tenant target source_ids aligners provider d = Inr ((d', jid, rows, ready), p)"
  shows "\<exists>t tr dirs. rows = [t] \<and> tr \<in> set (recon_specs (stage_tables_of d)) \<and> rs_recon_id tr = target \<and>
    rs_tenant_id tr = tenant \<and> jget (task_inputs t) ''source_sparse_dirs'' = JList (map JStr dirs) \<and>
    list_all2 (\<lambda>rid dir. \<exists>r \<in> set (recon_specs (stage_tables_of d)). rs_recon_id r = rid \<and> rs_tenant_id r = tenant \<and>
      rs_project_id r = rs_project_id tr \<and> dir = snd (reconstruction_paths C tenant r)) source_ids dirs"
proof -
  obtain tr where tr: "get_reconstruction tenant target d = Inr tr"
    using assms by (auto simp: submit_merge_recons_def andthen_Inr)
  then have "tr \<in> set (recon_specs (stage_tables_of d))" "rs_recon_id tr = target" "rs_tenant_id tr = tenant"
    by (auto simp: get_reconstruction_def raising_def find_Some_iff split: option.splits)
  moreover obtain dirs where dirs: "collect (merge_source C tenant (rs_project_id tr) d) source_ids = Inr dirs"
    using assms by (auto simp: submit_merge_recons_def andthen_Inr tr)
  moreover from this have "list_all2 (\<lambda>rid dir. \<exists>r \<in> set (recon_specs (stage_tables_of d)). rs_recon_id r = rid \<and>
      rs_tenant_id r = tenant \<and> rs_project_id r = rs_project_id tr \<and> dir = snd (reconstruction_paths C tenant r)) source_ids dirs"
    unfolding collect_Inr by (rule list_all2_mono) (rule merge_source_Inr)
  moreover obtain spec where "submit_single_stage C F tenant (rs_project_id tr) ''merge_recons'' ''merge_recons''
       [(''target_recon_id'', JStr (rs_recon_id tr)),
        (''target_reconstruction_root'', JStr (fst (reconstruction_paths C tenant tr))),
        (''source_sparse_dirs'', JList (map JStr dirs))] spec d = Inr (d', jid, rows, ready)"
    using assms by (auto simp: submit_merge_recons_def andthen_Inr tr dirs with_provider_Inr)
  from single_stage_row [OF this] obtain t where "rows = [t]"
    "jget (task_inputs t) ''source_sparse_dirs'' = JList (map JStr dirs)"
    by (auto simp: jget_def)
  ultimately show ?thesis by blast
qed

section \<open>Artifact references\<close>

text \<open>
  C31. Every artifact reference that is accepted names an existing artifact of the tenant whose
  kind is the one the request expects and one the role allows, and which is not of another
  dataset; the roles are those of the request, in its order.
\<close>

theorem resolved_artifacts_usable:
  assumes "resolve_input_artifacts io tenant dataset rows (JObj refs) = Inr resolved"
  shows "list_all2 (\<lambda>(role, v) (role', entry). role' = role \<and> is_valid_artifact_key role \<and>
     (\<exists>a \<in> set rows. usable tenant dataset role a \<and> entry = resolved_entry io a \<and>
        jget (obj_fields v) ''artifact_id'' = JStr (artifact_id a) \<and>
        (jget (obj_fields v) ''kind'' = JNull \<or> jget (obj_fields v) ''kind'' = JStr (artifact_kind a)))) refs resolved"
proof -
  have "list_all2 (\<lambda>e e'. resolve_one io tenant dataset rows e = Inr e') refs resolved"
    using assms by (cases "refs = []") (auto simp: resolve_input_artifacts_def collect_Inr)
  then show ?thesis
  proof (rule list_all2_mono)
    fix e e' assume "resolve_one io tenant dataset rows e = Inr e'"
    with resolve_one_Inr [of io tenant dataset rows e "fst e'" "snd e'"]
    show "(\<lambda>(role, v) (role', entry). role' = role \<and> is_valid_artifact_key role \<and>
      (\<exists>a \<in> set rows. usable tenant dataset role a \<and> entry = resolved_entry io a \<and>
        jget (obj_fields v) ''artifact_id'' = JStr (artifact_id a) \<and>
        (jget (obj_fields v) ''kind'' = JNull \<or> jget (obj_fields v) ''kind'' = JStr (artifact_kind a)))) e e'"
      by (cases e; cases e') auto
  qed
qed

section \<open>Witnesses\<close>

lemma materialization_stays_under_root_witness:
  "\<exists>mat. derive_materialization ''default'' demo_dataset demo_state = Inr mat \<and> lists_images mat [''b.jpg'', ''a.jpg'']"
proof -
  obtain mat where mat: "derive_materialization ''default'' demo_dataset demo_state = Inr mat"
    using demo_materialization by blast
  have "map image_name (dataset_images ''default'' (dataset_id demo_dataset) demo_state) = [''b.jpg'', ''a.jpg'']"
    by (simp add: dataset_images_def demo_defs stage_tables_of_def)
  with materialization_stays_under_root [OF mat] mat show ?thesis by auto
qed

definition demo_request :: recipe_request where
  "demo_request = \<lparr>rq_dataset_id = ''d'', rq_features = [], rq_pairs = [], rq_matcher = [], rq_verify = [],
     rq_spec = [(''kind'', JStr ''incremental'')], rq_input_artifacts = []\<rparr>"

lemma demo_recipe:
  "\<exists>d' rows ready. run_recipe demo_cfg (demo_ids ''1'') ''default'' ''p'' ''incremental'' demo_request demo_state =
     Inr (d', ''j1'', rows, ready)"
proof -
  have ds: "get_dataset ''default'' ''d'' (Some ''p'') demo_state = Inr demo_dataset"
    by (simp add: get_dataset_def demo_defs stage_tables_of_def)
  have check: "check_stage demo_cfg stage cap project spec = Inr spec"
    if "map_of spec ''provider'' = None" "map_of spec ''backend_options'' = None" for stage cap project spec
    using that by (simp add: check_stage_def demo_resolution stage_backend_options_def jget_def json_or_def) (simp add: demo_cfg_def)
  have matches: "validate_matches_config demo_cfg project [(''pairs'', JObj []), (''matcher'', JObj [])] =
      Inr [(''pairs'', JObj []), (''matcher'', JObj [])]" for project
    by (simp add: validate_matches_config_def spec_part_def demo_resolution Let_def jget_def stage_backend_options_def
        json_or_def put_part_def) (simp add: demo_cfg_def)
  obtain mat where mat: "derive_materialization ''default'' demo_dataset demo_state = Inr mat"
    using demo_materialization by blast
  obtain d1 r where e: "ensure_reconstruction demo_cfg (fr_recon (demo_ids ''1'')) ''default'' demo_dataset
      [(''kind'', JStr ''incremental'')] demo_state = (d1, r)" by fastforce
  have none: "resolve_for demo_cfg ''default'' demo_dataset (JObj []) demo_state = Inr []"
    by (simp add: resolve_for_def resolve_input_artifacts_def)
  have job: "fr_job (demo_ids ''1'') = ''j1''" by (simp add: demo_ids_def)
  have sub: "\<exists>d' rows ready. submit_nodes demo_cfg (demo_ids ''1'') ''default'' ''p'' ''incremental'' spec nodes d1 =
      Inr (d', ''j1'', rows, ready)" for spec nodes
    using demo_submission [of 0 "''j1''" "''v''" "''default''" "''p''" "''incremental''" "Some (JObj spec)" nodes d1]
    by (auto simp: submit_nodes_def demo_cfg_def demo_ids_def)
  show ?thesis
    unfolding run_recipe_def demo_request_def
    using sub by (simp add: jget_def guard_def ds validate_features_config_def validate_verify_config_def
        validate_mapping_config_def check matches submit_recipe_nodes_def part_artifacts_def put_all_def none mat e Let_def)
qed

lemma recipe_hands_over_frontier_witness:
  "\<exists>d' rows ready. run_recipe demo_cfg (demo_ids ''1'') ''default'' ''p'' ''incremental'' demo_request demo_state =
     Inr (d', ''j1'', rows, ready) \<and>
   map (\<lambda>t. (task_id t, kind t, deps_of t)) rows =
     [(''11'', ''extract'', []), (''21'', ''match'', [''11'']), (''31'', ''verify'', [''21'']), (''41'', ''map'', [''31''])]"
proof -
  obtain d' rows ready where run: "run_recipe demo_cfg (demo_ids ''1'') ''default'' ''p'' ''incremental'' demo_request demo_state =
     Inr (d', ''j1'', rows, ready)" using demo_recipe by blast
  have "map (\<lambda>t. (task_id t, kind t, deps_of t)) rows = chain_of (recipe_stages ''incremental'') (fr_nodes (demo_ids ''1''))"
    using recipe_hands_over_frontier [OF run]
    by (simp add: keys_unique_def fresh_ids_def demo_state_def demo_ids_def recipe_stages_def)
  with run show ?thesis by (simp add: chain_of_def recipe_stages_def demo_ids_def upt_rec)
qed

definition demo_recons :: stage_state where
  "demo_recons = demo_state\<lparr>resources := (resources demo_state)\<lparr>others := demo_tables\<lparr>recon_specs :=
     map (\<lambda>i. \<lparr>rs_recon_id = i, rs_tenant_id = ''default'', rs_project_id = ''p'', rs_dataset_id = ''d'',
       rs_snapshot_hash = ''m'', rs_spec_json = JObj [(''i'', JStr i)], rs_rv_id = ''rv''\<rparr>) [''r1'', ''r2'']\<rparr>\<rparr>\<rparr>"

lemma demo_provider:
  "\<exists>d' t ready p. with_provider spec (submit_single_stage demo_cfg F tenant project rcp k inputs spec d) =
     Inr ((d', fr_job F, [t], ready), p)"
  using demo_single_stage [of F tenant project rcp k inputs spec d] by (auto simp: with_provider_def)

lemma merge_stays_in_project_witness:
  "\<exists>s p. submit_merge_recons demo_cfg (demo_ids ''1'') ''default'' ''r1'' [''r2''] [] None demo_recons = Inr (s, p) \<and>
     length (fst (snd (snd s))) = 1"
proof -
  have find: "get_reconstruction ''default'' i demo_recons = Inr \<lparr>rs_recon_id = i, rs_tenant_id = ''default'', rs_project_id = ''p'',
      rs_dataset_id = ''d'', rs_snapshot_hash = ''m'', rs_spec_json = JObj [(''i'', JStr i)], rs_rv_id = ''rv''\<rparr>"
    if "i \<in> {''r1'', ''r2''}" for i
    using that by (auto simp: get_reconstruction_def demo_recons_def stage_tables_of_def)
  have cap: "require_capability demo_cfg c = Inr ()" for c
    by (simp add: require_capability_def guard_def demo_cfg_def)
  have "\<exists>d' t ready p. submit_merge_recons demo_cfg (demo_ids ''1'') ''default'' ''r1'' [''r2''] [] None demo_recons =
      Inr ((d', fr_job (demo_ids ''1''), [t], ready), p)"
    using demo_provider [of _ "demo_ids ''1''"]
    by (simp add: submit_merge_recons_def cap find merge_source_def optional_provider_def demo_resolution jget_def)
  then obtain d' t ready p where run: "submit_merge_recons demo_cfg (demo_ids ''1'') ''default'' ''r1'' [''r2''] [] None demo_recons =
      Inr ((d', fr_job (demo_ids ''1''), [t], ready), p)" by blast
  with merge_stays_in_project [OF run] show ?thesis by auto
qed

definition demo_artifact :: artifact_row where
  "demo_artifact = \<lparr>artifact_id = ''a'', artifact_tenant_id = ''default'', artifact_job_id = ''j'', artifact_task_id = ''t'',
     artifact_recon_id = None, artifact_dataset_id = Some ''d'', artifact_kind = ''features.local.v1'', artifact_name = None,
     artifact_uri = None, artifact_media_type = None, artifact_summary_json = None, artifact_metadata_json = None\<rparr>"

lemma resolved_artifacts_usable_witness:
  "\<exists>v. resolve_input_artifacts (\<lambda>f. f) ''default'' (Some ''d'') [demo_artifact]
     (JObj [(''features'', JObj [(''artifact_id'', JStr ''a'')])]) = Inr [(''features'', v)]"
proof -
  let ?r = "resolve_input_artifacts (\<lambda>f. f) ''default'' (Some ''d'') [demo_artifact]
     (JObj [(''features'', JObj [(''artifact_id'', JStr ''a'')])])"
  have "\<exists>x. ?r = Inr x"
    by (simp add: resolve_input_artifacts_def resolve_one_def artifact_ref_def jget_def is_valid_artifact_key_def key_char_def
        get_artifact_def demo_artifact_def is_artifact_allowed_for_role_def ARTIFACT_INPUT_ROLE_KINDS_def ascii_digit_def lower_alpha_def)
  then obtain x where x: "?r = Inr x" by blast
  from resolved_artifacts_usable [OF x] x show ?thesis by (auto simp: list_all2_Cons1)
qed

end
