(* ===== verification/Public_Outputs.thy ===== *)
theory Public_Outputs
  imports Artifact_Inputs
begin

text \<open>
  \<open>core/public_outputs.py\<close>: what clients see of the outputs of a task. Keys that may carry
  secrets or host paths are dropped at every depth, local references are cut to a name, and
  text is redacted. Two functions on text are arguments: \<open>red key text\<close> is
  \<open>_redact_public_text\<close>, a sequence of substitutions by regular expressions, and \<open>uri\<close> is
  \<open>sanitize_public_artifact_uri\<close>, which parses URLs and IP addresses.

  The patterns of keys are finite sets of words, searched for without regard to case.
\<close>

section \<open>Keys\<close>

definition lower_char :: "char \<Rightarrow> char" where
  "lower_char c = (if 65 \<le> (of_char c :: nat) \<and> (of_char c :: nat) \<le> 90 then char_of ((of_char c :: nat) + 32) else c)"

definition lower :: "string \<Rightarrow> string" where
  "lower s = map lower_char s"

fun contains :: "string \<Rightarrow> string \<Rightarrow> bool" where
  "contains p [] = (p = [])"
| "contains p (c # s) = (starts p (c # s) \<or> contains p s)"

definition PUBLIC_DROP_KEY_WORDS :: "string list" where
  "PUBLIC_DROP_KEY_WORDS =
     [''hostpath'', ''host_path'', ''localpath'', ''local_path'', ''sealedpath'', ''sealed_path'', ''workspace'',
      ''mount'', ''env'', ''secret'', ''token'', ''password'', ''authorization'', ''cookie'', ''apikey'', ''api_key'',
      ''api-key'', ''accesskey'', ''access_key'', ''access-key'', ''credential'', ''bearer'', ''privatekey'',
      ''private_key'', ''private-key'', ''clientsecret'', ''client_secret'', ''client-secret'', ''x-amz'',
      ''x-goog-signature'', ''awsaccesskeyid'', ''googleaccessid'', ''signature'', ''sigv4'', ''response_body'', ''body'']"

definition PUBLIC_PRIVATE_MARKERS :: "string list" where
  "PUBLIC_PRIVATE_MARKERS = [''sfmapi_'', ''_container_services'', ''_bridge_backend_actions'', ''host_path'', ''sealed_path'']"

definition contains_public_private_marker :: "string \<Rightarrow> bool" where
  "contains_public_private_marker s \<longleftrightarrow> list_ex (\<lambda>m. contains m (lower s)) PUBLIC_PRIVATE_MARKERS"

definition drops_key :: "string \<Rightarrow> bool" where
  "drops_key k \<longleftrightarrow>
     list_ex (\<lambda>w. contains w (lower k)) PUBLIC_DROP_KEY_WORDS \<or> dollar (\<lambda>s. s = ''sig'') (lower k) \<or>
     contains_public_private_marker k"

section \<open>Local references\<close>

text \<open>\<open>str.isalpha\<close> and \<open>str.isalnum\<close> below code point 256.\<close>

definition py_alpha :: "char \<Rightarrow> bool" where
  "py_alpha c \<longleftrightarrow> (let n = (of_char c :: nat) in
     65 \<le> n \<and> n \<le> 90 \<or> 97 \<le> n \<and> n \<le> 122 \<or> n \<in> {0xAA, 0xB5, 0xBA} \<or> 0xC0 \<le> n \<and> n \<noteq> 0xD7 \<and> n \<noteq> 0xF7)"

definition py_alnum :: "char \<Rightarrow> bool" where
  "py_alnum c \<longleftrightarrow> py_alpha c \<or> ascii_digit c \<or> (of_char c :: nat) \<in> {0xB2, 0xB3, 0xB9, 0xBC, 0xBD, 0xBE}"

text \<open>The text before the first occurrence of \<open>://\<close>.\<close>

fun before_scheme :: "string \<Rightarrow> string option" where
  "before_scheme [] = None"
| "before_scheme (c # s) = (if starts ''://'' (c # s) then Some [] else map_option ((#) c) (before_scheme s))"

definition has_url_scheme :: "string \<Rightarrow> bool" where
  "has_url_scheme s \<longleftrightarrow>
     (case before_scheme s of
        None \<Rightarrow> False
      | Some p \<Rightarrow> p \<noteq> [] \<and> list_all (\<lambda>c. py_alnum c \<or> c \<in> set ''+-.'') p)"

text \<open>\<open>_PUBLIC_API_PATH_RE.match\<close>: \<open>/v\<close>, digits, then a slash or the end.\<close>

definition public_api_path :: "string \<Rightarrow> bool" where
  "public_api_path s \<longleftrightarrow>
     starts ''/v'' s \<and>
     (let rest = dropWhile ascii_digit (drop 2 s) in
      takeWhile ascii_digit (drop 2 s) \<noteq> [] \<and> (rest \<in> {[], [CHR 0x0A]} \<or> hd rest = CHR ''/''))"

definition drive :: "string \<Rightarrow> bool" where
  "drive s \<longleftrightarrow> 2 \<le> length s \<and> py_alpha (s ! 0) \<and> s ! 1 = CHR '':''"

definition is_local_uri :: "string \<Rightarrow> bool" where
  "is_local_uri s \<longleftrightarrow>
     (if s = [] \<or> public_api_path s then False
      else if starts ''file://'' (lower s) \<or> hd s \<in> {CHR ''/'', CHR 0x5C} then True
      else if 3 \<le> length s \<and> drive s \<and> s ! 2 \<in> {CHR 0x5C, CHR ''/''} then True
      else \<not> has_url_scheme s)"

definition is_local_artifact_reference :: "string \<Rightarrow> bool" where
  "is_local_artifact_reference s \<longleftrightarrow>
     (if s = [] \<or> public_api_path s then False
      else if starts ''file://'' (lower s) \<or> CHR 0x5C \<in> set s \<or> hd s = CHR ''/'' \<or> drive s then True
      else if has_url_scheme s then False
      else ''..'' \<in> set (split_on (CHR ''/'') s))"

definition base_name :: "string \<Rightarrow> string" where
  "base_name s = rev (takeWhile (\<lambda>c. c \<noteq> CHR ''/'' \<and> c \<noteq> CHR 0x5C) (rev s))"

section \<open>Sanitizing\<close>

record public_text =
  red :: "string option \<Rightarrow> string \<Rightarrow> string"
  public_uri :: "string \<Rightarrow> string option"

definition sanitize_public_artifact_name :: "public_text \<Rightarrow> json \<Rightarrow> string option" where
  "sanitize_public_artifact_name P v =
     (case v of
        JStr s \<Rightarrow>
          (let t = red P (Some ''name'') (if is_local_artifact_reference s \<or> is_local_uri s then base_name s else s) in
           if t = [] then None else Some (take 255 t))
      | _ \<Rightarrow> None)"

definition put_name :: "public_text \<Rightarrow> json \<Rightarrow> json dict" where
  "put_name P v = (case sanitize_public_artifact_name P v of None \<Rightarrow> [] | Some n \<Rightarrow> [(''name'', JStr n)])"

fun is_local_str :: "json \<Rightarrow> bool" where
  "is_local_str (JStr s) = is_local_uri s"
| "is_local_str _ = False"

text \<open>The name and the URI of a file reference.\<close>

definition file_ref_name_uri :: "public_text \<Rightarrow> json dict \<Rightarrow> json dict" where
  "file_ref_name_uri P d =
     (let nm = (case jget d ''name'' of
            JStr s \<Rightarrow> put_name P (JStr s)
          | _ \<Rightarrow> if is_local_str (jget d ''path'') then put_name P (jget d ''path'') else []) in
      case jget d ''uri'' of
        JStr u \<Rightarrow>
          if is_local_uri u then (if nm = [] then put_name P (JStr u) else nm)
          else nm @ (case public_uri P u of None \<Rightarrow> [] | Some p \<Rightarrow> if p = [] then [] else [(''uri'', JStr p)])
      | _ \<Rightarrow> nm)"

text \<open>What an entry of an object becomes before its value is visited: the entries to write, or None.\<close>

definition public_entry :: "public_text \<Rightarrow> bool \<Rightarrow> json dict \<Rightarrow> string \<Rightarrow> json \<Rightarrow> json dict option" where
  "public_entry P descriptor d k v =
     (if drops_key k \<or> k \<in> {''host_path'', ''workspace''} then Some []
      else if k = ''url'' \<and> map_of d ''plugin_id'' \<noteq> None \<and> map_of d ''provider'' \<noteq> None then Some []
      else case v of
        JStr s \<Rightarrow>
          Some (if k = ''path'' \<and> is_local_uri s then
              (case jget d ''name'' of JStr _ \<Rightarrow> [] | _ \<Rightarrow> [(''name'', JStr (base_name s))])
            else if k = ''uri'' \<and> is_local_uri s then [(k, JNull)]
            else if descriptor \<and> k = ''uri'' \<and> \<not> is_local_artifact_reference s then
              (case public_uri P s of None \<Rightarrow> [] | Some u \<Rightarrow> if u = [] then [] else [(k, JStr u)])
            else if is_local_uri s \<and> (contains ''path'' k \<or> contains ''file'' k) then
              [(k, JStr (if descriptor then base_name s else red P (Some k) s))]
            else [(k, JStr (red P (Some k) s))])
      | _ \<Rightarrow> None)"

definition PUBLIC_FILE_REF_KEYS :: "string list" where
  "PUBLIC_FILE_REF_KEYS = [''media_type'', ''sha256'', ''byte_size'']"

text \<open>The fields of a reference, in the order of these keys.\<close>

definition in_key_order :: "json dict \<Rightarrow> json dict" where
  "in_key_order refs =
     concat (map (\<lambda>k. case map_of refs k of None \<Rightarrow> [] | Some v \<Rightarrow> [(k, v)]) PUBLIC_FILE_REF_KEYS)"

fun is_list :: "json \<Rightarrow> bool" where
  "is_list (JList xs) = True"
| "is_list _ = False"

text \<open>
  \<open>_sanitize_public_outputs\<close> and \<open>_sanitize_public_file_ref\<close>: the flags say that the value is an
  artifact descriptor, or a file reference. An object of file references keeps three keys.
\<close>

function sanitize_outputs :: "public_text \<Rightarrow> bool \<Rightarrow> bool \<Rightarrow> json \<Rightarrow> json" where
  "sanitize_outputs P descriptor file_ref (JList xs) = JList (map (sanitize_outputs P descriptor file_ref) xs)"
| "sanitize_outputs P descriptor file_ref (JStr s) = JStr (red P None s)"
| "sanitize_outputs P descriptor file_ref (JObj d) =
     (if file_ref then
        JObj (put_all (in_key_order (concat (map (\<lambda>(k, v).
            if k \<in> set PUBLIC_FILE_REF_KEYS then [(k, sanitize_outputs P False False v)] else []) d)))
          (put_all (file_ref_name_uri P d) []))
      else
        JObj (put_all (concat (map (\<lambda>(k, v).
          case public_entry P descriptor d k v of
            Some es \<Rightarrow> es
          | None \<Rightarrow>
              [(k, sanitize_outputs P
                 (k = ''artifacts'' \<and> is_list v \<or> descriptor \<and> k = ''metadata'' \<and> is_obj v)
                 (k \<noteq> ''artifacts'' \<and> descriptor \<and> k = ''files'' \<and> is_list v) v)]) d)) []))"
| "sanitize_outputs P descriptor file_ref JNull = JNull"
| "sanitize_outputs P descriptor file_ref (JBool b) = JBool b"
| "sanitize_outputs P descriptor file_ref (JInt i) = JInt i"
| "sanitize_outputs P descriptor file_ref (JFloat f) = JFloat f"
  by pat_completeness auto

lemma size_entry: "(k, v) \<in> set d \<Longrightarrow> size v < Suc (size_list (size_prod (\<lambda>_. 0) size) d)"
  by (induction d) auto

lemma size_item: "x \<in> set xs \<Longrightarrow> size x < Suc (size_list size xs)" for x :: json
  by (induction xs) auto

termination sanitize_outputs
  by (relation "measure (\<lambda>(P, a, b, v). size v)") (auto simp: size_entry size_item)

definition sanitize_public_outputs :: "public_text \<Rightarrow> json \<Rightarrow> json" where
  "sanitize_public_outputs P v = sanitize_outputs P False False v"

text \<open>The metadata of artifacts: a local reference is dropped, which is None.\<close>

function sanitize_metadata :: "public_text \<Rightarrow> string option \<Rightarrow> json \<Rightarrow> json option" where
  "sanitize_metadata P k (JStr s) =
     (if k = Some ''name'' then Some (opt_json JStr (sanitize_public_artifact_name P (JStr s)))
      else if is_local_artifact_reference s then None else Some (JStr (red P k s)))"
| "sanitize_metadata P k (JList xs) =
     Some (JList (concat (map (\<lambda>x. case sanitize_metadata P k x of None \<Rightarrow> [] | Some y \<Rightarrow> [y]) xs)))"
| "sanitize_metadata P k (JObj d) =
     Some (JObj (concat (map (\<lambda>(i, v). if drops_key i then []
        else case sanitize_metadata P (Some i) v of None \<Rightarrow> [] | Some y \<Rightarrow> [(i, y)]) d)))"
| "sanitize_metadata P k JNull = Some JNull"
| "sanitize_metadata P k (JBool b) = Some (JBool b)"
| "sanitize_metadata P k (JInt i) = Some (JInt i)"
| "sanitize_metadata P k (JFloat f) = Some (JFloat f)"
  by pat_completeness auto

termination sanitize_metadata
  by (relation "measure (\<lambda>(P, k, v). size v)") (auto simp: size_entry size_item)

definition sanitize_public_artifact_metadata :: "public_text \<Rightarrow> json \<Rightarrow> json" where
  "sanitize_public_artifact_metadata P v = (case sanitize_metadata P None v of None \<Rightarrow> JNull | Some y \<Rightarrow> y)"

text \<open>\<open>sanitize_public_artifact_metadata_dict\<close>: None for what is not an object.\<close>

definition sanitize_metadata_dict :: "public_text \<Rightarrow> json \<Rightarrow> json dict option" where
  "sanitize_metadata_dict P v =
     (case v of JObj d \<Rightarrow> Some (obj_fields (sanitize_public_artifact_metadata P (JObj d))) | _ \<Rightarrow> None)"

definition redacted :: string where "redacted = ''<redacted>''"

definition sanitize_public_error_message :: "public_text \<Rightarrow> string \<Rightarrow> string" where
  "sanitize_public_error_message P s =
     (if red P None s = redacted then ''task execution failed'' else red P None s)"

definition sanitize_public_error :: "public_text \<Rightarrow> (json \<Rightarrow> string) \<Rightarrow> json \<Rightarrow> json dict option" where
  "sanitize_public_error P text v =
     (case v of
        JObj d \<Rightarrow>
          (let out = obj_fields (sanitize_public_outputs P v) in
           Some (case map_of d ''message'' of
               None \<Rightarrow> out
             | Some m \<Rightarrow> AList.update ''message''
                 (JStr (sanitize_public_error_message P (if truthy m then text m else []))) out))
      | _ \<Rightarrow> None)"

section \<open>No private key survives\<close>

fun public_keys :: "json \<Rightarrow> bool" where
  "public_keys (JList xs) = list_all public_keys xs"
| "public_keys (JObj d) = list_all (\<lambda>(k, v). \<not> drops_key k \<and> public_keys v) d"
| "public_keys v = True"

lemma list_all_entries:
  "(\<And>k v. (k, v) \<in> set d \<Longrightarrow> list_all Q (f k v)) \<Longrightarrow> list_all Q (concat (map (\<lambda>(k, v). f k v) d))"
  by (induction d) auto

lemma public_put_all:
  "list_all (\<lambda>(k, v). \<not> drops_key k \<and> public_keys v) new \<Longrightarrow> list_all (\<lambda>(k, v). \<not> drops_key k \<and> public_keys v) d \<Longrightarrow>
   list_all (\<lambda>(k, v). \<not> drops_key k \<and> public_keys v) (put_all new d)"
  using put_all_set [of new d] unfolding list_all_iff by blast

lemma plain_keys [simp]: "\<not> drops_key ''name''" "\<not> drops_key ''uri''" "\<not> drops_key ''media_type''"
  "\<not> drops_key ''sha256''" "\<not> drops_key ''byte_size''"
  by code_simp+

lemma put_name_public: "list_all (\<lambda>(k, v). \<not> drops_key k \<and> public_keys v) (put_name P v)"
  by (simp add: put_name_def split: option.split)

lemma file_ref_public: "list_all (\<lambda>(k, v). \<not> drops_key k \<and> public_keys v) (file_ref_name_uri P d)"
  using put_name_public by (auto simp: file_ref_name_uri_def Let_def split: json.split option.split)

lemma public_entry_public:
  "public_entry P b d k v = Some es \<Longrightarrow> list_all (\<lambda>(k, v). \<not> drops_key k \<and> public_keys v) es"
  by (auto simp: public_entry_def split: if_splits json.splits option.splits)

lemma public_entry_None: "public_entry P b d k v = None \<Longrightarrow> \<not> drops_key k"
  by (auto simp: public_entry_def split: if_splits json.splits)

lemma in_key_order_fields: "list_all Q refs \<Longrightarrow> list_all Q (in_key_order refs)"
  by (auto simp: in_key_order_def list_all_iff dest: map_of_SomeD [OF sym] split: option.splits)

lemma sanitize_outputs_public: "public_keys (sanitize_outputs P b f v)"
proof (induction P b f v rule: sanitize_outputs.induct)
  case (3 P b f d)
  let ?ok = "\<lambda>(k, v). \<not> drops_key k \<and> public_keys v"
  show ?case
  proof (cases f)
    case True
    have "list_all ?ok (concat (map (\<lambda>(k, v).
        if k \<in> set PUBLIC_FILE_REF_KEYS then [(k, sanitize_outputs P False False v)] else []) d))"
      using 3(1) [OF True] by (auto simp: list_all_iff PUBLIC_FILE_REF_KEYS_def)
    then show ?thesis
      using public_put_all [OF in_key_order_fields public_put_all [OF file_ref_public]] True by simp
  next
    case False
    have "list_all ?ok (case public_entry P b d k v of Some es \<Rightarrow> es | None \<Rightarrow>
          [(k, sanitize_outputs P (k = ''artifacts'' \<and> is_list v \<or> b \<and> k = ''metadata'' \<and> is_obj v)
               (k \<noteq> ''artifacts'' \<and> b \<and> k = ''files'' \<and> is_list v) v)])" if "(k, v) \<in> set d" for k v
      using 3(2) [OF False that refl] public_entry_public public_entry_None by (auto split: option.split)
    then have "list_all ?ok (concat (map (\<lambda>(k, v). case public_entry P b d k v of Some es \<Rightarrow> es | None \<Rightarrow>
          [(k, sanitize_outputs P (k = ''artifacts'' \<and> is_list v \<or> b \<and> k = ''metadata'' \<and> is_obj v)
               (k \<noteq> ''artifacts'' \<and> b \<and> k = ''files'' \<and> is_list v) v)]) d))"
      by (rule list_all_entries)
    then show ?thesis using public_put_all [of _ "[]"] False by simp
  qed
qed (auto simp: list_all_iff)

lemma sanitize_metadata_public: "sanitize_metadata P k v = Some w \<Longrightarrow> public_keys w"
proof (induction P k v arbitrary: w rule: sanitize_metadata.induct)
  case (2 P k xs)
  then show ?case by (fastforce simp: list_all_iff split: option.splits)
next
  case (3 P k d)
  then show ?case by (fastforce simp: list_all_iff split: option.splits if_splits)
qed (auto simp: opt_json_def split: if_splits option.splits)

text \<open>
  C20. Whatever a task returned, no object in what clients are shown of its outputs, of its error
  or of the metadata of an artifact has, at any depth, a key that may carry a secret, a host path
  or an internal marker.
\<close>

theorem no_private_key_is_shown:
  "public_keys (sanitize_public_outputs P v) \<and> public_keys (sanitize_public_artifact_metadata P v) \<and>
   public_keys (opt_json JObj (sanitize_public_error P text v))"
proof -
  have out: "public_keys (sanitize_public_outputs P v)"
    unfolding sanitize_public_outputs_def by (rule sanitize_outputs_public)
  moreover have "public_keys (sanitize_public_artifact_metadata P v)"
    using sanitize_metadata_public by (auto simp: sanitize_public_artifact_metadata_def split: option.split)
  moreover have "public_keys (opt_json JObj (sanitize_public_error P text v))"
  proof (cases v)
    case (JObj d)
    have "public_keys (JObj (obj_fields (sanitize_public_outputs P v)))"
      using out by (cases "sanitize_public_outputs P v") simp_all
    moreover have "\<not> drops_key ''message''" by code_simp
    ultimately show ?thesis
      using public_put_all [of "[(''message'', JStr m)]" "obj_fields (sanitize_public_outputs P v)" for m]
      by (auto simp: sanitize_public_error_def JObj opt_json_def put_all_def Let_def split: option.split)
  qed (simp_all add: sanitize_public_error_def opt_json_def)
  ultimately show ?thesis by blast
qed

end
