(* ===== verification/Artifact_Records.thy ===== *)
theory Artifact_Records
  imports Public_Outputs Job_Service
begin

text \<open>
  The other half of \<open>services/artifact_service.py\<close>: the contract of what a worker returns. A
  descriptor is checked and completed, the outputs of a task are normalised, and one row per
  descriptor is recorded. \<open>art_cfg\<close> holds the data types of the core formats, the functions on
  public text, the formats that backends prefer for a kind and the printer of floats.
\<close>

record art_cfg =
  ac_io :: "string \<Rightarrow> string"
  ac_public :: public_text
  ac_backend_format :: "string \<Rightarrow> string option"
  ac_float :: "rat \<Rightarrow> string"

definition ac_str :: "art_cfg \<Rightarrow> json \<Rightarrow> string" where
  "ac_str A v = (case v of JStr s \<Rightarrow> s | _ \<Rightarrow> json_repr (ac_float A) v)"

section \<open>Fields\<close>

text \<open>A check of an optional field: absent and null are accepted.\<close>

definition optional_field :: "(json \<Rightarrow> bool) \<Rightarrow> json dict \<Rightarrow> string \<Rightarrow> string \<Rightarrow> api_error + unit" where
  "optional_field good d k msg =
     guard (jget d k \<noteq> JNull \<and> \<not> good (jget d k)) (mk_error ValidationError msg [])"

fun str_upto :: "nat \<Rightarrow> json \<Rightarrow> bool" where
  "str_upto n (JStr s) = (length s \<le> n)"
| "str_upto n _ = False"

fun artifact_key :: "json \<Rightarrow> bool" where
  "artifact_key (JStr s) = is_valid_artifact_key s"
| "artifact_key _ = False"

fun int_from :: "int \<Rightarrow> json \<Rightarrow> bool" where
  "int_from n (JInt i) = (n \<le> i)"
| "int_from n _ = False"

definition lower_hex :: "char \<Rightarrow> bool" where
  "lower_hex c \<longleftrightarrow> ascii_digit c \<or> c \<in> set ''abcdef''"

fun sha256_hex :: "json \<Rightarrow> bool" where
  "sha256_hex (JStr s) = (length s = 64 \<and> list_all lower_hex s)"
| "sha256_hex _ = False"

definition matches_key_pattern :: string where
  "matches_key_pattern = '' must match '' @ py_repr ARTIFACT_KEY_PATTERN"

definition validate_file_ref :: "string \<Rightarrow> json \<Rightarrow> api_error + unit" where
  "validate_file_ref loc v =
     (case v of
        JObj d \<Rightarrow>
          andthen (guard (case jget d ''name'' of JStr s \<Rightarrow> s = [] | _ \<Rightarrow> True)
             (mk_error ValidationError (loc @ ''.name is required'') [])) (\<lambda>_.
          let uri = (case map_of d ''uri'' of None \<Rightarrow> jget d ''path'' | Some u \<Rightarrow> u) in
          andthen (guard (case uri of JStr s \<Rightarrow> s = [] | _ \<Rightarrow> True)
             (mk_error ValidationError (loc @ ''.uri is required'') [])) (\<lambda>_.
          andthen (each (\<lambda>(k, n). optional_field (str_upto n) d k
              (loc @ ''.'' @ k @ '' must be a string up to '' @ str_of_nat n @ '' chars''))
            [(''name'', 255), (''uri'', 2048), (''path'', 2048), (''media_type'', 127)]) (\<lambda>_.
          andthen (optional_field sha256_hex d ''sha256'' (loc @ ''.sha256 must be a lowercase hex SHA-256 digest'')) (\<lambda>_.
          optional_field (int_from 0) d ''byte_size'' (loc @ ''.byte_size must be a non-negative int'')))))
      | _ \<Rightarrow> raising ValidationError (loc @ '' must be an object''))"

definition validate_artifact_file_refs :: "string \<Rightarrow> string \<Rightarrow> json \<Rightarrow> api_error + unit" where
  "validate_artifact_file_refs base field files =
     (case files of
        JNull \<Rightarrow> Inr ()
      | JList xs \<Rightarrow> each (\<lambda>(i, v). validate_file_ref (base @ ''.'' @ field @ ''['' @ str_of_nat i @ '']'') v)
          (zip [0..<length xs] xs)
      | _ \<Rightarrow> raising ValidationError (base @ ''.'' @ field @ '' must be a list''))"

text \<open>The checks that a descriptor and its metadata share: hash, size, frame, producer.\<close>

definition validate_tail :: "string \<Rightarrow> json dict \<Rightarrow> api_error + unit" where
  "validate_tail base d =
     andthen (optional_field sha256_hex d ''sha256'' (base @ ''sha256 must be a lowercase hex SHA-256 digest'')) (\<lambda>_.
     andthen (optional_field (int_from 0) d ''byte_size'' (base @ ''byte_size must be a non-negative int'')) (\<lambda>_.
     andthen (optional_field (str_upto 255) d ''coordinate_frame'' (base @ ''coordinate_frame must be a string up to 255 chars'')) (\<lambda>_.
     optional_field is_obj d ''producer'' (base @ ''producer must be an object''))))"

definition validate_reserved_metadata :: "string \<Rightarrow> json dict \<Rightarrow> api_error + unit" where
  "validate_reserved_metadata base m =
     andthen (each (\<lambda>k. optional_field artifact_key m k (base @ ''.metadata.'' @ k @ matches_key_pattern))
       [''artifact_format'', ''datatype'']) (\<lambda>_.
     andthen (optional_field (int_from 1) m ''schema_version'' (base @ ''.metadata.schema_version must be a positive int'')) (\<lambda>_.
     andthen (validate_artifact_file_refs base ''metadata.files'' (jget m ''files'')) (\<lambda>_.
     validate_tail (base @ ''.metadata.'') m)))"

section \<open>Descriptors\<close>

definition RESERVED_ARTIFACT_METADATA_KEYS :: "string list" where
  "RESERVED_ARTIFACT_METADATA_KEYS =
     [''artifact_format'', ''datatype'', ''schema_version'', ''files'', ''sha256'', ''byte_size'',
      ''coordinate_frame'', ''producer'']"

text \<open>Fields that only the metadata has move up.\<close>

definition lift_reserved :: "json dict \<Rightarrow> json dict \<Rightarrow> json dict" where
  "lift_reserved m d =
     fold (\<lambda>k d. if jget d k = JNull \<and> jget m k \<noteq> JNull then AList.update k (jget m k) d else d)
       RESERVED_ARTIFACT_METADATA_KEYS d"

text \<open>The format, version and data type that a core kind or format implies.\<close>

definition default_format :: "art_cfg \<Rightarrow> string \<Rightarrow> json dict \<Rightarrow> json dict" where
  "default_format A k d =
     (case map_of CORE_ARTIFACT_KINDS k of
        Some f \<Rightarrow>
          if jget d ''artifact_format'' = JNull then
            AList.update ''artifact_format'' (JStr (case ac_backend_format A k of
                Some b \<Rightarrow> if b = [] then f else b | None \<Rightarrow> f)) d
          else d
      | None \<Rightarrow> d)"

definition default_version :: "string \<Rightarrow> json dict \<Rightarrow> json dict" where
  "default_version k d =
     (if map_of CORE_ARTIFACT_KINDS k \<noteq> None \<and> jget d ''schema_version'' = JNull
      then AList.update ''schema_version'' (JInt 1) d else d)"

definition implied_datatype :: "art_cfg \<Rightarrow> string \<Rightarrow> string option \<Rightarrow> string option" where
  "implied_datatype A k f =
     (case (case f of None \<Rightarrow> None | Some f \<Rightarrow> datatype_for_format (ac_io A) f) of
        Some t \<Rightarrow> Some t
      | None \<Rightarrow> datatype_for_kind (ac_io A) k)"

definition default_datatype :: "art_cfg \<Rightarrow> string \<Rightarrow> string option \<Rightarrow> json dict \<Rightarrow> json dict" where
  "default_datatype A k f d =
     (if jget d ''datatype'' \<noteq> JNull then d
      else case implied_datatype A k f of None \<Rightarrow> d | Some t \<Rightarrow> AList.update ''datatype'' (JStr t) d)"

fun str_opt :: "json \<Rightarrow> string option" where
  "str_opt (JStr s) = Some s"
| "str_opt _ = None"

definition check_format :: "art_cfg \<Rightarrow> string \<Rightarrow> string \<Rightarrow> json dict \<Rightarrow> api_error + unit" where
  "check_format A base k d =
     andthen (optional_field artifact_key d ''artifact_format'' (base @ ''.artifact_format'' @ matches_key_pattern)) (\<lambda>_.
     case str_opt (jget d ''artifact_format'') of
       None \<Rightarrow> Inr ()
     | Some f \<Rightarrow> guard (\<not> is_format_compatible_with_kind (ac_io A) k f) (mk_error ValidationError
         (base @ ''.artifact_format '' @ py_repr f @ '' is not compatible with kind '' @ py_repr k) []))"

definition check_version :: "art_cfg \<Rightarrow> string \<Rightarrow> json dict \<Rightarrow> api_error + unit" where
  "check_version A base d =
     andthen (optional_field (int_from 1) d ''schema_version'' (base @ ''.schema_version must be a positive int'')) (\<lambda>_.
     case str_opt (jget d ''artifact_format'') of
       None \<Rightarrow> Inr ()
     | Some f \<Rightarrow> guard (f \<in> set CORE_ARTIFACT_FORMATS \<and> jget d ''schema_version'' \<notin> {JNull, JInt 1}) (mk_error ValidationError
         (base @ ''.schema_version '' @ ac_str A (jget d ''schema_version'') @ '' does not match artifact_format '' @ py_repr f) []))"

definition check_datatype :: "art_cfg \<Rightarrow> string \<Rightarrow> string \<Rightarrow> json dict \<Rightarrow> api_error + unit" where
  "check_datatype A base k d =
     andthen (optional_field artifact_key d ''datatype'' (base @ ''.datatype'' @ matches_key_pattern)) (\<lambda>_.
     case str_opt (jget d ''datatype'') of
       None \<Rightarrow> Inr ()
     | Some t \<Rightarrow>
         andthen (case str_opt (jget d ''artifact_format'') of
            None \<Rightarrow> Inr ()
          | Some f \<Rightarrow> guard (datatype_for_format (ac_io A) f \<notin> {None, Some t}) (mk_error ValidationError
              (base @ ''.datatype '' @ py_repr t @ '' is not compatible with artifact_format '' @ py_repr f) [])) (\<lambda>_.
         guard (datatype_for_kind (ac_io A) k \<notin> {None, Some t}) (mk_error ValidationError
           (base @ ''.datatype '' @ py_repr t @ '' is not compatible with kind '' @ py_repr k) [])))"

definition public_metadata_or_empty :: "art_cfg \<Rightarrow> json dict \<Rightarrow> json dict" where
  "public_metadata_or_empty A m =
     (case sanitize_metadata_dict (ac_public A) (JObj m) of None \<Rightarrow> [] | Some d \<Rightarrow> d)"

text \<open>\<open>_public_artifact_metadata\<close>, then the reserved fields of the descriptor.\<close>

definition public_artifact_metadata :: "art_cfg \<Rightarrow> json dict \<Rightarrow> json dict" where
  "public_artifact_metadata A m =
     (let p = public_metadata_or_empty A (filter (\<lambda>e. fst e \<noteq> ''files'') m) in
      if is_list (jget m ''files'') then AList.update ''files'' (jget m ''files'') p else p)"

definition stamp_reserved :: "json dict \<Rightarrow> json dict \<Rightarrow> json dict" where
  "stamp_reserved d m =
     fold (\<lambda>k m. case map_of d k of None \<Rightarrow> m | Some v \<Rightarrow> AList.update k v m) RESERVED_ARTIFACT_METADATA_KEYS
       (filter (\<lambda>e. fst e \<notin> set RESERVED_ARTIFACT_METADATA_KEYS) m)"

definition public_field :: "art_cfg \<Rightarrow> string \<Rightarrow> json dict \<Rightarrow> json dict" where
  "public_field A k d =
     (case jget d k of
        JObj v \<Rightarrow> AList.update k (JObj (public_metadata_or_empty A v)) d
      | _ \<Rightarrow> d)"

definition public_name :: "art_cfg \<Rightarrow> json dict \<Rightarrow> json dict" where
  "public_name A d =
     (if jget d ''name'' = JNull then d
      else AList.update ''name'' (opt_json JStr (sanitize_public_artifact_name (ac_public A) (jget d ''name''))) d)"

definition validate_artifact_descriptor :: "art_cfg \<Rightarrow> nat \<Rightarrow> json \<Rightarrow> api_error + json dict" where
  "validate_artifact_descriptor A i v =
     (let base = ''outputs.artifacts['' @ str_of_nat i @ '']'' in
      case v of
        JObj d \<Rightarrow>
          andthen (guard (\<not> (jget d ''metadata'' = JNull \<or> is_obj (jget d ''metadata'')))
            (mk_error ValidationError (base @ ''.metadata must be an object'') [])) (\<lambda>_.
          let m = obj_fields (jget d ''metadata'') in
          andthen (validate_reserved_metadata base m) (\<lambda>_.
          let d = lift_reserved m d in
          case jget d ''kind'' of
            JStr k \<Rightarrow>
              andthen (guard (\<not> is_valid_artifact_key k) (mk_error ValidationError (base @ ''.kind'' @ matches_key_pattern) [])) (\<lambda>_.
              andthen (optional_field (str_upto 255) d ''name'' (base @ ''.name must be a string up to 255 chars'')) (\<lambda>_.
              let d = public_name A d in
              andthen (optional_field (str_upto 2048) d ''uri'' (base @ ''.uri must be a string up to 2048 chars'')) (\<lambda>_.
              andthen (optional_field (str_upto 127) d ''media_type'' (base @ ''.media_type must be a string up to 127 chars'')) (\<lambda>_.
              let d = default_format A k d in
              andthen (check_format A base k d) (\<lambda>_.
              let d = default_version k d in
              andthen (check_version A base d) (\<lambda>_.
              let d = default_datatype A k (str_opt (jget d ''artifact_format'')) d in
              andthen (check_datatype A base k d) (\<lambda>_.
              andthen (validate_artifact_file_refs base ''files'' (jget d ''files'')) (\<lambda>_.
              andthen (validate_tail (base @ ''.'') d) (\<lambda>_.
              andthen (optional_field is_obj d ''summary'' (base @ ''.summary must be an object'')) (\<lambda>_.
              let d = public_field A ''summary'' (public_field A ''producer'' d) in
              Inr (AList.update ''metadata'' (JObj (stamp_reserved d (public_artifact_metadata A m))) d)))))))))))
          | _ \<Rightarrow> raising ValidationError (base @ ''.kind'' @ matches_key_pattern)))
      | _ \<Rightarrow> raising ValidationError (base @ '' must be an object''))"

section \<open>Outputs of a task\<close>

definition same_artifact :: "json dict \<Rightarrow> json dict \<Rightarrow> bool" where
  "same_artifact a b \<longleftrightarrow> list_all (\<lambda>k. jget a k = jget b k) [''kind'', ''name'', ''uri'']"

definition append_unique :: "json dict list \<Rightarrow> json dict \<Rightarrow> json dict list" where
  "append_unique out x = (if list_ex (same_artifact x) out then out else out @ [x])"

fun type_name :: "json \<Rightarrow> string" where
  "type_name JNull = ''NoneType''"
| "type_name (JBool b) = ''bool''"
| "type_name (JInt i) = ''int''"
| "type_name (JFloat f) = ''float''"
| "type_name (JStr s) = ''str''"
| "type_name (JList xs) = ''list''"
| "type_name (JObj d) = ''dict''"

fun normalize_artifacts :: "art_cfg \<Rightarrow> nat \<Rightarrow> json list \<Rightarrow> json dict list \<Rightarrow> api_error + json dict list" where
  "normalize_artifacts A i [] out = Inr out"
| "normalize_artifacts A i (v # vs) out =
     andthen (validate_artifact_descriptor A i v) (\<lambda>d. normalize_artifacts A (Suc i) vs (append_unique out d))"

definition normalize_outputs :: "art_cfg \<Rightarrow> task_row \<Rightarrow> json \<Rightarrow> api_error + json dict" where
  "normalize_outputs A t outputs =
     (case (if outputs = JNull then JObj [] else outputs) of
        JObj d \<Rightarrow>
          (let explicit = json_or (jget d ''artifacts'') (JList []) in
           case explicit of
             JList vs \<Rightarrow>
               andthen (normalize_artifacts A 0 vs []) (\<lambda>arts.
               Inr (if arts = [] then d else AList.update ''artifacts'' (JList (map JObj arts)) d))
           | _ \<Rightarrow> raising ValidationError ''outputs.artifacts must be a list of objects'')
      | v \<Rightarrow> raising ValidationError (kind t @ '' worker returned '' @ type_name v @ ''; expected dict''))"

text \<open>\<open>_optional_str\<close> and \<open>_task_inputs\<close>.\<close>

definition optional_str :: "art_cfg \<Rightarrow> json \<Rightarrow> string option" where
  "optional_str A v = (if v = JNull \<or> ac_str A v = [] then None else Some (ac_str A v))"

definition inputs_of_task :: "task_row \<Rightarrow> json dict" where
  "inputs_of_task t = (case task_state_json t of Some (JObj m) \<Rightarrow> obj_fields (jget m ''inputs'') | _ \<Rightarrow> [])"

definition or_else :: "'a option \<Rightarrow> 'a option \<Rightarrow> 'a option" where
  "or_else a b = (case a of None \<Rightarrow> b | Some x \<Rightarrow> Some x)"

definition artifact_of :: "art_cfg \<Rightarrow> task_row \<Rightarrow> string \<Rightarrow> json dict \<Rightarrow> artifact_row" where
  "artifact_of A t new_id d =
     \<lparr>artifact_id = new_id, artifact_tenant_id = tenant_id t, artifact_job_id = task_job_id t, artifact_task_id = task_id t,
      artifact_recon_id = or_else (optional_str A (jget d ''recon_id'')) (optional_str A (jget (inputs_of_task t) ''recon_id'')),
      artifact_dataset_id = or_else (optional_str A (jget d ''dataset_id'')) (optional_str A (jget (inputs_of_task t) ''dataset_id'')),
      artifact_kind = ac_str A (jget d ''kind''), artifact_name = optional_str A (jget d ''name''),
      artifact_uri = optional_str A (jget d ''uri''), artifact_media_type = optional_str A (jget d ''media_type''),
      artifact_summary_json = map_option JObj (sanitize_metadata_dict (ac_public A) (jget d ''summary'')),
      artifact_metadata_json = (case jget d ''metadata'' of JObj m \<Rightarrow> Some (JObj m) | _ \<Rightarrow> None)\<rparr>"

fun record_descriptors :: "art_cfg \<Rightarrow> task_row \<Rightarrow> nat \<Rightarrow> string list \<Rightarrow> json list \<Rightarrow> api_error + artifact_row list" where
  "record_descriptors A t i ids [] = Inr []"
| "record_descriptors A t i ids (v # vs) =
     andthen (validate_artifact_descriptor A i v) (\<lambda>d.
     andthen (record_descriptors A t (Suc i) (tl ids) vs) (\<lambda>rows. Inr (artifact_of A t (hd ids) d # rows)))"

definition record_artifacts ::
  "art_cfg \<Rightarrow> string list \<Rightarrow> task_row \<Rightarrow> json dict \<Rightarrow> artifact_row list \<Rightarrow> api_error + artifact_row list" where
  "record_artifacts A ids t outputs rows =
     (case json_or (jget outputs ''artifacts'') (JList []) of
        JList vs \<Rightarrow>
          andthen (record_descriptors A t 0 ids vs) (\<lambda>new.
            Inr (filter (\<lambda>a. \<not> (artifact_tenant_id a = tenant_id t \<and> artifact_task_id a = task_id t)) rows @ new))
      | _ \<Rightarrow> raising ValidationError ''outputs.artifacts must be a list of objects'')"

end
