(* ===== verification/Artifact_Lists.thy ===== *)
theory Artifact_Lists
  imports Artifact_Records Pagination
begin

text \<open>
  The listings of \<open>services/artifact_service.py\<close>: the artifacts of a job or of a reconstruction,
  filtered and paged by \<open>paginate_keyset\<close>.
\<close>

section \<open>Listings\<close>

definition validate_list_filters :: "string option \<Rightarrow> string option \<Rightarrow> api_error + unit" where
  "validate_list_filters k nm =
     andthen (guard (case k of None \<Rightarrow> False | Some s \<Rightarrow> \<not> is_valid_artifact_key s)
       (mk_error ValidationError (''kind'' @ matches_key_pattern) [])) (\<lambda>_.
     guard (case nm of None \<Rightarrow> False | Some s \<Rightarrow> 255 < length s)
       (mk_error ValidationError ''name must be at most 255 characters'' []))"

text \<open>An absent or empty filter selects everything.\<close>

definition selects :: "string option \<Rightarrow> string option \<Rightarrow> bool" where
  "selects flt v \<longleftrightarrow> flt = None \<or> flt = Some [] \<or> v = flt"

definition list_artifacts ::
  "(artifact_row \<Rightarrow> bool) \<Rightarrow> string \<Rightarrow> nat \<Rightarrow> string option \<Rightarrow> string option \<Rightarrow> string option \<Rightarrow> string option \<Rightarrow>
   artifact_row list \<Rightarrow> api_error + (artifact_row list \<times> string option)" where
  "list_artifacts of_parent tenant page_size page_token k tid nm rows =
     andthen (validate_list_filters k nm) (\<lambda>_.
       Inr (paginate_keyset artifact_id page_size page_token False
         (filter (\<lambda>a. artifact_tenant_id a = tenant \<and> of_parent a \<and> selects k (Some (artifact_kind a)) \<and>
            selects tid (Some (artifact_task_id a)) \<and> selects nm (artifact_name a)) rows)))"

definition list_job_artifacts ::
  "string \<Rightarrow> string \<Rightarrow> nat \<Rightarrow> string option \<Rightarrow> string option \<Rightarrow> string option \<Rightarrow> string option \<Rightarrow>
   artifact_row list \<Rightarrow> api_error + (artifact_row list \<times> string option)" where
  "list_job_artifacts tenant jid = list_artifacts (\<lambda>a. artifact_job_id a = jid) tenant"

definition list_reconstruction_artifacts ::
  "string \<Rightarrow> string \<Rightarrow> nat \<Rightarrow> string option \<Rightarrow> string option \<Rightarrow> string option \<Rightarrow> string option \<Rightarrow>
   artifact_row list \<Rightarrow> api_error + (artifact_row list \<times> string option)" where
  "list_reconstruction_artifacts tenant rid = list_artifacts (\<lambda>a. artifact_recon_id a = Some rid) tenant"

end
