(* ===== verification/Artifact_Correct.thy ===== *)
theory Artifact_Correct
  imports Artifact_Records
begin

text \<open>
  What the contract of worker outputs guarantees: an accepted descriptor is complete and
  consistent, and outputs that were normalised are always recorded.
\<close>

section \<open>Fields\<close>

named_theorems desc_simps \<open>fields of a descriptor under the updates of its validation\<close>

lemma jget_update [desc_simps]: "jget (AList.update k v d) i = (if i = k then v else jget d i)"
  by (simp add: jget_def)

lemma map_of_update_fields [desc_simps]: "map_of (AList.update k v d) i = (if i = k then Some v else map_of d i)"
  by simp

lemma optional_field_Inr [desc_simps]: "optional_field good d k msg = Inr () \<longleftrightarrow> jget d k = JNull \<or> good (jget d k)"
  by (auto simp: optional_field_def)

lemma jget_filter: "jget (filter (\<lambda>e. P (fst e)) d) i = (if P i then jget d i else JNull)"
proof -
  have "map_of (filter (\<lambda>e. P (fst e)) d) i = (if P i then map_of d i else None)"
    by (induction d) auto
  then show ?thesis by (simp add: jget_def)
qed

lemma untouched [desc_simps]:
  "i \<noteq> ''artifact_format'' \<Longrightarrow> jget (default_format A k d) i = jget d i"
  "i \<noteq> ''schema_version'' \<Longrightarrow> jget (default_version k d) i = jget d i"
  "i \<noteq> ''datatype'' \<Longrightarrow> jget (default_datatype A k f d) i = jget d i"
  "i \<noteq> ''name'' \<Longrightarrow> jget (public_name A d) i = jget d i"
  "i \<noteq> j \<Longrightarrow> jget (public_field A j d) i = jget d i"
  by (simp_all add: default_format_def default_version_def default_datatype_def public_name_def public_field_def
      jget_update split: option.split json.split)

lemma each_optional [desc_simps]:
  "each (\<lambda>k. optional_field good d k (msg k)) ks = Inr () \<longleftrightarrow> (\<forall>k \<in> set ks. jget d k = JNull \<or> good (jget d k))"
  by (simp add: each_Inr optional_field_Inr)

text \<open>Whether files are accepted does not depend on where they are reported.\<close>

lemma file_ref_location: "validate_file_ref loc v = Inr () \<longleftrightarrow> validate_file_ref loc' v = Inr ()"
  by (cases v) (simp_all del: each.simps add: validate_file_ref_def andthen_unit Let_def each_Inr optional_field_Inr raising_def split_beta)

lemma file_refs_location:
  "validate_artifact_file_refs base field v = Inr () \<longleftrightarrow> validate_artifact_file_refs base' field' v = Inr ()"
  using file_ref_location
  by (cases v) (simp_all add: validate_artifact_file_refs_def raising_def each_Inr split_beta, blast)

definition files_ok :: "json \<Rightarrow> bool" where
  "files_ok v \<longleftrightarrow> validate_artifact_file_refs [] [] v = Inr ()"

lemma file_refs_Inr: "validate_artifact_file_refs base field v = Inr () \<longleftrightarrow> files_ok v"
  unfolding files_ok_def by (rule file_refs_location)

definition tail_ok :: "json dict \<Rightarrow> bool" where
  "tail_ok d \<longleftrightarrow>
     (jget d ''sha256'' = JNull \<or> sha256_hex (jget d ''sha256'')) \<and> (jget d ''byte_size'' = JNull \<or> int_from 0 (jget d ''byte_size'')) \<and>
     (jget d ''coordinate_frame'' = JNull \<or> str_upto 255 (jget d ''coordinate_frame'')) \<and>
     (jget d ''producer'' = JNull \<or> is_obj (jget d ''producer''))"

lemma validate_tail_Inr: "validate_tail base d = Inr () \<longleftrightarrow> tail_ok d"
  by (simp add: validate_tail_def tail_ok_def andthen_unit optional_field_Inr)

definition reserved_ok :: "json dict \<Rightarrow> bool" where
  "reserved_ok m \<longleftrightarrow>
     (\<forall>k \<in> {''artifact_format'', ''datatype''}. jget m k = JNull \<or> artifact_key (jget m k)) \<and>
     (jget m ''schema_version'' = JNull \<or> int_from 1 (jget m ''schema_version'')) \<and>
     files_ok (jget m ''files'') \<and> tail_ok m"

lemma validate_reserved_Inr: "validate_reserved_metadata base m = Inr () \<longleftrightarrow> reserved_ok m"
  unfolding validate_reserved_metadata_def reserved_ok_def
  by (simp only: andthen_unit each_optional optional_field_Inr file_refs_Inr validate_tail_Inr) simp

section \<open>Lifting and stamping\<close>

lemma lift_done:
  assumes "\<forall>k \<in> set ks. jget d k = JNull \<longrightarrow> jget m k = JNull"
  shows "fold (\<lambda>k d. if jget d k = JNull \<and> jget m k \<noteq> JNull then AList.update k (jget m k) d else d) ks d = d"
  using assms by (induction ks) auto

lemma lift_same: "(\<And>k. k \<in> set RESERVED_ARTIFACT_METADATA_KEYS \<Longrightarrow> jget d k = JNull \<Longrightarrow> jget m k = JNull) \<Longrightarrow> lift_reserved m d = d"
  unfolding lift_reserved_def by (rule lift_done) blast

lemma stamp_fold:
  assumes "distinct ks"
  shows "map_of (fold (\<lambda>k m. case map_of d k of None \<Rightarrow> m | Some v \<Rightarrow> AList.update k v m) ks m) i =
    (if i \<in> set ks \<and> map_of d i \<noteq> None then map_of d i else map_of m i)"
  using assms by (induction ks arbitrary: m) (auto split: option.split)

lemma jget_stamp:
  assumes "i \<in> set RESERVED_ARTIFACT_METADATA_KEYS"
  shows "jget (stamp_reserved d m) i = jget d i"
proof -
  have "distinct RESERVED_ARTIFACT_METADATA_KEYS" by (simp add: RESERVED_ARTIFACT_METADATA_KEYS_def)
  note stamp = stamp_fold [OF this, of d "filter (\<lambda>e. fst e \<notin> set RESERVED_ARTIFACT_METADATA_KEYS) m" i]
  have "map_of (filter (\<lambda>e. fst e \<notin> set RESERVED_ARTIFACT_METADATA_KEYS) m) i = None"
    using assms by (auto simp: map_of_eq_None_iff)
  with assms stamp show ?thesis by (simp add: stamp_reserved_def jget_def)
qed

section \<open>What an accepted descriptor satisfies\<close>

definition format_ok :: "art_cfg \<Rightarrow> string \<Rightarrow> json dict \<Rightarrow> bool" where
  "format_ok A k d \<longleftrightarrow>
     (case jget d ''artifact_format'' of
        JNull \<Rightarrow> True
      | JStr f \<Rightarrow> is_valid_artifact_key f \<and> is_format_compatible_with_kind (ac_io A) k f
      | _ \<Rightarrow> False)"

definition version_ok :: "json dict \<Rightarrow> bool" where
  "version_ok d \<longleftrightarrow>
     (case jget d ''schema_version'' of
        JNull \<Rightarrow> True
      | JInt n \<Rightarrow> 1 \<le> n \<and>
          (case str_opt (jget d ''artifact_format'') of None \<Rightarrow> True | Some f \<Rightarrow> f \<in> set CORE_ARTIFACT_FORMATS \<longrightarrow> n = 1)
      | _ \<Rightarrow> False)"

definition datatype_ok :: "art_cfg \<Rightarrow> string \<Rightarrow> json dict \<Rightarrow> bool" where
  "datatype_ok A k d \<longleftrightarrow>
     (case jget d ''datatype'' of
        JNull \<Rightarrow> True
      | JStr t \<Rightarrow> is_valid_artifact_key t \<and> datatype_for_kind (ac_io A) k \<in> {None, Some t} \<and>
          (case str_opt (jget d ''artifact_format'') of
             None \<Rightarrow> True | Some f \<Rightarrow> datatype_for_format (ac_io A) f \<in> {None, Some t})
      | _ \<Rightarrow> False)"

definition completed :: "art_cfg \<Rightarrow> string \<Rightarrow> json dict \<Rightarrow> bool" where
  "completed A k d \<longleftrightarrow>
     (map_of CORE_ARTIFACT_KINDS k \<noteq> None \<longrightarrow> jget d ''artifact_format'' \<noteq> JNull \<and> jget d ''schema_version'' \<noteq> JNull) \<and>
     (jget d ''datatype'' = JNull \<longrightarrow> implied_datatype A k (str_opt (jget d ''artifact_format'')) = None)"

lemma check_format_Inr: "check_format A base k d = Inr () \<longleftrightarrow> format_ok A k d"
  by (cases "jget d ''artifact_format''") (auto simp: check_format_def format_ok_def andthen_unit optional_field_Inr)

lemma check_version_Inr:
  "check_version A base d = Inr () \<longleftrightarrow> version_ok d"
  by (cases "jget d ''schema_version''")
    (auto simp: check_version_def version_ok_def andthen_unit optional_field_Inr split: option.split)

lemma check_datatype_Inr: "check_datatype A base k d = Inr () \<longleftrightarrow> datatype_ok A k d"
  by (cases "jget d ''datatype''")
    (auto simp: check_datatype_def datatype_ok_def andthen_unit optional_field_Inr split: option.split)

lemmas check_Inr = check_format_Inr check_version_Inr check_datatype_Inr file_refs_Inr validate_tail_Inr validate_reserved_Inr
  optional_field_Inr guard_Inr andthen_unit

definition fields_ok :: "json dict \<Rightarrow> bool" where
  "fields_ok d \<longleftrightarrow>
     (jget d ''uri'' = JNull \<or> str_upto 2048 (jget d ''uri'')) \<and>
     (jget d ''media_type'' = JNull \<or> str_upto 127 (jget d ''media_type'')) \<and>
     (jget d ''summary'' = JNull \<or> is_obj (jget d ''summary'')) \<and>
     files_ok (jget d ''files'') \<and> tail_ok d"

definition well_described :: "art_cfg \<Rightarrow> json dict \<Rightarrow> bool" where
  "well_described A d \<longleftrightarrow>
     (case jget d ''kind'' of
        JStr k \<Rightarrow> is_valid_artifact_key k \<and> completed A k d \<and> format_ok A k d \<and> datatype_ok A k d
      | _ \<Rightarrow> False) \<and>
     version_ok d \<and> fields_ok d \<and> (jget d ''name'' = JNull \<or> str_upto 255 (jget d ''name'')) \<and>
     (case jget d ''metadata'' of
        JObj m \<Rightarrow> list_all (\<lambda>i. jget m i = jget d i) RESERVED_ARTIFACT_METADATA_KEYS
      | _ \<Rightarrow> False)"

definition with_defaults :: "art_cfg \<Rightarrow> string \<Rightarrow> json dict \<Rightarrow> json dict" where
  "with_defaults A k d =
     (let e = default_version k (default_format A k (public_name A d)) in
      default_datatype A k (str_opt (jget e ''artifact_format'')) e)"

definition with_public :: "art_cfg \<Rightarrow> json dict \<Rightarrow> json dict \<Rightarrow> json dict" where
  "with_public A m d =
     (let e = public_field A ''summary'' (public_field A ''producer'' d) in
      AList.update ''metadata'' (JObj (stamp_reserved e (public_artifact_metadata A m))) e)"

lemma ok_cong:
  "jget d ''artifact_format'' = jget e ''artifact_format'' \<Longrightarrow> format_ok A k d = format_ok A k e"
  "jget d ''artifact_format'' = jget e ''artifact_format'' \<Longrightarrow> jget d ''schema_version'' = jget e ''schema_version'' \<Longrightarrow>
     version_ok d = version_ok e"
  "jget d ''artifact_format'' = jget e ''artifact_format'' \<Longrightarrow> jget d ''datatype'' = jget e ''datatype'' \<Longrightarrow>
     datatype_ok A k d = datatype_ok A k e"
  by (simp_all add: format_ok_def version_ok_def datatype_ok_def cong: json.case_cong)

lemma format_ok_later [desc_simps]:
  "format_ok A k (default_version j d) = format_ok A k d"
  "format_ok A k (default_datatype A j f d) = format_ok A k d"
  "version_ok (default_datatype A j f d) = version_ok d"
  by (rule ok_cong; simp add: desc_simps)+

lemma fields_ok_later [desc_simps]: "fields_ok (with_defaults A k d) = fields_ok d"
  by (simp add: fields_ok_def tail_ok_def with_defaults_def Let_def desc_simps)

lemma with_defaults_other [desc_simps]:
  "i \<notin> {''name'', ''artifact_format'', ''schema_version'', ''datatype''} \<Longrightarrow> jget (with_defaults A k d) i = jget d i"
  by (simp add: with_defaults_def Let_def desc_simps)

lemma descriptor_checks:
  fixes A k d1
  defines "d2 \<equiv> public_name A d1"
  defines "d3 \<equiv> default_format A k d2"
  defines "d4 \<equiv> default_version k d3"
  defines "e \<equiv> default_datatype A k (str_opt (jget d4 ''artifact_format'')) d4"
  shows "(jget d2 ''uri'' = JNull \<or> str_upto 2048 (jget d2 ''uri'')) \<and>
      (jget d2 ''media_type'' = JNull \<or> str_upto 127 (jget d2 ''media_type'')) \<and>
      format_ok A k d3 \<and> version_ok d4 \<and> datatype_ok A k e \<and> files_ok (jget e ''files'') \<and> tail_ok e \<and>
      (jget e ''summary'' = JNull \<or> is_obj (jget e ''summary'')) \<and> r \<longleftrightarrow>
    format_ok A k (with_defaults A k d1) \<and> version_ok (with_defaults A k d1) \<and> datatype_ok A k (with_defaults A k d1) \<and>
    fields_ok (with_defaults A k d1) \<and> r"
proof -
  have e: "with_defaults A k d1 = e"
    by (simp add: with_defaults_def Let_def e_def d4_def d3_def d2_def)
  have "format_ok A k d3 = format_ok A k e" "version_ok d4 = version_ok e"
    by (simp_all add: e_def d4_def desc_simps)
  moreover have "jget d2 ''uri'' = jget e ''uri''" "jget d2 ''media_type'' = jget e ''media_type''"
    by (simp_all add: e_def d4_def d3_def desc_simps)
  ultimately show ?thesis
    unfolding e fields_ok_def by (simp only: conj_ac)
qed

lemma descriptor_Inr:
  "validate_artifact_descriptor A i (JObj d0) = Inr d \<longleftrightarrow>
     (jget d0 ''metadata'' = JNull \<or> is_obj (jget d0 ''metadata'')) \<and>
     reserved_ok (obj_fields (jget d0 ''metadata'')) \<and>
     (\<exists>k. jget (lift_reserved (obj_fields (jget d0 ''metadata'')) d0) ''kind'' = JStr k \<and> is_valid_artifact_key k \<and>
        (let d1 = lift_reserved (obj_fields (jget d0 ''metadata'')) d0; e = with_defaults A k d1 in
         (jget d1 ''name'' = JNull \<or> str_upto 255 (jget d1 ''name'')) \<and>
         format_ok A k e \<and> version_ok e \<and> datatype_ok A k e \<and> fields_ok e \<and>
         d = with_public A (obj_fields (jget d0 ''metadata'')) e))"
proof (cases "jget (lift_reserved (obj_fields (jget d0 ''metadata'')) d0) ''kind''")
  case (JStr k)
  have eq: "Inr x = Inr d \<longleftrightarrow> d = x" for x by auto
  show ?thesis
    unfolding validate_artifact_descriptor_def Let_def json.case JStr check_Inr eq with_public_def
    by (subst descriptor_checks) (simp only: json.inject not_not simp_thms ex_simps with_defaults_def [unfolded Let_def, symmetric])
qed (simp_all add: validate_artifact_descriptor_def Let_def andthen_unit raising_def)

lemma accepted_object: "validate_artifact_descriptor A i v = Inr d \<Longrightarrow> \<exists>d0. v = JObj d0"
  by (cases v) (simp_all add: validate_artifact_descriptor_def raising_def)

lemma public_field_same:
  "jget (public_field A j d) j = JNull \<longleftrightarrow> jget d j = JNull" "is_obj (jget (public_field A j d) j) = is_obj (jget d j)"
  by (cases "jget d j"; simp add: public_field_def jget_update)+

lemma with_public_other [desc_simps]:
  "i \<notin> {''metadata'', ''summary'', ''producer''} \<Longrightarrow> jget (with_public A m e) i = jget e i"
  by (simp add: with_public_def Let_def desc_simps)

lemma with_public_object [desc_simps]:
  "i \<in> {''summary'', ''producer''} \<Longrightarrow> (jget (with_public A m e) i = JNull \<longleftrightarrow> jget e i = JNull) \<and>
     is_obj (jget (with_public A m e) i) = is_obj (jget e i)"
  by (auto simp: with_public_def Let_def desc_simps public_field_same)

lemma with_public_ok [desc_simps]:
  "format_ok A k (with_public A m e) = format_ok A k e" "version_ok (with_public A m e) = version_ok e"
  "datatype_ok A k (with_public A m e) = datatype_ok A k e" "completed A k (with_public A m e) = completed A k e"
  "fields_ok (with_public A m e) = fields_ok e"
  by (rule ok_cong; simp add: desc_simps)+ (simp_all add: completed_def fields_ok_def tail_ok_def desc_simps)

lemma with_public_metadata:
  obtains m' where "jget (with_public A m e) ''metadata'' = JObj m'"
    and "\<And>i. i \<in> set RESERVED_ARTIFACT_METADATA_KEYS \<Longrightarrow> jget m' i = jget (with_public A m e) i"
proof
  let ?e = "public_field A ''summary'' (public_field A ''producer'' e)"
  show "jget (with_public A m e) ''metadata'' = JObj (stamp_reserved ?e (public_artifact_metadata A m))"
    by (simp add: with_public_def Let_def desc_simps)
  fix i assume i: "i \<in> set RESERVED_ARTIFACT_METADATA_KEYS"
  then have "i \<noteq> ''metadata''" by (auto simp: RESERVED_ARTIFACT_METADATA_KEYS_def)
  then show "jget (stamp_reserved ?e (public_artifact_metadata A m)) i = jget (with_public A m e) i"
    by (simp add: jget_stamp [OF i] with_public_def Let_def desc_simps)
qed

lemma completed_defaults: "completed A k (with_defaults A k d)"
proof -
  have "jget (with_defaults A k d) ''artifact_format'' \<noteq> JNull \<and> jget (with_defaults A k d) ''schema_version'' \<noteq> JNull"
    if "map_of CORE_ARTIFACT_KINDS k = Some f" for f
    using that by (auto simp: with_defaults_def Let_def desc_simps default_version_def default_format_def)
  moreover have "implied_datatype A k (str_opt (jget (with_defaults A k d) ''artifact_format'')) = None"
    if "jget (with_defaults A k d) ''datatype'' = JNull"
    using that by (auto simp: with_defaults_def Let_def desc_simps default_datatype_def split: if_splits option.splits)
  ultimately show ?thesis by (auto simp: completed_def)
qed

lemma name_defaults: "jget (with_defaults A k d) ''name'' = JNull \<or> str_upto 255 (jget (with_defaults A k d) ''name'')"
  by (auto simp: with_defaults_def Let_def default_version_def default_format_def default_datatype_def desc_simps
      public_name_def sanitize_public_artifact_name_def opt_json_def split: option.splits json.splits)

lemma accepted_again:
  assumes "validate_artifact_descriptor A i v = Inr d"
  shows "well_described A d"
proof -
  obtain d0 where v: "v = JObj d0" using accepted_object [OF assms] by blast
  let ?m = "obj_fields (jget d0 ''metadata'')"
  let ?d1 = "lift_reserved ?m d0"
  obtain k where k: "jget ?d1 ''kind'' = JStr k" "is_valid_artifact_key k"
    and ok: "format_ok A k (with_defaults A k ?d1)" "version_ok (with_defaults A k ?d1)"
      "datatype_ok A k (with_defaults A k ?d1)" "fields_ok (with_defaults A k ?d1)"
    and d: "d = with_public A ?m (with_defaults A k ?d1)"
    using assms unfolding v descriptor_Inr by (auto simp: Let_def)
  obtain m where "jget d ''metadata'' = JObj m" "\<And>i. i \<in> set RESERVED_ARTIFACT_METADATA_KEYS \<Longrightarrow> jget m i = jget d i"
    using with_public_metadata [of A ?m "with_defaults A k ?d1"] unfolding d by blast
  moreover have "jget d ''kind'' = JStr k" using k by (simp add: d desc_simps)
  moreover have "jget d ''name'' = JNull \<or> str_upto 255 (jget d ''name'')"
    using name_defaults by (simp add: d desc_simps)
  ultimately show ?thesis
    using k ok completed_defaults by (simp add: well_described_def list_all_iff d desc_simps)
qed

lemma describe_again:
  assumes "well_described A d"
  obtains d' where "validate_artifact_descriptor A i (JObj d) = Inr d'"
    and "\<And>x. x \<notin> {''name'', ''producer'', ''summary'', ''metadata''} \<Longrightarrow> jget d' x = jget d x"
    and "well_described A d'"
proof -
  obtain k where k: "jget d ''kind'' = JStr k" "is_valid_artifact_key k" "completed A k d" "format_ok A k d" "datatype_ok A k d"
    and ok: "version_ok d" "fields_ok d" "jget d ''name'' = JNull \<or> str_upto 255 (jget d ''name'')"
    using assms by (auto simp: well_described_def split: json.splits)
  obtain m where m: "jget d ''metadata'' = JObj m"
    "\<And>i. i \<in> set RESERVED_ARTIFACT_METADATA_KEYS \<Longrightarrow> jget m i = jget d i"
    using assms by (auto simp: well_described_def list_all_iff split: json.splits)
  have lift: "lift_reserved m d = d" using m(2) by (intro lift_same) auto
  have defaults: "with_defaults A k d = public_name A d"
    using k(3) by (auto simp: with_defaults_def Let_def default_format_def default_version_def default_datatype_def
        completed_def desc_simps split: option.split)
  have reserved: "reserved_ok m"
    using k(4,5) ok(1,2) m(2)
    by (auto simp: reserved_ok_def format_ok_def datatype_ok_def version_ok_def fields_ok_def tail_ok_def
        RESERVED_ARTIFACT_METADATA_KEYS_def split: json.splits)
  have same: "format_ok A k (public_name A d) = format_ok A k d" "version_ok (public_name A d) = version_ok d"
    "datatype_ok A k (public_name A d) = datatype_ok A k d" "fields_ok (public_name A d) = fields_ok d"
    by (rule ok_cong; simp add: desc_simps)+ (simp add: fields_ok_def tail_ok_def desc_simps)
  let ?d' = "with_public A m (public_name A d)"
  have run: "validate_artifact_descriptor A i (JObj d) = Inr ?d'"
    unfolding descriptor_Inr using k ok reserved by (simp add: m(1) lift Let_def defaults same)
  moreover have "jget ?d' x = jget d x" if "x \<notin> {''name'', ''producer'', ''summary'', ''metadata''}" for x
    using that by (simp add: desc_simps)
  ultimately show thesis using that accepted_again [OF run] by blast
qed

text \<open>
  C12. A descriptor that is accepted comes out complete and consistent: its kind, format, data type
  and schema version fit one another, a core kind has a format and a version and no implied data
  type is missing, every field and every file is in bounds, the name is one that may be shown, and
  the metadata repeats the reserved fields. Validated once more, wherever it is listed, it is
  accepted, is complete and consistent again, and has the same value in every field but the name,
  the producer, the summary and the metadata, whose texts are made public a second time.
\<close>

theorem accepted_descriptors_are_complete:
  assumes "validate_artifact_descriptor A i v = Inr d"
  shows "well_described A d \<and>
    (\<forall>j. \<exists>d'. validate_artifact_descriptor A j (JObj d) = Inr d' \<and> well_described A d' \<and>
       (\<forall>x. x \<notin> {''name'', ''producer'', ''summary'', ''metadata''} \<longrightarrow> jget d' x = jget d x))"
  using accepted_again [OF assms] by (metis describe_again)

section \<open>What was normalised is recorded\<close>

definition described :: "json dict \<Rightarrow> json dict list" where
  "described n = (case jget n ''artifacts'' of JList vs \<Rightarrow> map obj_fields vs | _ \<Rightarrow> [])"

definition artifact_identity :: "json dict \<Rightarrow> json \<times> json \<times> json" where
  "artifact_identity d = (jget d ''kind'', jget d ''name'', jget d ''uri'')"

definition records :: "art_cfg \<Rightarrow> task_row \<Rightarrow> json dict \<Rightarrow> artifact_row \<Rightarrow> bool" where
  "records A t d a \<longleftrightarrow>
     artifact_tenant_id a = tenant_id t \<and> artifact_job_id a = task_job_id t \<and> artifact_task_id a = task_id t \<and>
     jget d ''kind'' = JStr (artifact_kind a) \<and>
     artifact_uri a = optional_str A (jget d ''uri'') \<and> artifact_media_type a = optional_str A (jget d ''media_type'') \<and>
     list_all (\<lambda>k. metadata_value a k = jget d k)
       [''artifact_format'', ''datatype'', ''schema_version'', ''files'', ''sha256'', ''byte_size'', ''coordinate_frame'']"

lemma same_identity: "same_artifact a b \<longleftrightarrow> artifact_identity a = artifact_identity b"
  by (simp add: same_artifact_def artifact_identity_def)

lemma append_unique_inv:
  "distinct (map artifact_identity out) \<Longrightarrow> list_all Q out \<Longrightarrow> Q x \<Longrightarrow>
   distinct (map artifact_identity (append_unique out x)) \<and> list_all Q (append_unique out x)"
  by (auto simp: append_unique_def same_identity list_ex_iff)

lemma normalize_artifacts_inv:
  "normalize_artifacts A i vs out = Inr out' \<Longrightarrow> distinct (map artifact_identity out) \<Longrightarrow> list_all (well_described A) out \<Longrightarrow>
   distinct (map artifact_identity out') \<and> list_all (well_described A) out'"
proof (induction A i vs out rule: normalize_artifacts.induct)
  case (2 A i v vs out)
  then obtain d where d: "validate_artifact_descriptor A i v = Inr d" "normalize_artifacts A (Suc i) vs (append_unique out d) = Inr out'"
    by (auto simp: andthen_Inr)
  show ?case using 2(1) [OF d(2)] append_unique_inv [OF 2(3,4) accepted_again [OF d(1)]] by blast
qed simp

lemma normalize_artifacts_grows: "normalize_artifacts A i vs out = Inr out' \<Longrightarrow> length out \<le> length out'"
proof (induction A i vs out rule: normalize_artifacts.induct)
  case (2 A i v vs out)
  then obtain d where d: "normalize_artifacts A (Suc i) vs (append_unique out d) = Inr out'"
    by (auto simp: andthen_Inr)
  have "length out \<le> length (append_unique out d)" by (simp add: append_unique_def)
  also have "\<dots> \<le> length out'" using 2(1) d by (cases "validate_artifact_descriptor A i v") (use 2 in \<open>auto simp: andthen_Inr\<close>)
  finally show ?case .
qed simp

lemma normalized_described:
  assumes "normalize_outputs A t outs = Inr n"
  shows "list_all (well_described A) (described n) \<and> distinct (map artifact_identity (described n)) \<and>
    json_or (jget n ''artifacts'') (JList []) = JList (map JObj (described n))"
proof -
  obtain d vs arts where *: "json_or (jget d ''artifacts'') (JList []) = JList vs"
    "normalize_artifacts A 0 vs [] = Inr arts" "n = (if arts = [] then d else AList.update ''artifacts'' (JList (map JObj arts)) d)"
    using assms by (auto simp: normalize_outputs_def Let_def andthen_Inr raising_def split: json.splits if_splits)
  have arts: "distinct (map artifact_identity arts) \<and> list_all (well_described A) arts"
    using normalize_artifacts_inv [OF *(2)] by simp
  show ?thesis
  proof (cases "arts = []")
    case True
    have "vs = []"
    proof (rule ccontr)
      assume "vs \<noteq> []"
      then obtain v us e where "vs = v # us" "normalize_artifacts A 1 us (append_unique [] e) = Inr []"
        using *(2) True by (cases vs) (auto simp: andthen_Inr)
      then show False using normalize_artifacts_grows [of A 1 us "append_unique [] e" "[]"] by (simp add: append_unique_def)
    qed
    then show ?thesis using * True by (auto simp: described_def json_or_def split: if_splits json.splits)
  next
    case False
    then show ?thesis using * arts by (simp add: described_def desc_simps json_or_def o_def)
  qed
qed

lemma record_descriptors_all:
  assumes "list_all (well_described A) ds"
  shows "\<exists>rows. record_descriptors A t i ids (map JObj ds) = Inr rows \<and> list_all2 (records A t) ds rows"
  using assms
proof (induction ds arbitrary: i ids)
  case (Cons d ds)
  obtain d' where d': "validate_artifact_descriptor A i (JObj d) = Inr d'" "well_described A d'"
    "\<And>x. x \<notin> {''name'', ''producer'', ''summary'', ''metadata''} \<Longrightarrow> jget d' x = jget d x"
    using Cons.prems describe_again [of A d i] by auto
  obtain k where k: "jget d' ''kind'' = JStr k" using d'(2) by (auto simp: well_described_def split: json.splits)
  obtain m where m: "jget d' ''metadata'' = JObj m" "list_all (\<lambda>i. jget m i = jget d' i) RESERVED_ARTIFACT_METADATA_KEYS"
    using d'(2) by (auto simp: well_described_def split: json.splits)
  have "records A t d (artifact_of A t (hd ids) d')"
    using k m d'(3) by (simp add: records_def artifact_of_def ac_str_def metadata_value_def RESERVED_ARTIFACT_METADATA_KEYS_def)
  moreover obtain rows where "record_descriptors A t (Suc i) (tl ids) (map JObj ds) = Inr rows" "list_all2 (records A t) ds rows"
    using Cons by fastforce
  ultimately show ?case using d'(1) by auto
qed simp

lemma normalized_outputs_recordable:
  assumes "normalize_outputs A t outs = Inr n"
  shows "distinct (map artifact_identity (described n)) \<and>
    (\<exists>new. record_artifacts A ids t n rows =
        Inr (filter (\<lambda>a. \<not> (artifact_tenant_id a = tenant_id t \<and> artifact_task_id a = task_id t)) rows @ new) \<and>
      list_all2 (records A t) (described n) new)"
proof -
  have n: "list_all (well_described A) (described n)" "distinct (map artifact_identity (described n))"
    "json_or (jget n ''artifacts'') (JList []) = JList (map JObj (described n))"
    using normalized_described [OF assms] by auto
  obtain new where "record_descriptors A t 0 ids (map JObj (described n)) = Inr new" "list_all2 (records A t) (described n) new"
    using record_descriptors_all [OF n(1)] by blast
  then show ?thesis using n(2,3) by (simp add: record_artifacts_def)
qed

text \<open>
  C13. What a worker returned and was accepted is always recorded: one row per artifact of the
  normalised outputs, in their order, no two with the same kind, name and URI, replacing exactly
  the rows the task had. A row belongs to the task and carries the kind, URI, media type, format,
  data type, version, files and hash that the outputs declare, although recording checks and
  rewrites every descriptor once more.
\<close>

theorem normalized_outputs_are_recorded:
  assumes "normalize_outputs A t outs = Inr n"
  shows "distinct (map artifact_identity (described n)) \<and>
    (\<exists>new. record_artifacts A ids t n rows =
        Inr (filter (\<lambda>a. \<not> (artifact_tenant_id a = tenant_id t \<and> artifact_task_id a = task_id t)) rows @ new) \<and>
      list_all2 (records A t) (described n) new)"
  using assms by (rule normalized_outputs_recordable)

section \<open>A task that returns an artifact twice\<close>

definition demo_art :: art_cfg where
  "demo_art = \<lparr>ac_io = (\<lambda>f. before (CHR ''.'') (drop 7 f)), ac_public = \<lparr>red = (\<lambda>k s. s), public_uri = Some\<rparr>,
     ac_backend_format = (\<lambda>k. None), ac_float = (\<lambda>r. [])\<rparr>"

definition demo_descriptor :: json where
  "demo_descriptor = JObj [(''kind'', JStr ''features.local.v1''), (''uri'', JStr ''f.db''), (''metadata'', JObj [(''byte_size'', JInt 7)])]"

definition demo_described :: "json dict" where
  "demo_described =
     [(''kind'', JStr ''features.local.v1''), (''uri'', JStr ''f.db''),
      (''metadata'', JObj
         [(''artifact_format'', JStr ''sfmapi.features.local.v1''), (''datatype'', JStr ''features''), (''schema_version'', JInt 1),
          (''byte_size'', JInt 7)]),
      (''byte_size'', JInt 7), (''artifact_format'', JStr ''sfmapi.features.local.v1''), (''schema_version'', JInt 1),
      (''datatype'', JStr ''features'')]"

definition demo_owner :: task_row where
  "demo_owner = \<lparr>task_id = ''t'', tenant_id = ''a'', task_job_id = ''j'', kind = ''extract'', inputs_hash = [], params_hash = [],
     runtime_version_id = [], task_cache_key = [], depends_on_json = None, gpu_required = False, status = Running,
     worker_id = None, lease_expires_at = None, task_state_json = None, outputs_ref_json = None, error_class = None,
     error_message = None, started_at = None, finished_at = None\<rparr>"

lemma descriptor_accepted: "validate_artifact_descriptor demo_art 0 demo_descriptor = Inr demo_described"
  by code_simp

lemma demo_normalized:
  "normalize_outputs demo_art demo_owner (JObj [(''artifacts'', JList [demo_descriptor, demo_descriptor])]) =
     Inr [(''artifacts'', JList [JObj demo_described])]"
  by code_simp

theorem accepted_descriptors_are_complete_witness:
  "well_described demo_art demo_described \<and>
   (\<exists>d'. validate_artifact_descriptor demo_art 3 (JObj demo_described) = Inr d' \<and> jget d' ''byte_size'' = JInt 7)"
proof -
  note accepted = accepted_descriptors_are_complete [OF descriptor_accepted]
  obtain d' where d': "validate_artifact_descriptor demo_art 3 (JObj demo_described) = Inr d'"
    "\<forall>x. x \<notin> {''name'', ''producer'', ''summary'', ''metadata''} \<longrightarrow> jget d' x = jget demo_described x"
    using conjunct2 [OF accepted] by blast
  have "jget demo_described ''byte_size'' = JInt 7" by (simp add: demo_described_def jget_def)
  with d' have "jget d' ''byte_size'' = JInt 7" by simp
  with d'(1) accepted show ?thesis by blast
qed

theorem normalized_outputs_are_recorded_witness:
  "\<exists>new. record_artifacts demo_art [''a1''] demo_owner [(''artifacts'', JList [JObj demo_described])] [] = Inr ([] @ new) \<and>
     list_all2 (records demo_art demo_owner) [demo_described] new"
  using normalized_outputs_are_recorded [OF demo_normalized, of "[''a1'']" "[]"] by (simp add: described_def jget_def)

end
