(* ===== verification/Conversion_Path.thy ===== *)
theory Conversion_Path
  imports Prelude
begin

text \<open>
  The planner of format conversions: \<open>_find_conversion_path\<close> of
  \<open>services/artifact_conversion_service.py\<close>, a breadth-first search over the conversions that
  backends declare, with the proof that it finds a shortest chain to one of the formats asked for
  whenever there is one.
\<close>

section \<open>The search\<close>

text \<open>\<open>ArtifactConversionStepOut\<close>.\<close>

record conversion_step =
  step_contract_id :: "string option"
  step_backend :: "string option"
  step_provider :: "string option"
  from_format :: string
  to_format :: string
  lossless :: bool
  step_description :: "string option"

type_synonym conversion_path = "conversion_step list"

text \<open>The formats that a queue entry's format converts to in one step, in the order declared.\<close>

definition edges_from :: "conversion_step list \<Rightarrow> bool \<Rightarrow> string \<Rightarrow> conversion_step list" where
  "edges_from steps require_lossless current =
     filter (\<lambda>s. from_format s = current) (filter (\<lambda>s. \<not> (require_lossless \<and> \<not> lossless s)) steps)"

fun visit_edges ::
  "string list \<Rightarrow> conversion_path \<Rightarrow> conversion_step list \<Rightarrow> string set \<Rightarrow> (string \<times> conversion_path) list \<Rightarrow>
   (string \<times> conversion_path) + (string set \<times> (string \<times> conversion_path) list)" where
  "visit_edges targets path [] visited queue = Inr (visited, queue)"
| "visit_edges targets path (s # ss) visited queue =
     (if to_format s \<in> visited then visit_edges targets path ss visited queue
      else if to_format s \<in> set targets then Inl (to_format s, path @ [s])
      else visit_edges targets path ss (insert (to_format s) visited) (queue @ [(to_format s, path @ [s])]))"

text \<open>What a visit leaves: the formats reached are visited, and the new ones are queued.\<close>

lemma visit_edges_Inl:
  "visit_edges T p ss v q = Inl (t, r) \<Longrightarrow> \<exists>s \<in> set ss. t = to_format s \<and> r = p @ [s] \<and> t \<in> set T"
  by (induction T p ss v q rule: visit_edges.induct) (auto split: if_splits)

lemma visit_edges_Inr:
  assumes "visit_edges T p ss v q = Inr (v', q')"
  obtains new where "q' = q @ new" "v' = v \<union> to_format ` set ss" "v' \<inter> set T = v \<inter> set T"
    and "\<And>y r. (y, r) \<in> set new \<Longrightarrow> y \<notin> v \<and> (\<exists>s \<in> set ss. y = to_format s \<and> r = p @ [s])"
    and "\<And>y. y \<in> v' \<Longrightarrow> y \<notin> v \<Longrightarrow> \<exists>r. (y, r) \<in> set new"
    and "length new = card (v' - v)"
proof -
  have "\<exists>new. q' = q @ new \<and> v' = v \<union> to_format ` set ss \<and> v' \<inter> set T = v \<inter> set T \<and>
     (\<forall>y r. (y, r) \<in> set new \<longrightarrow> y \<notin> v \<and> (\<exists>s \<in> set ss. y = to_format s \<and> r = p @ [s])) \<and>
     (\<forall>y. y \<in> v' \<longrightarrow> y \<notin> v \<longrightarrow> (\<exists>r. (y, r) \<in> set new)) \<and> length new = card (v' - v)"
    using assms
  proof (induction T p ss v q rule: visit_edges.induct)
    case (2 T p s ss v q)
    show ?case
    proof (cases "to_format s \<in> v")
      case True
      then have "visit_edges T p ss v q = Inr (v', q')" using 2(3) by simp
      from 2(1) [OF True this] show ?thesis using True by (auto simp: insert_absorb)
    next
      case new: False
      have nt: "to_format s \<notin> set T" using 2(3) new by (auto split: if_splits)
      then have "visit_edges T p ss (insert (to_format s) v) (q @ [(to_format s, p @ [s])]) = Inr (v', q')"
        using 2(3) new by simp
      from 2(2) [OF new nt this] obtain n where n: "q' = (q @ [(to_format s, p @ [s])]) @ n"
        "v' = insert (to_format s) v \<union> to_format ` set ss" "v' \<inter> set T = insert (to_format s) v \<inter> set T"
        "\<forall>y r. (y, r) \<in> set n \<longrightarrow> y \<notin> insert (to_format s) v \<and> (\<exists>s \<in> set ss. y = to_format s \<and> r = p @ [s])"
        "\<forall>y. y \<in> v' \<longrightarrow> y \<notin> insert (to_format s) v \<longrightarrow> (\<exists>r. (y, r) \<in> set n)" "length n = card (v' - insert (to_format s) v)"
        by blast
      have more: "v' - v = insert (to_format s) (v' - insert (to_format s) v)" using n(2) new by auto
      have "v' - insert (to_format s) v \<subseteq> to_format ` set ss" using n(2) by auto
      then have "finite (v' - insert (to_format s) v)" by (rule finite_subset) simp
      then have "card (v' - v) = Suc (card (v' - insert (to_format s) v))" unfolding more by (rule card_insert_disjoint) simp
      then have "length ((to_format s, p @ [s]) # n) = card (v' - v)" by (simp add: n(6))
      moreover have "q' = q @ (to_format s, p @ [s]) # n" using n(1) by simp
      moreover have "v' = v \<union> to_format ` set (s # ss)" using n(2) by simp
      moreover have "v' \<inter> set T = v \<inter> set T" using n(3) nt by simp
      moreover have "\<forall>y r. (y, r) \<in> set ((to_format s, p @ [s]) # n) \<longrightarrow>
          y \<notin> v \<and> (\<exists>s \<in> set (s # ss). y = to_format s \<and> r = p @ [s])"
        using n(4) new by auto
      moreover have "\<forall>y. y \<in> v' \<longrightarrow> y \<notin> v \<longrightarrow> (\<exists>r. (y, r) \<in> set ((to_format s, p @ [s]) # n))"
        using n(5) by auto
      ultimately show ?thesis by blast
    qed
  qed simp
  with that show thesis by blast
qed

function search_path ::
  "conversion_step list \<Rightarrow> bool \<Rightarrow> string list \<Rightarrow> (string \<times> conversion_path) list \<Rightarrow> string set \<Rightarrow>
   (string \<times> conversion_path) option" where
  "search_path steps require_lossless targets [] visited = None"
| "search_path steps require_lossless targets ((current, path) # queue) visited =
     (case visit_edges targets path (edges_from steps require_lossless current) visited queue of
        Inl found \<Rightarrow> Some found
      | Inr (visited', queue') \<Rightarrow> search_path steps require_lossless targets queue' visited')"
  by pat_completeness auto

termination search_path
proof (relation "measure (\<lambda>(steps, l, targets, queue, visited). length queue + card (to_format ` set steps - visited))")
  fix steps :: "conversion_step list" and l targets current path queue visited x v' q'
  assume run: "visit_edges targets path (edges_from steps l current) visited queue = Inr x" "(v', q') = x"
  then obtain new where new: "q' = queue @ new" "v' = visited \<union> to_format ` set (edges_from steps l current)"
    "length new = card (v' - visited)"
    by (metis visit_edges_Inr)
  let ?N = "to_format ` set steps"
  have "v' - visited \<subseteq> ?N - visited" using new(2) by (auto simp: edges_from_def)
  moreover have "?N - v' = (?N - visited) - (v' - visited)" using new(2) by auto
  ultimately have "card (?N - v') + length new = card (?N - visited)"
    using new(3) by (simp add: card_Diff_subset card_mono finite_subset)
  then show "((steps, l, targets, q', v'), (steps, l, targets, (current, path) # queue, visited))
      \<in> measure (\<lambda>(steps, l, targets, queue, visited). length queue + card (to_format ` set steps - visited))"
    using new(1) by simp
qed simp

definition find_conversion_path ::
  "conversion_step list \<Rightarrow> string \<Rightarrow> string list \<Rightarrow> bool \<Rightarrow> (string \<times> conversion_path) option" where
  "find_conversion_path steps from targets require_lossless =
     (if from \<in> set targets then Some (from, [])
      else search_path steps require_lossless targets [(from, [])] {from})"

section \<open>Chains of conversions\<close>

text \<open>The specification: conversions that may be used, each starting where the one before ends.\<close>

fun conversion_chain :: "conversion_step list \<Rightarrow> bool \<Rightarrow> string \<Rightarrow> conversion_path \<Rightarrow> string \<Rightarrow> bool" where
  "conversion_chain steps require_lossless a [] b = (a = b)"
| "conversion_chain steps require_lossless a (s # p) b =
     (s \<in> set steps \<and> (require_lossless \<longrightarrow> lossless s) \<and> from_format s = a \<and>
      conversion_chain steps require_lossless (to_format s) p b)"

lemma chain_snoc:
  "conversion_chain S l a (p @ [s]) c \<longleftrightarrow> conversion_chain S l a p (from_format s) \<and> s \<in> set (edges_from S l (from_format s)) \<and> to_format s = c"
  by (induction p arbitrary: a) (auto simp: edges_from_def)

lemma edges_from_from: "s \<in> set (edges_from S l x) \<Longrightarrow> from_format s = x"
  by (simp add: edges_from_def)

text \<open>The loop invariant: queued paths are shortest and in order, and everything nearer is visited.\<close>

definition shortest :: "conversion_step list \<Rightarrow> bool \<Rightarrow> string \<Rightarrow> conversion_path \<Rightarrow> string \<Rightarrow> bool" where
  "shortest S l a p b \<longleftrightarrow> conversion_chain S l a p b \<and> (\<forall>r. conversion_chain S l a r b \<longrightarrow> length p \<le> length r)"

definition covered :: "conversion_step list \<Rightarrow> bool \<Rightarrow> (string \<times> conversion_path) list \<Rightarrow> string set \<Rightarrow> bool" where
  "covered S l q v \<longleftrightarrow> (\<forall>x \<in> v. (\<exists>p. (x, p) \<in> set q) \<or> to_format ` set (edges_from S l x) \<subseteq> v)"

definition search_inv :: "conversion_step list \<Rightarrow> bool \<Rightarrow> string list \<Rightarrow> string \<Rightarrow> (string \<times> conversion_path) list \<Rightarrow> string set \<Rightarrow> bool" where
  "search_inv S l T a q v \<longleftrightarrow>
     a \<in> v \<and> v \<inter> set T = {} \<and> covered S l q v \<and>
     (\<forall>x p. (x, p) \<in> set q \<longrightarrow> x \<in> v \<and> shortest S l a p x) \<and>
     sorted (map (length \<circ> snd) q) \<and>
     (case q of [] \<Rightarrow> True | (x, p) # _ \<Rightarrow>
        (\<forall>e \<in> set q. length (snd e) \<le> Suc (length p)) \<and>
        (\<forall>y r. conversion_chain S l a r y \<longrightarrow> length r \<le> length p \<longrightarrow> y \<in> v))"

lemma covered_chain:
  assumes "covered S l [] v" "a \<in> v" "conversion_chain S l a p b"
  shows "b \<in> v"
  using assms(2,3)
proof (induction p arbitrary: a)
  case (Cons s p)
  then have "to_format s \<in> v" using assms(1) by (auto simp: covered_def edges_from_def)
  then show ?case using Cons by simp
qed simp

lemma search_step:
  assumes inv: "search_inv S l T a ((x, p) # q) v" and run: "visit_edges T p (edges_from S l x) v q = Inr (v', q')"
  shows "search_inv S l T a q' v'"
proof -
  let ?k = "length p"
  obtain new where new: "q' = q @ new" "v' = v \<union> to_format ` set (edges_from S l x)" "v' \<inter> set T = v \<inter> set T"
    and ent: "\<And>y r. (y, r) \<in> set new \<Longrightarrow> y \<notin> v \<and> (\<exists>s \<in> set (edges_from S l x). y = to_format s \<and> r = p @ [s])"
    and ex: "\<And>y. y \<in> v' \<Longrightarrow> y \<notin> v \<Longrightarrow> \<exists>r. (y, r) \<in> set new"
    using visit_edges_Inr [OF run] by metis
  have p: "conversion_chain S l a p x" and a: "a \<in> v" "v \<inter> set T = {}"
    and old: "\<And>y r. (y, r) \<in> set q \<Longrightarrow> y \<in> v \<and> shortest S l a r y \<and> ?k \<le> length r \<and> length r \<le> Suc ?k"
    and near: "\<And>y r. conversion_chain S l a r y \<Longrightarrow> length r \<le> ?k \<Longrightarrow> y \<in> v"
    and sq: "sorted (map (length \<circ> snd) q)"
    using inv unfolding search_inv_def shortest_def by force+
  have len: "length r = Suc ?k" if "(y, r) \<in> set new" for y r using ent [OF that] by auto
  have short: "shortest S l a r y" if yr: "(y, r) \<in> set new" for y r
  proof -
    obtain s where s: "s \<in> set (edges_from S l x)" "y = to_format s" "r = p @ [s]" "y \<notin> v" using ent [OF yr] by blast
    have "conversion_chain S l a r y" using s p edges_from_from [OF s(1)] by (simp add: chain_snoc)
    moreover have "length r \<le> length r'" if "conversion_chain S l a r' y" for r'
    proof (rule ccontr)
      assume "\<not> length r \<le> length r'"
      then have "length r' \<le> ?k" using len [OF yr] by simp
      then show False using near [OF that] s(4) by blast
    qed
    ultimately show ?thesis by (simp add: shortest_def)
  qed
  have entries: "y \<in> v' \<and> shortest S l a r y \<and> ?k \<le> length r \<and> length r \<le> Suc ?k" if "(y, r) \<in> set q'" for y r
  proof (cases "(y, r) \<in> set q")
    case True
    then show ?thesis using old new(2) by blast
  next
    case False
    then have n: "(y, r) \<in> set new" using that new(1) by simp
    then have "y \<in> v'" using ent new(2) by blast
    then show ?thesis using short [OF n] len [OF n] by simp
  qed
  have cov: "covered S l q' v'"
    unfolding covered_def
  proof
    fix z assume z: "z \<in> v'"
    show "(\<exists>r. (z, r) \<in> set q') \<or> to_format ` set (edges_from S l z) \<subseteq> v'"
    proof (cases "z \<in> v")
      case True
      then have "(\<exists>r. (z, r) \<in> set ((x, p) # q)) \<or> to_format ` set (edges_from S l z) \<subseteq> v"
        using inv unfolding search_inv_def covered_def by blast
      then show ?thesis using new(1,2) by auto
    next
      case False
      then show ?thesis using ex [OF z] new(1) by auto
    qed
  qed
  have "map (length \<circ> snd) new = map (\<lambda>_. Suc ?k) new" using len by auto
  then have "sorted (map (length \<circ> snd) new)" by (simp only: map_replicate_const sorted_replicate)
  then have sorted: "sorted (map (length \<circ> snd) q')"
    using sq old len by (auto simp: new(1) sorted_append)
  have front: "case q' of [] \<Rightarrow> True | (x', p') # _ \<Rightarrow>
      (\<forall>e \<in> set q'. length (snd e) \<le> Suc (length p')) \<and>
      (\<forall>y r. conversion_chain S l a r y \<longrightarrow> length r \<le> length p' \<longrightarrow> y \<in> v')"
  proof (cases q')
    case (Cons e es)
    obtain x' p' where e: "e = (x', p')" by (cases e)
    have p': "?k \<le> length p'" "length p' \<le> Suc ?k" using entries [of x' p'] Cons e by auto
    have all: "length p' \<le> length r" if "(y, r) \<in> set q'" for y r using sorted that Cons e by auto
    have "y \<in> v'" if r: "conversion_chain S l a r y" "length r \<le> length p'" for y r
    proof (cases "length r \<le> ?k")
      case True
      then show ?thesis using near r(1) new(2) by blast
    next
      case False
      then have k: "length r = Suc ?k" "length p' = Suc ?k" using r(2) p' by auto
      then obtain r0 s where r0: "r = r0 @ [s]" by (metis length_Suc_conv_rev)
      with r(1) have s: "conversion_chain S l a r0 (from_format s)" "s \<in> set (edges_from S l (from_format s))" "y = to_format s"
        by (simp_all add: chain_snoc)
      have near_s: "from_format s \<in> v'" using near [OF s(1)] k r0 new(2) by auto
      have "\<nexists>t. (from_format s, t) \<in> set q'"
      proof
        assume "\<exists>t. (from_format s, t) \<in> set q'"
        then obtain t where t: "(from_format s, t) \<in> set q'" by blast
        then have "length t \<le> length r0" using entries s(1) unfolding shortest_def by blast
        then show False using all [OF t] k r0 by simp
      qed
      then show ?thesis using cov near_s s(2,3) unfolding covered_def by blast
    qed
    moreover have "length (snd f) \<le> Suc (length p')" if "f \<in> set q'" for f
      using entries [of "fst f" "snd f"] that p' by simp
    ultimately show ?thesis using Cons e by simp
  qed simp
  have "a \<in> v'" "v' \<inter> set T = {}" using a new(2,3) by auto
  moreover have "\<forall>y r. (y, r) \<in> set q' \<longrightarrow> y \<in> v' \<and> shortest S l a r y" using entries by blast
  ultimately show ?thesis using cov sorted front by (simp only: search_inv_def simp_thms)
qed

definition best_conversion :: "conversion_step list \<Rightarrow> bool \<Rightarrow> string list \<Rightarrow> string \<Rightarrow> (string \<times> conversion_path) option \<Rightarrow> bool" where
  "best_conversion S l T a r \<longleftrightarrow>
     (case r of
        None \<Rightarrow> \<not> (\<exists>p b. conversion_chain S l a p b \<and> b \<in> set T)
      | Some (b, p) \<Rightarrow> conversion_chain S l a p b \<and> b \<in> set T \<and>
          \<not> (\<exists>q c. conversion_chain S l a q c \<and> c \<in> set T \<and> length q < length p))"

lemma search_best: "search_inv S l T a q v \<Longrightarrow> best_conversion S l T a (search_path S l T q v)"
proof (induction S l T q v rule: search_path.induct)
  case (1 S l T v)
  then have "c \<notin> set T" if "conversion_chain S l a p c" for p c
    using covered_chain [OF _ _ that] by (auto simp: search_inv_def)
  then show ?case by (auto simp: best_conversion_def)
next
  case (2 S l T x p q v)
  show ?case
  proof (cases "visit_edges T p (edges_from S l x) v q")
    case (Inl found)
    obtain t r where f: "found = (t, r)" by (cases found)
    obtain s where s: "s \<in> set (edges_from S l x)" "t = to_format s" "r = p @ [s]" "t \<in> set T"
      using visit_edges_Inl [OF Inl [unfolded f]] by blast
    have "conversion_chain S l a p x" using 2(2) by (simp add: search_inv_def shortest_def)
    then have "conversion_chain S l a r t" using s edges_from_from [OF s(1)] by (simp add: chain_snoc)
    moreover have "\<not> (\<exists>q c. conversion_chain S l a q c \<and> c \<in> set T \<and> length q < length r)"
    proof
      assume "\<exists>q c. conversion_chain S l a q c \<and> c \<in> set T \<and> length q < length r"
      then obtain q' c where c: "conversion_chain S l a q' c" "c \<in> set T" "length q' \<le> length p"
        using s(3) by auto
      then have "c \<in> v" using 2(2) by (simp add: search_inv_def)
      then show False using c(2) 2(2) unfolding search_inv_def by blast
    qed
    ultimately show ?thesis using s(4) by (simp add: Inl f best_conversion_def)
  next
    case (Inr w)
    obtain v' q' where w: "w = (v', q')" by (cases w)
    have "search_inv S l T a q' v'" using search_step [OF 2(2)] Inr w by simp
    then show ?thesis using 2(1) [OF Inr w [symmetric]] by (simp add: Inr w)
  qed
qed

lemma find_conversion_best:
  "best_conversion steps require_lossless targets from (find_conversion_path steps from targets require_lossless)"
proof (cases "from \<in> set targets")
  case True
  then show ?thesis by (simp add: find_conversion_path_def best_conversion_def)
next
  case False
  have "search_inv steps require_lossless targets from [(from, [])] {from}"
    using False by (simp add: search_inv_def covered_def shortest_def)
  from search_best [OF this] show ?thesis unfolding find_conversion_path_def using False by (simp only: if_False)
qed

text \<open>
  C14. The planner finds a conversion exactly when the declared conversions, only the lossless ones
  if asked, chain from the source format to one of the accepted formats, and the chain it returns
  ends in an accepted format and is one of the shortest.
\<close>

theorem planner_finds_shortest_conversion:
  "best_conversion steps require_lossless targets from (find_conversion_path steps from targets require_lossless)"
  by (rule find_conversion_best)

end
