(* ===== verification/Artifact_Conversion.thy ===== *)
theory Artifact_Conversion
  imports Artifact_Records Stages Conversion_Path
begin

text \<open>
  \<open>services/artifact_conversion_service.py\<close>: what a conversion plan contains, the submission of
  a conversion job and the import of an artifact. \<open>conv_cfg\<close> adds to the configuration of the
  stages the registry of backends: \<open>cv_get\<close> gives a backend for a provider or the message of a
  \<open>KeyError\<close>, and of a backend its name, what listing its artifact contracts gives and whether
  it converts. The
  check of artifact contents, which reads files, is not modelled.
\<close>

record backend_view =
  bv_name :: string
  bv_contracts :: "api_error + json dict list"
  bv_converts :: bool

record conv_cfg =
  cv_stage :: stage_cfg
  cv_public :: public_text
  cv_backend_format :: "string \<Rightarrow> string option"
  cv_get :: "string option \<Rightarrow> string + backend_view"

definition art_of :: "conv_cfg \<Rightarrow> art_cfg" where
  "art_of C = \<lparr>ac_io = sc_format_type (cv_stage C), ac_public = cv_public C, ac_backend_format = cv_backend_format C,
     ac_float = float_repr (sc_env (cv_stage C))\<rparr>"

section \<open>An artifact as a conversion sees it\<close>

definition metadata_of :: "artifact_row \<Rightarrow> json dict" where
  "metadata_of a = (case artifact_metadata_json a of Some (JObj m) \<Rightarrow> m | _ \<Rightarrow> [])"

definition nonempty_str :: "json \<Rightarrow> string option" where
  "nonempty_str v = (case v of JStr s \<Rightarrow> if s = [] then None else Some s | _ \<Rightarrow> None)"

definition artifact_format_of :: "artifact_row \<Rightarrow> string option" where
  "artifact_format_of a = nonempty_str (jget (metadata_of a) ''artifact_format'')"

definition datatype_of :: "(string \<Rightarrow> string) \<Rightarrow> artifact_row \<Rightarrow> string option" where
  "datatype_of io a =
     (case nonempty_str (jget (metadata_of a) ''datatype'') of
        Some t \<Rightarrow> Some t
      | None \<Rightarrow>
          (case (case artifact_format_of a of None \<Rightarrow> None | Some f \<Rightarrow> datatype_for_format io f) of
             Some t \<Rightarrow> Some t
           | None \<Rightarrow> datatype_for_kind io (artifact_kind a)))"

definition artifact_reference :: "(string \<Rightarrow> string) \<Rightarrow> artifact_row \<Rightarrow> json" where
  "artifact_reference io a = JObj
     [(''artifact_id'', JStr (artifact_id a)), (''kind'', JStr (artifact_kind a)),
      (''name'', opt_json JStr (artifact_name a)), (''uri'', opt_json JStr (artifact_uri a)),
      (''media_type'', opt_json JStr (artifact_media_type a)),
      (''artifact_format'', opt_json JStr (artifact_format_of a)), (''datatype'', opt_json JStr (datatype_of io a)),
      (''schema_version'', jget (metadata_of a) ''schema_version''),
      (''files'', if is_list (jget (metadata_of a) ''files'') then jget (metadata_of a) ''files'' else JList []),
      (''summary'', case artifact_summary_json a of Some (JObj s) \<Rightarrow> JObj s | _ \<Rightarrow> JObj []),
      (''metadata'', JObj (metadata_of a)),
      (''job_id'', JStr (artifact_job_id a)), (''task_id'', JStr (artifact_task_id a)),
      (''recon_id'', opt_json JStr (artifact_recon_id a)), (''dataset_id'', opt_json JStr (artifact_dataset_id a))]"

section \<open>Plans\<close>

definition resolve_backend :: "conv_cfg \<Rightarrow> string option \<Rightarrow> api_error + backend_view" where
  "resolve_backend C provider =
     andthen (case provider of
         None \<Rightarrow> Inr ()
       | Some p \<Rightarrow> map_sum routing_error id (ensure_provider_enabled p (sc_hub (cv_stage C)) (sc_manifests (cv_stage C))
           (sc_entry_points (cv_stage C)))) (\<lambda>_.
     map_sum (\<lambda>msg. routing_error (Key_Error msg)) id (cv_get C provider))"

record conversion_request =
  cq_provider :: "string option"
  cq_to_format :: "string option"
  cq_accepted :: "string list"
  cq_lossless :: bool
  cq_name :: "string option"
  cq_to_kind :: "string option"
  cq_options :: "json dict"

fun add_formats :: "string list \<Rightarrow> string list \<Rightarrow> api_error + string list" where
  "add_formats [] out = Inr out"
| "add_formats (f # fs) out =
     (if \<not> is_valid_artifact_key f then
        raising ValidationError (''accepted_formats contains invalid format id '' @ py_repr f @
          ''; expected '' @ py_repr ARTIFACT_KEY_PATTERN)
      else add_formats fs (if f \<in> set out then out else out @ [f]))"

definition target_formats :: "conversion_request \<Rightarrow> api_error + string list" where
  "target_formats q =
     andthen (add_formats (cq_accepted q) (case cq_to_format q of None \<Rightarrow> [] | Some f \<Rightarrow> if f = [] then [] else [f])) (\<lambda>out.
     if out = [] then raising ValidationError ''to_format or accepted_formats is required'' else Inr out)"

text \<open>A conversion without its formats is a \<open>KeyError\<close>, which no caller handles.\<close>

definition text_if :: "art_cfg \<Rightarrow> json \<Rightarrow> string option" where
  "text_if A v = (if truthy v then Some (ac_str A v) else None)"

definition conversion_step_of :: "art_cfg \<Rightarrow> json dict \<Rightarrow> json dict \<Rightarrow> submit_error + conversion_step" where
  "conversion_step_of A contract conversion =
     (case map_of conversion ''from_format'' of
        None \<Rightarrow> Inl (Submission \<lparr>exn_name = ''KeyError'', exn_backend_unavailable = False, exn_text = py_repr ''from_format''\<rparr>)
      | Some f \<Rightarrow>
          (case map_of conversion ''to_format'' of
             None \<Rightarrow> Inl (Submission \<lparr>exn_name = ''KeyError'', exn_backend_unavailable = False, exn_text = py_repr ''to_format''\<rparr>)
           | Some t \<Rightarrow> Inr
               \<lparr>step_contract_id = text_if A (jget contract ''contract_id''), step_backend = text_if A (jget contract ''backend''),
                step_provider = text_if A (jget contract ''provider''), from_format = ac_str A f, to_format = ac_str A t,
                lossless = truthy (jget conversion ''lossless''),
                step_description = (if jget conversion ''description'' = JNull then None
                  else Some (ac_str A (jget conversion ''description'')))\<rparr>))"

text \<open>\<open>contract.get("conversions") or []\<close>: a list, by the normalisation of contracts.\<close>

definition contract_conversions :: "json dict \<Rightarrow> json dict list" where
  "contract_conversions contract =
     (case jget contract ''conversions'' of JList vs \<Rightarrow> map obj_fields (filter is_obj vs) | _ \<Rightarrow> [])"

definition conversion_steps :: "conv_cfg \<Rightarrow> string option \<Rightarrow> submit_error + conversion_step list" where
  "conversion_steps C provider =
     andthen (checked (resolve_backend C provider)) (\<lambda>b.
     andthen (checked (bv_contracts b)) (\<lambda>contracts.
     collect (\<lambda>(c, v). conversion_step_of (art_of C) c v)
       (concat (map (\<lambda>c. map (Pair c) (contract_conversions c)) contracts))))"

record conversion_plan =
  pl_artifact_id :: string
  pl_source :: "string option"
  pl_target :: string
  pl_required :: bool
  pl_executable :: bool
  pl_reason :: "string option"
  pl_steps :: conversion_path

definition plan_conversion_for_artifact ::
  "conv_cfg \<Rightarrow> artifact_row \<Rightarrow> conversion_request \<Rightarrow> submit_error + conversion_plan" where
  "plan_conversion_for_artifact C a q =
     andthen (checked (target_formats q)) (\<lambda>targets.
     case artifact_format_of a of
       None \<Rightarrow> Inr \<lparr>pl_artifact_id = artifact_id a, pl_source = None, pl_target = hd targets, pl_required = True,
         pl_executable = False, pl_reason = Some ''artifact has no artifact_format metadata'', pl_steps = []\<rparr>
     | Some f \<Rightarrow>
         if f \<in> set targets then Inr \<lparr>pl_artifact_id = artifact_id a, pl_source = Some f, pl_target = f, pl_required = False,
           pl_executable = True, pl_reason = Some ''artifact already uses the selected format'', pl_steps = []\<rparr>
         else andthen (conversion_steps C (cq_provider q)) (\<lambda>steps.
           case find_conversion_path steps f targets (cq_lossless q) of
             Some (t, p) \<Rightarrow> Inr \<lparr>pl_artifact_id = artifact_id a, pl_source = Some f, pl_target = t, pl_required = True,
               pl_executable = True, pl_reason = None, pl_steps = p\<rparr>
           | None \<Rightarrow> Inr \<lparr>pl_artifact_id = artifact_id a, pl_source = Some f, pl_target = hd targets, pl_required = True,
               pl_executable = False,
               pl_reason = Some (''no backend artifact conversion path matches the requested formats'' @
                 (if cq_lossless q then '' with lossless=true'' else [])), pl_steps = []\<rparr>))"

definition get_conversion_plan ::
  "conv_cfg \<Rightarrow> string \<Rightarrow> string \<Rightarrow> conversion_request \<Rightarrow> stage_state \<Rightarrow> submit_error + conversion_plan" where
  "get_conversion_plan C tenant aid q d =
     andthen (checked (get_artifact tenant aid (stage_artifacts (resources d)))) (\<lambda>a. plan_conversion_for_artifact C a q)"

section \<open>Conversion jobs\<close>

definition kind_for_default_format :: "string \<Rightarrow> string option" where
  "kind_for_default_format f = map_option fst (find (\<lambda>e. snd e = f) CORE_ARTIFACT_KINDS)"

definition target_kind :: "string \<Rightarrow> string \<Rightarrow> string option \<Rightarrow> string" where
  "target_kind kind0 target explicit =
     (case explicit of
        Some k \<Rightarrow> k
      | None \<Rightarrow> (case kind_for_default_format target of Some k \<Rightarrow> k | None \<Rightarrow> kind0))"

text \<open>\<open>plan.model_dump(mode="json")\<close>.\<close>

definition step_json :: "conversion_step \<Rightarrow> json" where
  "step_json s = JObj
     [(''contract_id'', opt_json JStr (step_contract_id s)), (''backend'', opt_json JStr (step_backend s)),
      (''provider'', opt_json JStr (step_provider s)), (''from_format'', JStr (from_format s)),
      (''to_format'', JStr (to_format s)), (''lossless'', JBool (lossless s)),
      (''description'', opt_json JStr (step_description s))]"

definition plan_json :: "conversion_plan \<Rightarrow> json" where
  "plan_json p = JObj
     [(''artifact_id'', JStr (pl_artifact_id p)), (''source_format'', opt_json JStr (pl_source p)),
      (''target_format'', JStr (pl_target p)), (''conversion_required'', JBool (pl_required p)),
      (''executable'', JBool (pl_executable p)), (''reason'', opt_json JStr (pl_reason p)),
      (''steps'', JList (map step_json (pl_steps p)))]"

definition refused :: "string \<Rightarrow> submit_error + 'a" where
  "refused msg = checked (raising ValidationError msg)"

definition conversion_spec :: "conversion_request \<Rightarrow> conversion_plan \<Rightarrow> string \<Rightarrow> json dict" where
  "conversion_spec q p k =
     [(''target_format'', JStr (pl_target p)), (''target_kind'', JStr k), (''name'', opt_json JStr (cq_name q)),
      (''options'', JObj (cq_options q))] @ (case cq_provider q of None \<Rightarrow> [] | Some v \<Rightarrow> [(''provider'', JStr v)])"

definition conversion_node ::
  "conv_cfg \<Rightarrow> fresh_ids_of_stage \<Rightarrow> artifact_row \<Rightarrow> job_row \<Rightarrow> conversion_plan \<Rightarrow> json dict \<Rightarrow> task_node" where
  "conversion_node C F a j p spec =
     (stage_node (cv_stage C) (hd (fr_nodes F)) ''convert_artifact''
        [(''artifact'', artifact_reference (sc_format_type (cv_stage C)) a), (''project_id'', JStr (job_project_id j)),
         (''plan'', plan_json p)] spec [])\<lparr>node_gpu_required := False\<rparr>"

definition submit_conversion ::
  "conv_cfg \<Rightarrow> fresh_ids_of_stage \<Rightarrow> string \<Rightarrow> string \<Rightarrow> conversion_request \<Rightarrow> stage_state \<Rightarrow>
   submit_error + (submitted \<times> string \<times> json)" where
  "submit_conversion C F tenant aid q d =
     andthen (checked (get_artifact tenant aid (stage_artifacts (resources d)))) (\<lambda>a.
     andthen (plan_conversion_for_artifact C a q) (\<lambda>p.
     if \<not> pl_executable p then refused (case pl_reason p of Some r \<Rightarrow> r | None \<Rightarrow> ''artifact conversion is not executable'')
     else if \<not> pl_required p then refused ''artifact already uses the selected format; no conversion job created''
     else case find_job (jobs d) (artifact_job_id a) of
       None \<Rightarrow> checked (raising NotFoundError (''source job not found for artifact '' @ aid))
     | Some j \<Rightarrow>
       let k = target_kind (artifact_kind a) (pl_target p) (cq_to_kind q) in
       if \<not> is_format_compatible_with_kind (sc_format_type (cv_stage C)) k (pl_target p) then
         refused (''target format '' @ py_repr (pl_target p) @ '' is not compatible with kind '' @ py_repr k)
       else
         andthen (checked (apply_provider_resolution (cv_stage C) (conversion_spec q p k) ''convert_artifact'' ''artifacts.convert''
           (Some (job_project_id j)))) (\<lambda>spec.
         andthen (checked (resolve_backend C (str_opt (jget spec ''provider'')))) (\<lambda>b.
         if \<not> bv_converts b then
           checked (Inl (capability_unavailable ''artifacts.convert'' (''Backend '' @ py_repr (bv_name b) @
             '' advertises a conversion contract but does not implement convert_artifact().'')))
         else
           andthen (submit_nodes (cv_stage C) F tenant (job_project_id j) ''artifact_conversion''
             [(''artifact_id'', JStr aid), (''source_format'', opt_json JStr (pl_source p)), (''target_format'', JStr (pl_target p)),
              (''target_kind'', JStr k),
              (''options_hash'', JStr (hash_dict (sha256 (sc_env (cv_stage C))) (float_repr (sc_env (cv_stage C))) (JObj (cq_options q))))]
             [conversion_node C F a j p spec] d) (\<lambda>s. Inr (s, pl_target p, jget spec ''provider''))))))"

section \<open>Imports\<close>

text \<open>A request is its project and the dump of its other fields, without those that are None.\<close>

record import_request =
  iq_project :: string
  iq_fields :: "json dict"

definition import_dataset :: "string \<Rightarrow> import_request \<Rightarrow> stage_state \<Rightarrow> api_error + unit" where
  "import_dataset tenant q d =
     (case str_opt (jget (iq_fields q) ''dataset_id'') of
        None \<Rightarrow> Inr ()
      | Some did \<Rightarrow>
          (case find (\<lambda>r. dataset_id r = did \<and> dataset_tenant_id r = tenant) (datasets (stage_tables_of d)) of
             None \<Rightarrow> raising NotFoundError (''Dataset '' @ did @ '' not found'')
           | Some r \<Rightarrow> guard (dataset_project_id r \<noteq> iq_project q)
               (mk_error ValidationError ''dataset_id does not belong to project_id'' [])))"

definition import_recon :: "string \<Rightarrow> import_request \<Rightarrow> stage_state \<Rightarrow> api_error + unit" where
  "import_recon tenant q d =
     (case str_opt (jget (iq_fields q) ''recon_id'') of
        None \<Rightarrow> Inr ()
      | Some rid \<Rightarrow>
          (case find (\<lambda>r. rs_recon_id r = rid \<and> rs_tenant_id r = tenant) (recon_specs (stage_tables_of d)) of
             None \<Rightarrow> raising NotFoundError (''Reconstruction '' @ rid @ '' not found'')
           | Some r \<Rightarrow>
               if rs_project_id r \<noteq> iq_project q then raising ValidationError ''recon_id does not belong to project_id''
               else guard (jget (iq_fields q) ''dataset_id'' \<notin> {JNull, JStr (rs_dataset_id r)})
                 (mk_error ValidationError ''recon_id does not belong to dataset_id'' [])))"

definition field_or_null :: "import_request \<Rightarrow> string \<Rightarrow> string \<times> json" where
  "field_or_null q k = (k, jget (iq_fields q) k)"

definition import_job :: "conv_cfg \<Rightarrow> fresh_ids_of_stage \<Rightarrow> string \<Rightarrow> import_request \<Rightarrow> job_row" where
  "import_job C F tenant q =
     blank_job\<lparr>job_id := fr_job F, job_tenant_id := tenant, job_project_id := iq_project q, recipe := ''artifact_import'',
       spec_json := Some (JObj (map (field_or_null q) [''kind'', ''artifact_format'', ''dataset_id'', ''recon_id''])),
       job_status := Succeeded, job_started_at := Some (sc_now (cv_stage C)), job_finished_at := Some (sc_now (cv_stage C))\<rparr>"

definition import_task :: "conv_cfg \<Rightarrow> fresh_ids_of_stage \<Rightarrow> string \<Rightarrow> import_request \<Rightarrow> task_row" where
  "import_task C F tenant q =
     (let address = (\<lambda>v. hash_dict (sha256 (sc_env (cv_stage C))) (float_repr (sc_env (cv_stage C))) v) in
      blank_task\<lparr>task_id := hd (fr_nodes F), tenant_id := tenant, task_job_id := fr_job F, kind := ''import_artifact'',
        inputs_hash := address (JObj [(''project_id'', JStr (iq_project q))]),
        params_hash := address (JObj (map (field_or_null q) [''kind'', ''uri'', ''artifact_format'', ''metadata''])),
        runtime_version_id := ''import'',
        task_cache_key := address (JObj [(''job_id'', JStr (fr_job F)), (''task'', JStr ''import'')]),
        task_state_json := Some (JObj
          [(''inputs'', JObj [(''project_id'', JStr (iq_project q)), field_or_null q ''dataset_id'', field_or_null q ''recon_id'']),
           (''spec'', JObj [])]),
        outputs_ref_json := Some (JObj []), status := Succeeded,
        started_at := Some (sc_now (cv_stage C)), finished_at := Some (sc_now (cv_stage C))\<rparr>)"

text \<open>\<open>scalar_one()\<close>.\<close>

fun scalar_one :: "'a list \<Rightarrow> submit_error + 'a" where
  "scalar_one [] = Inl (Submission \<lparr>exn_name = ''NoResultFound'', exn_backend_unavailable = False,
     exn_text = ''No row was found when one was required''\<rparr>)"
| "scalar_one [x] = Inr x"
| "scalar_one (x # y # zs) = Inl (Submission \<lparr>exn_name = ''MultipleResultsFound'', exn_backend_unavailable = False,
     exn_text = ''Multiple rows were found when exactly one was required''\<rparr>)"

definition import_artifact ::
  "conv_cfg \<Rightarrow> fresh_ids_of_stage \<Rightarrow> string list \<Rightarrow> string \<Rightarrow> import_request \<Rightarrow> stage_state \<Rightarrow>
   submit_error + (stage_state \<times> artifact_row)" where
  "import_artifact C F new_ids tenant q d =
     andthen (checked (get_project tenant (iq_project q) d)) (\<lambda>_.
     andthen (checked (import_dataset tenant q d)) (\<lambda>_.
     andthen (checked (import_recon tenant q d)) (\<lambda>_.
       let j = import_job C F tenant q; t = import_task C F tenant q in
     andthen (checked (normalize_outputs (art_of C) t (JObj [(''artifacts'', JList [JObj (iq_fields q)])]))) (\<lambda>outputs.
     andthen (checked (record_artifacts (art_of C) new_ids t outputs (stage_artifacts (resources d)))) (\<lambda>rows.
     andthen (scalar_one (filter (\<lambda>a. artifact_tenant_id a = tenant \<and> artifact_task_id a = task_id t) rows)) (\<lambda>a.
     Inr (d\<lparr>tasks := tasks d @ [t\<lparr>outputs_ref_json := Some (JObj outputs)\<rparr>], jobs := jobs d @ [j],
            resources := (resources d)\<lparr>stage_artifacts := rows\<rparr>\<rparr>, a)))))))"

end
