(* ===== verification/Conversion_Correct.thy ===== *)
theory Conversion_Correct
  imports Artifact_Conversion Stage_Correct
begin

text \<open>
  A conversion job runs the best chain that the planner found, to a format that fits the kind;
  the chain is planned on the backend of the request although another one may run it.
\<close>

section \<open>Plans\<close>

lemma plan_executable:
  assumes "plan_conversion_for_artifact C a q = Inr p" and "pl_executable p" and "pl_required p"
  shows "\<exists>f targets steps. pl_source p = Some f \<and> artifact_format_of a = Some f \<and> target_formats q = Inr targets \<and>
     f \<notin> set targets \<and> conversion_steps C (cq_provider q) = Inr steps \<and>
     best_conversion steps (cq_lossless q) targets f (Some (pl_target p, pl_steps p)) \<and> pl_steps p \<noteq> []"
proof -
  obtain targets where t: "target_formats q = Inr targets"
    using assms(1) by (auto simp: plan_conversion_for_artifact_def andthen_Inr)
  obtain f where f: "artifact_format_of a = Some f"
    using assms t by (auto simp: plan_conversion_for_artifact_def split: option.splits)
  have new: "f \<notin> set targets"
    using assms t f by (auto simp: plan_conversion_for_artifact_def split: if_splits)
  obtain steps where s: "conversion_steps C (cq_provider q) = Inr steps"
    using assms(1) t f new by (auto simp: plan_conversion_for_artifact_def andthen_Inr)
  obtain b r where found: "find_conversion_path steps f targets (cq_lossless q) = Some (b, r)"
    and p: "pl_source p = Some f" "pl_target p = b" "pl_steps p = r"
    using assms t f new s by (auto simp: plan_conversion_for_artifact_def split: option.splits)
  have best: "best_conversion steps (cq_lossless q) targets f (Some (b, r))"
    using find_conversion_best [of steps "cq_lossless q" targets f] found by simp
  then have "b \<in> set targets" "conversion_chain steps (cq_lossless q) f r b" by (simp_all add: best_conversion_def)
  then have "r \<noteq> []" using new by auto
  then show ?thesis using t f new s best p by blast
qed

section \<open>Jobs\<close>

definition single_task :: "task_row list \<Rightarrow> string \<Rightarrow> json dict \<Rightarrow> json dict \<Rightarrow> bool" where
  "single_task rows k inputs spec \<longleftrightarrow>
     (\<exists>t. rows = [t] \<and> kind t = k \<and> deps_of t = [] \<and> task_inputs t = inputs \<and> task_spec t = JObj spec)"

lemma conversion_rows:
  assumes "submit_nodes C F tenant project rcp spec [(stage_node C nid k inputs tspec [])\<lparr>node_gpu_required := False\<rparr>] d =
    Inr (d', jid, rows, ready)"
  shows "single_task rows k inputs tspec"
proof -
  let ?n = "(stage_node C nid k inputs tspec [])\<lparr>node_gpu_required := False\<rparr>"
  have "submit_job_dag (sc_env C) (sc_now C) (fr_job F) [] (sc_runtime_version C) tenant project rcp (Some (JObj spec)) [?n] d =
      Inr (d', jid, rows, ready)"
    using assms unfolding submit_nodes_def
    by (cases "submit_job_dag (sc_env C) (sc_now C) (fr_job F) [] (sc_runtime_version C) tenant project rcp (Some (JObj spec)) [?n] d") simp_all
  from submit_rows_of_nodes [OF this] obtain t where t: "rows = [t]" "row_of_node (sc_env C) (sc_runtime_version C) ?n t"
    by (auto simp: list_all2_Cons1)
  have "kind t = k \<and> deps_of t = [] \<and> task_inputs t = inputs \<and> task_spec t = JObj tspec"
    using t(2) by (simp add: row_of_node_def stage_node_def task_inputs_def task_spec_def jget_def)
  then show ?thesis using t(1) unfolding single_task_def by blast
qed

text \<open>
  The rows are those of a conversion of the artifact to the target, in the project, along the best
  chain, for the provider that routing resolves there, whose backend can convert.
\<close>

definition follows_plan ::
  "conv_cfg \<Rightarrow> artifact_row \<Rightarrow> conversion_request \<Rightarrow> string \<Rightarrow> task_row list \<Rightarrow> string \<Rightarrow> json \<Rightarrow> bool" where
  "follows_plan C a q project rows target provider \<longleftrightarrow>
     (\<exists>f targets steps p k spec b.
        artifact_format_of a = Some f \<and> target_formats q = Inr targets \<and> f \<notin> set targets \<and>
        conversion_steps C (cq_provider q) = Inr steps \<and>
        best_conversion steps (cq_lossless q) targets f (Some (target, pl_steps p)) \<and> pl_steps p \<noteq> [] \<and>
        is_format_compatible_with_kind (sc_format_type (cv_stage C)) k target \<and>
        apply_provider_resolution (cv_stage C) (conversion_spec q p k) ''convert_artifact'' ''artifacts.convert'' (Some project) =
          Inr spec \<and> provider = jget spec ''provider'' \<and> resolve_backend C (str_opt provider) = Inr b \<and> bv_converts b \<and>
        jget spec ''target_format'' = JStr target \<and> jget spec ''target_kind'' = JStr k \<and>
        single_task rows ''convert_artifact''
          [(''artifact'', artifact_reference (sc_format_type (cv_stage C)) a), (''project_id'', JStr project), (''plan'', plan_json p)] spec)"

text \<open>The job of a submission: whose it is does not change when the job is finalized at once.\<close>

definition job_origin :: "job_row \<Rightarrow> string \<times> string \<times> string \<times> string" where
  "job_origin j = (job_id j, job_tenant_id j, job_project_id j, recipe j)"

lemma finalize_origin: "map job_origin (jobs (finalize_job_if_ready now jid d)) = map job_origin (jobs d)"
  by (simp add: finalize_job_if_ready_def Let_def job_origin_def modify_job_def copy_first_error_def split: option.split)

lemma submitted_origin:
  assumes "submit_nodes C F tenant project rcp spec nodes d = Inr (d', jid, rows, ready)"
  shows "map job_origin (jobs d') = map job_origin (jobs d) @ [(jid, tenant, project, rcp)] \<and> jid = fr_job F \<and>
    tasks d' = tasks d @ rows \<and> list_all (\<lambda>t. task_job_id t = jid) rows"
proof -
  have run: "submit_job_dag (sc_env C) (sc_now C) (fr_job F) [] (sc_runtime_version C) tenant project rcp (Some (JObj spec)) nodes d =
      Inr (d', jid, rows, ready)"
    using assms unfolding submit_nodes_def
    by (cases "submit_job_dag (sc_env C) (sc_now C) (fr_job F) [] (sc_runtime_version C) tenant project rcp (Some (JObj spec)) nodes d") simp_all
  obtain d1 j where job: "create_job (fr_job F) tenant project rcp (Some (JObj spec)) d = (d1, j)" by fastforce
  then have j: "jobs d1 = jobs d @ [j]" "job_origin j = (fr_job F, tenant, project, rcp)" "job_id j = fr_job F"
    by (auto simp: create_job_def Let_def job_origin_def)
  from run job obtain d2 where mat: "materialize_dag (sc_env C) [] tenant (job_id j) (sc_runtime_version C) nodes d1 = Inr (d2, rows)"
    and d': "d' = d2 \<or> d' = finalize_job_if_ready (sc_now C) (job_id j) d2"
    by (auto simp: submit_job_dag_def andthen_Inr Let_def split: if_splits)
  have "jobs d2 = jobs d1" using mat by (auto simp: materialize_dag_def Let_def andthen_Inr)
  then have "map job_origin (jobs d') = map job_origin (jobs d) @ [(fr_job F, tenant, project, rcp)]"
    using d' j by (auto simp: finalize_origin)
  then show ?thesis using submit_tasks [OF run] by (auto simp: list_all_iff)
qed

lemma provider_keeps:
  assumes "apply_provider_resolution C spec stage cap project = Inr spec'" and "k \<noteq> ''provider''"
  shows "jget spec' k = jget spec k"
proof -
  have "spec' = spec \<or> (\<exists>v. spec' = AList.update ''provider'' v spec)"
    using assms(1) by (auto simp: apply_provider_resolution_def Let_def split: sum.splits option.splits if_splits)
  then show ?thesis using assms(2) by (auto simp: jget_def)
qed

lemma submitted_follows:
  assumes "submit_conversion C F tenant aid q d = Inr ((d', jid, rows, ready), target, provider)"
  shows "\<exists>a \<in> set (stage_artifacts (resources d)). artifact_id a = aid \<and> artifact_tenant_id a = tenant \<and>
    (\<exists>owner. find_job (jobs d) (artifact_job_id a) = Some owner \<and>
       follows_plan C a q (job_project_id owner) rows target provider \<and>
       map job_origin (jobs d') = map job_origin (jobs d) @ [(jid, tenant, job_project_id owner, ''artifact_conversion'')]) \<and>
    tasks d' = tasks d @ rows \<and> list_all (\<lambda>t. task_job_id t = jid) rows"
proof -
  obtain a p where a: "get_artifact tenant aid (stage_artifacts (resources d)) = Inr a"
    and p: "plan_conversion_for_artifact C a q = Inr p"
    using assms by (auto simp: submit_conversion_def andthen_Inr)
  have ex: "pl_executable p" "pl_required p"
    using assms a p by (auto simp: submit_conversion_def refused_def raising_def split: if_splits)
  define k where "k = target_kind (artifact_kind a) (pl_target p) (cq_to_kind q)"
  obtain j where j: "find_job (jobs d) (artifact_job_id a) = Some j"
    using assms a p ex by (auto simp: submit_conversion_def raising_def split: option.splits)
  have compat: "is_format_compatible_with_kind (sc_format_type (cv_stage C)) k (pl_target p)"
    using assms a p ex j by (auto simp: submit_conversion_def k_def refused_def raising_def Let_def split: if_splits)
  from assms a p ex j compat obtain spec jspec where
    spec: "apply_provider_resolution (cv_stage C) (conversion_spec q p k) ''convert_artifact'' ''artifacts.convert'' (Some (job_project_id j)) = Inr spec"
    and run: "submit_nodes (cv_stage C) F tenant (job_project_id j) ''artifact_conversion'' jspec
      [conversion_node C F a j p spec] d = Inr (d', jid, rows, ready)"
    and t: "target = pl_target p" "provider = jget spec ''provider''"
    and b: "\<exists>b. resolve_backend C (str_opt provider) = Inr b \<and> bv_converts b"
    by (auto simp: submit_conversion_def k_def [symmetric] refused_def raising_def Let_def andthen_Inr split: if_splits)
  have "jget spec ''target_format'' = JStr target" "jget spec ''target_kind'' = JStr k"
    using provider_keeps [OF spec] by (simp_all add: conversion_spec_def t(1) jget_def)
  moreover have "single_task rows ''convert_artifact''
      [(''artifact'', artifact_reference (sc_format_type (cv_stage C)) a), (''project_id'', JStr (job_project_id j)), (''plan'', plan_json p)] spec"
    using conversion_rows run unfolding conversion_node_def by blast
  ultimately have "follows_plan C a q (job_project_id j) rows target provider"
    using plan_executable [OF p ex] compat spec b t unfolding follows_plan_def t(1) by blast
  moreover have "a \<in> set (stage_artifacts (resources d))" "artifact_id a = aid" "artifact_tenant_id a = tenant"
    using a by (auto simp: get_artifact_def raising_def find_Some_iff split: option.splits if_splits)
  ultimately show ?thesis using j submitted_origin [OF run] by blast
qed

text \<open>
  C18. A conversion that is submitted converts an artifact of the tenant along a shortest chain of
  the declared conversions, lossless ones only if asked, from its format to an accepted one that
  fits the target kind; the chain has at least one step. The request adds one job of the tenant,
  in the project of the job that made the artifact, and its single task is handed the artifact,
  the chain, the format, the kind and the provider that routing resolves in that project, whose
  backend can convert.
\<close>

theorem conversion_jobs_follow_plan:
  assumes "submit_conversion C F tenant aid q d = Inr ((d', jid, rows, ready), target, provider)"
  shows "\<exists>a \<in> set (stage_artifacts (resources d)). artifact_id a = aid \<and> artifact_tenant_id a = tenant \<and>
    (\<exists>owner. find_job (jobs d) (artifact_job_id a) = Some owner \<and>
       follows_plan C a q (job_project_id owner) rows target provider \<and>
       map job_origin (jobs d') = map job_origin (jobs d) @ [(jid, tenant, job_project_id owner, ''artifact_conversion'')]) \<and>
    tasks d' = tasks d @ rows \<and> list_all (\<lambda>t. task_job_id t = jid) rows"
  using assms by (rule submitted_follows)

section \<open>Witnesses\<close>

text \<open>
  The default backend converts between two formats; a routing profile prefers a plugin whose
  backend declares no conversion.
\<close>

definition demo_view :: "json dict list \<Rightarrow> backend_view" where
  "demo_view cs = \<lparr>bv_name = ''b'', bv_contracts = Inr cs, bv_converts = True\<rparr>"

definition demo_contract :: "json dict" where
  "demo_contract = [(''contract_id'', JStr ''c''), (''conversions'', JList
     [JObj [(''from_format'', JStr ''x.v1''), (''to_format'', JStr ''y.v1'')]])]"

definition demo_converter :: "hub_manifest list \<Rightarrow> conv_cfg" where
  "demo_converter ms = \<lparr>cv_stage = demo_cfg\<lparr>sc_manifests := ms, sc_entry_points := [''a'']\<rparr>,
     cv_public = \<lparr>red = (\<lambda>k s. s), public_uri = Some\<rparr>, cv_backend_format = (\<lambda>k. None),
     cv_get = (\<lambda>p. Inr (demo_view (if p = None then [demo_contract] else [])))\<rparr>"

definition demo_plugin :: "hub_manifest list" where
  "demo_plugin = [\<lparr>hm_plugin_id = ''a'', hm_runtime_modes = [], hm_providers =
     [\<lparr>hp_provider_id = ''p'', hp_capabilities = [''artifacts.convert''], hp_backend_actions = [], hp_priority_hint = 100\<rparr>]\<rparr>]"

definition demo_source :: artifact_row where
  "demo_source = \<lparr>artifact_id = ''a1'', artifact_tenant_id = ''default'', artifact_job_id = ''j0'', artifact_task_id = ''t0'',
     artifact_recon_id = None, artifact_dataset_id = None, artifact_kind = ''custom'', artifact_name = None, artifact_uri = None,
     artifact_media_type = None, artifact_summary_json = None,
     artifact_metadata_json = Some (JObj [(''artifact_format'', JStr ''x.v1'')])\<rparr>"

definition demo_conversion :: conversion_request where
  "demo_conversion = \<lparr>cq_provider = None, cq_to_format = Some ''y.v1'', cq_accepted = [], cq_lossless = False, cq_name = None,
     cq_to_kind = None, cq_options = []\<rparr>"

definition demo_owned :: stage_state where
  "demo_owned = demo_state\<lparr>jobs := [blank_job\<lparr>job_id := ''j0'', job_project_id := ''p''\<rparr>],
     resources := (resources demo_state)\<lparr>stage_artifacts := [demo_source]\<rparr>\<rparr>"

lemma demo_steps:
  "conversion_steps (demo_converter ms) None =
     Inr [\<lparr>step_contract_id = Some ''c'', step_backend = None, step_provider = None, from_format = ''x.v1'', to_format = ''y.v1'',
        lossless = False, step_description = None\<rparr>]"
  by (simp add: conversion_steps_def resolve_backend_def demo_converter_def demo_view_def demo_contract_def contract_conversions_def
      conversion_step_of_def jget_def text_if_def ac_str_def)

lemma demo_plan:
  "\<exists>p. plan_conversion_for_artifact (demo_converter ms) demo_source demo_conversion = Inr p \<and>
     pl_executable p \<and> pl_required p \<and> pl_target p = ''y.v1''"
proof -
  have targets: "target_formats demo_conversion = Inr [''y.v1'']" by code_simp
  have source: "artifact_format_of demo_source = Some ''x.v1''" by code_simp
  show ?thesis
    by (simp add: plan_conversion_for_artifact_def targets source) (simp add: demo_conversion_def demo_steps find_conversion_path_def edges_from_def)
qed

lemma demo_providers:
  "resolve_provider ''convert_artifact'' (Some ''artifacts.convert'') None (Some ''p'') (Some ''/w'') empty_state [] [''a''] = Inr None"
  "resolve_provider ''convert_artifact'' (Some ''artifacts.convert'') None (Some ''p'') (Some ''/w'') empty_state demo_plugin [''a''] = Inr (Some ''p'')"
  by code_simp+

lemma demo_resolved:
  "apply_provider_resolution (cv_stage (demo_converter [])) (conversion_spec demo_conversion p k) ''convert_artifact''
     ''artifacts.convert'' (Some ''p'') = Inr (conversion_spec demo_conversion p k)"
  "apply_provider_resolution (cv_stage (demo_converter demo_plugin)) (conversion_spec demo_conversion p k) ''convert_artifact''
     ''artifacts.convert'' (Some ''p'') = Inr (AList.update ''provider'' (JStr ''p'') (conversion_spec demo_conversion p k))"
proof -
  have none: "jget (conversion_spec demo_conversion p k) ''provider'' = JNull"
    by (simp add: conversion_spec_def demo_conversion_def jget_def)
  have cfg: "sc_workspace (cv_stage (demo_converter ms)) = ''/w''" "sc_hub (cv_stage (demo_converter ms)) = empty_state"
    "sc_manifests (cv_stage (demo_converter ms)) = ms" "sc_entry_points (cv_stage (demo_converter ms)) = [''a'']" for ms
    by (simp_all add: demo_converter_def demo_cfg_def)
  show "apply_provider_resolution (cv_stage (demo_converter [])) (conversion_spec demo_conversion p k) ''convert_artifact''
     ''artifacts.convert'' (Some ''p'') = Inr (conversion_spec demo_conversion p k)"
    by (simp add: apply_provider_resolution_def none cfg demo_providers)
  show "apply_provider_resolution (cv_stage (demo_converter demo_plugin)) (conversion_spec demo_conversion p k) ''convert_artifact''
     ''artifacts.convert'' (Some ''p'') = Inr (AList.update ''provider'' (JStr ''p'') (conversion_spec demo_conversion p k))"
    by (simp add: apply_provider_resolution_def none cfg demo_providers)
qed

lemma demo_backend:
  "resolve_backend (demo_converter []) None = Inr (demo_view [demo_contract])"
  "resolve_backend (demo_converter demo_plugin) (Some ''p'') = Inr (demo_view [])"
proof -
  have "ensure_provider_enabled ''p'' empty_state demo_plugin [''a''] = Inr ()" by code_simp
  then show "resolve_backend (demo_converter demo_plugin) (Some ''p'') = Inr (demo_view [])"
    by (simp add: resolve_backend_def demo_converter_def demo_cfg_def)
qed (simp add: resolve_backend_def demo_converter_def)

lemma demo_converted:
  assumes "ms = [] \<and> v = JNull \<or> ms = demo_plugin \<and> v = JStr ''p''"
  shows "\<exists>s. submit_conversion (demo_converter ms) (demo_ids ''1'') ''default'' ''a1'' demo_conversion demo_owned = Inr (s, ''y.v1'', v)"
proof -
  obtain p where p: "plan_conversion_for_artifact (demo_converter ms) demo_source demo_conversion = Inr p"
    "pl_executable p" "pl_required p" "pl_target p = ''y.v1''"
    using demo_plan by blast
  have a: "get_artifact ''default'' ''a1'' (stage_artifacts (resources demo_owned)) = Inr demo_source"
    by (simp add: get_artifact_def demo_owned_def demo_source_def)
  have j: "find_job (jobs demo_owned) (artifact_job_id demo_source) = Some (blank_job\<lparr>job_id := ''j0'', job_project_id := ''p''\<rparr>)"
    by (simp add: demo_owned_def demo_source_def find_job_def)
  have kind: "target_kind (artifact_kind demo_source) ''y.v1'' (cq_to_kind demo_conversion) = ''custom''" by code_simp
  have fits: "is_format_compatible_with_kind io ''custom'' ''y.v1''" for io
    by (simp add: is_format_compatible_with_kind_def CORE_ARTIFACT_KINDS_def CORE_ARTIFACT_FORMATS_def datatype_for_format_def split: option.split)
  let ?spec = "conversion_spec demo_conversion p ''custom''"
  obtain spec where spec: "apply_provider_resolution (cv_stage (demo_converter ms)) ?spec ''convert_artifact'' ''artifacts.convert''
      (Some ''p'') = Inr spec" "jget spec ''provider'' = v"
    using assms demo_resolved by (auto simp: jget_def conversion_spec_def demo_conversion_def)
  obtain b where b: "resolve_backend (demo_converter ms) (str_opt v) = Inr b" "bv_converts b"
    using assms demo_backend by (auto simp: demo_view_def)
  have run: "\<exists>s. submit_nodes (cv_stage (demo_converter ms)) (demo_ids ''1'') ''default'' ''p'' rcp js nodes demo_owned = Inr s" for rcp js nodes
    using demo_submission [of 0 "''j1''" "''v''" "''default''" "''p''" rcp "Some (JObj js)" nodes demo_owned]
    by (auto simp: submit_nodes_def demo_converter_def demo_cfg_def demo_ids_def)
  have project: "job_project_id (blank_job\<lparr>job_id := ''j0'', job_project_id := ''p''\<rparr>) = ''p''" by simp
  show ?thesis
    unfolding submit_conversion_def Let_def a checked_simps andthen.simps p(1) p(4) j option.case project kind
    using run by (simp only: p(2,3) fits spec b checked_simps andthen.simps andthen_Inr if_True if_False not_True_eq_False) blast
qed

theorem conversion_jobs_follow_plan_witness:
  "\<exists>d' jid rows ready. submit_conversion (demo_converter demo_plugin) (demo_ids ''1'') ''default'' ''a1'' demo_conversion demo_owned =
       Inr ((d', jid, rows, ready), ''y.v1'', JStr ''p'') \<and>
     follows_plan (demo_converter demo_plugin) demo_source demo_conversion ''p'' rows ''y.v1'' (JStr ''p'') \<and>
     map job_origin (jobs d') = [(''j0'', ''default'', ''p'', []), (jid, ''default'', ''p'', ''artifact_conversion'')]"
proof -
  obtain s where "submit_conversion (demo_converter demo_plugin) (demo_ids ''1'') ''default'' ''a1'' demo_conversion demo_owned =
      Inr (s, ''y.v1'', JStr ''p'')" using demo_converted by blast
  moreover obtain d' jid rows ready where "s = (d', jid, rows, ready)" by (cases s)
  ultimately show ?thesis
    using conversion_jobs_follow_plan [of "demo_converter demo_plugin" "demo_ids ''1''" "''default''" "''a1''" demo_conversion demo_owned]
    by (simp add: demo_owned_def find_job_def demo_source_def job_origin_def blank_job_def)
qed

text \<open>
  The chain is not planned for the provider that will run it: a conversion without a provider
  is planned on the default backend, routing then picks another provider, and the job is accepted
  although the backend of that provider declares no conversion at all.
\<close>

theorem conversion_planned_on_other_backend:
  "\<exists>C F q d s target provider. submit_conversion C F ''default'' ''a1'' q d = Inr (s, target, JStr provider) \<and>
     conversion_steps C (Some provider) = Inr []"
proof -
  obtain s where "submit_conversion (demo_converter demo_plugin) (demo_ids ''1'') ''default'' ''a1'' demo_conversion demo_owned =
      Inr (s, ''y.v1'', JStr ''p'')" using demo_converted by blast
  moreover have "conversion_steps (demo_converter demo_plugin) (Some ''p'') = Inr []"
    by (simp add: conversion_steps_def demo_backend demo_view_def)
  ultimately show ?thesis by blast
qed

end
