(* ===== verification/Import_Correct.thy ===== *)
theory Import_Correct
  imports Artifact_Correct Conversion_Correct
begin

text \<open>
  What the import of an artifact does to the database: one artifact row, owned by a finished job
  that no later submission mistakes for a cached result.
\<close>

section \<open>The rows of an import\<close>

lemma import_descriptor:
  assumes "normalize_outputs A t (JObj [(''artifacts'', JList [JObj fs])]) = Inr outputs"
  shows "\<exists>d. validate_artifact_descriptor A 0 (JObj fs) = Inr d \<and> described outputs = [d]"
  using assms by (auto simp: normalize_outputs_def jget_def json_or_def andthen_Inr append_unique_def described_def o_def)

definition import_owner :: "conv_cfg \<Rightarrow> fresh_ids_of_stage \<Rightarrow> string \<Rightarrow> import_request \<Rightarrow> json dict \<Rightarrow> task_row" where
  "import_owner C F tenant q outputs = (import_task C F tenant q)\<lparr>outputs_ref_json := Some (JObj outputs)\<rparr>"

lemma import_task_row [simp]:
  "task_id (import_task C F tenant q) = hd (fr_nodes F)" "tenant_id (import_task C F tenant q) = tenant"
  "task_job_id (import_task C F tenant q) = fr_job F" "status (import_task C F tenant q) = Succeeded"
  "deps_of (import_task C F tenant q) = []"
  by (simp_all add: import_task_def Let_def blank_task_def deps_of_def)

lemma import_steps:
  assumes run: "import_artifact C F ids tenant q d = Inr (d', a)"
    and fresh: "list_all (\<lambda>r. artifact_task_id r \<noteq> hd (fr_nodes F)) (stage_artifacts (resources d))"
  shows "\<exists>outputs desc. get_project tenant (iq_project q) d = Inr () \<and> import_dataset tenant q d = Inr () \<and> import_recon tenant q d = Inr () \<and>
     validate_artifact_descriptor (art_of C) 0 (JObj (iq_fields q)) = Inr desc \<and>
     records (art_of C) (import_task C F tenant q) desc a \<and>
     d' = d\<lparr>tasks := tasks d @ [import_owner C F tenant q outputs], jobs := jobs d @ [import_job C F tenant q],
       resources := (resources d)\<lparr>stage_artifacts := stage_artifacts (resources d) @ [a]\<rparr>\<rparr>"
proof -
  let ?t = "import_task C F tenant q"
  obtain outputs rows where
    checks: "get_project tenant (iq_project q) d = Inr ()" "import_dataset tenant q d = Inr ()" "import_recon tenant q d = Inr ()"
    and norm: "normalize_outputs (art_of C) ?t (JObj [(''artifacts'', JList [JObj (iq_fields q)])]) = Inr outputs"
    and rec: "record_artifacts (art_of C) ids ?t outputs (stage_artifacts (resources d)) = Inr rows"
    and one: "scalar_one (filter (\<lambda>a. artifact_tenant_id a = tenant \<and> artifact_task_id a = task_id ?t) rows) = Inr a"
    and d': "d' = d\<lparr>tasks := tasks d @ [?t\<lparr>outputs_ref_json := Some (JObj outputs)\<rparr>], jobs := jobs d @ [import_job C F tenant q],
       resources := (resources d)\<lparr>stage_artifacts := rows\<rparr>\<rparr>"
    using run by (auto simp: import_artifact_def Let_def andthen_Inr)
  obtain desc where desc: "validate_artifact_descriptor (art_of C) 0 (JObj (iq_fields q)) = Inr desc" "described outputs = [desc]"
    using import_descriptor [OF norm] by blast
  from normalized_described [OF norm] have
    n: "list_all (well_described (art_of C)) [desc]" "json_or (jget outputs ''artifacts'') (JList []) = JList [JObj desc]"
    by (simp_all add: desc(2))
  obtain new where new: "record_descriptors (art_of C) ?t 0 ids [JObj desc] = Inr new" "list_all2 (records (art_of C) ?t) [desc] new"
    using record_descriptors_all [OF n(1), of ?t 0 ids] by auto
  then obtain b where b: "new = [b]" "records (art_of C) ?t desc b" by (auto simp: list_all2_Cons1)
  have old: "filter (\<lambda>r. \<not> (artifact_tenant_id r = tenant_id ?t \<and> artifact_task_id r = task_id ?t)) (stage_artifacts (resources d)) =
      stage_artifacts (resources d)"
    using fresh by (auto simp: list_all_iff intro: filter_True)
  have none: "filter (\<lambda>a. artifact_tenant_id a = tenant \<and> artifact_task_id a = task_id ?t) (stage_artifacts (resources d)) = []"
    using fresh by (auto simp: list_all_iff filter_empty_conv)
  have rows: "rows = stage_artifacts (resources d) @ [b]"
    using rec n(2) new(1) old b(1) by (simp add: record_artifacts_def)
  have "a = b" using one none b(2) by (simp add: rows records_def)
  then show ?thesis using checks desc(1) b(2) d' rows unfolding import_owner_def by blast
qed

section \<open>The engine and the cache\<close>

lemma import_keeps_engine:
  assumes inv: "engine_inv d" and job: "fr_job F \<notin> job_id ` set (jobs d)" "fr_job F \<notin> task_job_id ` set (tasks d)"
    and task: "hd (fr_nodes F) \<notin> task_id ` set (tasks d)"
    and d': "tasks d' = tasks d @ [import_owner C F tenant q outputs]" "jobs d' = jobs d @ [import_job C F tenant q]"
  shows "engine_inv d'"
proof -
  let ?t = "import_owner C F tenant q outputs"
  have t: "task_id ?t = hd (fr_nodes F)" "task_job_id ?t = fr_job F" "status ?t = Succeeded" "outputs_ref_json ?t \<noteq> None"
    by (simp_all add: import_owner_def)
  have ready: "Succeeded \<in> READY_DEPENDENCY_STATUSES" by (simp add: dependency_vocabulary)
  have "tasks_inv (tasks d')"
    unfolding d' tasks_inv_def
    using inv task t ready by (auto simp: engine_inv_split tasks_inv_def)
  moreover have "distinct (map job_id (jobs d'))"
    using inv job by (auto simp: d' engine_inv_split import_job_def)
  moreover have "jobs_rolled d'"
  proof -
    have "job_tasks (tasks d @ [?t]) (job_id i) = job_tasks (tasks d) (job_id i)" if "i \<in> set (jobs d)" for i
      using that job t by (auto simp: job_tasks_def)
    moreover have "job_tasks (tasks d @ [?t]) (fr_job F) = [?t]"
      using job(2) t by (simp add: job_tasks_def filter_empty_conv image_iff) metis
    moreover have "rolled_up [?t] = Some Succeeded" using t(3) by (simp add: rolled_up_def)
    ultimately show ?thesis
      using inv by (auto simp: engine_inv_split jobs_rolled_def d' import_job_def)
  qed
  ultimately show ?thesis by (simp add: engine_inv_split)
qed

text \<open>The text that the key of an import is the digest of.\<close>

definition import_text :: "(rat \<Rightarrow> string) \<Rightarrow> string \<Rightarrow> string" where
  "import_text fr j = canonical_json fr (JObj [(''job_id'', JStr j), (''task'', JStr ''import'')])"

lemma import_text_differs:
  assumes "float_printer fr"
  shows "cache_text fr n rv \<noteq> import_text fr j"
proof
  assume "cache_text fr n rv = import_text fr j"
  then have "norm_json (cache_payload (node_kind n) (node_inputs_hash n) (node_params_hash n) rv) =
      norm_json (JObj [(''job_id'', JStr j), (''task'', JStr ''import'')])"
    unfolding cache_text_def import_text_def by (rule canonical_json_inj [OF assms])
  then obtain fs where fs: "norm_json (JObj fs) = norm_json (JObj [(''job_id'', JStr j), (''task'', JStr ''import'')])"
    "map_of fs ''kind'' \<noteq> None"
    by (auto simp: cache_payload_def)
  with norm_keys [OF fs(1), of "''kind''"] show False by simp
qed

lemma lookup_ignores:
  "task_cache_key t \<noteq> key \<Longrightarrow> lookup_cached_task nf (ts @ [t]) tenant key = lookup_cached_task nf ts tenant key"
  by (simp add: lookup_cached_task_def)

definition same_project :: "string \<Rightarrow> import_request \<Rightarrow> stage_state \<Rightarrow> bool" where
  "same_project tenant q d \<longleftrightarrow>
     (tenant, iq_project q) \<in> set (projects (stage_tables_of d)) \<and>
     (case str_opt (jget (iq_fields q) ''dataset_id'') of
        None \<Rightarrow> True
      | Some i \<Rightarrow> list_ex (\<lambda>r. dataset_id r = i \<and> dataset_tenant_id r = tenant \<and> dataset_project_id r = iq_project q)
          (datasets (stage_tables_of d))) \<and>
     (case str_opt (jget (iq_fields q) ''recon_id'') of
        None \<Rightarrow> True
      | Some i \<Rightarrow> list_ex (\<lambda>r. rs_recon_id r = i \<and> rs_tenant_id r = tenant \<and> rs_project_id r = iq_project q \<and>
            jget (iq_fields q) ''dataset_id'' \<in> {JNull, JStr (rs_dataset_id r)}) (recon_specs (stage_tables_of d)))"

lemma import_same_project:
  assumes "get_project tenant (iq_project q) d = Inr ()" "import_dataset tenant q d = Inr ()" "import_recon tenant q d = Inr ()"
  shows "same_project tenant q d"
proof -
  have "(tenant, iq_project q) \<in> set (projects (stage_tables_of d))" using assms(1) by (simp add: get_project_def)
  moreover have "case str_opt (jget (iq_fields q) ''dataset_id'') of None \<Rightarrow> True
      | Some i \<Rightarrow> list_ex (\<lambda>r. dataset_id r = i \<and> dataset_tenant_id r = tenant \<and> dataset_project_id r = iq_project q)
          (datasets (stage_tables_of d))"
    using assms(2) by (auto simp: import_dataset_def raising_def find_Some_iff list_ex_iff split: option.splits)
  moreover have "case str_opt (jget (iq_fields q) ''recon_id'') of None \<Rightarrow> True
      | Some i \<Rightarrow> list_ex (\<lambda>r. rs_recon_id r = i \<and> rs_tenant_id r = tenant \<and> rs_project_id r = iq_project q \<and>
            jget (iq_fields q) ''dataset_id'' \<in> {JNull, JStr (rs_dataset_id r)}) (recon_specs (stage_tables_of d))"
    using assms(3) by (auto simp: import_recon_def raising_def find_Some_iff list_ex_iff split: option.splits if_splits)
  ultimately show ?thesis by (simp add: same_project_def)
qed

text \<open>The job and the task an import adds, and whose artifact it records.\<close>

definition finished_import :: "fresh_ids_of_stage \<Rightarrow> string \<Rightarrow> string \<Rightarrow> job_row \<Rightarrow> task_row \<Rightarrow> artifact_row \<Rightarrow> bool" where
  "finished_import F tenant project j t a \<longleftrightarrow>
     job_id j = fr_job F \<and> job_tenant_id j = tenant \<and> job_project_id j = project \<and> job_status j = Succeeded \<and>
     task_id t = hd (fr_nodes F) \<and> tenant_id t = tenant \<and> task_job_id t = job_id j \<and> status t = Succeeded \<and>
     artifact_tenant_id a = tenant \<and> artifact_job_id a = job_id j \<and> artifact_task_id a = task_id t"

lemma import_finished:
  "records A (import_task C F tenant q) desc a \<Longrightarrow>
   finished_import F tenant (iq_project q) (import_job C F tenant q) (import_owner C F tenant q outputs) a"
  by (simp add: finished_import_def records_def import_job_def import_owner_def)

text \<open>
  C17. An import that is accepted refers to a project of the tenant and to a dataset and a
  reconstruction of that project. It adds one finished job of the project, one finished task of
  that job and one artifact of that task, with the kind, URI, format and files of its accepted
  descriptor, and changes nothing else; the invariant of the engine is kept. Its task never
  serves as the cached result of a later node, unless the digests of two different texts, those
  of the two keys, are equal. The ids drawn for the job and the task are assumed to be new.
\<close>

theorem import_adds_one_artifact:
  assumes "import_artifact C F ids tenant q d = Inr (d', a)" and "engine_inv d"
    and "fr_job F \<notin> job_id ` set (jobs d)" "fr_job F \<notin> task_job_id ` set (tasks d)" "hd (fr_nodes F) \<notin> task_id ` set (tasks d)"
    and "list_all (\<lambda>r. artifact_task_id r \<noteq> hd (fr_nodes F)) (stage_artifacts (resources d))"
    and "float_printer (float_repr (sc_env (cv_stage C)))"
  shows "same_project tenant q d \<and> engine_inv d' \<and>
    (\<exists>j t desc. d' = d\<lparr>tasks := tasks d @ [t], jobs := jobs d @ [j],
         resources := (resources d)\<lparr>stage_artifacts := stage_artifacts (resources d) @ [a]\<rparr>\<rparr> \<and>
       finished_import F tenant (iq_project q) j t a \<and>
       validate_artifact_descriptor (art_of C) 0 (JObj (iq_fields q)) = Inr desc \<and>
       records (art_of C) (import_task C F tenant q) desc a) \<and>
    (\<forall>nf by n rv. let fr = float_repr (sc_env (cv_stage C)); sha = sha256 (sc_env (cv_stage C)); key = cache_key sha fr n rv in
       cache_text fr n rv \<noteq> import_text fr (fr_job F) \<and>
       (sha (cache_text fr n rv) = sha (import_text fr (fr_job F)) \<or>
        lookup_cached_task nf (tasks d') by key = lookup_cached_task nf (tasks d) by key))"
proof -
  obtain outputs desc where checks: "get_project tenant (iq_project q) d = Inr ()" "import_dataset tenant q d = Inr ()" "import_recon tenant q d = Inr ()"
    and desc: "validate_artifact_descriptor (art_of C) 0 (JObj (iq_fields q)) = Inr desc"
      "records (art_of C) (import_task C F tenant q) desc a"
    and d': "d' = d\<lparr>tasks := tasks d @ [import_owner C F tenant q outputs], jobs := jobs d @ [import_job C F tenant q],
       resources := (resources d)\<lparr>stage_artifacts := stage_artifacts (resources d) @ [a]\<rparr>\<rparr>"
    using import_steps [OF assms(1,6)] by blast
  have "engine_inv d'" by (rule import_keeps_engine [OF assms(2-5)]) (simp_all add: d')
  moreover have "let fr = float_repr (sc_env (cv_stage C)); sha = sha256 (sc_env (cv_stage C)); key = cache_key sha fr n rv in
       cache_text fr n rv \<noteq> import_text fr (fr_job F) \<and>
       (sha (cache_text fr n rv) = sha (import_text fr (fr_job F)) \<or>
        lookup_cached_task nf (tasks d') u key = lookup_cached_task nf (tasks d) u key)" for nf u n rv
  proof -
    define fr where "fr = float_repr (sc_env (cv_stage C))"
    define sha where "sha = sha256 (sc_env (cv_stage C))"
    have "task_cache_key (import_owner C F tenant q outputs) = sha (import_text fr (fr_job F))"
      by (simp add: import_owner_def import_task_def Let_def hash_dict_def content_address_def import_text_def fr_def sha_def)
    moreover have "cache_key sha fr n rv = sha (cache_text fr n rv)"
      by (simp add: cache_key_def content_address_def cache_text_def)
    ultimately have "sha (cache_text fr n rv) = sha (import_text fr (fr_job F)) \<or>
        lookup_cached_task nf (tasks d') u (cache_key sha fr n rv) = lookup_cached_task nf (tasks d) u (cache_key sha fr n rv)"
      using lookup_ignores [of "import_owner C F tenant q outputs" "cache_key sha fr n rv" nf "tasks d" u] by (simp add: d') argo
    then show ?thesis
      using import_text_differs [OF assms(7)] unfolding Let_def fr_def sha_def by blast
  qed
  moreover have "\<exists>j t. d' = d\<lparr>tasks := tasks d @ [t], jobs := jobs d @ [j],
         resources := (resources d)\<lparr>stage_artifacts := stage_artifacts (resources d) @ [a]\<rparr>\<rparr> \<and>
       finished_import F tenant (iq_project q) j t a"
    using import_finished [OF desc(2), where outputs = outputs] d' by auto
  ultimately show ?thesis using import_same_project [OF checks] desc by blast
qed

section \<open>Witness\<close>

definition demo_import :: import_request where
  "demo_import = \<lparr>iq_project = ''p'', iq_fields = [(''kind'', JStr ''features.local.v1''), (''dataset_id'', JStr ''d''), (''uri'', JStr ''f.db'')]\<rparr>"

lemma demo_import_accepted:
  "\<exists>desc. validate_artifact_descriptor (art_of (demo_converter [])) 0 (JObj (iq_fields demo_import)) = Inr desc"
proof -
  have art: "art_of (demo_converter []) = \<lparr>ac_io = (\<lambda>f. f), ac_public = \<lparr>red = (\<lambda>k s. s), public_uri = Some\<rparr>,
      ac_backend_format = (\<lambda>k. None), ac_float = demo_printer\<rparr>"
    by (simp add: art_of_def demo_converter_def demo_cfg_def demo_env_def)
  have "ok (validate_artifact_descriptor (art_of (demo_converter [])) 0 (JObj (iq_fields demo_import)))"
    unfolding art demo_import_def import_request.simps by code_simp
  then show ?thesis by (cases "validate_artifact_descriptor (art_of (demo_converter [])) 0 (JObj (iq_fields demo_import))") simp_all
qed

lemma demo_import_ok:
  "\<exists>d' a. import_artifact (demo_converter []) (demo_ids ''1'') [''a2''] ''default'' demo_import demo_state = Inr (d', a)"
proof -
  have ok: "get_project ''default'' (iq_project demo_import) demo_state = Inr ()" "import_dataset ''default'' demo_import demo_state = Inr ()"
    "import_recon ''default'' demo_import demo_state = Inr ()"
    by (simp_all add: get_project_def import_dataset_def import_recon_def demo_import_def demo_defs stage_tables_of_def jget_def)
  let ?A = "art_of (demo_converter [])" and ?t = "import_task (demo_converter []) (demo_ids ''1'') ''default'' demo_import"
  have "\<exists>outputs. normalize_outputs ?A ?t (JObj [(''artifacts'', JList [JObj (iq_fields demo_import)])]) = Inr outputs"
    using demo_import_accepted by (auto simp: normalize_outputs_def jget_def json_or_def andthen_Inr append_unique_def)
  then obtain outputs where outputs: "normalize_outputs ?A ?t (JObj [(''artifacts'', JList [JObj (iq_fields demo_import)])]) = Inr outputs" by blast
  from normalized_outputs_recordable [OF outputs, of "[''a2'']" "[]"] obtain new where new:
    "record_artifacts ?A [''a2''] ?t outputs [] = Inr new" "list_all2 (records ?A ?t) (described outputs) new" by auto
  from import_descriptor [OF outputs] obtain d where "described outputs = [d]" by blast
  with new obtain a where "new = [a]" "records ?A ?t d a" by (auto simp: list_all2_Cons1)
  then show ?thesis using ok outputs new
    by (simp add: import_artifact_def Let_def demo_state_def records_def)
qed

theorem import_adds_one_artifact_witness:
  "\<exists>d' a. import_artifact (demo_converter []) (demo_ids ''1'') [''a2''] ''default'' demo_import demo_state = Inr (d', a) \<and>
     engine_inv d' \<and> stage_artifacts (resources d') = [a]"
proof -
  obtain d' a where run: "import_artifact (demo_converter []) (demo_ids ''1'') [''a2''] ''default'' demo_import demo_state = Inr (d', a)"
    using demo_import_ok by blast
  have "engine_inv demo_state" by (simp add: engine_inv_def engine_inv_defs jobs_rolled_def demo_state_def)
  moreover have "float_printer (float_repr (sc_env (cv_stage (demo_converter []))))"
    using demo_printer by (simp add: demo_converter_def demo_cfg_def demo_env_def)
  ultimately show ?thesis
    using import_adds_one_artifact [OF run] run by (auto simp: demo_state_def)
qed

end
