(* ===== verification/Catalog.thy ===== *)
theory Catalog
  imports Stages Uploads
begin

text \<open>
  The catalog of projects, image sources, datasets and images: \<open>services/project_service.py\<close>,
  \<open>services/dataset_service.py\<close>, \<open>services/image_service.py\<close>, the registration of images in
  \<open>api/v1/images.py\<close> and the field masks of \<open>api/v1/_helpers.py\<close>. A request is one transaction:
  an operation that raises leaves the catalog as it was. The rows extend those that the stage
  services read; blobs are the rows of the uploads. Fresh ids are arguments, and so are the
  listing of a local directory and of an S3 prefix, which \<open>source_probe\<close> collects.
\<close>

section \<open>Tables\<close>

record project_row =
  project_id :: string
  project_tenant_id :: string
  project_name :: string
  project_description :: "string option"

record source_full = source_row +
  source_tenant_id :: string
  fingerprint_json :: json

record dataset_full = dataset_row +
  dataset_name :: string
  camera_model :: string
  intrinsics_mode :: string
  rig_config_json :: "json option"
  respect_exif_orientation :: bool
  active_maskset_id :: "string option"

record image_full = image_row +
  image_source_kind :: string
  image_byte_size :: "int option"
  image_width :: "int option"
  image_height :: "int option"
  exif_json :: "json option"

record catalog =
  cat_projects :: "project_row list"
  cat_sources :: "source_full list"
  cat_datasets :: "dataset_full list"
  cat_images :: "image_full list"
  cat_blobs :: "blob_row list"

text \<open>What the stage services read of it.\<close>

definition stage_view :: "catalog \<Rightarrow> recon_spec_row list \<Rightarrow> stage_tables" where
  "stage_view c rs =
     \<lparr>datasets = map dataset_row.truncate (cat_datasets c), sources = map source_row.truncate (cat_sources c),
      images = map image_row.truncate (cat_images c), recon_specs = rs,
      known_blobs = map blob_sha256 (cat_blobs c), projects = map (\<lambda>p. (project_tenant_id p, project_id p)) (cat_projects c)\<rparr>"

section \<open>Projects\<close>

definition name_taken :: "('a \<Rightarrow> string) \<Rightarrow> ('a \<Rightarrow> string) \<Rightarrow> 'a list \<Rightarrow> bool" where
  "name_taken scope nm rows \<longleftrightarrow> \<not> distinct (map (\<lambda>r. (scope r, nm r)) rows)"

definition create_project :: "string \<Rightarrow> string \<Rightarrow> string \<Rightarrow> string option \<Rightarrow> catalog \<Rightarrow> api_error + (catalog \<times> project_row)" where
  "create_project new_id tenant nm descr c =
     (let p = \<lparr>project_id = new_id, project_tenant_id = tenant, project_name = nm, project_description = descr\<rparr>;
          rows = cat_projects c @ [p] in
      if name_taken project_tenant_id project_name rows then raising ConflictError (''Project '' @ py_repr nm @ '' already exists'')
      else Inr (c\<lparr>cat_projects := rows\<rparr>, p))"

definition find_project :: "string \<Rightarrow> string \<Rightarrow> catalog \<Rightarrow> api_error + project_row" where
  "find_project tenant pid c =
     (case find (\<lambda>p. project_tenant_id p = tenant \<and> project_id p = pid) (cat_projects c) of
        None \<Rightarrow> raising NotFoundError (''Project '' @ pid @ '' not found'')
      | Some p \<Rightarrow> Inr p)"

text \<open>A patched row, or None where a column that must not be null would be.\<close>

fun patch_project_field :: "string \<times> json \<Rightarrow> project_row \<Rightarrow> project_row option" where
  "patch_project_field (k, v) p =
     (if k = ''name'' then (case v of JStr s \<Rightarrow> Some (p\<lparr>project_name := s\<rparr>) | _ \<Rightarrow> None)
      else if k = ''description'' then
        Some (p\<lparr>project_description := (case v of JStr s \<Rightarrow> Some s | _ \<Rightarrow> None)\<rparr>)
      else Some p)"

fun patch_all :: "(string \<times> json \<Rightarrow> 'a \<Rightarrow> 'a option) \<Rightarrow> json dict \<Rightarrow> 'a \<Rightarrow> 'a option" where
  "patch_all f [] r = Some r"
| "patch_all f (e # es) r = (case f e r of None \<Rightarrow> None | Some r' \<Rightarrow> patch_all f es r')"

definition patch_project :: "string \<Rightarrow> string \<Rightarrow> json dict \<Rightarrow> catalog \<Rightarrow> api_error + (catalog \<times> project_row)" where
  "patch_project tenant pid updates c =
     andthen (find_project tenant pid c) (\<lambda>p.
     case patch_all patch_project_field updates p of
       None \<Rightarrow> raising ConflictError ''Project name conflict on update''
     | Some q \<Rightarrow>
         let rows = map (\<lambda>r. if project_id r = pid then q else r) (cat_projects c) in
         if name_taken project_tenant_id project_name rows then raising ConflictError ''Project name conflict on update''
         else Inr (c\<lparr>cat_projects := rows\<rparr>, q))"

text \<open>
  Deleting a project deletes its row. What hangs on it is left to the foreign keys of the
  database, when it enforces them: its datasets and their images go, and nothing else is told.
\<close>

definition delete_project :: "bool \<Rightarrow> string \<Rightarrow> string \<Rightarrow> catalog \<Rightarrow> api_error + catalog" where
  "delete_project cascade tenant pid c =
     andthen (find_project tenant pid c) (\<lambda>p.
       let c = c\<lparr>cat_projects := filter (\<lambda>r. project_id r \<noteq> pid) (cat_projects c)\<rparr>;
           gone = map dataset_id (filter (\<lambda>r. dataset_project_id r = pid) (cat_datasets c)) in
       Inr (if cascade
         then c\<lparr>cat_datasets := filter (\<lambda>r. dataset_project_id r \<noteq> pid) (cat_datasets c),
                cat_images := filter (\<lambda>i. image_dataset_id i \<notin> set gone) (cat_images c)\<rparr>
         else c))"

section \<open>Field masks\<close>

definition masked_updates :: "json dict \<Rightarrow> string option \<Rightarrow> string list \<Rightarrow> api_error + json dict" where
  "masked_updates sent field_mask allowed =
     (case field_mask of
        None \<Rightarrow> Inr sent
      | Some m \<Rightarrow>
          (let paths = filter (\<lambda>p. p \<noteq> []) (map strip (split_on (CHR '','') m));
               unknown = sorted_set (filter (\<lambda>p. p \<notin> set allowed) paths);
               missing = sort (filter (\<lambda>p. map_of sent p = None) paths) in
           if paths = [] then raising ValidationError ''update_mask must contain at least one field path''
           else if unknown \<noteq> [] then raising ValidationError (''update_mask contains unknown field(s): '' @ joins '', '' unknown)
           else if missing \<noteq> [] then raising ValidationError (''update_mask field(s) missing from body: '' @ joins '', '' missing)
           else Inr (put_all (map (\<lambda>p. (p, jget sent p)) paths) [])))"

section \<open>Sources\<close>

record source_probe =
  probe_local :: "string \<Rightarrow> bool \<Rightarrow> api_error + (string \<times> json)"
  probe_s3 :: "string \<Rightarrow> string \<Rightarrow> string + json"

datatype source_spec =
    Upload_Source "(string \<times> string) list"
  | Local_Source string bool
  | S3_Source string string

definition upload_fingerprint :: "(string \<times> string) list \<Rightarrow> json" where
  "upload_fingerprint entries = JObj
     [(''kind'', JStr ''upload''),
      (''entries'', JList (map (\<lambda>(n, sha). JList [JStr n, JStr sha]) (sort_key fst (sort_key snd entries))))]"

definition create_image_source ::
  "source_probe \<Rightarrow> string \<Rightarrow> string \<Rightarrow> source_spec \<Rightarrow> catalog \<Rightarrow> api_error + (catalog \<times> source_full)" where
  "create_image_source P new_id tenant spec c =
     andthen (case spec of
         Upload_Source entries \<Rightarrow> Inr (''upload'', None, upload_fingerprint entries)
       | Local_Source dir recursive \<Rightarrow>
           andthen (probe_local P dir recursive) (\<lambda>(resolved, fp). Inr (''local'', Some resolved, fp))
       | S3_Source bucket pre \<Rightarrow>
           (case probe_s3 P bucket pre of
              Inl msg \<Rightarrow> raising ValidationError (''S3 fingerprint failed: '' @ msg)
            | Inr fp \<Rightarrow> Inr (''s3'', Some (''s3://'' @ bucket @ ''/'' @ pre), fp))) (\<lambda>(k, root, fp).
     let src = \<lparr>source_id = new_id, source_kind = k, uri_or_root = root, source_tenant_id = tenant, fingerprint_json = fp\<rparr> in
     Inr (c\<lparr>cat_sources := cat_sources c @ [src]\<rparr>, src))"

definition find_source :: "string \<Rightarrow> catalog \<Rightarrow> source_full option" where
  "find_source sid c = find (\<lambda>s. source_id s = sid) (cat_sources c)"

section \<open>Datasets\<close>

text \<open>The fields of a request.\<close>

record dataset_request =
  dr_name :: string
  dr_camera_model :: string
  dr_intrinsics_mode :: string
  dr_is_spherical :: bool
  dr_rig_config :: "json option"
  dr_respect_exif :: bool

definition create_dataset ::
  "string \<Rightarrow> string \<Rightarrow> string \<Rightarrow> string \<Rightarrow> dataset_request \<Rightarrow> catalog \<Rightarrow> api_error + (catalog \<times> dataset_full)" where
  "create_dataset new_id tenant pid sid q c =
     (let r = \<lparr>dataset_id = new_id, dataset_tenant_id = tenant, dataset_project_id = pid, dataset_source_id = sid,
            manifest_hash = [], is_spherical = dr_is_spherical q, dataset_name = dr_name q, camera_model = dr_camera_model q,
            intrinsics_mode = dr_intrinsics_mode q, rig_config_json = dr_rig_config q,
            respect_exif_orientation = dr_respect_exif q, active_maskset_id = None\<rparr>;
          rows = cat_datasets c @ [r] in
      if name_taken dataset_project_id dataset_name rows
      then raising ConflictError (''Dataset '' @ py_repr (dr_name q) @ '' already exists in project'')
      else Inr (c\<lparr>cat_datasets := rows\<rparr>, r))"

text \<open>The route: project, source and dataset in one transaction.\<close>

definition create_dataset_route ::
  "source_probe \<Rightarrow> string \<Rightarrow> string \<Rightarrow> string \<Rightarrow> string \<Rightarrow> source_spec \<Rightarrow> dataset_request \<Rightarrow> catalog \<Rightarrow>
   api_error + (catalog \<times> dataset_full)" where
  "create_dataset_route P new_sid new_did tenant pid spec q c =
     andthen (find_project tenant pid c) (\<lambda>_.
     andthen (create_image_source P new_sid tenant spec c) (\<lambda>(c, src).
     create_dataset new_did tenant pid (source_id src) q c))"

definition find_dataset :: "string \<Rightarrow> string \<Rightarrow> string option \<Rightarrow> catalog \<Rightarrow> api_error + dataset_full" where
  "find_dataset tenant did project c =
     (case find (\<lambda>r. dataset_tenant_id r = tenant \<and> dataset_id r = did) (cat_datasets c) of
        None \<Rightarrow> raising NotFoundError (''Dataset '' @ did @ '' not found'')
      | Some r \<Rightarrow>
          if project \<noteq> None \<and> project \<noteq> Some (dataset_project_id r)
          then raising ValidationError ''Dataset does not belong to project'' else Inr r)"

definition change_refcount :: "string \<Rightarrow> (int \<Rightarrow> int) \<Rightarrow> blob_row list \<Rightarrow> blob_row list" where
  "change_refcount sha f = map (\<lambda>b. if blob_sha256 b = sha then b\<lparr>blob_refcount := f (blob_refcount b)\<rparr> else b)"

text \<open>An upload image gives its reference back.\<close>

definition release :: "image_full \<Rightarrow> blob_row list \<Rightarrow> blob_row list" where
  "release i bs = (if image_source_kind i = ''upload'' then change_refcount (content_sha i) (\<lambda>n. max 0 (n - 1)) bs else bs)"

definition delete_dataset :: "string \<Rightarrow> string \<Rightarrow> catalog \<Rightarrow> api_error + catalog" where
  "delete_dataset tenant did c =
     andthen (find_dataset tenant did None c) (\<lambda>r.
       let gone = filter (\<lambda>i. image_tenant_id i = tenant \<and> image_dataset_id i = did) (cat_images c) in
       Inr (c\<lparr>cat_blobs := fold release gone (cat_blobs c),
              cat_images := filter (\<lambda>i. image_dataset_id i \<noteq> did) (cat_images c),
              cat_datasets := filter (\<lambda>d. dataset_id d \<noteq> did) (cat_datasets c)\<rparr>))"

fun patch_dataset_field :: "string \<times> json \<Rightarrow> dataset_full \<Rightarrow> dataset_full option" where
  "patch_dataset_field (k, v) r =
     (if k = ''name'' then (case v of JStr s \<Rightarrow> Some (r\<lparr>dataset_name := s\<rparr>) | _ \<Rightarrow> None)
      else if k = ''camera_model'' then (case v of JStr s \<Rightarrow> Some (r\<lparr>camera_model := s\<rparr>) | _ \<Rightarrow> None)
      else if k = ''intrinsics_mode'' then (case v of JStr s \<Rightarrow> Some (r\<lparr>intrinsics_mode := s\<rparr>) | _ \<Rightarrow> None)
      else if k = ''is_spherical'' then (case v of JBool b \<Rightarrow> Some (r\<lparr>is_spherical := b\<rparr>) | _ \<Rightarrow> None)
      else if k = ''respect_exif_orientation'' then (case v of JBool b \<Rightarrow> Some (r\<lparr>respect_exif_orientation := b\<rparr>) | _ \<Rightarrow> None)
      else if k = ''rig_config'' then Some (r\<lparr>rig_config_json := (if v = JNull then None else Some v)\<rparr>)
      else if k = ''active_maskset_id'' then
        Some (r\<lparr>active_maskset_id := (case v of JStr s \<Rightarrow> Some s | _ \<Rightarrow> None)\<rparr>)
      else Some r)"

definition patch_dataset :: "string \<Rightarrow> string \<Rightarrow> json dict \<Rightarrow> catalog \<Rightarrow> api_error + (catalog \<times> dataset_full)" where
  "patch_dataset tenant did updates c =
     andthen (find_dataset tenant did None c) (\<lambda>r.
     case patch_all patch_dataset_field updates r of
       None \<Rightarrow> raising ConflictError ''Dataset name conflict on update''
     | Some q \<Rightarrow>
         let rows = map (\<lambda>d. if dataset_id d = did then q else d) (cat_datasets c) in
         if name_taken dataset_project_id dataset_name rows then raising ConflictError ''Dataset name conflict on update''
         else Inr (c\<lparr>cat_datasets := rows\<rparr>, q))"

section \<open>Manifests\<close>

definition images_of :: "string \<Rightarrow> catalog \<Rightarrow> image_full list" where
  "images_of did c = filter (\<lambda>i. image_dataset_id i = did) (cat_images c)"

definition manifest_json :: "image_full list \<Rightarrow> json" where
  "manifest_json imgs = JObj
     [(''images'', JList (map (\<lambda>i. JList [JStr (image_name i), JStr (content_sha i)]) (sort_key image_name imgs)))]"

definition manifest_of :: "(string \<Rightarrow> string) \<Rightarrow> (rat \<Rightarrow> string) \<Rightarrow> image_full list \<Rightarrow> string" where
  "manifest_of sha fr imgs = content_address sha (canonical_json fr (manifest_json imgs))"

definition recompute_manifest_hash :: "(string \<Rightarrow> string) \<Rightarrow> (rat \<Rightarrow> string) \<Rightarrow> string \<Rightarrow> catalog \<Rightarrow> catalog" where
  "recompute_manifest_hash sha fr did c =
     (let h = manifest_of sha fr (images_of did c) in
      c\<lparr>cat_datasets := map (\<lambda>d. if dataset_id d = did then d\<lparr>manifest_hash := h\<rparr> else d) (cat_datasets c)\<rparr>)"

section \<open>Images\<close>

record image_spec =
  is_name :: string
  is_sha :: string
  is_kind :: string
  is_rel_path :: "string option"
  is_byte_size :: "int option"
  is_width :: "int option"
  is_height :: "int option"
  is_exif :: "json option"

definition find_blob :: "string \<Rightarrow> catalog \<Rightarrow> blob_row option" where
  "find_blob sha c = find (\<lambda>b. blob_sha256 b = sha) (cat_blobs c)"

text \<open>What the kind of the source asks of an image: the relative path and the size of its row.\<close>

definition image_location :: "image_spec \<Rightarrow> catalog \<Rightarrow> api_error + (string option \<times> int option)" where
  "image_location q c =
     (if is_kind q = ''upload'' then
        (case find_blob (is_sha q) c of
           None \<Rightarrow> raising NotFoundError (''Blob '' @ is_sha q @ '' not found'')
         | Some b \<Rightarrow> Inr (is_rel_path q, case is_byte_size q of None \<Rightarrow> Some (blob_byte_size b) | Some n \<Rightarrow> Some n))
      else if is_kind q = ''local'' then
        (case is_rel_path q of
           None \<Rightarrow> raising ValidationError ''local images require rel_path''
         | Some p \<Rightarrow> andthen (validate_safe_relative_path ''rel_path'' p) (\<lambda>p. Inr (Some p, is_byte_size q)))
      else Inr (is_rel_path q, is_byte_size q))"

definition add_image ::
  "(string \<Rightarrow> string) \<Rightarrow> (rat \<Rightarrow> string) \<Rightarrow> string \<Rightarrow> string \<Rightarrow> dataset_full \<Rightarrow> image_spec \<Rightarrow> catalog \<Rightarrow>
   api_error + (catalog \<times> image_full)" where
  "add_image sha fr new_id tenant ds q c =
     andthen (validate_safe_relative_path ''name'' (is_name q)) (\<lambda>_.
     case find_source (dataset_source_id ds) c of
       None \<Rightarrow> raising NotFoundError ''dataset source not found''
     | Some src \<Rightarrow>
         if source_kind src \<noteq> is_kind q then
           raising ValidationError (is_kind q @ '' images require a '' @ is_kind q @ '' dataset source'')
         else andthen (image_location q c) (\<lambda>(rel, size).
           let img = \<lparr>image_id = new_id, image_tenant_id = tenant, image_dataset_id = dataset_id ds, image_name = is_name q,
                 content_sha = is_sha q, rel_path = rel, pose_prior_json = None, image_source_kind = is_kind q,
                 image_byte_size = size, image_width = is_width q, image_height = is_height q, exif_json = is_exif q\<rparr>;
               blobs = (if is_kind q = ''upload'' then change_refcount (is_sha q) (\<lambda>n. n + 1) (cat_blobs c) else cat_blobs c);
               rows = cat_images c @ [img] in
           if name_taken image_dataset_id image_name rows then
             raising ConflictError (''Image '' @ py_repr (is_name q) @ '' already exists in dataset'')
           else Inr (recompute_manifest_hash sha fr (dataset_id ds) (c\<lparr>cat_images := rows, cat_blobs := blobs\<rparr>), img)))"

text \<open>The registration routes. Local images get a placeholder for the hash of their contents.\<close>

record image_create =
  ic_name :: string
  ic_blob_sha :: "string option"
  ic_rel_path :: "string option"
  ic_width :: "int option"
  ic_height :: "int option"
  ic_exif :: "json option"

definition resolve_kind :: "image_create \<Rightarrow> api_error + (string \<times> string)" where
  "resolve_kind q =
     (case (ic_blob_sha q, ic_rel_path q) of
        (Some _, Some _) \<Rightarrow> raising ValidationError ''Exactly one of blob_sha or rel_path is required''
      | (Some sha, None) \<Rightarrow> Inr (''upload'', sha)
      | (None, Some _) \<Rightarrow> Inr (''local'', replicate 64 (CHR ''0''))
      | (None, None) \<Rightarrow> raising ValidationError ''Either blob_sha or rel_path is required'')"

definition create_image_in ::
  "(string \<Rightarrow> string) \<Rightarrow> (rat \<Rightarrow> string) \<Rightarrow> string \<Rightarrow> string \<Rightarrow> dataset_full \<Rightarrow> image_create \<Rightarrow> catalog \<Rightarrow>
   api_error + (catalog \<times> image_full)" where
  "create_image_in sha fr new_id tenant ds q c =
     andthen (resolve_kind q) (\<lambda>(k, s).
     add_image sha fr new_id tenant ds
       \<lparr>is_name = ic_name q, is_sha = s, is_kind = k, is_rel_path = ic_rel_path q, is_byte_size = None,
        is_width = ic_width q, is_height = ic_height q, is_exif = ic_exif q\<rparr> c)"

definition create_image_route ::
  "(string \<Rightarrow> string) \<Rightarrow> (rat \<Rightarrow> string) \<Rightarrow> string \<Rightarrow> string \<Rightarrow> string \<Rightarrow> image_create \<Rightarrow> catalog \<Rightarrow>
   api_error + (catalog \<times> image_full)" where
  "create_image_route sha fr new_id tenant did q c =
     andthen (find_dataset tenant did None c) (\<lambda>ds. create_image_in sha fr new_id tenant ds q c)"

fun create_images_in ::
  "(string \<Rightarrow> string) \<Rightarrow> (rat \<Rightarrow> string) \<Rightarrow> string list \<Rightarrow> string \<Rightarrow> dataset_full \<Rightarrow> image_create list \<Rightarrow> catalog \<Rightarrow>
   api_error + (catalog \<times> image_full list)" where
  "create_images_in sha fr ids tenant ds [] c = Inr (c, [])"
| "create_images_in sha fr ids tenant ds (q # qs) c =
     andthen (create_image_in sha fr (hd ids) tenant ds q c) (\<lambda>(c, i).
     andthen (create_images_in sha fr (tl ids) tenant ds qs c) (\<lambda>(c, is). Inr (c, i # is)))"

definition batch_create_images ::
  "(string \<Rightarrow> string) \<Rightarrow> (rat \<Rightarrow> string) \<Rightarrow> string list \<Rightarrow> string \<Rightarrow> string \<Rightarrow> image_create list \<Rightarrow> catalog \<Rightarrow>
   api_error + (catalog \<times> image_full list)" where
  "batch_create_images sha fr ids tenant did qs c =
     (if qs = [] then raising ValidationError ''requests must be non-empty''
      else if 1000 < length qs then raising ValidationError ''batch limit is 1000 items''
      else andthen (find_dataset tenant did None c) (\<lambda>ds. create_images_in sha fr ids tenant ds qs c))"

definition get_image :: "string \<Rightarrow> string \<Rightarrow> catalog \<Rightarrow> api_error + image_full" where
  "get_image tenant iid c =
     (case find (\<lambda>i. image_tenant_id i = tenant \<and> image_id i = iid) (cat_images c) of
        None \<Rightarrow> raising NotFoundError (''Image '' @ iid @ '' not found'')
      | Some i \<Rightarrow> Inr i)"

definition set_pose_prior :: "string \<Rightarrow> string \<Rightarrow> json option \<Rightarrow> catalog \<Rightarrow> api_error + catalog" where
  "set_pose_prior tenant iid prior c =
     andthen (get_image tenant iid c) (\<lambda>i.
     Inr (c\<lparr>cat_images := map (\<lambda>j. if image_id j = iid then j\<lparr>pose_prior_json := prior\<rparr> else j) (cat_images c)\<rparr>))"

fun bulk_set_pose_priors :: "string \<Rightarrow> string \<Rightarrow> (string \<times> json) list \<Rightarrow> catalog \<Rightarrow> api_error + (catalog \<times> nat)" where
  "bulk_set_pose_priors tenant did [] c = Inr (c, 0)"
| "bulk_set_pose_priors tenant did ((iid, prior) # es) c =
     andthen (set_pose_prior tenant iid (Some prior) c) (\<lambda>c.
     andthen (bulk_set_pose_priors tenant did es c) (\<lambda>(c, n). Inr (c, Suc n)))"

definition list_pose_priors :: "string \<Rightarrow> string \<Rightarrow> catalog \<Rightarrow> (image_full \<times> json) list" where
  "list_pose_priors tenant did c =
     concat (map (\<lambda>i. case pose_prior_json i of None \<Rightarrow> [] | Some p \<Rightarrow> if truthy p then [(i, p)] else [])
       (sort_key image_name (filter (\<lambda>i. image_tenant_id i = tenant \<and> image_dataset_id i = did) (cat_images c))))"

definition delete_image_row :: "(string \<Rightarrow> string) \<Rightarrow> (rat \<Rightarrow> string) \<Rightarrow> image_full \<Rightarrow> catalog \<Rightarrow> catalog" where
  "delete_image_row sha fr i c =
     recompute_manifest_hash sha fr (image_dataset_id i)
       (c\<lparr>cat_blobs := release i (cat_blobs c), cat_images := filter (\<lambda>j. image_id j \<noteq> image_id i) (cat_images c)\<rparr>)"

definition delete_image :: "(string \<Rightarrow> string) \<Rightarrow> (rat \<Rightarrow> string) \<Rightarrow> string \<Rightarrow> string \<Rightarrow> string \<Rightarrow> catalog \<Rightarrow> api_error + catalog" where
  "delete_image sha fr tenant did nm c =
     (case find (\<lambda>i. image_tenant_id i = tenant \<and> image_dataset_id i = did \<and> image_name i = nm) (cat_images c) of
        None \<Rightarrow> raising NotFoundError (''Image '' @ nm @ '' not found in dataset'')
      | Some i \<Rightarrow> Inr (delete_image_row sha fr i c))"

definition delete_image_by_id :: "(string \<Rightarrow> string) \<Rightarrow> (rat \<Rightarrow> string) \<Rightarrow> string \<Rightarrow> string \<Rightarrow> catalog \<Rightarrow> api_error + catalog" where
  "delete_image_by_id sha fr tenant iid c =
     andthen (get_image tenant iid c) (\<lambda>i. Inr (delete_image_row sha fr i c))"

text \<open>What \<open>upload_service\<close> does here when it finalises an upload: the row of a blob not seen before.\<close>

definition register_blob :: "string \<Rightarrow> int \<Rightarrow> string option \<Rightarrow> catalog \<Rightarrow> catalog" where
  "register_blob sha n mime c =
     (if find_blob sha c = None
      then c\<lparr>cat_blobs := cat_blobs c @ [\<lparr>blob_sha256 = sha, blob_byte_size = n, blob_mime = mime, blob_refcount = 0\<rparr>]\<rparr>
      else c)"

end
