(* ===== verification/Catalog_Correct.thy ===== *)
theory Catalog_Correct
  imports Catalog Json_Text
begin

text \<open>
  The catalog keeps its books: every dataset's manifest hash is that of its images, every blob is
  counted as often as images refer to it, images belong to datasets of their tenant and source
  kind, and names are unique. Deleting a project is the operation that breaks the count.
\<close>

section \<open>The invariant\<close>

definition references :: "string \<Rightarrow> image_full list \<Rightarrow> nat" where
  "references sha imgs = length (filter (\<lambda>i. image_source_kind i = ''upload'' \<and> content_sha i = sha) imgs)"

definition keys_ok :: "catalog \<Rightarrow> bool" where
  "keys_ok c \<longleftrightarrow>
     distinct (map dataset_id (cat_datasets c)) \<and> distinct (map image_id (cat_images c)) \<and>
     distinct (map source_id (cat_sources c)) \<and> distinct (map blob_sha256 (cat_blobs c)) \<and>
     \<not> name_taken dataset_project_id dataset_name (cat_datasets c) \<and>
     \<not> name_taken image_dataset_id image_name (cat_images c)"

definition owned_by :: "catalog \<Rightarrow> image_full \<Rightarrow> dataset_full \<Rightarrow> bool" where
  "owned_by c i d \<longleftrightarrow>
     dataset_id d = image_dataset_id i \<and> dataset_tenant_id d = image_tenant_id i \<and>
     (\<exists>s \<in> set (cat_sources c). source_id s = dataset_source_id d \<and> source_kind s = image_source_kind i)"

definition images_owned :: "catalog \<Rightarrow> bool" where
  "images_owned c \<longleftrightarrow> (\<forall>i \<in> set (cat_images c). \<exists>d \<in> set (cat_datasets c). owned_by c i d)"

definition count_ok :: "bool \<Rightarrow> nat \<Rightarrow> int \<Rightarrow> bool" where
  "count_ok exact m n \<longleftrightarrow> (if exact then n = int m else int m \<le> n)"

definition blobs_counted :: "bool \<Rightarrow> catalog \<Rightarrow> bool" where
  "blobs_counted exact c \<longleftrightarrow>
     (\<forall>i \<in> set (cat_images c). image_source_kind i = ''upload'' \<longrightarrow> content_sha i \<in> blob_sha256 ` set (cat_blobs c)) \<and>
     (\<forall>b \<in> set (cat_blobs c). count_ok exact (references (blob_sha256 b) (cat_images c)) (blob_refcount b))"

text \<open>A name, or a path below the root of a local source, that materialization accepts.\<close>

definition safe_path :: "string \<Rightarrow> bool" where
  "safe_path s \<longleftrightarrow> s \<noteq> [] \<and> validate_safe_relative_path [] s = Inr s"

definition placed :: "image_full \<Rightarrow> bool" where
  "placed i \<longleftrightarrow> safe_path (image_name i) \<and>
     (image_source_kind i = ''local'' \<longrightarrow> (\<exists>p. rel_path i = Some p \<and> safe_path p))"

definition rooted :: "source_full \<Rightarrow> bool" where
  "rooted s \<longleftrightarrow>
     source_kind s = ''upload'' \<or> source_kind s = ''local'' \<and> (\<exists>u. uri_or_root s = Some u \<and> u \<noteq> []) \<or>
     source_kind s = ''s3'' \<and> (\<exists>u. uri_or_root s = Some u \<and> starts ''s3://'' u)"

definition manifest_current :: "(string \<Rightarrow> string) \<Rightarrow> (rat \<Rightarrow> string) \<Rightarrow> catalog \<Rightarrow> dataset_full \<Rightarrow> bool" where
  "manifest_current sha fr c d \<longleftrightarrow>
     manifest_hash d = manifest_of sha fr (images_of (dataset_id d) c) \<or> manifest_hash d = [] \<and> images_of (dataset_id d) c = []"

definition books_ok :: "bool \<Rightarrow> catalog \<Rightarrow> bool" where
  "books_ok exact c \<longleftrightarrow>
     keys_ok c \<and> images_owned c \<and> blobs_counted exact c \<and> list_all placed (cat_images c) \<and> list_all rooted (cat_sources c)"

definition catalog_inv :: "bool \<Rightarrow> (string \<Rightarrow> string) \<Rightarrow> (rat \<Rightarrow> string) \<Rightarrow> catalog \<Rightarrow> bool" where
  "catalog_inv exact sha fr c \<longleftrightarrow> books_ok exact c \<and> (\<forall>d \<in> set (cat_datasets c). manifest_current sha fr c d)"

named_theorems cat_simps \<open>what catalog updates leave alone\<close>

lemma recompute_same [cat_simps]:
  "cat_images (recompute_manifest_hash sha fr did c) = cat_images c" "cat_blobs (recompute_manifest_hash sha fr did c) = cat_blobs c"
  "cat_sources (recompute_manifest_hash sha fr did c) = cat_sources c" "cat_projects (recompute_manifest_hash sha fr did c) = cat_projects c"
  "images_of i (recompute_manifest_hash sha fr did c) = images_of i c"
  by (simp_all add: recompute_manifest_hash_def Let_def images_of_def)

lemma recompute_datasets:
  "cat_datasets (recompute_manifest_hash sha fr did c) =
     map (\<lambda>d. if dataset_id d = did then d\<lparr>manifest_hash := manifest_of sha fr (images_of did c)\<rparr> else d) (cat_datasets c)"
  by (simp add: recompute_manifest_hash_def Let_def)

lemma recompute_keeps:
  assumes "d \<in> set (cat_datasets c)"
  shows "\<exists>d' \<in> set (cat_datasets (recompute_manifest_hash sha fr did c)). dataset_id d' = dataset_id d \<and>
    dataset_tenant_id d' = dataset_tenant_id d \<and> dataset_source_id d' = dataset_source_id d"
  unfolding recompute_datasets set_map bex_simps by (rule bexI [OF _ assms]) simp

text \<open>Recomputing a manifest restores the invariant when only that manifest was out of date.\<close>

lemma keys_recompute [cat_simps]: "keys_ok (recompute_manifest_hash sha fr did c) = keys_ok c"
  by (auto simp: keys_ok_def cat_simps recompute_datasets name_taken_def o_def if_distrib cong: if_cong)

lemma owned_recompute [cat_simps]: "images_owned (recompute_manifest_hash sha fr did c) = images_owned c"
proof -
  let ?f = "\<lambda>d. if dataset_id d = did then d\<lparr>manifest_hash := manifest_of sha fr (images_of did c)\<rparr> else d"
  have "owned_by (recompute_manifest_hash sha fr did c) i (?f d) = owned_by c i d" for i d
    by (simp add: owned_by_def cat_simps)
  then have "(\<exists>d \<in> ?f ` set (cat_datasets c). owned_by (recompute_manifest_hash sha fr did c) i d) = (\<exists>d \<in> set (cat_datasets c). owned_by c i d)"
    for i by (simp only: bex_simps)
  then show ?thesis by (simp only: images_owned_def recompute_same(1) recompute_datasets set_map)
qed

lemma recompute_inv:
  assumes "books_ok exact c"
    and "\<And>d. d \<in> set (cat_datasets c) \<Longrightarrow> dataset_id d \<noteq> did \<Longrightarrow> manifest_current sha fr c d"
  shows "catalog_inv exact sha fr (recompute_manifest_hash sha fr did c)"
proof -
  have "manifest_current sha fr (recompute_manifest_hash sha fr did c) d" if "d \<in> set (cat_datasets (recompute_manifest_hash sha fr did c))" for d
    using that assms(2) by (auto simp: manifest_current_def cat_simps recompute_datasets split: if_splits)
  then show ?thesis using assms(1) by (simp add: catalog_inv_def books_ok_def blobs_counted_def cat_simps)
qed

section \<open>Images\<close>

lemma change_refcount_shas [cat_simps]: "map blob_sha256 (change_refcount s f bs) = map blob_sha256 bs"
  by (simp add: change_refcount_def o_def if_distrib cong: if_cong)

lemma release_shas [cat_simps]: "map blob_sha256 (release i bs) = map blob_sha256 bs"
  by (simp add: release_def cat_simps)

lemma sha_set: "map blob_sha256 bs = map blob_sha256 bs' \<Longrightarrow> blob_sha256 ` set bs = blob_sha256 ` set bs'"
  by (metis list.set_map)

lemma name_taken_subset: "\<not> name_taken f g xs \<Longrightarrow> \<not> name_taken f g (filter P xs)"
  by (simp add: name_taken_def distinct_map_filter)

lemma find_member: "find P xs = Some x \<Longrightarrow> x \<in> set xs \<and> P x"
  by (auto simp: find_Some_iff)

lemma find_blob_row: "find_blob sha c = Some b \<Longrightarrow> sha \<in> blob_sha256 ` set (cat_blobs c)"
  by (auto simp: find_blob_def dest: find_member)

lemma safe_iff: "validate_safe_relative_path field s = Inr t \<longleftrightarrow> safe_path s \<and> t = s"
  by (auto simp: safe_path_def validate_safe_relative_path_def raising_def)

lemma add_image_parts:
  assumes "add_image sha fr new_id tenant ds q c = Inr (c', img)"
  obtains src blobs where "find_source (dataset_source_id ds) c = Some src" "source_kind src = is_kind q"
    "image_id img = new_id" "image_tenant_id img = tenant" "image_dataset_id img = dataset_id ds" "placed img"
    "content_sha img = is_sha q" "image_source_kind img = is_kind q"
    "is_kind q = ''upload'' \<Longrightarrow> is_sha q \<in> blob_sha256 ` set (cat_blobs c)"
    "blobs = (if is_kind q = ''upload'' then change_refcount (is_sha q) (\<lambda>n. n + 1) (cat_blobs c) else cat_blobs c)"
    "\<not> name_taken image_dataset_id image_name (cat_images c @ [img])"
    "c' = recompute_manifest_hash sha fr (dataset_id ds) (c\<lparr>cat_images := cat_images c @ [img], cat_blobs := blobs\<rparr>)"
proof -
  obtain src where src: "find_source (dataset_source_id ds) c = Some src" "source_kind src = is_kind q"
    using assms by (auto simp: add_image_def andthen_Inr raising_def split: option.splits if_splits)
  obtain rel size where loc: "image_location q c = Inr (rel, size)"
    using assms src by (auto simp: add_image_def andthen_Inr)
  have blob: "is_sha q \<in> blob_sha256 ` set (cat_blobs c)" if "is_kind q = ''upload''"
    using loc that by (auto simp: image_location_def raising_def split: option.splits dest: find_blob_row)
  have rel: "\<exists>p. rel = Some p \<and> safe_path p" if k: "is_kind q = ''local''"
  proof -
    obtain p where "is_rel_path q = Some p"
      using loc k by (cases "is_rel_path q") (auto simp: image_location_def raising_def)
    then show ?thesis using loc k by (auto simp: image_location_def andthen_Inr safe_iff) metis
  qed
  have out: "\<not> name_taken image_dataset_id image_name (cat_images c @ [img]) \<and> image_id img = new_id \<and> image_tenant_id img = tenant \<and>
      image_dataset_id img = dataset_id ds \<and> image_name img = is_name q \<and> safe_path (is_name q) \<and> rel_path img = rel \<and>
      content_sha img = is_sha q \<and> image_source_kind img = is_kind q \<and>
      c' = recompute_manifest_hash sha fr (dataset_id ds) (c\<lparr>cat_images := cat_images c @ [img],
        cat_blobs := (if is_kind q = ''upload'' then change_refcount (is_sha q) (\<lambda>n. n + 1) (cat_blobs c) else cat_blobs c)\<rparr>)"
    using assms src loc by (auto simp: add_image_def andthen_Inr raising_def Let_def safe_iff split: if_splits)
  show thesis by (rule that [OF src]) (use out blob rel in \<open>auto simp: placed_def\<close>)
qed

lemma add_image_inv:
  assumes inv: "catalog_inv exact sha fr c" and run: "add_image sha fr new_id tenant ds q c = Inr (c', img)"
    and ds: "d \<in> set (cat_datasets c)" "dataset_id d = dataset_id ds" "dataset_tenant_id d = tenant" "dataset_source_id d = dataset_source_id ds"
    and fresh: "new_id \<notin> image_id ` set (cat_images c)"
  shows "catalog_inv exact sha fr c'"
proof -
  obtain src blobs where src: "find_source (dataset_source_id ds) c = Some src" "source_kind src = is_kind q"
    and img: "image_id img = new_id" "image_tenant_id img = tenant" "image_dataset_id img = dataset_id ds" "placed img"
      "content_sha img = is_sha q" "image_source_kind img = is_kind q"
    and blob: "is_kind q = ''upload'' \<Longrightarrow> is_sha q \<in> blob_sha256 ` set (cat_blobs c)"
    and blobs: "blobs = (if is_kind q = ''upload'' then change_refcount (is_sha q) (\<lambda>n. n + 1) (cat_blobs c) else cat_blobs c)"
    and new: "\<not> name_taken image_dataset_id image_name (cat_images c @ [img])"
    and c': "c' = recompute_manifest_hash sha fr (dataset_id ds) (c\<lparr>cat_images := cat_images c @ [img], cat_blobs := blobs\<rparr>)"
    using add_image_parts [OF run] by metis
  let ?c = "c\<lparr>cat_images := cat_images c @ [img], cat_blobs := blobs\<rparr>"
  have shas: "map blob_sha256 blobs = map blob_sha256 (cat_blobs c)" by (simp add: blobs cat_simps)
  have keys: "keys_ok ?c"
    using inv fresh new img(1) shas by (auto simp: catalog_inv_def books_ok_def keys_ok_def)
  have src_in: "src \<in> set (cat_sources c)" "source_id src = dataset_source_id ds"
    using src(1) by (auto simp: find_source_def dest: find_member)
  have owned: "images_owned ?c"
    using inv ds src src_in img by (fastforce simp: catalog_inv_def books_ok_def images_owned_def owned_by_def)
  have counted: "blobs_counted exact ?c"
    unfolding blobs_counted_def
  proof (intro conjI ballI impI)
    fix i assume "i \<in> set (cat_images ?c)" "image_source_kind i = ''upload''"
    then show "content_sha i \<in> blob_sha256 ` set (cat_blobs ?c)"
      using inv blob img sha_set [OF shas] by (auto simp: catalog_inv_def books_ok_def blobs_counted_def)
  next
    fix b assume "b \<in> set (cat_blobs ?c)"
    then obtain b0 where b0: "b0 \<in> set (cat_blobs c)" "blob_sha256 b = blob_sha256 b0"
      "blob_refcount b = blob_refcount b0 + (if is_kind q = ''upload'' \<and> blob_sha256 b0 = is_sha q then 1 else 0)"
      by (auto simp: blobs change_refcount_def split: if_splits)
    have "count_ok exact (references (blob_sha256 b0) (cat_images c)) (blob_refcount b0)"
      using inv b0(1) by (simp add: catalog_inv_def books_ok_def blobs_counted_def)
    then show "count_ok exact (references (blob_sha256 b) (cat_images ?c)) (blob_refcount b)"
      by (cases "is_kind q = ''upload'' \<and> blob_sha256 b0 = is_sha q") (auto simp: b0 references_def img count_ok_def)
  qed
  have "manifest_current sha fr ?c e" if "e \<in> set (cat_datasets ?c)" "dataset_id e \<noteq> dataset_id ds" for e
    using that inv img by (auto simp: catalog_inv_def manifest_current_def images_of_def)
  from recompute_inv [OF _ this] keys owned counted inv img(4) show ?thesis
    unfolding c' by (simp add: catalog_inv_def books_ok_def)
qed

text \<open>Removing images and giving back what they held.\<close>

lemma released:
  "b' \<in> set (fold release gone bs) \<Longrightarrow>
   \<exists>b \<in> set bs. blob_sha256 b = blob_sha256 b' \<and>
     (\<forall>m. count_ok exact (references (blob_sha256 b) gone + m) (blob_refcount b) \<longrightarrow> count_ok exact m (blob_refcount b'))"
proof (induction gone arbitrary: bs)
  case (Cons i gone)
  then obtain b where b: "b \<in> set (release i bs)" "blob_sha256 b = blob_sha256 b'"
    and count: "\<And>m. count_ok exact (references (blob_sha256 b) gone + m) (blob_refcount b) \<Longrightarrow> count_ok exact m (blob_refcount b')"
    by fastforce
  obtain b0 where b0: "b0 \<in> set bs" "blob_sha256 b = blob_sha256 b0"
    "blob_refcount b = (if image_source_kind i = ''upload'' \<and> blob_sha256 b0 = content_sha i then max 0 (blob_refcount b0 - 1) else blob_refcount b0)"
    using b(1) by (auto simp: release_def change_refcount_def split: if_splits)
  have "count_ok exact (references (blob_sha256 b0) gone + m) (blob_refcount b)"
    if "count_ok exact (references (blob_sha256 b0) (i # gone) + m) (blob_refcount b0)" for m
    using that by (cases "image_source_kind i = ''upload'' \<and> blob_sha256 b0 = content_sha i") (auto simp: b0 references_def count_ok_def split: if_splits)
  then show ?case using b b0 count by metis
qed (auto simp: references_def)

lemma fold_release_shas [cat_simps]: "map blob_sha256 (fold release gone bs) = map blob_sha256 bs"
  by (induction gone arbitrary: bs) (simp_all add: cat_simps)

lemma references_split: "references s imgs = references s (filter P imgs) + references s (filter (\<lambda>i. \<not> P i) imgs)"
  by (induction imgs) (auto simp: references_def)

lemma drop_images_books:
  assumes inv: "books_ok exact c"
  shows "books_ok exact (c\<lparr>cat_blobs := fold release (filter P (cat_images c)) (cat_blobs c), cat_images := filter (\<lambda>i. \<not> P i) (cat_images c)\<rparr>)"
    (is "books_ok exact ?c")
proof -
  have "blobs_counted exact ?c"
    unfolding blobs_counted_def
  proof (intro conjI ballI impI)
    fix i assume "i \<in> set (cat_images ?c)" "image_source_kind i = ''upload''"
    then show "content_sha i \<in> blob_sha256 ` set (cat_blobs ?c)"
      using inv sha_set [OF fold_release_shas, of "filter P (cat_images c)" "cat_blobs c"] by (auto simp: books_ok_def blobs_counted_def)
  next
    fix b' assume "b' \<in> set (cat_blobs ?c)"
    from released [of b' _ _ exact, OF this [simplified]] obtain b where b: "b \<in> set (cat_blobs c)" "blob_sha256 b = blob_sha256 b'"
      "\<And>m. count_ok exact (references (blob_sha256 b) (filter P (cat_images c)) + m) (blob_refcount b) \<Longrightarrow> count_ok exact m (blob_refcount b')"
      by blast
    have "count_ok exact (references (blob_sha256 b) (cat_images c)) (blob_refcount b)"
      using inv b(1) by (simp add: books_ok_def blobs_counted_def)
    then show "count_ok exact (references (blob_sha256 b') (cat_images ?c)) (blob_refcount b')"
      using b references_split [of "blob_sha256 b" "cat_images c" P] by simp
  qed
  then show ?thesis
    using inv by (auto simp: books_ok_def keys_ok_def images_owned_def owned_by_def cat_simps name_taken_subset distinct_map_filter list_all_iff)
qed

lemma delete_image_row_inv:
  assumes inv: "catalog_inv exact sha fr c" and i: "i \<in> set (cat_images c)"
  shows "catalog_inv exact sha fr (delete_image_row sha fr i c)"
proof -
  have one: "filter (\<lambda>j. image_id j = image_id i) xs = [i]" if "distinct (map image_id xs)" "i \<in> set xs" for xs
    using that by (induction xs) (auto simp: filter_empty_conv, metis imageI)
  then have "filter (\<lambda>j. image_id j = image_id i) (cat_images c) = [i]"
    using inv i by (simp add: catalog_inv_def books_ok_def keys_ok_def)
  then have "books_ok exact (c\<lparr>cat_blobs := release i (cat_blobs c), cat_images := filter (\<lambda>j. image_id j \<noteq> image_id i) (cat_images c)\<rparr>)"
    using inv drop_images_books [of exact c "\<lambda>j. image_id j = image_id i"] by (simp add: catalog_inv_def)
  moreover have "j = i" if "j \<in> set (cat_images c)" "image_id j = image_id i" for j
    using inv i that by (auto simp: catalog_inv_def books_ok_def keys_ok_def inj_on_def distinct_map)
  then have "images_of x (c\<lparr>cat_blobs := release i (cat_blobs c), cat_images := filter (\<lambda>j. image_id j \<noteq> image_id i) (cat_images c)\<rparr>) =
      images_of x c" if "x \<noteq> image_dataset_id i" for x
    using that by (auto simp: images_of_def intro!: filter_cong)
  then have "manifest_current sha fr (c\<lparr>cat_blobs := release i (cat_blobs c), cat_images := filter (\<lambda>j. image_id j \<noteq> image_id i) (cat_images c)\<rparr>) d"
    if "d \<in> set (cat_datasets c)" "dataset_id d \<noteq> image_dataset_id i" for d
    using that inv by (simp add: catalog_inv_def manifest_current_def)
  ultimately show ?thesis unfolding delete_image_row_def by (intro recompute_inv) simp_all
qed

section \<open>Datasets, sources and projects\<close>

lemma image_dataset: "images_owned c \<Longrightarrow> i \<in> set (cat_images c) \<Longrightarrow> image_dataset_id i \<in> dataset_id ` set (cat_datasets c)"
  by (force simp: images_owned_def owned_by_def)

lemma delete_dataset_inv:
  assumes inv: "catalog_inv exact sha fr c" and run: "delete_dataset tenant did c = Inr c'"
  shows "catalog_inv exact sha fr c'"
proof -
  obtain r where r: "r \<in> set (cat_datasets c)" "dataset_tenant_id r = tenant" "dataset_id r = did"
    using run by (auto simp: delete_dataset_def andthen_Inr find_dataset_def raising_def split: option.splits dest!: find_member)
  have "image_tenant_id i = tenant" if i: "i \<in> set (cat_images c)" "image_dataset_id i = did" for i
  proof -
    obtain d where "d \<in> set (cat_datasets c)" "dataset_id d = did" "dataset_tenant_id d = image_tenant_id i"
      using inv i by (auto simp: catalog_inv_def books_ok_def images_owned_def owned_by_def)
    then show ?thesis using inv r by (auto simp: catalog_inv_def books_ok_def keys_ok_def distinct_map inj_on_def)
  qed
  then have "filter (\<lambda>i. image_tenant_id i = tenant \<and> image_dataset_id i = did) (cat_images c) = filter (\<lambda>i. image_dataset_id i = did) (cat_images c)"
    by (auto intro: filter_cong)
  then have c': "c' = c\<lparr>cat_blobs := fold release (filter (\<lambda>i. image_dataset_id i = did) (cat_images c)) (cat_blobs c),
      cat_images := filter (\<lambda>i. image_dataset_id i \<noteq> did) (cat_images c), cat_datasets := filter (\<lambda>d. dataset_id d \<noteq> did) (cat_datasets c)\<rparr>"
    using run by (auto simp: delete_dataset_def andthen_Inr Let_def)
  have books: "books_ok exact (c\<lparr>cat_blobs := fold release (filter (\<lambda>i. image_dataset_id i = did) (cat_images c)) (cat_blobs c),
      cat_images := filter (\<lambda>i. image_dataset_id i \<noteq> did) (cat_images c)\<rparr>)"
    using inv by (simp add: catalog_inv_def drop_images_books)
  have "images_owned c'"
    unfolding images_owned_def
  proof
    fix i assume i: "i \<in> set (cat_images c')"
    then obtain d where "d \<in> set (cat_datasets c)" "owned_by c i d"
      using inv by (auto simp: c' catalog_inv_def books_ok_def images_owned_def)
    with i show "\<exists>d \<in> set (cat_datasets c'). owned_by c' i d"
      by (auto simp: c' owned_by_def intro!: bexI [of _ d])
  qed
  then have "books_ok exact c'"
    using books by (simp add: c' books_ok_def keys_ok_def blobs_counted_def name_taken_subset distinct_map_filter)
  moreover have "images_of x c' = images_of x c" if "x \<noteq> did" for x
    using that by (auto simp: c' images_of_def intro: filter_cong)
  ultimately show ?thesis using inv by (auto simp: catalog_inv_def manifest_current_def c')
qed

lemma patched_field_same:
  "patch_dataset_field (k, v) r = Some q \<Longrightarrow>
   dataset_id q = dataset_id r \<and> dataset_tenant_id q = dataset_tenant_id r \<and> dataset_source_id q = dataset_source_id r \<and>
   manifest_hash q = manifest_hash r"
  by (cases v) (simp_all split: if_split_asm, auto)

lemma patched_dataset_same:
  "patch_all patch_dataset_field updates r = Some q \<Longrightarrow>
   dataset_id q = dataset_id r \<and> dataset_tenant_id q = dataset_tenant_id r \<and> dataset_source_id q = dataset_source_id r \<and>
   manifest_hash q = manifest_hash r"
proof (induction updates arbitrary: r)
  case (Cons e updates)
  obtain r' where "patch_dataset_field (fst e, snd e) r = Some r'" "patch_all patch_dataset_field updates r' = Some q"
    using Cons.prems by (auto simp del: patch_dataset_field.simps split: option.splits)
  then show ?case using Cons.IH [of r'] patched_field_same [of "fst e" "snd e" r r'] by metis
qed simp

lemma patch_dataset_inv:
  assumes inv: "catalog_inv exact sha fr c" and run: "patch_dataset tenant did updates c = Inr (c', q)"
  shows "catalog_inv exact sha fr c'"
proof -
  let ?rows = "map (\<lambda>d. if dataset_id d = did then q else d) (cat_datasets c)"
  obtain r where r: "r \<in> set (cat_datasets c)" "dataset_id r = did" "patch_all patch_dataset_field updates r = Some q"
    and c': "c' = c\<lparr>cat_datasets := ?rows\<rparr>" and names: "\<not> name_taken dataset_project_id dataset_name ?rows"
    using run by (auto simp: patch_dataset_def andthen_Inr find_dataset_def raising_def Let_def split: option.splits if_splits dest!: find_member)
  note same = patched_dataset_same [OF r(3)]
  have only: "d = r" if "d \<in> set (cat_datasets c)" "dataset_id d = did" for d
    using inv r that by (auto simp: catalog_inv_def books_ok_def keys_ok_def distinct_map inj_on_def)
  have "map dataset_id ?rows = map dataset_id (cat_datasets c)" using same r(2) by simp
  then have ids: "distinct (map dataset_id ?rows)"
    using inv by (simp only: catalog_inv_def books_ok_def keys_ok_def)
  have keys: "keys_ok c'"
  proof -
    define rows where "rows = ?rows"
    have "c' = c\<lparr>cat_datasets := rows\<rparr>" by (simp only: c' rows_def)
    moreover have "distinct (map dataset_id rows)" "\<not> name_taken dataset_project_id dataset_name rows"
      using ids names by (simp_all only: rows_def not_False_eq_True)
    ultimately show ?thesis using inv by (simp add: catalog_inv_def books_ok_def keys_ok_def)
  qed
  have q: "q \<in> set ?rows" using r(1,2) by force
  have owner: "\<exists>d' \<in> set ?rows. owned_by c' i d'" if d: "d \<in> set (cat_datasets c)" "owned_by c i d" for i d
  proof (cases "dataset_id d = did")
    case True
    then have "owned_by c' i q" using d same only [OF d(1)] r(2) by (auto simp: owned_by_def c')
    then show ?thesis using q by (rule rev_bexI [rotated])
  next
    case False
    then show ?thesis using d by (auto simp: owned_by_def c' intro!: bexI [of _ d])
  qed
  have "images_owned c'"
    using inv owner by (simp add: catalog_inv_def books_ok_def images_owned_def c') blast
  then have "books_ok exact c'"
    using inv keys by (simp add: catalog_inv_def books_ok_def blobs_counted_def) (simp add: c')
  moreover have "manifest_current sha fr c' d" if "d \<in> set ?rows" for d
    using that inv same r by (auto simp: catalog_inv_def manifest_current_def c' images_of_def)
  ultimately show ?thesis by (simp add: catalog_inv_def c')
qed

lemma create_dataset_inv:
  assumes inv: "catalog_inv exact sha fr c" and run: "create_dataset new_id tenant pid sid q c = Inr (c', r)"
    and fresh: "new_id \<notin> dataset_id ` set (cat_datasets c)"
  shows "catalog_inv exact sha fr c'"
proof -
  have c': "c' = c\<lparr>cat_datasets := cat_datasets c @ [r]\<rparr>" and r: "dataset_id r = new_id" "manifest_hash r = []"
    and names: "\<not> name_taken dataset_project_id dataset_name (cat_datasets c @ [r])"
    using run by (auto simp: create_dataset_def raising_def Let_def split: if_splits)
  have "images_of new_id c = []"
    using image_dataset fresh inv by (force simp: images_of_def filter_empty_conv catalog_inv_def books_ok_def)
  then show ?thesis
    using inv names fresh r
    by (fastforce simp: c' catalog_inv_def books_ok_def keys_ok_def images_owned_def owned_by_def blobs_counted_def manifest_current_def images_of_def)
qed

text \<open>A directory listed by the probe has a root.\<close>

definition probe_rooted :: "source_probe \<Rightarrow> bool" where
  "probe_rooted P \<longleftrightarrow> (\<nexists>dir rec fp. probe_local P dir rec = Inr ([], fp))"

lemma create_source_inv:
  assumes inv: "catalog_inv exact sha fr c" and P: "probe_rooted P" and run: "create_image_source P new_id tenant spec c = Inr (c', s)"
    and fresh: "new_id \<notin> source_id ` set (cat_sources c)"
  shows "catalog_inv exact sha fr c' \<and> cat_datasets c' = cat_datasets c"
proof -
  have c': "c' = c\<lparr>cat_sources := cat_sources c @ [s]\<rparr>" "source_id s = new_id" "rooted s"
    using run P by (auto simp: create_image_source_def andthen_Inr raising_def Let_def rooted_def probe_rooted_def starts_def
        split: source_spec.splits sum.splits)
  have "images_owned c'"
    using inv by (fastforce simp: c' catalog_inv_def books_ok_def images_owned_def owned_by_def)
  then show ?thesis
    using inv fresh c' by (simp add: catalog_inv_def books_ok_def keys_ok_def blobs_counted_def manifest_current_def images_of_def)
qed

text \<open>Registering images, one or many, and writing their pose priors.\<close>

lemma create_image_inv:
  assumes "catalog_inv exact sha fr c" "create_image_in sha fr new_id tenant ds q c = Inr (c', img)"
    and "d \<in> set (cat_datasets c)" "dataset_id d = dataset_id ds" "dataset_tenant_id d = tenant" "dataset_source_id d = dataset_source_id ds"
    and "new_id \<notin> image_id ` set (cat_images c)"
  shows "catalog_inv exact sha fr c'"
  using assms by (auto simp: create_image_in_def andthen_Inr intro: add_image_inv)

lemma create_image_keeps:
  assumes "create_image_in sha fr new_id tenant ds q c = Inr (c', img)"
  shows "image_id img = new_id" "cat_images c' = cat_images c @ [img]"
    "d \<in> set (cat_datasets c) \<Longrightarrow> \<exists>d' \<in> set (cat_datasets c'). dataset_id d' = dataset_id d \<and> dataset_tenant_id d' = dataset_tenant_id d \<and>
      dataset_source_id d' = dataset_source_id d"
proof -
  obtain k s where "add_image sha fr new_id tenant ds
      \<lparr>is_name = ic_name q, is_sha = s, is_kind = k, is_rel_path = ic_rel_path q, is_byte_size = None,
        is_width = ic_width q, is_height = ic_height q, is_exif = ic_exif q\<rparr> c = Inr (c', img)"
    using assms by (auto simp: create_image_in_def andthen_Inr)
  then obtain blobs where "image_id img = new_id"
    "c' = recompute_manifest_hash sha fr (dataset_id ds) (c\<lparr>cat_images := cat_images c @ [img], cat_blobs := blobs\<rparr>)"
    by (rule add_image_parts)
  then show "image_id img = new_id" "cat_images c' = cat_images c @ [img]"
    "d \<in> set (cat_datasets c) \<Longrightarrow> \<exists>d' \<in> set (cat_datasets c'). dataset_id d' = dataset_id d \<and> dataset_tenant_id d' = dataset_tenant_id d \<and>
      dataset_source_id d' = dataset_source_id d"
    by (simp_all add: cat_simps recompute_keeps)
qed

lemma create_images_inv:
  "catalog_inv exact sha fr c \<Longrightarrow> create_images_in sha fr ids tenant ds qs c = Inr (c', imgs) \<Longrightarrow>
   \<exists>d \<in> set (cat_datasets c). dataset_id d = dataset_id ds \<and> dataset_tenant_id d = tenant \<and> dataset_source_id d = dataset_source_id ds \<Longrightarrow>
   length ids = length qs \<Longrightarrow> distinct ids \<Longrightarrow> set ids \<inter> image_id ` set (cat_images c) = {} \<Longrightarrow> catalog_inv exact sha fr c'"
proof (induction qs arbitrary: ids c imgs)
  case (Cons q qs)
  obtain i rest_ids where ids: "ids = i # rest_ids" using Cons.prems(4) by (cases ids) auto
  obtain c1 img rest where one: "create_image_in sha fr i tenant ds q c = Inr (c1, img)"
    and more: "create_images_in sha fr rest_ids tenant ds qs c1 = Inr (c', rest)"
    using Cons.prems(2) by (auto simp: ids andthen_Inr)
  obtain d where d: "d \<in> set (cat_datasets c)" "dataset_id d = dataset_id ds" "dataset_tenant_id d = tenant" "dataset_source_id d = dataset_source_id ds"
    using Cons.prems(3) by blast
  have "catalog_inv exact sha fr c1"
    by (rule create_image_inv [OF Cons.prems(1) one d]) (use Cons.prems(6) ids in auto)
  then show ?case
    using Cons.IH [OF _ more] create_image_keeps(1,2) [OF one] create_image_keeps(3) [OF one d(1)] d Cons.prems(4-6)
    by (auto simp: ids)
qed simp

lemma pose_images_inv:
  assumes inv: "catalog_inv exact sha fr c"
    and c': "c' = c\<lparr>cat_images := map (\<lambda>j. if P j then j\<lparr>pose_prior_json := prior\<rparr> else j) (cat_images c)\<rparr>"
  shows "catalog_inv exact sha fr c'"
proof -
  let ?f = "\<lambda>j. if P j then j\<lparr>pose_prior_json := prior\<rparr> else j"
  have same: "image_id (?f j) = image_id j" "image_tenant_id (?f j) = image_tenant_id j" "image_dataset_id (?f j) = image_dataset_id j"
    "image_name (?f j) = image_name j" "content_sha (?f j) = content_sha j" "image_source_kind (?f j) = image_source_kind j"
    "rel_path (?f j) = rel_path j" for j :: image_full
    by simp_all
  have img: "images_of did c' = map ?f (images_of did c)" for did
    by (simp add: c' images_of_def filter_map o_def same)
  have "manifest_of sha fr (map ?f xs) = manifest_of sha fr xs" for xs
    by (simp add: manifest_of_def manifest_json_def sort_key_map same o_def)
  then have "\<forall>d \<in> set (cat_datasets c'). manifest_current sha fr c' d"
    using inv by (simp add: catalog_inv_def manifest_current_def img) (simp add: c')
  moreover have "references s (map ?f xs) = references s xs" for s xs
    by (simp add: references_def filter_map o_def same)
  then have "blobs_counted exact c'"
    using inv by (auto simp: catalog_inv_def books_ok_def blobs_counted_def c')
  moreover have "keys_ok c'"
    using inv by (simp add: catalog_inv_def books_ok_def keys_ok_def c' name_taken_def o_def same)
  moreover have "images_owned c'"
    using inv by (auto simp: catalog_inv_def books_ok_def images_owned_def owned_by_def c')
  moreover have "list_all placed (cat_images c')"
    using inv by (auto simp: catalog_inv_def books_ok_def placed_def list_all_iff c')
  ultimately show ?thesis using inv by (simp add: catalog_inv_def books_ok_def c')
qed

lemma bulk_pose_inv:
  "catalog_inv exact sha fr c \<Longrightarrow> bulk_set_pose_priors tenant did es c = Inr (c', n) \<Longrightarrow> catalog_inv exact sha fr c'"
proof (induction tenant did es c arbitrary: n rule: bulk_set_pose_priors.induct)
  case (2 tenant did iid prior es c)
  obtain c1 m where one: "set_pose_prior tenant iid (Some prior) c = Inr c1" and more: "bulk_set_pose_priors tenant did es c1 = Inr (c', m)"
    using 2(3) by (auto simp: andthen_Inr)
  have "catalog_inv exact sha fr c1"
    using one by (intro pose_images_inv [OF 2(2)]) (auto simp: set_pose_prior_def andthen_Inr)
  then show ?case using 2(1) more by blast
qed simp

lemma register_blob_inv:
  assumes inv: "catalog_inv exact sha fr c" shows "catalog_inv exact sha fr (register_blob s n m c)"
proof (cases "find_blob s c")
  case None
  then have new: "s \<notin> blob_sha256 ` set (cat_blobs c)" by (auto simp: find_blob_def find_None_iff)
  then have "references s (cat_images c) = 0"
    using inv by (auto simp: references_def filter_empty_conv catalog_inv_def books_ok_def blobs_counted_def)
  then show ?thesis
    using inv new None
    by (auto simp: register_blob_def catalog_inv_def books_ok_def keys_ok_def images_owned_def owned_by_def blobs_counted_def count_ok_def
        manifest_current_def images_of_def)
qed (simp add: register_blob_def inv)

text \<open>A deleted project takes its images along, but not their references.\<close>

lemma references_filter: "references s (filter P imgs) \<le> references s imgs"
  by (simp add: references_split [of s imgs P])

lemma delete_project_inv:
  assumes inv: "catalog_inv exact sha fr c" and run: "delete_project cascade tenant pid c = Inr c'"
  shows "catalog_inv False sha fr c'"
proof -
  let ?gone = "set (map dataset_id (filter (\<lambda>r. dataset_project_id r = pid) (cat_datasets c)))"
  let ?ds = "if cascade then filter (\<lambda>r. dataset_project_id r \<noteq> pid) (cat_datasets c) else cat_datasets c"
  let ?is = "if cascade then filter (\<lambda>i. image_dataset_id i \<notin> ?gone) (cat_images c) else cat_images c"
  have c': "c' = c\<lparr>cat_projects := filter (\<lambda>r. project_id r \<noteq> pid) (cat_projects c), cat_datasets := ?ds, cat_images := ?is\<rparr>"
    using run by (auto simp: delete_project_def andthen_Inr Let_def)
  have "images_owned c'"
    unfolding images_owned_def
  proof
    fix i assume i: "i \<in> set (cat_images c')"
    then have "i \<in> set (cat_images c)" by (auto simp: c' split: if_splits)
    then obtain d where "d \<in> set (cat_datasets c)" "owned_by c i d"
      using inv by (auto simp: catalog_inv_def books_ok_def images_owned_def)
    moreover from this i have "cascade \<Longrightarrow> dataset_project_id d \<noteq> pid" by (force simp: c' owned_by_def image_iff)
    ultimately show "\<exists>d \<in> set (cat_datasets c'). owned_by c' i d"
      by (auto simp: c' owned_by_def intro!: bexI [of _ d])
  qed
  moreover have "blobs_counted False c'"
    using inv order_trans [OF of_nat_mono [OF references_filter]]
    by (force simp: c' catalog_inv_def books_ok_def blobs_counted_def count_ok_def split: if_splits)
  ultimately have "books_ok False c'"
    using inv by (auto simp: c' catalog_inv_def books_ok_def keys_ok_def name_taken_subset distinct_map_filter list_all_iff)
  moreover have same: "images_of x c' = images_of x c" if "cascade \<longrightarrow> x \<notin> ?gone" for x
    using that by (auto simp: c' images_of_def intro: filter_cong)
  have "manifest_current sha fr c' d" if d: "d \<in> set (cat_datasets c')" for d
  proof -
    have "dataset_id d \<notin> ?gone" if "cascade"
      using inv d that by (auto simp: c' catalog_inv_def books_ok_def keys_ok_def distinct_map inj_on_def)
    moreover have "d \<in> set (cat_datasets c)" using d by (auto simp: c' split: if_splits)
    ultimately show ?thesis using inv same [of "dataset_id d"] by (simp add: catalog_inv_def manifest_current_def)
  qed
  ultimately show ?thesis by (simp add: catalog_inv_def)
qed

end
