(* ===== verification/Derived_Datasets.thy ===== *)
theory Derived_Datasets
  imports Catalog_Correct
begin

text \<open>
  Directories of images that a task generated become datasets: \<open>register_derived_dataset\<close> of
  \<open>services/dataset_service.py\<close>, which the dispatcher runs before it marks the task succeeded.
  What it reads of the disk is an argument: \<open>derived_root\<close> is the resolved text of a root that is
  a directory below the workspace, \<open>derived_file\<close> the hash, the size and the dimensions of a file
  that a name resolves to below it. Fresh ids are arguments.
\<close>

record derived_files =
  derived_root :: "string \<Rightarrow> string option"
  derived_file :: "string \<Rightarrow> string \<Rightarrow> (string \<times> int \<times> int option \<times> int option) option"

record derived_ids =
  di_source :: string
  di_dataset :: string
  di_images :: "string list"
  di_name :: string

fun int_or_none :: "json \<Rightarrow> int option" where
  "int_or_none (JInt i) = Some i"
| "int_or_none (JFloat (Fin r)) = (case quotient_of r of (n, m) \<Rightarrow> if m = 1 then Some n else None)"
| "int_or_none _ = None"

text \<open>\<open>_safe_relative_file\<close> of each image block, which drops those that name no file.\<close>

fun valid_images :: "derived_files \<Rightarrow> string \<Rightarrow> json list \<Rightarrow> (json dict \<times> (string \<times> int \<times> int option \<times> int option) \<times> string) list" where
  "valid_images F dir [] = []"
| "valid_images F dir (JObj item # items) =
     (case jget item ''name'' of
        JStr nm \<Rightarrow>
          (if nm = [] then valid_images F dir items
           else (case derived_file F dir nm of
             None \<Rightarrow> valid_images F dir items
           | Some f \<Rightarrow> (item, f, nm) # valid_images F dir items))
      | _ \<Rightarrow> valid_images F dir items)"
| "valid_images F dir (_ # items) = valid_images F dir items"

definition find_existing_derived_dataset :: "task_row \<Rightarrow> string \<Rightarrow> catalog \<Rightarrow> (dataset_full \<times> source_full) option" where
  "find_existing_derived_dataset t dir c =
     (let rows = filter (\<lambda>s. source_tenant_id s = tenant_id t \<and> source_kind s = ''local'' \<and> uri_or_root s = Some dir) (cat_sources c);
          made = filter (\<lambda>s. case fingerprint_json s of JObj fp \<Rightarrow> jget fp ''task_id'' = JStr (task_id t) | _ \<Rightarrow> False) rows;
          of_source = (\<lambda>s. find (\<lambda>d. dataset_tenant_id d = tenant_id t \<and> dataset_source_id d = source_id s) (cat_datasets c)) in
      case List.map_filter (\<lambda>s. map_option (\<lambda>d. (d, s)) (of_source s)) made of [] \<Rightarrow> None | p # _ \<Rightarrow> Some p)"

definition int_field :: "int option \<Rightarrow> json" where
  "int_field v = (case v of None \<Rightarrow> JNull | Some i \<Rightarrow> JInt i)"

definition image_ref_json :: "image_full \<Rightarrow> json" where
  "image_ref_json i = JObj
     [(''image_id'', JStr (image_id i)), (''name'', JStr (image_name i)), (''width'', int_field (image_width i)),
      (''height'', int_field (image_height i)), (''content_sha'', JStr (content_sha i))]"

definition derived_dataset_image_refs :: "string \<Rightarrow> string \<Rightarrow> catalog \<Rightarrow> json list" where
  "derived_dataset_image_refs tenant did c =
     map image_ref_json (filter (\<lambda>i. image_tenant_id i = tenant \<and> image_dataset_id i = did) (cat_images c))"

definition dataset_name_exists :: "string \<Rightarrow> string \<Rightarrow> string \<Rightarrow> catalog \<Rightarrow> bool" where
  "dataset_name_exists tenant pid nm c \<longleftrightarrow>
     (\<exists>d \<in> set (cat_datasets c). dataset_tenant_id d = tenant \<and> dataset_project_id d = pid \<and> dataset_name d = nm)"

definition unique_derived_dataset_name :: "string \<Rightarrow> string \<Rightarrow> string \<Rightarrow> string \<Rightarrow> string \<Rightarrow> catalog \<Rightarrow> string" where
  "unique_derived_dataset_name fresh tenant pid requested tid c =
     (let stripped = strip (take 255 requested);
          base = (if stripped = [] then ''project_images-'' @ take 8 tid else stripped);
          suffixed = (\<lambda>suffix. take (255 - length suffix) base @ suffix);
          tries = base # suffixed (''-'' @ take 8 tid) #
            map (\<lambda>i. suffixed (''-'' @ take 8 tid @ ''-'' @ str_of_nat i)) [2..<1000] in
      case find (\<lambda>nm. \<not> dataset_name_exists tenant pid nm c) tries of
        Some nm \<Rightarrow> nm
      | None \<Rightarrow> take 239 base @ ''-'' @ take 8 tid @ ''-'' @ take 6 fresh)"

text \<open>\<open>_int_or_none(item.get(k)) or metadata\<close>: a zero counts as absent.\<close>

definition dimension :: "json \<Rightarrow> int option \<Rightarrow> int option" where
  "dimension v meta = (case int_or_none v of Some i \<Rightarrow> if i = 0 then meta else Some i | None \<Rightarrow> meta)"

fun register_images ::
  "(string \<Rightarrow> string) \<Rightarrow> (rat \<Rightarrow> string) \<Rightarrow> string list \<Rightarrow> string \<Rightarrow> dataset_full \<Rightarrow>
   (json dict \<times> (string \<times> int \<times> int option \<times> int option) \<times> string) list \<Rightarrow> catalog \<Rightarrow> api_error + (catalog \<times> json list)" where
  "register_images sha fr ids tenant ds [] c = Inr (c, [])"
| "register_images sha fr ids tenant ds ((item, (h, n, w, ht), nm) # rest) c =
     andthen (add_image sha fr (hd ids) tenant ds
        \<lparr>is_name = nm, is_sha = h, is_kind = ''local'', is_rel_path = Some nm, is_byte_size = Some n,
         is_width = dimension (jget item ''width'') w, is_height = dimension (jget item ''height'') ht, is_exif = None\<rparr> c) (\<lambda>(c, i).
     andthen (register_images sha fr (tl ids) tenant ds rest c) (\<lambda>(c, refs). Inr (c, image_ref_json i # refs)))"

definition derived_request :: "(rat \<Rightarrow> string) \<Rightarrow> json dict \<Rightarrow> string \<Rightarrow> dataset_request" where
  "derived_request fr raw nm =
     (let text = (\<lambda>k default_text. case json_or (jget raw k) (JStr default_text) of JStr s \<Rightarrow> s | v \<Rightarrow> json_repr fr v) in
      \<lparr>dr_name = nm, dr_camera_model = text ''camera_model'' ''PINHOLE'', dr_intrinsics_mode = text ''intrinsics_mode'' ''per_image'',
       dr_is_spherical = truthy (jget raw ''is_spherical''),
       dr_rig_config = (case jget raw ''rig_config'' of JObj r \<Rightarrow> Some (JObj r) | _ \<Rightarrow> None), dr_respect_exif = False\<rparr>)"

text \<open>The source and the dataset of a task's images, and the name it ends up with.\<close>

definition derived_source :: "derived_ids \<Rightarrow> task_row \<Rightarrow> string \<Rightarrow> json dict \<Rightarrow> string list \<Rightarrow> source_full" where
  "derived_source D t dir raw names =
     \<lparr>source_id = di_source D, source_kind = ''local'', uri_or_root = Some dir, source_tenant_id = tenant_id t,
      fingerprint_json = JObj
        [(''kind'', JStr ''derived''), (''task_id'', JStr (task_id t)), (''job_id'', JStr (task_job_id t)),
         (''source_dataset_id'', jget raw ''source_dataset_id''), (''image_names'', JList (map JStr (sort names)))]\<rparr>"

definition derived_name :: "derived_ids \<Rightarrow> task_row \<Rightarrow> string \<Rightarrow> json dict \<Rightarrow> catalog \<Rightarrow> string" where
  "derived_name D t pid raw c =
     (let asked = (case jget raw ''name'' of JStr s \<Rightarrow> strip s | _ \<Rightarrow> []);
          nm = (if asked = [] then kind t @ ''-'' @ take 8 (task_id t) else asked) in
      strip (unique_derived_dataset_name (di_name D) (tenant_id t) pid (strip nm) (task_id t) c))"

definition register_new_dataset ::
  "(string \<Rightarrow> string) \<Rightarrow> (rat \<Rightarrow> string) \<Rightarrow> derived_ids \<Rightarrow> task_row \<Rightarrow> string \<Rightarrow> string \<Rightarrow> json dict \<Rightarrow>
   (json dict \<times> (string \<times> int \<times> int option \<times> int option) \<times> string) list \<Rightarrow> catalog \<Rightarrow> api_error + (catalog \<times> json dict)" where
  "register_new_dataset sha fr D t pid dir raw found c =
     (let src = derived_source D t dir raw (map (\<lambda>(_, _, nm). nm) found) in
      andthen (create_dataset (di_dataset D) (tenant_id t) pid (di_source D)
                (derived_request fr raw (derived_name D t pid raw c)) (c\<lparr>cat_sources := cat_sources c @ [src]\<rparr>)) (\<lambda>(c, ds).
      andthen (register_images sha fr (di_images D) (tenant_id t) ds found c) (\<lambda>(c, refs).
      Inr (c, put_all [(''name'', JStr (dataset_name ds)), (''dataset_id'', JStr (dataset_id ds)), (''project_id'', JStr pid),
                       (''source_id'', JStr (di_source D)), (''registered_images'', JList refs)] raw))))"

text \<open>
  The whole operation on the outputs of a task of a job in \<open>project\<close>. A block that names no
  directory of the workspace or no image file is left alone, a task that ran before gets its
  dataset back, and otherwise a new one is registered.
\<close>

definition register_derived_dataset ::
  "(string \<Rightarrow> string) \<Rightarrow> (rat \<Rightarrow> string) \<Rightarrow> derived_files \<Rightarrow> derived_ids \<Rightarrow> task_row \<Rightarrow> string option \<Rightarrow> json dict \<Rightarrow> catalog \<Rightarrow>
   api_error + (catalog \<times> json dict)" where
  "register_derived_dataset sha fr F D t project outputs c =
     (case jget outputs ''derived_dataset'' of
        JObj raw \<Rightarrow>
          (let dir = (case jget raw ''root'' of JStr s \<Rightarrow> if s = [] then None else derived_root F s | _ \<Rightarrow> None) in
           case (dir, project) of
             (Some dir, Some pid) \<Rightarrow>
               (let found = valid_images F dir (case jget raw ''images'' of JList is \<Rightarrow> is | _ \<Rightarrow> []) in
                if found = [] then Inr (c, outputs)
                else (case find_existing_derived_dataset t dir c of
                  Some (ds, src) \<Rightarrow>
                    Inr (c, AList.update ''derived_dataset'' (JObj (put_all
                      [(''name'', JStr (dataset_name ds)), (''dataset_id'', JStr (dataset_id ds)),
                       (''project_id'', JStr (dataset_project_id ds)), (''source_id'', JStr (source_id src)),
                       (''registered_images'', JList (derived_dataset_image_refs (tenant_id t) (dataset_id ds) c)),
                       (''reused'', JBool True)] raw)) outputs)
                | None \<Rightarrow>
                    andthen (register_new_dataset sha fr D t pid dir raw found c) (\<lambda>(c, raw).
                    Inr (c, AList.update ''derived_dataset'' (JObj raw) outputs))))
           | _ \<Rightarrow> Inr (c, outputs))
      | _ \<Rightarrow> Inr (c, outputs))"

section \<open>A task is registered once\<close>

lemma add_image_keeps:
  assumes "add_image sha fr new_id tenant ds q c = Inr (c', img)"
  shows "cat_sources c' = cat_sources c" "cat_images c' = cat_images c @ [img]" "image_id img = new_id"
    "\<exists>h. cat_datasets c' = map (\<lambda>d. if dataset_id d = dataset_id ds then d\<lparr>manifest_hash := h\<rparr> else d) (cat_datasets c)"
proof -
  obtain blobs where img: "image_id img = new_id"
    and c': "c' = recompute_manifest_hash sha fr (dataset_id ds) (c\<lparr>cat_images := cat_images c @ [img], cat_blobs := blobs\<rparr>)"
    using assms by (rule add_image_parts)
  show "cat_sources c' = cat_sources c" "cat_images c' = cat_images c @ [img]" "image_id img = new_id"
    using img by (simp_all add: c' cat_simps)
  show "\<exists>h. cat_datasets c' = map (\<lambda>d. if dataset_id d = dataset_id ds then d\<lparr>manifest_hash := h\<rparr> else d) (cat_datasets c)"
    unfolding c' recompute_datasets by auto
qed

definition dataset_key :: "dataset_full \<Rightarrow> string \<times> string \<times> string" where
  "dataset_key d = (dataset_id d, dataset_tenant_id d, dataset_source_id d)"

lemma add_image_keys:
  assumes "add_image sha fr new_id tenant ds q c = Inr (c', img)"
  shows "map dataset_key (cat_datasets c') = map dataset_key (cat_datasets c)"
proof -
  obtain h where "cat_datasets c' = map (\<lambda>d. if dataset_id d = dataset_id ds then d\<lparr>manifest_hash := h\<rparr> else d) (cat_datasets c)"
    using add_image_keeps(4) [OF assms] by blast
  then show ?thesis by (simp add: dataset_key_def)
qed

lemma register_images_keeps:
  "register_images sha fr ids tenant ds found c = Inr (c', refs) \<Longrightarrow>
   cat_sources c' = cat_sources c \<and> map dataset_key (cat_datasets c') = map dataset_key (cat_datasets c)"
proof (induction sha fr ids tenant ds found c arbitrary: refs rule: register_images.induct)
  case (2 sha fr ids tenant ds item h n w ht nm rest c)
  obtain c1 i refs1 where one: "add_image sha fr (hd ids) tenant ds
        \<lparr>is_name = nm, is_sha = h, is_kind = ''local'', is_rel_path = Some nm, is_byte_size = Some n,
         is_width = dimension (jget item ''width'') w, is_height = dimension (jget item ''height'') ht, is_exif = None\<rparr> c = Inr (c1, i)"
    and rest: "register_images sha fr (tl ids) tenant ds rest c1 = Inr (c', refs1)"
    using 2(2) by (auto simp: andthen_Inr)
  show ?case using 2(1) [OF rest] add_image_keeps(1) [OF one] add_image_keys [OF one] by simp
qed simp

text \<open>The dataset of a source is found by its key.\<close>

lemma find_dataset_of_source:
  "map_option dataset_key (find (\<lambda>d. dataset_tenant_id d = tenant \<and> dataset_source_id d = sid) ds) =
   find (\<lambda>k. fst (snd k) = tenant \<and> snd (snd k) = sid) (map dataset_key ds)"
  by (induction ds) (auto simp: dataset_key_def)

definition dataset_of :: "task_row \<Rightarrow> catalog \<Rightarrow> source_full \<Rightarrow> (string \<times> string \<times> string) option" where
  "dataset_of t c s = find (\<lambda>k. fst (snd k) = tenant_id t \<and> snd (snd k) = source_id s) (map dataset_key (cat_datasets c))"

definition made_by :: "task_row \<Rightarrow> string \<Rightarrow> catalog \<Rightarrow> source_full list" where
  "made_by t dir c =
     filter (\<lambda>s. case fingerprint_json s of JObj fp \<Rightarrow> jget fp ''task_id'' = JStr (task_id t) | _ \<Rightarrow> False)
       (filter (\<lambda>s. source_tenant_id s = tenant_id t \<and> source_kind s = ''local'' \<and> uri_or_root s = Some dir) (cat_sources c))"

lemma map_filter_empty: "List.map_filter g xs = [] \<longleftrightarrow> (\<forall>x \<in> set xs. g x = None)"
  by (induction xs) (auto simp: map_filter_simps split: option.splits)

lemma map_filter_last: "\<forall>x \<in> set pre. g x = None \<Longrightarrow> g s = Some p \<Longrightarrow> List.map_filter g (pre @ [s]) = [p]"
  by (induction pre) (simp_all add: map_filter_simps)

lemma dataset_of_none:
  "find (\<lambda>d. dataset_tenant_id d = tenant_id t \<and> dataset_source_id d = source_id s) (cat_datasets c) = None \<longleftrightarrow> dataset_of t c s = None"
  unfolding dataset_of_def find_dataset_of_source [symmetric] by simp

lemma find_existing_none:
  "find_existing_derived_dataset t dir c = None \<longleftrightarrow> (\<forall>s \<in> set (made_by t dir c). dataset_of t c s = None)"
proof -
  have "find_existing_derived_dataset t dir c = None \<longleftrightarrow>
      List.map_filter (\<lambda>s. map_option (\<lambda>d. (d, s)) (find (\<lambda>d. dataset_tenant_id d = tenant_id t \<and> dataset_source_id d = source_id s) (cat_datasets c)))
        (made_by t dir c) = []"
    by (simp add: find_existing_derived_dataset_def made_by_def split: list.splits)
  then show ?thesis by (simp add: map_filter_empty dataset_of_none)
qed

lemma find_existing_last:
  assumes "made_by t dir c = pre @ [s]" and "\<forall>x \<in> set pre. dataset_of t c x = None" and "dataset_of t c s = Some k"
  shows "\<exists>d. find_existing_derived_dataset t dir c = Some (d, s) \<and> dataset_key d = k"
proof -
  let ?g = "\<lambda>s. map_option (\<lambda>d. (d, s)) (find (\<lambda>d. dataset_tenant_id d = tenant_id t \<and> dataset_source_id d = source_id s) (cat_datasets c))"
  obtain d where d: "find (\<lambda>d. dataset_tenant_id d = tenant_id t \<and> dataset_source_id d = source_id s) (cat_datasets c) = Some d" "dataset_key d = k"
    using assms(3) unfolding dataset_of_def find_dataset_of_source [symmetric] by auto
  have "List.map_filter ?g (made_by t dir c) = [(d, s)]"
    using map_filter_last [of pre ?g s "(d, s)"] assms(1,2) d(1) by (simp add: dataset_of_none)
  then show ?thesis using d(2) by (simp add: find_existing_derived_dataset_def made_by_def)
qed

lemma register_new_parts:
  assumes "register_new_dataset sha fr D t pid dir raw found c = Inr (c', raw')"
  obtains ds refs where "dataset_key ds = (di_dataset D, tenant_id t, di_source D)"
    "cat_sources c' = cat_sources c @ [derived_source D t dir raw (map (\<lambda>(_, _, nm). nm) found)]"
    "map dataset_key (cat_datasets c') = map dataset_key (cat_datasets c) @ [dataset_key ds]"
    "raw' = put_all [(''name'', JStr (dataset_name ds)), (''dataset_id'', JStr (di_dataset D)), (''project_id'', JStr pid),
       (''source_id'', JStr (di_source D)), (''registered_images'', JList refs)] raw"
proof -
  let ?c = "c\<lparr>cat_sources := cat_sources c @ [derived_source D t dir raw (map (\<lambda>(_, _, nm). nm) found)]\<rparr>"
  obtain c1 ds refs where ds: "create_dataset (di_dataset D) (tenant_id t) pid (di_source D) (derived_request fr raw (derived_name D t pid raw c)) ?c = Inr (c1, ds)"
    and imgs: "register_images sha fr (di_images D) (tenant_id t) ds found c1 = Inr (c', refs)"
    and raw': "raw' = put_all [(''name'', JStr (dataset_name ds)), (''dataset_id'', JStr (dataset_id ds)), (''project_id'', JStr pid),
       (''source_id'', JStr (di_source D)), (''registered_images'', JList refs)] raw"
    using assms by (auto simp: register_new_dataset_def Let_def andthen_Inr)
  have "dataset_key ds = (di_dataset D, tenant_id t, di_source D)" "c1 = ?c\<lparr>cat_datasets := cat_datasets c @ [ds]\<rparr>"
    using ds by (auto simp: create_dataset_def raising_def Let_def dataset_key_def split: if_splits)
  then show thesis
    using that [of ds refs] register_images_keeps [OF imgs] raw' by (simp add: dataset_key_def)
qed

lemma find_snoc: "find P (xs @ [y]) = (case find P xs of Some x \<Rightarrow> Some x | None \<Rightarrow> if P y then Some y else None)"
  by (induction xs) auto

lemma register_new_found:
  assumes run: "register_new_dataset sha fr D t pid dir raw found c = Inr (c', raw')"
    and new: "find_existing_derived_dataset t dir c = None"
    and fresh: "di_source D \<notin> source_id ` set (cat_sources c)" "di_source D \<notin> dataset_source_id ` set (cat_datasets c)"
  shows "\<exists>d s. find_existing_derived_dataset t dir c' = Some (d, s) \<and> dataset_id d = di_dataset D"
proof -
  let ?s = "derived_source D t dir raw (map (\<lambda>(_, _, nm). nm) found)"
  obtain ds where ds: "dataset_key ds = (di_dataset D, tenant_id t, di_source D)"
    and src: "cat_sources c' = cat_sources c @ [?s]"
    and keys: "map dataset_key (cat_datasets c') = map dataset_key (cat_datasets c) @ [dataset_key ds]"
    using register_new_parts [OF run] by metis
  have made: "made_by t dir c' = made_by t dir c @ [?s]"
    by (simp add: made_by_def src derived_source_def jget_def)
  have "dataset_of t c' x = None" if "x \<in> set (made_by t dir c)" for x
  proof -
    have "x \<in> set (cat_sources c)" using that by (simp add: made_by_def)
    then have "source_id x \<noteq> di_source D" using fresh(1) by (metis imageI)
    then show ?thesis using that new by (simp add: find_existing_none dataset_of_def keys ds find_snoc)
  qed
  moreover have "dataset_of t c' ?s = Some (di_dataset D, tenant_id t, di_source D)"
  proof -
    have "find (\<lambda>k. fst (snd k) = tenant_id t \<and> snd (snd k) = di_source D) (map dataset_key (cat_datasets c)) = None"
      using fresh(2) by (force simp: find_None_iff dataset_key_def)
    then show ?thesis by (simp add: dataset_of_def keys ds find_snoc derived_source_def)
  qed
  ultimately show ?thesis using find_existing_last [OF made] by (force simp: dataset_key_def)
qed

definition registered_as :: "json dict \<Rightarrow> json" where
  "registered_as outputs = (case jget outputs ''derived_dataset'' of JObj raw \<Rightarrow> jget raw ''dataset_id'' | _ \<Rightarrow> JNull)"

lemma registered_as_put:
  "distinct (keys new) \<Longrightarrow> map_of new ''dataset_id'' = Some v \<Longrightarrow>
   registered_as (AList.update ''derived_dataset'' (JObj (put_all new raw)) outputs) = v"
  by (simp add: registered_as_def jget_def update_conv' map_of_put_all)

lemma registered_as_new:
  "registered_as (AList.update ''derived_dataset'' (JObj (put_all [(''name'', a), (''dataset_id'', v), (''project_id'', b),
     (''source_id'', e), (''registered_images'', f)] raw)) outputs) = v"
  by (rule registered_as_put) (simp_all add: keys_def)

lemma register_derived_again:
  assumes run: "register_derived_dataset sha fr F D t project outputs c = Inr (c', out)"
    and fresh: "di_source D \<notin> source_id ` set (cat_sources c)" "di_source D \<notin> dataset_source_id ` set (cat_datasets c)"
  shows "\<exists>out'. register_derived_dataset sha fr F D' t project outputs c' = Inr (c', out') \<and> registered_as out' = registered_as out"
proof (cases "\<exists>raw dir pid. jget outputs ''derived_dataset'' = JObj raw \<and> project = Some pid \<and>
    (case jget raw ''root'' of JStr s \<Rightarrow> if s = [] then None else derived_root F s | _ \<Rightarrow> None) = Some dir \<and>
    valid_images F dir (case jget raw ''images'' of JList is \<Rightarrow> is | _ \<Rightarrow> []) \<noteq> []")
  case False
  have "register_derived_dataset sha fr F X t project outputs x = Inr (x, outputs)" for X x
    using False by (auto simp: register_derived_dataset_def Let_def split: json.splits option.splits cong: json.case_cong)
  then show ?thesis using run by simp
next
  case True
  then obtain raw dir pid where block: "jget outputs ''derived_dataset'' = JObj raw" "project = Some pid"
      "(case jget raw ''root'' of JStr s \<Rightarrow> if s = [] then None else derived_root F s | _ \<Rightarrow> None) = Some dir"
    and found: "valid_images F dir (case jget raw ''images'' of JList is \<Rightarrow> is | _ \<Rightarrow> []) \<noteq> []"
    by blast
  let ?found = "valid_images F dir (case jget raw ''images'' of JList is \<Rightarrow> is | _ \<Rightarrow> [])"
  have again: "\<exists>out'. register_derived_dataset sha fr F X t project outputs x = Inr (x, out') \<and> registered_as out' = JStr (dataset_id d)"
    if "find_existing_derived_dataset t dir x = Some (d, s)" for X x d s
    using that found by (simp add: register_derived_dataset_def block) (rule registered_as_put; simp add: keys_def)
  show ?thesis
  proof (cases "find_existing_derived_dataset t dir c")
    case None
    then obtain raw' where new: "register_new_dataset sha fr D t pid dir raw ?found c = Inr (c', raw')"
      and out: "out = AList.update ''derived_dataset'' (JObj raw') outputs"
      using run found by (auto simp: register_derived_dataset_def block andthen_Inr)
    have "registered_as out = JStr (di_dataset D)"
      using register_new_parts [OF new] by (metis (no_types, lifting) out registered_as_new)
    then show ?thesis using register_new_found [OF new None fresh] again by metis
  next
    case (Some p)
    obtain d s where p: "find_existing_derived_dataset t dir c = Some (d, s)" using Some by (cases p) auto
    then show ?thesis using again [OF p] again [OF p, of D] run by (auto simp: run)
  qed
qed

text \<open>
  C19. Registering the images of a task a second time, after a retry say, changes nothing: the
  catalog stays as the first run left it and the outputs name the same dataset. That the second
  run finds the same files is all that is asked of the disk, and of the ids that the first
  run's source is new.
\<close>

theorem derived_datasets_are_registered_once:
  assumes "register_derived_dataset sha fr F D t project outputs c = Inr (c', out)"
    and "di_source D \<notin> source_id ` set (cat_sources c)" and "di_source D \<notin> dataset_source_id ` set (cat_datasets c)"
  shows "\<exists>out'. register_derived_dataset sha fr F D' t project outputs c' = Inr (c', out') \<and> registered_as out' = registered_as out"
  by (rule register_derived_again [OF assms])

definition derived_demo_files :: derived_files where
  "derived_demo_files = \<lparr>derived_root = (\<lambda>s. Some s), derived_file = (\<lambda>_ _. Some (''h'', 1, Some 2, None))\<rparr>"

definition derived_demo_ids :: derived_ids where
  "derived_demo_ids = \<lparr>di_source = ''s'', di_dataset = ''d'', di_images = [''i''], di_name = ''n''\<rparr>"

definition derived_demo_task :: task_row where
  "derived_demo_task =
     \<lparr>task_id = ''t'', tenant_id = ''u'', task_job_id = ''j'', kind = ''project_images'', inputs_hash = [], params_hash = [],
      runtime_version_id = [], task_cache_key = [], depends_on_json = None, gpu_required = False, status = Running,
      worker_id = None, lease_expires_at = None, task_state_json = None, outputs_ref_json = None, error_class = None, error_message = None,
      started_at = None, finished_at = None\<rparr>"

definition empty_catalog :: catalog where
  "empty_catalog = \<lparr>cat_projects = [], cat_sources = [], cat_datasets = [], cat_images = [], cat_blobs = []\<rparr>"

definition derived_demo_raw :: "json dict" where
  "derived_demo_raw =
     [(''root'', JStr ''/w/out''), (''name'', JStr ''faces''), (''images'', JList [JObj [(''name'', JStr ''a.png'')]])]"

definition derived_demo_outputs :: "json dict" where
  "derived_demo_outputs = [(''derived_dataset'', JObj derived_demo_raw)]"

definition derived_demo_run :: "catalog \<Rightarrow> api_error + (catalog \<times> json dict)" where
  "derived_demo_run = register_derived_dataset (\<lambda>_. ''m'') (\<lambda>_. ''0'') derived_demo_files derived_demo_ids derived_demo_task
     (Some ''p'') derived_demo_outputs"

lemma derived_demo_reads:
  "jget derived_demo_outputs ''derived_dataset'' = JObj derived_demo_raw" "jget derived_demo_raw ''root'' = JStr ''/w/out''"
  "jget derived_demo_raw ''images'' = JList [JObj [(''name'', JStr ''a.png'')]]" "derived_root derived_demo_files s = Some s"
  "valid_images derived_demo_files ''/w/out'' [JObj [(''name'', JStr ''a.png'')]] =
     [([(''name'', JStr ''a.png'')], (''h'', 1, Some 2, None), ''a.png'')]"
  by (simp_all add: derived_demo_outputs_def derived_demo_raw_def jget_def derived_demo_files_def)

lemma safe_a: "validate_safe_relative_path f ''a.png'' = Inr ''a.png''"
proof -
  have "safe_path ''a.png''" by code_simp
  then show ?thesis by (simp add: safe_iff)
qed

lemma derived_demo_runs: "\<exists>c out. derived_demo_run empty_catalog = Inr (c, out)"
  by (simp add: derived_demo_run_def register_derived_dataset_def derived_demo_reads find_existing_derived_dataset_def empty_catalog_def
      register_new_dataset_def create_dataset_def name_taken_def add_image_def safe_a find_source_def derived_source_def
      image_location_def List.map_filter_def Let_def derived_demo_ids_def del: valid_images.simps)

lemma derived_datasets_are_registered_once_witness:
  "\<exists>c out out'. derived_demo_run empty_catalog = Inr (c, out) \<and> derived_demo_run c = Inr (c, out') \<and>
     registered_as out' = registered_as out"
proof -
  obtain c out where run: "derived_demo_run empty_catalog = Inr (c, out)"
    using derived_demo_runs by blast
  then show ?thesis
    using derived_datasets_are_registered_once [OF run [unfolded derived_demo_run_def], of derived_demo_ids]
    by (auto simp: empty_catalog_def derived_demo_run_def)
qed

end
