(* ===== verification/Catalog_Reach.thy ===== *)
theory Catalog_Reach
  imports Derived_Datasets
begin

text \<open>
  Every catalog that the operations reach keeps its books, and what the stages take from it is
  there. The flag of the step relation says whether no project was deleted so far.
\<close>

section \<open>Derived datasets\<close>

lemma register_images_inv:
  "catalog_inv exact sha fr c \<Longrightarrow> register_images sha fr ids tenant ds found c = Inr (c', refs) \<Longrightarrow>
   dataset_key ds \<in> dataset_key ` set (cat_datasets c) \<Longrightarrow> dataset_tenant_id ds = tenant \<Longrightarrow> length ids = length found \<Longrightarrow>
   distinct ids \<Longrightarrow> set ids \<inter> image_id ` set (cat_images c) = {} \<Longrightarrow> catalog_inv exact sha fr c'"
proof (induction sha fr ids tenant ds found c arbitrary: refs rule: register_images.induct)
  case (2 sha fr ids tenant ds item h n w ht nm rest c)
  obtain i rest_ids where ids: "ids = i # rest_ids" using 2(6) by (cases ids) auto
  obtain c1 img refs1 where one: "add_image sha fr i tenant ds
        \<lparr>is_name = nm, is_sha = h, is_kind = ''local'', is_rel_path = Some nm, is_byte_size = Some n,
         is_width = dimension (jget item ''width'') w, is_height = dimension (jget item ''height'') ht, is_exif = None\<rparr> c = Inr (c1, img)"
    and rest: "register_images sha fr rest_ids tenant ds rest c1 = Inr (c', refs1)"
    using 2(3) by (auto simp: ids andthen_Inr)
  obtain d where d: "d \<in> set (cat_datasets c)" "dataset_key d = dataset_key ds" using 2(4) by force
  have "catalog_inv exact sha fr c1"
    by (rule add_image_inv [OF 2(2) one d(1)]) (use d(2) 2(5,8) in \<open>auto simp: dataset_key_def ids\<close>)
  moreover have "set (map dataset_key (cat_datasets c1)) = set (map dataset_key (cat_datasets c))"
    using add_image_keys [OF one] by (rule arg_cong)
  then have "dataset_key ds \<in> dataset_key ` set (cat_datasets c1)" using 2(4) by simp
  ultimately show ?case
    using 2(1) [of c1 refs1] rest 2(5-8) add_image_keeps(2,3) [OF one] by (auto simp: ids)
qed simp

definition derived_rooted :: "derived_files \<Rightarrow> bool" where
  "derived_rooted F \<longleftrightarrow> (\<nexists>s. derived_root F s = Some [])"

text \<open>The ids of a registration: one for each image that is found, and all of them new.\<close>

definition derived_ids_ok :: "derived_files \<Rightarrow> derived_ids \<Rightarrow> json dict \<Rightarrow> catalog \<Rightarrow> bool" where
  "derived_ids_ok F D outputs c \<longleftrightarrow>
     di_source D \<notin> source_id ` set (cat_sources c) \<and> di_dataset D \<notin> dataset_id ` set (cat_datasets c) \<and> distinct (di_images D) \<and>
     set (di_images D) \<inter> image_id ` set (cat_images c) = {} \<and>
     (case jget outputs ''derived_dataset'' of
        JObj raw \<Rightarrow>
          (case jget raw ''root'' of
             JStr s \<Rightarrow>
               (case derived_root F s of
                  Some dir \<Rightarrow> length (di_images D) = length (valid_images F dir (case jget raw ''images'' of JList is \<Rightarrow> is | _ \<Rightarrow> []))
                | None \<Rightarrow> True)
           | _ \<Rightarrow> True)
      | _ \<Rightarrow> True)"

lemma add_source_inv:
  assumes inv: "catalog_inv exact sha fr c" and fresh: "source_id s \<notin> source_id ` set (cat_sources c)" and s: "rooted s"
  shows "catalog_inv exact sha fr (c\<lparr>cat_sources := cat_sources c @ [s]\<rparr>)"
proof -
  have "images_owned (c\<lparr>cat_sources := cat_sources c @ [s]\<rparr>)"
    using inv by (fastforce simp: catalog_inv_def books_ok_def images_owned_def owned_by_def)
  then show ?thesis
    using inv fresh s by (simp add: catalog_inv_def books_ok_def keys_ok_def blobs_counted_def manifest_current_def images_of_def)
qed

lemma register_new_inv:
  assumes inv: "catalog_inv exact sha fr c" and run: "register_new_dataset sha fr D t pid dir raw found c = Inr (c', raw')"
    and fresh: "di_source D \<notin> source_id ` set (cat_sources c)" "di_dataset D \<notin> dataset_id ` set (cat_datasets c)"
      "distinct (di_images D)" "set (di_images D) \<inter> image_id ` set (cat_images c) = {}" "length (di_images D) = length found"
    and dir: "dir \<noteq> []"
  shows "catalog_inv exact sha fr c'"
proof -
  let ?s = "derived_source D t dir raw (map (\<lambda>(_, _, nm). nm) found)"
  let ?c = "c\<lparr>cat_sources := cat_sources c @ [?s]\<rparr>"
  obtain c1 ds refs where ds: "create_dataset (di_dataset D) (tenant_id t) pid (di_source D) (derived_request fr raw (derived_name D t pid raw c)) ?c = Inr (c1, ds)"
    and imgs: "register_images sha fr (di_images D) (tenant_id t) ds found c1 = Inr (c', refs)"
    using run by (auto simp: register_new_dataset_def Let_def andthen_Inr)
  have "catalog_inv exact sha fr ?c"
    using dir fresh(1) by (intro add_source_inv [OF inv]) (simp_all add: derived_source_def rooted_def)
  then have "catalog_inv exact sha fr c1" by (rule create_dataset_inv [OF _ ds]) (simp add: fresh)
  moreover have "c1 = ?c\<lparr>cat_datasets := cat_datasets c @ [ds]\<rparr>" "dataset_tenant_id ds = tenant_id t"
    using ds by (auto simp: create_dataset_def raising_def Let_def split: if_splits)
  ultimately show ?thesis using register_images_inv [OF _ imgs] fresh by simp
qed

lemma register_derived_inv:
  assumes inv: "catalog_inv exact sha fr c" and run: "register_derived_dataset sha fr F D t project outputs c = Inr (c', out)"
    and F: "derived_rooted F" and ids: "derived_ids_ok F D outputs c"
  shows "catalog_inv exact sha fr c'"
proof (cases "c' = c")
  case False
  then obtain raw s dir pid raw' where block: "jget outputs ''derived_dataset'' = JObj raw" "jget raw ''root'' = JStr s" "derived_root F s = Some dir"
    and new: "register_new_dataset sha fr D t pid dir raw (valid_images F dir (case jget raw ''images'' of JList is \<Rightarrow> is | _ \<Rightarrow> [])) c = Inr (c', raw')"
    using run by (auto simp: register_derived_dataset_def Let_def andthen_Inr split: json.splits option.splits if_splits cong: json.case_cong)
  have "dir \<noteq> []" using F block(3) by (auto simp: derived_rooted_def)
  then show ?thesis
    using ids register_new_inv [OF inv new] by (simp add: derived_ids_ok_def block)
qed (simp add: inv)

section \<open>Reachable catalogs\<close>

text \<open>The flag is True as long as no project was deleted.\<close>

inductive catalog_reachable :: "source_probe \<Rightarrow> (string \<Rightarrow> string) \<Rightarrow> (rat \<Rightarrow> string) \<Rightarrow> bool \<Rightarrow> catalog \<Rightarrow> bool"
  for P sha fr where
  start: "catalog_reachable P sha fr True empty_catalog"
| project: "catalog_reachable P sha fr exact c \<Longrightarrow> create_project new_id tenant nm descr c = Inr (c', p) \<Longrightarrow> catalog_reachable P sha fr exact c'"
| patch_project: "catalog_reachable P sha fr exact c \<Longrightarrow> patch_project tenant pid updates c = Inr (c', p) \<Longrightarrow> catalog_reachable P sha fr exact c'"
| drop_project: "catalog_reachable P sha fr exact c \<Longrightarrow> delete_project cascade tenant pid c = Inr c' \<Longrightarrow> catalog_reachable P sha fr False c'"
| blob: "catalog_reachable P sha fr exact c \<Longrightarrow> catalog_reachable P sha fr exact (register_blob s n m c)"
| dataset: "catalog_reachable P sha fr exact c \<Longrightarrow> create_dataset_route P new_sid new_did tenant pid spec q c = Inr (c', d) \<Longrightarrow>
    new_sid \<notin> source_id ` set (cat_sources c) \<Longrightarrow> new_did \<notin> dataset_id ` set (cat_datasets c) \<Longrightarrow> catalog_reachable P sha fr exact c'"
| patch_dataset: "catalog_reachable P sha fr exact c \<Longrightarrow> patch_dataset tenant did updates c = Inr (c', d) \<Longrightarrow> catalog_reachable P sha fr exact c'"
| drop_dataset: "catalog_reachable P sha fr exact c \<Longrightarrow> delete_dataset tenant did c = Inr c' \<Longrightarrow> catalog_reachable P sha fr exact c'"
| derived: "catalog_reachable P sha fr exact c \<Longrightarrow> register_derived_dataset sha fr F D t project outputs c = Inr (c', out) \<Longrightarrow>
    derived_rooted F \<Longrightarrow> derived_ids_ok F D outputs c \<Longrightarrow> catalog_reachable P sha fr exact c'"
| image: "catalog_reachable P sha fr exact c \<Longrightarrow> create_image_route sha fr new_id tenant did r c = Inr (c', i) \<Longrightarrow>
    new_id \<notin> image_id ` set (cat_images c) \<Longrightarrow> catalog_reachable P sha fr exact c'"
| images: "catalog_reachable P sha fr exact c \<Longrightarrow> batch_create_images sha fr ids tenant did qs c = Inr (c', imgs) \<Longrightarrow>
    length ids = length qs \<Longrightarrow> distinct ids \<Longrightarrow> set ids \<inter> image_id ` set (cat_images c) = {} \<Longrightarrow> catalog_reachable P sha fr exact c'"
| poses: "catalog_reachable P sha fr exact c \<Longrightarrow> bulk_set_pose_priors tenant did es c = Inr (c', n) \<Longrightarrow> catalog_reachable P sha fr exact c'"
| drop_image: "catalog_reachable P sha fr exact c \<Longrightarrow> delete_image sha fr tenant did nm c = Inr c' \<Longrightarrow> catalog_reachable P sha fr exact c'"
| drop_image_id: "catalog_reachable P sha fr exact c \<Longrightarrow> delete_image_by_id sha fr tenant iid c = Inr c' \<Longrightarrow> catalog_reachable P sha fr exact c'"

lemma only_projects_inv:
  "catalog_inv exact sha fr c \<Longrightarrow> c' = c\<lparr>cat_projects := ps\<rparr> \<Longrightarrow> catalog_inv exact sha fr c'"
  by (simp add: catalog_inv_def books_ok_def keys_ok_def images_owned_def owned_by_def blobs_counted_def manifest_current_def images_of_def)

lemma found_dataset:
  "find_dataset tenant did project c = Inr d \<Longrightarrow> d \<in> set (cat_datasets c) \<and> dataset_tenant_id d = tenant \<and> dataset_id d = did"
  by (auto simp: find_dataset_def raising_def split: option.splits if_splits dest: find_member)

lemma found_image: "find P (cat_images c) = Some i \<Longrightarrow> catalog_inv exact sha fr c \<Longrightarrow> catalog_inv exact sha fr (delete_image_row sha fr i c)"
  by (rule delete_image_row_inv) (auto dest: find_member)

lemma catalog_reachable_inv:
  assumes P: "probe_rooted P"
  shows "catalog_reachable P sha fr exact c \<Longrightarrow> catalog_inv exact sha fr c"
proof (induction exact c rule: catalog_reachable.induct)
  case start
  show ?case
    by (simp add: empty_catalog_def catalog_inv_def books_ok_def keys_ok_def images_owned_def blobs_counted_def name_taken_def)
next
  case (project exact c new_id tenant nm descr c' p)
  obtain ps where "c' = c\<lparr>cat_projects := ps\<rparr>"
    using project.hyps(2) by (auto simp: create_project_def raising_def Let_def split: if_splits)
  then show ?case using project.IH only_projects_inv by metis
next
  case (patch_project exact c tenant pid updates c' p)
  obtain ps where "c' = c\<lparr>cat_projects := ps\<rparr>"
    using patch_project.hyps(2) by (auto simp: patch_project_def andthen_Inr raising_def Let_def split: option.splits if_splits)
  then show ?case using patch_project.IH only_projects_inv by metis
next
  case (dataset exact c new_sid new_did tenant pid spec q c' d)
  obtain c1 s where s: "create_image_source P new_sid tenant spec c = Inr (c1, s)" and d: "create_dataset new_did tenant pid (source_id s) q c1 = Inr (c', d)"
    using dataset.hyps(2) by (auto simp: create_dataset_route_def andthen_Inr)
  from create_source_inv [OF dataset.IH P s dataset.hyps(3)] have "catalog_inv exact sha fr c1" "cat_datasets c1 = cat_datasets c" by simp_all
  then show ?case using create_dataset_inv [OF _ d] dataset.hyps(4) by simp
next
  case (image exact c new_id tenant did r c' i)
  obtain ds where ds: "find_dataset tenant did None c = Inr ds" "create_image_in sha fr new_id tenant ds r c = Inr (c', i)"
    using image.hyps(2) by (auto simp: create_image_route_def andthen_Inr)
  show ?case using create_image_inv [OF image.IH ds(2), of ds] found_dataset [OF ds(1)] image.hyps(3) by simp
next
  case (images exact c ids tenant did qs c' imgs)
  obtain ds where ds: "find_dataset tenant did None c = Inr ds" "create_images_in sha fr ids tenant ds qs c = Inr (c', imgs)"
    using images.hyps(2) by (auto simp: batch_create_images_def andthen_Inr raising_def split: if_splits)
  show ?case using create_images_inv [OF images.IH ds(2)] found_dataset [OF ds(1)] images.hyps(3-5) by blast
next
  case (drop_image exact c tenant did nm c')
  then show ?case by (auto simp: delete_image_def raising_def split: option.splits intro: found_image)
next
  case (drop_image_id exact c tenant iid c')
  then show ?case by (auto simp: delete_image_by_id_def get_image_def andthen_Inr raising_def split: option.splits intro: found_image)
qed (auto intro: register_blob_inv patch_dataset_inv delete_dataset_inv register_derived_inv bulk_pose_inv delete_project_inv)

end
