(* ===== verification/Catalog_Promises.thy ===== *)
theory Catalog_Promises
  imports Catalog_Reach
begin

text \<open>
  What the catalog promises to its users: references that are never undercounted, manifests that
  stand for the contents of a dataset, datasets that the stages can materialize. And what it
  does not: a deleted project keeps its blobs referenced for ever, and the manifest of images
  registered by path does not depend on the files.
\<close>

section \<open>References\<close>

lemma reachable_counts:
  assumes "probe_rooted P" and "catalog_reachable P sha fr exact c" and "b \<in> set (cat_blobs c)"
  shows "count_ok exact (references (blob_sha256 b) (cat_images c)) (blob_refcount b)"
  using catalog_reachable_inv [OF assms(1,2)] assms(3) by (simp add: catalog_inv_def books_ok_def blobs_counted_def)

text \<open>
  C9. In every catalog that projects, datasets, uploads, images, derived datasets and deletions
  lead to, the reference count of a blob is never below the number of uploaded images that refer
  to it, and it is exactly that number as long as no project was deleted. The listing of a local
  directory is assumed to report a root that is not empty.
\<close>

theorem blobs_are_never_undercounted:
  assumes "probe_rooted P" and "catalog_reachable P sha fr exact c" and "b \<in> set (cat_blobs c)"
  shows "int (references (blob_sha256 b) (cat_images c)) \<le> blob_refcount b \<and>
    (\<not> exact \<or> blob_refcount b = int (references (blob_sha256 b) (cat_images c)))"
  using reachable_counts [OF assms] by (auto simp: count_ok_def split: if_splits)

section \<open>Manifests\<close>

definition contents :: "catalog \<Rightarrow> dataset_full \<Rightarrow> (string \<times> string) set" where
  "contents c d = (\<lambda>i. (image_name i, content_sha i)) ` set (images_of (dataset_id d) c)"

lemma manifest_pairs:
  "manifest_json imgs = JObj [(''images'', JList (map (\<lambda>p. JList [JStr (fst p), JStr (snd p)])
     (sort_key fst (map (\<lambda>i. (image_name i, content_sha i)) imgs))))]"
  by (simp add: manifest_json_def sort_key_map o_def)

lemma pairs_of_manifest:
  assumes "float_printer fr" and "canonical_json fr (manifest_json xs) = canonical_json fr (manifest_json ys)"
  shows "(\<lambda>i. (image_name i, content_sha i)) ` set xs = (\<lambda>i. (image_name i, content_sha i)) ` set ys"
proof -
  let ?g = "\<lambda>p. JList [JStr (fst p), JStr (snd p)]"
  let ?p = "\<lambda>zs. sort_key fst (map (\<lambda>i. (image_name i, content_sha i)) zs)"
  have "norm_json (manifest_json xs) = norm_json (manifest_json ys)"
    by (rule canonical_json_inj [OF assms])
  then have "map ?g (?p xs) = map ?g (?p ys)" by (simp add: manifest_pairs norm_obj o_def)
  moreover have "inj ?g" by (auto simp: inj_def prod_eq_iff)
  ultimately have "?p xs = ?p ys" by (simp add: inj_map_eq_map)
  then have "set (?p xs) = set (?p ys)" by (rule arg_cong)
  then show ?thesis by simp
qed

lemma manifest_of_pairs:
  assumes "distinct (map image_name xs)" "distinct (map image_name ys)"
    and "(\<lambda>i. (image_name i, content_sha i)) ` set xs = (\<lambda>i. (image_name i, content_sha i)) ` set ys"
  shows "manifest_json xs = manifest_json ys"
proof -
  let ?p = "\<lambda>zs. sort_key fst (map (\<lambda>i. (image_name i, content_sha i)) zs)"
  have same: "set (?p xs) = set (?p ys)" using assms(3) by simp
  have dist: "distinct (map fst (?p zs))" if "distinct (map image_name zs)" for zs :: "image_full list"
  proof -
    have "mset (map fst (?p zs)) = mset (map image_name zs)" by (simp add: image_mset.compositionality o_def)
    then show ?thesis using that mset_eq_imp_distinct_iff by blast
  qed
  have "inj_on fst (set (?p xs) \<union> set (?p ys))"
    using dist [OF assms(1)] unfolding same [symmetric] by (simp add: distinct_map)
  then have "?p xs = ?p ys"
    by (rule map_sorted_distinct_set_unique) (use dist assms(1,2) same in \<open>simp_all only: sorted_sort_key\<close>)
  then show ?thesis by (simp only: manifest_pairs)
qed

lemma names_in_dataset:
  assumes "\<not> name_taken image_dataset_id image_name (cat_images c)"
  shows "distinct (map image_name (images_of did c))"
proof -
  have "distinct (map (\<lambda>r. (image_dataset_id r, image_name r)) (images_of did c))"
    using assms by (simp add: name_taken_def images_of_def distinct_map_filter)
  then show ?thesis by (auto simp: distinct_map inj_on_def images_of_def)
qed

definition manifest_text :: "(rat \<Rightarrow> string) \<Rightarrow> catalog \<Rightarrow> dataset_full \<Rightarrow> string" where
  "manifest_text fr c d = canonical_json fr (manifest_json (images_of (dataset_id d) c))"

lemma same_manifest_iff:
  assumes inv: "catalog_inv exact sha fr c" and fr: "float_printer fr"
    and d: "d \<in> set (cat_datasets c)" "images_of (dataset_id d) c \<noteq> []"
    and d': "d' \<in> set (cat_datasets c)" "images_of (dataset_id d') c \<noteq> []"
  shows "manifest_hash d = manifest_hash d' \<longleftrightarrow> contents c d = contents c d' \<or>
    manifest_text fr c d \<noteq> manifest_text fr c d' \<and> sha (manifest_text fr c d) = sha (manifest_text fr c d')"
proof -
  have h: "manifest_hash e = sha (manifest_text fr c e)" if "e \<in> set (cat_datasets c)" "images_of (dataset_id e) c \<noteq> []" for e
    using inv that by (auto simp: catalog_inv_def manifest_current_def manifest_of_def content_address_def manifest_text_def)
  have same_text: "manifest_text fr c d = manifest_text fr c d'" if "contents c d = contents c d'"
  proof -
    have "manifest_json (images_of (dataset_id d) c) = manifest_json (images_of (dataset_id d') c)"
      using that inv by (intro manifest_of_pairs names_in_dataset) (simp_all add: contents_def catalog_inv_def books_ok_def keys_ok_def)
    then show ?thesis by (simp add: manifest_text_def)
  qed
  have same: "contents c d = contents c d'" if "manifest_text fr c d = manifest_text fr c d'"
    using pairs_of_manifest [OF fr that [unfolded manifest_text_def]] by (simp only: contents_def)
  show ?thesis
  proof (cases "contents c d = contents c d'")
    case True
    then show ?thesis by (simp only: h [OF d] h [OF d'] same_text simp_thms)
  next
    case False
    then have "manifest_text fr c d \<noteq> manifest_text fr c d'" using same by blast
    with False show ?thesis by (simp only: h [OF d] h [OF d'] simp_thms not_False_eq_True)
  qed
qed

text \<open>
  C10. In every reachable catalog, two datasets with images have the same manifest hash exactly
  when they hold the same names with the same content hashes, unless the two different texts
  that are hashed collide under SHA-256. The printer of floats is assumed to give different
  numbers different texts, and the listing of a directory to report its root.
\<close>

theorem manifests_identify_contents:
  assumes "probe_rooted P" and "float_printer fr" and "catalog_reachable P sha fr exact c"
    and "d \<in> set (cat_datasets c)" and "images_of (dataset_id d) c \<noteq> []"
    and "d' \<in> set (cat_datasets c)" and "images_of (dataset_id d') c \<noteq> []"
  shows "manifest_hash d = manifest_hash d' \<longleftrightarrow> contents c d = contents c d' \<or>
    manifest_text fr c d \<noteq> manifest_text fr c d' \<and> sha (manifest_text fr c d) = sha (manifest_text fr c d')"
  by (rule same_manifest_iff [OF catalog_reachable_inv [OF assms(1,3)] assms(2,4-7)])

section \<open>Materialization\<close>

lemma found_by_id:
  "distinct (map f xs) \<Longrightarrow> x \<in> set xs \<Longrightarrow> find (\<lambda>y. f y = f x) xs = Some x"
  by (induction xs) (auto simp: image_iff)

lemma find_map_row: "find P (map f xs) = map_option f (find (P \<circ> f) xs)"
  by (induction xs) auto

lemma source_of_image:
  assumes inv: "catalog_inv exact sha fr c" and ds: "ds \<in> set (cat_datasets c)"
    and i: "i \<in> set (images_of (dataset_id ds) c)"
  shows "image_tenant_id i = dataset_tenant_id ds \<and>
    (\<exists>s \<in> set (cat_sources c). find (\<lambda>s. source_id s = dataset_source_id ds) (cat_sources c) = Some s \<and> source_kind s = image_source_kind i)"
proof -
  obtain d s where d: "d \<in> set (cat_datasets c)" "dataset_id d = dataset_id ds" "dataset_tenant_id d = image_tenant_id i"
    and s: "s \<in> set (cat_sources c)" "source_id s = dataset_source_id d" "source_kind s = image_source_kind i"
    using inv i by (auto simp: catalog_inv_def books_ok_def images_owned_def owned_by_def images_of_def)
  have "d = ds" using inv d(1,2) ds by (auto simp: catalog_inv_def books_ok_def keys_ok_def distinct_map inj_on_def)
  moreover have "find (\<lambda>y. source_id y = source_id s) (cat_sources c) = Some s"
    using inv s(1) by (intro found_by_id) (simp add: catalog_inv_def books_ok_def keys_ok_def)
  ultimately show ?thesis using d(3) s by auto
qed

lemma local_entries_exist:
  "list_all (\<lambda>i. safe_path (image_name i) \<and> (\<exists>p. rel_path i = Some p \<and> safe_path p)) rows \<Longrightarrow> \<exists>es. collect local_entry rows = Inr es"
proof (induction rows)
  case (Cons i rows)
  then obtain p where "safe_path (image_name i)" "rel_path i = Some p" "safe_path p" by auto
  then have "validate_safe_relative_path f (image_name i) = Inr (image_name i)" "validate_safe_relative_path f p = Inr p" "p \<noteq> []" for f
    by (simp_all only: safe_iff simp_thms) (simp add: safe_path_def)
  then have "local_entry i = Inr (image_name i, JStr p)"
    by (simp add: local_entry_def \<open>rel_path i = Some p\<close>)
  then show ?case using Cons by auto
qed simp

lemma stage_rows:
  assumes "stage_tables_of d = stage_view c rs"
  shows "find (\<lambda>s. source_id s = sid) (sources (stage_tables_of d)) = map_option source_row.truncate (find (\<lambda>s. source_id s = sid) (cat_sources c))"
    "dataset_images tenant did d = map image_row.truncate (filter (\<lambda>i. image_tenant_id i = tenant \<and> image_dataset_id i = did) (cat_images c))"
  by (simp_all add: assms stage_view_def find_map_row dataset_images_def filter_map o_def source_row.truncate_def image_row.truncate_def)

lemma image_fields: "image_name (image_row.truncate i) = image_name i" "content_sha (image_row.truncate i) = content_sha i"
  "rel_path (image_row.truncate i) = rel_path i"
  by (simp_all add: image_row.truncate_def)

definition materialized :: "catalog \<Rightarrow> dataset_full \<Rightarrow> json dict \<Rightarrow> bool" where
  "materialized c ds m \<longleftrightarrow>
     map_of m ''image_list'' = Some (JList (map (JStr \<circ> image_name) (sort_key image_name (images_of (dataset_id ds) c)))) \<and>
     (case map_of m ''blob_shas'' of
        Some (JObj shas) \<Rightarrow> list_all (\<lambda>(n, v). v \<in> JStr ` blob_sha256 ` set (cat_blobs c)) shas
      | _ \<Rightarrow> True)"

lemma sort_key_empty: "sort_key f xs = [] \<longleftrightarrow> xs = []"
  by (metis length_0_conv length_sort)

lemma sorted_rows:
  "order_by_name (map image_row.truncate xs) = map image_row.truncate (sort_key image_name xs)"
  by (simp add: order_by_name_def sort_key_map image_fields)

lemma materializes:
  assumes inv: "catalog_inv exact sha fr c" and view: "stage_tables_of d = stage_view c rs"
    and ds: "ds \<in> set (cat_datasets c)" and some: "images_of (dataset_id ds) c \<noteq> []"
  shows "\<exists>m. derive_materialization (dataset_tenant_id ds) (dataset_row.truncate ds) d = Inr m \<and> materialized c ds m"
proof -
  let ?is = "images_of (dataset_id ds) c"
  let ?rows = "map image_row.truncate (sort_key image_name ?is)"
  obtain i0 where i0: "i0 \<in> set ?is" using some by (cases ?is) auto
  obtain src where src: "src \<in> set (cat_sources c)" "find (\<lambda>s. source_id s = dataset_source_id ds) (cat_sources c) = Some src"
    using source_of_image [OF inv ds i0] by blast
  have own: "image_tenant_id i = dataset_tenant_id ds \<and> image_source_kind i = source_kind src" if "i \<in> set ?is" for i
    using source_of_image [OF inv ds that] src(2) by auto
  have "filter (\<lambda>i. image_tenant_id i = dataset_tenant_id ds \<and> image_dataset_id i = dataset_id ds) (cat_images c) = ?is"
    unfolding images_of_def using own by (auto simp: images_of_def intro: filter_cong)
  then have rows: "order_by_name (dataset_images (dataset_tenant_id ds) (dataset_id ds) d) = ?rows"
    by (simp add: stage_rows(2) [OF view] sorted_rows)
  have find: "find (\<lambda>s. source_id s = dataset_source_id ds) (sources (stage_tables_of d)) = Some (source_row.truncate src)"
    by (simp add: stage_rows(1) [OF view] src(2))
  have trunc: "dataset_id (dataset_row.truncate ds) = dataset_id ds" "dataset_source_id (dataset_row.truncate ds) = dataset_source_id ds"
    "source_kind (source_row.truncate src) = source_kind src" "uri_or_root (source_row.truncate src) = uri_or_root src"
    by (simp_all add: dataset_row.truncate_def source_row.truncate_def)
  have placed: "placed i" if "i \<in> set ?is" for i
    using inv that by (simp add: catalog_inv_def books_ok_def list_all_iff images_of_def)
  have "rooted src" using inv src(1) by (simp add: catalog_inv_def books_ok_def list_all_iff)
  then consider (upload) "source_kind src = ''upload''" | (dir) u where "source_kind src = ''local''" "uri_or_root src = Some u" "u \<noteq> []"
    | (s3) u where "source_kind src = ''s3''" "uri_or_root src = Some u" "starts ''s3://'' u"
    by (auto simp: rooted_def)
  then show ?thesis
  proof cases
    case upload
    let ?shas = "put_all (map (\<lambda>i. (image_name i, JStr (content_sha i))) ?rows) []"
    have blob: "content_sha i \<in> blob_sha256 ` set (cat_blobs c)" if "i \<in> set ?is" for i
      using inv that own [OF that] upload by (auto simp: catalog_inv_def books_ok_def blobs_counted_def images_of_def)
    have sub: "set ?shas \<subseteq> set (map (\<lambda>i. (image_name i, JStr (content_sha i))) ?rows)"
      using conjunct1 [OF put_all_set [of "map (\<lambda>i. (image_name i, JStr (content_sha i))) ?rows" "[]"]] by (simp only: list.set(1) Un_empty_right)
    have "snd e \<in> JStr ` blob_sha256 ` set (cat_blobs c)" if "e \<in> set ?shas" for e
      using subsetD [OF sub that] blob by (auto simp: image_fields)
    then have "list_all (\<lambda>(n, v). v \<in> JStr ` blob_sha256 ` set (cat_blobs c)) ?shas"
      by (simp only: list_all_iff case_prod_unfold) blast
    then show ?thesis
      using some by (simp add: derive_materialization_def Let_def sort_key_empty find trunc rows upload materialized_def image_fields o_def)
  next
    case dir
    have "list_all (\<lambda>i. safe_path (image_name i) \<and> (\<exists>p. rel_path i = Some p \<and> safe_path p)) ?rows"
      using placed own dir(1) by (auto simp: list_all_iff placed_def image_fields)
    then obtain es where "collect local_entry ?rows = Inr es" using local_entries_exist by blast
    then show ?thesis
      using some dir by (simp add: derive_materialization_def Let_def sort_key_empty find trunc rows materialized_def image_fields o_def)
  next
    case s3
    then show ?thesis
      using some by (simp add: derive_materialization_def Let_def sort_key_empty find trunc rows materialized_def image_fields o_def)
  qed
qed

text \<open>
  C11. In every reachable catalog, a dataset that has images can be materialized by every stage
  that reads the catalog: its source is there and has a root, no image name or path is rejected,
  the list of images is that of the dataset in the order of the names, and every content hash it
  hands to the worker is a blob that the store has registered.
\<close>

theorem registered_datasets_materialize:
  assumes "probe_rooted P" and "catalog_reachable P sha fr exact c" and "stage_tables_of d = stage_view c rs"
    and "ds \<in> set (cat_datasets c)" and "images_of (dataset_id ds) c \<noteq> []"
  shows "\<exists>m. derive_materialization (dataset_tenant_id ds) (dataset_row.truncate ds) d = Inr m \<and> materialized c ds m"
  by (rule materializes [OF catalog_reachable_inv [OF assms(1,2)] assms(3-5)])

section \<open>A small catalog\<close>

definition after_step :: "api_error + (catalog \<times> 'a) \<Rightarrow> catalog" where
  "after_step r = (case r of Inr (c, _) \<Rightarrow> c | Inl _ \<Rightarrow> empty_catalog)"

definition step_done :: "api_error + 'a \<Rightarrow> bool" where
  "step_done r = (case r of Inr _ \<Rightarrow> True | Inl _ \<Rightarrow> False)"

lemma done_step: "step_done r \<Longrightarrow> \<exists>x. r = Inr (after_step r, x)"
  by (auto simp: step_done_def after_step_def split: sum.splits)

definition demo_probe :: source_probe where
  "demo_probe = \<lparr>probe_local = (\<lambda>dir rec. Inr (''/r/'' @ dir, JNull)), probe_s3 = (\<lambda>_ _. Inr JNull)\<rparr>"

lemma demo_probe_rooted: "probe_rooted demo_probe"
  by (simp add: probe_rooted_def demo_probe_def)

definition demo_request :: "string \<Rightarrow> dataset_request" where
  "demo_request nm = \<lparr>dr_name = nm, dr_camera_model = ''PINHOLE'', dr_intrinsics_mode = ''per_image'', dr_is_spherical = False,
     dr_rig_config = None, dr_respect_exif = False\<rparr>"

text \<open>Two datasets of one source kind, with an image each.\<close>

definition demo_project :: catalog where
  "demo_project = register_blob ''h'' 3 None (after_step (create_project ''p'' ''u'' ''P'' None empty_catalog))"

definition add_demo :: "(string \<Rightarrow> string) \<Rightarrow> (rat \<Rightarrow> string) \<Rightarrow> source_spec \<Rightarrow> string \<Rightarrow> image_create \<Rightarrow> catalog \<Rightarrow> api_error + (catalog \<times> image_full)" where
  "add_demo sha fr spec did r c =
     create_image_route sha fr (''i'' @ did) ''u'' did r
       (after_step (create_dataset_route demo_probe (''s'' @ did) did ''u'' ''p'' spec (demo_request did) c))"

definition demo_dataset_ok :: "source_spec \<Rightarrow> string \<Rightarrow> catalog \<Rightarrow> bool" where
  "demo_dataset_ok spec did c \<longleftrightarrow>
     step_done (create_dataset_route demo_probe (''s'' @ did) did ''u'' ''p'' spec (demo_request did) c) \<and>
     ''s'' @ did \<notin> source_id ` set (cat_sources c) \<and> did \<notin> dataset_id ` set (cat_datasets c) \<and> ''i'' @ did \<notin> image_id ` set (cat_images c)"

lemma dataset_keeps_images:
  "create_dataset_route P a b tenant pid spec q c = Inr (c', d) \<Longrightarrow> cat_images c' = cat_images c"
  by (auto simp: create_dataset_route_def create_image_source_def create_dataset_def andthen_Inr raising_def Let_def split: if_splits sum.splits source_spec.splits)

lemma add_demo_reachable:
  assumes c: "catalog_reachable demo_probe sha fr exact c" and ok: "demo_dataset_ok spec did c" and run: "step_done (add_demo sha fr spec did r c)"
  shows "catalog_reachable demo_probe sha fr exact (after_step (add_demo sha fr spec did r c))"
proof -
  let ?c = "after_step (create_dataset_route demo_probe (''s'' @ did) did ''u'' ''p'' spec (demo_request did) c)"
  obtain x where x: "create_dataset_route demo_probe (''s'' @ did) did ''u'' ''p'' spec (demo_request did) c = Inr (?c, x)"
    using done_step [OF conjunct1 [OF ok [unfolded demo_dataset_ok_def]]] by blast
  have "catalog_reachable demo_probe sha fr exact ?c"
    by (rule catalog_reachable.dataset [OF c x]) (use ok in \<open>simp_all add: demo_dataset_ok_def\<close>)
  moreover obtain y where "add_demo sha fr spec did r c = Inr (after_step (add_demo sha fr spec did r c), y)"
    using run done_step by blast
  ultimately show ?thesis
    unfolding add_demo_def by (rule catalog_reachable.image) (use ok dataset_keeps_images [OF x] in \<open>simp add: demo_dataset_ok_def\<close>)
qed

text \<open>Uploaded images of the same name and contents, and images of two directories.\<close>

definition upload_image :: image_create where
  "upload_image = \<lparr>ic_name = ''a.png'', ic_blob_sha = Some ''h'', ic_rel_path = None, ic_width = None, ic_height = None, ic_exif = None\<rparr>"

definition local_image :: "string \<Rightarrow> image_create" where
  "local_image p = \<lparr>ic_name = ''a.png'', ic_blob_sha = None, ic_rel_path = Some p, ic_width = None, ic_height = None, ic_exif = None\<rparr>"

definition one_upload :: "(string \<Rightarrow> string) \<Rightarrow> (rat \<Rightarrow> string) \<Rightarrow> catalog" where
  "one_upload sha fr = after_step (add_demo sha fr (Upload_Source [(''a.png'', ''h'')]) ''1'' upload_image demo_project)"

definition two_uploads :: "(string \<Rightarrow> string) \<Rightarrow> (rat \<Rightarrow> string) \<Rightarrow> catalog" where
  "two_uploads sha fr = after_step (add_demo sha fr (Upload_Source [(''a.png'', ''h'')]) ''2'' upload_image (one_upload sha fr))"

text \<open>A dataset without images over a directory.\<close>

definition local_dataset :: "string \<Rightarrow> catalog" where
  "local_dataset dir = after_step (create_dataset_route demo_probe ''s1'' ''1'' ''u'' ''p'' (Local_Source dir False) (demo_request ''1'') demo_project)"

lemma safe_demo: "validate_safe_relative_path f ''a.png'' = Inr ''a.png''" "validate_safe_relative_path f ''b.png'' = Inr ''b.png''"
proof -
  have "safe_path ''a.png''" "safe_path ''b.png''" by code_simp+
  then show "validate_safe_relative_path f ''a.png'' = Inr ''a.png''" "validate_safe_relative_path f ''b.png'' = Inr ''b.png''"
    by (simp_all add: safe_iff)
qed

lemma demo_project_is:
  "demo_project = \<lparr>cat_projects = [\<lparr>project_id = ''p'', project_tenant_id = ''u'', project_name = ''P'', project_description = None\<rparr>],
     cat_sources = [], cat_datasets = [], cat_images = [],
     cat_blobs = [\<lparr>blob_sha256 = ''h'', blob_byte_size = 3, blob_mime = None, blob_refcount = 0\<rparr>]\<rparr>"
  by (simp add: demo_project_def create_project_def empty_catalog_def after_step_def name_taken_def register_blob_def find_blob_def Let_def)

lemma demo_project_reachable: "catalog_reachable demo_probe sha fr True demo_project"
proof -
  have "\<exists>p. create_project ''p'' ''u'' ''P'' None empty_catalog = Inr (after_step (create_project ''p'' ''u'' ''P'' None empty_catalog), p)"
    by (rule done_step) (simp add: step_done_def create_project_def empty_catalog_def name_taken_def Let_def)
  then show ?thesis
    unfolding demo_project_def by (blast intro: catalog_reachable.intros)
qed

lemmas demo_run = after_step_def step_done_def add_demo_def create_image_route_def create_dataset_route_def find_project_def
  create_image_source_def create_dataset_def create_image_in_def add_image_def find_dataset_def find_source_def find_blob_def
  image_location_def resolve_kind_def recompute_manifest_hash_def images_of_def change_refcount_def name_taken_def safe_demo
  demo_request_def demo_probe_def upload_image_def local_image_def demo_dataset_ok_def Let_def

lemma one_upload_runs:
  "step_done (add_demo sha fr (Upload_Source [(''a.png'', ''h'')]) ''1'' upload_image demo_project)"
  "demo_dataset_ok (Upload_Source [(''a.png'', ''h'')]) ''1'' demo_project"
  by (simp_all add: demo_run demo_project_is)

lemma two_uploads_runs:
  "step_done (add_demo sha fr (Upload_Source [(''a.png'', ''h'')]) ''2'' upload_image (one_upload sha fr))"
  "demo_dataset_ok (Upload_Source [(''a.png'', ''h'')]) ''2'' (one_upload sha fr)"
  by (simp_all add: one_upload_def demo_run demo_project_is)

lemma local_dataset_runs:
  "\<exists>c is d. batch_create_images sha fr [''i1''] ''u'' ''1'' [local_image ''a.png''] (local_dataset dir) = Inr (c, is) \<and>
     d \<in> set (cat_datasets c) \<and> dataset_id d = ''1'' \<and> images_of ''1'' (local_dataset dir) = []"
  "\<exists>c is d. batch_create_images sha fr [''i1''] ''u'' ''1'' [local_image ''b.png''] (local_dataset dir) = Inr (c, is) \<and>
     d \<in> set (cat_datasets c) \<and> dataset_id d = ''1'' \<and> images_of ''1'' (local_dataset dir) = []"
  by (simp_all add: local_dataset_def batch_create_images_def demo_run demo_project_is)

lemma demos_reachable:
  "catalog_reachable demo_probe sha fr True (one_upload sha fr)" "catalog_reachable demo_probe sha fr True (two_uploads sha fr)"
proof -
  show one: "catalog_reachable demo_probe sha fr True (one_upload sha fr)"
    unfolding one_upload_def by (rule add_demo_reachable [OF demo_project_reachable one_upload_runs(2,1)])
  show "catalog_reachable demo_probe sha fr True (two_uploads sha fr)"
    unfolding two_uploads_def by (rule add_demo_reachable [OF one two_uploads_runs(2,1)])
qed

text \<open>What they hold.\<close>

lemma two_uploads_blob:
  "\<lparr>blob_sha256 = ''h'', blob_byte_size = 3, blob_mime = None, blob_refcount = 2\<rparr> \<in> set (cat_blobs (two_uploads sha fr))"
  by (simp add: two_uploads_def one_upload_def demo_run demo_project_is)

lemma blobs_are_never_undercounted_witness:
  "int (references ''h'' (cat_images (two_uploads (\<lambda>s. s) demo_printer))) = 2"
  using blobs_are_never_undercounted [OF demo_probe_rooted demos_reachable(2) two_uploads_blob] by simp

lemma two_uploads_datasets:
  "''1'' \<in> dataset_id ` set (cat_datasets (two_uploads sha fr))" "''2'' \<in> dataset_id ` set (cat_datasets (two_uploads sha fr))"
  "images_of ''1'' (two_uploads sha fr) \<noteq> []" "images_of ''2'' (two_uploads sha fr) \<noteq> []"
  by (simp_all add: two_uploads_def one_upload_def demo_run demo_project_is)

lemma two_uploads_contents:
  "dataset_id d = ''1'' \<Longrightarrow> dataset_id d' = ''2'' \<Longrightarrow> contents (two_uploads sha fr) d = contents (two_uploads sha fr) d'"
  by (simp add: contents_def two_uploads_def one_upload_def demo_run demo_project_is)

lemma manifests_identify_contents_witness:
  "\<exists>d d'. d \<in> set (cat_datasets (two_uploads (\<lambda>s. s) demo_printer)) \<and> d' \<in> set (cat_datasets (two_uploads (\<lambda>s. s) demo_printer)) \<and>
     dataset_id d \<noteq> dataset_id d' \<and> manifest_hash d = manifest_hash d'"
proof -
  obtain d where d: "''1'' = dataset_id d" "d \<in> set (cat_datasets (two_uploads (\<lambda>s. s) demo_printer))"
    using two_uploads_datasets(1) by (rule imageE)
  obtain d' where d': "''2'' = dataset_id d'" "d' \<in> set (cat_datasets (two_uploads (\<lambda>s. s) demo_printer))"
    using two_uploads_datasets(2) by (rule imageE)
  have "manifest_hash d = manifest_hash d'"
    using manifests_identify_contents [OF demo_probe_rooted demo_printer demos_reachable(2) d(2) _ d'(2)]
      two_uploads_datasets(3,4) two_uploads_contents [OF d(1) [symmetric] d'(1) [symmetric]]
    by (simp only: d(1) [symmetric] d'(1) [symmetric] simp_thms)
  moreover have "dataset_id d \<noteq> dataset_id d'" by (simp add: d(1) [symmetric] d'(1) [symmetric])
  ultimately show ?thesis using d(2) d'(2) by blast
qed

lemma registered_datasets_materialize_witness:
  "\<exists>ds m. ds \<in> set (cat_datasets (one_upload (\<lambda>s. s) demo_printer)) \<and>
     derive_materialization (dataset_tenant_id ds) (dataset_row.truncate ds)
       \<lparr>tasks = [], jobs = [], job_events = [],
        resources = \<lparr>recons = [], stage_artifacts = [], others = stage_view (one_upload (\<lambda>s. s) demo_printer) []\<rparr>\<rparr> = Inr m"
proof -
  have "\<exists>ds \<in> set (cat_datasets (one_upload (\<lambda>s. s) demo_printer)). images_of (dataset_id ds) (one_upload (\<lambda>s. s) demo_printer) \<noteq> []"
    by (simp add: one_upload_def demo_run demo_project_is)
  then show ?thesis
    using registered_datasets_materialize [OF demo_probe_rooted demos_reachable(1), of
        "\<lparr>tasks = [], jobs = [], job_events = [], resources = \<lparr>recons = [], stage_artifacts = [], others = stage_view (one_upload (\<lambda>s. s) demo_printer) []\<rparr>\<rparr>"]
    by (fastforce simp: stage_tables_of_def)
qed

section \<open>What it does not promise\<close>

text \<open>
  Deleting a project whose rows the database cascades leaves its blobs referenced for ever:
  there is a catalog, reached without any deletion, in which deleting the project of an uploaded
  image leaves a blob with a positive count to which no image refers.
\<close>

theorem deleted_projects_keep_references:
  "\<exists>c c' b. catalog_reachable demo_probe sha fr True c \<and> delete_project True ''u'' ''p'' c = Inr c' \<and>
     b \<in> set (cat_blobs c') \<and> references (blob_sha256 b) (cat_images c') = 0 \<and> 0 < blob_refcount b"
proof -
  have "\<exists>c'. delete_project True ''u'' ''p'' (one_upload sha fr) = Inr c' \<and>
      (\<exists>b. b \<in> set (cat_blobs c') \<and> references (blob_sha256 b) (cat_images c') = 0 \<and> 0 < blob_refcount b)"
    by (simp add: delete_project_def references_def one_upload_def demo_run demo_project_is image_iff)
  then show ?thesis using demos_reachable(1) by blast
qed

text \<open>Images that are registered by path, one after the other.\<close>

definition by_path :: "image_create \<Rightarrow> bool" where
  "by_path q \<longleftrightarrow> ic_rel_path q \<noteq> None"

lemma image_by_path:
  assumes "create_image_in sha fr i tenant ds q c = Inr (c1, img)" and "by_path q"
  shows "image_name img = ic_name q \<and> content_sha img = replicate 64 (CHR ''0'') \<and>
    images_of (dataset_id ds) c1 = images_of (dataset_id ds) c @ [img] \<and> \<not> name_taken image_dataset_id image_name (cat_images c1) \<and>
    (\<forall>d \<in> set (cat_datasets c1). dataset_id d = dataset_id ds \<longrightarrow> manifest_hash d = manifest_of sha fr (images_of (dataset_id ds) c1))"
proof -
  obtain p where "ic_rel_path q = Some p" using assms(2) by (auto simp: by_path_def)
  then have k: "resolve_kind q = Inr (''local'', replicate 64 (CHR ''0''))"
    using assms(1) by (auto simp: create_image_in_def resolve_kind_def raising_def split: option.splits)
  show ?thesis
    using assms(1) unfolding create_image_in_def k
    by (auto simp: add_image_def andthen_Inr raising_def Let_def cat_simps recompute_datasets images_of_def split: option.splits if_splits)
qed

lemma images_by_path:
  assumes "create_images_in sha fr ids tenant ds qs c = Inr (c1, new)" and "list_all by_path qs"
  shows "map (\<lambda>i. (image_name i, content_sha i)) new = map (\<lambda>q. (ic_name q, replicate 64 (CHR ''0''))) qs \<and>
    images_of (dataset_id ds) c1 = images_of (dataset_id ds) c @ new \<and>
    (qs \<noteq> [] \<longrightarrow> \<not> name_taken image_dataset_id image_name (cat_images c1) \<and>
      (\<forall>d \<in> set (cat_datasets c1). dataset_id d = dataset_id ds \<longrightarrow> manifest_hash d = manifest_of sha fr (images_of (dataset_id ds) c1)))"
  using assms
proof (induction qs arbitrary: ids c new)
  case (Cons q qs)
  obtain c2 img rest where one: "create_image_in sha fr (hd ids) tenant ds q c = Inr (c2, img)"
    and tail: "create_images_in sha fr (tl ids) tenant ds qs c2 = Inr (c1, rest)" and new: "new = img # rest"
    using Cons.prems(1) by (auto simp: andthen_Inr)
  have q: "by_path q" "list_all by_path qs" using Cons.prems(2) by simp_all
  show ?case
    using image_by_path [OF one q(1)] Cons.IH [OF tail q(2)] tail by (cases qs) (auto simp: new)
qed simp

lemma dataset_by_path:
  assumes "batch_create_images sha fr ids tenant did qs c = Inr (c1, new)" and "list_all by_path qs" and "images_of did c = []"
    and "d \<in> set (cat_datasets c1)" "dataset_id d = did"
  shows "distinct (map image_name (images_of did c1)) \<and> manifest_hash d = sha (manifest_text fr c1 d) \<and>
    contents c1 d = (\<lambda>q. (ic_name q, replicate 64 (CHR ''0''))) ` set qs"
proof -
  obtain ds where ds: "find_dataset tenant did None c = Inr ds" "create_images_in sha fr ids tenant ds qs c = Inr (c1, new)" "qs \<noteq> []"
    using assms(1) by (auto simp: batch_create_images_def andthen_Inr raising_def split: if_splits)
  then have did: "dataset_id ds = did" using found_dataset by blast
  note run = images_by_path [OF ds(2) assms(2), unfolded did assms(3)]
  have "(\<lambda>i. (image_name i, content_sha i)) ` set new = (\<lambda>q. (ic_name q, replicate 64 (CHR ''0''))) ` set qs"
    using arg_cong [OF conjunct1 [OF run], of set] by simp
  moreover have "distinct (map image_name (images_of did c1))" using run ds(3) by (intro names_in_dataset) simp
  ultimately show ?thesis
    using run ds(3) assms(4,5) by (simp add: contents_def manifest_text_def manifest_of_def content_address_def)
qed

text \<open>
  C40. The manifest of images that are registered by path does not depend on the files. Whenever
  the images of two datasets, of one catalog or of two, are registered by path, in one batch each,
  their manifest hashes are the same exactly when the names of the images are, whatever the
  directories of the datasets, the paths and the files behind them, unless the two texts that
  are hashed differ and have one SHA-256 digest: every such image has sixty-four zeros for its
  content hash.
\<close>

theorem local_manifests_ignore_files:
  assumes "float_printer fr"
    and "batch_create_images sha fr ids tenant did qs c = Inr (c1, new)" "list_all by_path qs" "images_of did c = []"
    and "batch_create_images sha fr ids' tenant' did' qs' c' = Inr (c1', new')" "list_all by_path qs'" "images_of did' c' = []"
    and "d \<in> set (cat_datasets c1)" "dataset_id d = did" "d' \<in> set (cat_datasets c1')" "dataset_id d' = did'"
  shows "manifest_hash d = manifest_hash d' \<longleftrightarrow> ic_name ` set qs = ic_name ` set qs' \<or>
    clash sha (manifest_text fr c1 d) (manifest_text fr c1' d')"
proof -
  note one = dataset_by_path [OF assms(2-4,8,9)] and two = dataset_by_path [OF assms(5-7,10,11)]
  have "manifest_text fr c1 d = manifest_text fr c1' d' \<longleftrightarrow> contents c1 d = contents c1' d'"
  proof
    show "manifest_text fr c1 d = manifest_text fr c1' d' \<Longrightarrow> contents c1 d = contents c1' d'"
      unfolding manifest_text_def contents_def by (rule pairs_of_manifest [OF assms(1)])
    assume "contents c1 d = contents c1' d'"
    then have "manifest_json (images_of (dataset_id d) c1) = manifest_json (images_of (dataset_id d') c1')"
      using one two assms(9,11) by (intro manifest_of_pairs) (simp_all add: contents_def)
    then show "manifest_text fr c1 d = manifest_text fr c1' d'" by (simp add: manifest_text_def)
  qed
  moreover have "contents c1 d = contents c1' d' \<longleftrightarrow> ic_name ` set qs = ic_name ` set qs'"
  proof -
    have "(\<lambda>q. (ic_name q, z)) ` A = (\<lambda>n. (n, z)) ` ic_name ` A" for A and z :: string by auto
    from this [of "replicate 64 (CHR ''0'')"] have "contents c1 d = (\<lambda>n. (n, replicate 64 (CHR ''0''))) ` ic_name ` set qs"
      "contents c1' d' = (\<lambda>n. (n, replicate 64 (CHR ''0''))) ` ic_name ` set qs'"
      using one two by simp_all
    moreover have "inj (\<lambda>n :: string. (n, replicate 64 (CHR ''0'')))" by (rule injI) simp
    ultimately show ?thesis by (simp only: inj_image_eq_iff)
  qed
  ultimately show ?thesis
    using one two same_digest [of sha "manifest_text fr c1 d" "manifest_text fr c1' d'"] by simp
qed

lemma local_manifests_ignore_files_witness:
  "\<exists>c is d c' is' d'. batch_create_images (\<lambda>s. s) demo_printer [''i1''] ''u'' ''1'' [local_image ''a.png''] (local_dataset ''x'') = Inr (c, is) \<and>
     batch_create_images (\<lambda>s. s) demo_printer [''i1''] ''u'' ''1'' [local_image ''b.png''] (local_dataset ''y'') = Inr (c', is') \<and>
     d \<in> set (cat_datasets c) \<and> d' \<in> set (cat_datasets c') \<and> manifest_hash d = manifest_hash d'"
proof -
  obtain c1 is1 d1 where one: "batch_create_images (\<lambda>s. s) demo_printer [''i1''] ''u'' ''1'' [local_image ''a.png''] (local_dataset ''x'') = Inr (c1, is1)"
    "d1 \<in> set (cat_datasets c1)" "dataset_id d1 = ''1''" "images_of ''1'' (local_dataset ''x'') = []"
    using local_dataset_runs(1) by blast
  obtain c2 is2 d2 where two: "batch_create_images (\<lambda>s. s) demo_printer [''i1''] ''u'' ''1'' [local_image ''b.png''] (local_dataset ''y'') = Inr (c2, is2)"
    "d2 \<in> set (cat_datasets c2)" "dataset_id d2 = ''1''" "images_of ''1'' (local_dataset ''y'') = []"
    using local_dataset_runs(2) by blast
  have path: "list_all by_path [local_image p]" "ic_name (local_image p) = ''a.png''" for p
    by (simp_all add: by_path_def local_image_def)
  have "manifest_hash d1 = manifest_hash d2"
    using local_manifests_ignore_files [OF demo_printer one(1) path(1) one(4) two(1) path(1) two(4) one(2,3) two(2,3)] by (simp add: path(2))
  with one two show ?thesis by blast
qed

end
