(* ===== verification/Image_Metadata.thy ===== *)
theory Image_Metadata
  imports Prelude "HOL-Library.Word"
begin

text \<open>
  The sizes of images, read from the head of a file: \<open>core/image_metadata.py\<close>. A byte is an
  \<open>8 word\<close>; a slice is cut off at the end of the data as in Python, and an index past the end
  raises, so that the promise of the module not to raise is a theorem and not a part of the model.
\<close>

unbundle bit_operations_syntax

section \<open>Bytes\<close>

type_synonym bytes = "8 word list"

datatype read_error = Index_Error

definition byte_at :: "bytes \<Rightarrow> nat \<Rightarrow> read_error + 8 word" where
  "byte_at d i = (if i < length d then Inr (d ! i) else Inl Index_Error)"

definition slice :: "bytes \<Rightarrow> nat \<Rightarrow> nat \<Rightarrow> bytes" where
  "slice d i j = take (j - i) (drop i d)"

definition from_big :: "bytes \<Rightarrow> nat" where
  "from_big bs = foldl (\<lambda>n b. 256 * n + unat b) 0 bs"

definition from_little :: "bytes \<Rightarrow> nat" where
  "from_little bs = from_big (rev bs)"

definition from_little_signed :: "bytes \<Rightarrow> int" where
  "from_little_signed bs =
     (let n = int (from_little bs) in if 2 * n < 256 ^ length bs then n else n - 256 ^ length bs)"

definition chars :: "string \<Rightarrow> bytes" where
  "chars s = map (\<lambda>c. word_of_nat (of_char c)) s"

definition max_header_scan_bytes :: nat where
  "max_header_scan_bytes = 2 * 1024 * 1024"

section \<open>Formats\<close>

definition png_magic :: bytes where
  "png_magic = 0x89 # chars ''PNG'' @ [0x0D, 0x0A, 0x1A, 0x0A]"

definition tiff_little :: bytes where "tiff_little = chars ''II*'' @ [0]"

definition tiff_big :: bytes where "tiff_big = chars ''MM'' @ [0] @ chars ''*''"

definition sniff_image_format :: "bytes \<Rightarrow> string option" where
  "sniff_image_format d =
     (let b = take 16 d in
      if length b < 2 then None
      else if take 3 b = [0xFF, 0xD8, 0xFF] then Some ''jpeg''
      else if take 8 b = png_magic then Some ''png''
      else if take 4 b = tiff_little \<or> take 4 b = tiff_big then Some ''tiff''
      else if take 2 b = chars ''BM'' then Some ''bmp''
      else if 12 \<le> length b \<and> take 4 b = chars ''RIFF'' \<and> slice b 8 12 = chars ''WEBP'' then Some ''webp''
      else None)"

definition media_type_by_format :: "(string \<times> string) list" where
  "media_type_by_format =
     [(''jpeg'', ''image/jpeg''), (''png'', ''image/png''), (''tiff'', ''image/tiff''), (''bmp'', ''image/bmp''), (''webp'', ''image/webp'')]"

definition extension_by_format :: "(string \<times> string) list" where
  "extension_by_format = [(''jpeg'', ''.jpg''), (''png'', ''.png''), (''tiff'', ''.tif''), (''bmp'', ''.bmp''), (''webp'', ''.webp'')]"

definition sniff_image_extension :: "bytes \<Rightarrow> string option" where
  "sniff_image_extension d =
     (case sniff_image_format d of None \<Rightarrow> None | Some f \<Rightarrow> map_of extension_by_format f)"

definition known_media_type :: "string option \<Rightarrow> string option" where
  "known_media_type ct =
     (case ct of None \<Rightarrow> None | Some t \<Rightarrow> if t \<in> set (map snd media_type_by_format) then Some t else None)"

definition valid_size :: "nat \<Rightarrow> nat \<Rightarrow> (nat \<times> nat) option" where
  "valid_size w h = (if w = 0 \<or> h = 0 then None else Some (w, h))"

section \<open>PNG and BMP\<close>

definition png_size :: "bytes \<Rightarrow> (nat \<times> nat) option" where
  "png_size d =
     (if length d < 24 \<or> take 8 d \<noteq> png_magic \<or> slice d 12 16 \<noteq> chars ''IHDR'' then None
      else valid_size (from_big (slice d 16 20)) (from_big (slice d 20 24)))"

definition bmp_size :: "bytes \<Rightarrow> (nat \<times> nat) option" where
  "bmp_size d =
     (if length d < 26 \<or> take 2 d \<noteq> chars ''BM'' then None
      else valid_size (nat \<bar>from_little_signed (slice d 18 22)\<bar>) (nat \<bar>from_little_signed (slice d 22 26)\<bar>))"

section \<open>JPEG\<close>

definition jpeg_sof_markers :: "8 word list" where
  "jpeg_sof_markers = [0xC0, 0xC1, 0xC2, 0xC3, 0xC5, 0xC6, 0xC7, 0xC9, 0xCA, 0xCB, 0xCD, 0xCE, 0xCF]"

text \<open>The inner loop: fill bytes before a marker.\<close>

function skip_fill :: "bytes \<Rightarrow> nat \<Rightarrow> nat" where
  "skip_fill d i = (if i < length d \<and> d ! i = 0xFF then skip_fill d (Suc i) else i)"
  by pat_completeness auto
termination by (relation "measure (\<lambda>(d, i). length d - i)") auto

declare skip_fill.simps [simp del]

lemma skip_fill_forward: "i \<le> skip_fill d i"
proof (induction d i rule: skip_fill.induct)
  case (1 d i)
  then show ?case by (subst skip_fill.simps) auto
qed

lemma skip_fill_step: "i < length d \<Longrightarrow> d ! i = 0xFF \<Longrightarrow> Suc i \<le> skip_fill d i"
  using skip_fill_forward [of "Suc i" d] by (subst skip_fill.simps) simp

function jpeg_scan :: "bytes \<Rightarrow> nat \<Rightarrow> read_error + (nat \<times> nat) option" where
  "jpeg_scan d i =
     (if length d \<le> i + 1 then Inr None
      else case byte_at d i of Inl e \<Rightarrow> Inl e
      | Inr b \<Rightarrow>
        if b \<noteq> 0xFF then jpeg_scan d (i + 1)
        else let i = skip_fill d i in
          if length d \<le> i then Inr None
          else case byte_at d i of Inl e \<Rightarrow> Inl e
          | Inr marker \<Rightarrow>
            let i = i + 1 in
            if marker = 0 \<or> marker = 1 \<or> (0xD0 \<le> marker \<and> marker \<le> 0xD9) then jpeg_scan d i
            else if marker = 0xDA then Inr None
            else if length d < i + 2 then Inr None
            else let segment_len = from_big (slice d i (i + 2)) in
              if segment_len < 2 \<or> length d < i + segment_len then Inr None
              else if marker \<in> set jpeg_sof_markers then
                (if segment_len < 7 then Inr None
                 else Inr (valid_size (from_big (slice d (i + 5) (i + 7))) (from_big (slice d (i + 3) (i + 5)))))
              else jpeg_scan d (i + segment_len))"
  by pat_completeness auto
termination
  by (relation "measure (\<lambda>(d, i). length d - i)") (use skip_fill_forward in \<open>auto intro!: diff_less_mono2 le_imp_less_Suc simp: trans_le_add1\<close>)

declare jpeg_scan.simps [simp del]

definition jpeg_size :: "bytes \<Rightarrow> read_error + (nat \<times> nat) option" where
  "jpeg_size d = (if length d < 4 \<or> take 2 d \<noteq> [0xFF, 0xD8] then Inr None else jpeg_scan d 2)"

section \<open>TIFF\<close>

definition from_order :: "bool \<Rightarrow> bytes \<Rightarrow> nat" where
  "from_order little bs = (if little then from_little bs else from_big bs)"

definition tiff_value :: "bytes \<Rightarrow> nat \<Rightarrow> nat \<Rightarrow> nat \<Rightarrow> bool \<Rightarrow> nat option" where
  "tiff_value d value_pos field_type count little =
     (if count \<noteq> 1 \<or> length d < value_pos + 4 then None
      else if field_type = 3 then Some (from_order little (slice d value_pos (value_pos + 2)))
      else if field_type = 4 then Some (from_order little (slice d value_pos (value_pos + 4)))
      else None)"

fun tiff_tags :: "bytes \<Rightarrow> bool \<Rightarrow> nat \<Rightarrow> nat \<Rightarrow> nat option \<Rightarrow> nat option \<Rightarrow> (nat \<times> nat) option" where
  "tiff_tags d little 0 pos width height = None"
| "tiff_tags d little (Suc n) pos width height =
     (if length d < pos + 12 then None
      else
        let tag = from_order little (slice d pos (pos + 2));
            field_type = from_order little (slice d (pos + 2) (pos + 4));
            count = from_order little (slice d (pos + 4) (pos + 8));
            v = tiff_value d (pos + 8) field_type count little;
            width = (if tag = 256 then v else width);
            height = (if tag \<noteq> 256 \<and> tag = 257 then v else height) in
        case (width, height) of
          (Some w, Some h) \<Rightarrow> valid_size w h
        | _ \<Rightarrow> tiff_tags d little n (pos + 12) width height)"

definition tiff_size :: "bytes \<Rightarrow> (nat \<times> nat) option" where
  "tiff_size d =
     (if length d < 8 \<or> take 4 d \<noteq> tiff_little \<and> take 4 d \<noteq> tiff_big then None
      else
        let little = (take 4 d = tiff_little);
            ifd_offset = from_order little (slice d 4 8) in
        if ifd_offset < 8 \<or> length d < ifd_offset + 2 then None
        else tiff_tags d little (min (from_order little (slice d ifd_offset (ifd_offset + 2))) 256) (ifd_offset + 2) None None)"

section \<open>WebP\<close>

definition webp_vp8x_size :: "bytes \<Rightarrow> nat \<Rightarrow> (nat \<times> nat) option" where
  "webp_vp8x_size d pos =
     (if length d < pos + 10 then None
      else valid_size (from_little (slice d (pos + 4) (pos + 7)) + 1) (from_little (slice d (pos + 7) (pos + 10)) + 1))"

definition webp_vp8l_size :: "bytes \<Rightarrow> nat \<Rightarrow> read_error + (nat \<times> nat) option" where
  "webp_vp8l_size d pos =
     (if length d < pos + 5 then Inr None
      else case byte_at d pos of Inl e \<Rightarrow> Inl e
      | Inr b \<Rightarrow>
        if b \<noteq> 0x2F then Inr None
        else let bits = from_little (slice d (pos + 1) (pos + 5)) in
          Inr (valid_size ((bits AND 0x3FFF) + 1) ((drop_bit 14 bits AND 0x3FFF) + 1)))"

definition webp_vp8_size :: "bytes \<Rightarrow> nat \<Rightarrow> (nat \<times> nat) option" where
  "webp_vp8_size d pos =
     (if length d < pos + 10 \<or> slice d (pos + 3) (pos + 6) \<noteq> [0x9D, 0x01, 0x2A] then None
      else valid_size (from_little (slice d (pos + 6) (pos + 8)) AND 0x3FFF) (from_little (slice d (pos + 8) (pos + 10)) AND 0x3FFF))"

function webp_scan :: "bytes \<Rightarrow> nat \<Rightarrow> read_error + (nat \<times> nat) option" where
  "webp_scan d pos =
     (if length d < pos + 8 then Inr None
      else
        let chunk_type = slice d pos (pos + 4);
            chunk_size = from_little (slice d (pos + 4) (pos + 8));
            chunk_start = pos + 8;
            chunk_end = chunk_start + chunk_size in
        if length d < chunk_end then Inr None
        else if chunk_type = chars ''VP8X'' then Inr (webp_vp8x_size d chunk_start)
        else if chunk_type = chars ''VP8L'' then webp_vp8l_size d chunk_start
        else if chunk_type = chars ''VP8 '' then Inr (webp_vp8_size d chunk_start)
        else webp_scan d (chunk_end + chunk_size mod 2))"
  by pat_completeness auto
termination by (relation "measure (\<lambda>(d, pos). length d - pos)") auto

declare webp_scan.simps [simp del]

definition webp_size :: "bytes \<Rightarrow> read_error + (nat \<times> nat) option" where
  "webp_size d =
     (if length d < 20 \<or> take 4 d \<noteq> chars ''RIFF'' \<or> slice d 8 12 \<noteq> chars ''WEBP'' then Inr None else webp_scan d 12)"

section \<open>The whole\<close>

record image_metadata =
  meta_width :: "nat option"
  meta_height :: "nat option"
  meta_format :: "string option"
  meta_media_type :: "string option"

definition read_image_metadata :: "bytes \<Rightarrow> string option \<Rightarrow> read_error + image_metadata" where
  "read_image_metadata d content_type =
     (let payload = take max_header_scan_bytes d;
          detected = sniff_image_format payload in
      andthen
        (if detected = Some ''jpeg'' then jpeg_size payload
         else if detected = Some ''png'' then Inr (png_size payload)
         else if detected = Some ''tiff'' then Inr (tiff_size payload)
         else if detected = Some ''bmp'' then Inr (bmp_size payload)
         else if detected = Some ''webp'' then webp_size payload
         else Inr None) (\<lambda>size.
      Inr \<lparr>meta_width = map_option fst size, meta_height = map_option snd size, meta_format = detected,
           meta_media_type = (case detected of None \<Rightarrow> known_media_type content_type | Some f \<Rightarrow> map_of media_type_by_format f)\<rparr>))"

end
