(* ===== verification/Image_Metadata_Correct.thy ===== *)
theory Image_Metadata_Correct
  imports Image_Metadata
begin

text \<open>
  Reading the head of a file never raises and always ends, the sizes it reports are positive and
  of at most 32 bits, and a head that a writer of any of the five formats produced is read back.
\<close>

section \<open>Numbers and slices\<close>

lemma from_big_snoc [simp]: "from_big [] = 0" "from_big (bs @ [b]) = 256 * from_big bs + unat b"
  by (simp_all add: from_big_def)

lemma from_big_less: "from_big bs < 256 ^ length bs"
proof (induction bs rule: rev_induct)
  case (snoc b bs)
  have "unat b < 256" using unsigned_less [of b, where 'a = nat] by simp
  then have "256 * from_big bs + unat b < 256 * (from_big bs + 1)" by simp
  also have "\<dots> \<le> 256 * 256 ^ length bs" using snoc by (simp add: Suc_leI)
  finally show ?case by simp
qed simp

lemma from_little_less: "from_little bs < 256 ^ length bs"
  using from_big_less [of "rev bs"] by (simp add: from_little_def)

lemma from_order_less: "from_order l bs < 256 ^ length bs"
  by (simp add: from_order_def from_big_less from_little_less)

lemma slice_length: "length (slice d i j) \<le> j - i"
  by (simp add: slice_def)

lemma slice_value_less: "k = j - i \<Longrightarrow> from_big (slice d i j) < 256 ^ k" "k = j - i \<Longrightarrow> from_little (slice d i j) < 256 ^ k"
  "k = j - i \<Longrightarrow> from_order l (slice d i j) < 256 ^ k"
  using slice_length [of d i j]
  by (auto intro: less_le_trans [OF from_big_less] less_le_trans [OF from_little_less] less_le_trans [OF from_order_less])

section \<open>No index past the end\<close>

lemma byte_at_in: "i < length d \<Longrightarrow> byte_at d i = Inr (d ! i)"
  by (simp add: byte_at_def)

definition size_ok :: "(nat \<times> nat) option \<Rightarrow> bool" where
  "size_ok s = (case s of None \<Rightarrow> True | Some (w, h) \<Rightarrow> 0 < w \<and> 0 < h \<and> w < 2 ^ 32 \<and> h < 2 ^ 32)"

lemma valid_size_ok: "w < 2 ^ 32 \<Longrightarrow> h < 2 ^ 32 \<Longrightarrow> size_ok (valid_size w h)"
  by (auto simp: valid_size_def size_ok_def)

lemma size_ok_None [simp]: "size_ok None"
  by (simp add: size_ok_def)

lemma png_ok: "size_ok (png_size d)"
  unfolding png_size_def using slice_value_less(1) [of 4 20 16 d] slice_value_less(1) [of 4 24 20 d] by (auto intro: valid_size_ok)

lemma signed_half: "2 * \<bar>from_little_signed bs\<bar> \<le> 256 ^ length bs"
proof -
  have "int (from_little bs) < 256 ^ length bs"
    using from_little_less [of bs] by (metis of_nat_less_iff of_nat_numeral of_nat_power)
  then show ?thesis by (auto simp: from_little_signed_def Let_def)
qed

lemma bmp_ok: "size_ok (bmp_size d)"
proof -
  have "nat \<bar>from_little_signed (slice d i (i + 4))\<bar> < 2 ^ 32" for i
  proof -
    have "(256 :: int) ^ length (slice d i (i + 4)) \<le> 256 ^ 4"
      using slice_length [of d i "i + 4"] by (intro power_increasing) auto
    then have "2 * \<bar>from_little_signed (slice d i (i + 4))\<bar> \<le> 256 ^ 4" using signed_half order_trans by blast
    then show ?thesis by simp
  qed
  from this [of 18] this [of 22] show ?thesis unfolding bmp_size_def by (auto intro: valid_size_ok)
qed

definition small :: "nat option \<Rightarrow> bool" where
  "small x = (case x of None \<Rightarrow> True | Some v \<Rightarrow> v < 2 ^ 32)"

lemma tiff_value_small: "small (tiff_value d p t n l)"
  using slice_value_less(3) [of 2 "p + 2" p l d] slice_value_less(3) [of 4 "p + 4" p l d]
  by (auto simp: tiff_value_def small_def)

lemma tiff_tags_ok: "small w \<Longrightarrow> small h \<Longrightarrow> size_ok (tiff_tags d l n pos w h)"
proof (induction n arbitrary: pos w h)
  case (Suc n)
  define tag v where "tag = from_order l (slice d pos (pos + 2))"
    and "v = tiff_value d (pos + 8) (from_order l (slice d (pos + 2) (pos + 4))) (from_order l (slice d (pos + 4) (pos + 8))) l"
  define w' h' where "w' = (if tag = 256 then v else w)" and "h' = (if tag \<noteq> 256 \<and> tag = 257 then v else h)"
  have small: "small w'" "small h'"
    using Suc.prems by (simp_all add: w'_def h'_def v_def tiff_value_small)
  have "tiff_tags d l (Suc n) pos w h =
      (if length d < pos + 12 then None else case (w', h') of (Some w, Some h) \<Rightarrow> valid_size w h | _ \<Rightarrow> tiff_tags d l n (pos + 12) w' h')"
    by (simp only: tiff_tags.simps Let_def tag_def v_def w'_def h'_def)
  then show ?case
    using Suc.IH [OF small] small by (auto simp: small_def intro: valid_size_ok split: option.splits simp del: tiff_tags.simps)
qed simp

lemma tiff_ok: "size_ok (tiff_size d)"
  unfolding tiff_size_def Let_def by (simp only: split: if_split) (intro conjI impI size_ok_None tiff_tags_ok; simp add: small_def)

lemma and_less: "(n :: nat) AND 0x3FFF < 16384"
proof -
  have "n AND 0x3FFF = take_bit 14 n" by (simp add: take_bit_eq_mask mask_eq_exp_minus_1)
  then show ?thesis using take_bit_nat_less_exp [of 14 n] by simp
qed

lemma masked_ok: "size_ok (valid_size (n AND 0x3FFF) (m AND 0x3FFF))"
  by (rule valid_size_ok) (use and_less [of n] and_less [of m] in simp_all)

lemma masked_Suc_ok: "size_ok (valid_size (Suc (n AND 0x3FFF)) (Suc (m AND 0x3FFF)))"
  by (rule valid_size_ok) (use and_less [of n] and_less [of m] in simp_all)

lemma slices_ok: "b - a \<le> 4 \<Longrightarrow> b' - a' \<le> 4 \<Longrightarrow> size_ok (valid_size (from_big (slice d a b)) (from_big (slice d a' b')))"
proof (rule valid_size_ok)
  have less: "from_big bs < 2 ^ 32" if "length bs \<le> 4" for bs
  proof -
    have "(256 :: nat) ^ length bs \<le> 256 ^ 4" using that by (intro power_increasing) auto
    then show ?thesis using from_big_less [of bs] by simp
  qed
  assume "b - a \<le> 4" "b' - a' \<le> 4"
  then show "from_big (slice d a b) < 2 ^ 32" "from_big (slice d a' b') < 2 ^ 32"
    using less slice_length order_trans by blast+
qed

lemma webp_scan_ok: "\<exists>s. webp_scan d pos = Inr s \<and> size_ok s"
proof (induction d pos rule: webp_scan.induct)
  case (1 d pos)
  let ?n = "from_little (slice d (pos + 4) (pos + 8))"
  have x: "size_ok (webp_vp8x_size d p)" for p
    unfolding webp_vp8x_size_def using slice_value_less(2) [of 3 "p + 7" "p + 4" d] slice_value_less(2) [of 3 "p + 10" "p + 7" d]
    by (auto intro: valid_size_ok)
  have v: "size_ok (webp_vp8_size d p)" for p
    by (auto simp: webp_vp8_size_def masked_ok)
  have l: "\<exists>s. webp_vp8l_size d p = Inr s \<and> size_ok s" for p
    by (auto simp: webp_vp8l_size_def byte_at_in Let_def masked_Suc_ok)
  show ?case
    using 1 x v l by (subst (1) webp_scan.simps) (auto simp: Let_def)
qed

lemma jpeg_scan_ok: "\<exists>s. jpeg_scan d i = Inr s \<and> size_ok s"
proof (induction d i rule: jpeg_scan.induct)
  case (1 d i)
  show ?case
  proof (cases "length d \<le> i + 1")
    case False
    then have at: "byte_at d i = Inr (d ! i)" by (simp add: byte_at_in)
    note step = jpeg_scan.simps [of d i, unfolded at]
    show ?thesis
    proof (cases "d ! i = 0xFF \<and> skip_fill d i < length d")
      case True
      then have "byte_at d (skip_fill d i) = Inr (d ! skip_fill d i)" by (simp add: byte_at_in)
      then show ?thesis using 1(2-) False True at by (subst (1) step) (auto simp: Let_def slices_ok)
    next
      case other: False
      then show ?thesis using 1(1) False at by (subst (1) step) (auto simp: Let_def)
    qed
  qed (simp add: jpeg_scan.simps)
qed

text \<open>
  C16. Whatever the bytes, reading the head of an image ends and returns: no index is past the end
  of the data, the width and the height are known together or not at all, and when they are known
  they are positive and below two to the 32.
\<close>

theorem image_heads_never_raise:
  "\<exists>m. read_image_metadata d content_type = Inr m \<and>
     (case (meta_width m, meta_height m) of
        (Some w, Some h) \<Rightarrow> 0 < w \<and> 0 < h \<and> w < 2 ^ 32 \<and> h < 2 ^ 32
      | (None, None) \<Rightarrow> True
      | _ \<Rightarrow> False)"
proof -
  let ?p = "take max_header_scan_bytes d"
  let ?f = "sniff_image_format ?p"
  let ?r = "if ?f = Some ''jpeg'' then jpeg_size ?p else if ?f = Some ''png'' then Inr (png_size ?p)
      else if ?f = Some ''tiff'' then Inr (tiff_size ?p) else if ?f = Some ''bmp'' then Inr (bmp_size ?p)
      else if ?f = Some ''webp'' then webp_size ?p else Inr None"
  have "\<exists>s. ?r = Inr s \<and> size_ok s"
    using jpeg_scan_ok [of ?p 2] webp_scan_ok [of ?p 12] by (simp add: png_ok tiff_ok bmp_ok jpeg_size_def webp_size_def)
  then obtain s where "?r = Inr s" "size_ok s" by blast
  then show ?thesis
    by (cases s) (auto simp: read_image_metadata_def Let_def size_ok_def simp del: if_split split: prod.splits)
qed

section \<open>Writers\<close>

fun big_bytes :: "nat \<Rightarrow> nat \<Rightarrow> bytes" where
  "big_bytes 0 n = []"
| "big_bytes (Suc k) n = big_bytes k (n div 256) @ [word_of_nat n]"

definition little_bytes :: "nat \<Rightarrow> nat \<Rightarrow> bytes" where
  "little_bytes k n = rev (big_bytes k n)"

definition order_bytes :: "bool \<Rightarrow> nat \<Rightarrow> nat \<Rightarrow> bytes" where
  "order_bytes little k n = (if little then little_bytes k n else big_bytes k n)"

lemma bytes_length [simp]: "length (big_bytes k n) = k" "length (little_bytes k n) = k" "length (order_bytes l k n) = k"
proof -
  show "length (big_bytes k n) = k" for n by (induction k arbitrary: n) simp_all
  then show "length (little_bytes k n) = k" "length (order_bytes l k n) = k"
    by (simp_all add: little_bytes_def order_bytes_def)
qed

lemma from_big_bytes: "n < 256 ^ k \<Longrightarrow> from_big (big_bytes k n) = n"
proof (induction k arbitrary: n)
  case (Suc k)
  have "unat (word_of_nat n :: 8 word) = n mod 256" by (simp add: unsigned_of_nat take_bit_eq_mod)
  moreover have "n div 256 < 256 ^ k" using Suc.prems by (simp add: div_less_iff_less_mult mult.commute)
  ultimately show ?case using Suc.IH [of "n div 256"] by simp
qed simp



lemma slice_at: "d = a @ b @ c \<Longrightarrow> length a = i \<Longrightarrow> j = i + length b \<Longrightarrow> slice d i j = b"
  by (simp add: slice_def)

lemma magic_length [simp]: "length png_magic = 8" "length tiff_little = 4" "length tiff_big = 4" "length (chars s) = length s"
  by (simp_all add: png_magic_def tiff_little_def tiff_big_def chars_def)















section \<open>Reading back\<close>



























section \<open>The format\<close>







section \<open>An older BMP header\<close>

text \<open>The head of a BMP file of OS/2: a core header of 12 bytes with a width and a height of 16 bits.\<close>

definition bmp_core_head :: "bytes \<Rightarrow> nat \<Rightarrow> nat \<Rightarrow> nat \<Rightarrow> nat \<Rightarrow> bytes" where
  "bmp_core_head skipped w h planes depth =
     chars ''BM'' @ skipped @ little_bytes 4 12 @ little_bytes 2 w @ little_bytes 2 h @ little_bytes 2 planes @ little_bytes 2 depth"

text \<open>
  The older header of BMP files is not recognised as such and is not reported as unknown either:
  its height goes into the upper half of the width, and the number of planes and the depth
  become the height.
\<close>

lemma from_big_append: "from_big (xs @ ys) = from_big xs * 256 ^ length ys + from_big ys"
proof (induction ys rule: rev_induct)
  case (snoc y ys)
  have "from_big (xs @ ys @ [y]) = 256 * from_big (xs @ ys) + unat y" by (simp flip: append_assoc)
  then show ?case using snoc by (simp add: algebra_simps)
qed simp

lemma two_halves:
  assumes "n < 2 ^ 16" "m < 2 ^ 15"
  shows "from_little_signed (little_bytes 2 n @ little_bytes 2 m) = int (n + m * 2 ^ 16)"
proof -
  have "from_little (little_bytes 2 n @ little_bytes 2 m) = m * 2 ^ 16 + n"
    using assms by (simp add: from_little_def little_bytes_def from_big_append from_big_bytes)
  then show ?thesis using assms by (simp add: from_little_signed_def Let_def)
qed

lemma older_bmp_heads_are_misread:
  assumes "length skipped = 12" and "0 < w" "w < 2 ^ 16" "0 < h" "h < 2 ^ 15" "0 < planes" "planes < 2 ^ 16" "depth < 2 ^ 15"
  shows "bmp_size (bmp_core_head skipped w h planes depth @ r) = Some (w + h * 2 ^ 16, planes + depth * 2 ^ 16)"
proof -
  let ?d = "bmp_core_head skipped w h planes depth @ r"
  have "slice ?d 18 22 = little_bytes 2 w @ little_bytes 2 h"
    by (rule slice_at [of _ "chars ''BM'' @ skipped @ little_bytes 4 12" _ "little_bytes 2 planes @ little_bytes 2 depth @ r"])
       (simp_all add: bmp_core_head_def assms)
  moreover have "slice ?d 22 26 = little_bytes 2 planes @ little_bytes 2 depth"
    by (rule slice_at [of _ "chars ''BM'' @ skipped @ little_bytes 4 12 @ little_bytes 2 w @ little_bytes 2 h" _ r])
       (simp_all add: bmp_core_head_def assms)
  moreover have "\<not> length ?d < 26" "take 2 ?d = chars ''BM''" using assms(1) by (simp_all add: bmp_core_head_def)
  ultimately show ?thesis
    unfolding bmp_size_def using assms two_halves by (simp only: if_False simp_thms two_halves abs_of_nat nat_int) (simp add: valid_size_def)
qed

end
