(* ===== verification/Conversion_Worker.thy ===== *)
theory Conversion_Worker
  imports Artifact_Conversion Snapshots
begin

text \<open>
  \<open>workers/tasks/convert_artifact.py\<close>: the handler that runs a planned chain of conversions. Each
  step hands the artifact of the step before to the backend's \<open>convert_artifact\<close>; a step whose
  backend names no artifact gets a synthesised one.

  \<open>cw_convert\<close> is the backend: what it answers to a call may depend on the calls before. A result
  of None is the empty object, and each result is an object of its own, so that labelling it
  changes nothing the backend keeps. A run returns the calls it made and the progress it reported
  besides its outcome.
\<close>

record convert_call =
  call_input :: "json dict"
  call_dir :: string
  call_format :: string
  call_kind :: string
  call_options :: "json dict"

record converter =
  cw_conv :: conv_cfg
  cw_convert :: "convert_call list \<Rightarrow> convert_call \<Rightarrow> exn + json dict"

datatype progress_note = Phase_Started | Phase_Progress nat nat | Phase_Completed

section \<open>Artifacts between steps\<close>

definition first_artifact :: "json dict \<Rightarrow> json dict option" where
  "first_artifact output =
     (case jget output ''artifacts'' of JList (JObj a # vs) \<Rightarrow> Some a | _ \<Rightarrow> None)"

text \<open>\<open>str(Path(s))\<close> on POSIX: two leading slashes are kept, any other number becomes one.\<close>

definition path_text :: "string \<Rightarrow> string" where
  "path_text s =
     (let parts = filter (\<lambda>p. p \<noteq> [] \<and> p \<noteq> ''.'') (split_on (CHR ''/'') s);
          base = (if starts ''//'' s \<and> \<not> starts ''///'' s then ''//'' else if starts ''/'' s then ''/'' else []) in
      if base = [] \<and> parts = [] then ''.'' else base @ joins ''/'' parts)"

definition set_default :: "string \<Rightarrow> json \<Rightarrow> json dict \<Rightarrow> json dict" where
  "set_default k v d = (if map_of d k = None then d @ [(k, v)] else d)"

definition synthesized_artifact ::
  "stage_cfg \<Rightarrow> json dict \<Rightarrow> json dict \<Rightarrow> string \<Rightarrow> string \<Rightarrow> string \<Rightarrow> string option \<Rightarrow> string \<Rightarrow> json dict \<Rightarrow> json dict" where
  "synthesized_artifact C current output dir to_fmt to_kind nm backend plan =
     (let uri = json_or (jget output ''uri'') (jget output ''path'') in
     [(''kind'', JStr to_kind),
      (''name'', JStr (case nm of Some n \<Rightarrow> if n = [] then ''converted-'' @ to_fmt else n | None \<Rightarrow> ''converted-'' @ to_fmt)),
      (''uri'', JStr (if truthy uri then (case uri of JStr s \<Rightarrow> path_text s | v \<Rightarrow> json_text C v) else dir)),
      (''artifact_format'', JStr to_fmt), (''schema_version'', JInt 1), (''producer'', JObj [(''backend'', JStr backend)]),
      (''metadata'', JObj [(''source_artifact_id'', jget current ''artifact_id''), (''conversion'', JObj plan)])])"

definition target_kind_for_step :: "string \<Rightarrow> string \<Rightarrow> string \<Rightarrow> bool \<Rightarrow> string" where
  "target_kind_for_step current_kind target final_kind is_final =
     (if is_final then final_kind
      else case kind_for_default_format target of
        Some k \<Rightarrow> if k = [] then current_kind else k
      | None \<Rightarrow> current_kind)"

text \<open>What the steps and the end add to an artifact that lacks it.\<close>

definition lineage :: "json \<Rightarrow> json dict \<Rightarrow> json dict \<Rightarrow> json dict" where
  "lineage source plan a =
     AList.update ''metadata''
       (JObj (set_default ''conversion'' (JObj plan) (set_default ''source_artifact_id'' source (obj_fields (jget a ''metadata''))))) a"

definition step_artifact :: "json \<Rightarrow> json dict \<Rightarrow> string \<Rightarrow> string \<Rightarrow> json dict \<Rightarrow> json dict" where
  "step_artifact source plan fmt k a =
     set_default ''kind'' (JStr k) (set_default ''artifact_format'' (JStr fmt) (lineage source plan a))"

definition final_artifact :: "json \<Rightarrow> json dict \<Rightarrow> string \<Rightarrow> string \<Rightarrow> string \<Rightarrow> json \<Rightarrow> json" where
  "final_artifact source plan fmt k backend v =
     (case v of
        JObj a \<Rightarrow> JObj (set_default ''schema_version'' (JInt 1) (set_default ''producer'' (JObj [(''backend'', JStr backend)])
          (step_artifact source plan fmt k a)))
      | _ \<Rightarrow> v)"

section \<open>The loop over the steps\<close>

record conversion_run =
  cr_source :: json
  cr_plan :: "json dict"
  cr_format :: string
  cr_kind :: string
  cr_options :: "json dict"
  cr_name :: "string option"
  cr_workspace :: string
  cr_backend :: string
  cr_total :: nat

definition step_dir :: "conversion_run \<Rightarrow> nat \<Rightarrow> string" where
  "step_dir R i = subpath (cr_workspace R) (''step-'' @ zfill 2 (str_of_nat (i + 1)))"

definition step_call :: "stage_cfg \<Rightarrow> conversion_run \<Rightarrow> nat \<Rightarrow> json dict \<Rightarrow> json dict \<Rightarrow> convert_call" where
  "step_call C R i step current =
     (let fmt = text_or C step ''to_format'' (cr_format R) in
      \<lparr>call_input = current, call_dir = step_dir R i, call_format = fmt,
       call_kind = target_kind_for_step (text_or C current ''kind'' (cr_kind R)) fmt (cr_kind R) (Suc i = cr_total R),
       call_options = cr_options R\<rparr>)"

definition next_artifact :: "stage_cfg \<Rightarrow> conversion_run \<Rightarrow> convert_call \<Rightarrow> json dict \<Rightarrow> json dict" where
  "next_artifact C R c result =
     (let made = (case first_artifact result of Some a \<Rightarrow> a | None \<Rightarrow> []) in
      step_artifact (cr_source R) (cr_plan R) (call_format c) (call_kind c)
        (if made \<noteq> [] then made
         else synthesized_artifact C (call_input c) result (call_dir c) (call_format c) (call_kind c) (cr_name R) (cr_backend R) (cr_plan R)))"

fun convert_steps ::
  "converter \<Rightarrow> conversion_run \<Rightarrow> nat \<Rightarrow> json dict list \<Rightarrow> json dict \<Rightarrow> json dict \<Rightarrow> convert_call list \<Rightarrow>
   convert_call list \<times> progress_note list \<times> (exn + (json dict \<times> json dict))" where
  "convert_steps W R i [] current output done = (done, [Phase_Completed], Inr (current, output))"
| "convert_steps W R i (s # ss) current output done =
     (let c = step_call (cv_stage (cw_conv W)) R i s current in
      case cw_convert W done c of
        Inl e \<Rightarrow> (done @ [c], [], Inl e)
      | Inr result \<Rightarrow>
          let r = convert_steps W R (Suc i) ss (next_artifact (cv_stage (cw_conv W)) R c result) result (done @ [c]) in
          (fst r, Phase_Progress (Suc i) (cr_total R) # fst (snd r), snd (snd r)))"

section \<open>The handler\<close>

definition planned_steps :: "json dict \<Rightarrow> string \<Rightarrow> json dict list" where
  "planned_steps plan target =
     (let steps = (case jget plan ''steps'' of JList vs \<Rightarrow> map obj_fields (filter is_obj vs) | _ \<Rightarrow> []) in
      if steps = [] then [[(''to_format'', JStr target)]] else steps)"

definition conversion_outputs ::
  "conversion_run \<Rightarrow> json dict list \<Rightarrow> json dict \<Rightarrow> json dict \<Rightarrow> json dict" where
  "conversion_outputs R steps current output =
     (let found = (case jget output ''artifacts'' of JList vs \<Rightarrow> if vs = [] then [JObj current] else vs | _ \<Rightarrow> [JObj current]);
          arts = map (final_artifact (cr_source R) (cr_plan R) (cr_format R) (cr_kind R) (cr_backend R)) found in
      AList.update ''artifacts'' (JList arts) (put_all output
        [(''source_artifact_id'', cr_source R), (''target_format'', JStr (cr_format R)), (''target_kind'', JStr (cr_kind R)),
         (''workspace'', JStr (cr_workspace R)), (''step_workspaces'', JList (map (JStr \<circ> step_dir R) [0..<length steps])),
         (''conversion_steps'', JList (map (\<lambda>s. JObj
            (map (\<lambda>k. (k, jget s k)) [''from_format'', ''to_format'', ''lossless'', ''contract_id''])) steps))]))"

text \<open>
  \<open>inputs["artifact"]\<close> and the like raise \<open>KeyError\<close>; \<open>dict(v)\<close> of what is not an object raises, but
  for empty lists and strings. (It also takes a list of pairs, which no task holds.)
\<close>

definition raised :: "string \<Rightarrow> string \<Rightarrow> submit_error + 'a" where
  "raised nm msg = Inl (Submission \<lparr>exn_name = nm, exn_backend_unavailable = False, exn_text = msg\<rparr>)"

definition needed :: "json dict \<Rightarrow> string \<Rightarrow> submit_error + json" where
  "needed d k = (case map_of d k of None \<Rightarrow> raised ''KeyError'' (py_repr k) | Some v \<Rightarrow> Inr v)"

fun as_dict :: "json \<Rightarrow> submit_error + json dict" where
  "as_dict (JObj d) = Inr d"
| "as_dict (JList []) = Inr []"
| "as_dict (JStr []) = Inr []"
| "as_dict (JStr (c # s)) = raised ''ValueError'' ''dictionary update sequence element #0 has length 1; 2 is required''"
| "as_dict (JList (v # vs)) = raised ''TypeError'' ''cannot convert dictionary update sequence element #0 to a sequence''"
| "as_dict v = raised ''TypeError'' (quoted (type_name v) @ '' object is not iterable'')"

text \<open>\<open>read_state(task)\<close>.\<close>

definition read_state :: "task_row \<Rightarrow> json dict \<times> json dict" where
  "read_state t =
     (let m = (case task_state_json t of Some (JObj m) \<Rightarrow> m | _ \<Rightarrow> []) in
      (obj_fields (jget m ''inputs''), obj_fields (jget m ''spec'')))"

definition conversion_run_of :: "converter \<Rightarrow> task_row \<Rightarrow> submit_error + (json dict \<times> conversion_run)" where
  "conversion_run_of W t =
     (let C = cv_stage (cw_conv W); (inputs, spec) = read_state t in
      andthen (andthen (needed inputs ''artifact'') as_dict) (\<lambda>artifact.
      andthen (needed spec ''target_format'') (\<lambda>fmt.
      andthen (needed spec ''target_kind'') (\<lambda>k.
      andthen (needed inputs ''project_id'') (\<lambda>pid.
      andthen (checked (resolve_backend (cw_conv W)
        (if jget spec ''provider'' = JNull then None else Some (json_text C (jget spec ''provider''))))) (\<lambda>b.
      if \<not> bv_converts b then
        Inl (Rejected (capability_unavailable ''artifacts.convert''
          (''Backend '' @ py_repr (bv_name b) @ '' does not implement convert_artifact().'')))
      else
        let plan = obj_fields (jget inputs ''plan'') in
        Inr (artifact,
          \<lparr>cr_source = jget artifact ''artifact_id'', cr_plan = plan, cr_format = json_text C fmt, cr_kind = json_text C k,
           cr_options = [],
           cr_name = (if jget spec ''name'' = JNull then None else Some (json_text C (jget spec ''name''))),
           cr_workspace = subpath (subpath (subpath (subpath (project_root C (tenant_id t) (json_text C pid)) ''jobs'') (task_job_id t))
             ''artifact_conversions'') (task_id t),
           cr_backend = bv_name b, cr_total = length (planned_steps plan (json_text C fmt))\<rparr>)))))))"

definition run_conversion :: "converter \<Rightarrow> task_row \<Rightarrow> convert_call list \<times> progress_note list \<times> (submit_error + json dict)" where
  "run_conversion W t =
     (case conversion_run_of W t of
        Inl e \<Rightarrow> ([], [], Inl e)
      | Inr (artifact, R) \<Rightarrow>
          let steps = planned_steps (cr_plan R) (cr_format R);
              begun = [Phase_Started, Phase_Progress 0 (cr_total R)] in
          case as_dict (json_or (jget (snd (read_state t)) ''options'') (JObj [])) of
            Inl e \<Rightarrow> ([], begun, Inl e)
          | Inr options \<Rightarrow>
              let (calls, notes, r) = convert_steps W (R\<lparr>cr_options := options\<rparr>) 0 steps artifact [] [] in
              (calls, begun @ notes, map_sum Submission (\<lambda>(current, output). conversion_outputs R steps current output) r))"

end
