(* ===== verification/Conversion_Worker_Correct.thy ===== *)
theory Conversion_Worker_Correct
  imports Conversion_Worker Conversion_Correct
begin

text \<open>
  The handler runs the chain that was planned when the conversion was submitted, one call a step,
  each on the artifact of the step before; and what a chain of several steps loses.
\<close>

section \<open>Directories of the steps\<close>

lemma unfill: "fold (\<lambda>c n. 10 * n + digit_value c) (zfill k (str_of_nat n)) 0 = int n"
proof -
  have "fold (\<lambda>c n. 10 * n + digit_value c) (replicate m (CHR ''0'')) 0 = 0" for m
    by (induction m) (simp_all add: digit_value_def)
  then show ?thesis by (simp add: zfill_def fold_digits)
qed

lemma step_dir_inj: "step_dir R i = step_dir R j \<longleftrightarrow> i = j"
proof
  assume "step_dir R i = step_dir R j"
  then have "zfill 2 (str_of_nat (Suc i)) = zfill 2 (str_of_nat (Suc j))" by (simp add: step_dir_def subpath_def)
  then have "int (Suc i) = int (Suc j)" by (metis unfill)
  then show "i = j" by simp
qed simp

section \<open>The calls of a run\<close>

fun handed_on ::
  "converter \<Rightarrow> conversion_run \<Rightarrow> convert_call list \<Rightarrow> json dict \<Rightarrow> convert_call list \<Rightarrow> bool" where
  "handed_on W R done current [] = True"
| "handed_on W R done current (c # cs) =
     (call_input c = current \<and>
      (case cw_convert W done c of
         Inl e \<Rightarrow> cs = []
       | Inr result \<Rightarrow> handed_on W R (done @ [c]) (next_artifact (cv_stage (cw_conv W)) R c result) cs))"

definition step_format :: "stage_cfg \<Rightarrow> conversion_run \<Rightarrow> json dict \<Rightarrow> string" where
  "step_format C R s = text_or C s ''to_format'' (cr_format R)"

lemma step_call_fields [simp]:
  "call_input (step_call C R i s a) = a" "call_dir (step_call C R i s a) = step_dir R i"
  "call_format (step_call C R i s a) = step_format C R s"
  by (simp_all add: step_call_def Let_def step_format_def)

lemma final_kind: "Suc i = cr_total R \<Longrightarrow> call_kind (step_call C R i s a) = cr_kind R"
  by (simp add: step_call_def Let_def target_kind_for_step_def)

lemma steps_run:
  assumes "convert_steps W R i ss a out done = (calls, told, r)"
  shows "\<exists>new. calls = done @ new \<and> handed_on W R done a new \<and>
     map call_format new = take (length new) (map (step_format (cv_stage (cw_conv W)) R) ss) \<and>
     map call_dir new = map (step_dir R) [i..<i + length new] \<and> (ss \<noteq> [] \<longrightarrow> new \<noteq> []) \<and>
     (\<forall>v. r = Inr v \<longrightarrow> length new = length ss \<and>
       (i + length ss = cr_total R \<longrightarrow> ss \<noteq> [] \<longrightarrow> call_kind (last new) = cr_kind R))"
  using assms
proof (induction ss arbitrary: i a out "done" calls told r)
  case (Cons s ss)
  let ?c = "step_call (cv_stage (cw_conv W)) R i s a"
  show ?case
  proof (cases "cw_convert W done ?c")
    case (Inl e)
    with Cons.prems have "calls = done @ [?c]" "r = Inl e" by (auto simp: Let_def)
    then show ?thesis using Inl by (intro exI [of _ "[?c]"]) simp
  next
    case (Inr v)
    obtain calls' told' r' where rec: "convert_steps W R (Suc i) ss (next_artifact (cv_stage (cw_conv W)) R ?c v) v (done @ [?c]) = (calls', told', r')"
      by (metis prod_cases3)
    then have eq: "calls = calls'" "r = r'" using Cons.prems Inr by (auto simp: Let_def)
    from Cons.IH [OF rec] obtain new where new: "calls' = (done @ [?c]) @ new"
      "handed_on W R (done @ [?c]) (next_artifact (cv_stage (cw_conv W)) R ?c v) new"
      "map call_format new = take (length new) (map (step_format (cv_stage (cw_conv W)) R) ss)"
      "map call_dir new = map (step_dir R) [Suc i..<Suc i + length new]" "ss \<noteq> [] \<longrightarrow> new \<noteq> []"
      "\<And>v. r' = Inr v \<Longrightarrow> length new = length ss \<and> (Suc i + length ss = cr_total R \<longrightarrow> ss \<noteq> [] \<longrightarrow> call_kind (last new) = cr_kind R)"
      by blast
    have dirs: "map call_dir (?c # new) = map (step_dir R) [i..<i + length (?c # new)]"
      using new(4) upt_conv_Cons [of i "i + length (?c # new)"] by simp
    have last: "call_kind (last (?c # new)) = cr_kind R" if "r' = Inr u" "i + length (s # ss) = cr_total R" for u
    proof (cases "ss = []")
      case True
      then have "new = []" using new(6) [OF that(1)] by simp
      then show ?thesis using that(2) True by (simp add: final_kind)
    next
      case False
      then show ?thesis using new(5,6) that by simp
    qed
    show ?thesis
      using new(1-3,6) Inr dirs last by (intro exI [of _ "?c # new"]) (simp add: eq)
  qed
qed auto

section \<open>From the submission to the run\<close>

lemma plan_fields [simp]:
  "jget (obj_fields (plan_json p)) ''steps'' = JList (map step_json (pl_steps p))"
  by (simp add: plan_json_def jget_def)

lemma planned_of_plan:
  assumes "pl_steps p \<noteq> []"
  shows "planned_steps (obj_fields (plan_json p)) target = map (\<lambda>s. obj_fields (step_json s)) (pl_steps p)"
proof -
  have "filter is_obj (map step_json ss) = map step_json ss" for ss by (induction ss) (simp_all add: step_json_def)
  then show ?thesis using assms by (simp add: planned_steps_def Let_def)
qed

lemma step_format_of_plan:
  assumes "to_format s \<noteq> []"
  shows "step_format C R (obj_fields (step_json s)) = to_format s"
  using assms by (simp add: step_format_def text_or_def step_json_def jget_def json_or_def json_text_def)

text \<open>
  What a run for a conversion request does: its calls follow a shortest chain of the declared
  conversions, stop at the first that raises, and a run that returns has made them all.
\<close>

definition runs_chain ::
  "converter \<Rightarrow> conv_cfg \<Rightarrow> conversion_request \<Rightarrow> artifact_row \<Rightarrow> string \<Rightarrow> convert_call list \<Rightarrow> bool \<Rightarrow> bool" where
  "runs_chain W C q a target calls returned \<longleftrightarrow>
     (\<exists>f targets steps p k R.
        artifact_format_of a = Some f \<and> target_formats q = Inr targets \<and>
        conversion_steps C (cq_provider q) = Inr steps \<and> best_conversion steps (cq_lossless q) targets f (Some (target, pl_steps p)) \<and>
        is_format_compatible_with_kind (sc_format_type (cv_stage C)) k target \<and>
        cr_source R = JStr (artifact_id a) \<and> cr_format R = target \<and> cr_kind R = k \<and> cr_plan R = obj_fields (plan_json p) \<and>
        handed_on W R [] (obj_fields (artifact_reference (sc_format_type (cv_stage C)) a)) calls \<and>
        map call_format calls = take (length calls) (map to_format (pl_steps p)) \<and> distinct (map call_dir calls) \<and>
        (returned \<longrightarrow> length calls = length (pl_steps p) \<and> call_kind (last calls) = k))"

lemma chain_steps: "conversion_chain S l f p t \<Longrightarrow> set p \<subseteq> set S"
  by (induction p arbitrary: f) auto

lemma run_of_task:
  assumes "conversion_run_of W t = Inr (artifact, R)"
  shows "needed (fst (read_state t)) ''artifact'' = Inr (JObj artifact) \<or> artifact = []"
    and "cr_source R = jget artifact ''artifact_id''"
    and "\<exists>v. needed (snd (read_state t)) ''target_format'' = Inr v \<and> cr_format R = json_text (cv_stage (cw_conv W)) v"
    and "\<exists>v. needed (snd (read_state t)) ''target_kind'' = Inr v \<and> cr_kind R = json_text (cv_stage (cw_conv W)) v"
    and "cr_plan R = obj_fields (jget (fst (read_state t)) ''plan'')"
    and "cr_total R = length (planned_steps (cr_plan R) (cr_format R))"
proof -
  obtain inputs spec where st: "read_state t = (inputs, spec)" by (cases "read_state t")
  obtain v where v: "needed inputs ''artifact'' = Inr v" "as_dict v = Inr artifact"
    using assms by (auto simp: conversion_run_of_def st Let_def andthen_Inr split: if_splits)
  show "needed (fst (read_state t)) ''artifact'' = Inr (JObj artifact) \<or> artifact = []"
    using v by (cases v rule: as_dict.cases) (auto simp: st raised_def)
qed (use assms in \<open>auto simp: conversion_run_of_def Let_def andthen_Inr split: prod.splits if_splits\<close>)

lemma read_state_of_task: "read_state t = (task_inputs t, obj_fields (task_spec t))"
  by (simp add: read_state_def task_inputs_def task_spec_def jget_def split: option.splits json.splits)

lemma run_follows_plan:
  assumes plan: "follows_plan C a q project [t] target provider" and run: "run_conversion W t = (calls, told, r)"
    and named: "\<forall>steps. conversion_steps C (cq_provider q) = Inr steps \<longrightarrow> list_all (\<lambda>s. to_format s \<noteq> []) steps"
    and some: "calls \<noteq> []"
  shows "runs_chain W C q a target calls (\<exists>out. r = Inr out)"
proof -
  let ?ref = "artifact_reference (sc_format_type (cv_stage C)) a"
  obtain f targets steps p k spec where
    f: "artifact_format_of a = Some f" "target_formats q = Inr targets" "conversion_steps C (cq_provider q) = Inr steps"
      "best_conversion steps (cq_lossless q) targets f (Some (target, pl_steps p))" "pl_steps p \<noteq> []"
      "is_format_compatible_with_kind (sc_format_type (cv_stage C)) k target"
    and spec: "jget spec ''target_format'' = JStr target" "jget spec ''target_kind'' = JStr k"
    and task: "single_task [t] ''convert_artifact'' [(''artifact'', ?ref), (''project_id'', JStr project), (''plan'', plan_json p)] spec"
    using plan by (auto simp: follows_plan_def)
  have st: "read_state t = ([(''artifact'', ?ref), (''project_id'', JStr project), (''plan'', plan_json p)], spec)"
    using task by (simp add: read_state_of_task single_task_def)
  obtain artifact R0 where R0: "conversion_run_of W t = Inr (artifact, R0)"
    using run some by (auto simp: run_conversion_def split: sum.splits)
  have needed: "needed spec x = Inr v" if "jget spec x = JStr s" "v = JStr s" for x v s
    using that by (simp add: needed_def jget_def split: option.splits)
  have ref: "?ref = JObj (obj_fields ?ref)" by (simp add: artifact_reference_def)
  have arts: "artifact = obj_fields ?ref" using R0 ref unfolding conversion_run_of_def st
    by (cases ?ref) (auto simp: needed_def andthen_Inr Let_def split: if_splits)
  have R: "cr_source R0 = JStr (artifact_id a)" "cr_format R0 = target" "cr_kind R0 = k" "cr_plan R0 = obj_fields (plan_json p)"
    "cr_total R0 = length (pl_steps p)"
    using run_of_task [OF R0] needed [OF spec(1) refl] needed [OF spec(2) refl] f(5)
    by (simp_all add: st jget_def json_text_def planned_of_plan) (simp add: arts artifact_reference_def jget_def)
  let ?ss = "map (\<lambda>s. obj_fields (step_json s)) (pl_steps p)"
  obtain R told' r' where go: "convert_steps W R 0 ?ss artifact [] [] = (calls, told', r')"
    and same: "cr_source R = cr_source R0" "cr_format R = cr_format R0" "cr_kind R = cr_kind R0" "cr_total R = cr_total R0" "cr_plan R = cr_plan R0"
    and ret: "(\<exists>out. r = Inr out) \<longrightarrow> (\<exists>v. r' = Inr v)"
  proof -
    obtain opts where o: "as_dict (json_or (jget (snd (read_state t)) ''options'') (JObj [])) = Inr opts"
      using run some by (auto simp: run_conversion_def R0 Let_def split: sum.splits)
    obtain told' r' where g: "convert_steps W (R0\<lparr>cr_options := opts\<rparr>) 0 ?ss artifact [] [] = (calls, told', r')"
      and r: "r = map_sum Submission (\<lambda>(current, output). conversion_outputs R0 ?ss current output) r'"
      using run o by (auto simp: run_conversion_def R0 Let_def R planned_of_plan [OF f(5)] split: prod.splits)
    show thesis by (rule that [OF g]) (use r in \<open>(cases r'; auto)+\<close>)
  qed
  have chain: "conversion_chain steps (cq_lossless q) f (pl_steps p) target" using f(4) by (simp add: best_conversion_def)
  have names: "s \<in> set (pl_steps p) \<Longrightarrow> to_format s \<noteq> []" for s
    using named f(3) chain_steps [OF chain] by (auto simp: list_all_iff)
  have formats: "map (step_format (cv_stage (cw_conv W)) R) ?ss = map to_format (pl_steps p)"
    using names by (simp add: step_format_of_plan)
  from steps_run [OF go] have calls: "handed_on W R [] artifact calls" "map call_format calls = take (length calls) (map to_format (pl_steps p))"
    "map call_dir calls = map (step_dir R) [0..<length calls]"
    "\<And>v. r' = Inr v \<Longrightarrow> length calls = length (pl_steps p) \<and> call_kind (last calls) = cr_kind R"
    unfolding formats using f(5) by (auto simp: same R)
  have "distinct (map call_dir calls)"
    unfolding calls(3) by (simp add: distinct_map inj_on_def step_dir_inj)
  then show ?thesis
    unfolding runs_chain_def using f calls ret R same arts by (intro exI [of _ f] exI [of _ targets] exI [of _ steps] exI [of _ p] exI [of _ k] exI [of _ R]) auto
qed

text \<open>
  The worker runs the plan of the submission: its calls to the backend, in order and each in a
  directory of its own, convert the artifact of the request along a shortest chain of declared
  conversions, every call on what the call before answered; a call that raises is the last one,
  and a run that returns made them all and asked the last for the target format and kind. The
  declared conversions are assumed to name their formats.
\<close>

theorem conversion_worker_runs_plan:
  assumes "submit_conversion C F tenant aid q d = Inr ((d', jid, rows, ready), target, provider)"
    and "t \<in> set rows" and "run_conversion W t = (calls, told, r)" and "calls \<noteq> []"
    and "\<forall>steps. conversion_steps C (cq_provider q) = Inr steps \<longrightarrow> list_all (\<lambda>s. to_format s \<noteq> []) steps"
  shows "list_ex (\<lambda>a. artifact_id a = aid \<and> artifact_tenant_id a = tenant \<and> runs_chain W C q a target calls (\<exists>out. r = Inr out))
    (stage_artifacts (resources d))"
proof -
  obtain a where a: "a \<in> set (stage_artifacts (resources d))" "artifact_id a = aid" "artifact_tenant_id a = tenant"
    "\<exists>project. follows_plan C a q project rows target provider"
    using submitted_follows [OF assms(1)] by blast
  then have "rows = [t]" using assms(2) by (auto simp: follows_plan_def single_task_def)
  with run_follows_plan [OF _ assms(3,5,4)] a show ?thesis by (auto simp: list_ex_iff)
qed

section \<open>What a chain of several steps loses\<close>

lemma map_of_set_default:
  "map_of (set_default k v d) x = (if x = k \<and> map_of d k = None then Some v else map_of d x)"
  by (simp add: set_default_def map_add_def split: option.split)

lemma jget_step_artifact:
  "jget (step_artifact source plan fmt k a) ''metadata'' =
     JObj (set_default ''conversion'' (JObj plan) (set_default ''source_artifact_id'' source (obj_fields (jget a ''metadata''))))"
  "x \<notin> {''metadata'', ''kind'', ''artifact_format''} \<Longrightarrow> jget (step_artifact source plan fmt k a) x = jget a x"
  by (simp_all add: jget_def step_artifact_def lineage_def map_of_set_default)

lemma jget_final_artifact:
  "\<exists>b. final_artifact source plan fmt k backend (JObj a) = JObj b \<and>
     jget b ''metadata'' = jget (step_artifact source plan fmt k a) ''metadata''"
  by (simp add: final_artifact_def jget_def map_of_set_default)

lemma jget_synthesized:
  "jget (synthesized_artifact C a res dir fmt k nm backend plan) ''artifact_id'' = JNull"
  "obj_fields (jget (synthesized_artifact C a res dir fmt k nm backend plan) ''metadata'') =
     [(''source_artifact_id'', jget a ''artifact_id''), (''conversion'', JObj plan)]"
  unfolding synthesized_artifact_def Let_def by (simp_all add: jget_def)

lemma synthesized_step:
  assumes "first_artifact result = None"
  shows "jget (next_artifact C R c result) ''artifact_id'' = JNull"
    and "\<exists>m. jget (next_artifact C R c result) ''metadata'' = JObj m \<and> map_of m ''source_artifact_id'' = Some (jget (call_input c) ''artifact_id'')"
  using assms by (simp_all add: next_artifact_def jget_step_artifact jget_synthesized map_of_set_default)

lemma mapped_Inr: "map_sum f g x = Inr y \<Longrightarrow> \<exists>v. x = Inr v \<and> y = g v"
  by (cases x) simp_all

lemma silent_steps:
  assumes "convert_steps W R i ss a out made = (calls, told, Inr (b, res))" and "\<And>h c. cw_convert W h c = Inr []"
    and "ss \<noteq> []" and "2 \<le> length ss \<or> jget a ''artifact_id'' = JNull"
  shows "res = [] \<and> (\<exists>m. jget b ''metadata'' = JObj m \<and> map_of m ''source_artifact_id'' = Some JNull)"
  using assms(1,3,4)
proof (induction ss arbitrary: i a out made calls told)
  case (Cons s ss)
  let ?c = "step_call (cv_stage (cw_conv W)) R i s a"
  let ?n = "next_artifact (cv_stage (cw_conv W)) R ?c []"
  have silent: "first_artifact [] = None" by (simp add: first_artifact_def jget_def)
  obtain calls' told' where rec: "convert_steps W R (Suc i) ss ?n [] (made @ [?c]) = (calls', told', Inr (b, res))"
    using Cons.prems(1) by (cases "convert_steps W R (Suc i) ss ?n [] (made @ [?c])") (auto simp: Let_def assms(2))
  show ?case
  proof (cases "ss = []")
    case True
    then have "b = ?n" "res = []" using rec by auto
    moreover have "jget (call_input ?c) ''artifact_id'' = JNull" using Cons.prems(3) True by simp
    ultimately show ?thesis
      using synthesized_step(2) [OF silent, of "cv_stage (cw_conv W)" R ?c] by auto
  next
    case False
    then show ?thesis using Cons.IH [OF rec] synthesized_step(1) [OF silent] by simp
  qed
qed simp

text \<open>
  A step whose backend names no artifact gets one whose \<open>source_artifact_id\<close> is that of the artifact
  it converted. From the second step on that is an artifact of the chain, which has no id, and the
  null it leaves is not replaced at the end: the result of a chain of two steps or more does not
  say where it came from.
\<close>

theorem chains_lose_their_source:
  assumes "run_conversion W t = (calls, told, Inr out)" and "\<And>h c. cw_convert W h c = Inr []" and "2 \<le> length calls"
  shows "\<exists>b. jget out ''artifacts'' = JList [JObj b] \<and>
    jget (obj_fields (jget b ''metadata'')) ''source_artifact_id'' = JNull"
proof -
  obtain artifact R0 where R0: "conversion_run_of W t = Inr (artifact, R0)"
    using assms(1) by (auto simp: run_conversion_def split: sum.splits)
  let ?ss = "planned_steps (cr_plan R0) (cr_format R0)"
  obtain opts where o: "as_dict (json_or (jget (snd (read_state t)) ''options'') (JObj [])) = Inr opts"
    using assms(1) by (auto simp: run_conversion_def R0 Let_def split: sum.splits)
  obtain told' b res where g: "convert_steps W (R0\<lparr>cr_options := opts\<rparr>) 0 ?ss artifact [] [] = (calls, told', Inr (b, res))"
    and out: "out = conversion_outputs R0 ?ss b res"
    using assms(1) o by (auto simp: run_conversion_def R0 Let_def split: prod.splits dest!: mapped_Inr)
  have "length calls = length ?ss" using steps_run [OF g] by auto
  then have two: "?ss \<noteq> []" "2 \<le> length ?ss" using assms(3) by auto
  from silent_steps [OF g assms(2) two(1)] two(2) obtain m where
    m: "res = []" "jget b ''metadata'' = JObj m" "map_of m ''source_artifact_id'' = Some JNull" by blast
  obtain c where c: "final_artifact (cr_source R0) (cr_plan R0) (cr_format R0) (cr_kind R0) (cr_backend R0) (JObj b) = JObj c"
    "jget c ''metadata'' = jget (step_artifact (cr_source R0) (cr_plan R0) (cr_format R0) (cr_kind R0) b) ''metadata''"
    using jget_final_artifact by blast
  have "jget out ''artifacts'' = JList [JObj c]"
    unfolding out m(1) conversion_outputs_def Let_def by (simp add: jget_def c(1))
  moreover have "jget (obj_fields (jget c ''metadata'')) ''source_artifact_id'' = JNull"
    unfolding c(2) jget_step_artifact(1) m(2) using m(3) by (simp add: jget_def map_of_set_default)
  ultimately show ?thesis by blast
qed

text \<open>\<open>str(Path(uri))\<close> makes one slash of two, so the URI of a synthesised artifact has no authority.\<close>

lemma synthesized_uris_are_broken:
  "jget (synthesized_artifact C a [(''uri'', JStr ''s3://bucket/key'')] dir fmt k nm b plan) ''uri'' = JStr ''s3:/bucket/key''"
  by (simp add: synthesized_artifact_def jget_def json_or_def Let_def path_text_def starts_def)

section \<open>A run\<close>

definition demo_worker :: converter where
  "demo_worker = \<lparr>cw_conv = demo_converter [], cw_convert = (\<lambda>before c. Inr [])\<rparr>"

lemma demo_task:
  assumes "submit_conversion (demo_converter []) (demo_ids ''1'') ''default'' ''a1'' demo_conversion demo_owned =
    Inr ((d', jid, rows, ready), target, v)"
  shows "\<exists>t p j ref. rows = [t] \<and> read_state t = ([(''artifact'', JObj ref), (''project_id'', JStr j), (''plan'', plan_json p)],
    conversion_spec demo_conversion p ''custom'')"
proof -
  let ?C = "demo_converter []"
  have a: "get_artifact ''default'' ''a1'' (stage_artifacts (resources demo_owned)) = Inr demo_source"
    by (simp add: get_artifact_def demo_owned_def demo_source_def)
  obtain p where p: "plan_conversion_for_artifact ?C demo_source demo_conversion = Inr p"
    "pl_executable p" "pl_required p" "pl_target p = ''y.v1''"
    using demo_plan by blast
  have j: "find_job (jobs demo_owned) (artifact_job_id demo_source) = Some (blank_job\<lparr>job_id := ''j0'', job_project_id := ''p''\<rparr>)"
    by (simp add: demo_owned_def demo_source_def find_job_def)
  have kind: "target_kind (artifact_kind demo_source) ''y.v1'' (cq_to_kind demo_conversion) = ''custom''" by code_simp
  obtain jspec where run: "submit_nodes (cv_stage ?C) (demo_ids ''1'') ''default'' ''p'' ''artifact_conversion'' jspec
      [conversion_node ?C (demo_ids ''1'') demo_source (blank_job\<lparr>job_id := ''j0'', job_project_id := ''p''\<rparr>) p
        (conversion_spec demo_conversion p ''custom'')] demo_owned = Inr (d', jid, rows, ready)"
    using assms p(2,3)
    by (auto simp: submit_conversion_def a p(1,4) j kind demo_resolved refused_def raising_def Let_def andthen_Inr split: if_splits)
  obtain ref where ref: "artifact_reference (sc_format_type (cv_stage ?C)) demo_source = JObj ref" by (simp add: artifact_reference_def)
  from run have "single_task rows ''convert_artifact'' [(''artifact'', JObj ref), (''project_id'', JStr ''p''), (''plan'', plan_json p)]
      (conversion_spec demo_conversion p ''custom'')"
    unfolding conversion_node_def using conversion_rows by (simp add: ref)
  then show ?thesis by (auto simp: single_task_def read_state_of_task)
qed

lemma demo_run:
  assumes "read_state t = ([(''artifact'', JObj ref), (''project_id'', JStr j), (''plan'', plan_json p)],
    conversion_spec demo_conversion p ''custom'')"
  shows "fst (run_conversion demo_worker t) \<noteq> []"
proof -
  have spec: "needed (conversion_spec demo_conversion p ''custom'') ''target_format'' = Inr (JStr (pl_target p))"
    "needed (conversion_spec demo_conversion p ''custom'') ''target_kind'' = Inr (JStr ''custom'')"
    "jget (conversion_spec demo_conversion p ''custom'') ''provider'' = JNull"
    "jget (conversion_spec demo_conversion p ''custom'') ''options'' = JObj []"
    by (simp_all add: conversion_spec_def needed_def jget_def demo_conversion_def)
  have backend: "resolve_backend (cw_conv demo_worker) None = Inr (demo_view [demo_contract])" "bv_converts (demo_view [demo_contract])"
    by (simp_all add: demo_worker_def demo_backend) (simp add: demo_view_def)
  obtain R where R: "conversion_run_of demo_worker t = Inr (ref, R)"
    unfolding conversion_run_of_def assms Let_def
    using spec backend by (simp add: needed_def [of "[_, _, _]"])
  let ?ss = "planned_steps (cr_plan R) (cr_format R)"
  obtain calls told r where go: "convert_steps demo_worker (R\<lparr>cr_options := []\<rparr>) 0 ?ss ref [] [] = (calls, told, r)"
    by (metis prod_cases3)
  have "?ss \<noteq> []" by (simp add: planned_steps_def Let_def)
  then have "calls \<noteq> []" using steps_run [OF go] by auto
  then show ?thesis
    by (simp add: run_conversion_def R assms spec(4) json_or_def Let_def go)
qed

lemma conversion_worker_runs_plan_witness:
  "\<exists>t calls told r. run_conversion demo_worker t = (calls, told, r) \<and> calls \<noteq> [] \<and>
     list_ex (\<lambda>a. artifact_id a = ''a1'' \<and> artifact_tenant_id a = ''default'' \<and>
       runs_chain demo_worker (demo_converter []) demo_conversion a ''y.v1'' calls (\<exists>out. r = Inr out)) [demo_source]"
proof -
  obtain s where "submit_conversion (demo_converter []) (demo_ids ''1'') ''default'' ''a1'' demo_conversion demo_owned =
      Inr (s, ''y.v1'', JNull)" using demo_converted by blast
  moreover obtain d' jid rows ready where "s = (d', jid, rows, ready)" by (cases s)
  ultimately have sub: "submit_conversion (demo_converter []) (demo_ids ''1'') ''default'' ''a1'' demo_conversion demo_owned =
      Inr ((d', jid, rows, ready), ''y.v1'', JNull)" by simp
  then obtain t p j ref where t: "rows = [t]" "read_state t = ([(''artifact'', JObj ref), (''project_id'', JStr j), (''plan'', plan_json p)],
    conversion_spec demo_conversion p ''custom'')" using demo_task by blast
  obtain calls told r where run: "run_conversion demo_worker t = (calls, told, r)" by (cases "run_conversion demo_worker t")
  with demo_run [OF t(2)] have some: "calls \<noteq> []" by simp
  have provider: "cq_provider demo_conversion = None" by (simp add: demo_conversion_def)
  have "list_ex (\<lambda>a. artifact_id a = ''a1'' \<and> artifact_tenant_id a = ''default'' \<and>
      runs_chain demo_worker (demo_converter []) demo_conversion a ''y.v1'' calls (\<exists>out. r = Inr out)) (stage_artifacts (resources demo_owned))"
    by (rule conversion_worker_runs_plan [OF sub _ run some]) (simp_all add: t(1) provider demo_steps)
  moreover have "stage_artifacts (resources demo_owned) = [demo_source]" by (simp add: demo_owned_def)
  ultimately show ?thesis using run some by auto
qed

definition demo_chain :: task_row where
  "demo_chain = blank_task\<lparr>task_state_json := Some (JObj
     [(''inputs'', JObj [(''artifact'', JObj [(''artifact_id'', JStr ''a1'')]), (''project_id'', JStr ''p''),
        (''plan'', JObj [(''steps'', JList [JObj [(''to_format'', JStr ''x'')], JObj [(''to_format'', JStr ''y'')]])])]),
      (''spec'', JObj [(''target_format'', JStr ''y''), (''target_kind'', JStr ''custom'')])])\<rparr>"

lemma demo_chain_run:
  "\<not> isl (snd (snd (run_conversion demo_worker demo_chain)))" "2 \<le> length (fst (run_conversion demo_worker demo_chain))"
  by code_simp+

lemma chains_lose_their_source_witness:
  "\<exists>out b. snd (snd (run_conversion demo_worker demo_chain)) = Inr out \<and> jget out ''artifacts'' = JList [JObj b] \<and>
     jget (obj_fields (jget b ''metadata'')) ''source_artifact_id'' = JNull"
proof -
  obtain calls told out where run: "run_conversion demo_worker demo_chain = (calls, told, Inr out)"
    using demo_chain_run(1)
    by (cases "run_conversion demo_worker demo_chain"; cases "snd (snd (run_conversion demo_worker demo_chain))") auto
  have "2 \<le> length calls" using demo_chain_run(2) by (simp add: run)
  then show ?thesis
    using chains_lose_their_source [OF run, unfolded demo_worker_def] run by (simp add: demo_worker_def)
qed

end
