(* ===== verification/Backend_Options.thy ===== *)
theory Backend_Options
  imports Pagination Artifact_Records Stages
begin

text \<open>
  \<open>adapters/backend_config.py\<close>: the option schemas that a backend publishes for its stages, the
  check of the \<open>backend_options\<close> of a request against them, and the contract that the schemas of
  a backend should satisfy.

  A backend is its name, what \<open>capabilities()\<close> answers (None when there is no such method or it
  raises) and its own listing of schemas, when it has one; the flag it gets tells whether schemas
  are wanted. The fields of a descriptor that are only shown (display name, description, defaults,
  metadata and links) are left out of the rows.
\<close>

record option_backend =
  ob_name :: string
  ob_capabilities :: "string list option"
  ob_listing :: "(bool \<Rightarrow> api_error + json dict list) option"

record option_row = descriptor +
  row_backend :: string
  row_capability :: "string option"
  row_provider :: "string option"
  row_schema :: "json dict option"

type_synonym printer = "rat \<Rightarrow> string"

definition text_of :: "printer \<Rightarrow> json \<Rightarrow> string" where
  "text_of fr v = (case v of JStr s \<Rightarrow> s | _ \<Rightarrow> json_repr fr v)"

definition option_text :: "printer \<Rightarrow> json \<Rightarrow> string option" where
  "option_text fr v = (if v = JNull then None else Some (text_of fr v))"

section \<open>Rows\<close>

definition infer_stage :: "string option \<Rightarrow> string" where
  "infer_stage capability =
     (case capability of
        None \<Rightarrow> ''other''
      | Some c \<Rightarrow>
          if c = [] then ''other''
          else if starts ''features.'' c then ''features''
          else if starts ''pairs.'' c then ''pairs''
          else if starts ''matchers.'' c then ''matcher''
          else if c = ''matches.verify'' then ''verify''
          else if starts ''map.'' c then ''mapping''
          else if starts ''ba.'' c then ''bundle_adjustment''
          else if starts ''radiance.'' c then ''radiance''
          else ''other'')"

text \<open>\<open>DescriptorRegistry.descriptor_id\<close> with the words of the config schemas.\<close>

definition config_id_of :: "printer \<Rightarrow> json dict \<Rightarrow> api_error + string" where
  "config_id_of fr raw =
     (let v = json_or (jget raw ''config_id'') (json_or (jget raw ''id'') (json_or (jget raw ''name'') (JStr [])));
          i = strip (text_of fr v) in
      if i = [] then raising ValidationError ''backend config schema descriptor missing config_id'' else Inr i)"

text \<open>\<open>raw.get("option_schema", raw.get("schema", raw.get("input_schema")))\<close>.\<close>

definition raw_schema :: "json dict \<Rightarrow> json" where
  "raw_schema raw =
     (case map_of raw ''option_schema'' of Some v \<Rightarrow> v
      | None \<Rightarrow> (case map_of raw ''schema'' of Some v \<Rightarrow> v | None \<Rightarrow> jget raw ''input_schema''))"

definition normalize_descriptor :: "printer \<Rightarrow> option_backend \<Rightarrow> bool \<Rightarrow> json dict \<Rightarrow> api_error + option_row" where
  "normalize_descriptor fr B include_schema raw =
     andthen (config_id_of fr raw) (\<lambda>i.
     let capability = option_text fr (jget raw ''capability''); schema = raw_schema raw in
     if schema \<noteq> JNull \<and> \<not> is_obj schema then
       raising ValidationError (i @ '': option_schema must be an object or null'')
     else Inr
       \<lparr>desc_id = i, desc_stage = Some (text_of fr (json_or (jget raw ''stage'') (JStr (infer_stage capability)))),
        row_backend = text_of fr (json_or (jget raw ''backend'') (JStr (ob_name B))),
        row_capability = capability, row_provider = option_text fr (jget raw ''provider''),
        row_schema = (if include_schema then Some (obj_fields schema) else None)\<rparr>)"

definition radiance_train_option_schema :: "json dict" where
  "radiance_train_option_schema =
     [(''type'', JStr ''object''), (''additionalProperties'', JBool False),
      (''properties'', JObj
        [(''num_gaussians'', JObj [(''type'', JStr ''integer''), (''minimum'', JInt 1),
            (''description'', JStr ''Gaussian/primitive cap (mapped to each engine's native cap option).'')]),
         (''max_resolution'', JObj [(''type'', JStr ''integer''), (''minimum'', JInt 1),
            (''description'', JStr (''Max training image dimension in px. Engines that train full-resolution '' @
               ''or take a scale factor (e.g. fastergs image_scale_factor) document the deviation.''))]),
         (''init'', JObj [(''type'', JStr ''string''), (''enum'', JList [JStr ''colmap'', JStr ''random'']),
            (''default'', JStr ''colmap''), (''description'', JStr ''Gaussian initialization source.'')]),
         (''test_every'', JObj [(''type'', JStr ''integer''), (''minimum'', JInt 1), (''default'', JInt 8),
            (''description'', JStr ''Hold out every Nth registered view as the evaluation split.'')])])]"

text \<open>A backend that can train radiance fields has the canonical schema of the training.\<close>

definition radiance_config_descriptors :: "option_backend \<Rightarrow> bool \<Rightarrow> option_row list" where
  "radiance_config_descriptors B include_schema =
     (case ob_capabilities B of
        None \<Rightarrow> []
      | Some cs \<Rightarrow>
          if ''radiance.train'' \<notin> set cs then []
          else [\<lparr>desc_id = ''radiance.train'', desc_stage = Some ''radiance'', row_backend = ob_name B,
                 row_capability = Some ''radiance.train'', row_provider = None,
                 row_schema = (if include_schema then Some radiance_train_option_schema else None)\<rparr>])"

definition list_backend_config_schemas :: "printer \<Rightarrow> option_backend \<Rightarrow> bool \<Rightarrow> api_error + option_row list" where
  "list_backend_config_schemas fr B include_schemas =
     andthen (case ob_listing B of None \<Rightarrow> Inr None | Some f \<Rightarrow> map_sum id Some (f include_schemas)) (\<lambda>raws.
     list_rows (Some config_stage_order) True (normalize_descriptor fr B include_schemas) raws
       (radiance_config_descriptors B include_schemas))"

text \<open>\<open>probe_listing\<close>: a listing that fails counts as empty.\<close>

definition has_backend_config_schemas :: "printer \<Rightarrow> option_backend \<Rightarrow> bool" where
  "has_backend_config_schemas fr B =
     (case list_backend_config_schemas fr B False of Inl e \<Rightarrow> False | Inr rows \<Rightarrow> rows \<noteq> [])"

definition get_backend_config_schema :: "printer \<Rightarrow> option_backend \<Rightarrow> string \<Rightarrow> api_error + option_row" where
  "get_backend_config_schema fr B i =
     andthen (list_backend_config_schemas fr B True) (\<lambda>rows. get_row ''Backend config schema'' rows i)"

section \<open>Values against a schema\<close>

text \<open>
  Python's equality of JSON values: True is 1 and 1.0, an object does not care for the order of its
  keys, and NaN equals nothing.
\<close>

fun canonical :: "json \<Rightarrow> json" where
  "canonical (JBool b) = JFloat (Fin (if b then 1 else 0))"
| "canonical (JInt i) = JFloat (Fin (of_int i))"
| "canonical (JList xs) = JList (map canonical xs)"
| "canonical (JObj d) = JObj (sort_key fst (map (\<lambda>(k, v). (k, canonical v)) d))"
| "canonical v = v"

fun has_nan :: "json \<Rightarrow> bool" where
  "has_nan (JFloat f) = (f = NaN)"
| "has_nan (JList xs) = list_ex has_nan xs"
| "has_nan (JObj d) = list_ex (\<lambda>(k, v). has_nan v) d"
| "has_nan v = False"

definition py_equal :: "json \<Rightarrow> json \<Rightarrow> bool" where
  "py_equal a b \<longleftrightarrow> canonical a = canonical b \<and> \<not> has_nan a"

definition type_error :: "string \<Rightarrow> exn + 'a" where
  "type_error msg = Inl \<lparr>exn_name = ''TypeError'', exn_backend_unavailable = False, exn_text = msg\<rparr>"

text \<open>\<open>value in choices\<close>: membership, substring or key.\<close>

fun in_choices :: "json \<Rightarrow> json \<Rightarrow> exn + bool" where
  "in_choices v (JList xs) = Inr (list_ex (py_equal v) xs)"
| "in_choices v (JStr s) =
     (case v of JStr p \<Rightarrow> Inr (contains p s)
      | _ \<Rightarrow> type_error (quoted ''in <string>'' @ '' requires string as left operand, not '' @ type_name v))"
| "in_choices v (JObj d) =
     (case v of JStr k \<Rightarrow> Inr (k \<in> set (keys d))
      | JList xs \<Rightarrow> type_error (''unhashable type: '' @ quoted ''list'')
      | JObj o' \<Rightarrow> type_error (''unhashable type: '' @ quoted ''dict'')
      | _ \<Rightarrow> Inr False)"
| "in_choices v c = type_error (''argument of type '' @ quoted (type_name c) @ '' is not iterable'')"

fun listed :: "json \<Rightarrow> json list" where
  "listed (JList xs) = xs"
| "listed (JStr s) = map (\<lambda>c. JStr [c]) s"
| "listed (JObj d) = map JStr (keys d)"
| "listed v = []"

definition json_type_matches :: "json \<Rightarrow> string \<Rightarrow> bool" where
  "json_type_matches v expected =
     (if expected = ''null'' then v = JNull
      else if expected = ''boolean'' then (case v of JBool b \<Rightarrow> True | _ \<Rightarrow> False)
      else if expected = ''integer'' then (case v of JInt i \<Rightarrow> True | _ \<Rightarrow> False)
      else if expected = ''number'' then (case v of JInt i \<Rightarrow> True | JFloat f \<Rightarrow> True | _ \<Rightarrow> False)
      else if expected = ''string'' then (case v of JStr s \<Rightarrow> True | _ \<Rightarrow> False)
      else if expected = ''array'' then (case v of JList xs \<Rightarrow> True | _ \<Rightarrow> False)
      else if expected = ''object'' then is_obj v
      else True)"

definition expected_types :: "printer \<Rightarrow> json \<Rightarrow> string list" where
  "expected_types fr raw = map (text_of fr) (case raw of JList xs \<Rightarrow> xs | _ \<Rightarrow> [raw])"

type_synonym option_errors = "(string \<times> string) list"

definition value_errors :: "printer \<Rightarrow> json dict \<Rightarrow> string \<times> json \<Rightarrow> exn + option_errors" where
  "value_errors fr properties kv =
     (case kv of (k, v) \<Rightarrow>
      case map_of properties k of
        Some (JObj s) \<Rightarrow>
          (let choices = jget s ''enum''; raw_type = jget s ''type'' in
           andthen (if choices = JNull then Inr True else in_choices v choices) (\<lambda>ok.
           Inr (if \<not> ok then [(k, py_repr k @ '' must be one of '' @ json_repr fr (JList (listed choices)))]
                else if raw_type = JNull then []
                else if list_ex (json_type_matches v) (expected_types fr raw_type) then []
                else [(k, py_repr k @ '' expects JSON type '' @ joins ''/'' (expected_types fr raw_type))])))
      | _ \<Rightarrow> Inr [])"

definition unknown_errors :: "string \<Rightarrow> json dict \<Rightarrow> json dict \<Rightarrow> json dict \<Rightarrow> option_errors" where
  "unknown_errors cid schema properties options =
     (if jget schema ''additionalProperties'' = JBool False then
        map (\<lambda>k. (k, py_repr k @ '' is not a valid option for '' @ cid))
          (filter (\<lambda>k. k \<notin> set (keys properties)) (sort (keys options)))
      else [])"

definition validate_against_schema :: "printer \<Rightarrow> string \<Rightarrow> json dict \<Rightarrow> json dict \<Rightarrow> exn + option_errors" where
  "validate_against_schema fr cid options schema =
     (case (if schema = [] then JNull else jget schema ''properties'') of
        JObj properties \<Rightarrow>
          andthen (collect (value_errors fr properties) (sort_key fst options)) (\<lambda>es.
          Inr (unknown_errors cid schema properties options @ concat es))
      | _ \<Rightarrow> Inr [])"

section \<open>The options of a request\<close>

record option_cfg =
  oc_float :: printer
  oc_hub :: plugin_state
  oc_manifests :: "hub_manifest list"
  oc_entry_points :: "string list"
  oc_get :: "string option \<Rightarrow> string + option_backend"

definition option_backend_of :: "option_cfg \<Rightarrow> string option \<Rightarrow> api_error + option_backend" where
  "option_backend_of C provider =
     andthen (case provider of
         None \<Rightarrow> Inr ()
       | Some p \<Rightarrow> map_sum routing_error id (ensure_provider_enabled p (oc_hub C) (oc_manifests C) (oc_entry_points C))) (\<lambda>_.
     map_sum (\<lambda>msg. routing_error (Key_Error msg)) id (oc_get C provider))"

text \<open>The rows that a request's options are checked against; none means that the backend decides.\<close>

definition stage_rows :: "string \<Rightarrow> string option \<Rightarrow> option_row list \<Rightarrow> option_row list" where
  "stage_rows stage capability rows =
     (let here = filter (\<lambda>r. desc_stage r = Some stage) rows in
      case capability of
        None \<Rightarrow> here
      | Some c \<Rightarrow>
          if c = [] then here
          else let exact = filter (\<lambda>r. row_capability r = Some c) here in if exact = [] then here else exact)"

definition applicable_rows :: "string \<Rightarrow> string option \<Rightarrow> string option \<Rightarrow> string \<Rightarrow> option_row list \<Rightarrow> option_row list" where
  "applicable_rows stage capability provider backend rows =
     (let here = stage_rows stage capability rows in
      case provider of
        None \<Rightarrow> here
      | Some p \<Rightarrow>
          if p = [] then here
          else filter (\<lambda>r. row_provider r \<in> {Some p, Some backend} \<or> row_backend r \<in> {p, backend}) here)"

fun try_rows :: "printer \<Rightarrow> json dict \<Rightarrow> option_row list \<Rightarrow> exn + option_errors list option" where
  "try_rows fr options [] = Inr (Some [])"
| "try_rows fr options (r # rows) =
     andthen (validate_against_schema fr (desc_id r) options (case row_schema r of None \<Rightarrow> [] | Some s \<Rightarrow> s)) (\<lambda>es.
     if es = [] then Inr None
     else andthen (try_rows fr options rows) (\<lambda>more. Inr (map_option (\<lambda>ess. es # ess) more)))"

text \<open>\<open>min(candidate_errors, key=...)\<close>: the first of the shortest.\<close>

fun fewest :: "option_errors list \<Rightarrow> option_errors" where
  "fewest [] = []"
| "fewest [es] = es"
| "fewest (es # ess) = (if length es \<le> length (fewest ess) then es else fewest ess)"

definition validate_backend_options ::
  "option_cfg \<Rightarrow> string \<Rightarrow> json \<Rightarrow> string option \<Rightarrow> string option \<Rightarrow> submit_error + json dict" where
  "validate_backend_options C stage options capability provider =
     (case (if options = JNull then JObj [] else options) of
        JObj [] \<Rightarrow> Inr []
      | JObj given \<Rightarrow>
          andthen (checked (option_backend_of C provider)) (\<lambda>B.
          andthen (checked (list_backend_config_schemas (oc_float C) B True)) (\<lambda>rows.
          let here = applicable_rows stage capability provider (ob_name B) rows in
          if here = [] then Inr given
          else andthen (map_sum Submission id (try_rows (oc_float C) given here)) (\<lambda>tried.
            case tried of
              None \<Rightarrow> Inr given
            | Some ess \<Rightarrow> checked (raising ValidationError (joins ''; '' (map snd (fewest ess)))))))
      | _ \<Rightarrow> checked (raising ValidationError (stage @ ''.backend_options must be an object'')))"

section \<open>The contract of a backend\<close>

text \<open>\<open>core/ids.py\<close>: the patterns of namespaced ids and of provider ids.\<close>

definition id_letter :: "char \<Rightarrow> bool" where
  "id_letter c \<longleftrightarrow> lower_alpha c \<or> ascii_digit c \<or> (65 :: nat) \<le> of_char c \<and> of_char c \<le> (90 :: nat)"

definition id_segment :: "string \<Rightarrow> bool" where
  "id_segment s \<longleftrightarrow> s \<noteq> [] \<and> id_letter (hd s) \<and> list_all (\<lambda>c. id_letter c \<or> c \<in> {CHR ''_'', CHR ''-''}) s"

definition is_namespaced_id :: "string \<Rightarrow> bool" where
  "is_namespaced_id = dollar (\<lambda>s. 2 \<le> length (split_on (CHR ''.'') s) \<and> list_all id_segment (split_on (CHR ''.'') s))"

definition is_provider_id :: "string \<Rightarrow> bool" where
  "is_provider_id = dollar (\<lambda>s. s \<noteq> [] \<and> id_letter (hd s) \<and>
     list_all (\<lambda>c. id_letter c \<or> c \<in> {CHR ''_'', CHR ''.'', CHR ''-''}) s)"

definition failing :: "bool \<Rightarrow> string \<Rightarrow> string list" where
  "failing bad msg = (if bad then [msg] else [])"

definition required_violations :: "printer \<Rightarrow> string \<Rightarrow> json dict \<Rightarrow> json dict \<Rightarrow> string list" where
  "required_violations fr label schema properties =
     (case (case map_of schema ''required'' of None \<Rightarrow> JList [] | Some v \<Rightarrow> v) of
        JNull \<Rightarrow> []
      | JList names \<Rightarrow>
          concat (map (\<lambda>v. failing (text_of fr v \<notin> set (keys properties))
            (label @ '': option_schema.required contains unknown property '' @ py_repr (text_of fr v))) names)
      | _ \<Rightarrow> [label @ '': option_schema.required must be an array''])"

definition schema_violations :: "printer \<Rightarrow> string \<Rightarrow> json dict \<Rightarrow> string list" where
  "schema_violations fr label schema =
     failing (jget schema ''type'' \<notin> {JNull, JStr ''object''}) (label @ '': option_schema.type must be object'') @
     failing (jget schema ''additionalProperties'' \<noteq> JBool False)
       (label @ '': option_schema.additionalProperties must be false so sfmapi can reject misspelled backend_options'') @
     (case (case map_of schema ''properties'' of None \<Rightarrow> JObj [] | Some v \<Rightarrow> v) of
        JNull \<Rightarrow> []
      | JObj properties \<Rightarrow>
          concat (map (\<lambda>(k, v). failing (\<not> is_obj v)
            (label @ '': option_schema.properties.'' @ k @ '' must be an object'')) properties) @
          required_violations fr label schema properties
      | _ \<Rightarrow> [label @ '': option_schema.properties must be an object''])"

definition row_violations :: "printer \<Rightarrow> (string \<Rightarrow> bool) \<Rightarrow> option_row \<Rightarrow> string list" where
  "row_violations fr known r =
     (let label = desc_id r; stage = strip (case desc_stage r of None \<Rightarrow> [] | Some s \<Rightarrow> s) in
      failing (\<not> is_namespaced_id label) (label @ '': config_id should be namespaced, e.g. vendor.stage'') @
      (if stage = [] then [label @ '': stage is required'']
       else failing (map_of config_stage_order stage = None)
         (label @ '': stage must be one of '' @ json_repr fr (JList (map JStr (sort (keys config_stage_order)))))) @
      (case row_provider r of None \<Rightarrow> []
       | Some p \<Rightarrow> failing (\<not> is_provider_id p) (label @ '': provider must match /^[A-Za-z0-9][A-Za-z0-9_.-]*$/'')) @
      (case row_capability r of None \<Rightarrow> []
       | Some c \<Rightarrow> failing (\<not> known c) (label @ '': capability '' @ py_repr c @ '' is not portable'')) @
      (case row_schema r of None \<Rightarrow> [] | Some s \<Rightarrow> schema_violations fr label s))"

definition backend_config_contract_violations :: "printer \<Rightarrow> (string \<Rightarrow> bool) \<Rightarrow> option_backend \<Rightarrow> string list" where
  "backend_config_contract_violations fr known B =
     (case list_backend_config_schemas fr B True of
        Inl e \<Rightarrow> [''list_backend_config_schemas() failed: '' @ err_detail e]
      | Inr rows \<Rightarrow>
          concat (map (row_violations fr known) rows) @
          map (\<lambda>i. i @ '': duplicate config_id'') (duplicates (map desc_id rows)))"

end
