(* ===== verification/Backend_Options_Correct.thy ===== *)
theory Backend_Options_Correct
  imports Backend_Options
begin

text \<open>
  What the check of backend options decides: a typing judgement on options, that a request passes
  exactly when a schema that applies to it types its options, and what the contract of a backend
  adds.
\<close>

section \<open>Options that fit a schema\<close>

definition value_fits :: "printer \<Rightarrow> json dict \<Rightarrow> json \<Rightarrow> bool" where
  "value_fits fr s v \<longleftrightarrow>
     (jget s ''enum'' = JNull \<or> in_choices v (jget s ''enum'') = Inr True) \<and>
     (jget s ''type'' = JNull \<or> (\<exists>t \<in> set (expected_types fr (jget s ''type'')). json_type_matches v t))"

definition properties_of :: "json dict \<Rightarrow> json dict option" where
  "properties_of schema = (case jget schema ''properties'' of JObj p \<Rightarrow> Some p | _ \<Rightarrow> None)"

definition fits_schema :: "printer \<Rightarrow> json dict \<Rightarrow> json dict \<Rightarrow> bool" where
  "fits_schema fr schema options \<longleftrightarrow>
     (case properties_of schema of
        None \<Rightarrow> True
      | Some p \<Rightarrow>
          (jget schema ''additionalProperties'' = JBool False \<longrightarrow> set (keys options) \<subseteq> set (keys p)) \<and>
          (\<forall>(k, v) \<in> set options. \<forall>s. map_of p k = Some (JObj s) \<longrightarrow> value_fits fr s v))"

lemma value_errors_none:
  "value_errors fr p (k, v) = Inr [] \<longleftrightarrow> (\<forall>s. map_of p k = Some (JObj s) \<longrightarrow> value_fits fr s v)"
  by (auto simp: value_errors_def value_fits_def Let_def andthen_Inr list_ex_iff split: option.split json.split if_splits)

lemma collect_none: "(\<exists>es. collect f xs = Inr es \<and> concat es = []) \<longleftrightarrow> (\<forall>x \<in> set xs. f x = Inr [])"
proof (induction xs)
  case (Cons x xs)
  have "(\<exists>es. collect f (x # xs) = Inr es \<and> concat es = []) \<longleftrightarrow> f x = Inr [] \<and> (\<exists>es. collect f xs = Inr es \<and> concat es = [])"
    by (auto simp: andthen_Inr)
  then show ?case using Cons.IH by simp
qed simp

lemma collect_empty: "andthen (collect f xs) (\<lambda>es. Inr (a @ concat es)) = Inr [] \<longleftrightarrow> a = [] \<and> (\<forall>x \<in> set xs. f x = Inr [])"
  unfolding collect_none [symmetric] by (auto simp: andthen_Inr)

lemma unknown_none:
  "unknown_errors cid schema p options = [] \<longleftrightarrow>
     (jget schema ''additionalProperties'' = JBool False \<longrightarrow> set (keys options) \<subseteq> set (keys p))"
  by (auto simp: unknown_errors_def filter_empty_conv)

lemma schema_accepts_iff: "validate_against_schema fr cid options schema = Inr [] \<longleftrightarrow> fits_schema fr schema options"
proof (cases "schema = []")
  case True
  then show ?thesis by (simp add: validate_against_schema_def fits_schema_def properties_of_def jget_def)
next
  case False
  have "validate_against_schema fr cid options schema =
      (case properties_of schema of
         Some p \<Rightarrow> andthen (collect (value_errors fr p) (sort_key fst options)) (\<lambda>es. Inr (unknown_errors cid schema p options @ concat es))
       | None \<Rightarrow> Inr [])"
    using False by (simp add: validate_against_schema_def properties_of_def split: json.split)
  then show ?thesis
    unfolding fits_schema_def
    by (cases "properties_of schema") (simp_all add: collect_empty unknown_none value_errors_none split_beta flip: value_errors_none)
qed

section \<open>Schemas whose enumerations are lists\<close>

text \<open>An enumeration that is not a list raises \<open>TypeError\<close> for most values.\<close>

definition enums_listed :: "option_row \<Rightarrow> bool" where
  "enums_listed r \<longleftrightarrow>
     (\<forall>schema p k s. row_schema r = Some schema \<longrightarrow> properties_of schema = Some p \<longrightarrow> map_of p k = Some (JObj s) \<longrightarrow>
        jget s ''enum'' = JNull \<or> (\<exists>xs. jget s ''enum'' = JList xs))"

definition schema_of :: "option_row \<Rightarrow> json dict" where
  "schema_of r = (case row_schema r of None \<Rightarrow> [] | Some s \<Rightarrow> s)"

definition row_errors :: "printer \<Rightarrow> json dict \<Rightarrow> option_row \<Rightarrow> exn + option_errors" where
  "row_errors fr options r = validate_against_schema fr (desc_id r) options (schema_of r)"

lemma collect_total: "(\<And>x. x \<in> set xs \<Longrightarrow> \<exists>y. f x = Inr y) \<Longrightarrow> \<exists>ys. collect f xs = Inr ys"
  by (induction xs) (fastforce simp: andthen_Inr)+

lemma listed_never_raise:
  assumes "enums_listed r"
  shows "\<exists>es. row_errors fr options r = Inr es"
proof (cases "schema_of r = [] \<or> properties_of (schema_of r) = None")
  case True
  then show ?thesis by (auto simp: row_errors_def validate_against_schema_def properties_of_def split: json.splits)
next
  case False
  then obtain p where p: "properties_of (schema_of r) = Some p" "schema_of r \<noteq> []" by auto
  then have "row_schema r = Some (schema_of r)" by (auto simp: schema_of_def split: option.splits)
  then have listed: "map_of p k = Some (JObj s) \<Longrightarrow> jget s ''enum'' = JNull \<or> (\<exists>xs. jget s ''enum'' = JList xs)" for k s
    using assms p by (auto simp: enums_listed_def)
  have "\<exists>es. value_errors fr p x = Inr es" for x
  proof (cases x)
    case (Pair k v)
    show ?thesis
    proof (cases "\<exists>s. map_of p k = Some (JObj s)")
      case True
      then obtain s where s: "map_of p k = Some (JObj s)" by blast
      show ?thesis using listed [OF s] by (auto simp: Pair value_errors_def s Let_def andthen_Inr)
    next
      case False
      then show ?thesis by (auto simp: Pair value_errors_def split: option.split json.split)
    qed
  qed
  then obtain ess where "collect (value_errors fr p) (sort_key fst options) = Inr ess" using collect_total by metis
  then show ?thesis
    using p by (simp add: row_errors_def validate_against_schema_def properties_of_def split: json.splits)
qed

lemma try_rows_all:
  assumes "\<And>r. r \<in> set rows \<Longrightarrow> \<exists>es. row_errors fr options r = Inr es"
  shows "try_rows fr options rows =
    Inr (if \<exists>r \<in> set rows. row_errors fr options r = Inr [] then None
         else Some (map (\<lambda>r. projr (row_errors fr options r)) rows))"
  using assms
proof (induction rows)
  case (Cons r rows)
  obtain es where es: "row_errors fr options r = Inr es" using Cons.prems by auto
  have "try_rows fr options rows = Inr (if \<exists>r \<in> set rows. row_errors fr options r = Inr [] then None
      else Some (map (\<lambda>r. projr (row_errors fr options r)) rows))"
    by (rule Cons.IH) (simp add: Cons.prems)
  then show ?case using es by (simp add: row_errors_def schema_of_def)
qed simp

lemma try_rows_None: "try_rows fr options rows = Inr None \<Longrightarrow> \<exists>r \<in> set rows. row_errors fr options r = Inr []"
  by (induction rows) (auto simp: row_errors_def schema_of_def andthen_Inr split: if_splits)

lemma map_sum_eq: "map_sum f id x = Inr y \<Longrightarrow> x = Inr y"
  by (cases x) simp_all

lemma fewest_in: "ess \<noteq> [] \<Longrightarrow> fewest ess \<in> set ess \<and> (\<forall>es \<in> set ess. length (fewest ess) \<le> length es)"
  by (induction ess rule: fewest.induct) (auto split: if_splits)

lemma row_fits: "row_errors fr options r = Inr [] \<longleftrightarrow> fits_schema fr (schema_of r) options"
  by (simp add: row_errors_def schema_accepts_iff)

text \<open>
  When the schemas of the backend can be listed and their enumerations are lists, options are
  accepted as they are if and only if there are none, no schema applies to the stage, the
  capability and the provider of the request, or one that applies types them; otherwise the request
  is refused with the errors of a schema that applies and has the fewest.
\<close>

theorem options_accepted_iff_some_schema_fits:
  fixes C stage capability provider B rows given
  defines "here \<equiv> applicable_rows stage capability provider (ob_name B) rows"
    and "result \<equiv> validate_backend_options C stage (JObj given) capability provider"
  assumes "option_backend_of C provider = Inr B" and "list_backend_config_schemas (oc_float C) B True = Inr rows"
    and "list_all enums_listed rows"
  shows "if given = [] \<or> here = [] \<or> (\<exists>r \<in> set here. fits_schema (oc_float C) (schema_of r) given) then result = Inr given
    else (\<exists>r es. r \<in> set here \<and> row_errors (oc_float C) given r = Inr es \<and> es \<noteq> [] \<and>
      result = Inl (Rejected (mk_error ValidationError (joins ''; '' (map snd es)) [])) \<and>
      (\<forall>r' es'. r' \<in> set here \<longrightarrow> row_errors (oc_float C) given r' = Inr es' \<longrightarrow> length es \<le> length es'))"
proof (cases "given = [] \<or> here = []")
  case True
  then show ?thesis
    using assms(3,4) by (cases given) (auto simp: result_def here_def validate_backend_options_def)
next
  case False
  have "set here \<subseteq> set rows"
    by (auto simp: here_def applicable_rows_def stage_rows_def Let_def split: option.splits if_splits)
  then have listed: "r \<in> set here \<Longrightarrow> \<exists>es. row_errors (oc_float C) given r = Inr es" for r
    using assms(5) listed_never_raise by (auto simp: list_all_iff)
  have run: "result = andthen (map_sum Submission id (try_rows (oc_float C) given here)) (\<lambda>tried. case tried of
      None \<Rightarrow> Inr given | Some ess \<Rightarrow> checked (raising ValidationError (joins ''; '' (map snd (fewest ess)))))"
  proof -
    obtain a l where g: "given = a # l" using False by (cases given) auto
    show ?thesis
      using False assms(3,4) unfolding result_def here_def validate_backend_options_def g by (simp add: Let_def)
  qed
  have tried: "try_rows (oc_float C) given here = Inr (if \<exists>r \<in> set here. fits_schema (oc_float C) (schema_of r) given then None
      else Some (map (\<lambda>r. projr (row_errors (oc_float C) given r)) here))"
    using try_rows_all [of here "oc_float C" given] listed by (simp add: row_fits)
  show ?thesis
  proof (cases "\<exists>r \<in> set here. fits_schema (oc_float C) (schema_of r) given")
    case True
    then show ?thesis unfolding run by (simp add: tried)
  next
    case no: False
    let ?ess = "map (\<lambda>r. projr (row_errors (oc_float C) given r)) here"
    have "fewest ?ess \<in> set ?ess \<and> (\<forall>es \<in> set ?ess. length (fewest ?ess) \<le> length es)" using False by (intro fewest_in) simp
    then obtain r where r: "r \<in> set here" "fewest ?ess = projr (row_errors (oc_float C) given r)"
      and least: "\<And>r'. r' \<in> set here \<Longrightarrow> length (fewest ?ess) \<le> length (projr (row_errors (oc_float C) given r'))"
      by auto
    obtain es where es: "row_errors (oc_float C) given r = Inr es" using listed [OF r(1)] by blast
    have "es \<noteq> []" using no r(1) es by (auto simp: row_fits [symmetric])
    moreover have "result = Inl (Rejected (mk_error ValidationError (joins ''; '' (map snd es)) []))"
      unfolding run using no r(2) es by (simp add: tried raising_def)
    moreover have "length es \<le> length es'" if "r' \<in> set here" "row_errors (oc_float C) given r' = Inr es'" for r' es'
      using least [OF that(1)] r(2) es that(2) by simp
    ultimately show ?thesis using False no r(1) es by auto
  qed
qed

section \<open>Backends that keep the contract\<close>

lemma kept_contract:
  assumes "backend_config_contract_violations fr known B = []"
  shows "\<exists>rows. list_backend_config_schemas fr B True = Inr rows \<and> list_all (\<lambda>r. row_violations fr known r = []) rows \<and> distinct (map desc_id rows)"
  using assms by (auto simp: backend_config_contract_violations_def list_all_iff split: sum.splits)

lemma kept_schema:
  assumes "row_violations fr known r = []" and "row_schema r = Some s"
  shows "jget s ''additionalProperties'' = JBool False" and "s \<noteq> []"
proof -
  show closed: "jget s ''additionalProperties'' = JBool False"
    using assms by (auto simp: row_violations_def schema_violations_def failing_def Let_def split: if_splits)
  show "s \<noteq> []" using closed by (auto simp: jget_def)
qed

lemma listing_has_schemas:
  assumes "list_backend_config_schemas fr B True = Inr rows" and "r \<in> set rows"
  shows "\<exists>s. row_schema r = Some s"
proof -
  have norm: "\<exists>s. row_schema r = Some s" if "normalize_descriptor fr B True raw = Inr r" for raw r
    using that by (auto simp: normalize_descriptor_def Let_def andthen_Inr raising_def split: if_splits)
  have own: "\<exists>s. row_schema r = Some s" if "r \<in> set (radiance_config_descriptors B True)" for r
    using that by (auto simp: radiance_config_descriptors_def split: option.splits if_splits)
  have dd: "x \<in> set (dedupe (Some config_stage_order) xs) \<Longrightarrow> x \<in> set xs" for x :: option_row and xs
    unfolding dedupe_rows(1) by (auto simp: find_Some_iff)
  obtain raws where rows: "list_rows (Some config_stage_order) True (normalize_descriptor fr B True) raws
      (radiance_config_descriptors B True) = Inr rows"
    using assms(1) by (auto simp: list_backend_config_schemas_def andthen_Inr)
  then obtain made where made: "(case raws of None \<Rightarrow> Inr [] | Some raws \<Rightarrow> collect (normalize_descriptor fr B True) raws) = Inr made"
    "rows = dedupe (Some config_stage_order) made \<or> rows = dedupe (Some config_stage_order) (made @ radiance_config_descriptors B True)"
    by (auto simp: list_rows_def andthen_Inr split: if_splits)
  have "\<exists>s. row_schema x = Some s" if "x \<in> set made" for x
    using made(1) that norm by (auto simp: collect_Inr list_all2_conv_all_nth in_set_conv_nth split: option.splits)
  then show ?thesis using made(2) assms(2) own dd by fastforce
qed

text \<open>
  A backend whose schemas keep the contract lets no misspelled option through: when options are
  accepted and a schema applies to the request, one that applies types them, and unless it declares
  no properties every option is one of its properties.
\<close>

theorem contract_backends_reject_misspelled:
  assumes "backend_config_contract_violations (oc_float C) known B = []"
    and "option_backend_of C provider = Inr B" and "list_backend_config_schemas (oc_float C) B True = Inr rows"
    and "validate_backend_options C stage (JObj given) capability provider = Inr v" and "given \<noteq> []"
    and "applicable_rows stage capability provider (ob_name B) rows \<noteq> []"
  shows "\<exists>r \<in> set (applicable_rows stage capability provider (ob_name B) rows). fits_schema (oc_float C) (schema_of r) given \<and>
    (\<forall>p. properties_of (schema_of r) = Some p \<longrightarrow> set (keys given) \<subseteq> set (keys p))"
proof -
  let ?here = "applicable_rows stage capability provider (ob_name B) rows"
  obtain a l where g: "given = a # l" using assms(5) by (cases given) auto
  have "\<exists>tried. try_rows (oc_float C) given ?here = Inr tried \<and> tried = None"
    using assms(2-4,6) unfolding g validate_backend_options_def
    by (auto simp: Let_def andthen_Inr raising_def split: option.splits dest!: map_sum_eq)
  then obtain r where r: "r \<in> set ?here" "row_errors (oc_float C) given r = Inr []"
    using try_rows_None by blast
  have "r \<in> set rows"
    using r(1) by (auto simp: applicable_rows_def stage_rows_def Let_def split: option.splits if_splits)
  then obtain s where s: "row_schema r = Some s" "row_violations (oc_float C) known r = []"
    using listing_has_schemas [OF assms(3)] kept_contract [OF assms(1)] assms(3) by (auto simp: list_all_iff)
  have fit: "fits_schema (oc_float C) (schema_of r) given" using r(2) by (simp add: row_fits)
  moreover have "jget (schema_of r) ''additionalProperties'' = JBool False"
    using kept_schema [OF s(2,1)] s(1) by (simp add: schema_of_def)
  ultimately show ?thesis using r(1) by (intro bexI [of _ r]) (auto simp: fits_schema_def)
qed

section \<open>What the contract does not catch\<close>

text \<open>
  A schema that declares no properties keeps the contract, which wants closed schemas \<open>so sfmapi can
  reject misspelled backend_options\<close>, and yet types every option.
\<close>

lemma schemas_without_properties_type_everything:
  "schema_violations fr label [(''type'', JStr ''object''), (''additionalProperties'', JBool False)] = []"
  "fits_schema fr [(''type'', JStr ''object''), (''additionalProperties'', JBool False)] options"
  by (simp_all add: schema_violations_def failing_def required_violations_def jget_def fits_schema_def properties_of_def)

text \<open>A descriptor whose schema is null, which its own check allows, never keeps the contract.\<close>

lemma null_schemas_break_the_contract:
  assumes "normalize_descriptor fr B True raw = Inr r" and "raw_schema raw = JNull"
  shows "row_violations fr known r \<noteq> []"
proof -
  have "row_schema r = Some []"
    using assms by (auto simp: normalize_descriptor_def Let_def andthen_Inr raising_def split: if_splits)
  then show ?thesis using kept_schema(2) by blast
qed

section \<open>A small backend\<close>

definition demo_option_backend :: option_backend where
  "demo_option_backend = \<lparr>ob_name = ''b'', ob_capabilities = None, ob_listing = Some (\<lambda>include. Inr
     [[(''config_id'', JStr ''b.features''), (''stage'', JStr ''features''),
       (''option_schema'', JObj [(''additionalProperties'', JBool False),
          (''properties'', JObj [(''n'', JObj [(''type'', JStr ''integer'')])])])]])\<rparr>"

definition demo_options :: option_cfg where
  "demo_options = \<lparr>oc_float = (\<lambda>q. ''0''), oc_hub = empty_state, oc_manifests = [], oc_entry_points = [],
     oc_get = (\<lambda>p. Inr demo_option_backend)\<rparr>"

definition demo_option_row :: option_row where
  "demo_option_row = \<lparr>desc_id = ''b.features'', desc_stage = Some ''features'', row_backend = ''b'', row_capability = None,
     row_provider = None, row_schema = Some [(''additionalProperties'', JBool False),
       (''properties'', JObj [(''n'', JObj [(''type'', JStr ''integer'')])])]\<rparr>"

lemma demo_listing: "list_backend_config_schemas (\<lambda>q. ''0'') demo_option_backend True = Inr [demo_option_row]"
  by code_simp

lemma demo_option_backend_of: "option_backend_of demo_options None = Inr demo_option_backend"
  by (simp add: option_backend_of_def demo_options_def)

lemma demo_here: "applicable_rows ''features'' None None ''b'' [demo_option_row] = [demo_option_row]"
  by code_simp

lemma options_accepted_iff_some_schema_fits_witness:
  "validate_backend_options demo_options ''features'' (JObj [(''n'', JInt 3)]) None None = Inr [(''n'', JInt 3)]"
proof -
  have listed: "list_all enums_listed [demo_option_row]"
    by (auto simp: enums_listed_def demo_option_row_def properties_of_def jget_def split: if_splits)
  have float: "oc_float demo_options = (\<lambda>q. ''0'')" and name: "ob_name demo_option_backend = ''b''"
    by (simp_all add: demo_options_def demo_option_backend_def)
  have "fits_schema (oc_float demo_options) (schema_of demo_option_row) [(''n'', JInt 3)]"
    by (simp add: fits_schema_def schema_of_def demo_option_row_def properties_of_def jget_def keys_def value_fits_def expected_types_def
        text_of_def json_type_matches_def)
  then show ?thesis
    using options_accepted_iff_some_schema_fits [OF demo_option_backend_of demo_listing [folded float] listed,
        where given = "[(''n'', JInt 3)]" and stage = "''features''" and capability = None]
    by (simp add: demo_here name)
qed

lemma contract_backends_reject_misspelled_witness:
  "\<exists>r \<in> set [demo_option_row]. fits_schema (\<lambda>q. ''0'') (schema_of r) [(''n'', JInt 3)] \<and>
    (\<forall>p. properties_of (schema_of r) = Some p \<longrightarrow> set (keys [(''n'', JInt 3)]) \<subseteq> set (keys p))"
proof -
  have float: "oc_float demo_options = (\<lambda>q. ''0'')" and name: "ob_name demo_option_backend = ''b''"
    by (simp_all add: demo_options_def demo_option_backend_def)
  have kept: "backend_config_contract_violations (oc_float demo_options) (\<lambda>c. True) demo_option_backend = []"
    unfolding float by code_simp
  have ok: "validate_backend_options demo_options ''features'' (JObj [(''n'', JInt 3)]) None None = Inr [(''n'', JInt 3)]"
    by code_simp
  show ?thesis
    using contract_backends_reject_misspelled [OF kept demo_option_backend_of demo_listing [folded float] ok] by (simp add: demo_here name float)
qed

end
