(* ===== verification/Capability_Flags.thy ===== *)
theory Capability_Flags
  imports Processors Backend_Options
begin

text \<open>
  \<open>core/capabilities.py\<close>: the closed list of capability names, what a deployment supports, and the
  partition of the names into typed operations and infrastructure. \<open>deployment\<close> is what the probes
  find: the backend with what it advertises, the ids of its actions (None when it has none or
  listing them fails), whether it has artifact contracts, the optional packages and tools.
\<close>

section \<open>The names\<close>

definition CORE_CAPABILITIES :: "string list" where
  "CORE_CAPABILITIES =
     [
      ''projects.crud'', ''datasets.crud'', ''images.crud'', ''uploads.chunked'', ''jobs.read'', ''events.sse'',
      ''spec.read''
     ]"

definition OPTIONAL_CAPABILITIES :: "string list" where
  "OPTIONAL_CAPABILITIES =
     [
      ''features.extract.sift'', ''features.extract.superpoint'', ''features.extract.aliked'',
      ''features.extract.disk'', ''features.extract.r2d2'', ''features.extract.d2net'', ''features.extract.sosnet'',
      ''pairs.exhaustive'', ''pairs.sequential'', ''pairs.spatial'', ''pairs.vocabtree'', ''pairs.retrieval'',
      ''pairs.from_poses'', ''pairs.explicit'', ''matchers.nn-mutual'', ''matchers.nn-ratio'',
      ''matchers.superglue'', ''matchers.lightglue'', ''matchers.loftr'', ''matchers.mast3r'',
      ''match.detector_free'', ''keypoints.persistent'', ''matches.verify'', ''geometry.two_view'',
      ''map.incremental'', ''map.global'', ''map.hierarchical'', ''map.spherical'', ''map.feed_forward'',
      ''ba.standard'', ''ba.two_stage'', ''ba.featuremetric'', ''ba.rig'', ''triangulate.retri'',
      ''relocalize.images'', ''pgo.optimize'', ''recon.merge'', ''localize.batch'', ''localize.sequence'',
      ''export.ply'', ''export.nvm'', ''export.colmap_text'', ''export.colmap_bin'', ''export.nerfstudio'',
      ''export.gaussian_splatting'', ''export.instant_ngp'', ''export.kapture'', ''similarity.dhash'',
      ''similarity.vlad'', ''index.vocab_tree'', ''images.thumbnail'', ''localize.from_memory'',
      ''georegister.sim3'', ''georegister.gps'', ''image.undistort'', ''projection.equirectangular_to_cubemap'',
      ''projection.cubemap_to_equirectangular'', ''projection.equirectangular_to_perspective'',
      ''projection.cubemap_rig'', ''spherical.to_cubemap'', ''spherical.render_cubemap'', ''rigs.configure'',
      ''pose_priors.read_write'', ''pose_priors.mapping'', ''inputs.imu'', ''inputs.timestamps'',
      ''video.frame_extract'', ''import.kapture'', ''import.archive'', ''observations.by_image'',
      ''observations.by_point'', ''radiance.train'', ''radiance.evaluate'', ''radiance.metrics.psnr'',
      ''radiance.metrics.ssim'', ''radiance.metrics.lpips'', ''backend.actions'', ''backend.action_schema'',
      ''backend.action_validate'', ''backend.action_jobs'', ''backend.config_schemas'',
      ''backend.artifact_contracts'', ''pipelines.custom_execution'', ''compute.in_memory'', ''segment.sam''
     ]"

definition ALL_KNOWN :: "string set" where
  "ALL_KNOWN = set (CORE_CAPABILITIES @ OPTIONAL_CAPABILITIES)"

definition INFRASTRUCTURE_CAPABILITY_FAMILIES :: "string dict" where
  "INFRASTRUCTURE_CAPABILITY_FAMILIES =
     [
      (''projects'', ''project resource CRUD''), (''datasets'', ''dataset resource CRUD''),
      (''images'', ''image resource CRUD + helpers''), (''uploads'', ''chunked upload sessions''),
      (''jobs'', ''job lifecycle reads''), (''events'', ''SSE event stream''), (''spec'', ''served OpenAPI spec''),
      (''video'', ''frame extraction ingest''), (''import'', ''archive / kapture ingest''),
      (''pose_priors'', ''pose-prior accept/store/forward''), (''inputs'', ''IMU / timestamp side inputs''),
      (''observations'', ''snapshot visibility sidecars''), (''similarity'', ''image similarity hashing''),
      (''index'', ''reusable retrieval indexes''), (''localize'', ''query-image localization''),
      (''export'', ''reconstruction export formats''), (''radiance'', ''radiance-field (3DGS) resources''),
      (''backend'', ''backend extension meta surfaces''),
      (''pipelines'', ''generic typed-processor pipeline execution''), (''compute'', ''execution-mode advisories''),
      (''segment'', ''image segmentation''), (''rigs'', ''multi-camera rig configuration'')
     ]"

definition capability_family :: "string \<Rightarrow> string" where
  "capability_family capability = before (CHR ''.'') capability"

definition is_infrastructure_capability :: "string \<Rightarrow> bool" where
  "is_infrastructure_capability capability \<longleftrightarrow> capability_family capability \<in> set (keys INFRASTRUCTURE_CAPABILITY_FAMILIES)"

section \<open>What a deployment supports\<close>

record deployment =
  dp_backend :: option_backend
  dp_version :: string
  dp_vendor :: string
  dp_pycolmap_version :: "string option"
  dp_advertised :: "string list"
  dp_actions :: "string list option"
  dp_contracts :: bool
  dp_pillow :: bool
  dp_projection :: bool
  dp_ffmpeg :: bool
  dp_sam :: bool

record backend_info =
  info_name :: string
  info_version :: string
  info_vendor :: string

record capabilities =
  cap_backend :: backend_info
  cap_features :: "(string \<times> bool) list"

definition supports :: "capabilities \<Rightarrow> string \<Rightarrow> bool" where
  "supports caps capability = (map_of (cap_features caps) capability = Some True)"

definition empty_capabilities :: "backend_info \<Rightarrow> capabilities" where
  "empty_capabilities b = \<lparr>cap_backend = b,
     cap_features = fold (\<lambda>c. AList.update c False) OPTIONAL_CAPABILITIES (map (\<lambda>c. (c, True)) CORE_CAPABILITIES)\<rparr>"

definition flag :: "bool \<Rightarrow> string list \<Rightarrow> (string \<times> bool) list \<Rightarrow> (string \<times> bool) list" where
  "flag on names d = (if on then fold (\<lambda>c. AList.update c True) names d else d)"

definition on :: "(string \<times> bool) list \<Rightarrow> string \<Rightarrow> bool" where
  "on d c \<longleftrightarrow> map_of d c = Some True"

definition backend_features :: "printer \<Rightarrow> deployment \<Rightarrow> (string \<times> bool) list \<Rightarrow> (string \<times> bool) list" where
  "backend_features fr D d =
     (let d = flag True (filter (\<lambda>c. map_of d c \<noteq> None) (dp_advertised D)) d;
          d = flag (on d ''spherical.render_cubemap'') [''projection.equirectangular_to_cubemap''] d;
          d = flag (on d ''spherical.to_cubemap'') [''projection.cubemap_rig''] d;
          d = flag (dp_actions D \<noteq> None) [''backend.actions'', ''backend.action_schema'', ''backend.action_validate'', ''backend.action_jobs''] d;
          d = flag (has_backend_config_schemas fr (dp_backend D)) [''backend.config_schemas''] d in
      flag (dp_contracts D) [''backend.artifact_contracts''] d)"

definition server_features :: "deployment \<Rightarrow> (string \<times> bool) list \<Rightarrow> (string \<times> bool) list" where
  "server_features D d =
     (let d = flag (dp_pillow D) [''similarity.dhash'', ''images.thumbnail''] d;
          d = flag (dp_projection D) [''projection.equirectangular_to_cubemap''] d;
          d = flag True [''pose_priors.read_write'', ''observations.by_image'', ''observations.by_point'', ''inputs.imu'',
                ''inputs.timestamps'', ''import.kapture'', ''import.archive''] d;
          d = flag (ob_name (dp_backend D) = ''stub'') [''radiance.train'', ''radiance.evaluate'', ''radiance.metrics.psnr'',
                ''radiance.metrics.ssim'', ''radiance.metrics.lpips''] d;
          d = flag (dp_ffmpeg D) [''video.frame_extract''] d in
      flag (dp_sam D) [''segment.sam''] d)"

text \<open>The advertised names that a warning lists: those outside the vocabulary that no action accounts for.\<close>

definition unknown_capabilities :: "deployment \<Rightarrow> (string \<times> bool) list \<Rightarrow> string list" where
  "unknown_capabilities D d =
     sorted_set (filter (\<lambda>c. map_of d c = None \<and>
       \<not> list_ex (\<lambda>a. c = a \<or> starts (a @ ''.'') c) (case dp_actions D of None \<Rightarrow> [] | Some ids \<Rightarrow> ids)) (dp_advertised D))"

definition detect_uncached :: "printer \<Rightarrow> deployment \<Rightarrow> capabilities" where
  "detect_uncached fr D =
     (let caps = empty_capabilities \<lparr>info_name = ob_name (dp_backend D),
            info_version = (case dp_pycolmap_version D of None \<Rightarrow> dp_version D | Some v \<Rightarrow> if v = [] then dp_version D else v),
            info_vendor = dp_vendor D\<rparr> in
      caps\<lparr>cap_features := server_features D (backend_features fr D (cap_features caps))\<rparr>)"

text \<open>The answer is kept for the life of the process, until \<open>reset_capabilities_cache\<close>.\<close>

definition detect_capabilities :: "printer \<Rightarrow> deployment \<Rightarrow> capabilities option \<Rightarrow> capabilities option \<times> capabilities" where
  "detect_capabilities fr D cached =
     (case cached of
        Some caps \<Rightarrow> (cached, caps)
      | None \<Rightarrow> (let caps = detect_uncached fr D in (Some caps, caps)))"

definition reset_capabilities_cache :: "capabilities option \<Rightarrow> capabilities option" where
  "reset_capabilities_cache cached = None"

definition require :: "printer \<Rightarrow> deployment \<Rightarrow> string \<Rightarrow> string \<Rightarrow> capabilities option \<Rightarrow> capabilities option \<times> (api_error + unit)" where
  "require fr D capability reason cached =
     (let (cached, caps) = detect_capabilities fr D cached in
      (cached, guard (\<not> supports caps capability) (capability_unavailable capability reason)))"

section \<open>Flags\<close>

lemma map_of_raise: "map_of (fold (\<lambda>c. AList.update c v) names d) c = (if c \<in> set names then Some v else map_of d c)"
  by (induction names arbitrary: d) auto

lemma map_of_flag: "map_of (flag b names d) c = (if b \<and> c \<in> set names then Some True else map_of d c)"
  by (simp add: flag_def map_of_raise)

lemma on_flag: "on (flag b names d) c \<longleftrightarrow> b \<and> c \<in> set names \<or> on d c"
  by (auto simp: on_def map_of_flag)

lemma update_keys: "map_of d k \<noteq> None \<Longrightarrow> keys (AList.update k v d) = keys d"
  by (induction d) (auto simp: keys_def split: if_splits)

lemma keys_fold: "(\<forall>c \<in> set names. map_of d c \<noteq> None) \<Longrightarrow> keys (fold (\<lambda>c. AList.update c v) names d) = keys d"
proof (induction names arbitrary: d)
  case (Cons a names)
  have "keys (AList.update a v d) = keys d" using Cons.prems by (intro update_keys) simp
  moreover have "\<forall>c \<in> set names. map_of (AList.update a v d) c \<noteq> None" using Cons.prems by simp
  ultimately show ?case using Cons.IH [of "AList.update a v d"] by simp
qed simp

lemma keys_flag: "(b \<Longrightarrow> set names \<subseteq> set (keys d)) \<Longrightarrow> keys (flag b names d) = keys d"
  using keys_fold [of names d True] by (cases b) (auto simp: flag_def map_of_eq_None_iff keys_def)

lemma core_not_optional: "list_all (\<lambda>c. c \<notin> set OPTIONAL_CAPABILITIES) CORE_CAPABILITIES"
  by (simp add: CORE_CAPABILITIES_def OPTIONAL_CAPABILITIES_def)

lemma map_of_empty:
  "map_of (cap_features (empty_capabilities b)) c =
     (if c \<in> set OPTIONAL_CAPABILITIES then Some False else if c \<in> set CORE_CAPABILITIES then Some True else None)"
proof -
  have "map_of (map (\<lambda>c. (c, v)) cs) c = (if c \<in> set cs then Some v else None)" for cs :: "string list" and v :: bool
    by (induction cs) auto
  then show ?thesis by (simp add: empty_capabilities_def map_of_raise)
qed

lemma empty_on: "on (cap_features (empty_capabilities b)) c \<longleftrightarrow> c \<in> set CORE_CAPABILITIES"
  using core_not_optional by (auto simp: on_def map_of_empty list_all_iff)

lemma empty_known: "map_of (cap_features (empty_capabilities b)) c \<noteq> None \<longleftrightarrow> c \<in> ALL_KNOWN"
  by (auto simp: map_of_empty ALL_KNOWN_def)

section \<open>What is supported\<close>

text \<open>The names that a deployment grants on top of what its backend advertises, each with its condition.\<close>

definition grants :: "printer \<Rightarrow> deployment \<Rightarrow> (bool \<times> string list) list" where
  "grants fr D =
     [(list_ex (\<lambda>c. c = ''spherical.render_cubemap'') (dp_advertised D) \<or> dp_projection D, [''projection.equirectangular_to_cubemap'']),
      (list_ex (\<lambda>c. c = ''spherical.to_cubemap'') (dp_advertised D), [''projection.cubemap_rig'']),
      (dp_actions D \<noteq> None, [''backend.actions'', ''backend.action_schema'', ''backend.action_validate'', ''backend.action_jobs'']),
      (has_backend_config_schemas fr (dp_backend D), [''backend.config_schemas'']),
      (dp_contracts D, [''backend.artifact_contracts'']),
      (dp_pillow D, [''similarity.dhash'', ''images.thumbnail'']),
      (True, [''pose_priors.read_write'', ''observations.by_image'', ''observations.by_point'', ''inputs.imu'', ''inputs.timestamps'',
         ''import.kapture'', ''import.archive'']),
      (ob_name (dp_backend D) = ''stub'', [''radiance.train'', ''radiance.evaluate'', ''radiance.metrics.psnr'', ''radiance.metrics.ssim'',
         ''radiance.metrics.lpips'']),
      (dp_ffmpeg D, [''video.frame_extract'']),
      (dp_sam D, [''segment.sam''])]"

definition granted :: "printer \<Rightarrow> deployment \<Rightarrow> string \<Rightarrow> bool" where
  "granted fr D c \<longleftrightarrow> list_ex (\<lambda>(b, names). b \<and> c \<in> set names) (grants fr D)"

text \<open>Every name the code switches on is one of the vocabulary, which therefore never grows.\<close>

lemma grants_known: "list_all (\<lambda>(b, names). list_all (\<lambda>c. c \<in> ALL_KNOWN) names) (grants fr D)"
proof -
  have "c \<in> ALL_KNOWN" if "c \<in> set OPTIONAL_CAPABILITIES" for c using that by (simp add: ALL_KNOWN_def)
  note optional = this [unfolded OPTIONAL_CAPABILITIES_def list.set]
  show ?thesis
    unfolding grants_def list.pred_inject prod.case
    by (intro conjI list.pred_inject(1); rule optional; (rule insertI1 | rule insertI2)+)
qed

lemma spherical_known: "''spherical.render_cubemap'' \<in> ALL_KNOWN" "''spherical.to_cubemap'' \<in> ALL_KNOWN"
  by (simp_all add: ALL_KNOWN_def OPTIONAL_CAPABILITIES_def)

lemma spherical_names: "''spherical.render_cubemap'' \<notin> set CORE_CAPABILITIES" "''spherical.to_cubemap'' \<notin> set CORE_CAPABILITIES"
  "''spherical.to_cubemap'' \<notin> set [''projection.equirectangular_to_cubemap'']"
  by (simp_all add: CORE_CAPABILITIES_def)

text \<open>
  A deployment supports exactly the core names, the names of the vocabulary that its backend
  advertises, and those that are granted: a name outside the vocabulary never, whatever the
  backend advertises.
\<close>

theorem supported_iff:
  "supports (detect_uncached fr D) c \<longleftrightarrow>
     c \<in> set CORE_CAPABILITIES \<or> c \<in> ALL_KNOWN \<and> c \<in> set (dp_advertised D) \<or> granted fr D c"
proof -
  have s: "supports caps c = on (cap_features caps) c" for caps by (simp add: supports_def on_def)
  have features: "cap_features (caps\<lparr>cap_features := d\<rparr>) = d" for caps d by simp
  have ex: "list_ex (\<lambda>c. c = a) xs \<longleftrightarrow> a \<in> set xs" for a and xs :: "string list" by (auto simp: list_ex_iff)
  show ?thesis
    unfolding s detect_uncached_def backend_features_def server_features_def Let_def features on_flag set_filter mem_Collect_eq empty_on
      empty_known granted_def grants_def list_ex_Nil_iff list_ex_Cons_iff prod.case ex
    by (simp only: spherical_known spherical_names simp_thms conj_disj_distribR disj_ac conj_ac)
qed

lemma detected_keys: "set (keys (cap_features (detect_uncached fr D))) = ALL_KNOWN"
proof -
  have kf: "set (keys (flag b names d)) = ALL_KNOWN" if "set (keys d) = ALL_KNOWN" "list_all (\<lambda>c. c \<in> ALL_KNOWN) names" for b names d
    using that keys_flag [of b names d] by (simp add: list_all_iff subset_iff)
  have start: "set (keys (cap_features (empty_capabilities b))) = ALL_KNOWN" for b
    using empty_known by (auto simp: keys_iff simp del: not_None_eq)
  have adv: "list_all (\<lambda>c. c \<in> ALL_KNOWN) (filter (\<lambda>c. map_of (cap_features (empty_capabilities b)) c \<noteq> None) xs)" for b xs
    unfolding empty_known by (simp add: list_all_iff)
  have features: "cap_features (caps\<lparr>cap_features := d\<rparr>) = d" for caps d by simp
  show ?thesis
    unfolding detect_uncached_def backend_features_def server_features_def Let_def features
    using grants_known [of fr D] unfolding grants_def list.pred_inject prod.case
    by (intro kf start adv) (simp_all only: list.pred_inject simp_thms)
qed

text \<open>What \<open>require\<close> lets through is what the answer kept in the process supports, from its first use on.\<close>

lemma require_ok:
  "require fr D capability reason cached = (c', Inr ()) \<longleftrightarrow>
     c' = Some (case cached of Some caps \<Rightarrow> caps | None \<Rightarrow> detect_uncached fr D) \<and>
     supports (case cached of Some caps \<Rightarrow> caps | None \<Rightarrow> detect_uncached fr D) capability"
  by (auto simp: require_def detect_capabilities_def guard_def Let_def split: option.splits)

section \<open>The partition\<close>

lemma partition_table:
  "list_all (\<lambda>c. (operation_for_capability c = None) = is_infrastructure_capability c) (CORE_CAPABILITIES @ OPTIONAL_CAPABILITIES)"
  by code_simp

text \<open>Every name is a typed operation or infrastructure, and none is both.\<close>

theorem every_capability_is_placed_once:
  "c \<in> ALL_KNOWN \<Longrightarrow> (operation_for_capability c \<noteq> None) \<noteq> is_infrastructure_capability c"
  using partition_table by (auto simp: list_all_iff ALL_KNOWN_def)

end
