(* ===== verification/Spec2Isabelle.thy ===== *)
theory Spec2Isabelle
  imports Engine_Correct Plugin_Correct Upload_Correct Janitor Job_Reads Routing_Correct Snapshots_Correct Stage_Contracts
    Artifact_Lists Import_Correct Catalog_Promises Image_Metadata_Correct Conversion_Worker_Correct Backend_Options_Correct
    Capability_Flags
begin

text \<open>
  SceneAPI is an HTTP service that runs Structure-from-Motion jobs on engines supplied as
  plugins. This development models, in executable definitions, the parts of the Python
  package that carry its own logic, and proves them correct. Paths are relative to \<open>src\<close>;
  \<open>server\<close> stands for \<open>sceneapi/server\<close>.

  \<^bold>\<open>The program.\<close> A request becomes a graph of task nodes. \<open>server/orchestrator/scheduler.py\<close>
  writes a job row and one task row per node, gives a node whose cache key has a succeeded
  task its outputs at once, and hands the ids of the ready tasks to a queue. A worker
  (\<open>server/workers/dispatcher.py\<close>) takes a task under a lease, runs the handler of its kind,
  commits the result, marks the tasks that can no longer run, delivers those that now can,
  and rolls the job up. The janitor repairs what lost messages and dead workers leave
  behind; resume puts the failed part of a job back to work. Pipelines, the typed
  compositions of processors that a request or a plugin manifest may contain, are validated
  before any of this; uploads bring the bytes that jobs read into a content-addressed store,
  projects, datasets and images name them, and the stages materialize a dataset for a worker.
  What a worker returns passes the artifact contract, becomes artifact rows and, for some kinds,
  a derived dataset; artifacts can be converted to other formats by a planned chain of backend
  steps, imported from elsewhere, and are shown to clients only after private parts are removed.
  Listings and progress snapshots show the rows to clients.

  \<^bold>\<open>Theories and code.\<close>
  \<^item> \<open>Prelude\<close>: Python's JSON values, numbers, strings, insertion-ordered dictionaries, errors
    as values of a sum type; \<open>Errors\<close>: \<open>server/core/errors.py\<close>.
  \<^item> \<open>Readiness\<close>, \<open>Doom\<close>, \<open>Sweep_Loop\<close>: \<open>server/orchestrator/readiness.py\<close>, the abstract
    specification of the sweeps that propagate failure (a relation whose exhaustive runs all
    doom the same tasks), and the loop shared by the two sweeps.
  \<^item> \<open>Hashing\<close>: \<open>server/core/hashing.py\<close> and the cache key of \<open>server/orchestrator/dag.py\<close>.
  \<^item> \<open>Job_Db\<close>, \<open>Job_Service\<close>, \<open>Lease\<close>: the rows of \<open>server/db/models.py\<close> with the queries on
    them, \<open>server/services/job_service.py\<close>, \<open>server/orchestrator/lease.py\<close>.
  \<^item> \<open>Sweeps\<close>, \<open>Dispatcher\<close>, \<open>Scheduler\<close>, \<open>Janitor\<close>: \<open>server/orchestrator/janitor.py\<close>,
    \<open>server/workers/dispatcher.py\<close>, \<open>scheduler.py\<close>, \<open>resume.py\<close> and the
    choice of a backend in \<open>queue.py\<close>, and the tick of the janitor.
  \<^item> \<open>Row_Changes\<close>, \<open>Dispatch_Correct\<close>, \<open>Engine\<close>, \<open>Engine_Correct\<close>: what a transaction may do
    to a row, the guarantees of the dispatcher, the transition system of all transactions in
    any order, and what holds in its reachable states.
  \<^item> \<open>Attributes\<close>, \<open>Processors\<close>, \<open>Pipelines\<close>, \<open>Pipeline_Correct\<close>: \<open>server/core/attributes.py\<close>,
    \<open>processors.py\<close>, \<open>config_stages.py\<close>, \<open>operations.py\<close>, \<open>pipelines.py\<close>, and the typing
    judgement that validation decides.
  \<^item> \<open>Plugin_Dataflow\<close>, \<open>Plugin_Graph\<close>, \<open>Plugin_Correct\<close>: \<open>sfm_hub/models/dataflow.py\<close> with the
    patterns of \<open>validation.py\<close>, and its agreement with the server's validator.
  \<^item> \<open>Blob_Store\<close>, \<open>Uploads\<close>, \<open>Upload_Correct\<close>: \<open>server/storage/blobs.py\<close>,
    \<open>server/services/upload_service.py\<close>, \<open>quota_service.py\<close>.
  \<^item> \<open>Pagination\<close>, \<open>Job_Reads\<close>: \<open>server/db/pagination.py\<close>, the listings of
    \<open>server/adapters/_descriptor_registry.py\<close> with the cursors of
    \<open>server/services/backend_action_service.py\<close>, \<open>list_jobs\<close> and
    \<open>server/services/job_progress_service.py\<close>.
  \<^item> \<open>Json_Text\<close>: canonical JSON text determines the value, so cache keys determine requests.
  \<^item> \<open>Routing\<close>, \<open>Routing_Correct\<close>: \<open>sfm_hub/state.py\<close> and \<open>sfm_hub/routing.py\<close>, the updates of the
    hub's state and the choice of a provider.
  \<^item> \<open>Snapshots\<close>, \<open>Snapshots_Correct\<close>: \<open>server/storage/snapshots.py\<close> as sequences of file system
    calls, with a crash between any two of them or within one.
  \<^item> \<open>Artifact_Inputs\<close>: \<open>server/core/artifacts.py\<close> and the references of
    \<open>server/services/artifact_service.py\<close>.
  \<^item> \<open>Public_Outputs\<close>: \<open>server/core/public_outputs.py\<close>, what clients may see of outputs, errors and
    metadata; \<open>Artifact_Records\<close>, \<open>Artifact_Lists\<close>: the rest of
    \<open>server/services/artifact_service.py\<close>, from the descriptor of a worker to the row and to the
    listings; \<open>Artifact_Correct\<close>: the contract.
  \<^item> \<open>Conversion_Path\<close>, \<open>Artifact_Conversion\<close>: the search for a chain of conversions, and plans,
    conversion jobs and imports of \<open>server/services/artifact_conversion_service.py\<close>;
    \<open>Conversion_Correct\<close>, \<open>Import_Correct\<close>: what they promise. \<open>Conversion_Worker\<close>,
    \<open>Conversion_Worker_Correct\<close>: the task handler \<open>server/workers/tasks/convert_artifact.py\<close> and
    that its calls to the backend follow the chain of the submission.
  \<^item> \<open>Backend_Options\<close>, \<open>Backend_Options_Correct\<close>: \<open>server/adapters/backend_config.py\<close>, the option
    schemas of a backend, the check of a request's options and the contract of the schemas.
  \<^item> \<open>Capability_Flags\<close>: \<open>server/core/capabilities.py\<close>, what a deployment supports, and the
    partition of the names into typed operations and infrastructure.
  \<^item> \<open>Catalog\<close>, \<open>Derived_Datasets\<close>: \<open>project_service.py\<close>, \<open>dataset_service.py\<close> and
    \<open>image_service.py\<close> of \<open>server/services\<close> with the handlers of \<open>images.py\<close> and \<open>datasets.py\<close> of
    \<open>server/api/v1\<close>; \<open>Catalog_Correct\<close>, \<open>Catalog_Reach\<close>, \<open>Catalog_Promises\<close>: the invariant of the
    books, the transition system of all requests in any order, and what follows.
  \<^item> \<open>Image_Metadata\<close>, \<open>Image_Metadata_Correct\<close>: \<open>server/core/image_metadata.py\<close> on lists of bytes.
  \<^item> \<open>Stages\<close>, \<open>Stage_Submits\<close>, \<open>Stage_Table\<close>: \<open>_sfm_stage_core.py\<close>, \<open>_sfm_stage_dataset.py\<close>,
    \<open>_sfm_stage_recipes.py\<close> and \<open>_sfm_stage_recon.py\<close> of \<open>server/services\<close>, with
    \<open>provider_routing_service.py\<close>, \<open>server/core/path_safety.py\<close>, \<open>paths.py\<close> and the handler
    \<open>run_recipe\<close> of \<open>server/api/v1/pipelines.py\<close>; \<open>Stage_Correct\<close>, \<open>Stage_Contracts\<close>: what they promise.

  \<^bold>\<open>How state and operations correspond.\<close> A row is a record with the columns of its table, a
  table a list of rows, the database a record of tables. An operation is a function from the
  database (and the clock, where the code reads it) to the database and the result. An
  exception is a value \<open>Inl e\<close>. A transaction is one function, so transactions are
  serialised; between transactions anything may happen: \<open>engine_step\<close> interleaves the
  transactions of the scheduler, of any number of workers, of the janitor and of the API,
  with deliveries lost, repeated or invented. When a worker is done with a task, the commit of the
  row, the rollup of its job and the marking of the tasks that can no longer run are three
  transactions of \<open>dispatcher.py\<close> in a row. \<open>finish_task\<close>, and \<open>pickup_task\<close> where the pickup ends a
  task, do them at once; \<open>engine_step\<close> has them also one by one: \<open>at_commit\<close> is the state after the
  first, and a rollup or a marking of any job may follow at any time or, when the worker crashes,
  never. The reachable states therefore include those of a crash, and one of them is a defect: a
  job whose last task was committed without the rollup stays pending for ever (\<open>crash_strands_job\<close>). In the
  uploads a request that fails rolls its rows back and keeps what it did to files.

  The catalog is a record of the tables of projects, sources, datasets, images and blobs; an
  operation that fails leaves it as it was, because the session of the request rolls back. Its
  requests are serial: two transactions that read the same reference count and both write it are
  not modelled. The
  stages read it through \<open>stage_view\<close>, which forgets the columns they do not use.

  The component \<open>others\<close> of the resources is an arbitrary type for the engine; the stage services
  instantiate it with the tables of datasets, sources, images and reconstructions.

  \<^bold>\<open>Parameters.\<close> Code that is not in the repository is an argument: SHA-256, the printer of
  floats, the placement of NULL in an ordering, the handlers and hooks of task kinds and the
  services that record outputs (\<open>env\<close>); the data type registry (\<open>contract_env\<close>); the digest
  and its address check (\<open>digest\<close>); the types of the core formats, the capabilities of a deployment and
  the check of options against a backend's schemas (\<open>stage_cfg\<close>); the registry of manifests and
  the plugins found by entry points; the substitutions that redact a text and the check of a
  remote URI (\<open>public_text\<close>); the data types of the package sceneio with Python's \<open>str\<close>
  (\<open>art_cfg\<close>); the registry of backends with their contracts (\<open>conv_cfg\<close>); what the listing of a
  directory or a bucket finds (\<open>source_probe\<close>), what the files of a derived dataset hold
  (\<open>derived_files\<close>) and whether the database cascades deletions; the fresh ids. What a theorem needs of them is a
  hypothesis, and its witness instantiates it.

  \<^bold>\<open>Interfaces.\<close> \<open>dependency_policy\<close> (readiness), \<open>sweep\<close> (a propagation loop; interpreted for the
  dispatcher and the janitor), \<open>job_rollup\<close> (interpreted for the service and for the
  dispatcher's own copy), \<open>content_store\<close> (interpreted for the filesystem store, the memory
  store and the store the factory returns), \<open>paged\<close> (a listing whose tokens enumerate it).

  \<^bold>\<open>What the lemmas show.\<close> The engine: a job is finished only when its tasks are, a running task is
  leased and its upstream is done, results are committed only by the owner of a live lease,
  succeeded tasks are final, failure propagates to exactly the tasks that depend on it, and a
  tick of the janitor recovers what was lost. Pipelines: the validator decides typing,
  validated wiring resolves to supplies of the right type from earlier steps, plugins'
  declarations are judged alike by both validators and cannot break the core (the registry
  \<open>merged_lookup\<close> of these two theorems is one of the proofs, made of the merged tables; the one of
  \<open>server/services/dataflow_registry_service.py\<close>, which prefixes the ids of plugins, is not modelled). Uploads:
  complete uploads read back, every reachable state is consistent. Listings: following the
  tokens ends and shows every row once. Some theorems and lemmas state defects of the code: a dependency
  on another job's task fails the dependent, a failed hash check strands an upload, a page of
  config schemas can skip a row, a later event hides the progress of a task, the manifest of
  images registered by path ignores the files, deleting a project leaves its blobs counted, and a
  conversion may be planned on another backend than it runs on, and a worker that crashes between
  the commit of the last task of a job and the rollup strands the job.
  Catalog: blobs are never counted below the images that use them, a manifest identifies the
  contents of a dataset, datasets with images materialize, a derived dataset is registered once.
  Artifacts: accepted descriptors are complete and accepted again, normalised outputs are always
  recorded, no private key is shown, the planner finds a shortest chain and conversion jobs carry
  it, an import keeps the invariant of the engine. Image heads never raise and are read back.
  The worker of a conversion calls the backend along that chain, but loses the source of the
  artifact over two silent steps. Options are accepted exactly when some schema fits them.
  Stages: a cache key is shared exactly by equal requests, a run has one reconstruction, a recipe
  is a chain whose ready tasks are its frontier, references, paths, pairs and merges stay inside
  tenant, dataset, root and project; and two defects, that a recipe never reuses the work of
  single stages and that features and matches are given different databases. Plugins: resolution
  never chooses one of several providers and ignores the order of manifests. Snapshots: a crash
  at any point leaves readers the old or the complete new snapshots, but one point blocks every
  later seal.

  \<^bold>\<open>Digests.\<close> SHA-256 is an arbitrary function of the model, and nothing is assumed of it. A theorem
  that tells requests, specifications or contents apart by their digests is exact: it holds up to
  \<open>clash\<close>, which says of two given texts, those that the code hashes at this place for these two
  values, that they differ and have one digest. That the printer of floats gives different
  numbers different texts is a hypothesis (\<open>float_printer\<close>).

  \<^bold>\<open>Termination.\<close> There is no fuel in the model of the code. The propagation loops end because
  every turn but the last leaves fewer rows pending, reading in chunks because the rest gets
  shorter. The client loop \<open>walk\<close> over pages takes a bound on the number of pages; one more
  than the number of rows is shown to be enough. The planner ends because every format is queued
  once, the scans of image heads because they move forward in the bytes, and the walks over
  outputs because the values get smaller.

  \<^bold>\<open>Not modelled.\<close> The HTTP routes and wire schemas (FastAPI and pydantic; a request enters the
  model as the JSON its schema dumps) but for the handlers named above; the service of radiance
  fields; the check of an artifact's files against its hash, the regular expressions that redact
  a text and the bytes, thumbnails and EXIF of images; the task handlers and emitters (numpy,
  engine plugins, subprocesses); the S3 store; installation, discovery and diagnosis of plugins;
  configuration, logging and start-up. Rounding of floats, collations other than by code point,
  and text beyond code point 255 are outside the model, as are concurrent transactions that the
  database does not serialise. The plan would continue with radiance fields and the registry of
  data flows.
\<close>

section \<open>The engine and the janitor\<close>

text \<open>
  From the reachable state in which a worker crashed between the commit of the last task and the
  rollup, a tick of the janitor at any time, whatever fails in it, leaves the job pending, although
  its only task has succeeded. The tasks stay terminal and the job pending, so the next tick finds
  the same.
\<close>

lemma crash_strands_job:
  assumes "run_janitor_once env F now (run_crashed, w) = ((d', w'), reclaimed, delivered)"
  shows "map_option job_status (find_job (jobs d') ''j'') = Some Pending"
proof -
  obtain j where j: "find_job (jobs run_crashed) ''j'' = Some j" "job_status j = Pending"
    using crash_before_rollup(3) by auto
  have "keys_unique run_crashed"
    using reachable_inv [OF crash_before_rollup(1)] by (simp add: engine_inv_def)
  from no_tick_rolls_up [OF this crash_before_rollup(2) j assms] j(2) show ?thesis by simp
qed

end
